(* ===== verification/Prelude.thy ===== *)
theory Prelude
  imports Main "HOL-Library.Word"
begin

text \<open>
  Shared vocabulary of the development.

  \<^item> The machine integers of the C sources (\<open>uint8_t\<close>, \<open>uint16_t\<close>, \<open>uint32_t\<close>,
    \<open>uint64_t\<close> and \<open>size_t\<close>) as words.
  \<^item> A state-and-failure monad. A C function that reads or writes the state \<open>'s\<close> is
    a \<open>('a, 's) prog\<close>; it either returns a value in a new state (\<open>Done\<close>) or never
    returns to its caller (\<open>Stopped\<close>, with the reason).
  \<^item> Loops over a list or over a count, and the lemmas on lists, maps and words that
    several components use.
\<close>

unbundle bit_operations_syntax

section \<open>Machine integers\<close>

type_synonym u8 = "8 word"
type_synonym u16 = "16 word"
type_synonym u32 = "32 word"
type_synonym u64 = "64 word"

section \<open>Outcomes and programs\<close>

text \<open>
  The ways a call of the sources does not come back: \<open>HostAbort\<close> is
  \<open>GetHypercallInterface()->Abort()\<close> and \<open>abort()\<close>; \<open>Panic\<close> is \<open>panic()\<close>;
  \<open>AssertFail\<close> is a failed \<open>assert\<close>; \<open>MemFault\<close> is an access the sanitizer or the
  hardware traps (a null or dangling pointer, an access past a block, a division by 0);
  \<open>NoReturn\<close> is the \<open>noreturn\<close> hypercalls that leave the calling stack (\<open>longjmp\<close>, thread
  exit); \<open>Diverge\<close> is a loop that does not end. It is also the answer of a loop whose model
  carries a bound on the iterations and has used it up: where there is one, a lemma shows that
  the bound is enough.
\<close>

datatype stop = HostAbort | Panic | AssertFail | MemFault | NoReturn | Diverge

datatype ('a, 's) outcome = Done 'a 's | Stopped stop

type_synonym ('a, 's) prog = "'s \<Rightarrow> ('a, 's) outcome"

definition retM :: "'a \<Rightarrow> ('a, 's) prog" where
  "retM x = (\<lambda>s. Done x s)"

definition stopM :: "stop \<Rightarrow> ('a, 's) prog" where
  "stopM e = (\<lambda>s. Stopped e)"

definition bindM :: "('a, 's) prog \<Rightarrow> ('a \<Rightarrow> ('b, 's) prog) \<Rightarrow> ('b, 's) prog" where
  "bindM m f = (\<lambda>s. case m s of Done x t \<Rightarrow> f x t | Stopped e \<Rightarrow> Stopped e)"

definition thenM :: "('a, 's) prog \<Rightarrow> ('b, 's) prog \<Rightarrow> ('b, 's) prog" where
  "thenM m n = bindM m (\<lambda>_. n)"

definition getsM :: "('s \<Rightarrow> 'a) \<Rightarrow> ('a, 's) prog" where
  "getsM f = (\<lambda>s. Done (f s) s)"

definition modifyM :: "('s \<Rightarrow> 's) \<Rightarrow> (unit, 's) prog" where
  "modifyM f = (\<lambda>s. Done () (f s))"

definition whenM :: "bool \<Rightarrow> (unit, 's) prog \<Rightarrow> (unit, 's) prog" where
  "whenM b m = (if b then m else retM ())"

definition assertM :: "bool \<Rightarrow> (unit, 's) prog" where
  "assertM b = (if b then retM () else stopM AssertFail)"

text \<open>A sub-state held in a field of a larger state: run a program of the field there.\<close>

definition zoomM :: "('t \<Rightarrow> 's) \<Rightarrow> ('s \<Rightarrow> 't \<Rightarrow> 't) \<Rightarrow> ('a, 's) prog \<Rightarrow> ('a, 't) prog" where
  "zoomM get put m = (\<lambda>t. case m (get t) of Done x s \<Rightarrow> Done x (put s t) | Stopped e \<Rightarrow> Stopped e)"

primrec forM :: "'a list \<Rightarrow> ('a \<Rightarrow> (unit, 's) prog) \<Rightarrow> (unit, 's) prog" where
  "forM [] f = retM ()"
| "forM (x # xs) f = thenM (f x) (forM xs f)"

text \<open>Simplification runs a program as soon as it is applied to a state.\<close>

lemma retM_apply [simp]: "retM x s = Done x s"
  by (simp add: retM_def)

lemma stopM_apply [simp]: "stopM e s = Stopped e"
  by (simp add: stopM_def)

lemma bindM_apply [simp]: "bindM m f s = (case m s of Done x t \<Rightarrow> f x t | Stopped e \<Rightarrow> Stopped e)"
  by (simp add: bindM_def)

lemma thenM_apply [simp]: "thenM m n s = (case m s of Done x t \<Rightarrow> n t | Stopped e \<Rightarrow> Stopped e)"
  by (simp add: thenM_def)

lemma getsM_apply [simp]: "getsM f s = Done (f s) s"
  by (simp add: getsM_def)

lemma modifyM_apply [simp]: "modifyM f s = Done () (f s)"
  by (simp add: modifyM_def)

lemma whenM_apply [simp]: "whenM b m s = (if b then m s else Done () s)"
  by (simp add: whenM_def)

lemma assertM_apply [simp]: "assertM b s = (if b then Done () s else Stopped AssertFail)"
  by (simp add: assertM_def)

lemma zoomM_apply [simp]:
  "zoomM get put m t = (case m (get t) of Done x s \<Rightarrow> Done x (put s t) | Stopped e \<Rightarrow> Stopped e)"
  by (simp add: zoomM_def)

lemma bindM_assoc: "bindM (bindM m f) g = bindM m (\<lambda>x. bindM (f x) g)"
  by (rule ext) (simp split: outcome.splits)

lemma forM_append: "forM (xs @ ys) f = thenM (forM xs f) (forM ys f)"
  by (induction xs) (auto simp: fun_eq_iff split: outcome.splits)

section \<open>Running to completion\<close>

text \<open>
  \<open>runs P m Q\<close>: started in a state that satisfies \<open>P\<close>, the program returns, and its result
  and final state satisfy \<open>Q\<close>. This is total correctness: a program that stops does not
  satisfy it.
\<close>

definition runs :: "('s \<Rightarrow> bool) \<Rightarrow> ('a, 's) prog \<Rightarrow> ('a \<Rightarrow> 's \<Rightarrow> bool) \<Rightarrow> bool" where
  "runs P m Q \<longleftrightarrow> (\<forall>s. P s \<longrightarrow> (\<exists>x t. m s = Done x t \<and> Q x t))"

lemma runsI [intro?]: "(\<And>s. P s \<Longrightarrow> \<exists>x t. m s = Done x t \<and> Q x t) \<Longrightarrow> runs P m Q"
  by (simp add: runs_def)

lemma runsD: "runs P m Q \<Longrightarrow> P s \<Longrightarrow> \<exists>x t. m s = Done x t \<and> Q x t"
  by (simp add: runs_def)

lemma runs_bindM:
  assumes "runs P m R" and "\<And>x. runs (R x) (f x) Q"
  shows "runs P (bindM m f) Q"
  using assms by (fastforce simp: runs_def)

lemma runs_thenM:
  assumes "runs P m (\<lambda>_. R)" and "runs R n Q"
  shows "runs P (thenM m n) Q"
  using assms by (fastforce simp: runs_def)

lemma runs_ret: "(\<And>s. P s \<Longrightarrow> Q x s) \<Longrightarrow> runs P (retM x) Q"
  by (auto simp: runs_def)

lemma runs_if:
  "(b \<Longrightarrow> runs P m Q) \<Longrightarrow> (\<not> b \<Longrightarrow> runs P n Q) \<Longrightarrow> runs P (if b then m else n) Q"
  by simp

lemma runs_forM:
  assumes "\<And>x. x \<in> set xs \<Longrightarrow> runs I (f x) (\<lambda>_. I)"
  shows "runs I (forM xs f) (\<lambda>_. I)"
  using assms
  by (induction xs) (fastforce simp: runs_def)+

section \<open>Collections of facts\<close>

named_theorems heap_simps \<open>what the libc heap operations return and leave\<close>
named_theorems prog_simps \<open>the bodies of the modelled C functions, for symbolic execution\<close>
named_theorems inv_intros \<open>an operation keeps its component's invariant\<close>

section \<open>Lists and maps\<close>

lemma map_upd_delete_fresh [simp]: "m a = None \<Longrightarrow> (m(a \<mapsto> v))(a := None) = m"
  by (auto simp: fun_eq_iff)

lemma set_remove1_distinct: "distinct xs \<Longrightarrow> set (remove1 x xs) = set xs - {x}"
  by (rule set_remove1_eq)

lemma take_append_drop_overwrite_length:
  "n \<le> length xs \<Longrightarrow> length ys = n \<Longrightarrow> length (ys @ drop n xs) = length xs"
  by simp

section \<open>Words\<close>

lemma unat_of_nat_less: "n < 2 ^ LENGTH('a::len) \<Longrightarrow> unat (of_nat n :: 'a word) = n"
  by (simp add: unat_of_nat take_bit_nat_eq_self)

end
