(* ===== verification/Libc.thy ===== *)
theory Libc
  imports Prelude
begin

text \<open>
  The part of the C library the sources link against (\<open>malloc\<close>, \<open>calloc\<close>, \<open>realloc\<close>, \<open>free\<close>,
  \<open>posix_memalign\<close>, \<open>memcpy\<close>, \<open>memset\<close>, \<open>bzero\<close>): a byte memory with the list of the live
  blocks. Addresses are natural numbers, 0 is NULL, and an access that is not inside one live
  block stops with \<open>MemFault\<close>, which is what the sanitized build of the fuzzer does.

  Which address the allocator returns, and what an uninitialised block holds, are read from
  the list \<open>choices\<close>: every behaviour of a correct allocator is the behaviour for some list.
  A choice that is no legal answer, or an empty list, is an allocation failure. The locale
  \<open>block_allocator\<close> is the interface the zone allocator relies on.
\<close>

type_synonym ptr = nat

record heap =
  choices :: "(ptr \<times> (nat \<Rightarrow> u8)) list"
  blocks :: "(ptr \<times> nat) list"
  mem :: "nat \<Rightarrow> u8"

section \<open>Blocks\<close>

definition addr_limit :: nat where
  "addr_limit = 2 ^ 64"

text \<open>A block occupies at least one byte of address space, so that live blocks have different
  addresses even when their size is 0.\<close>

definition separate :: "ptr \<Rightarrow> nat \<Rightarrow> ptr \<Rightarrow> nat \<Rightarrow> bool" where
  "separate a n b m \<longleftrightarrow> a + max 1 n \<le> b \<or> b + max 1 m \<le> a"

definition legal_block :: "(ptr \<times> nat) list \<Rightarrow> ptr \<Rightarrow> nat \<Rightarrow> nat \<Rightarrow> bool" where
  "legal_block bs align a n \<longleftrightarrow>
     a \<noteq> 0 \<and> a mod align = 0 \<and> a + max 1 n < addr_limit \<and> list_all (\<lambda>(b, m). separate a n b m) bs"

definition in_block :: "heap \<Rightarrow> ptr \<Rightarrow> nat \<Rightarrow> bool" where
  "in_block h a n \<longleftrightarrow> list_ex (\<lambda>(b, m). b \<le> a \<and> a + n \<le> b + m) (blocks h)"

text \<open>The invariant of the heap: blocks are not NULL, stay in the address space and are pairwise
  separate.\<close>

fun blocks_wf :: "(ptr \<times> nat) list \<Rightarrow> bool" where
  "blocks_wf [] = True"
| "blocks_wf ((a, n) # bs) \<longleftrightarrow> legal_block bs 1 a n \<and> blocks_wf bs"

definition heap_wf :: "heap \<Rightarrow> bool" where
  "heap_wf h \<longleftrightarrow> blocks_wf (blocks h)"

definition fill :: "(nat \<Rightarrow> u8) \<Rightarrow> ptr \<Rightarrow> nat \<Rightarrow> (nat \<Rightarrow> u8) \<Rightarrow> (nat \<Rightarrow> u8)" where
  "fill m a n f = (\<lambda>x. if a \<le> x \<and> x < a + n then f (x - a) else m x)"

definition read_bytes :: "heap \<Rightarrow> ptr \<Rightarrow> nat \<Rightarrow> u8 list" where
  "read_bytes h a n = map (mem h) [a ..< a + n]"

definition write_bytes :: "ptr \<Rightarrow> u8 list \<Rightarrow> heap \<Rightarrow> heap" where
  "write_bytes a bs h = h\<lparr>mem := fill (mem h) a (length bs) (\<lambda>i. bs ! i)\<rparr>"

section \<open>The allocation functions\<close>

definition alloc_aligned :: "nat \<Rightarrow> nat \<Rightarrow> (nat \<Rightarrow> u8) option \<Rightarrow> (ptr, heap) prog" where
  "alloc_aligned align n content = (\<lambda>h.
     case choices h of
       [] \<Rightarrow> Done 0 h
     | (a, junk) # cs \<Rightarrow>
         (if legal_block (blocks h) align a n
          then Done a (h\<lparr>choices := cs, blocks := (a, n) # blocks h,
                         mem := fill (mem h) a n (case content of None \<Rightarrow> junk | Some f \<Rightarrow> f)\<rparr>)
          else Done 0 (h\<lparr>choices := cs\<rparr>)))"

definition malloc :: "nat \<Rightarrow> (ptr, heap) prog" where
  "malloc n = alloc_aligned 1 n None"

definition calloc :: "nat \<Rightarrow> nat \<Rightarrow> (ptr, heap) prog" where
  "calloc nmemb n = alloc_aligned 1 (nmemb * n) (Some (\<lambda>_. 0))"

text \<open>\<open>posix_memalign\<close>: the error code (\<open>ENOMEM\<close> is 12) and the pointer.\<close>

definition posix_memalign :: "nat \<Rightarrow> nat \<Rightarrow> (int \<times> ptr, heap) prog" where
  "posix_memalign align n =
     bindM (alloc_aligned align n None) (\<lambda>p. retM (if p = 0 then 12 else 0, p))"

definition block_size :: "heap \<Rightarrow> ptr \<Rightarrow> nat option" where
  "block_size h a = map_of (blocks h) a"

definition free :: "ptr \<Rightarrow> (unit, heap) prog" where
  "free p = (\<lambda>h.
     if p = 0 then Done () h
     else case block_size h p of
       None \<Rightarrow> Stopped MemFault
     | Some n \<Rightarrow> Done () (h\<lparr>blocks := filter (\<lambda>(b, m). b \<noteq> p) (blocks h)\<rparr>))"

text \<open>\<open>realloc\<close> moves: it takes a new block, copies the common prefix and frees the old one. On
  failure the old block is left alone.\<close>

definition realloc :: "ptr \<Rightarrow> nat \<Rightarrow> (ptr, heap) prog" where
  "realloc p n = (\<lambda>h.
     if p = 0 then malloc n h
     else case block_size h p of
       None \<Rightarrow> Stopped MemFault
     | Some old \<Rightarrow>
         bindM (malloc n) (\<lambda>q.
           if q = 0 then retM 0
           else thenM (modifyM (write_bytes q (read_bytes h p (min old n))))
                  (thenM (free p) (retM q))) h)"

section \<open>The memory functions\<close>

definition memory_at :: "ptr \<Rightarrow> nat \<Rightarrow> (u8 list, heap) prog" where
  "memory_at a n = (\<lambda>h. if n = 0 \<or> in_block h a n then Done (read_bytes h a n) h else Stopped MemFault)"

definition store_at :: "ptr \<Rightarrow> u8 list \<Rightarrow> (unit, heap) prog" where
  "store_at a bs = (\<lambda>h. if bs = [] \<or> in_block h a (length bs) then Done () (write_bytes a bs h)
                        else Stopped MemFault)"

definition memcpy :: "ptr \<Rightarrow> ptr \<Rightarrow> nat \<Rightarrow> (unit, heap) prog" where
  "memcpy dst src n = bindM (memory_at src n) (store_at dst)"

definition memset :: "ptr \<Rightarrow> u8 \<Rightarrow> nat \<Rightarrow> (unit, heap) prog" where
  "memset dst c n = store_at dst (replicate n c)"

definition bzero :: "ptr \<Rightarrow> nat \<Rightarrow> (unit, heap) prog" where
  "bzero dst n = memset dst 0 n"

section \<open>Little-endian 64-bit cells\<close>

definition bytes_of_u64 :: "u64 \<Rightarrow> u8 list" where
  "bytes_of_u64 w = map (\<lambda>i. ucast (drop_bit (8 * i) w)) [0 ..< 8]"

primrec u64_of_bytes :: "u8 list \<Rightarrow> u64" where
  "u64_of_bytes [] = 0"
| "u64_of_bytes (b # bs) = ucast b OR push_bit 8 (u64_of_bytes bs)"

definition load64 :: "ptr \<Rightarrow> (u64, heap) prog" where
  "load64 a = bindM (memory_at a 8) (\<lambda>bs. retM (u64_of_bytes bs))"

definition store64 :: "ptr \<Rightarrow> u64 \<Rightarrow> (unit, heap) prog" where
  "store64 a w = store_at a (bytes_of_u64 w)"

lemma length_bytes_of_u64 [simp]: "length (bytes_of_u64 w) = 8"
  by (simp add: bytes_of_u64_def)

lemma u64_of_bytes_prefix:
  "u64_of_bytes (map (\<lambda>i. ucast (drop_bit (8 * i) w)) [0 ..< n]) = take_bit (8 * n) w"
proof (induction n arbitrary: w)
  case 0
  then show ?case by simp
next
  case (Suc n)
  have "[0 ..< Suc n] = 0 # map Suc [0 ..< n]"
    by (simp add: upt_conv_Cons map_Suc_upt del: upt_Suc)
  moreover have "drop_bit (8 * Suc i) w = drop_bit (8 * i) (drop_bit 8 w)" for i
    by (simp add: drop_bit_drop_bit algebra_simps)
  ultimately have "u64_of_bytes (map (\<lambda>i. ucast (drop_bit (8 * i) w)) [0 ..< Suc n])
      = ucast (ucast w :: u8) OR push_bit 8 (take_bit (8 * n) (drop_bit 8 w))"
    using Suc [of "drop_bit 8 w"] by (simp add: comp_def del: upt_Suc mult_Suc_right)
  also have "\<dots> = take_bit (8 * Suc n) w"
    by (rule bit_word_eqI) (auto simp: bit_simps)
  finally show ?case .
qed

lemma u64_bytes_roundtrip [simp]: "u64_of_bytes (bytes_of_u64 w) = w"
  unfolding bytes_of_u64_def u64_of_bytes_prefix by (simp add: take_bit_word_eq_self)

section \<open>Facts on blocks\<close>

lemma legal_block_fresh:
  assumes "legal_block bs al a n"
  shows "map_of bs a = None"
proof -
  have "(a, m) \<notin> set bs" for m
    using assms by (auto simp: legal_block_def separate_def list_all_iff)
  then show ?thesis
    by (metis map_of_SomeD not_None_eq)
qed

lemma legal_block_one: "legal_block bs al a n \<Longrightarrow> legal_block bs (Suc 0) a n"
  by (simp add: legal_block_def)

lemma legal_block_subset:
  "legal_block bs al a n \<Longrightarrow> set cs \<subseteq> set bs \<Longrightarrow> legal_block cs al a n"
  by (auto simp: legal_block_def list_all_iff)

lemma blocks_wf_filter: "blocks_wf bs \<Longrightarrow> blocks_wf (filter P bs)"
  by (induction bs rule: blocks_wf.induct) (auto intro: legal_block_subset)

lemma blocks_wf_mem:
  "blocks_wf bs \<Longrightarrow> (a, n) \<in> set bs \<Longrightarrow> a \<noteq> 0 \<and> a + max 1 n < addr_limit"
  by (induction bs rule: blocks_wf.induct) (auto simp: legal_block_def)

lemma blocks_wf_separate:
  "blocks_wf bs \<Longrightarrow> (a, n) \<in> set bs \<Longrightarrow> (b, m) \<in> set bs \<Longrightarrow> a \<noteq> b \<Longrightarrow> separate a n b m"
  by (induction bs rule: blocks_wf.induct)
     (auto simp: legal_block_def list_all_iff separate_def)

lemma map_of_filter_key: "map_of (filter (\<lambda>(b, m). b \<noteq> p) bs) = (map_of bs)(p := None)"
  by (induction bs) (auto simp: fun_eq_iff)

lemma heap_wf_block_size:
  "heap_wf h \<Longrightarrow> block_size h p = Some n \<Longrightarrow> p \<noteq> 0 \<and> p + max 1 n < addr_limit"
  by (auto simp: heap_wf_def block_size_def dest!: map_of_SomeD dest: blocks_wf_mem)

lemma in_blockI: "block_size h p = Some m \<Longrightarrow> k + n \<le> m \<Longrightarrow> in_block h (p + k) n"
  unfolding in_block_def block_size_def list_ex_iff
  by (drule map_of_SomeD, erule bexI [rotated]) simp

lemma in_block_base: "block_size h p = Some m \<Longrightarrow> n \<le> m \<Longrightarrow> in_block h p n"
  using in_blockI [of h p m 0 n] by simp

section \<open>Facts on the operations\<close>

lemma alloc_aligned_cases:
  obtains (null) cs where "alloc_aligned al n c h = Done 0 (h\<lparr>choices := cs\<rparr>)"
  | (block) p cs and f :: "nat \<Rightarrow> u8" where "alloc_aligned al n c h
        = Done p (h\<lparr>choices := cs, blocks := (p, n) # blocks h, mem := fill (mem h) p n f\<rparr>)"
      "legal_block (blocks h) al p n" "\<And>g. c = Some g \<Longrightarrow> f = g"
proof (cases "choices h")
  case Nil
  then have "alloc_aligned al n c h = Done 0 (h\<lparr>choices := []\<rparr>)"
    by (simp add: alloc_aligned_def)
  then show ?thesis by (rule null)
next
  case (Cons x cs)
  then obtain a junk where x: "choices h = (a, junk) # cs" by (cases x) auto
  show ?thesis
  proof (cases "legal_block (blocks h) al a n")
    case True
    show ?thesis
      by (rule block [where p = a and cs = cs and f = "case c of None \<Rightarrow> junk | Some f \<Rightarrow> f"])
         (use True x in \<open>auto simp: alloc_aligned_def\<close>)
  next
    case False
    show ?thesis by (rule null [where cs = cs]) (use False x in \<open>simp add: alloc_aligned_def\<close>)
  qed
qed

lemma calloc_returns: "\<exists>p t. calloc m n h = Done p t"
  by (cases rule: alloc_aligned_cases [of 1 "m * n" "Some (\<lambda>_. 0)" h]) (auto simp: calloc_def)

lemma legal_block_nonnull: "legal_block bs al p n \<Longrightarrow> p \<noteq> 0"
  by (simp add: legal_block_def)

lemma alloc_aligned_contract:
  assumes "heap_wf h"
  shows "\<exists>p t. alloc_aligned al n c h = Done p t \<and> heap_wf t \<and>
           (p = 0 \<and> block_size t = block_size h
            \<or> p \<noteq> 0 \<and> block_size h p = None \<and> block_size t = (block_size h)(p \<mapsto> n))"
proof (cases rule: alloc_aligned_cases [of al n c h])
  case (null cs)
  then show ?thesis using assms by (simp add: heap_wf_def block_size_def fun_eq_iff)
next
  case (block p cs f)
  then show ?thesis
    using assms legal_block_fresh [OF block(2)] legal_block_nonnull [OF block(2)]
    by (simp add: heap_wf_def block_size_def fun_eq_iff legal_block_one)
qed

lemma free_live:
  assumes "heap_wf h" "block_size h p = Some n"
  shows "\<exists>t. free p h = Done () t \<and> heap_wf t \<and> block_size t = (block_size h)(p := None)"
  using assms heap_wf_block_size [OF assms]
  by (auto simp: free_def heap_wf_def block_size_def blocks_wf_filter map_of_filter_key)

lemma free_null [simp]: "free 0 h = Done () h"
  by (simp add: free_def)

lemma free_dead: "p \<noteq> 0 \<Longrightarrow> block_size h p = None \<Longrightarrow> free p h = Stopped MemFault"
  by (simp add: free_def)

lemma read_write_same [simp]: "read_bytes (write_bytes a bs h) a (length bs) = bs"
  by (rule nth_equalityI) (auto simp: read_bytes_def write_bytes_def fill_def)

lemma read_write_other:
  "a + n \<le> b \<or> b + length bs \<le> a \<Longrightarrow> read_bytes (write_bytes b bs h) a n = read_bytes h a n"
  by (auto simp: read_bytes_def write_bytes_def fill_def)

lemma length_read_bytes [simp]: "length (read_bytes h a n) = n"
  by (simp add: read_bytes_def)

lemma read_bytes_part: "i + k \<le> n \<Longrightarrow> read_bytes h (a + i) k = take k (drop i (read_bytes h a n))"
  by (rule nth_equalityI) (auto simp: read_bytes_def add.assoc)

lemma read_bytes_part_cong:
  "read_bytes t b n = read_bytes h a n \<Longrightarrow> i + k \<le> n \<Longrightarrow> read_bytes t (b + i) k = read_bytes h (a + i) k"
  by (simp add: read_bytes_part [where n = n])

lemma write_bytes_frame [simp]:
  "blocks (write_bytes a bs h) = blocks h" "choices (write_bytes a bs h) = choices h"
  "block_size (write_bytes a bs h) = block_size h" "heap_wf (write_bytes a bs h) = heap_wf h"
  "in_block (write_bytes a bs h) = in_block h"
  by (auto simp: write_bytes_def block_size_def heap_wf_def in_block_def fun_eq_iff)

text \<open>\<open>keeps h t A\<close>: the blocks of \<open>h\<close> outside \<open>A\<close> are live in \<open>t\<close> with the same size and bytes.\<close>

definition keeps :: "heap \<Rightarrow> heap \<Rightarrow> ptr set \<Rightarrow> bool" where
  "keeps h t A \<longleftrightarrow> (\<forall>q m. q \<notin> A \<longrightarrow> block_size h q = Some m \<longrightarrow>
     block_size t q = Some m \<and> read_bytes t q m = read_bytes h q m)"

lemma keeps_refl [simp]: "keeps h h A"
  by (simp add: keeps_def)

lemma keeps_trans: "keeps h t A \<Longrightarrow> keeps t u B \<Longrightarrow> keeps h u (A \<union> B)"
  by (simp add: keeps_def)

lemma keeps_mono: "keeps h t A \<Longrightarrow> A \<subseteq> B \<Longrightarrow> keeps h t B"
  by (auto simp: keeps_def)

lemma keeps_fresh: "keeps h t (insert q A) \<Longrightarrow> block_size h q = None \<Longrightarrow> keeps h t A"
  unfolding keeps_def by (metis insert_iff option.distinct(1))

lemma alloc_aligned_keeps:
  assumes "alloc_aligned al n c h = Done p t"
  shows "keeps h t {}"
proof (cases rule: alloc_aligned_cases [of al n c h])
  case (null cs)
  then show ?thesis using assms by (simp add: keeps_def read_bytes_def block_size_def)
next
  case (block a cs f)
  have "block_size t q = Some m \<and> read_bytes t q m = read_bytes h q m" if q: "block_size h q = Some m" for q m
  proof -
    have "(q, m) \<in> set (blocks h)" using q by (simp add: block_size_def map_of_SomeD)
    then have "separate a n q m" using block(2) by (auto simp: legal_block_def list_all_iff)
    then show ?thesis using block(1) assms q by (auto simp: read_bytes_def fill_def separate_def block_size_def)
  qed
  then show ?thesis by (simp add: keeps_def)
qed

lemma write_bytes_keeps:
  assumes "heap_wf h" "block_size h p = Some n" "p \<le> a" "a + length bs \<le> p + n"
  shows "keeps h (write_bytes a bs h) {p}"
proof -
  have "read_bytes (write_bytes a bs h) q m = read_bytes h q m" if "q \<noteq> p" "block_size h q = Some m" for q m
  proof -
    have "separate p n q m"
      using assms(1,2) that by (auto simp: heap_wf_def block_size_def intro!: blocks_wf_separate dest!: map_of_SomeD)
    then show ?thesis using assms(3,4) by (intro read_write_other) (auto simp: separate_def)
  qed
  then show ?thesis by (simp add: keeps_def)
qed

lemma free_keeps:
  assumes "free p h = Done () t"
  shows "keeps h t {p}" and "mem t = mem h"
  using assms
  by (auto simp: free_def keeps_def block_size_def read_bytes_def map_of_filter_key split: if_splits option.splits)

lemma blocks_wf_map_of: "blocks_wf bs \<Longrightarrow> (b, l) \<in> set bs \<Longrightarrow> map_of bs b = Some l"
  by (induction bs rule: blocks_wf.induct) (auto simp: legal_block_def separate_def list_all_iff)

lemma keeps_in_block:
  assumes "heap_wf h" "keeps h t {}" "in_block h a n"
  shows "in_block t a n" and "read_bytes t a n = read_bytes h a n"
proof -
  obtain b l where b: "(b, l) \<in> set (blocks h)" "b \<le> a" "a + n \<le> b + l"
    using assms(3) by (auto simp: in_block_def list_ex_iff)
  then have "block_size h b = Some l" using assms(1) by (simp add: heap_wf_def block_size_def blocks_wf_map_of)
  then have t: "block_size t b = Some l" "read_bytes t b l = read_bytes h b l" using assms(2) by (auto simp: keeps_def)
  show "in_block t a n" using in_blockI [OF t(1), of "a - b" n] b(2,3) by simp
  show "read_bytes t a n = read_bytes h a n" using read_bytes_part_cong [OF t(2), of "a - b" n] b(2,3) by simp
qed

text \<open>What \<open>realloc\<close> does: it fails and changes nothing, or it moves the block.\<close>

lemma realloc_contract:
  assumes wf: "heap_wf h" and p: "p = 0 \<or> block_size h p = Some old"
  obtains (fail) t where "realloc p n h = Done 0 t" "heap_wf t" "block_size t = block_size h" "keeps h t {}"
  | (move) q t where "realloc p n h = Done q t" "heap_wf t" "q \<noteq> 0" "block_size h q = None"
      "block_size t = (block_size h)(p := None, q \<mapsto> n)" "keeps h t {p}"
      "p \<noteq> 0 \<Longrightarrow> read_bytes t q (min old n) = read_bytes h p (min old n)"
proof -
  obtain q t where m: "malloc n h = Done q t" "heap_wf t"
    "q = 0 \<and> block_size t = block_size h \<or> q \<noteq> 0 \<and> block_size h q = None \<and> block_size t = (block_size h)(q \<mapsto> n)"
    using alloc_aligned_contract [OF wf] unfolding malloc_def by blast
  have k: "keeps h t {}" using m(1) unfolding malloc_def by (rule alloc_aligned_keeps)
  have h0: "block_size h 0 = None" using wf heap_wf_block_size by (cases "block_size h 0") auto
  consider "q = 0" | "p = 0" "q \<noteq> 0" | "p \<noteq> 0" "q \<noteq> 0" by blast
  then show thesis
  proof cases
    case 1
    then show thesis using m k p by (intro fail [of t]) (auto simp: realloc_def)
  next
    case 2
    then show thesis using m k h0
      by (intro move [of q t]) (auto simp: realloc_def keeps_def fun_eq_iff)
  next
    case 3
    let ?w = "write_bytes q (read_bytes h p (min old n)) t"
    have sz: "block_size t q = Some n" "block_size t p = Some old" "p \<noteq> q"
      using 3 m p by auto
    obtain u where u: "free p ?w = Done () u" "heap_wf u" "block_size u = (block_size t)(p := None)"
      using free_live [of ?w p old] m(2) sz by auto
    have kw: "keeps t ?w {q}" using m(2) sz by (intro write_bytes_keeps) auto
    have "keeps h u {p}"
      using keeps_trans [OF keeps_trans [OF k kw] free_keeps(1) [OF u(1)]] m(3) 3 by (auto simp: keeps_def)
    moreover have "read_bytes u q (min old n) = read_bytes h p (min old n)"
      using free_keeps(2) [OF u(1)] read_write_same [of q "read_bytes h p (min old n)" t]
      by (simp add: read_bytes_def)
    ultimately show thesis
      using 3 m sz u p by (intro move [of q u]) (auto simp: realloc_def fun_eq_iff)
  qed
qed

section \<open>The interface of a block allocator\<close>

text \<open>
  What every client of an allocator relies on, whatever the state it is embedded in: an
  allocation returns, answers NULL or a block that was not live, and changes no other block;
  freeing a live block removes it and nothing else; freeing NULL does nothing; freeing anything
  else is trapped. \<open>live\<close> is the map of the live blocks to their sizes.
\<close>

locale block_allocator =
  fixes alloc :: "nat \<Rightarrow> (ptr, 's) prog"
    and dealloc :: "ptr \<Rightarrow> (unit, 's) prog"
    and live :: "'s \<Rightarrow> ptr \<rightharpoonup> nat"
    and ok :: "'s \<Rightarrow> bool"
  assumes alloc_contract: "ok s \<Longrightarrow> \<exists>p t. alloc n s = Done p t \<and> ok t \<and>
      (p = 0 \<and> live t = live s \<or> p \<noteq> 0 \<and> live s p = None \<and> live t = (live s)(p \<mapsto> n))"
    and dealloc_null: "dealloc 0 s = Done () s"
    and dealloc_live: "ok s \<Longrightarrow> live s p = Some n \<Longrightarrow>
      \<exists>t. dealloc p s = Done () t \<and> ok t \<and> live t = (live s)(p := None)"
    and dealloc_dead: "p \<noteq> 0 \<Longrightarrow> live s p = None \<Longrightarrow> dealloc p s = Stopped MemFault"
begin

lemma alloc_dealloc_restores:
  assumes "ok s"
  shows "\<exists>p t u. alloc n s = Done p t \<and> dealloc p t = Done () u \<and> ok u \<and> live u = live s"
proof -
  obtain p t where p: "alloc n s = Done p t" "ok t"
    "p = 0 \<and> live t = live s \<or> p \<noteq> 0 \<and> live s p = None \<and> live t = (live s)(p \<mapsto> n)"
    using alloc_contract [OF assms] by blast
  show ?thesis
  proof (cases "p = 0")
    case True
    then show ?thesis using p dealloc_null by auto
  next
    case False
    then have "live t p = Some n" using p(3) by auto
    from dealloc_live [OF p(2) this] show ?thesis using p False by (auto simp: fun_eq_iff)
  qed
qed

lemma double_free_trapped:
  assumes "ok s" "live s p = Some n" "p \<noteq> 0"
  shows "thenM (dealloc p) (dealloc p) s = Stopped MemFault"
proof -
  obtain t where "dealloc p s = Done () t" "live t = (live s)(p := None)"
    using dealloc_live [OF assms(1,2)] by blast
  then show ?thesis using dealloc_dead [OF assms(3), of t] by simp
qed

text \<open>Freeing a list of different live blocks frees exactly them.\<close>

lemma dealloc_list:
  assumes "ok s" "distinct ps" "\<forall>p \<in> set ps. live s p \<noteq> None"
  shows "\<exists>t. forM ps dealloc s = Done () t \<and> ok t \<and>
           live t = (\<lambda>q. if q \<in> set ps then None else live s q)"
  using assms
proof (induction ps arbitrary: s)
  case Nil
  then show ?case by auto
next
  case (Cons p ps)
  then obtain n where "live s p = Some n" by auto
  from dealloc_live [OF Cons.prems(1) this]
  obtain t where t: "dealloc p s = Done () t" "ok t" "live t = (live s)(p := None)" by blast
  have "\<forall>q \<in> set ps. live t q \<noteq> None" using Cons.prems t(3) by auto
  from Cons.IH [OF t(2) _ this] Cons.prems(2)
  obtain u where "forM ps dealloc t = Done () u" "ok u"
    "live u = (\<lambda>q. if q \<in> set ps then None else live t q)" by auto
  then show ?case using t by (auto simp: fun_eq_iff)
qed

end

interpretation libc: block_allocator malloc free block_size heap_wf
proof unfold_locales
  fix h n assume "heap_wf h"
  then show "\<exists>p t. malloc n h = Done p t \<and> heap_wf t \<and> (p = 0 \<and> block_size t = block_size h
      \<or> p \<noteq> 0 \<and> block_size h p = None \<and> block_size t = (block_size h)(p \<mapsto> n))"
    unfolding malloc_def by (rule alloc_aligned_contract)
qed (auto simp: free_dead intro: free_live)

lemma calloc_runs:
  assumes "heap_wf h"
  shows "\<exists>p t. calloc m n h = Done p t \<and> heap_wf t \<and> keeps h t {} \<and>
     (p = 0 \<and> block_size t = block_size h \<or>
      p \<noteq> 0 \<and> block_size h p = None \<and> block_size t = (block_size h)(p \<mapsto> m * n) \<and> read_bytes t p (m * n) = replicate (m * n) 0 \<and>
      (\<forall>a k. in_block h a k \<longrightarrow> in_block t a k))"
proof (cases rule: alloc_aligned_cases [where al = 1 and n = "m * n" and c = "Some (\<lambda>_. 0)" and h = h])
  case (null cs)
  moreover have "keeps h (h\<lparr>choices := cs\<rparr>) {}" using null(1) by (rule alloc_aligned_keeps)
  ultimately show ?thesis using assms by (simp add: calloc_def heap_wf_def block_size_def fun_eq_iff)
next
  case (block p cs f)
  let ?t = "h\<lparr>choices := cs, blocks := (p, m * n) # blocks h, mem := fill (mem h) p (m * n) f\<rparr>"
  have "f = (\<lambda>_. 0)" using block(3) by simp
  then have z: "read_bytes ?t p (m * n) = replicate (m * n) 0"
    by (intro nth_equalityI) (simp_all add: read_bytes_def fill_def)
  have "keeps h ?t {}" using block(1) by (rule alloc_aligned_keeps)
  then show ?thesis
    using assms block(1) z legal_block_fresh [OF block(2)] legal_block_nonnull [OF block(2)]
    by (simp add: calloc_def heap_wf_def block_size_def fun_eq_iff legal_block_one [OF block(2), simplified] in_block_def)
qed

lemma read_bytes_append: "read_bytes h a (n + k) = read_bytes h a n @ read_bytes h (a + n) k"
  by (rule nth_equalityI) (auto simp: read_bytes_def nth_append add.assoc)

end
