(* ===== verification/FuzzData.thy ===== *)
theory FuzzData
  imports Libc
begin

text \<open>
  The fuzzed input stream as the guest sees it: the \<open>GetFuzzed...\<close> hypercalls of
  \<open>fuzz/host/hypercall/hypercall.cc\<close> over \<open>xnu_fdp\<close>.

  \<open>FuzzedDataProvider\<close> is a class of LLVM and not code of this repository. A provider is
  therefore any object with its methods (the codatatype \<open>fdp\<close>: a method call answers with a
  value and the object after the call); \<open>fdp_ok\<close> states what the LLVM header documents of them,
  and \<open>byte_fdp\<close> is one provider with that behaviour.
\<close>

section \<open>The provider object\<close>

codatatype fdp = Fdp
  (consume_bytes: "nat \<Rightarrow> u8 list \<times> fdp")
  (consume_bool: "bool \<times> fdp")
  (consume_u32: "u32 \<times> fdp")
  (consume_u64: "u64 \<times> fdp")
  (consume_u32_in_range: "u32 \<Rightarrow> u32 \<Rightarrow> u32 \<times> fdp")
  (consume_u64_in_range: "u64 \<Rightarrow> u64 \<Rightarrow> u64 \<times> fdp")
  (remaining_bytes: nat)

text \<open>What the header of the class documents: at most the requested bytes and at most the
  remaining ones are returned, a ranged integer is in its range, and the number of remaining
  bytes never grows.\<close>

coinductive fdp_ok :: "fdp \<Rightarrow> bool" where
  "(\<And>n bs d'. consume_bytes d n = (bs, d') \<Longrightarrow>
      length bs = min n (remaining_bytes d) \<and> remaining_bytes d' = remaining_bytes d - length bs
      \<and> fdp_ok d') \<Longrightarrow>
   (\<And>b d'. consume_bool d = (b, d') \<Longrightarrow> remaining_bytes d' \<le> remaining_bytes d \<and> fdp_ok d') \<Longrightarrow>
   (\<And>w d'. consume_u32 d = (w, d') \<Longrightarrow> remaining_bytes d' \<le> remaining_bytes d \<and> fdp_ok d') \<Longrightarrow>
   (\<And>w d'. consume_u64 d = (w, d') \<Longrightarrow> remaining_bytes d' \<le> remaining_bytes d \<and> fdp_ok d') \<Longrightarrow>
   (\<And>lo hi w d'. lo \<le> hi \<Longrightarrow> consume_u32_in_range d lo hi = (w, d') \<Longrightarrow>
      lo \<le> w \<and> w \<le> hi \<and> remaining_bytes d' \<le> remaining_bytes d \<and> fdp_ok d') \<Longrightarrow>
   (\<And>lo hi w d'. lo \<le> hi \<Longrightarrow> consume_u64_in_range d lo hi = (w, d') \<Longrightarrow>
      lo \<le> w \<and> w \<le> hi \<and> remaining_bytes d' \<le> remaining_bytes d \<and> fdp_ok d') \<Longrightarrow>
   fdp_ok d"

lemma fdp_ok_bytes:
  "fdp_ok d \<Longrightarrow> consume_bytes d n = (bs, d') \<Longrightarrow> length bs = min n (remaining_bytes d) \<and> fdp_ok d'"
  by (erule fdp_ok.cases) blast

lemma fdp_ok_bool: "fdp_ok d \<Longrightarrow> consume_bool d = (b, d') \<Longrightarrow> fdp_ok d'"
  by (erule fdp_ok.cases) blast

lemma fdp_ok_u32: "fdp_ok d \<Longrightarrow> consume_u32 d = (w, d') \<Longrightarrow> fdp_ok d'"
  by (erule fdp_ok.cases) blast

lemma fdp_ok_u64: "fdp_ok d \<Longrightarrow> consume_u64 d = (w, d') \<Longrightarrow> fdp_ok d'"
  by (erule fdp_ok.cases) blast

lemma fdp_ok_u32_in_range:
  "fdp_ok d \<Longrightarrow> lo \<le> hi \<Longrightarrow> consume_u32_in_range d lo hi = (w, d') \<Longrightarrow> lo \<le> w \<and> w \<le> hi \<and> fdp_ok d'"
  by (erule fdp_ok.cases) blast

lemma fdp_ok_u64_in_range:
  "fdp_ok d \<Longrightarrow> lo \<le> hi \<Longrightarrow> consume_u64_in_range d lo hi = (w, d') \<Longrightarrow> lo \<le> w \<and> w \<le> hi \<and> fdp_ok d'"
  by (erule fdp_ok.cases) blast

text \<open>A provider over a list of bytes: an integer takes one byte and reduces it into its range, 
  and an empty list gives the low end of every range.\<close>

definition byte_in :: "nat \<Rightarrow> nat \<Rightarrow> u8 list \<Rightarrow> nat" where
  "byte_in lo hi bs = (case bs of [] \<Rightarrow> lo | b # _ \<Rightarrow> lo + unat b mod (hi - lo + 1))"

primcorec byte_fdp :: "u8 list \<Rightarrow> fdp" where
  "consume_bytes (byte_fdp bs) = (\<lambda>n. (take n bs, byte_fdp (drop n bs)))"
| "consume_bool (byte_fdp bs) = (byte_in 0 1 bs = 1, byte_fdp (tl bs))"
| "consume_u32 (byte_fdp bs) = (of_nat (byte_in 0 255 bs), byte_fdp (tl bs))"
| "consume_u64 (byte_fdp bs) = (of_nat (byte_in 0 255 bs), byte_fdp (tl bs))"
| "consume_u32_in_range (byte_fdp bs) =
     (\<lambda>lo hi. (of_nat (byte_in (unat lo) (unat hi) bs), byte_fdp (tl bs)))"
| "consume_u64_in_range (byte_fdp bs) =
     (\<lambda>lo hi. (of_nat (byte_in (unat lo) (unat hi) bs), byte_fdp (tl bs)))"
| "remaining_bytes (byte_fdp bs) = length bs"

lemma byte_in_range: "lo \<le> hi \<Longrightarrow> lo \<le> byte_in lo hi bs \<and> byte_in lo hi bs \<le> hi"
proof (cases bs)
  case (Cons b cs)
  assume "lo \<le> hi"
  moreover have "unat b mod (hi - lo + 1) < hi - lo + 1" by (rule mod_less_divisor) simp
  ultimately have "lo + unat b mod (hi - lo + 1) \<le> hi" by linarith
  then show ?thesis using Cons by (simp add: byte_in_def)
qed (simp add: byte_in_def)

lemma of_nat_in_range:
  fixes lo hi :: "'a::len word"
  assumes "unat lo \<le> n" "n \<le> unat hi"
  shows "lo \<le> of_nat n \<and> of_nat n \<le> hi"
proof -
  have "n < 2 ^ LENGTH('a)" using assms(2) unsigned_less [of hi, where 'a = nat] by linarith
  then show ?thesis using assms by (simp add: word_le_nat_alt unat_of_nat_less)
qed

lemma byte_fdp_ok: "fdp_ok (byte_fdp bs)"
proof (coinduction arbitrary: bs)
  case fdp_ok
  have 32: "lo \<le> of_nat (byte_in (unat lo) (unat hi) bs) \<and> of_nat (byte_in (unat lo) (unat hi) bs) \<le> hi"
    if "lo \<le> hi" for lo hi :: u32
    using that byte_in_range [of "unat lo" "unat hi" bs]
    by (intro of_nat_in_range) (auto simp: word_le_nat_alt)
  have 64: "lo \<le> of_nat (byte_in (unat lo) (unat hi) bs) \<and> of_nat (byte_in (unat lo) (unat hi) bs) \<le> hi"
    if "lo \<le> hi" for lo hi :: u64
    using that byte_in_range [of "unat lo" "unat hi" bs]
    by (intro of_nat_in_range) (auto simp: word_le_nat_alt)
  show ?case
    using 32 64 by (intro exI [of _ "byte_fdp bs"]) auto
qed

section \<open>The hypercalls\<close>

text \<open>\<open>None\<close> is the null \<open>xnu_fdp\<close>: the two hypercalls that test for it have a default; the
  others dereference it.\<close>

type_synonym fuzz = "fdp option"

definition pad_bytes :: "nat \<Rightarrow> u8 list \<Rightarrow> u8 list" where
  "pad_bytes n bs = bs @ replicate (n - length bs) 0"

definition GetFuzzedBytes :: "nat \<Rightarrow> (u8 list, fuzz) prog" where
  "GetFuzzedBytes n = (\<lambda>x. case x of
     None \<Rightarrow> Done (replicate n 0) None
   | Some d \<Rightarrow> (case consume_bytes d n of (dat, d') \<Rightarrow> Done (pad_bytes n dat) (Some d')))"

definition GetFuzzedBool :: "(bool, fuzz) prog" where
  "GetFuzzedBool = (\<lambda>x. case x of
     None \<Rightarrow> Done False None
   | Some d \<Rightarrow> (case consume_bool d of (b, d') \<Rightarrow> Done b (Some d')))"

definition GetFuzzedUint32 :: "(u32, fuzz) prog" where
  "GetFuzzedUint32 = (\<lambda>x. case x of
     None \<Rightarrow> Stopped MemFault
   | Some d \<Rightarrow> (case consume_u32 d of (w, d') \<Rightarrow> Done w (Some d')))"

definition GetFuzzedUint32InRange :: "u32 \<Rightarrow> u32 \<Rightarrow> (u32, fuzz) prog" where
  "GetFuzzedUint32InRange lo hi = (\<lambda>x. case x of
     None \<Rightarrow> Stopped MemFault
   | Some d \<Rightarrow> (case consume_u32_in_range d lo hi of (w, d') \<Rightarrow> Done w (Some d')))"

definition GetFuzzedUint64 :: "(u64, fuzz) prog" where
  "GetFuzzedUint64 = (\<lambda>x. case x of
     None \<Rightarrow> Stopped MemFault
   | Some d \<Rightarrow> (case consume_u64 d of (w, d') \<Rightarrow> Done w (Some d')))"

definition GetFuzzedUint64InRange :: "u64 \<Rightarrow> u64 \<Rightarrow> (u64, fuzz) prog" where
  "GetFuzzedUint64InRange lo hi = (\<lambda>x. case x of
     None \<Rightarrow> Stopped MemFault
   | Some d \<Rightarrow> (case consume_u64_in_range d lo hi of (w, d') \<Rightarrow> Done w (Some d')))"

definition GetRemainingFuzzedBytes :: "(u32, fuzz) prog" where
  "GetRemainingFuzzedBytes = (\<lambda>x. case x of
     None \<Rightarrow> Stopped MemFault
   | Some d \<Rightarrow> Done (of_nat (remaining_bytes d)) (Some d))"

definition fuzz_ok :: "fuzz \<Rightarrow> bool" where
  "fuzz_ok x \<longleftrightarrow> (case x of None \<Rightarrow> True | Some d \<Rightarrow> fdp_ok d)"

lemma length_pad_bytes [simp]: "length bs \<le> n \<Longrightarrow> length (pad_bytes n bs) = n"
  by (simp add: pad_bytes_def)

lemma GetFuzzedBytes_runs:
  "fuzz_ok x \<Longrightarrow> \<exists>bs y. GetFuzzedBytes n x = Done bs y \<and> length bs = n \<and> fuzz_ok y"
  by (cases x) (auto simp: GetFuzzedBytes_def fuzz_ok_def split: prod.split dest: fdp_ok_bytes)

lemma GetFuzzedUint32InRange_runs:
  "fuzz_ok x \<Longrightarrow> x \<noteq> None \<Longrightarrow> lo \<le> hi \<Longrightarrow>
   \<exists>w y. GetFuzzedUint32InRange lo hi x = Done w y \<and> lo \<le> w \<and> w \<le> hi \<and> fuzz_ok y \<and> y \<noteq> None"
  by (auto simp: GetFuzzedUint32InRange_def fuzz_ok_def split: prod.split dest: fdp_ok_u32_in_range)

section \<open>Properties\<close>

text \<open>Draws that return values of a set, on a well-formed input and leaving one behind.\<close>

definition draws :: "('a, fuzz) prog \<Rightarrow> ('a \<Rightarrow> bool) \<Rightarrow> fuzz \<Rightarrow> bool" where
  "draws f P x \<longleftrightarrow> (\<exists>v y. f x = Done v y \<and> P v \<and> fuzz_ok y \<and> (y = None \<longleftrightarrow> x = None))"

text \<open>Every draw from the fuzzer's input is well typed. On a well-formed input the draws of bytes, Booleans, integers and integers
  in a range return, the bytes are as many as asked for (padded with zeros at the end of the input), a ranged integer lies
  in its range, and the input stays well formed. Without an input, bytes are zeros and a Boolean is false, while the integer
  draws fault.\<close>

lemma fuzzed_values_typed:
  assumes "fuzz_ok x" and "lo \<le> hi" and "lo' \<le> hi'"
  shows "draws (GetFuzzedBytes n) (\<lambda>bs. length bs = n) x \<and> draws GetFuzzedBool (\<lambda>_. True) x \<and>
     (if x = None
      then GetFuzzedUint32 x = Stopped MemFault \<and> GetFuzzedUint64 x = Stopped MemFault \<and>
        GetFuzzedUint32InRange lo hi x = Stopped MemFault \<and> GetFuzzedUint64InRange lo' hi' x = Stopped MemFault
      else draws GetFuzzedUint32 (\<lambda>_. True) x \<and> draws GetFuzzedUint64 (\<lambda>_. True) x \<and>
        draws (GetFuzzedUint32InRange lo hi) (\<lambda>w. lo \<le> w \<and> w \<le> hi) x \<and>
        draws (GetFuzzedUint64InRange lo' hi') (\<lambda>w. lo' \<le> w \<and> w \<le> hi') x)"
proof (cases x)
  case None
  then show ?thesis
    by (auto simp: draws_def fuzz_ok_def GetFuzzedBytes_def GetFuzzedBool_def GetFuzzedUint32_def GetFuzzedUint64_def
        GetFuzzedUint32InRange_def GetFuzzedUint64InRange_def)
next
  case (Some d)
  then have ok: "fdp_ok d" using assms(1) by (simp add: fuzz_ok_def)
  have "draws (GetFuzzedBytes n) (\<lambda>bs. length bs = n) x"
    using ok fdp_ok_bytes [OF ok] by (cases "consume_bytes d n") (auto simp: draws_def Some GetFuzzedBytes_def fuzz_ok_def)
  moreover have "draws GetFuzzedBool (\<lambda>_. True) x"
    using fdp_ok_bool [OF ok] by (cases "consume_bool d") (simp add: draws_def Some GetFuzzedBool_def fuzz_ok_def)
  moreover have "draws GetFuzzedUint32 (\<lambda>_. True) x"
    using fdp_ok_u32 [OF ok] by (cases "consume_u32 d") (simp add: draws_def Some GetFuzzedUint32_def fuzz_ok_def)
  moreover have "draws GetFuzzedUint64 (\<lambda>_. True) x"
    using fdp_ok_u64 [OF ok] by (cases "consume_u64 d") (simp add: draws_def Some GetFuzzedUint64_def fuzz_ok_def)
  moreover have "draws (GetFuzzedUint32InRange lo hi) (\<lambda>w. lo \<le> w \<and> w \<le> hi) x"
    using fdp_ok_u32_in_range [OF ok assms(2)]
    by (cases "consume_u32_in_range d lo hi") (simp add: draws_def Some GetFuzzedUint32InRange_def fuzz_ok_def)
  moreover have "draws (GetFuzzedUint64InRange lo' hi') (\<lambda>w. lo' \<le> w \<and> w \<le> hi') x"
    using fdp_ok_u64_in_range [OF ok assms(3)]
    by (cases "consume_u64_in_range d lo' hi'") (simp add: draws_def Some GetFuzzedUint64InRange_def fuzz_ok_def)
  ultimately show ?thesis by (simp add: Some)
qed

lemma fuzzed_values_typed_witness:
  "draws (GetFuzzedUint32InRange 3 9) (\<lambda>w. 3 \<le> w \<and> w \<le> 9) (Some (byte_fdp [200]))"
proof -
  have "fuzz_ok (Some (byte_fdp [200]))" by (simp add: fuzz_ok_def byte_fdp_ok)
  moreover have "(3 :: u32) \<le> 9" "(0 :: u64) \<le> 0" by simp_all
  ultimately show ?thesis using fuzzed_values_typed [of "Some (byte_fdp [200])" 3 9 0 0] by simp
qed

end
