(* ===== verification/Machine.thy ===== *)
theory Machine
  imports FuzzData
begin

text \<open>
  The state every C component of the guest shares: the libc heap and the fuzzed input stream,
  with the two lifts that run a heap or a stream operation in any larger state. The components
  extend the record \<open>mach\<close> with their own globals.
\<close>

record mach =
  mheap :: heap
  mfuzz :: fuzz

definition heapM :: "('a, heap) prog \<Rightarrow> ('a, 'z mach_scheme) prog" where
  "heapM m = zoomM mheap (\<lambda>h s. s\<lparr>mheap := h\<rparr>) m"

definition fuzzM :: "('a, fuzz) prog \<Rightarrow> ('a, 'z mach_scheme) prog" where
  "fuzzM m = zoomM mfuzz (\<lambda>f s. s\<lparr>mfuzz := f\<rparr>) m"

definition abortM :: "('a, 's) prog" where
  "abortM = stopM HostAbort"

definition panicM :: "('a, 's) prog" where
  "panicM = stopM Panic"

lemma abortM_apply [simp]: "abortM s = Stopped HostAbort"
  by (simp add: abortM_def)

lemma panicM_apply [simp]: "panicM s = Stopped Panic"
  by (simp add: panicM_def)

lemma heapM_apply [simp]:
  "heapM m s = (case m (mheap s) of Done x h \<Rightarrow> Done x (s\<lparr>mheap := h\<rparr>) | Stopped e \<Rightarrow> Stopped e)"
  by (simp add: heapM_def)

lemma fuzzM_apply [simp]:
  "fuzzM m s = (case m (mfuzz s) of Done x f \<Rightarrow> Done x (s\<lparr>mfuzz := f\<rparr>) | Stopped e \<Rightarrow> Stopped e)"
  by (simp add: fuzzM_def)

lemma mheap_self: "s\<lparr>mheap := mheap s\<rparr> = s"
  by simp

text \<open>The live blocks of the heap inside a larger state.\<close>

definition live_blocks :: "'z mach_scheme \<Rightarrow> ptr \<rightharpoonup> nat" where
  "live_blocks s = block_size (mheap s)"

definition mach_ok :: "'z mach_scheme \<Rightarrow> bool" where
  "mach_ok s \<longleftrightarrow> heap_wf (mheap s) \<and> fuzz_ok (mfuzz s)"

end
