(* ===== verification/RunQueue.thy ===== *)
theory RunQueue
  imports Machine
begin

text \<open>
  The run queue of the fuzzing host, \<open>third_party/concurrence/scheduler/fuzzed_scheduler.cc\<close>: the
  list of runnable thread handles, the live and the dying ones, and the fuzzed choice of the thread
  that runs next. The C code of the guest reaches it through every hypercall that blocks or wakes a
  thread.

  Handles are natural numbers, 0 is no thread. \<open>current\<close> is \<open>g_current_thread\<close>. \<open>rands\<close> holds the
  results of the next calls of \<open>std::rand\<close>, and \<open>new_stacks\<close> the handles that \<open>mmap\<close> and libco give
  to the next created threads (none left is \<open>MAP_FAILED\<close>); \<open>mapped_stacks\<close> holds the handles of the threads
  whose stack is mapped. \<open>debug_build\<close> selects the code under \<open>#ifndef NDEBUG\<close>.
\<close>

type_synonym handle = nat

record sched = mach +
  runnable :: "handle list"
  live_set :: "handle set"
  pending_deletion :: "handle set"
  thread_choices :: fuzz
  rands :: "nat list"
  interrupts_enabled :: bool
  bytes_needed :: u64
  current :: handle
  main_handle :: handle
  new_stacks :: "handle list"
  debug_build :: bool
  mapped_stacks :: "handle set"

section \<open>Operations\<close>

definition GetMainThread :: "(handle, 'z sched_scheme) prog" where
  "GetMainThread = getsM main_handle"

definition sIsRunnable :: "handle \<Rightarrow> 'z sched_scheme \<Rightarrow> bool" where
  "sIsRunnable handle s \<longleftrightarrow> handle \<in> set (runnable s)"

definition MakeRunnable :: "handle \<Rightarrow> (unit, 'z sched_scheme) prog" where
  "MakeRunnable handle = (\<lambda>s.
     if handle = main_handle s then Done () s
     else if sIsRunnable handle s then Done () s
     else if debug_build s \<and> (handle = 0 \<or> handle \<in> pending_deletion s) then Stopped HostAbort
     else Done () (s\<lparr>runnable := runnable s @ [handle]\<rparr>))"

definition MakeNotRunnable :: "handle \<Rightarrow> (unit, 'z sched_scheme) prog" where
  "MakeNotRunnable handle = (\<lambda>s.
     if handle = main_handle s then Stopped HostAbort
     else Done () (s\<lparr>runnable := remove1 handle (runnable s)\<rparr>))"

definition MakeAllRunnable :: "handle list \<Rightarrow> (unit, 'z sched_scheme) prog" where
  "MakeAllRunnable handles = forM handles MakeRunnable"

definition executor_CreateThread :: "(handle, 'z sched_scheme) prog" where
  "executor_CreateThread = (\<lambda>s. case new_stacks s of
     [] \<Rightarrow> Stopped HostAbort
   | h # hs \<Rightarrow> Done h (s\<lparr>new_stacks := hs, mapped_stacks := insert h (mapped_stacks s)\<rparr>))"

definition executor_DeleteThread :: "handle \<Rightarrow> (unit, 'z sched_scheme) prog" where
  "executor_DeleteThread handle = modifyM (\<lambda>s. s\<lparr>mapped_stacks := mapped_stacks s - {handle}\<rparr>)"

definition sCreateThread :: "bool \<Rightarrow> (handle, 'z sched_scheme) prog" where
  "sCreateThread run =
     bindM executor_CreateThread (\<lambda>handle.
     thenM (modifyM (\<lambda>s. s\<lparr>live_set := insert handle (live_set s)\<rparr>))
    (thenM (whenM run (MakeRunnable handle))
       (retM handle)))"

definition rand :: "(nat, 'z sched_scheme) prog" where
  "rand = (\<lambda>s. case rands s of [] \<Rightarrow> Done 0 s | r # rs \<Rightarrow> Done r (s\<lparr>rands := rs\<rparr>))"

definition thread_choice :: "nat \<Rightarrow> (nat, 'z sched_scheme) prog" where
  "thread_choice upper_bound = (\<lambda>s. case thread_choices s of
     None \<Rightarrow> Stopped MemFault
   | Some d \<Rightarrow>
       (if remaining_bytes d \<noteq> 0
        then (case consume_u64_in_range d 0 (of_nat upper_bound) of
                (w, d') \<Rightarrow> Done (unat w) (s\<lparr>thread_choices := Some d'\<rparr>))
        else bindM rand (\<lambda>r. retM (r mod 2 ^ 32 mod (upper_bound + 1))) s))"

text \<open>\<open>runnable_.at(idx)\<close> throws when the index is out of range, which ends the process.\<close>

definition take_runnable :: "nat \<Rightarrow> (handle, 'z sched_scheme) prog" where
  "take_runnable idx = (\<lambda>s.
     if idx < length (runnable s)
     then Done (runnable s ! idx) (s\<lparr>runnable := take idx (runnable s) @ drop (Suc idx) (runnable s)\<rparr>)
     else Stopped HostAbort)"

definition GetRandomRunnableHandle :: "bool \<Rightarrow> (handle, 'z sched_scheme) prog" where
  "GetRandomRunnableHandle can_choose_existing = (\<lambda>s.
     let n = length (runnable s) in
     if n = 1 then take_runnable 0 s
     else case thread_choices s of
       None \<Rightarrow> take_runnable (n - 1) s
     | Some _ \<Rightarrow>
         bindM (thread_choice (if can_choose_existing then n else n - 1)) (\<lambda>idx.
         thenM (modifyM (\<lambda>s. s\<lparr>bytes_needed := bytes_needed s + 1\<rparr>))
           (if can_choose_existing \<and> n \<le> idx
            then bindM (getsM current) (\<lambda>cur. thenM (MakeNotRunnable cur) (retM cur))
            else take_runnable idx)) s)"

text \<open>The loop over the set of dying threads unmaps the stack of each; the order of the hash set does not matter.\<close>

definition CleanupDeadThreads :: "(unit, 'z sched_scheme) prog" where
  "CleanupDeadThreads = modifyM (\<lambda>s. s\<lparr>mapped_stacks := mapped_stacks s - pending_deletion s, pending_deletion := {}\<rparr>)"

definition mark_destroyed :: "handle \<Rightarrow> (unit, 'z sched_scheme) prog" where
  "mark_destroyed handle = modifyM (\<lambda>s. s\<lparr>live_set := live_set s - {handle},
     pending_deletion := insert handle (pending_deletion s)\<rparr>)"

definition SetInterruptsEnabled :: "bool \<Rightarrow> (bool, 'z sched_scheme) prog" where
  "SetInterruptsEnabled enabled = (\<lambda>s. Done (interrupts_enabled s) (s\<lparr>interrupts_enabled := enabled\<rparr>))"

definition GetInterruptsEnabled :: "(bool, 'z sched_scheme) prog" where
  "GetInterruptsEnabled = getsM interrupts_enabled"

section \<open>Choosing\<close>

lemma CleanupDeadThreads_loop:
  assumes "set hs = pending_deletion s"
  shows "CleanupDeadThreads s = thenM (forM hs executor_DeleteThread) (modifyM (\<lambda>s. s\<lparr>pending_deletion := {}\<rparr>)) s"
proof -
  have "forM hs executor_DeleteThread t = Done () (t\<lparr>mapped_stacks := mapped_stacks t - set hs\<rparr>)" for t :: "'a sched_scheme"
    by (induction hs arbitrary: t) (simp_all add: executor_DeleteThread_def Diff_insert2 [symmetric] insert_commute)
  then show ?thesis using assms by (simp add: CleanupDeadThreads_def)
qed

lemma take_runnable_shrinks:
  "take_runnable idx s = Done h t \<Longrightarrow>
   length (runnable t) < length (runnable s) \<and> current t = current s"
  by (auto simp: take_runnable_def split: if_splits)

lemma thread_choice_frame:
  "thread_choice ub s = Done idx t \<Longrightarrow> runnable t = runnable s \<and> current t = current s \<and>
     main_handle t = main_handle s \<and> live_set t = live_set s \<and> pending_deletion t = pending_deletion s"
  by (auto simp: thread_choice_def rand_def split: option.splits prod.splits list.splits if_splits)

lemma GetRandomRunnableHandle_shrinks:
  assumes "GetRandomRunnableHandle e s = Done h t" "\<not> (e \<and> h = current t)"
  shows "length (runnable t) < length (runnable s)"
  using assms
  by (fastforce simp: GetRandomRunnableHandle_def Let_def MakeNotRunnable_def
      split: if_splits option.splits outcome.splits dest: take_runnable_shrinks thread_choice_frame)

function ChooseThread :: "bool \<Rightarrow> (handle, 'z sched_scheme) prog" where
  "ChooseThread can_choose_existing s =
     (if runnable s = [] then Done (if can_choose_existing then current s else 0) s
      else case GetRandomRunnableHandle can_choose_existing s of
        Stopped e \<Rightarrow> Stopped e
      | Done handle t \<Rightarrow>
          (if can_choose_existing \<and> handle = current t then Done handle t
           else if handle \<in> pending_deletion t \<or> handle \<notin> live_set t then ChooseThread can_choose_existing t
           else Done handle t))"
  by pat_completeness auto
termination ChooseThread
  by (relation "measure (\<lambda>(e, s). length (runnable s))") (auto dest: GetRandomRunnableHandle_shrinks)

declare ChooseThread.simps [simp del]

section \<open>The invariant\<close>

definition sched_wf :: "'z sched_scheme \<Rightarrow> bool" where
  "sched_wf s \<longleftrightarrow> distinct (runnable s) \<and> main_handle s \<notin> set (runnable s) \<and> fuzz_ok (thread_choices s)
     \<and> length (runnable s) < 2 ^ 63"

lemma MakeRunnable_runs:
  assumes "sched_wf s" "\<not> (debug_build s \<and> (h = 0 \<or> h \<in> pending_deletion s))" "length (runnable s) + 1 < 2 ^ 63"
  shows "\<exists>t. MakeRunnable h s = Done () t \<and> sched_wf t \<and>
     set (runnable t) = (if h = main_handle s then id else insert h) (set (runnable s))"
  using assms by (auto simp: MakeRunnable_def sched_wf_def sIsRunnable_def)

lemma MakeNotRunnable_runs:
  assumes "sched_wf s" "h \<noteq> main_handle s"
  shows "\<exists>t. MakeNotRunnable h s = Done () t \<and> sched_wf t \<and> set (runnable t) = set (runnable s) - {h}"
  using assms by (auto simp: MakeNotRunnable_def sched_wf_def length_remove1 dest: notin_set_remove1)

text \<open>The fields of the scheduler that choosing a thread leaves alone.\<close>

definition same_threads :: "'z sched_scheme \<Rightarrow> 'z sched_scheme \<Rightarrow> bool" where
  "same_threads s t \<longleftrightarrow> current t = current s \<and> main_handle t = main_handle s \<and> live_set t = live_set s \<and>
     pending_deletion t = pending_deletion s"

lemma same_threads_refl [simp]: "same_threads s s"
  by (simp add: same_threads_def)

lemma same_threads_trans: "same_threads s t \<Longrightarrow> same_threads t u \<Longrightarrow> same_threads s u"
  by (simp add: same_threads_def)

lemma remove1_nth: "distinct xs \<Longrightarrow> i < length xs \<Longrightarrow> take i xs @ drop (Suc i) xs = remove1 (xs ! i) xs"
proof (induction xs arbitrary: i)
  case (Cons x xs)
  then show ?case by (cases i) auto
qed simp

lemma take_runnable_runs:
  assumes "sched_wf s" "i < length (runnable s)"
  shows "\<exists>t. take_runnable i s = Done (runnable s ! i) t \<and> runnable t = remove1 (runnable s ! i) (runnable s) \<and>
     same_threads s t \<and> thread_choices t = thread_choices s"
  using assms by (simp add: take_runnable_def same_threads_def remove1_nth sched_wf_def)

lemma thread_choice_runs:
  assumes "fuzz_ok (thread_choices s)" "thread_choices s \<noteq> None" "ub < 2 ^ 64"
  shows "\<exists>i t. thread_choice ub s = Done i t \<and> i \<le> ub \<and> runnable t = runnable s \<and> same_threads s t \<and> fuzz_ok (thread_choices t)"
proof -
  obtain d where d: "thread_choices s = Some d" "fdp_ok d" using assms by (auto simp: fuzz_ok_def)
  obtain w d' where w: "consume_u64_in_range d 0 (of_nat ub) = (w, d')" by fastforce
  have "w \<le> of_nat ub" "fdp_ok d'" using fdp_ok_u64_in_range [OF d(2) _ w] by auto
  moreover have "unat (of_nat ub :: u64) = ub" using assms(3) by (intro unat_of_nat_less) simp
  moreover have "r mod 2 ^ 32 mod (ub + 1) \<le> ub" for r :: nat
    using mod_less_divisor [of "ub + 1" "r mod 2 ^ 32"] by linarith
  ultimately show ?thesis using d w
    by (auto simp: thread_choice_def rand_def same_threads_def fuzz_ok_def word_le_nat_alt split: list.split)
qed

text \<open>A pick removes the thread it returns from the queue; it may be the current thread when that is allowed.\<close>

lemma GetRandomRunnableHandle_runs:
  assumes wf: "sched_wf s" and ne: "runnable s \<noteq> []" and cur: "e \<Longrightarrow> current s \<noteq> main_handle s"
  shows "\<exists>h t. GetRandomRunnableHandle e s = Done h t \<and> sched_wf t \<and> same_threads s t \<and>
     runnable t = remove1 h (runnable s) \<and> (h \<in> set (runnable s) \<or> e \<and> h = current s)"
proof -
  let ?n = "length (runnable s)"
  have keep: "sched_wf t" if "runnable t = remove1 h (runnable s)" "same_threads s t" "fuzz_ok (thread_choices t)" for h t
    using wf that by (auto simp: sched_wf_def same_threads_def length_remove1 dest: notin_set_remove1)
  have pick: "\<exists>h t. take_runnable i u = Done h t \<and> sched_wf t \<and> same_threads s t \<and>
      runnable t = remove1 h (runnable s) \<and> h \<in> set (runnable s)"
    if "i < ?n" "runnable u = runnable s" "same_threads s u" "fuzz_ok (thread_choices u)" for i u
  proof -
    have "sched_wf u" using wf that by (simp add: sched_wf_def same_threads_def)
    from take_runnable_runs [OF this, of i] that show ?thesis
      using keep same_threads_trans [OF that(3)] by (auto simp: sched_wf_def)
  qed
  show ?thesis
  proof (cases "?n = 1 \<or> thread_choices s = None")
    case True
    then show ?thesis using pick [of 0 s] pick [of "?n - 1" s] ne wf
      by (fastforce simp: GetRandomRunnableHandle_def Let_def sched_wf_def)
  next
    case False
    let ?ub = "if e then ?n else ?n - 1"
    have "?ub < 2 ^ 64" "fuzz_ok (thread_choices s)" "thread_choices s \<noteq> None"
      using wf False by (auto simp: sched_wf_def)
    then obtain i t where t: "thread_choice ?ub s = Done i t" "i \<le> ?ub" "runnable t = runnable s" "same_threads s t"
      "fuzz_ok (thread_choices t)"
      using thread_choice_runs [of s ?ub] by blast
    let ?t = "t\<lparr>bytes_needed := bytes_needed t + 1\<rparr>"
    have st: "same_threads s ?t" "runnable ?t = runnable s" "fuzz_ok (thread_choices ?t)"
      using t by (auto simp: same_threads_def)
    show ?thesis
    proof (cases "e \<and> ?n \<le> i")
      case True
      let ?u = "?t\<lparr>runnable := remove1 (current s) (runnable s)\<rparr>"
      have "GetRandomRunnableHandle e s = Done (current s) ?u"
        using True False t cur by (auto simp: GetRandomRunnableHandle_def Let_def MakeNotRunnable_def same_threads_def)
      moreover have "same_threads s ?u" using st by (simp add: same_threads_def)
      ultimately show ?thesis using True keep [of ?u "current s"] t(5) by auto
    next
      case idx: False
      then have "i < ?n" using t(2) ne by (cases e) (auto simp: not_le neq_Nil_conv)
      from pick [OF this st(2,1,3)] show ?thesis
        using idx False t(1) by (auto simp: GetRandomRunnableHandle_def Let_def)
    qed
  qed
qed

text \<open>The threads a scheduler may run: runnable, live and not dying.\<close>

definition schedulable :: "'z sched_scheme \<Rightarrow> handle set" where
  "schedulable s = {h \<in> set (runnable s). h \<in> live_set s \<and> h \<notin> pending_deletion s}"

lemma ChooseThread_runs:
  assumes "sched_wf s" "e \<Longrightarrow> current s \<noteq> main_handle s"
  shows "\<exists>h t. ChooseThread e s = Done h t \<and> sched_wf t \<and> same_threads s t \<and>
     set (runnable t) \<subseteq> set (runnable s) - {h} \<and> schedulable s - {h} \<subseteq> set (runnable t) \<and>
     (h \<in> schedulable s \<or> e \<and> h = current s \<or> \<not> e \<and> h = 0 \<and> schedulable s = {} \<and> runnable t = [])"
  using assms
proof (induction e s rule: ChooseThread.induct)
  case (1 e s)
  show ?case
  proof (cases "runnable s = []")
    case True
    then show ?thesis using 1(2) by (simp add: ChooseThread.simps schedulable_def)
  next
    case False
    obtain h t where t: "GetRandomRunnableHandle e s = Done h t" "sched_wf t" "same_threads s t"
      "runnable t = remove1 h (runnable s)" "h \<in> set (runnable s) \<or> e \<and> h = current s"
      using GetRandomRunnableHandle_runs [OF 1(2) False] 1(3) by blast
    have rt: "set (runnable t) = set (runnable s) - {h}" using t(4) 1(2) by (simp add: sched_wf_def)
    have st: "schedulable t = schedulable s - {h}" using rt t(3) by (auto simp: schedulable_def same_threads_def)
    show ?thesis
    proof (cases "\<not> (e \<and> h = current t) \<and> (h \<in> pending_deletion t \<or> h \<notin> live_set t)")
      case True
      then have "schedulable t = schedulable s" using st t(3) by (auto simp: schedulable_def same_threads_def)
      moreover from 1(1) [OF False t(1) _ _ t(2)] True 1(3) t(3)
      obtain g u where "ChooseThread e t = Done g u" "sched_wf u" "same_threads t u"
        "set (runnable u) \<subseteq> set (runnable t) - {g}" "schedulable t - {g} \<subseteq> set (runnable u)"
        "g \<in> schedulable t \<or> e \<and> g = current t \<or> \<not> e \<and> g = 0 \<and> schedulable t = {} \<and> runnable u = []"
        by (auto simp: same_threads_def)
      ultimately show ?thesis using True False t rt same_threads_trans [OF t(3)]
        by (subst ChooseThread.simps) (auto simp: same_threads_def)
    next
      case stop: False
      then have "ChooseThread e s = Done h t" using False t(1) by (subst ChooseThread.simps) auto
      then show ?thesis using stop t rt st by (auto simp: schedulable_def same_threads_def)
    qed
  qed
qed

section \<open>The interface of a run queue\<close>

text \<open>What the host relies on: the queue behaves as a set of handles to which a handle is added at
  most once, and adding and removing different handles do not interfere.\<close>

locale run_queue =
  fixes add :: "'h \<Rightarrow> (unit, 's) prog"
    and del :: "'h \<Rightarrow> (unit, 's) prog"
    and elems :: "'s \<Rightarrow> 'h set"
    and good :: "'h \<Rightarrow> 's \<Rightarrow> bool"
  assumes add_law: "good h s \<Longrightarrow> \<exists>t. add h s = Done () t \<and> elems t = insert h (elems s) \<and> (\<forall>g. good g s \<longrightarrow> good g t)"
    and del_law: "good h s \<Longrightarrow> \<exists>t. del h s = Done () t \<and> elems t = elems s - {h} \<and> (\<forall>g. good g s \<longrightarrow> good g t)"
begin

lemma add_all:
  "\<forall>h \<in> set hs. good h s \<Longrightarrow> \<exists>t. forM hs add s = Done () t \<and> elems t = elems s \<union> set hs"
proof (induction hs arbitrary: s)
  case (Cons h hs)
  then obtain t where t: "add h s = Done () t" "elems t = insert h (elems s)" "\<forall>g. good g s \<longrightarrow> good g t"
    using add_law [of h s] by auto
  with Cons.IH [of t] Cons.prems show ?case by auto
qed simp

lemma del_add:
  assumes "good h s"
  shows "\<exists>t. thenM (del h) (add h) s = Done () t \<and> elems t = insert h (elems s)"
  using del_law [OF assms] add_law [of h] assms by fastforce

end

text \<open>A handle that may be queued: not the main thread, and in a debug build neither 0 nor dying. The bound on the
  length is the one under which the fuzzed index fits a \<open>size_t\<close>.\<close>

definition queue_good :: "handle \<Rightarrow> 'z sched_scheme \<Rightarrow> bool" where
  "queue_good h s \<longleftrightarrow> distinct (runnable s) \<and> h \<noteq> main_handle s \<and> \<not> (debug_build s \<and> (h = 0 \<or> h \<in> pending_deletion s))"

interpretation rq: run_queue MakeRunnable MakeNotRunnable "\<lambda>s. set (runnable s)" queue_good
proof
  fix h :: handle and s :: "'z sched_scheme"
  assume "queue_good h s"
  then show "\<exists>t. MakeRunnable h s = Done () t \<and> set (runnable t) = insert h (set (runnable s)) \<and> (\<forall>g. queue_good g s \<longrightarrow> queue_good g t)"
    by (auto simp: MakeRunnable_def queue_good_def sIsRunnable_def)
next
  fix h :: handle and s :: "'z sched_scheme"
  assume "queue_good h s"
  then show "\<exists>t. MakeNotRunnable h s = Done () t \<and> set (runnable t) = set (runnable s) - {h} \<and> (\<forall>g. queue_good g s \<longrightarrow> queue_good g t)"
    by (auto simp: MakeNotRunnable_def queue_good_def)
qed

section \<open>Properties\<close>

text \<open>C10. \<open>ChooseThread\<close> always returns and loses no thread. On a well-formed queue, and unless the main thread
  asks to keep running, it ends with a thread that is runnable, live and not dying, with the current thread
  when that is allowed, or with 0 when there is no thread to run. The chosen thread is no longer queued,
  every other thread that can run still is, and the queue stays well-formed.\<close>

theorem ChooseThread_correct:
  assumes "sched_wf s" and "can_choose_existing \<longrightarrow> current s \<noteq> main_handle s"
  shows "\<exists>h t. ChooseThread can_choose_existing s = Done h t \<and> sched_wf t \<and>
     h \<notin> set (runnable t) \<and> set (runnable t) \<subseteq> set (runnable s) \<and>
     (\<forall>x \<in> schedulable s. x \<noteq> h \<longrightarrow> x \<in> schedulable t) \<and>
     (h \<in> schedulable s \<or> can_choose_existing \<and> h = current s \<or>
      \<not> can_choose_existing \<and> h = 0 \<and> schedulable s = {})"
  using ChooseThread_runs [of s can_choose_existing] assms
  by (fastforce simp: schedulable_def same_threads_def)

definition sched_example :: sched where
  "sched_example = \<lparr>mheap = \<lparr>choices = [], blocks = [], mem = (\<lambda>_. 0)\<rparr>, mfuzz = None, runnable = [5, 6, 7],
     live_set = {5, 7, 9}, pending_deletion = {7}, thread_choices = Some (byte_fdp [1, 4]), rands = [],
     interrupts_enabled = True, bytes_needed = 0, current = 9, main_handle = 1, new_stacks = [], debug_build = True, mapped_stacks = {5, 7, 9}\<rparr>"

theorem ChooseThread_correct_witness:
  "\<exists>h t. ChooseThread False sched_example = Done h t \<and> h = 5 \<and> sched_wf t"
proof -
  have wf: "sched_wf sched_example"
    by (simp add: sched_wf_def sched_example_def fuzz_ok_def byte_fdp_ok)
  have "schedulable sched_example = {5}" by (auto simp: schedulable_def sched_example_def)
  then show ?thesis using ChooseThread_correct [OF wf, of False] by auto
qed

text \<open>Waking a list of waiters. \<open>MakeAllRunnable\<close> on handles that may be queued returns, and afterwards exactly
  the threads that were runnable before and the given ones are runnable.\<close>

lemma MakeAllRunnable_adds:
  assumes "\<forall>h \<in> set hs. queue_good h s"
  shows "\<exists>t. MakeAllRunnable hs s = Done () t \<and> set (runnable t) = set (runnable s) \<union> set hs"
  unfolding MakeAllRunnable_def by (rule rq.add_all [OF assms])

lemma MakeAllRunnable_adds_witness:
  "\<exists>t. MakeAllRunnable [8, 5] sched_example = Done () t \<and> set (runnable t) = {5, 6, 7, 8}"
proof -
  have "\<forall>h \<in> set [8, 5]. queue_good h sched_example"
    by (simp add: queue_good_def sched_example_def)
  from MakeAllRunnable_adds [OF this] show ?thesis by (auto simp: sched_example_def)
qed

end
