(* ===== verification/Host.thy ===== *)
theory Host
  imports RunQueue
begin

text \<open>
  The host side of the guest's threads, \<open>fuzz/host/host.cc\<close> and the thread hypercalls of
  \<open>fuzz/host/hypercall/hypercall.cc\<close>: the maps between XNU threads and scheduler handles, the thread
  state flags, wait results, continuations, copyio blocking, and blocking and waking. The callbacks from
  the host into the guest, \<open>fuzz/xnu/osfmk/api/thread.c\<close> lines 40 to 66, are here as well, because the
  host calls them.

  XNU functions and constants, and \<open>co_switch\<close> of libco, which runs the other threads until this one
  is resumed, are the parameter \<open>xnu\<close>.
\<close>

section \<open>State\<close>

type_synonym thread_t = nat
type_synonym wait_result = int

text \<open>The fields of XNU's \<open>struct thread\<close> that the sources touch.\<close>

record kthread =
  wait_timer_armed :: bool
  wait_timer_active :: int
  wake_active :: bool
  sched_flags :: u32
  sched_call :: ptr
  at_safe_point :: bool
  wait_event :: u64
  runq :: ptr
  kernel_stack :: ptr

record host = sched +
  internal_to_handle :: "thread_t \<rightharpoonup> handle"
  handle_to_internal :: "handle \<rightharpoonup> thread_t"
  suspended :: "thread_t set"
  suspended_runnable :: "thread_t set"
  terminating :: "thread_t set"
  waiting :: "thread_t set"
  wait_report :: "thread_t set"
  uninterruptible :: "thread_t set"
  enqueued_for_termination :: "thread_t set"
  wait_results :: "thread_t \<rightharpoonup> wait_result"
  continuations :: "thread_t \<rightharpoonup> ptr \<times> ptr"
  saved_kernel_entry :: "handle set"
  copyin_blocked :: "handle \<Rightarrow> u64"
  ready_for_preemption :: bool
  main_thread :: thread_t
  threads :: "thread_t \<rightharpoonup> kthread"

datatype sched_call_kind = SCHED_CALL_BLOCK | SCHED_CALL_UNBLOCK

record 'z xnu_thread =
  co_switch :: "handle \<Rightarrow> (unit, 'z host_scheme) prog"
  thread_terminate_enqueue :: "thread_t \<Rightarrow> (unit, 'z host_scheme) prog"
  thread_terminate :: "thread_t \<Rightarrow> (unit, 'z host_scheme) prog"
  thread_abort :: "thread_t \<Rightarrow> (unit, 'z host_scheme) prog"
  sched_callback :: "ptr \<Rightarrow> sched_call_kind \<Rightarrow> thread_t \<Rightarrow> (unit, 'z host_scheme) prog"
  timer_call_cancel :: "thread_t \<Rightarrow> (bool, 'z host_scheme) prog"
  thread_wakeup_event :: "thread_t \<Rightarrow> (unit, 'z host_scheme) prog"
  assert_wait_event :: "thread_t \<Rightarrow> u32 \<Rightarrow> (wait_result, 'z host_scheme) prog"
  is_kernel_thread :: "thread_t \<Rightarrow> 'z host_scheme \<Rightarrow> bool"
  TH_OPT_INTMASK :: u32
  THREAD_ABORTSAFE :: u32
  THREAD_UNINT :: u32
  TH_SFLAG_ABORT :: u32
  TH_SFLAG_ABORTSAFELY :: u32
  TH_SFLAG_ABORTED_MASK :: u32
  THREAD_WAIT_NOREPORT_USER :: u32
  THREAD_WAIT_NOREPORT_KERNEL :: u32

definition THREAD_WAITING :: wait_result where "THREAD_WAITING = - 1"
definition THREAD_AWAKENED :: wait_result where "THREAD_AWAKENED = 0"
definition THREAD_TIMED_OUT :: wait_result where "THREAD_TIMED_OUT = 1"
definition THREAD_INTERRUPTED :: wait_result where "THREAD_INTERRUPTED = 2"
definition THREAD_RESTART :: wait_result where "THREAD_RESTART = 3"
definition THREAD_NOT_WAITING :: wait_result where "THREAD_NOT_WAITING = 10"

lemmas wait_result_defs = THREAD_WAITING_def THREAD_AWAKENED_def THREAD_TIMED_OUT_def
  THREAD_INTERRUPTED_def THREAD_RESTART_def THREAD_NOT_WAITING_def

definition kthread_get :: "thread_t \<Rightarrow> (kthread, 'z host_scheme) prog" where
  "kthread_get th = (\<lambda>s. case threads s th of None \<Rightarrow> Stopped MemFault | Some k \<Rightarrow> Done k s)"

definition kthread_upd :: "thread_t \<Rightarrow> (kthread \<Rightarrow> kthread) \<Rightarrow> (unit, 'z host_scheme) prog" where
  "kthread_upd th f = bindM (kthread_get th) (\<lambda>k. modifyM (\<lambda>s. s\<lparr>threads := (threads s)(th \<mapsto> f k)\<rparr>))"

section \<open>Threads and handles\<close>

definition ThreadTToHandle :: "thread_t \<Rightarrow> 'z host_scheme \<Rightarrow> handle" where
  "ThreadTToHandle th s = (case internal_to_handle s th of None \<Rightarrow> 0 | Some h \<Rightarrow> h)"

definition HandleToThreadT :: "handle \<Rightarrow> 'z host_scheme \<Rightarrow> thread_t" where
  "HandleToThreadT h s = (case handle_to_internal s h of None \<Rightarrow> 0 | Some th \<Rightarrow> th)"

definition GetCurrentThreadT :: "'z host_scheme \<Rightarrow> thread_t" where
  "GetCurrentThreadT s = HandleToThreadT (current s) s"

definition SetCurrentThreadT :: "thread_t \<Rightarrow> (unit, 'z host_scheme) prog" where
  "SetCurrentThreadT th = modifyM (\<lambda>s. s\<lparr>internal_to_handle := (internal_to_handle s)(th \<mapsto> current s),
     handle_to_internal := (handle_to_internal s)(current s \<mapsto> th)\<rparr>)"

definition CreateThread :: "thread_t \<Rightarrow> bool \<Rightarrow> (handle, 'z host_scheme) prog" where
  "CreateThread th run =
     bindM (sCreateThread run) (\<lambda>handle.
     thenM (\<lambda>s. if debug_build s \<and> (th \<noteq> 0 \<and> internal_to_handle s th \<noteq> None \<or> handle_to_internal s handle \<noteq> None)
                then Stopped HostAbort else Done () s)
    (thenM (modifyM (\<lambda>s. s\<lparr>internal_to_handle := (internal_to_handle s)(th \<mapsto> handle),
                            handle_to_internal := (handle_to_internal s)(handle \<mapsto> th)\<rparr>))
      (retM handle)))"

section \<open>Flags\<close>

definition IsRunnable :: "thread_t \<Rightarrow> 'z host_scheme \<Rightarrow> bool" where
  "IsRunnable th s = sIsRunnable (ThreadTToHandle th s) s"

definition SetRunnable :: "thread_t \<Rightarrow> (unit, 'z host_scheme) prog" where
  "SetRunnable th = (\<lambda>s. MakeRunnable (ThreadTToHandle th s) s)"

definition SetNotRunnable :: "thread_t \<Rightarrow> (unit, 'z host_scheme) prog" where
  "SetNotRunnable th = (\<lambda>s. MakeNotRunnable (ThreadTToHandle th s) s)"

definition IsSuspended :: "thread_t \<Rightarrow> 'z host_scheme \<Rightarrow> bool" where
  "IsSuspended th s \<longleftrightarrow> th \<in> suspended s"

definition SetSuspended :: "thread_t \<Rightarrow> (unit, 'z host_scheme) prog" where
  "SetSuspended th =
     thenM (modifyM (\<lambda>s. s\<lparr>suspended := insert th (suspended s)\<rparr>))
       (bindM (getsM (IsRunnable th)) (\<lambda>r. whenM r
         (thenM (modifyM (\<lambda>s. s\<lparr>suspended_runnable := insert th (suspended_runnable s)\<rparr>))
            (SetNotRunnable th))))"

definition SetNotSuspended :: "thread_t \<Rightarrow> (unit, 'z host_scheme) prog" where
  "SetNotSuspended th =
     thenM (modifyM (\<lambda>s. s\<lparr>suspended := suspended s - {th}\<rparr>))
       (bindM (getsM suspended_runnable) (\<lambda>sr. whenM (th \<in> sr)
         (thenM (modifyM (\<lambda>s. s\<lparr>suspended_runnable := suspended_runnable s - {th}\<rparr>))
            (SetRunnable th))))"

definition IsTerminating :: "thread_t \<Rightarrow> 'z host_scheme \<Rightarrow> bool" where
  "IsTerminating th s \<longleftrightarrow> th \<in> terminating s"

definition SetTerminating :: "thread_t \<Rightarrow> (unit, 'z host_scheme) prog" where
  "SetTerminating th = modifyM (\<lambda>s. s\<lparr>terminating := insert th (terminating s)\<rparr>)"

definition IsWaiting :: "thread_t \<Rightarrow> 'z host_scheme \<Rightarrow> bool" where
  "IsWaiting th s \<longleftrightarrow> th \<in> waiting s"

definition SetWaiting :: "thread_t \<Rightarrow> (unit, 'z host_scheme) prog" where
  "SetWaiting th = modifyM (\<lambda>s. s\<lparr>waiting := insert th (waiting s)\<rparr>)"

definition SetNotWaiting :: "thread_t \<Rightarrow> (unit, 'z host_scheme) prog" where
  "SetNotWaiting th = modifyM (\<lambda>s. s\<lparr>waiting := waiting s - {th}\<rparr>)"

definition IsWaitReport :: "thread_t \<Rightarrow> 'z host_scheme \<Rightarrow> bool" where
  "IsWaitReport th s \<longleftrightarrow> th \<in> wait_report s"

definition SetWaitReport :: "thread_t \<Rightarrow> (unit, 'z host_scheme) prog" where
  "SetWaitReport th = modifyM (\<lambda>s. s\<lparr>wait_report := insert th (wait_report s)\<rparr>)"

definition SetNotWaitReport :: "thread_t \<Rightarrow> (unit, 'z host_scheme) prog" where
  "SetNotWaitReport th = modifyM (\<lambda>s. s\<lparr>wait_report := wait_report s - {th}\<rparr>)"

definition IsUninterruptible :: "thread_t \<Rightarrow> 'z host_scheme \<Rightarrow> bool" where
  "IsUninterruptible th s \<longleftrightarrow> th \<in> uninterruptible s"

definition SetUninterruptible :: "thread_t \<Rightarrow> (unit, 'z host_scheme) prog" where
  "SetUninterruptible th = modifyM (\<lambda>s. s\<lparr>uninterruptible := insert th (uninterruptible s)\<rparr>)"

definition SetNotUninterruptible :: "thread_t \<Rightarrow> (unit, 'z host_scheme) prog" where
  "SetNotUninterruptible th = modifyM (\<lambda>s. s\<lparr>uninterruptible := uninterruptible s - {th}\<rparr>)"

definition IsEnqueuedForTermination :: "thread_t \<Rightarrow> 'z host_scheme \<Rightarrow> bool" where
  "IsEnqueuedForTermination th s \<longleftrightarrow> th \<in> enqueued_for_termination s"

definition SetEnqueuedForTermination :: "thread_t \<Rightarrow> (unit, 'z host_scheme) prog" where
  "SetEnqueuedForTermination th =
     modifyM (\<lambda>s. s\<lparr>enqueued_for_termination := insert th (enqueued_for_termination s)\<rparr>)"

definition SetNotEnqueuedForTermination :: "thread_t \<Rightarrow> (unit, 'z host_scheme) prog" where
  "SetNotEnqueuedForTermination th =
     modifyM (\<lambda>s. s\<lparr>enqueued_for_termination := enqueued_for_termination s - {th}\<rparr>)"

definition GetWaitResult :: "thread_t \<Rightarrow> 'z host_scheme \<Rightarrow> wait_result" where
  "GetWaitResult th s = (case wait_results s th of None \<Rightarrow> THREAD_WAITING | Some r \<Rightarrow> r)"

definition SetWaitResult :: "thread_t \<Rightarrow> wait_result \<Rightarrow> (unit, 'z host_scheme) prog" where
  "SetWaitResult th r = modifyM (\<lambda>s. s\<lparr>wait_results := (wait_results s)(th \<mapsto> r)\<rparr>)"

definition ShouldBlock :: "thread_t \<Rightarrow> 'z host_scheme \<Rightarrow> bool" where
  "ShouldBlock th s \<longleftrightarrow> IsTerminating th s \<or> IsWaiting th s \<or> IsSuspended th s"

definition ThreadClearWait :: "thread_t \<Rightarrow> wait_result \<Rightarrow> (unit, 'z host_scheme) prog" where
  "ThreadClearWait th r =
     thenM (SetNotWaiting th) (thenM (SetNotWaitReport th) (thenM (SetNotUninterruptible th) (SetWaitResult th r)))"

definition ThreadSetUninterruptibleWait :: "thread_t \<Rightarrow> (unit, 'z host_scheme) prog" where
  "ThreadSetUninterruptibleWait th = thenM (SetWaiting th) (SetUninterruptible th)"

definition ThreadClearUninterruptibleWait :: "thread_t \<Rightarrow> (unit, 'z host_scheme) prog" where
  "ThreadClearUninterruptibleWait th = thenM (SetNotWaiting th) (SetNotUninterruptible th)"

definition ThreadIsIdle :: "thread_t \<Rightarrow> 'z host_scheme \<Rightarrow> bool" where
  "ThreadIsIdle th s = False"

lemmas flag_defs = IsSuspended_def IsTerminating_def IsWaiting_def SetWaiting_def SetNotWaiting_def
  IsWaitReport_def SetWaitReport_def SetNotWaitReport_def IsUninterruptible_def SetUninterruptible_def
  SetNotUninterruptible_def IsEnqueuedForTermination_def SetEnqueuedForTermination_def
  SetNotEnqueuedForTermination_def SetTerminating_def SetWaitResult_def GetWaitResult_def

section \<open>Callbacks into the guest\<close>

definition XNUThreadEnqueueTermination :: "'z xnu_thread \<Rightarrow> thread_t \<Rightarrow> (unit, 'z host_scheme) prog" where
  "XNUThreadEnqueueTermination xnu th = thread_terminate_enqueue xnu th"

text \<open>The callback is called through the thread's function pointer; a null pointer traps.\<close>

definition sched_call_notify :: "'z xnu_thread \<Rightarrow> sched_call_kind \<Rightarrow> thread_t \<Rightarrow> (unit, 'z host_scheme) prog" where
  "sched_call_notify xnu kind th =
     bindM (kthread_get th) (\<lambda>k. if sched_call k = 0 then stopM MemFault else sched_callback xnu (sched_call k) kind th)"

definition XNUThreadSchedCallNotifyBlocked :: "'z xnu_thread \<Rightarrow> thread_t \<Rightarrow> (unit, 'z host_scheme) prog" where
  "XNUThreadSchedCallNotifyBlocked xnu th = sched_call_notify xnu SCHED_CALL_BLOCK th"

definition XNUThreadSchedCallNotifyUnblocked :: "'z xnu_thread \<Rightarrow> thread_t \<Rightarrow> (unit, 'z host_scheme) prog" where
  "XNUThreadSchedCallNotifyUnblocked xnu th = sched_call_notify xnu SCHED_CALL_UNBLOCK th"

definition XNUThreadCancelWaitTimer :: "'z xnu_thread \<Rightarrow> thread_t \<Rightarrow> (unit, 'z host_scheme) prog" where
  "XNUThreadCancelWaitTimer xnu th =
     bindM (kthread_get th) (\<lambda>k.
       whenM (wait_timer_armed k)
         (bindM (timer_call_cancel xnu th) (\<lambda>cancelled.
          thenM (whenM cancelled (kthread_upd th (\<lambda>k. k\<lparr>wait_timer_active := wait_timer_active k - 1\<rparr>)))
            (kthread_upd th (\<lambda>k. k\<lparr>wait_timer_armed := False\<rparr>)))))"

definition XNUThreadSignalWake :: "'z xnu_thread \<Rightarrow> thread_t \<Rightarrow> (unit, 'z host_scheme) prog" where
  "XNUThreadSignalWake xnu th =
     bindM (kthread_get th) (\<lambda>k.
       whenM (wake_active k)
         (thenM (kthread_upd th (\<lambda>k. k\<lparr>wake_active := False\<rparr>)) (thread_wakeup_event xnu th)))"

section \<open>Continuations and kernel entry\<close>

definition SetContinuation :: "thread_t \<Rightarrow> ptr \<Rightarrow> ptr \<Rightarrow> (unit, 'z host_scheme) prog" where
  "SetContinuation th continuation param =
     modifyM (\<lambda>s. s\<lparr>continuations := (if continuation = 0 then (continuations s)(th := None)
                                       else (continuations s)(th \<mapsto> (continuation, param)))\<rparr>)"

text \<open>A continuation is entered on a fresh stack and never returns to its caller.\<close>

definition CallContinuationIfPresent :: "(unit, 'z host_scheme) prog" where
  "CallContinuationIfPresent =
     bindM (getsM GetCurrentThreadT) (\<lambda>th.
     thenM (SetInterruptsEnabled True)
    (bindM (getsM continuations) (\<lambda>cs. case cs th of
        None \<Rightarrow> retM ()
      | Some _ \<Rightarrow> thenM (modifyM (\<lambda>s. s\<lparr>continuations := (continuations s)(th := None)\<rparr>)) (stopM NoReturn))))"

definition SetKernelEntryPoint :: "(unit, 'z host_scheme) prog" where
  "SetKernelEntryPoint = modifyM (\<lambda>s. s\<lparr>saved_kernel_entry := insert (current s) (saved_kernel_entry s)\<rparr>)"

definition SyscallReturn :: "('a, 'z host_scheme) prog" where
  "SyscallReturn = bindM (getsM (\<lambda>s. current s \<in> saved_kernel_entry s)) (\<lambda>saved.
     if saved then stopM NoReturn else abortM)"

section \<open>Copyio blocking\<close>

definition BlockCopyin :: "(unit, 'z host_scheme) prog" where
  "BlockCopyin = modifyM (\<lambda>s. s\<lparr>copyin_blocked := (copyin_blocked s)(current s := copyin_blocked s (current s) + 1)\<rparr>)"

definition UnblockCopyin :: "(unit, 'z host_scheme) prog" where
  "UnblockCopyin = modifyM (\<lambda>s. s\<lparr>copyin_blocked := (copyin_blocked s)(current s := copyin_blocked s (current s) - 1)\<rparr>)"

definition IsCopyioBlocked :: "'z host_scheme \<Rightarrow> bool" where
  "IsCopyioBlocked s \<longleftrightarrow> 0 < copyin_blocked s (current s)"

section \<open>Blocking and waking\<close>

definition ThreadSetBlocked :: "'z xnu_thread \<Rightarrow> thread_t \<Rightarrow> (unit, 'z host_scheme) prog" where
  "ThreadSetBlocked xnu th =
     thenM (bindM (getsM (\<lambda>s. \<not> IsEnqueuedForTermination th s \<and> IsTerminating th s)) (\<lambda>b. whenM b
              (thenM (SetEnqueuedForTermination th) (XNUThreadEnqueueTermination xnu th))))
    (thenM (SetNotRunnable th)
       (bindM (getsM (IsWaitReport th)) (\<lambda>b. whenM b (XNUThreadSchedCallNotifyBlocked xnu th))))"

definition SwitchFrom :: "'z xnu_thread \<Rightarrow> thread_t \<Rightarrow> (unit, 'z host_scheme) prog" where
  "SwitchFrom xnu th =
     bindM (getsM (IsWaiting th)) (\<lambda>w.
     thenM (if w then ThreadSetBlocked xnu th else SetRunnable th)
       (XNUThreadSignalWake xnu th))"

definition ThreadWillBlock :: "(unit, 'z host_scheme) prog" where
  "ThreadWillBlock =
     bindM (getsM GetCurrentThreadT) (\<lambda>self. thenM (SetWaiting self) (SetUninterruptible self))"

definition ThreadResumed :: "(unit, 'z host_scheme) prog" where
  "ThreadResumed =
     bindM (getsM GetCurrentThreadT) (\<lambda>self.
     thenM (ThreadClearWait self THREAD_AWAKENED) CallContinuationIfPresent)"

text \<open>\<open>CoroutineExecutor::SwitchTo\<close>: when control comes back, the active coroutine is the caller again.\<close>

definition executor_SwitchTo :: "'z xnu_thread \<Rightarrow> handle \<Rightarrow> (unit, 'z host_scheme) prog" where
  "executor_SwitchTo xnu handle =
     bindM (getsM current) (\<lambda>self.
       if self = handle then retM ()
       else thenM (co_switch xnu handle) (modifyM (\<lambda>s. s\<lparr>current := self\<rparr>)))"

definition sSwitchTo :: "'z xnu_thread \<Rightarrow> handle \<Rightarrow> (unit, 'z host_scheme) prog" where
  "sSwitchTo xnu handle =
     bindM (getsM (\<lambda>s. main_handle s \<noteq> handle \<and> handle \<notin> live_set s)) (\<lambda>dead.
       if dead then retM ()
       else thenM (executor_SwitchTo xnu handle) ThreadResumed)"

definition SwitchTo :: "'z xnu_thread \<Rightarrow> handle \<Rightarrow> (unit, 'z host_scheme) prog" where
  "SwitchTo xnu handle =
     bindM (getsM GetCurrentThreadT) (\<lambda>current_thread.
     bindM (getsM current) (\<lambda>cur.
       if handle = cur then CallContinuationIfPresent
       else thenM (SwitchFrom xnu current_thread) (sSwitchTo xnu handle)))"

definition ThreadWakeup :: "'z xnu_thread \<Rightarrow> thread_t \<Rightarrow> wait_result \<Rightarrow> (unit, 'z host_scheme) prog" where
  "ThreadWakeup xnu th r =
     thenM (XNUThreadCancelWaitTimer xnu th)
    (bindM (getsM (IsWaitReport th)) (\<lambda>wants_report.
     thenM (ThreadClearWait th r)
    (bindM (getsM (\<lambda>s. IsRunnable th s \<and> \<not> ShouldBlock th s)) (\<lambda>already.
       if already then retM ()
       else thenM (SetRunnable th)
           (thenM (\<lambda>s. MakeRunnable (ThreadTToHandle th s) s)
             (whenM wants_report (XNUThreadSchedCallNotifyUnblocked xnu th)))))))"

definition ThreadSelect :: "(handle, 'z host_scheme) prog" where
  "ThreadSelect =
     bindM (getsM GetCurrentThreadT) (\<lambda>self.
     bindM (getsM (\<lambda>s. sIsRunnable (current s) s \<and> \<not> ShouldBlock self s \<and> \<not> IsSuspended self s)) (\<lambda>still_running.
     bindM (ChooseThread still_running) (\<lambda>new_thread.
       if new_thread \<noteq> 0 then retM new_thread
       else bindM (getsM (\<lambda>s. debug_build s \<and> IsWaiting (main_thread s) s)) (\<lambda>stuck.
         if stuck then abortM else GetMainThread))))"

definition ThreadBlock :: "'z xnu_thread \<Rightarrow> (wait_result, 'z host_scheme) prog" where
  "ThreadBlock xnu =
     bindM (getsM GetCurrentThreadT) (\<lambda>self.
     bindM ThreadSelect (\<lambda>handle.
     thenM (SwitchTo xnu handle)
    (bindM (getsM (\<lambda>s. debug_build s \<and> IsWaiting self s)) (\<lambda>bad.
       if bad then abortM else getsM (GetWaitResult self)))))"

definition ThreadBlockReason :: "'z xnu_thread \<Rightarrow> ptr \<Rightarrow> ptr \<Rightarrow> (wait_result, 'z host_scheme) prog" where
  "ThreadBlockReason xnu continuation param =
     bindM (getsM GetCurrentThreadT) (\<lambda>self.
     thenM (SetContinuation self continuation param) (ThreadBlock xnu))"

definition Yield :: "'z xnu_thread \<Rightarrow> (unit, 'z host_scheme) prog" where
  "Yield xnu =
     bindM (getsM (\<lambda>s. ready_for_preemption s \<and> interrupts_enabled s \<and> \<not> IsWaiting (GetCurrentThreadT s) s)) (\<lambda>b.
       whenM b (bindM (ThreadBlock xnu) (\<lambda>_. retM ())))"

definition ThreadGo :: "'z xnu_thread \<Rightarrow> thread_t \<Rightarrow> wait_result \<Rightarrow> (int, 'z host_scheme) prog" where
  "ThreadGo xnu th r = thenM (ThreadWakeup xnu th r) (retM 0)"

definition sBlock :: "'z xnu_thread \<Rightarrow> (unit, 'z host_scheme) prog" where
  "sBlock xnu =
     bindM (getsM (\<lambda>s. current s = main_handle s)) (\<lambda>main.
       if main then abortM
       else thenM ThreadWillBlock (\<lambda>s. sSwitchTo xnu (main_handle s) s))"

definition ThreadDestroyed :: "handle \<Rightarrow> (unit, 'z host_scheme) prog" where
  "ThreadDestroyed h = modifyM (\<lambda>s. let th = HandleToThreadT h s in
     s\<lparr>internal_to_handle := (internal_to_handle s)(th := None),
       handle_to_internal := (handle_to_internal s)(h := None),
       saved_kernel_entry := saved_kernel_entry s - {h},
       continuations := (continuations s)(th := None),
       copyin_blocked := (copyin_blocked s)(h := 0),
       suspended := suspended s - {th}, terminating := terminating s - {th}, waiting := waiting s - {th},
       wait_report := wait_report s - {th}, uninterruptible := uninterruptible s - {th},
       enqueued_for_termination := enqueued_for_termination s - {th},
       wait_results := (wait_results s)(th := None)\<rparr>)"

text \<open>\<open>FuzzedScheduler::ThreadDestroyed\<close> takes the handle off the live set and calls back into the host.\<close>

definition sThreadDestroyed :: "handle \<Rightarrow> (unit, 'z host_scheme) prog" where
  "sThreadDestroyed handle = thenM (mark_destroyed handle) (ThreadDestroyed handle)"

text \<open>The hypercalls that return at once: stopping a thread is disabled.\<close>

definition ThreadStop :: "thread_t \<Rightarrow> bool \<Rightarrow> bool" where
  "ThreadStop th until_not_runnable = False"

definition ThreadUnstop :: "thread_t \<Rightarrow> (unit, 'z host_scheme) prog" where
  "ThreadUnstop th = retM ()"

section \<open>The interface of a thread flag\<close>

text \<open>Every flag the host keeps per thread obeys the same laws: setting and clearing it for one thread
  is seen by that thread and by no other.\<close>

locale thread_flag =
  fixes is_set :: "thread_t \<Rightarrow> 's \<Rightarrow> bool"
    and set_it :: "thread_t \<Rightarrow> (unit, 's) prog"
    and clear_it :: "thread_t \<Rightarrow> (unit, 's) prog"
  assumes set_law: "\<exists>t. set_it th s = Done () t \<and> (\<forall>u. is_set u t \<longleftrightarrow> u = th \<or> is_set u s)"
    and clear_law: "\<exists>t. clear_it th s = Done () t \<and> (\<forall>u. is_set u t \<longleftrightarrow> u \<noteq> th \<and> is_set u s)"
begin

lemma clear_all:
  "\<exists>t. forM ths clear_it s = Done () t \<and> (\<forall>u. is_set u t \<longleftrightarrow> u \<notin> set ths \<and> is_set u s)"
proof (induction ths arbitrary: s)
  case (Cons th ths)
  obtain t where t: "clear_it th s = Done () t" "\<forall>u. is_set u t \<longleftrightarrow> u \<noteq> th \<and> is_set u s"
    using clear_law by blast
  with Cons.IH [of t] show ?case by auto
qed simp

lemma set_clear:
  "\<not> is_set th s \<Longrightarrow> \<exists>t. thenM (set_it th) (clear_it th) s = Done () t \<and> (\<forall>u. is_set u t = is_set u s)"
proof -
  assume fresh: "\<not> is_set th s"
  obtain t where t: "set_it th s = Done () t" "\<forall>u. is_set u t \<longleftrightarrow> u = th \<or> is_set u s"
    using set_law by blast
  obtain v where v: "clear_it th t = Done () v" "\<forall>u. is_set u v \<longleftrightarrow> u \<noteq> th \<and> is_set u t"
    using clear_law by blast
  show ?thesis using t v fresh by auto
qed

end

interpretation wait_flag: thread_flag IsWaiting SetWaiting SetNotWaiting
  by unfold_locales (auto simp: flag_defs)

interpretation report_flag: thread_flag IsWaitReport SetWaitReport SetNotWaitReport
  by unfold_locales (auto simp: flag_defs)

interpretation unint_flag: thread_flag IsUninterruptible SetUninterruptible SetNotUninterruptible
  by unfold_locales (auto simp: flag_defs)

interpretation enq_flag: thread_flag IsEnqueuedForTermination SetEnqueuedForTermination SetNotEnqueuedForTermination
  by unfold_locales (auto simp: flag_defs)

section \<open>Facts\<close>

lemma kthread_get_some [simp]: "threads s th = Some k \<Longrightarrow> kthread_get th s = Done k s"
  by (simp add: kthread_get_def)

lemma kthread_upd_some [simp]:
  "threads s th = Some k \<Longrightarrow> kthread_upd th f s = Done () (s\<lparr>threads := (threads s)(th \<mapsto> f k)\<rparr>)"
  by (simp add: kthread_upd_def)

lemma ThreadClearWait_apply [simp]:
  "ThreadClearWait th r s = Done () (s\<lparr>waiting := waiting s - {th}, wait_report := wait_report s - {th},
     uninterruptible := uninterruptible s - {th}, wait_results := (wait_results s)(th \<mapsto> r)\<rparr>)"
  by (simp add: ThreadClearWait_def flag_defs)

text \<open>Cancelling the wait timer touches the fields of that thread only, when \<open>timer_call_cancel\<close> touches
  none of the modelled state.\<close>

definition timer_cancel_ok :: "'z xnu_thread \<Rightarrow> thread_t \<Rightarrow> bool" where
  "timer_cancel_ok xnu th \<longleftrightarrow> (\<forall>s. \<exists>b. timer_call_cancel xnu th s = Done b s)"

lemma CancelWaitTimer_runs:
  assumes "timer_cancel_ok xnu th" "threads s th = Some k"
  shows "\<exists>k'. XNUThreadCancelWaitTimer xnu th s = Done () (s\<lparr>threads := (threads s)(th \<mapsto> k')\<rparr>) \<and>
     \<not> wait_timer_armed k' \<and> sched_call k' = sched_call k"
proof (cases "wait_timer_armed k")
  case False
  then show ?thesis using assms(2)
    by (intro exI [of _ k]) (simp add: XNUThreadCancelWaitTimer_def map_upd_triv)
next
  case True
  obtain b where "timer_call_cancel xnu th s = Done b s" using assms(1) by (auto simp: timer_cancel_ok_def)
  with True assms(2) show ?thesis
    by (intro exI [of _ "(if b then k\<lparr>wait_timer_active := wait_timer_active k - 1\<rparr> else k)\<lparr>wait_timer_armed := False\<rparr>"])
       (simp add: XNUThreadCancelWaitTimer_def)
qed

lemma MakeRunnable_queued: "sIsRunnable h s \<Longrightarrow> MakeRunnable h s = Done () s"
  by (simp add: MakeRunnable_def)

lemma MakeRunnable_good:
  "queue_good h s \<Longrightarrow> \<exists>r. MakeRunnable h s = Done () (s\<lparr>runnable := r\<rparr>) \<and> set r = insert h (set (runnable s))"
  by (auto simp: MakeRunnable_def queue_good_def sIsRunnable_def intro: exI [of _ "runnable s"])

lemma ThreadTToHandle_runnable [simp]: "ThreadTToHandle th (s\<lparr>runnable := r\<rparr>) = ThreadTToHandle th s"
  by (simp add: ThreadTToHandle_def)

lemma ThreadWakeup_runs:
  fixes s :: "'z host_scheme"
  assumes k: "threads s th = Some k" and tm: "timer_cancel_ok xnu th"
    and good: "queue_good (ThreadTToHandle th s) s"
    and rep: "IsWaitReport th s \<longrightarrow> sched_call k \<noteq> 0 \<and>
      (\<forall>s. sched_callback xnu (sched_call k) SCHED_CALL_UNBLOCK th s = Done () s)"
  shows "\<exists>q k'. ThreadWakeup xnu th r s = Done () (s\<lparr>threads := (threads s)(th \<mapsto> k'), waiting := waiting s - {th},
       wait_report := wait_report s - {th}, uninterruptible := uninterruptible s - {th},
       wait_results := (wait_results s)(th \<mapsto> r), runnable := q\<rparr>) \<and>
     \<not> wait_timer_armed k' \<and> set q = insert (ThreadTToHandle th s) (set (runnable s))"
proof -
  obtain k' where c: "XNUThreadCancelWaitTimer xnu th s = Done () (s\<lparr>threads := (threads s)(th \<mapsto> k')\<rparr>)"
    "\<not> wait_timer_armed k'" "sched_call k' = sched_call k"
    using CancelWaitTimer_runs [OF tm k] by blast
  define s1 where "s1 = s\<lparr>threads := (threads s)(th \<mapsto> k'), waiting := waiting s - {th}, wait_report := wait_report s - {th},
     uninterruptible := uninterruptible s - {th}, wait_results := (wait_results s)(th \<mapsto> r)\<rparr>"
  have h1: "ThreadTToHandle th s1 = ThreadTToHandle th s" by (simp add: s1_def ThreadTToHandle_def)
  have g1: "queue_good (ThreadTToHandle th s) s1" using good by (simp add: s1_def queue_good_def)
  obtain q where q: "MakeRunnable (ThreadTToHandle th s) s1 = Done () (s1\<lparr>runnable := q\<rparr>)"
    "set q = insert (ThreadTToHandle th s) (set (runnable s))"
    using MakeRunnable_good [OF g1] by (auto simp: s1_def)
  let ?already = "IsRunnable th s1 \<and> \<not> ShouldBlock th s1"
  have again: "MakeRunnable (ThreadTToHandle th s) (s1\<lparr>runnable := q\<rparr>) = Done () (s1\<lparr>runnable := q\<rparr>)"
    using q(2) by (intro MakeRunnable_queued) (simp add: sIsRunnable_def)
  have notify: "IsWaitReport th s \<Longrightarrow> XNUThreadSchedCallNotifyUnblocked xnu th (s1\<lparr>runnable := q\<rparr>) = Done () (s1\<lparr>runnable := q\<rparr>)"
    using rep c(3) by (simp add: XNUThreadSchedCallNotifyUnblocked_def sched_call_notify_def s1_def)
  have run: "ThreadWakeup xnu th r s = Done () (if ?already then s1 else s1\<lparr>runnable := q\<rparr>)"
    using c(1) q(1) again notify h1 by (auto simp: ThreadWakeup_def SetRunnable_def s1_def IsWaitReport_def)
  have same: "s1 = s1\<lparr>runnable := runnable s\<rparr>" by (simp add: s1_def)
  show ?thesis
  proof (cases ?already)
    case True
    then have "ThreadTToHandle th s \<in> set (runnable s)" using h1 by (simp add: IsRunnable_def sIsRunnable_def s1_def)
    then show ?thesis using True run same c(2)
      by (intro exI [of _ "runnable s"] exI [of _ k']) (auto simp: s1_def)
  next
    case False
    then show ?thesis using run c(2) q(2) by (intro exI [of _ q] exI [of _ k']) (auto simp: s1_def)
  qed
qed

section \<open>Properties\<close>

text \<open>C13. Waking a thread. \<open>ThreadWakeup\<close> (the hypercall \<open>ThreadGo\<close>) returns; afterwards the thread is not waiting, its
  wait result is the given one, its wait timer is not armed and it is runnable; the run queue has gained
  at most this thread, and no other thread's wait state or result has changed.\<close>

theorem ThreadWakeup_wakes:
  fixes s :: "'z host_scheme"
  assumes k: "threads s th = Some k" and tm: "timer_cancel_ok xnu th"
    and good: "queue_good (ThreadTToHandle th s) s"
    and rep: "IsWaitReport th s \<longrightarrow> sched_call k \<noteq> 0 \<and>
      (\<forall>s. sched_callback xnu (sched_call k) SCHED_CALL_UNBLOCK th s = Done () s)"
  shows "\<exists>t. ThreadWakeup xnu th r s = Done () t \<and> \<not> IsWaiting th t \<and> GetWaitResult th t = r \<and> IsRunnable th t \<and>
     (\<exists>k'. threads t th = Some k' \<and> \<not> wait_timer_armed k') \<and>
     set (runnable t) = insert (ThreadTToHandle th s) (set (runnable s)) \<and>
     (\<forall>u. u \<noteq> th \<longrightarrow> IsWaiting u t = IsWaiting u s \<and> GetWaitResult u t = GetWaitResult u s \<and> threads t u = threads s u)"
  using ThreadWakeup_runs [OF assms, of r]
  by (auto simp: flag_defs IsRunnable_def sIsRunnable_def ThreadTToHandle_def)

text \<open>A concrete host for the witnesses: the main thread 100 with handle 1 and two guest threads, and XNU
  functions that do nothing.\<close>

definition kthread_zero :: kthread where
  "kthread_zero = \<lparr>wait_timer_armed = False, wait_timer_active = 0, wake_active = False, sched_flags = 0, sched_call = 0,
     at_safe_point = False, wait_event = 0, runq = 0, kernel_stack = 0\<rparr>"

definition host_example :: host where
  "host_example = \<lparr>mheap = \<lparr>choices = [], blocks = [], mem = (\<lambda>_. 0)\<rparr>, mfuzz = None, runnable = [7],
     live_set = {5, 7}, pending_deletion = {}, thread_choices = None, rands = [], interrupts_enabled = True,
     bytes_needed = 0, current = 5, main_handle = 1, new_stacks = [9, 11], debug_build = True, mapped_stacks = {5, 7},
     internal_to_handle = [100 \<mapsto> 1, 500 \<mapsto> 5, 700 \<mapsto> 7], handle_to_internal = [1 \<mapsto> 100, 5 \<mapsto> 500, 7 \<mapsto> 700],
     suspended = {}, suspended_runnable = {}, terminating = {}, waiting = {500}, wait_report = {}, uninterruptible = {},
     enqueued_for_termination = {}, wait_results = [500 \<mapsto> - 1], continuations = Map.empty, saved_kernel_entry = {},
     copyin_blocked = (\<lambda>_. 0), ready_for_preemption = True, main_thread = 100,
     threads = [500 \<mapsto> kthread_zero\<lparr>wait_timer_armed := True\<rparr>, 700 \<mapsto> kthread_zero]\<rparr>"

definition xnu_idle :: "(handle \<Rightarrow> (unit, 'z host_scheme) prog) \<Rightarrow> 'z xnu_thread" where
  "xnu_idle sw = \<lparr>co_switch = sw, thread_terminate_enqueue = (\<lambda>_. retM ()), thread_terminate = (\<lambda>_. retM ()),
     thread_abort = (\<lambda>_. retM ()), sched_callback = (\<lambda>_ _ _. retM ()), timer_call_cancel = (\<lambda>_. retM True),
     thread_wakeup_event = (\<lambda>_. retM ()), assert_wait_event = (\<lambda>_ _. retM 0), is_kernel_thread = (\<lambda>_ _. False),
     TH_OPT_INTMASK = 3, THREAD_ABORTSAFE = 2, THREAD_UNINT = 0, TH_SFLAG_ABORT = 8, TH_SFLAG_ABORTSAFELY = 16,
     TH_SFLAG_ABORTED_MASK = 24, THREAD_WAIT_NOREPORT_USER = 64, THREAD_WAIT_NOREPORT_KERNEL = 128\<rparr>"

lemma xnu_idle_timer: "timer_cancel_ok (xnu_idle sw) th"
  by (auto simp: timer_cancel_ok_def xnu_idle_def)

theorem ThreadWakeup_wakes_witness:
  "\<exists>t. ThreadWakeup (xnu_idle (\<lambda>_. retM ())) 500 THREAD_TIMED_OUT host_example = Done () t \<and>
     \<not> IsWaiting 500 t \<and> GetWaitResult 500 t = THREAD_TIMED_OUT \<and> set (runnable t) = {5, 7}"
proof -
  have "threads host_example 500 = Some (kthread_zero\<lparr>wait_timer_armed := True\<rparr>)"
    "queue_good (ThreadTToHandle 500 host_example) host_example" "\<not> IsWaitReport 500 host_example"
    "insert (ThreadTToHandle 500 host_example) (set (runnable host_example)) = {5, 7}"
    by (auto simp: host_example_def queue_good_def ThreadTToHandle_def flag_defs)
  then show ?thesis
    using ThreadWakeup_wakes [OF _ xnu_idle_timer, of host_example 500 _ "\<lambda>_. retM ()" THREAD_TIMED_OUT] by auto
qed

lemma SetInterruptsEnabled_apply [simp]:
  "SetInterruptsEnabled b s = Done (interrupts_enabled s) (s\<lparr>interrupts_enabled := b\<rparr>)"
  by (simp add: SetInterruptsEnabled_def)

lemma ThreadResumed_runs:
  assumes "continuations s (GetCurrentThreadT s) = None"
  shows "\<exists>t. ThreadResumed s = Done () t \<and> GetWaitResult (GetCurrentThreadT s) t = THREAD_AWAKENED \<and>
     \<not> IsWaiting (GetCurrentThreadT s) t"
  using assms
  by (simp add: ThreadResumed_def CallContinuationIfPresent_def GetCurrentThreadT_def HandleToThreadT_def flag_defs)

text \<open>C34. The result of blocking. When \<open>ThreadBlock\<close> really switches to another thread and this thread is resumed
  later, with no continuation pending, it returns \<open>THREAD_AWAKENED\<close>, whatever wait result the other threads
  have stored for it in the meantime: \<open>ThreadResumed\<close> overwrites the result of \<open>ThreadWakeup\<close>.\<close>

theorem ThreadBlock_always_awakened:
  fixes s :: "'z host_scheme"
  assumes sel: "ThreadSelect s = Done h u" "h \<noteq> current s" "current u = current s" "GetCurrentThreadT u = GetCurrentThreadT s"
    and from_: "SwitchFrom xnu (GetCurrentThreadT s) u = Done () v" "current v = current s"
      "main_handle v = h \<or> h \<in> live_set v"
    and sw: "co_switch xnu h v = Done () w" "handle_to_internal w (current s) = Some (GetCurrentThreadT s)"
      "continuations w (GetCurrentThreadT s) = None"
  shows "\<exists>t. ThreadBlock xnu s = Done THREAD_AWAKENED t"
proof -
  let ?w = "w\<lparr>current := current s\<rparr>" and ?self = "GetCurrentThreadT s"
  have self: "GetCurrentThreadT ?w = ?self" using sw(2) by (simp add: GetCurrentThreadT_def HandleToThreadT_def)
  then obtain t where t: "ThreadResumed ?w = Done () t" "GetWaitResult ?self t = THREAD_AWAKENED" "\<not> IsWaiting ?self t"
    using ThreadResumed_runs [of ?w] sw(3) by auto
  have "sSwitchTo xnu h v = Done () t"
    using from_(2,3) sel(2) sw(1) t(1) by (auto simp: sSwitchTo_def executor_SwitchTo_def)
  then have "SwitchTo xnu h u = Done () t"
    using sel from_ by (simp add: SwitchTo_def)
  then show ?thesis using sel t by (simp add: ThreadBlock_def)
qed

text \<open>What the other threads of the witness do while this one is blocked: time its wait out.\<close>

definition time_out_500 :: "handle \<Rightarrow> (unit, host) prog" where
  "time_out_500 h = ThreadClearWait 500 THREAD_TIMED_OUT"

theorem ThreadBlock_always_awakened_witness:
  "\<exists>t. ThreadBlock (xnu_idle time_out_500) host_example = Done THREAD_AWAKENED t"
proof -
  let ?x = "xnu_idle time_out_500" and ?s = host_example
  let ?u = "?s\<lparr>runnable := []\<rparr>"
  have self: "GetCurrentThreadT ?s = 500" "current ?s = 5"
    by (simp_all add: GetCurrentThreadT_def HandleToThreadT_def host_example_def)
  have sel: "ThreadSelect ?s = Done 7 ?u"
    by (simp add: ThreadSelect_def ChooseThread.simps GetRandomRunnableHandle_def take_runnable_def host_example_def
        GetCurrentThreadT_def HandleToThreadT_def sIsRunnable_def)
  have from_: "SwitchFrom ?x (GetCurrentThreadT ?s) ?u = Done () ?u"
    unfolding self
    by (simp add: SwitchFrom_def ThreadSetBlocked_def flag_defs SetNotRunnable_def MakeNotRunnable_def ThreadTToHandle_def
        XNUThreadSignalWake_def kthread_get_def kthread_zero_def host_example_def)
  have sw: "\<exists>w. co_switch ?x 7 ?u = Done () w \<and> handle_to_internal w (current ?s) = Some (GetCurrentThreadT ?s) \<and>
     continuations w (GetCurrentThreadT ?s) = None"
    unfolding self by (simp add: xnu_idle_def time_out_500_def host_example_def)
  then obtain w where w: "co_switch ?x 7 ?u = Done () w" "handle_to_internal w (current ?s) = Some (GetCurrentThreadT ?s)"
     "continuations w (GetCurrentThreadT ?s) = None" by blast
  show ?thesis
    by (rule ThreadBlock_always_awakened [OF sel _ _ _ from_ _ _ w])
       (simp_all add: host_example_def GetCurrentThreadT_def HandleToThreadT_def)
qed

text \<open>Leaving the processor. \<open>SwitchFrom\<close> of a thread that waits and has no report to make takes its handle out of
  the run queue; of a thread that does not wait, it puts the handle in. No other handle moves.\<close>

lemma SwitchFrom_queue:
  assumes k: "threads s th = Some k" "\<not> wake_active k" and good: "queue_good (ThreadTToHandle th s) s"
    and plain: "\<not> IsTerminating th s" "\<not> IsWaitReport th s"
  shows "\<exists>t. SwitchFrom xnu th s = Done () t \<and>
     set (runnable t) = (if IsWaiting th s then set (runnable s) - {ThreadTToHandle th s}
                         else insert (ThreadTToHandle th s) (set (runnable s)))"
proof (cases "IsWaiting th s")
  case True
  then show ?thesis using assms
    by (simp add: SwitchFrom_def ThreadSetBlocked_def SetNotRunnable_def MakeNotRunnable_def queue_good_def flag_defs
        XNUThreadSignalWake_def)
next
  case False
  obtain q where q: "MakeRunnable (ThreadTToHandle th s) s = Done () (s\<lparr>runnable := q\<rparr>)"
    "set q = insert (ThreadTToHandle th s) (set (runnable s))"
    using MakeRunnable_good [OF good] by blast
  then show ?thesis using False k by (simp add: SwitchFrom_def SetRunnable_def XNUThreadSignalWake_def)
qed

lemma SwitchFrom_queue_witness:
  "\<exists>t. SwitchFrom (xnu_idle (\<lambda>_. retM ())) 700 host_example = Done () t \<and> set (runnable t) = {7}"
proof -
  have "threads host_example 700 = Some kthread_zero" "\<not> wake_active kthread_zero"
    "queue_good (ThreadTToHandle 700 host_example) host_example" "\<not> IsTerminating 700 host_example"
    "\<not> IsWaitReport 700 host_example"
    by (simp_all add: host_example_def kthread_zero_def queue_good_def ThreadTToHandle_def flag_defs)
  from SwitchFrom_queue [OF this] show ?thesis
    by (simp add: host_example_def flag_defs ThreadTToHandle_def)
qed

text \<open>Suspending and resuming a thread that was not suspended restores the run queue as a set and every flag: a thread
  that was runnable is runnable again, and one that was not is not.\<close>

lemma suspend_resume_roundtrip:
  assumes "queue_good (ThreadTToHandle th s) s" and "th \<notin> suspended s" and "th \<notin> suspended_runnable s"
  shows "\<exists>t u. SetSuspended th s = Done () t \<and> IsSuspended th t \<and> \<not> IsRunnable th t \<and> SetNotSuspended th t = Done () u \<and>
     set (runnable u) = set (runnable s) \<and> suspended u = suspended s \<and> suspended_runnable u = suspended_runnable s"
proof (cases "IsRunnable th s")
  case False
  then show ?thesis using assms
    by (simp add: SetSuspended_def SetNotSuspended_def IsRunnable_def sIsRunnable_def ThreadTToHandle_def IsSuspended_def)
next
  case True
  let ?h = "ThreadTToHandle th s"
  let ?t = "s\<lparr>suspended := insert th (suspended s), suspended_runnable := insert th (suspended_runnable s),
              runnable := remove1 ?h (runnable s)\<rparr>"
  have t: "SetSuspended th s = Done () ?t"
    using True assms by (simp add: SetSuspended_def SetNotRunnable_def MakeNotRunnable_def IsRunnable_def sIsRunnable_def
        queue_good_def ThreadTToHandle_def)
  have h: "ThreadTToHandle th ?t = ?h" by (simp add: ThreadTToHandle_def)
  have out: "?h \<notin> set (remove1 ?h (runnable s))" using assms(1) by (simp add: queue_good_def)
  let ?u = "s\<lparr>runnable := remove1 ?h (runnable s) @ [?h]\<rparr>"
  have "SetNotSuspended th ?t = Done () ?u"
    using assms out h by (simp add: SetNotSuspended_def SetRunnable_def MakeRunnable_def sIsRunnable_def queue_good_def ThreadTToHandle_def)
  moreover have "set (runnable ?u) = set (runnable s)"
    using True assms(1) by (auto simp: IsRunnable_def sIsRunnable_def queue_good_def)
  ultimately show ?thesis using t out h assms by (simp add: IsSuspended_def IsRunnable_def sIsRunnable_def)
qed

lemma suspend_resume_roundtrip_witness:
  "\<exists>t u. SetSuspended 700 host_example = Done () t \<and> \<not> IsRunnable 700 t \<and> SetNotSuspended 700 t = Done () u \<and>
     set (runnable u) = {7}"
proof -
  have "queue_good (ThreadTToHandle 700 host_example) host_example" "700 \<notin> suspended host_example"
    "700 \<notin> suspended_runnable host_example" "set (runnable host_example) = {7}"
    by (simp_all add: host_example_def queue_good_def ThreadTToHandle_def)
  then show ?thesis using suspend_resume_roundtrip [of 700 host_example] by auto
qed

lemma BlockCopyin_many:
  "forM (replicate n x) (\<lambda>_. BlockCopyin) s
   = Done () (s\<lparr>copyin_blocked := (copyin_blocked s)(current s := copyin_blocked s (current s) + of_nat n)\<rparr>)"
  by (induction n arbitrary: s) (simp_all add: BlockCopyin_def algebra_simps)

lemma UnblockCopyin_many:
  "forM (replicate n x) (\<lambda>_. UnblockCopyin) s
   = Done () (s\<lparr>copyin_blocked := (copyin_blocked s)(current s := copyin_blocked s (current s) - of_nat n)\<rparr>)"
  by (induction n arbitrary: s) (simp_all add: UnblockCopyin_def algebra_simps)

text \<open>Copyio blocking nests. A thread that is not blocked and blocks copyio \<open>n\<close> times stays blocked until it has
  unblocked it \<open>n\<close> times, and other threads are not affected.\<close>

lemma copyin_blocking_nests:
  assumes "copyin_blocked s (current s) = 0" and "k \<le> n" and "n < 2 ^ 64"
  shows "\<exists>t. thenM (forM (replicate n ()) (\<lambda>_. BlockCopyin)) (forM (replicate k ()) (\<lambda>_. UnblockCopyin)) s = Done () t \<and>
     (IsCopyioBlocked t \<longleftrightarrow> k < n) \<and> (\<forall>h. h \<noteq> current s \<longrightarrow> copyin_blocked t h = copyin_blocked s h)"
proof -
  have d: "(of_nat n - of_nat k :: u64) = of_nat (n - k)" using assms(2) by (simp add: of_nat_diff)
  have "unat (of_nat (n - k) :: u64) = n - k" using assms(3) by (intro unat_of_nat_less) simp
  then have "0 < (of_nat n - of_nat k :: u64) \<longleftrightarrow> k < n" unfolding d word_less_nat_alt by simp
  then show ?thesis
    using assms(1) by (simp add: BlockCopyin_many UnblockCopyin_many IsCopyioBlocked_def)
qed

lemma copyin_blocking_nests_witness:
  "\<exists>t. thenM (forM (replicate 2 ()) (\<lambda>_. BlockCopyin)) (forM (replicate 1 ()) (\<lambda>_. UnblockCopyin)) host_example = Done () t \<and>
     IsCopyioBlocked t"
proof -
  have "copyin_blocked host_example (current host_example) = 0" by (simp add: host_example_def)
  moreover have "(1 :: nat) \<le> 2" "(2 :: nat) < 2 ^ 64" by simp_all
  ultimately obtain t where "thenM (forM (replicate 2 ()) (\<lambda>_. BlockCopyin)) (forM (replicate 1 ()) (\<lambda>_. UnblockCopyin)) host_example = Done () t"
    "IsCopyioBlocked t \<longleftrightarrow> (1 :: nat) < 2"
    using copyin_blocking_nests by blast
  then show ?thesis by (intro exI [of _ t] conjI) (assumption, simp)
qed

text \<open>The two maps between threads and handles are inverse to each other.\<close>

definition maps_inverse :: "'z host_scheme \<Rightarrow> bool" where
  "maps_inverse s \<longleftrightarrow> (\<forall>th h. internal_to_handle s th = Some h \<longleftrightarrow> handle_to_internal s h = Some th)"

lemma inverse_maps_remove:
  assumes "\<forall>a b. f a = Some b \<longleftrightarrow> g b = Some a" "g h = Some th"
  shows "(f(th := None)) a = Some b \<longleftrightarrow> (g(h := None)) b = Some a"
  using assms(1) [rule_format, of th b] assms(1) [rule_format, of th h] assms(1) [rule_format, of a h]
    assms(1) [rule_format, of a b] assms(2)
  by auto

lemma inverse_maps_add:
  assumes "\<forall>a b. f a = Some b \<longleftrightarrow> g b = Some a" "g h = None" "f th = None"
  shows "(f(th \<mapsto> h)) a = Some b \<longleftrightarrow> (g(h \<mapsto> th)) b = Some a"
  using assms(1) [rule_format, of th b] assms(1) [rule_format, of a h] assms(1) [rule_format, of a b] assms(2,3)
  by auto

lemma ThreadDestroyed_maps:
  assumes "maps_inverse s" "handle_to_internal s h = Some th"
  shows "\<exists>t. ThreadDestroyed h s = Done () t \<and> maps_inverse t \<and> ThreadTToHandle th t = 0 \<and> HandleToThreadT h t = 0"
proof -
  have "HandleToThreadT h s = th" using assms by (simp add: HandleToThreadT_def)
  then show ?thesis using inverse_maps_remove [OF assms(1) [unfolded maps_inverse_def] assms(2)]
    by (simp add: ThreadDestroyed_def maps_inverse_def ThreadTToHandle_def HandleToThreadT_def Let_def del: fun_upd_apply)
       simp
qed

text \<open>C38. A guest thread and its host handle find each other. \<open>CreateThread\<close> for a new thread, given a fresh stack, returns
  a live handle whose stack is mapped; the two maps stay inverse and lead from the thread to the handle and back; a thread created
  runnable is queued. \<open>ThreadDestroyed\<close> then removes both entries and keeps the maps inverse.\<close>

theorem CreateThread_maps:
  assumes inv: "maps_inverse s" and new: "internal_to_handle s th = None"
    and stack: "new_stacks s = h # hs" "handle_to_internal s h = None" "queue_good h s"
  shows "\<exists>t u. CreateThread th run s = Done h t \<and> maps_inverse t \<and> ThreadTToHandle th t = h \<and> HandleToThreadT h t = th \<and>
     h \<in> live_set t \<and> h \<in> mapped_stacks t \<and> (run \<longrightarrow> IsRunnable th t) \<and>
     ThreadDestroyed h t = Done () u \<and> maps_inverse u \<and> ThreadTToHandle th u = 0"
proof -
  obtain q where q: "MakeRunnable h (s\<lparr>new_stacks := hs, mapped_stacks := insert h (mapped_stacks s), live_set := insert h (live_set s)\<rparr>) =
      Done () (s\<lparr>new_stacks := hs, mapped_stacks := insert h (mapped_stacks s), live_set := insert h (live_set s), runnable := q\<rparr>)" "h \<in> set q"
    using MakeRunnable_good [of h "s\<lparr>new_stacks := hs, mapped_stacks := insert h (mapped_stacks s), live_set := insert h (live_set s)\<rparr>"] stack(3)
    by (auto simp: queue_good_def)
  let ?r = "if run then q else runnable s"
  let ?t = "s\<lparr>new_stacks := hs, mapped_stacks := insert h (mapped_stacks s), live_set := insert h (live_set s), runnable := ?r,
     internal_to_handle := (internal_to_handle s)(th \<mapsto> h), handle_to_internal := (handle_to_internal s)(h \<mapsto> th)\<rparr>"
  have t: "CreateThread th run s = Done h ?t"
    using q new stack by (simp add: CreateThread_def sCreateThread_def executor_CreateThread_def)
  have m: "maps_inverse ?t" "handle_to_internal ?t h = Some th"
    using inverse_maps_add [OF inv [unfolded maps_inverse_def] stack(2) new]
    by (simp_all add: maps_inverse_def del: fun_upd_apply) simp
  have "ThreadTToHandle th ?t = h" "HandleToThreadT h ?t = th" by (simp_all add: ThreadTToHandle_def HandleToThreadT_def)
  then show ?thesis using t m ThreadDestroyed_maps [OF m] q(2)
    by (auto simp: IsRunnable_def sIsRunnable_def)
qed

theorem CreateThread_maps_witness:
  "\<exists>t. CreateThread 900 True host_example = Done 9 t \<and> ThreadTToHandle 900 t = 9 \<and> IsRunnable 900 t"
proof -
  have "maps_inverse host_example"
    by (auto simp: maps_inverse_def host_example_def split: if_splits)
  then show ?thesis
    using CreateThread_maps [of host_example 900 9 "[11]" True] by (auto simp: host_example_def queue_good_def)
qed

text \<open>A stale suspension record. \<open>ThreadDestroyed\<close> does not forget that the thread was suspended while runnable. When a
  later thread is created at the same address, not runnable, resuming that thread makes it runnable.\<close>

lemma destroyed_thread_leaves_record:
  assumes "th \<in> suspended_runnable s" and "handle_to_internal s h = Some th" and "maps_inverse s"
    and "new_stacks s = g # hs" "handle_to_internal s g = None" "g \<noteq> h" "g \<notin> set (runnable s)" "queue_good g s"
  shows "\<exists>t u v. ThreadDestroyed h s = Done () t \<and> CreateThread th False t = Done g u \<and> \<not> IsRunnable th u \<and>
     SetNotSuspended th u = Done () v \<and> IsRunnable th v"
proof -
  have th: "HandleToThreadT h s = th" using assms(2) by (simp add: HandleToThreadT_def)
  obtain t where t: "ThreadDestroyed h s = Done () t" "internal_to_handle t th = None" "handle_to_internal t g = None"
    "new_stacks t = g # hs" "runnable t = runnable s" "th \<in> suspended_runnable t" "queue_good g t"
    using assms th by (simp add: ThreadDestroyed_def Let_def queue_good_def)
  let ?u = "t\<lparr>new_stacks := hs, mapped_stacks := insert g (mapped_stacks t), live_set := insert g (live_set t),
     internal_to_handle := (internal_to_handle t)(th \<mapsto> g), handle_to_internal := (handle_to_internal t)(g \<mapsto> th)\<rparr>"
  have u: "CreateThread th False t = Done g ?u"
    using t by (simp add: CreateThread_def sCreateThread_def executor_CreateThread_def)
  have g: "ThreadTToHandle th ?u = g" by (simp add: ThreadTToHandle_def)
  have "\<exists>v. SetNotSuspended th ?u = Done () v \<and> IsRunnable th v"
    using t assms(7) by (simp add: SetNotSuspended_def SetRunnable_def MakeRunnable_def sIsRunnable_def queue_good_def
        ThreadTToHandle_def IsRunnable_def)
  moreover have "\<not> IsRunnable th ?u" using g t(5) assms(7) by (simp add: IsRunnable_def sIsRunnable_def)
  ultimately show ?thesis using t(1) u by blast
qed

lemma destroyed_thread_leaves_record_witness:
  "\<exists>t u v. ThreadDestroyed 7 (host_example\<lparr>suspended_runnable := {700}\<rparr>) = Done () t \<and> CreateThread 700 False t = Done 9 u \<and>
     \<not> IsRunnable 700 u \<and> SetNotSuspended 700 u = Done () v \<and> IsRunnable 700 v"
proof (rule destroyed_thread_leaves_record)
  show "maps_inverse (host_example\<lparr>suspended_runnable := {700}\<rparr>)"
    by (auto simp: maps_inverse_def host_example_def split: if_splits)
qed (auto simp: host_example_def queue_good_def)

text \<open>Preemption points are harmless when preemption is off. \<open>Yield\<close> changes nothing unless the host is ready for
  preemption, interrupts are enabled and the current thread is not waiting; otherwise it blocks like \<open>ThreadBlock\<close>.\<close>

lemma Yield_when_allowed:
  "Yield xnu s = (if ready_for_preemption s \<and> interrupts_enabled s \<and> GetCurrentThreadT s \<notin> waiting s
                  then (case ThreadBlock xnu s of Done _ t \<Rightarrow> Done () t | Stopped e \<Rightarrow> Stopped e)
                  else Done () s)"
  by (simp add: Yield_def IsWaiting_def split: outcome.split)

end
