(* ===== verification/Copyio.thy ===== *)
theory Copyio
  imports Host
begin

text \<open>
  User memory, \<open>fuzz/xnu/osfmk/fakes/copyio.c\<close>. The user address 1 stands for bytes of the fuzzed input; every other
  address is copied for real, unless copyio is blocked for the current thread, in which case the input is used as
  well. A copy out to NULL or 1, or with copyio blocked, reads the kernel bytes into a scratch block and drops them.
\<close>

section \<open>Operations\<close>

definition fuzzed_copy :: "ptr \<Rightarrow> nat \<Rightarrow> (unit, 'z host_scheme) prog" where
  "fuzzed_copy kaddr len = bindM (fuzzM (GetFuzzedBytes len)) (\<lambda>bs. heapM (store_at kaddr bs))"

text \<open>\<open>!GetRemainingFuzzedBytes() || GetFuzzedBool()\<close>: the Boolean is drawn only while bytes remain.\<close>

definition fuzzed_fault :: "(bool, 'z host_scheme) prog" where
  "fuzzed_fault = bindM (fuzzM GetRemainingFuzzedBytes) (\<lambda>r. if r = 0 then retM True else fuzzM GetFuzzedBool)"

definition copyin :: "ptr \<Rightarrow> ptr \<Rightarrow> nat \<Rightarrow> (int, 'z host_scheme) prog" where
  "copyin uaddr kaddr len =
     bindM (getsM IsCopyioBlocked) (\<lambda>blocked.
       if \<not> blocked \<and> uaddr \<noteq> 1 then thenM (heapM (memcpy kaddr uaddr len)) (retM 0)
       else bindM fuzzed_fault (\<lambda>fault.
         if fault then retM (- 1) else thenM (fuzzed_copy kaddr len) (retM 0)))"

definition copyinstr :: "ptr \<Rightarrow> ptr \<Rightarrow> nat \<Rightarrow> (int, 'z host_scheme) prog" where
  "copyinstr user_addr kernel_addr max_len =
     bindM fuzzed_fault (\<lambda>fault.
       if fault then retM (- 1)
       else thenM (fuzzed_copy kernel_addr max_len)
           (thenM (whenM (max_len \<noteq> 0) (heapM (store_at (kernel_addr + max_len - 1) [0]))) (retM 0)))"

definition copyout :: "ptr \<Rightarrow> ptr \<Rightarrow> nat \<Rightarrow> (int, 'z host_scheme) prog" where
  "copyout kaddr udaddr len =
     bindM (fuzzM GetFuzzedBool) (\<lambda>fault.
       if fault then retM 1
       else bindM (getsM IsCopyioBlocked) (\<lambda>blocked.
         if udaddr = 0 \<or> udaddr = 1 \<or> blocked then
           bindM (heapM (malloc len)) (\<lambda>buf.
           thenM (heapM (memcpy buf kaddr len)) (thenM (heapM (free buf)) (retM 0)))
         else thenM (heapM (memcpy udaddr kaddr len)) (retM 0)))"

definition copyin_atomic32 :: "ptr \<Rightarrow> ptr \<Rightarrow> (int, 'z host_scheme) prog" where
  "copyin_atomic32 user_addr kernel_addr = copyin user_addr kernel_addr 4"

definition copyin_atomic64 :: "ptr \<Rightarrow> ptr \<Rightarrow> (int, 'z host_scheme) prog" where
  "copyin_atomic64 user_addr kernel_addr = copyin user_addr kernel_addr 8"

section \<open>Facts\<close>

text \<open>A range of \<open>n\<close> bytes at \<open>a\<close> inside the live block \<open>p\<close>.\<close>

definition range_in :: "heap \<Rightarrow> ptr \<Rightarrow> ptr \<Rightarrow> nat \<Rightarrow> bool" where
  "range_in h p a n \<longleftrightarrow> (\<exists>m. block_size h p = Some m \<and> p \<le> a \<and> a + n \<le> p + m)"

lemma range_in_block: "range_in h p a n \<Longrightarrow> in_block h a n"
proof -
  assume "range_in h p a n"
  then obtain m where "block_size h p = Some m" "p \<le> a" "a + n \<le> p + m" by (auto simp: range_in_def)
  then show ?thesis using in_blockI [of h p m "a - p" n] by simp
qed

lemma store_at_range:
  assumes "heap_wf h" "range_in h p a (length bs)"
  shows "store_at a bs h = Done () (write_bytes a bs h)" "keeps h (write_bytes a bs h) {p}"
    "read_bytes (write_bytes a bs h) a (length bs) = bs"
  using assms range_in_block [OF assms(2)]
  by (auto simp: store_at_def range_in_def intro: write_bytes_keeps)

lemma fuzzed_fault_cases:
  assumes "mfuzz s = Some d"
  obtains (fault) d' where "fuzzed_fault s = Done True (s\<lparr>mfuzz := Some d'\<rparr>)" "fdp_ok d \<Longrightarrow> fdp_ok d'"
      "(of_nat (remaining_bytes d) :: u32) = 0 \<or> fst (consume_bool d)"
  | (data) d' where "fuzzed_fault s = Done False (s\<lparr>mfuzz := Some d'\<rparr>)" "fdp_ok d \<Longrightarrow> fdp_ok d'"
      "(of_nat (remaining_bytes d) :: u32) \<noteq> 0" "consume_bool d = (False, d')"
proof -
  have self: "s\<lparr>mfuzz := Some d\<rparr> = s" by (simp flip: assms)
  obtain b d' where b: "consume_bool d = (b, d')" by fastforce
  have ok: "fdp_ok d \<Longrightarrow> fdp_ok d'" using b fdp_ok_bool by blast
  show thesis
  proof (cases "(of_nat (remaining_bytes d) :: u32) = 0 \<or> b")
    case True
    then have "\<exists>d''. fuzzed_fault s = Done True (s\<lparr>mfuzz := Some d''\<rparr>) \<and> (fdp_ok d \<longrightarrow> fdp_ok d'')"
      using assms b ok self
      by (cases "(of_nat (remaining_bytes d) :: u32) = 0")
         (auto simp: fuzzed_fault_def GetRemainingFuzzedBytes_def GetFuzzedBool_def intro: exI [of _ d])
    then show thesis using fault True b by (metis fst_conv)
  next
    case False
    then show thesis using assms b ok self
      by (intro data [of d']) (auto simp: fuzzed_fault_def GetRemainingFuzzedBytes_def GetFuzzedBool_def)
  qed
qed

lemma fuzzed_copy_runs:
  assumes "heap_wf (mheap s)" "fuzz_ok (mfuzz s)" "range_in (mheap s) p a n"
  shows "\<exists>bs f. fuzzed_copy a n s = Done () (s\<lparr>mfuzz := f, mheap := write_bytes a bs (mheap s)\<rparr>) \<and> length bs = n \<and> fuzz_ok f \<and>
     GetFuzzedBytes n (mfuzz s) = Done bs f"
proof -
  obtain bs f where f: "GetFuzzedBytes n (mfuzz s) = Done bs f" "length bs = n" "fuzz_ok f"
    using GetFuzzedBytes_runs [OF assms(2)] by blast
  then show ?thesis using store_at_range(1) [OF assms(1), of p a bs] assms(3)
    by (intro exI [of _ bs] exI [of _ f]) (simp add: fuzzed_copy_def)
qed

section \<open>Properties\<close>

text \<open>C30. Copying in. For a kernel buffer inside a live block and a fuzzer input, \<open>copyin\<close> returns. A real copy of a readable
  user range answers 0, the buffer holds the user's bytes and nothing is drawn from the input. A copy from the input answers -1 and
  leaves the memory alone exactly when no byte of the input remains or the Boolean drawn from it is true. Otherwise it
  answers 0 and the buffer holds the next bytes of the input, followed by zeros where the input ends before the buffer does. No
  byte outside the buffer's block changes.\<close>

theorem copyin_outcome:
  fixes s :: "'z host_scheme"
  assumes wf: "heap_wf (mheap s)" and fz: "mfuzz s = Some d" "fdp_ok d" and k: "range_in (mheap s) p kaddr len"
    and u: "IsCopyioBlocked s \<or> uaddr = 1 \<or> in_block (mheap s) uaddr len"
  shows "\<exists>r t. copyin uaddr kaddr len s = Done r t \<and> keeps (mheap s) (mheap t) {p} \<and> heap_wf (mheap t) \<and> fuzz_ok (mfuzz t) \<and>
     (if \<not> IsCopyioBlocked s \<and> uaddr \<noteq> 1
      then r = 0 \<and> mfuzz t = mfuzz s \<and> read_bytes (mheap t) kaddr len = read_bytes (mheap s) uaddr len
      else if (of_nat (remaining_bytes d) :: u32) = 0 \<or> fst (consume_bool d)
      then r = - 1 \<and> mheap t = mheap s
      else (let (dat, d') = consume_bytes (snd (consume_bool d)) len
            in r = 0 \<and> mfuzz t = Some d' \<and> read_bytes (mheap t) kaddr len = dat @ replicate (len - length dat) 0))"
proof (cases "IsCopyioBlocked s \<or> uaddr = 1")
  case False
  let ?bs = "read_bytes (mheap s) uaddr len"
  have "memory_at uaddr len (mheap s) = Done ?bs (mheap s)" using False u by (auto simp: memory_at_def)
  moreover have "range_in (mheap s) p kaddr (length ?bs)" using k by simp
  ultimately show ?thesis
    using False wf fz store_at_range [OF wf, of p kaddr ?bs] by (simp add: copyin_def memcpy_def fuzz_ok_def)
next
  case True
  from fz(1) show ?thesis
  proof (cases rule: fuzzed_fault_cases)
    case (fault d')
    then show ?thesis using True wf fz(2) by (auto simp: copyin_def fuzz_ok_def)
  next
    case (data d')
    let ?s = "s\<lparr>mfuzz := Some d'\<rparr>"
    obtain bs f where c: "fuzzed_copy kaddr len ?s = Done () (s\<lparr>mfuzz := f, mheap := write_bytes kaddr bs (mheap s)\<rparr>)" "length bs = len"
        "fuzz_ok f" "GetFuzzedBytes len (Some d') = Done bs f"
      using fuzzed_copy_runs [of ?s p kaddr len] wf k data fz(2) by (auto simp: fuzz_ok_def)
    obtain dat d'' where dat: "consume_bytes d' len = (dat, d'')" by fastforce
    with c(4) have bs: "bs = dat @ replicate (len - length dat) 0" "f = Some d''" by (simp_all add: GetFuzzedBytes_def pad_bytes_def)
    have st: "copyin uaddr kaddr len s = Done 0 (s\<lparr>mfuzz := f, mheap := write_bytes kaddr bs (mheap s)\<rparr>)"
      using True data(1) c(1) by (auto simp: copyin_def)
    have m: "keeps (mheap s) (write_bytes kaddr bs (mheap s)) {p}" "read_bytes (write_bytes kaddr bs (mheap s)) kaddr len = bs"
      "heap_wf (write_bytes kaddr bs (mheap s))"
      using store_at_range(2,3) [OF wf, of p kaddr bs] k c(2) wf by simp_all
    show ?thesis unfolding st using True data(3,4) m c(3) dat bs by auto
  qed
qed

definition copyio_example :: host where
  "copyio_example = host_example\<lparr>mheap := \<lparr>choices = [(4000, \<lambda>_. 0)], blocks = [(1000, 4), (2000, 4)],
     mem = (\<lambda>a. of_nat (a mod 256))\<rparr>, mfuzz := Some (byte_fdp [0, 9, 8, 7, 6])\<rparr>"

lemma copyio_example_ok:
  "heap_wf (mheap copyio_example)" "range_in (mheap copyio_example) 1000 1000 4" "in_block (mheap copyio_example) 2000 4"
  "mfuzz copyio_example = Some (byte_fdp [0, 9, 8, 7, 6])" "IsCopyioBlocked copyio_example = False"
  by (simp_all add: copyio_example_def heap_wf_def legal_block_def separate_def addr_limit_def range_in_def block_size_def in_block_def
      IsCopyioBlocked_def host_example_def)

theorem copyin_outcome_witness:
  "(\<exists>t. copyin 2000 1000 4 copyio_example = Done 0 t \<and> read_bytes (mheap t) 1000 4 = read_bytes (mheap copyio_example) 2000 4) \<and>
   (\<exists>t. copyin 1 1000 4 copyio_example = Done 0 t \<and> read_bytes (mheap t) 1000 4 = [9, 8, 7, 6])"
proof
  show "\<exists>t. copyin 2000 1000 4 copyio_example = Done 0 t \<and> read_bytes (mheap t) 1000 4 = read_bytes (mheap copyio_example) 2000 4"
    using copyin_outcome [OF copyio_example_ok(1,4) byte_fdp_ok copyio_example_ok(2), of 2000] copyio_example_ok by auto
  show "\<exists>t. copyin 1 1000 4 copyio_example = Done 0 t \<and> read_bytes (mheap t) 1000 4 = [9, 8, 7, 6]"
    using copyin_outcome [OF copyio_example_ok(1,4) byte_fdp_ok copyio_example_ok(2), of 1] by (auto simp: byte_in_def)
qed

text \<open>Copying in a string. When \<open>copyinstr\<close> answers 0 for a buffer of at least one byte, the last byte of the buffer is the
  terminator, so the buffer holds a string whatever the input was; when it answers -1 the memory is unchanged. No
  byte outside the buffer's block changes.\<close>

lemma copyinstr_terminates_string:
  fixes s :: "'z host_scheme"
  assumes wf: "heap_wf (mheap s)" and fz: "mfuzz s = Some d" "fdp_ok d" and k: "range_in (mheap s) p kaddr n" and n: "0 < n"
  shows "\<exists>r t. copyinstr uaddr kaddr n s = Done r t \<and> keeps (mheap s) (mheap t) {p} \<and>
     (r = - 1 \<and> mheap t = mheap s \<or> r = 0 \<and> read_bytes (mheap t) kaddr n ! (n - 1) = 0)"
  using fz(1)
proof (cases rule: fuzzed_fault_cases)
  case (fault d')
  then show ?thesis by (auto simp: copyinstr_def)
next
  case (data d')
  let ?s = "s\<lparr>mfuzz := Some d'\<rparr>"
  obtain bs f where bs: "fuzzed_copy kaddr n ?s = Done () (s\<lparr>mfuzz := f, mheap := write_bytes kaddr bs (mheap s)\<rparr>)" "length bs = n"
    using fuzzed_copy_runs [of ?s p kaddr n] wf k data fz(2) by (auto simp: fuzz_ok_def)
  let ?h = "write_bytes kaddr bs (mheap s)" and ?a = "kaddr + n - 1"
  have r: "range_in ?h p ?a (length [0 :: u8])" using k n by (auto simp: range_in_def)
  have "keeps (mheap s) ?h {p}" using store_at_range(2) [OF wf, of p kaddr bs] k bs(2) by simp
  from keeps_trans [OF this store_at_range(2) [OF _ r]] wf
  have "keeps (mheap s) (write_bytes ?a [0] ?h) {p}" by simp
  moreover have "read_bytes (write_bytes ?a [0] ?h) kaddr n ! (n - 1) = 0"
    using n by (simp add: read_bytes_def write_bytes_def fill_def)
  ultimately show ?thesis
    using store_at_range(1) [OF _ r] wf data(1) bs(1) n by (auto simp: copyinstr_def)
qed

lemma copyinstr_terminates_string_witness:
  "\<exists>r t. copyinstr 1 1000 4 copyio_example = Done r t \<and> (r = - 1 \<or> read_bytes (mheap t) 1000 4 ! 3 = 0)"
  using copyinstr_terminates_string [OF copyio_example_ok(1,4) byte_fdp_ok copyio_example_ok(2), of 1] by auto

text \<open>Copying out to nowhere. A copy out to NULL, to 1, or with copyio blocked, whose kernel range is readable, answers 1 on
  a fuzzed fault. Otherwise it answers 0, keeps every byte of every block and leaves no scratch block behind; but
  when the scratch allocation fails and there is something to copy, it writes through NULL.\<close>

lemma copyout_discards:
  fixes s :: "'z host_scheme"
  assumes wf: "heap_wf (mheap s)" and fz: "mfuzz s = Some d" and k: "in_block (mheap s) kaddr len" "0 < len"
    and nowhere: "udaddr = 0 \<or> udaddr = 1 \<or> IsCopyioBlocked s"
  shows "if fst (consume_bool d) then copyout kaddr udaddr len s = Done 1 (s\<lparr>mfuzz := Some (snd (consume_bool d))\<rparr>)
     else copyout kaddr udaddr len s = Stopped MemFault \<and> (\<exists>t. malloc len (mheap s) = Done 0 t) \<or>
       (\<exists>t. copyout kaddr udaddr len s = Done 0 t \<and> keeps (mheap s) (mheap t) {} \<and> live_blocks t = live_blocks s)"
proof (cases "fst (consume_bool d)")
  case True
  then show ?thesis using fz by (auto simp: copyout_def GetFuzzedBool_def split: prod.split)
next
  case False
  let ?s = "s\<lparr>mfuzz := Some (snd (consume_bool d))\<rparr>"
  have start: "fuzzM GetFuzzedBool s = Done False ?s"
    using fz False by (cases "consume_bool d") (simp add: GetFuzzedBool_def)
  have blk: "IsCopyioBlocked ?s = IsCopyioBlocked s" by (simp add: IsCopyioBlocked_def)
  obtain p t where m: "malloc len (mheap s) = Done p t" "heap_wf t"
    "p = 0 \<and> block_size t = block_size (mheap s) \<or> p \<noteq> 0 \<and> block_size (mheap s) p = None \<and> block_size t = (block_size (mheap s))(p \<mapsto> len)"
    using libc.alloc_contract [OF wf, of len] by blast
  have kt: "keeps (mheap s) t {}" using m(1) unfolding malloc_def by (rule alloc_aligned_keeps)
  show ?thesis
  proof (cases "p = 0")
    case True
    have "\<not> in_block t 0 len"
      using m(2) k(2) by (auto simp: in_block_def list_ex_iff heap_wf_def dest: blocks_wf_mem)
    moreover have "read_bytes t kaddr len \<noteq> []" using k(2) by (simp flip: length_0_conv)
    ultimately have "copyout kaddr udaddr len s = Stopped MemFault"
      using start blk nowhere m(1) True k(2)
      by (auto simp: copyout_def memcpy_def memory_at_def store_at_def)
    then show ?thesis using m(1) True False by auto
  next
    case f: False
    have in_t: "in_block t kaddr len"
    proof -
      obtain b n where bn: "(b, n) \<in> set (blocks (mheap s))" "b \<le> kaddr" "kaddr + len \<le> b + n"
        using k(1) by (auto simp: in_block_def list_ex_iff)
      have "blocks t = (p, len) # blocks (mheap s)"
        using m(1) f by (auto simp: malloc_def alloc_aligned_def split: list.splits prod.splits if_splits)
      then show ?thesis using bn by (auto simp: in_block_def list_ex_iff)
    qed
    let ?bs = "read_bytes t kaddr len"
    have r: "range_in t p p (length ?bs)" using m(3) f by (auto simp: range_in_def)
    let ?w = "write_bytes p ?bs t"
    obtain v where v: "free p ?w = Done () v" "block_size v = (block_size t)(p := None)"
      using libc.dealloc_live [of ?w p len] m(2,3) f by auto
    have "keeps (mheap s) v {p}"
      using keeps_trans [OF keeps_trans [OF kt store_at_range(2) [OF m(2) r]] free_keeps(1) [OF v(1)]] by simp
    then have "keeps (mheap s) v {}" using m(3) f by (auto intro: keeps_fresh)
    moreover have "block_size v = block_size (mheap s)" using v(2) m(3) f by (auto simp: fun_eq_iff)
    moreover have "copyout kaddr udaddr len s = Done 0 (?s\<lparr>mheap := v\<rparr>)"
      using start blk nowhere m(1) in_t store_at_range(1) [OF m(2) r] v(1)
      by (auto simp: copyout_def memcpy_def memory_at_def)
    ultimately show ?thesis using False by (auto simp: live_blocks_def)
  qed
qed

lemma copyout_discards_witness:
  "\<exists>t. copyout 1000 0 4 copyio_example = Done 0 t \<and> live_blocks t = live_blocks copyio_example"
proof -
  have k: "in_block (mheap copyio_example) 1000 4" using range_in_block [OF copyio_example_ok(2)] .
  have "malloc 4 (mheap copyio_example) \<noteq> Done 0 t" for t
    by (simp add: copyio_example_def malloc_def alloc_aligned_def legal_block_def separate_def addr_limit_def)
  moreover have "\<not> fst (consume_bool (byte_fdp [0, 9, 8, 7, 6]))" by (simp add: byte_in_def)
  ultimately show ?thesis
    using copyout_discards [OF copyio_example_ok(1,4) k, of 0] by auto
qed

end
