(* ===== verification/Atomic.thy ===== *)
theory Atomic
  imports Copyio
begin

text \<open>
  The atomic operations, \<open>fuzz/xnu/osfmk/fakes/atomic.c\<close>. There is one processor, so an atomic operation is a plain
  one with a preemption point: loads and stores yield afterwards, a compare-and-exchange yields before it
  looks at the cell and is then indivisible.
\<close>

section \<open>Operations\<close>

definition load32 :: "ptr \<Rightarrow> (u32, heap) prog" where
  "load32 a = bindM (memory_at a 4) (\<lambda>bs. retM (ucast (u64_of_bytes bs)))"

definition bytes_of_u32 :: "u32 \<Rightarrow> u8 list" where
  "bytes_of_u32 w = map (\<lambda>i. ucast (drop_bit (8 * i) (ucast w :: u64))) [0 ..< 4]"

definition store32 :: "ptr \<Rightarrow> u32 \<Rightarrow> (unit, heap) prog" where
  "store32 a w = store_at a (bytes_of_u32 w)"

definition atomic_load_explicit_wrapper_32 :: "'z xnu_thread \<Rightarrow> ptr \<Rightarrow> (u64, 'z host_scheme) prog" where
  "atomic_load_explicit_wrapper_32 xnu p = bindM (heapM (load32 p)) (\<lambda>v. thenM (Yield xnu) (retM (ucast v)))"

definition atomic_load_explicit_wrapper_64 :: "'z xnu_thread \<Rightarrow> ptr \<Rightarrow> (u64, 'z host_scheme) prog" where
  "atomic_load_explicit_wrapper_64 xnu p = bindM (heapM (load64 p)) (\<lambda>v. thenM (Yield xnu) (retM v))"

definition atomic_compare_exchange_weak_explicit_wrapper_32 ::
  "'z xnu_thread \<Rightarrow> ptr \<Rightarrow> ptr \<Rightarrow> u32 \<Rightarrow> (int, 'z host_scheme) prog" where
  "atomic_compare_exchange_weak_explicit_wrapper_32 xnu p expected desired =
     thenM (Yield xnu)
    (bindM (heapM (load32 p)) (\<lambda>v. bindM (heapM (load32 expected)) (\<lambda>e.
       if v = e then thenM (heapM (store32 p desired)) (retM 1)
       else bindM (heapM (load32 p)) (\<lambda>v. thenM (heapM (store32 expected v)) (retM 0)))))"

definition atomic_compare_exchange_weak_explicit_wrapper_64 ::
  "'z xnu_thread \<Rightarrow> ptr \<Rightarrow> ptr \<Rightarrow> u64 \<Rightarrow> (int, 'z host_scheme) prog" where
  "atomic_compare_exchange_weak_explicit_wrapper_64 xnu p expected desired =
     thenM (Yield xnu)
    (bindM (heapM (load64 p)) (\<lambda>v. bindM (heapM (load64 expected)) (\<lambda>e.
       if v = e then thenM (heapM (store64 p desired)) (retM 1)
       else bindM (heapM (load64 p)) (\<lambda>v. thenM (heapM (store64 expected v)) (retM 0)))))"

definition atomic_store_explicit_wrapper_32 :: "'z xnu_thread \<Rightarrow> ptr \<Rightarrow> u32 \<Rightarrow> (unit, 'z host_scheme) prog" where
  "atomic_store_explicit_wrapper_32 xnu p v = thenM (heapM (store32 p v)) (Yield xnu)"

definition atomic_store_explicit_wrapper_64 :: "'z xnu_thread \<Rightarrow> ptr \<Rightarrow> u64 \<Rightarrow> (unit, 'z host_scheme) prog" where
  "atomic_store_explicit_wrapper_64 xnu p v = thenM (heapM (store64 p v)) (Yield xnu)"

section \<open>The interface of a memory cell\<close>

text \<open>A cell of \<open>width\<close> bytes that is readable and writable at its address: what is stored is loaded, and a store
  leaves a separate cell alone.\<close>

locale memory_cell =
  fixes load :: "ptr \<Rightarrow> ('w, heap) prog" and store :: "ptr \<Rightarrow> 'w \<Rightarrow> (unit, heap) prog" and width :: nat
  assumes load_runs: "in_block h a width \<Longrightarrow> \<exists>v. load a h = Done v h"
    and store_runs: "in_block h a width \<Longrightarrow> \<exists>t. store a w h = Done () t \<and> load a t = Done w t \<and> in_block t = in_block h \<and>
      (\<forall>b. a + width \<le> b \<or> b + width \<le> a \<longrightarrow> in_block h b width \<longrightarrow> (\<forall>v. load b h = Done v h \<longrightarrow> load b t = Done v t))"
begin

text \<open>Compare-and-exchange as the hardware promises it: the cell is replaced exactly when it holds the expected value, and
  otherwise the expected value is updated.\<close>

lemma compare_exchange:
  assumes "in_block h p width" "in_block h e width" "p + width \<le> e \<or> e + width \<le> p"
    and "load p h = Done v h" "load e h = Done x h"
  shows "\<exists>t. (if v = x then thenM (store p w) (retM (1 :: int))
              else bindM (load p) (\<lambda>v. thenM (store e v) (retM 0))) h = Done (if v = x then 1 else 0) t \<and>
     load p t = Done (if v = x then w else v) t \<and> load e t = Done (if v = x then x else v) t"
  using assms store_runs [of h p w] store_runs [of h e v] by auto

end

lemma length_bytes_of_u32 [simp]: "length (bytes_of_u32 w) = 4"
  by (simp add: bytes_of_u32_def)

lemma u32_bytes_roundtrip [simp]: "ucast (u64_of_bytes (bytes_of_u32 w)) = w"
  unfolding bytes_of_u32_def u64_of_bytes_prefix
  by (rule bit_word_eqI) (auto simp: bit_simps)

lemma load_other:
  assumes "a + n \<le> b \<or> b + n \<le> a" "length bs = n" "in_block h b n"
  shows "memory_at b n (write_bytes a bs h) = Done (read_bytes h b n) (write_bytes a bs h)"
  using assms by (auto simp: memory_at_def read_write_other)

interpretation cell32: memory_cell load32 store32 4
proof
  fix h a assume "in_block h a 4"
  then show "\<exists>v. load32 a h = Done v h" by (simp add: load32_def memory_at_def)
next
  fix h a and w :: u32 assume a: "in_block h a 4"
  have self: "load32 a (write_bytes a (bytes_of_u32 w) h) = Done w (write_bytes a (bytes_of_u32 w) h)"
    using a read_write_same [of a "bytes_of_u32 w" h] by (simp add: load32_def memory_at_def)
  show "\<exists>t. store32 a w h = Done () t \<and> load32 a t = Done w t \<and> in_block t = in_block h \<and>
      (\<forall>b. a + 4 \<le> b \<or> b + 4 \<le> a \<longrightarrow> in_block h b 4 \<longrightarrow> (\<forall>v. load32 b h = Done v h \<longrightarrow> load32 b t = Done v t))"
    using a self load_other [of a 4 _ "bytes_of_u32 w" h]
    by (intro exI [of _ "write_bytes a (bytes_of_u32 w) h"]) (auto simp: store32_def store_at_def load32_def memory_at_def)
qed

interpretation cell64: memory_cell load64 store64 8
proof
  fix h a assume "in_block h a 8"
  then show "\<exists>v. load64 a h = Done v h" by (simp add: load64_def memory_at_def)
next
  fix h a and w :: u64 assume a: "in_block h a 8"
  have self: "load64 a (write_bytes a (bytes_of_u64 w) h) = Done w (write_bytes a (bytes_of_u64 w) h)"
    using a read_write_same [of a "bytes_of_u64 w" h] by (simp add: load64_def memory_at_def)
  show "\<exists>t. store64 a w h = Done () t \<and> load64 a t = Done w t \<and> in_block t = in_block h \<and>
      (\<forall>b. a + 8 \<le> b \<or> b + 8 \<le> a \<longrightarrow> in_block h b 8 \<longrightarrow> (\<forall>v. load64 b h = Done v h \<longrightarrow> load64 b t = Done v t))"
    using a self load_other [of a 8 _ "bytes_of_u64 w" h]
    by (intro exI [of _ "write_bytes a (bytes_of_u64 w) h"]) (auto simp: store64_def store_at_def load64_def memory_at_def)
qed

section \<open>Properties\<close>

text \<open>C28. Compare-and-exchange. From the state in which the yield hands the processor back, and for two separate cells, both widths
  return 1 exactly when the cell held the expected value. Then the cell holds the desired value; otherwise
  it keeps its value, which is stored as the new expectation.\<close>

theorem compare_exchange_spec:
  fixes s :: "'z host_scheme"
  assumes y: "Yield xnu s = Done () u"
    and c32: "in_block (mheap u) p 4" "in_block (mheap u) e 4" "p + 4 \<le> e \<or> e + 4 \<le> p"
      "load32 p (mheap u) = Done v (mheap u)" "load32 e (mheap u) = Done x (mheap u)"
    and c64: "in_block (mheap u) p' 8" "in_block (mheap u) e' 8" "p' + 8 \<le> e' \<or> e' + 8 \<le> p'"
      "load64 p' (mheap u) = Done v' (mheap u)" "load64 e' (mheap u) = Done x' (mheap u)"
  shows "(\<exists>t. atomic_compare_exchange_weak_explicit_wrapper_32 xnu p e w s = Done (if v = x then 1 else 0) t \<and>
            load32 p (mheap t) = Done (if v = x then w else v) (mheap t) \<and>
            load32 e (mheap t) = Done (if v = x then x else v) (mheap t)) \<and>
         (\<exists>t. atomic_compare_exchange_weak_explicit_wrapper_64 xnu p' e' w' s = Done (if v' = x' then 1 else 0) t \<and>
            load64 p' (mheap t) = Done (if v' = x' then w' else v') (mheap t) \<and>
            load64 e' (mheap t) = Done (if v' = x' then x' else v') (mheap t))"
proof -
  have m: "u\<lparr>mheap := mheap u\<rparr> = u" by simp
  have "\<exists>t. atomic_compare_exchange_weak_explicit_wrapper_32 xnu p e w s = Done (if v = x then 1 else 0) t \<and>
            load32 p (mheap t) = Done (if v = x then w else v) (mheap t) \<and>
            load32 e (mheap t) = Done (if v = x then x else v) (mheap t)"
    using cell32.compare_exchange [OF c32, of w] y c32(4,5) m
    by (auto simp: atomic_compare_exchange_weak_explicit_wrapper_32_def split: outcome.splits if_splits)
  moreover have "\<exists>t. atomic_compare_exchange_weak_explicit_wrapper_64 xnu p' e' w' s = Done (if v' = x' then 1 else 0) t \<and>
            load64 p' (mheap t) = Done (if v' = x' then w' else v') (mheap t) \<and>
            load64 e' (mheap t) = Done (if v' = x' then x' else v') (mheap t)"
    using cell64.compare_exchange [OF c64, of w'] y c64(4,5) m
    by (auto simp: atomic_compare_exchange_weak_explicit_wrapper_64_def split: outcome.splits if_splits)
  ultimately show ?thesis ..
qed

definition atomic_example :: host where
  "atomic_example = host_example\<lparr>mheap := \<lparr>choices = [], blocks = [(1000, 16), (2000, 16)], mem = (\<lambda>a. if a = 1000 then 5 else 0)\<rparr>\<rparr>"

theorem compare_exchange_spec_witness:
  "\<exists>t. atomic_compare_exchange_weak_explicit_wrapper_32 (xnu_idle (\<lambda>_. retM ())) 1000 2000 9 atomic_example = Done 0 t \<and>
     load32 2000 (mheap t) = Done 5 (mheap t)"
proof -
  let ?h = "mheap atomic_example"
  have y: "Yield (xnu_idle (\<lambda>_. retM ())) atomic_example = Done () atomic_example"
    by (simp add: Yield_def atomic_example_def host_example_def IsWaiting_def GetCurrentThreadT_def HandleToThreadT_def)
  have b: "in_block ?h 1000 4" "in_block ?h 2000 4" "in_block ?h 1000 8" "in_block ?h 2000 8"
    by (simp_all add: atomic_example_def in_block_def)
  have l: "load32 1000 ?h = Done 5 ?h" "load32 2000 ?h = Done 0 ?h"
    by (simp_all add: load32_def memory_at_def b) (simp_all add: read_bytes_def atomic_example_def)
  obtain v x where l8: "load64 1000 ?h = Done v ?h" "load64 2000 ?h = Done x ?h" using cell64.load_runs b by blast
  show ?thesis using compare_exchange_spec [OF y b(1,2) _ l b(3,4) _ l8, of 9 9] by auto
qed

end
