(* ===== verification/Platform.thy ===== *)
theory Platform
  imports Machine
begin

text \<open>
  The platform the guest sees: \<open>osfmk/fakes/platform_expert.c\<close> and \<open>bsd/fakes/platform_expert.c\<close> (boot arguments and
  names), \<open>mach_notify.c\<close> (Mach notifications consume the right they are sent on), \<open>timer.c\<close>, \<open>machine.c\<close> and
  \<open>log.c\<close>. \<open>KERN_SUCCESS\<close> is 0.
\<close>

section \<open>Strings\<close>

definition string_bytes :: "string \<Rightarrow> u8 list" where
  "string_bytes str = map (\<lambda>c. of_nat (of_char c)) str"

text \<open>\<open>strlcpy\<close>: at most \<open>n - 1\<close> characters and a terminator; nothing when \<open>n\<close> is 0. The length argument is an \<open>int\<close>
  that converts to \<open>size_t\<close>.\<close>

definition strlcpy_bytes :: "string \<Rightarrow> nat \<Rightarrow> u8 list" where
  "strlcpy_bytes src n = (if n = 0 then [] else take (n - 1) (string_bytes src) @ [0])"

definition strlcpy :: "ptr \<Rightarrow> string \<Rightarrow> nat \<Rightarrow> (unit, heap) prog" where
  "strlcpy dst src n = store_at dst (strlcpy_bytes src n)"

section \<open>Names\<close>

definition PEGetModelName :: "ptr \<Rightarrow> nat \<Rightarrow> (bool, 'z mach_scheme) prog" where
  "PEGetModelName name maxLength = thenM (heapM (strlcpy name ''fuzzer_model'' maxLength)) (retM True)"

definition PEGetMachineName :: "ptr \<Rightarrow> nat \<Rightarrow> (bool, 'z mach_scheme) prog" where
  "PEGetMachineName name maxLength = thenM (heapM (strlcpy name ''fuzzer_machine'' maxLength)) (retM True)"

definition PEGetPlatformEpoch :: "(int, 's) prog" where
  "PEGetPlatformEpoch = retM (- 1)"

definition PEGetTargetName :: "ptr \<Rightarrow> nat \<Rightarrow> (bool, 'z mach_scheme) prog" where
  "PEGetTargetName name maxLength = thenM (heapM (strlcpy name ''fuzzer_target_name'' maxLength)) (retM True)"

definition PEGetProductName :: "ptr \<Rightarrow> nat \<Rightarrow> (bool, 'z mach_scheme) prog" where
  "PEGetProductName name maxLength = thenM (heapM (strlcpy name ''fuzzer_product_name'' maxLength)) (retM True)"

section \<open>The platform expert of osfmk\<close>

definition PEGetCoprocessorVersion :: "(unit, 's) prog" where
  "PEGetCoprocessorVersion = abortM"

definition PEHaltRestartInternal :: "(unit, 's) prog" where
  "PEHaltRestartInternal = abortM"

definition PEInitiatePanic :: "(unit, 's) prog" where
  "PEInitiatePanic = abortM"

definition PE_boot_args :: string where
  "PE_boot_args = ''boot_args''"

definition PE_display_icon :: "(unit, 's) prog" where
  "PE_display_icon = retM ()"

definition PEHaltRestart :: "(unit, 's) prog" where
  "PEHaltRestart = retM ()"

definition PE_get_default :: "ptr \<Rightarrow> nat \<Rightarrow> (bool, 'z mach_scheme) prog" where
  "PE_get_default property_ptr max_property = thenM (heapM (memset property_ptr 0 max_property)) (retM False)"

definition PE_get_kc_header :: "(ptr, 's) prog" where
  "PE_get_kc_header = abortM"

text \<open>The argument is XNU's \<open>KCFormatStatic\<close>.\<close>

definition PE_get_primary_kc_format :: "'k \<Rightarrow> (bool \<times> 'k, 's) prog" where
  "PE_get_primary_kc_format KCFormatStatic = retM (True, KCFormatStatic)"

text \<open>The second result is what is stored through a non-null \<open>debug_flags\<close>.\<close>

definition PE_i_can_has_debugger :: "ptr \<Rightarrow> u32 \<times> u32 option" where
  "PE_i_can_has_debugger debug_flags = (1, if debug_flags \<noteq> 0 then Some 1 else None)"

definition PE_init_iokit :: "(unit, 's) prog" where
  "PE_init_iokit = retM ()"

definition PE_init_panicheader :: "(unit, 's) prog" where
  "PE_init_panicheader = abortM"

definition PE_lockdown_iokit :: "(unit, 's) prog" where
  "PE_lockdown_iokit = retM ()"

definition PE_panic_hook :: "(unit, 's) prog" where
  "PE_panic_hook = abortM"

definition PE_parse_boot_arg_str :: "string \<Rightarrow> ptr \<Rightarrow> nat \<Rightarrow> (bool, 'z mach_scheme) prog" where
  "PE_parse_boot_arg_str arg_string arg_ptr sz = thenM (heapM (bzero arg_ptr sz)) (retM True)"

definition PE_stub_poll_input :: "(int, 's) prog" where
  "PE_stub_poll_input = abortM"

definition PE_update_panicheader_nestedpanic :: "(unit, 's) prog" where
  "PE_update_panicheader_nestedpanic = abortM"

section \<open>Mach notifications\<close>

text \<open>The send-once rights of the ports; \<open>ip_release\<close> is XNU's.\<close>

record nstate =
  sorights :: "ptr \<rightharpoonup> int"

definition drop_soright :: "ptr \<Rightarrow> (unit, 'z nstate_scheme) prog" where
  "drop_soright p = (\<lambda>s. case sorights s p of None \<Rightarrow> Stopped MemFault
     | Some n \<Rightarrow> Done () (s\<lparr>sorights := (sorights s)(p \<mapsto> n - 1)\<rparr>))"

definition mach_notify_port_destroyed :: "(ptr \<Rightarrow> (unit, 'z nstate_scheme) prog) \<Rightarrow> ptr \<Rightarrow> ptr \<Rightarrow> (int, 'z nstate_scheme) prog" where
  "mach_notify_port_destroyed ip_release notify rights =
     thenM (drop_soright notify) (thenM (ip_release notify) (thenM (ip_release rights) (retM 0)))"

definition mach_notify_send_once :: "(ptr \<Rightarrow> (unit, 'z nstate_scheme) prog) \<Rightarrow> ptr \<Rightarrow> (int, 'z nstate_scheme) prog" where
  "mach_notify_send_once ip_release notify = thenM (drop_soright notify) (thenM (ip_release notify) (retM 0))"

definition mach_notify_port_deleted :: "(ptr \<Rightarrow> (unit, 'z nstate_scheme) prog) \<Rightarrow> ptr \<Rightarrow> u32 \<Rightarrow> (int, 'z nstate_scheme) prog" where
  "mach_notify_port_deleted ip_release notify name = thenM (drop_soright notify) (thenM (ip_release notify) (retM 0))"

definition mach_notify_send_possible :: "(ptr \<Rightarrow> (unit, 'z nstate_scheme) prog) \<Rightarrow> ptr \<Rightarrow> u32 \<Rightarrow> (int, 'z nstate_scheme) prog" where
  "mach_notify_send_possible ip_release notify name = thenM (drop_soright notify) (thenM (ip_release notify) (retM 0))"

definition mach_notify_no_senders :: "(ptr \<Rightarrow> (unit, 'z nstate_scheme) prog) \<Rightarrow> ptr \<Rightarrow> u32 \<Rightarrow> (int, 'z nstate_scheme) prog" where
  "mach_notify_no_senders ip_release notify mscount = thenM (drop_soright notify) (thenM (ip_release notify) (retM 0))"

definition mach_notify_dead_name :: "(ptr \<Rightarrow> (unit, 'z nstate_scheme) prog) \<Rightarrow> ptr \<Rightarrow> u32 \<Rightarrow> (int, 'z nstate_scheme) prog" where
  "mach_notify_dead_name ip_release notify name = thenM (drop_soright notify) (thenM (ip_release notify) (retM 0))"

section \<open>Timers, processors and logging\<close>

definition timer_queue_assign :: "ptr \<Rightarrow> u64 \<Rightarrow> ptr" where
  "timer_queue_assign timer_queue deadline = timer_queue"

definition cpu_init :: "(ptr \<Rightarrow> (unit, 's) prog) \<Rightarrow> ptr \<Rightarrow> (unit, 's) prog" where
  "cpu_init timer_call_queue_init timer_queue = timer_call_queue_init timer_queue"

definition timer_call_cpu :: "int \<Rightarrow> (unit, 's) prog" where
  "timer_call_cpu cpu = abortM"

definition timer_queue_cancel :: "ptr \<Rightarrow> u64 \<Rightarrow> u64 \<Rightarrow> (unit, 's) prog" where
  "timer_queue_cancel queue deadline new_deadline = retM ()"

definition timer_queue_cpu :: "int \<Rightarrow> (ptr, 's) prog" where
  "timer_queue_cpu cpu = abortM"

definition timer_resort_threshold :: "u64 \<Rightarrow> (bool, 's) prog" where
  "timer_resort_threshold skew = abortM"

definition timer_call_nosync_cpu :: "int \<Rightarrow> (unit, 's) prog" where
  "timer_call_nosync_cpu cpu = retM ()"

definition timer_resync_deadlines :: "(unit, 's) prog" where
  "timer_resync_deadlines = retM ()"

definition ml_timer_evaluate :: "(unit, 's) prog" where
  "ml_timer_evaluate = retM ()"

definition ml_timer_forced_evaluation :: "(bool, 's) prog" where
  "ml_timer_forced_evaluation = abortM"

definition machine_boot_info :: "ptr \<Rightarrow> nat \<Rightarrow> ptr" where
  "machine_boot_info buf buf_len = buf"

definition machine_processor_shutdown :: "ptr \<Rightarrow> ptr \<Rightarrow> ptr" where
  "machine_processor_shutdown thread processor = 0"

text \<open>The lines a call sends to the log; \<open>message\<close> is the formatted text.\<close>

definition os_log_internal :: "bool \<Rightarrow> string \<Rightarrow> string list" where
  "os_log_internal is_verbose message = (if \<not> is_verbose then [] else [message])"

definition kprintf :: "bool \<Rightarrow> string \<Rightarrow> string list" where
  "kprintf is_verbose message = (if \<not> is_verbose then [] else [message])"

definition printf_if_verbose :: "bool \<Rightarrow> string \<Rightarrow> int \<times> string list" where
  "printf_if_verbose is_verbose message = (0, if \<not> is_verbose then [] else [message])"

definition os_log_with_args :: "string \<Rightarrow> string list" where
  "os_log_with_args message = [message]"

section \<open>Properties\<close>

lemma length_strlcpy_bytes: "length (strlcpy_bytes src n) \<le> n"
  by (auto simp: strlcpy_bytes_def)

lemma strlcpy_runs:
  assumes "block_size h p = Some m" "n \<le> m" "heap_wf h"
  shows "strlcpy p src n h = Done () (write_bytes p (strlcpy_bytes src n) h) \<and> keeps h (write_bytes p (strlcpy_bytes src n) h) {p}"
proof -
  let ?bs = "strlcpy_bytes src n"
  have "length ?bs \<le> m" using assms(2) length_strlcpy_bytes [of src n] by simp
  then show ?thesis using assms in_block_base [OF assms(1)] by (auto simp: strlcpy_def store_at_def intro!: write_bytes_keeps)
qed

text \<open>Platform names. For a buffer of at least \<open>maxLength\<close> bytes every name query succeeds, touches no other block, and leaves in the
  buffer the longest prefix of the name that fits, followed by a terminator; nothing is written past
  \<open>maxLength\<close> bytes.\<close>

lemma platform_names:
  assumes "block_size (mheap s) name = Some m" and "maxLength \<le> m" and "0 < maxLength" and "heap_wf (mheap s)"
    and "(query, str) \<in> {(PEGetModelName, ''fuzzer_model''), (PEGetMachineName, ''fuzzer_machine''),
            (PEGetTargetName, ''fuzzer_target_name''), (PEGetProductName, ''fuzzer_product_name'')}"
  shows "\<exists>t. query name maxLength s = Done True t \<and> keeps (mheap s) (mheap t) {name} \<and>
     (let k = min (maxLength - 1) (length str) in
       read_bytes (mheap t) name (k + 1) = string_bytes (take k str) @ [0] \<and>
       (\<forall>a \<ge> name + maxLength. mem (mheap t) a = mem (mheap s) a))"
proof -
  let ?bs = "strlcpy_bytes str maxLength" and ?k = "min (maxLength - 1) (length str)"
  let ?t = "s\<lparr>mheap := write_bytes name ?bs (mheap s)\<rparr>"
  have b: "?bs = string_bytes (take ?k str) @ [0]" and l: "length ?bs = ?k + 1"
    using assms(3) by (simp_all add: strlcpy_bytes_def string_bytes_def take_map min_def)
  have q: "query name maxLength s = Done True ?t"
    using strlcpy_runs [OF assms(1,2,4)] assms(5)
    by (auto simp: PEGetModelName_def PEGetMachineName_def PEGetTargetName_def PEGetProductName_def)
  have r: "read_bytes (mheap ?t) name (?k + 1) = string_bytes (take ?k str) @ [0]"
    using read_write_same [of name ?bs "mheap s"] unfolding l by (simp add: b)
  have m: "mem (mheap ?t) a = mem (mheap s) a" if "name + maxLength \<le> a" for a
    using that length_strlcpy_bytes [of str maxLength] by (simp add: write_bytes_def fill_def)
  show ?thesis using q r m strlcpy_runs [OF assms(1,2,4)] by (intro exI [of _ ?t]) (simp add: Let_def)
qed

lemma platform_names_witness:
  "\<exists>t. PEGetModelName 1000 4 \<lparr>mheap = \<lparr>choices = [], blocks = [(1000, 8)], mem = (\<lambda>_. 0)\<rparr>, mfuzz = None\<rparr> = Done True t \<and>
     read_bytes (mheap t) 1000 4 = string_bytes ''fuz'' @ [0]"
proof -
  let ?s = "\<lparr>mheap = \<lparr>choices = [], blocks = [(1000, 8)], mem = (\<lambda>_. 0)\<rparr>, mfuzz = None\<rparr> :: mach"
  have "block_size (mheap ?s) 1000 = Some 8" "heap_wf (mheap ?s)"
    by (simp_all add: block_size_def heap_wf_def legal_block_def addr_limit_def)
  then show ?thesis using platform_names [of ?s 1000 8 4 PEGetModelName "''fuzzer_model''"] by (auto simp: Let_def numeral_eq_Suc)
qed

text \<open>Notifications consume one right. Every Mach notification answers success and takes exactly one send-once right from the
  port it is sent on, when releasing a reference does not touch the rights.\<close>

lemma notifications_consume_right:
  assumes "sorights s notify = Some n" and "\<And>p s. ip_release p s = Done () s"
    and "send \<in> {mach_notify_send_once ip_release, (\<lambda>p. mach_notify_port_destroyed ip_release p rights),
       (\<lambda>p. mach_notify_port_deleted ip_release p name), (\<lambda>p. mach_notify_send_possible ip_release p name),
       (\<lambda>p. mach_notify_no_senders ip_release p name), (\<lambda>p. mach_notify_dead_name ip_release p name)}"
  shows "send notify s = Done 0 (s\<lparr>sorights := (sorights s)(notify \<mapsto> n - 1)\<rparr>)"
  using assms
  by (auto simp: mach_notify_send_once_def mach_notify_port_destroyed_def mach_notify_port_deleted_def
      mach_notify_send_possible_def mach_notify_no_senders_def mach_notify_dead_name_def drop_soright_def)

lemma notifications_consume_right_witness:
  "mach_notify_send_once (\<lambda>_. retM ()) 5 \<lparr>sorights = [5 \<mapsto> 3]\<rparr> = Done 0 \<lparr>sorights = [5 \<mapsto> 2]\<rparr>"
  using notifications_consume_right [of "\<lparr>sorights = [5 \<mapsto> 3]\<rparr>" 5 3 "\<lambda>_. retM ()" "mach_notify_send_once (\<lambda>_. retM ())" 0 0] by simp

end
