(* ===== verification/VirtualSync.thy ===== *)
theory VirtualSync
  imports Host
begin

text \<open>
  The synchronisation objects behind the guest's locks: \<open>third_party/concurrence/sync/mutex.cc\<close>,
  \<open>rwlock.cc\<close> and \<open>sync.cc\<close>, the ticket locks of \<open>fuzz/host/hw_ticket_lock_manager.cc\<close>, and the lock
  entry points of \<open>fuzz/xnu/osfmk/fakes/sync/\<close>. A lock variable of the guest holds the address of a
  mutex or of a reader-writer lock; the reader-writer lock owns a mutex of its own.

  A lock attempt on a taken lock blocks and tries again each time the thread is resumed. The argument
  \<open>fuel\<close> bounds the number of resumptions. The diagnostics that \<open>is_verbose\<close> switches on (stack traces, the
  search for deadlocks) are left out here; the search is the subject of the theory Deadlock.
\<close>

record vmutex =
  owner :: handle
  waiters :: "handle list"

record vrwlock =
  rw_mutex :: ptr
  rw_owners :: "handle set"
  rw_waiters :: "handle list"

text \<open>The two kinds of synchronisation objects the tracker lists.\<close>

datatype sync_ref = MutexRef ptr | RwRef ptr

record lhost = host +
  mutexes :: "ptr \<rightharpoonup> vmutex"
  rwlocks :: "ptr \<rightharpoonup> vrwlock"
  lock_var :: "ptr \<Rightarrow> ptr"
  new_syncs :: "ptr list"
  live_locks :: "ptr set"
  invalidated_locks :: "ptr set"
  all_primitives :: "sync_ref list"
  session_tracked :: "sync_ref set"

section \<open>Mutexes\<close>

definition mutex_get :: "ptr \<Rightarrow> (vmutex, 'z lhost_scheme) prog" where
  "mutex_get m = (\<lambda>s. case mutexes s m of None \<Rightarrow> Stopped MemFault | Some v \<Rightarrow> Done v s)"

definition mutex_upd :: "ptr \<Rightarrow> (vmutex \<Rightarrow> vmutex) \<Rightarrow> (unit, 'z lhost_scheme) prog" where
  "mutex_upd m f = bindM (mutex_get m) (\<lambda>v. modifyM (\<lambda>s. s\<lparr>mutexes := (mutexes s)(m \<mapsto> f v)\<rparr>))"

definition mutex_AddWaiter :: "ptr \<Rightarrow> (unit, 'z lhost_scheme) prog" where
  "mutex_AddWaiter m =
     bindM (mutex_get m) (\<lambda>v. bindM (getsM current) (\<lambda>cur.
       if owner v = cur then abortM
       else mutex_upd m (\<lambda>v. v\<lparr>waiters := remove1 cur (waiters v) @ [cur]\<rparr>)))"

definition mutex_RemoveWaiter :: "ptr \<Rightarrow> (unit, 'z lhost_scheme) prog" where
  "mutex_RemoveWaiter m =
     bindM (getsM current) (\<lambda>cur. mutex_upd m (\<lambda>v. v\<lparr>waiters := remove1 cur (waiters v)\<rparr>))"

definition mutex_acquire :: "ptr \<Rightarrow> (unit, 'z lhost_scheme) prog" where
  "mutex_acquire m =
     thenM (mutex_RemoveWaiter m)
       (bindM (getsM current) (\<lambda>cur. mutex_upd m (\<lambda>v. v\<lparr>owner := cur\<rparr>)))"

primrec mutex_Lock :: "('z lhost_ext) xnu_thread \<Rightarrow> nat \<Rightarrow> ptr \<Rightarrow> (unit, 'z lhost_scheme) prog" where
  "mutex_Lock xnu 0 m = bindM (mutex_get m) (\<lambda>v. if owner v \<noteq> 0 then stopM Diverge else mutex_acquire m)"
| "mutex_Lock xnu (Suc fuel) m =
     bindM (mutex_get m) (\<lambda>v.
       if owner v \<noteq> 0
       then thenM (mutex_AddWaiter m) (thenM (sBlock xnu) (mutex_Lock xnu fuel m))
       else mutex_acquire m)"

definition mutex_Held :: "ptr \<Rightarrow> (bool, 'z lhost_scheme) prog" where
  "mutex_Held m = bindM (mutex_get m) (\<lambda>v. getsM (\<lambda>s. owner v = current s))"

definition mutex_TryLock :: "ptr \<Rightarrow> (bool, 'z lhost_scheme) prog" where
  "mutex_TryLock m =
     bindM (mutex_get m) (\<lambda>v. bindM (getsM current) (\<lambda>cur.
       if owner v = cur then abortM
       else if owner v \<noteq> 0 then retM False
       else thenM (mutex_upd m (\<lambda>v. v\<lparr>owner := cur\<rparr>)) (retM True)))"

definition mutex_AssertHeld :: "ptr \<Rightarrow> (unit, 'z lhost_scheme) prog" where
  "mutex_AssertHeld m = bindM (mutex_Held m) (\<lambda>h. if h then retM () else abortM)"

definition mutex_Unlock :: "ptr \<Rightarrow> (unit, 'z lhost_scheme) prog" where
  "mutex_Unlock m =
     thenM (mutex_AssertHeld m)
    (thenM (mutex_upd m (\<lambda>v. v\<lparr>owner := 0\<rparr>))
       (bindM (mutex_get m) (\<lambda>v. MakeAllRunnable (waiters v))))"

definition new_VirtualMutex :: "(ptr, 'z lhost_scheme) prog" where
  "new_VirtualMutex = (\<lambda>s. case new_syncs s of
     [] \<Rightarrow> Stopped HostAbort
   | m # ms \<Rightarrow> Done m (s\<lparr>new_syncs := ms, mutexes := (mutexes s)(m \<mapsto> \<lparr>owner = 0, waiters = []\<rparr>)\<rparr>))"

definition delete_VirtualMutex :: "ptr \<Rightarrow> (unit, 'z lhost_scheme) prog" where
  "delete_VirtualMutex m = modifyM (\<lambda>s. s\<lparr>mutexes := (mutexes s)(m := None)\<rparr>)"

text \<open>The tracker of \<open>tracker.cc\<close> enters every object it allocates in its tables and removes it when it is freed. Only a
  debug build keeps the table of the session.\<close>

definition register :: "sync_ref \<Rightarrow> (unit, 'z lhost_scheme) prog" where
  "register r = modifyM (\<lambda>s. s\<lparr>all_primitives := all_primitives s @ [r], session_tracked := session_tracked s \<union> (if debug_build s then {r} else {})\<rparr>)"

definition unregister :: "sync_ref \<Rightarrow> (unit, 'z lhost_scheme) prog" where
  "unregister r = modifyM (\<lambda>s. s\<lparr>all_primitives := removeAll r (all_primitives s),
     session_tracked := session_tracked s - (if debug_build s then {r} else {})\<rparr>)"

definition AllocateMutex :: "(ptr, 'z lhost_scheme) prog" where
  "AllocateMutex = bindM new_VirtualMutex (\<lambda>m. thenM (register (MutexRef m)) (retM m))"

definition FreeMutex :: "ptr \<Rightarrow> (unit, 'z lhost_scheme) prog" where
  "FreeMutex m = thenM (delete_VirtualMutex m) (unregister (MutexRef m))"

section \<open>Reader-writer locks\<close>

definition rw_get :: "ptr \<Rightarrow> (vrwlock, 'z lhost_scheme) prog" where
  "rw_get l = (\<lambda>s. case rwlocks s l of None \<Rightarrow> Stopped MemFault | Some v \<Rightarrow> Done v s)"

definition rw_upd :: "ptr \<Rightarrow> (vrwlock \<Rightarrow> vrwlock) \<Rightarrow> (unit, 'z lhost_scheme) prog" where
  "rw_upd l f = bindM (rw_get l) (\<lambda>v. modifyM (\<lambda>s. s\<lparr>rwlocks := (rwlocks s)(l \<mapsto> f v)\<rparr>))"

text \<open>A reader-writer lock is allocated together with the mutex in it, and freed with it. The tracker learns of the lock,
  not of the mutex.\<close>

definition AllocateRwLock :: "(ptr, 'z lhost_scheme) prog" where
  "AllocateRwLock = bindM new_VirtualMutex (\<lambda>m. \<lambda>s. case new_syncs s of
     [] \<Rightarrow> Stopped HostAbort
   | l # ls \<Rightarrow> thenM (register (RwRef l)) (retM l)
       (s\<lparr>new_syncs := ls, rwlocks := (rwlocks s)(l \<mapsto> \<lparr>rw_mutex = m, rw_owners = {}, rw_waiters = []\<rparr>)\<rparr>))"

definition FreeRwLock :: "ptr \<Rightarrow> (unit, 'z lhost_scheme) prog" where
  "FreeRwLock l = (\<lambda>s. case rwlocks s l of
     None \<Rightarrow> unregister (RwRef l) s
   | Some v \<Rightarrow> thenM (delete_VirtualMutex (rw_mutex v)) (unregister (RwRef l)) (s\<lparr>rwlocks := (rwlocks s)(l := None)\<rparr>))"

lemmas allocate_defs = AllocateMutex_def AllocateRwLock_def FreeMutex_def FreeRwLock_def new_VirtualMutex_def
  delete_VirtualMutex_def register_def unregister_def

definition rw_AddWaiter :: "ptr \<Rightarrow> (unit, 'z lhost_scheme) prog" where
  "rw_AddWaiter l =
     bindM (rw_get l) (\<lambda>v. bindM (getsM current) (\<lambda>cur.
       if cur \<in> rw_owners v then abortM
       else rw_upd l (\<lambda>v. v\<lparr>rw_waiters := remove1 cur (rw_waiters v) @ [cur]\<rparr>)))"

definition rw_RemoveWaiter :: "ptr \<Rightarrow> (unit, 'z lhost_scheme) prog" where
  "rw_RemoveWaiter l =
     bindM (getsM current) (\<lambda>cur. rw_upd l (\<lambda>v. v\<lparr>rw_waiters := remove1 cur (rw_waiters v)\<rparr>))"

definition AddOwner :: "ptr \<Rightarrow> (unit, 'z lhost_scheme) prog" where
  "AddOwner l =
     bindM (rw_get l) (\<lambda>v. bindM (getsM current) (\<lambda>cur.
       if cur \<in> rw_owners v then abortM
       else rw_upd l (\<lambda>v. v\<lparr>rw_owners := insert cur (rw_owners v)\<rparr>)))"

definition RemoveOwner :: "ptr \<Rightarrow> (unit, 'z lhost_scheme) prog" where
  "RemoveOwner l =
     bindM (rw_get l) (\<lambda>v. bindM (getsM current) (\<lambda>cur.
       if cur \<notin> rw_owners v then abortM
       else thenM (rw_upd l (\<lambda>v. v\<lparr>rw_owners := rw_owners v - {cur}\<rparr>))
              (whenM (rw_owners v - {cur} = {}) (MakeAllRunnable (rw_waiters v)))))"

definition IsShared :: "ptr \<Rightarrow> (bool, 'z lhost_scheme) prog" where
  "IsShared l = bindM (rw_get l) (\<lambda>v. retM (rw_owners v \<noteq> {}))"

definition TryLockExclusive :: "ptr \<Rightarrow> (bool, 'z lhost_scheme) prog" where
  "TryLockExclusive l =
     bindM (rw_get l) (\<lambda>v. if rw_owners v \<noteq> {} then retM False else mutex_TryLock (rw_mutex v))"

definition TryLockShared :: "ptr \<Rightarrow> (bool, 'z lhost_scheme) prog" where
  "TryLockShared l =
     bindM (rw_get l) (\<lambda>v. bindM (mutex_TryLock (rw_mutex v)) (\<lambda>got.
       if \<not> got then retM False
       else thenM (AddOwner l) (thenM (mutex_Unlock (rw_mutex v)) (retM True))))"

primrec rw_wait_readers :: "('z lhost_ext) xnu_thread \<Rightarrow> nat \<Rightarrow> ptr \<Rightarrow> (unit, 'z lhost_scheme) prog" where
  "rw_wait_readers xnu 0 l = bindM (rw_get l) (\<lambda>v. if rw_owners v \<noteq> {} then stopM Diverge else retM ())"
| "rw_wait_readers xnu (Suc fuel) l =
     bindM (rw_get l) (\<lambda>v.
       if rw_owners v \<noteq> {}
       then thenM (rw_AddWaiter l) (thenM (sBlock xnu) (rw_wait_readers xnu fuel l))
       else retM ())"

text \<open>One round of \<open>LockExclusive\<close> waits for the readers, takes the mutex and looks again.\<close>

primrec LockExclusive_loop :: "('z lhost_ext) xnu_thread \<Rightarrow> nat \<Rightarrow> nat \<Rightarrow> ptr \<Rightarrow> (unit, 'z lhost_scheme) prog" where
  "LockExclusive_loop xnu fuel 0 l = stopM Diverge"
| "LockExclusive_loop xnu fuel (Suc rounds) l =
     thenM (rw_wait_readers xnu fuel l)
    (thenM (rw_RemoveWaiter l)
    (bindM (rw_get l) (\<lambda>v.
     thenM (mutex_Lock xnu fuel (rw_mutex v))
    (bindM (rw_get l) (\<lambda>v.
       if rw_owners v = {} then retM ()
       else thenM (mutex_Unlock (rw_mutex v)) (LockExclusive_loop xnu fuel rounds l))))))"

definition LockExclusive :: "('z lhost_ext) xnu_thread \<Rightarrow> nat \<Rightarrow> ptr \<Rightarrow> (unit, 'z lhost_scheme) prog" where
  "LockExclusive xnu fuel l = LockExclusive_loop xnu fuel (Suc fuel) l"

definition UnlockExclusive :: "ptr \<Rightarrow> (unit, 'z lhost_scheme) prog" where
  "UnlockExclusive l =
     bindM (rw_get l) (\<lambda>v. bindM (mutex_Held (rw_mutex v)) (\<lambda>held.
       if \<not> held then abortM else if rw_owners v \<noteq> {} then abortM else mutex_Unlock (rw_mutex v)))"

definition LockShared :: "('z lhost_ext) xnu_thread \<Rightarrow> nat \<Rightarrow> ptr \<Rightarrow> (unit, 'z lhost_scheme) prog" where
  "LockShared xnu fuel l =
     bindM (rw_get l) (\<lambda>v.
     thenM (mutex_Lock xnu fuel (rw_mutex v)) (thenM (AddOwner l) (mutex_Unlock (rw_mutex v))))"

definition UnlockShared :: "('z lhost_ext) xnu_thread \<Rightarrow> nat \<Rightarrow> ptr \<Rightarrow> (unit, 'z lhost_scheme) prog" where
  "UnlockShared xnu fuel l =
     bindM (rw_get l) (\<lambda>v.
     thenM (mutex_Lock xnu fuel (rw_mutex v)) (thenM (RemoveOwner l) (mutex_Unlock (rw_mutex v))))"

definition ExclusiveToShared :: "ptr \<Rightarrow> (unit, 'z lhost_scheme) prog" where
  "ExclusiveToShared l =
     bindM (rw_get l) (\<lambda>v.
     thenM (mutex_AssertHeld (rw_mutex v))
       (if rw_owners v \<noteq> {} then abortM
        else thenM (AddOwner l) (mutex_Unlock (rw_mutex v))))"

definition rw_Unlock :: "('z lhost_ext) xnu_thread \<Rightarrow> nat \<Rightarrow> ptr \<Rightarrow> (unit, 'z lhost_scheme) prog" where
  "rw_Unlock xnu fuel l = bindM (IsShared l) (\<lambda>sh. if sh then UnlockShared xnu fuel l else UnlockExclusive l)"

definition SharedToExclusive :: "ptr \<Rightarrow> (bool, 'z lhost_scheme) prog" where
  "SharedToExclusive l = thenM (RemoveOwner l) (TryLockExclusive l)"

section \<open>Ticket locks\<close>

text \<open>A ticket lock is a lock variable that holds a mutex; the manager knows which variables are live and
  which have been invalidated.\<close>

datatype hw_lock_status = HW_LOCK_INVALID | HW_LOCK_CONTENDED | HW_LOCK_ACQUIRED

definition tlock_Allocate :: "ptr \<Rightarrow> (unit, 'z lhost_scheme) prog" where
  "tlock_Allocate lock =
     bindM AllocateMutex (\<lambda>m. modifyM (\<lambda>s. s\<lparr>lock_var := (lock_var s)(lock := m), live_locks := insert lock (live_locks s)\<rparr>))"

definition tlock_Invalidate :: "ptr \<Rightarrow> (unit, 'z lhost_scheme) prog" where
  "tlock_Invalidate lock = modifyM (\<lambda>s. s\<lparr>live_locks := live_locks s - {lock},
     invalidated_locks := insert lock (invalidated_locks s)\<rparr>)"

definition deref :: "ptr \<Rightarrow> (ptr, 'z lhost_scheme) prog" where
  "deref lock = getsM (\<lambda>s. lock_var s lock)"

primrec tlock_yield_waiters :: "('z lhost_ext) xnu_thread \<Rightarrow> nat \<Rightarrow> ptr \<Rightarrow> (unit, 'z lhost_scheme) prog" where
  "tlock_yield_waiters xnu 0 m = bindM (mutex_get m) (\<lambda>v. if waiters v \<noteq> [] then stopM Diverge else retM ())"
| "tlock_yield_waiters xnu (Suc fuel) m =
     bindM (mutex_get m) (\<lambda>v.
       if waiters v \<noteq> [] then thenM (Yield xnu) (tlock_yield_waiters xnu fuel m) else retM ())"

definition tlock_WakeupWaiters :: "('z lhost_ext) xnu_thread \<Rightarrow> nat \<Rightarrow> ptr \<Rightarrow> (unit, 'z lhost_scheme) prog" where
  "tlock_WakeupWaiters xnu fuel lock =
     bindM (deref lock) (\<lambda>m. bindM (mutex_get m) (\<lambda>v.
       if waiters v = [] then retM ()
       else bindM (mutex_Held m) (\<lambda>h.
         thenM (whenM h (mutex_Unlock m)) (tlock_yield_waiters xnu fuel m))))"

definition tlock_Destroy :: "('z lhost_ext) xnu_thread \<Rightarrow> nat \<Rightarrow> ptr \<Rightarrow> bool \<Rightarrow> (unit, 'z lhost_scheme) prog" where
  "tlock_Destroy xnu fuel lock sync =
     thenM (modifyM (\<lambda>s. s\<lparr>live_locks := live_locks s - {lock}\<rparr>))
    (thenM (bindM (getsM (\<lambda>s. sync \<and> lock \<in> invalidated_locks s)) (\<lambda>b. whenM b
        (thenM (tlock_WakeupWaiters xnu fuel lock)
          (bindM (deref lock) (\<lambda>m. bindM (mutex_get m) (\<lambda>v. if waiters v \<noteq> [] then abortM else retM ()))))))
    (thenM (modifyM (\<lambda>s. s\<lparr>invalidated_locks := invalidated_locks s - {lock}\<rparr>))
       (bindM (deref lock) FreeMutex)))"

definition tlock_IsValid :: "ptr \<Rightarrow> (bool, 'z lhost_scheme) prog" where
  "tlock_IsValid lock = getsM (\<lambda>s. lock \<in> live_locks s)"

definition tlock_Lock ::
  "('z lhost_ext) xnu_thread \<Rightarrow> nat \<Rightarrow> ptr \<Rightarrow> bool \<Rightarrow> (hw_lock_status, 'z lhost_scheme) prog" where
  "tlock_Lock xnu fuel lock allow_invalid =
     bindM (getsM (\<lambda>s. lock \<in> invalidated_locks s)) (\<lambda>is_invalid.
       if is_invalid then retM (if allow_invalid then HW_LOCK_INVALID else HW_LOCK_ACQUIRED)
       else bindM (getsM (\<lambda>s. lock \<in> live_locks s)) (\<lambda>live.
         if \<not> live then retM HW_LOCK_INVALID
         else bindM (deref lock) (\<lambda>m.
           thenM (mutex_Lock xnu fuel m)
             (bindM (getsM (\<lambda>s. lock \<in> invalidated_locks s)) (\<lambda>now_invalid.
               if now_invalid then bindM (deref lock) (\<lambda>m. thenM (mutex_Unlock m) (retM HW_LOCK_INVALID))
               else retM HW_LOCK_ACQUIRED)))))"

definition tlock_TryLock :: "ptr \<Rightarrow> (bool, 'z lhost_scheme) prog" where
  "tlock_TryLock lock =
     bindM (getsM (\<lambda>s. lock \<in> live_locks s)) (\<lambda>live. if live then bindM (deref lock) mutex_TryLock else retM False)"

definition tlock_Unlock :: "ptr \<Rightarrow> (unit, 'z lhost_scheme) prog" where
  "tlock_Unlock lock =
     bindM (getsM (\<lambda>s. lock \<notin> live_locks s \<and> lock \<notin> invalidated_locks s)) (\<lambda>unknown.
       if unknown then retM ()
       else bindM (deref lock) (\<lambda>m. bindM (mutex_Held m) (\<lambda>h. whenM h (mutex_Unlock m))))"

definition tlock_Held :: "ptr \<Rightarrow> (bool, 'z lhost_scheme) prog" where
  "tlock_Held lock =
     bindM (getsM (\<lambda>s. lock \<in> live_locks s)) (\<lambda>live.
       if \<not> live then retM False
       else bindM (getsM (\<lambda>s. lock \<in> invalidated_locks s)) (\<lambda>inv.
         if inv then abortM else bindM (deref lock) mutex_Held))"

section \<open>The lock entry points of the guest\<close>

text \<open>Every entry point that takes a lock yields first, and every one that releases a lock yields afterwards.\<close>

definition lck_mtx_lock :: "('z lhost_ext) xnu_thread \<Rightarrow> nat \<Rightarrow> ptr \<Rightarrow> (unit, 'z lhost_scheme) prog" where
  "lck_mtx_lock xnu fuel sp = thenM (Yield xnu) (bindM (deref sp) (mutex_Lock xnu fuel))"

definition lck_mtx_lock_spin :: "('z lhost_ext) xnu_thread \<Rightarrow> nat \<Rightarrow> ptr \<Rightarrow> (unit, 'z lhost_scheme) prog" where
  "lck_mtx_lock_spin xnu fuel sp = lck_mtx_lock xnu fuel sp"

definition lck_mtx_lock_spin_always :: "('z lhost_ext) xnu_thread \<Rightarrow> nat \<Rightarrow> ptr \<Rightarrow> (unit, 'z lhost_scheme) prog" where
  "lck_mtx_lock_spin_always xnu fuel sp = thenM (Yield xnu) (bindM (deref sp) (mutex_Lock xnu fuel))"

definition lck_mtx_unlock :: "('z lhost_ext) xnu_thread \<Rightarrow> ptr \<Rightarrow> (unit, 'z lhost_scheme) prog" where
  "lck_mtx_unlock xnu sp = thenM (bindM (deref sp) mutex_Unlock) (Yield xnu)"

definition lck_mtx_try_lock :: "('z lhost_ext) xnu_thread \<Rightarrow> ptr \<Rightarrow> (bool, 'z lhost_scheme) prog" where
  "lck_mtx_try_lock xnu sp = thenM (Yield xnu) (bindM (deref sp) mutex_TryLock)"

definition lck_mtx_init :: "ptr \<Rightarrow> (unit, 'z lhost_scheme) prog" where
  "lck_mtx_init sp = bindM AllocateMutex (\<lambda>m. modifyM (\<lambda>s. s\<lparr>lock_var := (lock_var s)(sp := m)\<rparr>))"

definition lck_mtx_destroy :: "ptr \<Rightarrow> (unit, 'z lhost_scheme) prog" where
  "lck_mtx_destroy sp =
     thenM (bindM (deref sp) FreeMutex) (modifyM (\<lambda>s. s\<lparr>lock_var := (lock_var s)(sp := 0)\<rparr>))"

definition lck_spin_lock :: "('z lhost_ext) xnu_thread \<Rightarrow> nat \<Rightarrow> ptr \<Rightarrow> (unit, 'z lhost_scheme) prog" where
  "lck_spin_lock xnu fuel sp = thenM (Yield xnu) (bindM (deref sp) (mutex_Lock xnu fuel))"

definition lck_spin_lock_grp :: "('z lhost_ext) xnu_thread \<Rightarrow> nat \<Rightarrow> ptr \<Rightarrow> (unit, 'z lhost_scheme) prog" where
  "lck_spin_lock_grp xnu fuel sp = thenM (Yield xnu) (bindM (deref sp) (mutex_Lock xnu fuel))"

definition lck_spin_unlock :: "('z lhost_ext) xnu_thread \<Rightarrow> ptr \<Rightarrow> (unit, 'z lhost_scheme) prog" where
  "lck_spin_unlock xnu sp = thenM (bindM (deref sp) mutex_Unlock) (Yield xnu)"

definition lck_ticket_lock :: "('z lhost_ext) xnu_thread \<Rightarrow> nat \<Rightarrow> ptr \<Rightarrow> (unit, 'z lhost_scheme) prog" where
  "lck_ticket_lock xnu fuel tlock = thenM (Yield xnu) (bindM (tlock_Lock xnu fuel tlock False) (\<lambda>_. retM ()))"

definition lck_ticket_unlock :: "('z lhost_ext) xnu_thread \<Rightarrow> ptr \<Rightarrow> (unit, 'z lhost_scheme) prog" where
  "lck_ticket_unlock xnu tlock = thenM (tlock_Unlock tlock) (Yield xnu)"

definition hw_lck_ticket_lock_to :: "('z lhost_ext) xnu_thread \<Rightarrow> nat \<Rightarrow> ptr \<Rightarrow> (hw_lock_status, 'z lhost_scheme) prog" where
  "hw_lck_ticket_lock_to xnu fuel tlock =
     bindM (tlock_Lock xnu fuel tlock False) (\<lambda>r. thenM (Yield xnu) (retM r))"

definition hw_lck_ticket_lock_try :: "('z lhost_ext) xnu_thread \<Rightarrow> ptr \<Rightarrow> (bool, 'z lhost_scheme) prog" where
  "hw_lck_ticket_lock_try xnu tlock = thenM (Yield xnu) (tlock_TryLock tlock)"

definition LCK_RW_TYPE_SHARED :: u32 where "LCK_RW_TYPE_SHARED = 1"
definition LCK_RW_TYPE_EXCLUSIVE :: u32 where "LCK_RW_TYPE_EXCLUSIVE = 2"

definition lck_rw_lock_shared :: "('z lhost_ext) xnu_thread \<Rightarrow> nat \<Rightarrow> ptr \<Rightarrow> (unit, 'z lhost_scheme) prog" where
  "lck_rw_lock_shared xnu fuel lock = thenM (Yield xnu) (bindM (deref lock) (LockShared xnu fuel))"

definition lck_rw_lock_exclusive :: "('z lhost_ext) xnu_thread \<Rightarrow> nat \<Rightarrow> ptr \<Rightarrow> (unit, 'z lhost_scheme) prog" where
  "lck_rw_lock_exclusive xnu fuel lock = thenM (Yield xnu) (bindM (deref lock) (LockExclusive xnu fuel))"

definition lck_rw_lock :: "('z lhost_ext) xnu_thread \<Rightarrow> nat \<Rightarrow> ptr \<Rightarrow> u32 \<Rightarrow> (unit, 'z lhost_scheme) prog" where
  "lck_rw_lock xnu fuel sp lck_type =
     (if lck_type = LCK_RW_TYPE_SHARED then lck_rw_lock_shared xnu fuel sp
      else if lck_type = LCK_RW_TYPE_EXCLUSIVE then lck_rw_lock_exclusive xnu fuel sp
      else abortM)"

definition lck_rw_done :: "('z lhost_ext) xnu_thread \<Rightarrow> nat \<Rightarrow> ptr \<Rightarrow> (u32, 'z lhost_scheme) prog" where
  "lck_rw_done xnu fuel lock =
     bindM (deref lock) (\<lambda>l. bindM (IsShared l) (\<lambda>sh.
       thenM (rw_Unlock xnu fuel l)
         (thenM (Yield xnu) (retM (if sh then LCK_RW_TYPE_SHARED else LCK_RW_TYPE_EXCLUSIVE)))))"

section \<open>Facts\<close>

lemma mutex_get_some [simp]: "mutexes s m = Some v \<Longrightarrow> mutex_get m s = Done v s"
  by (simp add: mutex_get_def)

lemma mutex_upd_some [simp]:
  "mutexes s m = Some v \<Longrightarrow> mutex_upd m f s = Done () (s\<lparr>mutexes := (mutexes s)(m \<mapsto> f v)\<rparr>)"
  by (simp add: mutex_upd_def)

lemma rw_get_some [simp]: "rwlocks s l = Some v \<Longrightarrow> rw_get l s = Done v s"
  by (simp add: rw_get_def)

lemma rw_upd_some [simp]:
  "rwlocks s l = Some v \<Longrightarrow> rw_upd l f s = Done () (s\<lparr>rwlocks := (rwlocks s)(l \<mapsto> f v)\<rparr>)"
  by (simp add: rw_upd_def)

lemma deref_apply [simp]: "deref sp s = Done (lock_var s sp) s"
  by (simp add: deref_def)

lemma MakeRunnable_frame: "MakeRunnable h s = Done () t \<Longrightarrow> t = s\<lparr>runnable := runnable t\<rparr>"
  by (auto simp: MakeRunnable_def split: if_splits)

lemma MakeAllRunnable_frame: "MakeAllRunnable hs s = Done () t \<Longrightarrow> t = s\<lparr>runnable := runnable t\<rparr>"
proof (induction hs arbitrary: s)
  case Nil
  then show ?case by (simp add: MakeAllRunnable_def)
next
  case (Cons h hs)
  then obtain u where u: "MakeRunnable h s = Done () u" "MakeAllRunnable hs u = Done () t"
    by (auto simp: MakeAllRunnable_def split: outcome.splits)
  obtain q where "u = s\<lparr>runnable := q\<rparr>" using MakeRunnable_frame [OF u(1)] by blast
  moreover obtain r where "t = u\<lparr>runnable := r\<rparr>" using Cons.IH [OF u(2)] by blast
  ultimately show ?case by simp
qed

lemma MakeAllRunnable_good:
  assumes "\<forall>h \<in> set hs. queue_good h s"
  shows "\<exists>r. MakeAllRunnable hs s = Done () (s\<lparr>runnable := r\<rparr>) \<and> set r = set (runnable s) \<union> set hs
     \<and> (distinct (runnable s) \<longrightarrow> distinct r)"
  using assms
proof (induction hs arbitrary: s)
  case Nil
  then show ?case by (intro exI [of _ "runnable s"]) (simp add: MakeAllRunnable_def)
next
  case (Cons h hs)
  let ?q = "if h \<in> set (runnable s) then runnable s else runnable s @ [h]"
  have q: "MakeRunnable h s = Done () (s\<lparr>runnable := ?q\<rparr>)"
    using Cons.prems by (auto simp: MakeRunnable_def queue_good_def sIsRunnable_def)
  have "\<forall>g \<in> set hs. queue_good g (s\<lparr>runnable := ?q\<rparr>)" using Cons.prems by (auto simp: queue_good_def)
  from Cons.IH [OF this] obtain r where "MakeAllRunnable hs (s\<lparr>runnable := ?q\<rparr>) = Done () (s\<lparr>runnable := r\<rparr>)"
    "set r = set ?q \<union> set hs" "distinct ?q \<longrightarrow> distinct r" by auto
  then show ?case using q by (intro exI [of _ r]) (auto simp: MakeAllRunnable_def)
qed

lemma Yield_quiet [simp]: "\<not> ready_for_preemption s \<Longrightarrow> Yield xnu s = Done () s"
  by (simp add: Yield_def)

section \<open>Properties of mutexes\<close>

text \<open>The rules of a mutex. A free mutex is taken at once, by the current thread, which is then no waiter; a thread that
  tries to take or to wait for a mutex it holds stops the process; a mutex of another thread cannot be
  released, and an attempt to take it without waiting fails and changes nothing.\<close>

lemma mutex_rules:
  assumes "mutexes s m = Some v" and "current s \<noteq> 0"
  shows "(owner v = 0 \<longrightarrow> mutex_Lock xnu fuel m s =
            Done () (s\<lparr>mutexes := (mutexes s)(m \<mapsto> \<lparr>owner = current s, waiters = remove1 (current s) (waiters v)\<rparr>)\<rparr>)) \<and>
     (owner v = current s \<longrightarrow> mutex_Lock xnu (Suc fuel) m s = Stopped HostAbort \<and> mutex_TryLock m s = Stopped HostAbort) \<and>
     (owner v \<noteq> current s \<longrightarrow> mutex_Unlock m s = Stopped HostAbort) \<and>
     (owner v \<noteq> 0 \<and> owner v \<noteq> current s \<longrightarrow> mutex_TryLock m s = Done False s)"
  using assms
  by (cases fuel; cases v)
     (auto simp: mutex_acquire_def mutex_RemoveWaiter_def mutex_AddWaiter_def mutex_TryLock_def mutex_Unlock_def
        mutex_AssertHeld_def mutex_Held_def)

definition lhost_example :: lhost where
  "lhost_example = host.extend host_example
     \<lparr>mutexes = [40 \<mapsto> \<lparr>owner = 0, waiters = [7]\<rparr>, 48 \<mapsto> \<lparr>owner = 0, waiters = []\<rparr>],
      rwlocks = [44 \<mapsto> \<lparr>rw_mutex = 48, rw_owners = {}, rw_waiters = []\<rparr>],
      lock_var = (\<lambda>p. if p = 400 then 40 else if p = 440 then 44 else 0), new_syncs = [60], live_locks = {},
      invalidated_locks = {}, all_primitives = [], session_tracked = {}\<rparr>"

lemma mutex_rules_witness:
  "mutex_Lock (xnu_idle (\<lambda>_. retM ())) 0 40 lhost_example =
     Done () (lhost_example\<lparr>mutexes := (mutexes lhost_example)(40 \<mapsto> \<lparr>owner = 5, waiters = [7]\<rparr>)\<rparr>)"
proof -
  have "mutexes lhost_example 40 = Some \<lparr>owner = 0, waiters = [7]\<rparr>" "current lhost_example = 5"
    by (simp_all add: lhost_example_def host_example_def host.defs)
  then show ?thesis using mutex_rules [of lhost_example 40 _ "xnu_idle (\<lambda>_. retM ())" 0] by simp
qed

end
