(* ===== verification/ThreadApi.thy ===== *)
theory ThreadApi
  imports VirtualSync
begin

text \<open>
  The guest's side of the thread layer: \<open>fuzz/xnu/osfmk/api/thread.c\<close> (marking a thread as waiting, stopping it,
  waiting for it), \<open>osfmk/api/scheduler_state.c\<close> (walking the thread and task queues, the debug snapshot of a
  thread), \<open>osfmk/fakes/thread.c\<close>, \<open>cpu_data.c\<close> and \<open>continuation.c\<close> (machine-dependent thread operations).
  XNU's queues are lists, its struct layout and its functions are parameters.
\<close>

section \<open>Marking a thread as waiting\<close>

definition XNUWaitInterruptIsAbortSafe :: "'z xnu_thread \<Rightarrow> u32 \<Rightarrow> bool" where
  "XNUWaitInterruptIsAbortSafe xnu wait_interrupt \<longleftrightarrow> wait_interrupt AND TH_OPT_INTMASK xnu = THREAD_ABORTSAFE xnu"

definition XNUWaitInterruptIsUninterruptible :: "'z xnu_thread \<Rightarrow> u32 \<Rightarrow> bool" where
  "XNUWaitInterruptIsUninterruptible xnu wait_interrupt \<longleftrightarrow> wait_interrupt AND TH_OPT_INTMASK xnu = THREAD_UNINT xnu"

definition XNUThreadSchedulerStateIsAbortSafely :: "'z xnu_thread \<Rightarrow> kthread \<Rightarrow> bool" where
  "XNUThreadSchedulerStateIsAbortSafely xnu k \<longleftrightarrow> sched_flags k AND TH_SFLAG_ABORTSAFELY xnu \<noteq> 0"

text \<open>The debug check: a thread that already waits, is dying or still has a flag of an earlier wait.\<close>

definition mark_wait_forbidden :: "thread_t \<Rightarrow> 'z host_scheme \<Rightarrow> bool" where
  "mark_wait_forbidden th s \<longleftrightarrow> debug_build s \<and>
     (IsWaiting th s \<or> ThreadIsIdle th s \<or> IsUninterruptible th s \<or> IsEnqueuedForTermination th s \<or> IsWaitReport th s)"

definition wants_wait_report :: "'z xnu_thread \<Rightarrow> thread_t \<Rightarrow> u32 \<Rightarrow> kthread \<Rightarrow> 'z host_scheme \<Rightarrow> bool" where
  "wants_wait_report xnu th interruptible_orig k s \<longleftrightarrow> sched_call k \<noteq> 0 \<and>
     interruptible_orig AND (if is_kernel_thread xnu th s then THREAD_WAIT_NOREPORT_KERNEL xnu else THREAD_WAIT_NOREPORT_USER xnu) = 0"

definition may_wait :: "'z xnu_thread \<Rightarrow> u32 \<Rightarrow> kthread \<Rightarrow> bool" where
  "may_wait xnu interruptible_orig k \<longleftrightarrow> XNUWaitInterruptIsUninterruptible xnu interruptible_orig \<or>
     sched_flags k AND TH_SFLAG_ABORT xnu = 0 \<or>
     \<not> XNUWaitInterruptIsAbortSafe xnu interruptible_orig \<and> XNUThreadSchedulerStateIsAbortSafely xnu k"

definition XNUThreadMarkWaitLocked :: "'z xnu_thread \<Rightarrow> thread_t \<Rightarrow> u32 \<Rightarrow> (wait_result, 'z host_scheme) prog" where
  "XNUThreadMarkWaitLocked xnu th interruptible_orig =
     bindM (getsM (mark_wait_forbidden th)) (\<lambda>bad. if bad then abortM else
     bindM (kthread_get th) (\<lambda>k.
       if may_wait xnu interruptible_orig k then
         thenM (SetWaiting th)
        (thenM (whenM (interruptible_orig AND TH_OPT_INTMASK xnu = 0) (SetUninterruptible th))
        (bindM (getsM (wants_wait_report xnu th interruptible_orig k)) (\<lambda>report.
         thenM (whenM report (SetWaitReport th))
        (thenM (kthread_upd th (\<lambda>k. k\<lparr>at_safe_point := XNUWaitInterruptIsAbortSafe xnu interruptible_orig\<rparr>))
        (thenM (SetWaitResult th THREAD_WAITING) (retM THREAD_WAITING))))))
       else
         thenM (whenM (XNUThreadSchedulerStateIsAbortSafely xnu k)
            (kthread_upd th (\<lambda>k. k\<lparr>sched_flags := sched_flags k AND NOT (TH_SFLAG_ABORTED_MASK xnu)\<rparr>)))
        (thenM (SetWaitResult th THREAD_INTERRUPTED) (retM THREAD_INTERRUPTED))))"

definition cause_ast_check :: "(unit, 's) prog" where
  "cause_ast_check = abortM"

section \<open>Stopping a thread and waiting for it\<close>

definition XNUAssertWait :: "'z xnu_thread \<Rightarrow> thread_t \<Rightarrow> u32 \<Rightarrow> (wait_result, 'z host_scheme) prog" where
  "XNUAssertWait xnu th interruptible = assert_wait_event xnu th interruptible"

text \<open>One round of the two waiting loops: ask to be woken, wait, and report how the wait ended. The event is the
  address of the thread's \<open>wake_active\<close>.\<close>

definition stop_round :: "'z xnu_thread \<Rightarrow> thread_t \<Rightarrow> (wait_result, 'z host_scheme) prog" where
  "stop_round xnu th =
     thenM (kthread_upd th (\<lambda>k. k\<lparr>wake_active := True\<rparr>))
    (bindM (XNUAssertWait xnu th (THREAD_ABORTSAFE xnu)) (\<lambda>wresult.
       if wresult = THREAD_WAITING then ThreadBlockReason xnu 0 0 else retM wresult))"

primrec stop_while_suspended :: "'z xnu_thread \<Rightarrow> nat \<Rightarrow> thread_t \<Rightarrow> (bool, 'z host_scheme) prog" where
  "stop_while_suspended xnu 0 th = bindM (getsM (IsSuspended th)) (\<lambda>b. if b then stopM Diverge else retM True)"
| "stop_while_suspended xnu (Suc fuel) th =
     bindM (getsM (IsSuspended th)) (\<lambda>b.
       if b then bindM (stop_round xnu th) (\<lambda>wresult.
         if wresult \<noteq> THREAD_AWAKENED then retM False else stop_while_suspended xnu fuel th)
       else retM True)"

primrec stop_while_runnable :: "'z xnu_thread \<Rightarrow> nat \<Rightarrow> bool \<Rightarrow> thread_t \<Rightarrow> (bool, 'z host_scheme) prog" where
  "stop_while_runnable xnu 0 until_not_runnable th =
     bindM (getsM (\<lambda>s. until_not_runnable \<and> IsRunnable th s)) (\<lambda>b. if b then stopM Diverge else retM True)"
| "stop_while_runnable xnu (Suc fuel) until_not_runnable th =
     bindM (getsM (\<lambda>s. until_not_runnable \<and> IsRunnable th s)) (\<lambda>b.
       if b then bindM (stop_round xnu th) (\<lambda>wresult.
         if wresult \<noteq> THREAD_AWAKENED then thenM (ThreadUnstop th) (retM False)
         else stop_while_runnable xnu fuel until_not_runnable th)
       else retM True)"

definition XNUThreadStop :: "'z xnu_thread \<Rightarrow> nat \<Rightarrow> thread_t \<Rightarrow> bool \<Rightarrow> (bool, 'z host_scheme) prog" where
  "XNUThreadStop xnu fuel th until_not_runnable =
     bindM (stop_while_suspended xnu fuel th) (\<lambda>go_on.
       if \<not> go_on then retM False
       else thenM (SetSuspended th) (stop_while_runnable xnu fuel until_not_runnable th))"

primrec XNUThreadWait :: "'z xnu_thread \<Rightarrow> nat \<Rightarrow> thread_t \<Rightarrow> bool \<Rightarrow> (unit, 'z host_scheme) prog" where
  "XNUThreadWait xnu 0 th until_not_runnable =
     bindM (getsM (\<lambda>s. until_not_runnable \<and> IsRunnable th s)) (\<lambda>b. if b then stopM Diverge else retM ())"
| "XNUThreadWait xnu (Suc fuel) th until_not_runnable =
     bindM (getsM (\<lambda>s. until_not_runnable \<and> IsRunnable th s)) (\<lambda>b.
       if b then
         thenM (kthread_upd th (\<lambda>k. k\<lparr>wake_active := True\<rparr>))
        (bindM (XNUAssertWait xnu th (THREAD_UNINT xnu)) (\<lambda>wresult.
         thenM (if wresult = THREAD_WAITING then bindM (ThreadBlockReason xnu 0 0) (\<lambda>_. retM ()) else retM ())
           (XNUThreadWait xnu fuel th until_not_runnable)))
       else retM ())"

definition XNUThreadTerminate :: "'z xnu_thread \<Rightarrow> thread_t \<Rightarrow> (unit, 'z host_scheme) prog" where
  "XNUThreadTerminate xnu th = thread_terminate xnu th"

definition XNUThreadAbort :: "'z xnu_thread \<Rightarrow> thread_t \<Rightarrow> (unit, 'z host_scheme) prog" where
  "XNUThreadAbort xnu th = thread_abort xnu th"

section \<open>Walking the queues\<close>

text \<open>XNU's queues are circular; the entry after the last one is the queue head, which the walk takes as its end.
  Walking on from an element that is not queued follows a dangling link.\<close>

definition queue_next :: "ptr list \<Rightarrow> ptr \<Rightarrow> (ptr option, 's) prog" where
  "queue_next q x = (case dropWhile (\<lambda>y. y \<noteq> x) q of [] \<Rightarrow> stopM MemFault | _ # [] \<Rightarrow> retM None | _ # y # _ \<Rightarrow> retM (Some y))"

definition queue_step :: "ptr list \<Rightarrow> ptr \<Rightarrow> (ptr, 's) prog" where
  "queue_step q x =
     (if x = 0 then (if q = [] then retM 0 else retM (hd q))
      else bindM (queue_next q x) (\<lambda>n. case n of None \<Rightarrow> retM 0 | Some y \<Rightarrow> retM y))"

definition GetTask :: "ptr list \<Rightarrow> ptr \<Rightarrow> (ptr, 's) prog" where
  "GetTask tasks task = queue_step tasks task"

definition GetThread :: "ptr list \<Rightarrow> thread_t \<Rightarrow> (thread_t, 's) prog" where
  "GetThread queue thread = queue_step queue thread"

text \<open>A client's walk: start at NULL and go on until NULL comes back.\<close>

primrec walk :: "(ptr \<Rightarrow> (ptr, 's) prog) \<Rightarrow> nat \<Rightarrow> ptr \<Rightarrow> (ptr list, 's) prog" where
  "walk step 0 x = stopM Diverge"
| "walk step (Suc fuel) x =
     bindM (step x) (\<lambda>y. if y = 0 then retM [] else bindM (walk step fuel y) (\<lambda>ys. retM (y # ys)))"

section \<open>The debug view of a thread\<close>

record thread_debug_state =
  ds_waiting :: bool
  ds_suspended :: bool
  ds_runnable :: bool
  ds_uninterruptible :: bool
  ds_terminate :: bool
  ds_terminate2 :: bool
  ds_wait_report :: bool
  ds_idle :: bool
  ds_wait_event :: u64
  ds_runq :: ptr
  ds_waitq :: ptr
  ds_wake_active :: bool
  ds_wait_result :: wait_result

definition GetThreadState :: "(thread_t \<Rightarrow> ptr) \<Rightarrow> thread_t \<Rightarrow> (thread_debug_state, 'z host_scheme) prog" where
  "GetThreadState waitq_of th =
     bindM (kthread_get th) (\<lambda>k. getsM (\<lambda>s.
       \<lparr>ds_waiting = IsWaiting th s, ds_suspended = IsSuspended th s, ds_runnable = IsRunnable th s,
        ds_uninterruptible = IsUninterruptible th s, ds_terminate = IsTerminating th s,
        ds_terminate2 = IsEnqueuedForTermination th s, ds_wait_report = IsWaitReport th s, ds_idle = ThreadIsIdle th s,
        ds_wait_event = wait_event k, ds_runq = runq k, ds_waitq = waitq_of th, ds_wake_active = wake_active k,
        ds_wait_result = GetWaitResult th s\<rparr>))"

text \<open>Printing, as the text that reaches the terminal; \<open>show_ptr\<close> is the \<open>%p\<close> format and \<open>state_text\<close> the
  output of the hypercall \<open>PrintThreadState\<close>.\<close>

definition print_flag :: "bool \<times> string \<Rightarrow> bool \<times> string \<Rightarrow> bool \<times> string" where
  "print_flag = (\<lambda>(flag, name) (printed, out).
     if flag then (True, (if printed then out @ '', '' else out) @ name) else (printed, out))"

definition thread_flags :: "thread_t \<Rightarrow> 'z host_scheme \<Rightarrow> (bool \<times> string) list" where
  "thread_flags th s =
     [(IsWaiting th s, ''TH_WAIT''), (IsSuspended th s, ''TH_SUSP''), (IsRunnable th s, ''TH_RUN''),
      (IsUninterruptible th s, ''TH_UNINT''), (IsTerminating th s, ''TH_TERMINATE''),
      (IsEnqueuedForTermination th s, ''TH_TERMINATE2''), (IsWaitReport th s, ''TH_WAIT_REPORT''), (ThreadIsIdle th s, ''TH_IDLE'')]"

definition print_thread :: "bool \<Rightarrow> (ptr \<Rightarrow> string) \<Rightarrow> (thread_t \<Rightarrow> string) \<Rightarrow> thread_t \<Rightarrow> 'z host_scheme \<Rightarrow> string" where
  "print_thread is_verbose show_ptr state_text th s =
     (if \<not> is_verbose \<or> th = 0 then []
      else ''thread '' @ show_ptr th @ '': '' @ snd (fold print_flag (thread_flags th s) (False, [])) @ state_text th)"

definition print_task :: "(ptr \<Rightarrow> string) \<Rightarrow> ptr \<Rightarrow> string" where
  "print_task show_ptr task = ''task '' @ show_ptr task @ ''\<newline>''"

definition CheckSchedulerState ::
  "bool \<Rightarrow> (ptr \<Rightarrow> string) \<Rightarrow> (int \<Rightarrow> string) \<Rightarrow> (thread_t \<Rightarrow> string) \<Rightarrow> int \<Rightarrow> int \<Rightarrow> ptr list \<Rightarrow> thread_t list \<Rightarrow> 'z host_scheme \<Rightarrow> string" where
  "CheckSchedulerState is_verbose show_ptr show_int state_text tasks_count threads_count tasks queue s =
     (if \<not> is_verbose then []
      else ''total tasks expected '' @ show_int tasks_count @ ''\<newline>'' @ concat (map (print_task show_ptr) tasks) @
           ''total threads expected '' @ show_int threads_count @ ''\<newline>'' @
           concat (map (\<lambda>th. print_thread is_verbose show_ptr state_text th s) queue))"

section \<open>Machine-dependent thread operations\<close>

text \<open>Where XNU keeps the locks of a thread, the initial kernel state, the name, the AST handler, the BSD process of the
  current task and the process of launchd.\<close>

record 'z xnu_machine =
  sched_lock_at :: "thread_t \<Rightarrow> ptr"
  wake_lock_at :: "thread_t \<Rightarrow> ptr"
  depress_timer_lock_at :: "thread_t \<Rightarrow> ptr"
  wait_timer_lock_at :: "thread_t \<Rightarrow> ptr"
  thread_initialize_kernel_state :: "thread_t \<Rightarrow> (unit, 'z lhost_scheme) prog"
  thread_get_thread_name :: "thread_t \<Rightarrow> string"
  ast_taken_user :: "(unit, 'z lhost_scheme) prog"
  current_bsdtask :: "'z lhost_scheme \<Rightarrow> ptr"
  initproc :: ptr

definition machine_stack_attach :: "'z xnu_machine \<Rightarrow> thread_t \<Rightarrow> ptr \<Rightarrow> (unit, 'z lhost_scheme) prog" where
  "machine_stack_attach xm th stack =
     thenM (assertM (stack \<noteq> 0))
    (thenM (kthread_upd th (\<lambda>k. k\<lparr>kernel_stack := stack\<rparr>)) (thread_initialize_kernel_state xm th))"

definition machine_thread_init :: "(unit, 's) prog" where
  "machine_thread_init = retM ()"

text \<open>\<open>snprintf\<close> writes at most \<open>size\<close> bytes, the last of them the terminator; \<open>MAXTHREADNAMESIZE\<close> bounds the name itself.\<close>

definition XNUGetThreadInfo :: "'z xnu_machine \<Rightarrow> thread_t \<Rightarrow> nat \<Rightarrow> string" where
  "XNUGetThreadInfo xm th sz =
     (if sz = 0 then [] else take (sz - 1) (thread_get_thread_name xm th) @ [CHR 0x00])"

definition machine_thread_create :: "thread_t \<Rightarrow> (unit, 'z lhost_scheme) prog" where
  "machine_thread_create th = bindM (CreateThread th False) (\<lambda>_. retM ())"

definition machine_thread_dup :: "thread_t \<Rightarrow> thread_t \<Rightarrow> bool \<Rightarrow> (int, 's) prog" where
  "machine_thread_dup self target is_corpse = retM 0"

definition ThreadLocked :: "'z xnu_machine \<Rightarrow> thread_t \<Rightarrow> (bool, 'z lhost_scheme) prog" where
  "ThreadLocked xm th = tlock_Held (sched_lock_at xm th)"

definition machine_thread_state_convert_from_user :: "thread_t \<Rightarrow> (int, 's) prog" where
  "machine_thread_state_convert_from_user th = retM 0"

definition call_continuation :: "(unit, 's) prog" where
  "call_continuation = abortM"

definition machine_switch_context :: "thread_t \<Rightarrow> ptr \<Rightarrow> thread_t \<Rightarrow> (thread_t, 's) prog" where
  "machine_switch_context old continuation new = abortM"

definition FreeVirtualMutex :: "ptr \<Rightarrow> (unit, 'z lhost_scheme) prog" where
  "FreeVirtualMutex mutex =
     thenM (bindM (deref mutex) FreeMutex) (modifyM (\<lambda>s. s\<lparr>lock_var := (lock_var s)(mutex := 0)\<rparr>))"

definition NotifyDestroyed :: "thread_t \<Rightarrow> (unit, 'z host_scheme) prog" where
  "NotifyDestroyed th = bindM (getsM (ThreadTToHandle th)) sThreadDestroyed"

definition machine_thread_destroy :: "'z xnu_machine \<Rightarrow> thread_t \<Rightarrow> (unit, 'z lhost_scheme) prog" where
  "machine_thread_destroy xm th =
     thenM (FreeVirtualMutex (sched_lock_at xm th))
    (thenM (FreeVirtualMutex (wake_lock_at xm th))
    (thenM (FreeVirtualMutex (depress_timer_lock_at xm th))
    (thenM (FreeVirtualMutex (wait_timer_lock_at xm th)) (NotifyDestroyed th))))"

definition ThreadFinished :: "('z lhost_ext) xnu_thread \<Rightarrow> 'z xnu_machine \<Rightarrow> (unit, 'z lhost_scheme) prog" where
  "ThreadFinished xnu xm = thenM (bindM (getsM GetCurrentThreadT) (XNUThreadTerminate xnu)) (ast_taken_user xm)"

primrec block_forever :: "('z lhost_ext) xnu_thread \<Rightarrow> nat \<Rightarrow> (unit, 'z lhost_scheme) prog" where
  "block_forever xnu 0 = stopM Diverge"
| "block_forever xnu (Suc fuel) = thenM (sBlock xnu) (block_forever xnu fuel)"

definition thread_bootstrap_return ::
  "('z lhost_ext) xnu_thread \<Rightarrow> 'z xnu_machine \<Rightarrow> nat \<Rightarrow> (unit, 'z lhost_scheme) prog" where
  "thread_bootstrap_return xnu xm fuel =
     bindM (getsM (\<lambda>s. current_bsdtask xm s = initproc xm)) (\<lambda>is_init.
       if is_init then block_forever xnu fuel
       else thenM (ThreadFinished xnu xm) (stopM NoReturn))"

definition machine_set_current_thread :: "thread_t \<Rightarrow> (unit, 'z host_scheme) prog" where
  "machine_set_current_thread th = SetCurrentThreadT th"

definition current_thread :: "'z host_scheme \<Rightarrow> thread_t" where
  "current_thread s = GetCurrentThreadT s"

definition unix_syscall_return :: "(unit, 'z host_scheme) prog" where
  "unix_syscall_return = SyscallReturn"

definition thread_syscall_return :: "int \<Rightarrow> (unit, 'z host_scheme) prog" where
  "thread_syscall_return rv = SyscallReturn"

definition thread_exception_return :: "(unit, 'z host_scheme) prog" where
  "thread_exception_return = SyscallReturn"

section \<open>Properties\<close>

text \<open>Marking a thread as waiting. In a state where the debug check passes, \<open>XNUThreadMarkWaitLocked\<close> returns. It answers
  \<open>THREAD_WAITING\<close> exactly when the wait cannot be aborted, no abort is pending, or only a safe abort is pending and
  the wait is not a safe point; then the thread waits with that result, uninterruptibly when the interrupt
  bits are 0. Otherwise it answers \<open>THREAD_INTERRUPTED\<close>, the thread does not wait, and a pending safe abort is
  consumed. Either answer is the stored wait result, and no other thread changes.\<close>

lemma mark_wait_result:
  assumes "threads s th = Some k" and "\<not> mark_wait_forbidden th s" and "\<not> IsWaiting th s" and "\<not> IsUninterruptible th s"
  shows "\<exists>r t k'. XNUThreadMarkWaitLocked xnu th i s = Done r t \<and> GetWaitResult th t = r \<and> threads t th = Some k' \<and>
     (r = THREAD_WAITING \<longleftrightarrow> may_wait xnu i k) \<and> (r = THREAD_INTERRUPTED \<longleftrightarrow> \<not> may_wait xnu i k) \<and>
     (IsWaiting th t \<longleftrightarrow> may_wait xnu i k) \<and>
     (IsUninterruptible th t \<longleftrightarrow> may_wait xnu i k \<and> i AND TH_OPT_INTMASK xnu = 0) \<and>
     (\<not> may_wait xnu i k \<and> sched_flags k AND TH_SFLAG_ABORTSAFELY xnu \<noteq> 0 \<longrightarrow>
        sched_flags k' = sched_flags k AND NOT (TH_SFLAG_ABORTED_MASK xnu)) \<and>
     (\<forall>u. u \<noteq> th \<longrightarrow> IsWaiting u t = IsWaiting u s \<and> GetWaitResult u t = GetWaitResult u s \<and> threads t u = threads s u)"
proof (cases "may_wait xnu i k")
  case True
  then show ?thesis using assms
    by (simp add: XNUThreadMarkWaitLocked_def kthread_get_def kthread_upd_def flag_defs THREAD_WAITING_def THREAD_INTERRUPTED_def)
next
  case False
  then show ?thesis using assms
    by (simp add: XNUThreadMarkWaitLocked_def kthread_get_def kthread_upd_def flag_defs THREAD_WAITING_def THREAD_INTERRUPTED_def
        XNUThreadSchedulerStateIsAbortSafely_def)
qed

lemma mark_wait_result_witness:
  "\<exists>t. XNUThreadMarkWaitLocked (xnu_idle (\<lambda>_. retM ())) 700 0 host_example = Done THREAD_WAITING t \<and> IsWaiting 700 t \<and>
     IsUninterruptible 700 t \<and> threads t 500 = threads host_example 500"
proof -
  have "threads host_example 700 = Some kthread_zero" "\<not> mark_wait_forbidden 700 host_example" "\<not> IsWaiting 700 host_example"
    "\<not> IsUninterruptible 700 host_example"
    by (simp_all add: host_example_def mark_wait_forbidden_def flag_defs ThreadIsIdle_def)
  moreover have "may_wait (xnu_idle sw) 0 kthread_zero" for sw :: "handle \<Rightarrow> (unit, host) prog"
    by (simp add: may_wait_def XNUWaitInterruptIsUninterruptible_def xnu_idle_def)
  ultimately show ?thesis
    using mark_wait_result [of host_example 700 kthread_zero "xnu_idle (\<lambda>_. retM ())" 0]
    by (fastforce simp: THREAD_WAITING_def)
qed

text \<open>C29. A full wait. A thread that is marked as waiting and then woken with a result can be marked as waiting again: the
  wakeup has removed every flag the debug check looks at. It has the result it was woken with and is runnable.\<close>

theorem wait_wake_cycle:
  fixes s :: "'z host_scheme"
  assumes k: "threads s th = Some k" and ok: "\<not> mark_wait_forbidden th s" "may_wait xnu i k"
    and alive: "\<not> IsEnqueuedForTermination th s"
    and tm: "timer_cancel_ok xnu th" and good: "queue_good (ThreadTToHandle th s) s"
    and rep: "\<forall>s. sched_callback xnu (sched_call k) SCHED_CALL_UNBLOCK th s = Done () s"
    and quiet: "IsWaitReport th s \<longrightarrow> sched_call k \<noteq> 0"
  shows "\<exists>t u. XNUThreadMarkWaitLocked xnu th i s = Done THREAD_WAITING t \<and> ThreadWakeup xnu th r t = Done () u \<and>
     GetWaitResult th u = r \<and> IsRunnable th u \<and> \<not> mark_wait_forbidden th u"
proof -
  define s1 where "s1 = s\<lparr>waiting := insert th (waiting s),
     uninterruptible := (if i AND TH_OPT_INTMASK xnu = 0 then insert th (uninterruptible s) else uninterruptible s)\<rparr>"
  define k1 where "k1 = k\<lparr>at_safe_point := XNUWaitInterruptIsAbortSafe xnu i\<rparr>"
  define t where "t = s1\<lparr>wait_report := (if wants_wait_report xnu th i k s1 then insert th (wait_report s) else wait_report s),
     threads := (threads s)(th \<mapsto> k1), wait_results := (wait_results s)(th \<mapsto> THREAD_WAITING)\<rparr>"
  have "XNUThreadMarkWaitLocked xnu th i s = Done THREAD_WAITING t"
    using k ok by (simp add: XNUThreadMarkWaitLocked_def kthread_get_def kthread_upd_def flag_defs t_def k1_def s1_def)
  moreover have "threads t th = Some k1" by (simp add: t_def)
  moreover have "queue_good (ThreadTToHandle th t) t"
    using good by (simp add: queue_good_def t_def s1_def ThreadTToHandle_def)
  moreover have "IsWaitReport th t \<longrightarrow> sched_call k1 \<noteq> 0 \<and>
      (\<forall>s. sched_callback xnu (sched_call k1) SCHED_CALL_UNBLOCK th s = Done () s)"
    using rep quiet by (auto simp: IsWaitReport_def t_def k1_def wants_wait_report_def)
  ultimately show ?thesis
    using ThreadWakeup_runs [of t th k1 xnu r] tm alive
    by (auto simp: flag_defs IsRunnable_def sIsRunnable_def ThreadTToHandle_def mark_wait_forbidden_def ThreadIsIdle_def t_def s1_def)
qed

theorem wait_wake_cycle_witness:
  "\<exists>t u. XNUThreadMarkWaitLocked (xnu_idle (\<lambda>_. retM ())) 700 0 host_example = Done THREAD_WAITING t \<and>
     ThreadWakeup (xnu_idle (\<lambda>_. retM ())) 700 THREAD_TIMED_OUT t = Done () u \<and> GetWaitResult 700 u = THREAD_TIMED_OUT \<and> IsRunnable 700 u"
proof -
  have "threads host_example 700 = Some kthread_zero" "\<not> mark_wait_forbidden 700 host_example"
    "\<not> IsEnqueuedForTermination 700 host_example" "queue_good (ThreadTToHandle 700 host_example) host_example"
    "IsWaitReport 700 host_example \<longrightarrow> sched_call kthread_zero \<noteq> 0"
    by (simp_all add: host_example_def mark_wait_forbidden_def flag_defs ThreadIsIdle_def queue_good_def ThreadTToHandle_def)
  moreover have "may_wait (xnu_idle sw) 0 kthread_zero"
      "\<forall>s. sched_callback (xnu_idle sw) (sched_call kthread_zero) SCHED_CALL_UNBLOCK 700 s = Done () s"
    for sw :: "handle \<Rightarrow> (unit, host) prog"
    by (simp_all add: may_wait_def XNUWaitInterruptIsUninterruptible_def xnu_idle_def)
  ultimately show ?thesis
    using wait_wake_cycle [of host_example 700 kthread_zero "xnu_idle (\<lambda>_. retM ())" 0 THREAD_TIMED_OUT] xnu_idle_timer by blast
qed

lemma queue_next_at:
  assumes "distinct (xs @ x # ys)"
  shows "queue_next (xs @ x # ys) x s = Done (case ys of [] \<Rightarrow> None | y # _ \<Rightarrow> Some y) s"
proof -
  have "dropWhile (\<lambda>y. y \<noteq> x) (xs @ x # ys) = x # ys" using assms by (induction xs) auto
  then show ?thesis by (simp add: queue_next_def split: list.split)
qed

lemma walk_from:
  assumes "distinct (xs @ x # ys)" and "0 \<notin> set (xs @ x # ys)"
  shows "walk (queue_step (xs @ x # ys)) (Suc (length ys)) x s = Done ys s"
  using assms
proof (induction ys arbitrary: xs x)
  case Nil
  then show ?case by (simp add: queue_step_def queue_next_at)
next
  case (Cons y ys)
  have "walk (queue_step ((xs @ [x]) @ y # ys)) (Suc (length ys)) y s = Done ys s"
    using Cons.prems by (intro Cons.IH) auto
  moreover have "queue_step (xs @ x # y # ys) x s = Done y s" "y \<noteq> 0"
    using Cons.prems queue_next_at [OF Cons.prems(1), of s] by (auto simp: queue_step_def)
  ultimately show ?case by (subst length_Cons, subst walk.simps(2)) (simp del: walk.simps)
qed

lemma GetThread_eq: "GetThread = queue_step" and GetTask_eq: "GetTask = queue_step"
  by (intro ext, simp add: GetThread_def GetTask_def)+

text \<open>C36. Walking the threads. Starting from NULL and stopping when NULL comes back, \<open>GetThread\<close> visits every
  queued thread once and in queue order, and the walk ends after one call more than there are
  threads. \<open>GetTask\<close> does the same for the tasks.\<close>

theorem GetThread_visits_all:
  assumes "distinct q" and "0 \<notin> set q"
  shows "walk (GetThread q) (Suc (length q)) 0 s = Done q s \<and> walk (GetTask q) (Suc (length q)) 0 s = Done q s"
proof -
  have "walk (queue_step q) (Suc (length q)) 0 s = Done q s"
    using assms walk_from [of "[]" "hd q" "tl q" s] by (cases q) (auto simp: queue_step_def)
  then show ?thesis unfolding GetThread_eq GetTask_eq by simp
qed

theorem GetThread_visits_all_witness:
  "walk (GetThread [500, 700, 100]) 4 0 host_example = Done [500, 700, 100] host_example"
  using GetThread_visits_all [of "[500, 700, 100]" host_example] by (simp add: eval_nat_numeral)

text \<open>Stopping a thread. A thread that is not suspended is stopped at once: \<open>XNUThreadStop\<close> needs no round of either
  loop, because suspending takes the thread out of the run queue, so the wait for it to leave the processor
  never happens; the thread is suspended and not runnable. A thread that is already suspended is waited for,
  and an interrupted wait gives up: only \<open>wake_active\<close> has changed.\<close>

lemma XNUThreadStop_outcome:
  fixes s :: "'z host_scheme"
  assumes "queue_good (ThreadTToHandle th s) s" and "threads s th = Some k"
    and "\<forall>s. assert_wait_event xnu th (THREAD_ABORTSAFE xnu) s = Done THREAD_INTERRUPTED s"
  shows "if IsSuspended th s
     then XNUThreadStop xnu (Suc fuel) th until_not_runnable s = Done False (s\<lparr>threads := (threads s)(th \<mapsto> k\<lparr>wake_active := True\<rparr>)\<rparr>)
     else \<exists>t. XNUThreadStop xnu fuel th until_not_runnable s = Done True t \<and> IsSuspended th t \<and> \<not> IsRunnable th t"
proof (cases "IsSuspended th s")
  case True
  then show ?thesis using assms(2,3)
    by (simp add: XNUThreadStop_def stop_round_def kthread_get_def kthread_upd_def XNUAssertWait_def IsSuspended_def wait_result_defs)
next
  case False
  have first: "stop_while_suspended xnu fuel th s = Done True s" using False by (cases fuel) simp_all
  have "\<exists>t. SetSuspended th s = Done () t \<and> IsSuspended th t \<and> \<not> IsRunnable th t"
    using assms(1) by (auto simp: SetSuspended_def SetNotRunnable_def MakeNotRunnable_def IsRunnable_def sIsRunnable_def IsSuspended_def
        ThreadTToHandle_def queue_good_def set_remove1_distinct)
  then obtain t where t: "SetSuspended th s = Done () t" "IsSuspended th t" "\<not> IsRunnable th t" by blast
  have "stop_while_runnable xnu fuel until_not_runnable th t = Done True t" using t(3) by (cases fuel) simp_all
  then show ?thesis using False first t by (simp add: XNUThreadStop_def)
qed

lemma XNUThreadStop_outcome_witness:
  "\<exists>t. XNUThreadStop ((xnu_idle (\<lambda>_. retM ()))\<lparr>assert_wait_event := \<lambda>_ _. retM THREAD_INTERRUPTED\<rparr>) 0 700 True host_example = Done True t \<and>
     IsSuspended 700 t \<and> \<not> IsRunnable 700 t"
proof -
  let ?x = "(xnu_idle (\<lambda>_. retM ()))\<lparr>assert_wait_event := \<lambda>_ _. retM THREAD_INTERRUPTED\<rparr>"
  have "queue_good (ThreadTToHandle 700 host_example) host_example" "threads host_example 700 = Some kthread_zero"
    "\<not> IsSuspended 700 host_example"
    by (simp_all add: host_example_def queue_good_def ThreadTToHandle_def IsSuspended_def)
  then show ?thesis using XNUThreadStop_outcome [of 700 host_example kthread_zero "?x" 0 True] by simp
qed

lemma NotifyDestroyed_runs:
  fixes u :: "'z lhost_scheme"
  shows "\<exists>t. NotifyDestroyed th u = Done () t \<and> lock_var t = lock_var u \<and> mutexes t = mutexes u \<and>
     live_set t = live_set u - {ThreadTToHandle th u} \<and> pending_deletion t = insert (ThreadTToHandle th u) (pending_deletion u) \<and>
     HandleToThreadT (ThreadTToHandle th u) t = 0"
  by (simp add: NotifyDestroyed_def sThreadDestroyed_def mark_destroyed_def ThreadDestroyed_def Let_def ThreadTToHandle_def HandleToThreadT_def)

text \<open>Destroying a thread. \<open>machine_thread_destroy\<close> frees the four locks of the thread and clears the variables that held
  them, takes the thread's handle off the live set, queues its stack for deletion and forgets the thread; other locks stay.\<close>

lemma machine_thread_destroy_frees:
  assumes "distinct [sched_lock_at xm th, wake_lock_at xm th, depress_timer_lock_at xm th, wait_timer_lock_at xm th]"
  shows "\<exists>t. machine_thread_destroy xm th s = Done () t \<and>
     (let vars = {sched_lock_at xm th, wake_lock_at xm th, depress_timer_lock_at xm th, wait_timer_lock_at xm th} in
       (\<forall>p \<in> vars. lock_var t p = 0) \<and> (\<forall>p. p \<notin> vars \<longrightarrow> lock_var t p = lock_var s p) \<and>
       (\<forall>m. mutexes t m = (if m \<in> lock_var s ` vars then None else mutexes s m))) \<and>
     ThreadTToHandle th s \<notin> live_set t \<and> ThreadTToHandle th s \<in> pending_deletion t \<and> HandleToThreadT (ThreadTToHandle th s) t = 0"
proof -
  obtain p q r w where p: "sched_lock_at xm th = p" "wake_lock_at xm th = q" "depress_timer_lock_at xm th = r" "wait_timer_lock_at xm th = w"
    by simp
  have d: "p \<noteq> q" "p \<noteq> r" "p \<noteq> w" "q \<noteq> r" "q \<noteq> w" "r \<noteq> w" using assms by (simp_all add: p)
  let ?B = "\<lambda>a. if debug_build s then {MutexRef (lock_var s a)} else {}"
  let ?A = "\<lambda>a. removeAll (MutexRef (lock_var s a))"
  let ?t = "s\<lparr>mutexes := (mutexes s)(lock_var s p := None, lock_var s q := None, lock_var s r := None, lock_var s w := None),
      lock_var := (lock_var s)(p := 0, q := 0, r := 0, w := 0),
      all_primitives := ?A w (?A r (?A q (?A p (all_primitives s)))),
      session_tracked := session_tracked s - ?B p - ?B q - ?B r - ?B w\<rparr>"
  have free: "FreeVirtualMutex a u = Done () (u\<lparr>mutexes := (mutexes u)(lock_var u a := None), lock_var := (lock_var u)(a := 0),
      all_primitives := removeAll (MutexRef (lock_var u a)) (all_primitives u),
      session_tracked := session_tracked u - (if debug_build u then {MutexRef (lock_var u a)} else {})\<rparr>)"
    for a and u :: "'a lhost_scheme" by (simp add: FreeVirtualMutex_def allocate_defs)
  have run: "machine_thread_destroy xm th s = NotifyDestroyed th ?t"
    using d by (simp add: machine_thread_destroy_def p free)
  define u where "u = ?t"
  obtain t where t: "NotifyDestroyed th u = Done () t" "lock_var t = lock_var u" "mutexes t = mutexes u"
    "live_set t = live_set u - {ThreadTToHandle th u}" "pending_deletion t = insert (ThreadTToHandle th u) (pending_deletion u)"
    "HandleToThreadT (ThreadTToHandle th u) t = 0"
    using NotifyDestroyed_runs [of th u] by blast
  have u: "ThreadTToHandle th u = ThreadTToHandle th s" "lock_var u = (lock_var s)(p := 0, q := 0, r := 0, w := 0)"
    "mutexes u = (mutexes s)(lock_var s p := None, lock_var s q := None, lock_var s r := None, lock_var s w := None)"
    by (simp_all add: u_def ThreadTToHandle_def)
  have locks: "mutexes t m = (if m \<in> lock_var s ` {p, q, r, w} then None else mutexes s m)" for m unfolding t(3) u(3) by simp
  have vars: "(\<forall>x \<in> {p, q, r, w}. lock_var t x = 0) \<and> (\<forall>x. x \<notin> {p, q, r, w} \<longrightarrow> lock_var t x = lock_var s x)"
    unfolding t(2) u(2) by simp
  have dead: "ThreadTToHandle th s \<notin> live_set t" "ThreadTToHandle th s \<in> pending_deletion t" "HandleToThreadT (ThreadTToHandle th s) t = 0"
    using t(4-6) unfolding u(1) by simp_all
  have "machine_thread_destroy xm th s = Done () t" using run t(1) unfolding u_def by (rule trans)
  with locks vars dead show ?thesis unfolding p Let_def by blast
qed

lemma machine_thread_destroy_frees_witness:
  "\<exists>t. machine_thread_destroy \<lparr>sched_lock_at = (\<lambda>_. 400), wake_lock_at = (\<lambda>_. 401), depress_timer_lock_at = (\<lambda>_. 402),
       wait_timer_lock_at = (\<lambda>_. 403), thread_initialize_kernel_state = (\<lambda>_. retM ()), thread_get_thread_name = (\<lambda>_. []),
       ast_taken_user = retM (), current_bsdtask = (\<lambda>_. 1), initproc = 2\<rparr> 700 lhost_example = Done () t \<and>
     mutexes t 40 = None \<and> 7 \<in> pending_deletion t"
proof -
  let ?m = "\<lparr>sched_lock_at = (\<lambda>_. 400), wake_lock_at = (\<lambda>_. 401), depress_timer_lock_at = (\<lambda>_. 402),
       wait_timer_lock_at = (\<lambda>_. 403), thread_initialize_kernel_state = (\<lambda>_. retM ()), thread_get_thread_name = (\<lambda>_. []),
       ast_taken_user = retM (), current_bsdtask = (\<lambda>_. 1), initproc = 2\<rparr>"
  have "distinct [sched_lock_at ?m 700, wake_lock_at ?m 700, depress_timer_lock_at ?m 700, wait_timer_lock_at ?m 700]" by simp
  from machine_thread_destroy_frees [OF this, of lhost_example] show ?thesis
    by (auto simp: lhost_example_def host_example_def host.defs ThreadTToHandle_def Let_def)
qed

end
