(* ===== verification/Locks.thy ===== *)
theory Locks
  imports VirtualSync
begin

text \<open>
  Sleeping on a lock, \<open>fuzz/xnu/osfmk/fakes/locks.c\<close>: the \<open>lck_*_sleep\<close> family, which releases a lock while
  the thread waits for an event and takes it again, sleeping and waking with an inheritor over a turnstile,
  and the ticket reservations. The XNU functions it calls (\<open>assert_wait\<close>, \<open>thread_block\<close>, priority floors,
  turnstiles and wait queues) are the parameter \<open>xl\<close>. The locale \<open>sleep_lock\<close> is the contract of a lock a
  thread can sleep on.
\<close>

section \<open>Parameters\<close>

record 'z xnu_lock =
  assert_wait :: "u64 \<Rightarrow> u32 \<Rightarrow> (wait_result, 'z lhost_scheme) prog"
  assert_wait_deadline :: "u64 \<Rightarrow> u32 \<Rightarrow> u64 \<Rightarrow> (wait_result, 'z lhost_scheme) prog"
  thread_block :: "(wait_result, 'z lhost_scheme) prog"
  thread_priority_floor_start :: "(u64, 'z lhost_scheme) prog"
  thread_priority_floor_end :: "u64 \<Rightarrow> (unit, 'z lhost_scheme) prog"
  turnstile_hash_bucket_lock :: "u64 \<Rightarrow> (unit, 'z lhost_scheme) prog"
  turnstile_hash_bucket_unlock :: "(unit, 'z lhost_scheme) prog"
  turnstile_prepare_hash :: "u64 \<Rightarrow> (ptr, 'z lhost_scheme) prog"
  turnstile_complete_hash :: "u64 \<Rightarrow> (unit, 'z lhost_scheme) prog"
  turnstile_update_inheritor :: "ptr \<Rightarrow> thread_t \<Rightarrow> bool \<Rightarrow> (unit, 'z lhost_scheme) prog"
  turnstile_update_inheritor_complete :: "ptr \<Rightarrow> (unit, 'z lhost_scheme) prog"
  turnstile_cleanup :: "(unit, 'z lhost_scheme) prog"
  thread_set_pending_block_hint :: "thread_t \<Rightarrow> (unit, 'z lhost_scheme) prog"
  waitq_assert_wait64 :: "ptr \<Rightarrow> u64 \<Rightarrow> u32 \<Rightarrow> u64 \<Rightarrow> (wait_result, 'z lhost_scheme) prog"
  waitq_wakeup64_identify :: "ptr \<Rightarrow> u64 \<Rightarrow> wait_result \<Rightarrow> bool \<Rightarrow> (thread_t, 'z lhost_scheme) prog"
  waitq_wakeup64_all :: "ptr \<Rightarrow> u64 \<Rightarrow> wait_result \<Rightarrow> (int, 'z lhost_scheme) prog"
  thread_deallocate_safe :: "thread_t \<Rightarrow> (unit, 'z lhost_scheme) prog"
  LCK_WAKE_DEFAULT :: u32
  LCK_WAKE_DO_NOT_TRANSFER_PUSH :: u32
  KERN_NOT_WAITING :: int

definition LCK_SLEEP_UNLOCK :: u32 where "LCK_SLEEP_UNLOCK = 0x01"
definition LCK_SLEEP_SHARED :: u32 where "LCK_SLEEP_SHARED = 0x02"
definition LCK_SLEEP_EXCLUSIVE :: u32 where "LCK_SLEEP_EXCLUSIVE = 0x04"
definition LCK_SLEEP_SPIN :: u32 where "LCK_SLEEP_SPIN = 0x08"
definition LCK_SLEEP_PROMOTED_PRI :: u32 where "LCK_SLEEP_PROMOTED_PRI = 0x10"
definition LCK_SLEEP_SPIN_ALWAYS :: u32 where "LCK_SLEEP_SPIN_ALWAYS = 0x20"
definition LCK_SLEEP_MASK :: u32 where "LCK_SLEEP_MASK = 0x3f"

definition flag_set :: "u32 \<Rightarrow> u32 \<Rightarrow> bool" where
  "flag_set action f \<longleftrightarrow> action AND f \<noteq> 0"

definition check_sleep_action :: "u32 \<Rightarrow> (unit, 's) prog" where
  "check_sleep_action action = (if action AND NOT LCK_SLEEP_MASK \<noteq> 0 then panicM else retM ())"

section \<open>Spin locks\<close>

definition lck_spin_sleep_grp ::
  "('z lhost_ext) xnu_thread \<Rightarrow> 'z xnu_lock \<Rightarrow> nat \<Rightarrow> ptr \<Rightarrow> u32 \<Rightarrow> u64 \<Rightarrow> u32 \<Rightarrow> (wait_result, 'z lhost_scheme) prog" where
  "lck_spin_sleep_grp xnu xl fuel lck action event interruptible =
     thenM (check_sleep_action action)
    (bindM (assert_wait xl event interruptible) (\<lambda>res.
       if res = THREAD_WAITING then
         thenM (lck_spin_unlock xnu lck)
        (bindM (thread_block xl) (\<lambda>res.
         thenM (whenM (\<not> flag_set action LCK_SLEEP_UNLOCK) (lck_spin_lock_grp xnu fuel lck))
           (retM res)))
       else if flag_set action LCK_SLEEP_UNLOCK then thenM (lck_spin_unlock xnu lck) (retM res)
       else retM res))"

definition lck_spin_sleep ::
  "('z lhost_ext) xnu_thread \<Rightarrow> 'z xnu_lock \<Rightarrow> nat \<Rightarrow> ptr \<Rightarrow> u32 \<Rightarrow> u64 \<Rightarrow> u32 \<Rightarrow> (wait_result, 'z lhost_scheme) prog" where
  "lck_spin_sleep xnu xl fuel lck action event interruptible = lck_spin_sleep_grp xnu xl fuel lck action event interruptible"

definition lck_spin_sleep_deadline ::
  "('z lhost_ext) xnu_thread \<Rightarrow> 'z xnu_lock \<Rightarrow> nat \<Rightarrow> ptr \<Rightarrow> u32 \<Rightarrow> u64 \<Rightarrow> u32 \<Rightarrow> u64 \<Rightarrow> (wait_result, 'z lhost_scheme) prog" where
  "lck_spin_sleep_deadline xnu xl fuel lck action event interruptible deadline =
     thenM (check_sleep_action action)
    (bindM (assert_wait_deadline xl event interruptible deadline) (\<lambda>res.
       if res = THREAD_WAITING then
         thenM (lck_spin_unlock xnu lck)
        (bindM (thread_block xl) (\<lambda>res.
         thenM (whenM (\<not> flag_set action LCK_SLEEP_UNLOCK) (lck_spin_lock xnu fuel lck))
           (retM res)))
       else if flag_set action LCK_SLEEP_UNLOCK then thenM (lck_spin_unlock xnu lck) (retM res)
       else retM res))"

section \<open>Sleeping with an inheritor\<close>

definition sleep_with_inheritor_and_turnstile ::
  "'z xnu_lock \<Rightarrow> u64 \<Rightarrow> thread_t \<Rightarrow> u32 \<Rightarrow> u64 \<Rightarrow> (unit, 'z lhost_scheme) prog \<Rightarrow> (unit, 'z lhost_scheme) prog
   \<Rightarrow> (wait_result, 'z lhost_scheme) prog" where
  "sleep_with_inheritor_and_turnstile xl event inheritor interruptible deadline primitive_lock primitive_unlock =
     thenM (turnstile_hash_bucket_lock xl event)
    (thenM primitive_unlock
    (bindM (turnstile_prepare_hash xl event) (\<lambda>ts.
     thenM (\<lambda>s. thread_set_pending_block_hint xl (GetCurrentThreadT s) s)
    (thenM (turnstile_update_inheritor xl ts inheritor False)
    (bindM (waitq_assert_wait64 xl ts event interruptible deadline) (\<lambda>ret.
     thenM (turnstile_hash_bucket_unlock xl)
    (thenM (turnstile_update_inheritor_complete xl ts)
    (bindM (if ret = THREAD_WAITING then thread_block xl else retM ret) (\<lambda>ret.
     thenM (turnstile_hash_bucket_lock xl 0)
    (thenM (turnstile_complete_hash xl event)
    (thenM (turnstile_hash_bucket_unlock xl)
    (thenM (turnstile_cleanup xl)
    (thenM primitive_lock
      (retM ret))))))))))))))"

definition lck_spin_sleep_with_inheritor ::
  "('z lhost_ext) xnu_thread \<Rightarrow> 'z xnu_lock \<Rightarrow> nat \<Rightarrow> ptr \<Rightarrow> u32 \<Rightarrow> u64 \<Rightarrow> thread_t \<Rightarrow> u32 \<Rightarrow> u64
   \<Rightarrow> (wait_result, 'z lhost_scheme) prog" where
  "lck_spin_sleep_with_inheritor xnu xl fuel lock action event inheritor interruptible deadline =
     sleep_with_inheritor_and_turnstile xl event inheritor interruptible deadline
       (if flag_set action LCK_SLEEP_UNLOCK then retM () else lck_spin_lock xnu fuel lock)
       (lck_spin_unlock xnu lock)"

definition lck_ticket_sleep_with_inheritor ::
  "('z lhost_ext) xnu_thread \<Rightarrow> 'z xnu_lock \<Rightarrow> nat \<Rightarrow> ptr \<Rightarrow> u32 \<Rightarrow> u64 \<Rightarrow> thread_t \<Rightarrow> u32 \<Rightarrow> u64
   \<Rightarrow> (wait_result, 'z lhost_scheme) prog" where
  "lck_ticket_sleep_with_inheritor xnu xl fuel lock action event inheritor interruptible deadline =
     sleep_with_inheritor_and_turnstile xl event inheritor interruptible deadline
       (if flag_set action LCK_SLEEP_UNLOCK then retM () else lck_ticket_lock xnu fuel lock)
       (lck_ticket_unlock xnu lock)"

section \<open>Reader-writer locks and mutexes\<close>

definition promoted :: "'z xnu_lock \<Rightarrow> u32 \<Rightarrow> (wait_result, 'z lhost_scheme) prog \<Rightarrow> (wait_result, 'z lhost_scheme) prog" where
  "promoted xl action body =
     (if flag_set action LCK_SLEEP_PROMOTED_PRI
      then bindM (thread_priority_floor_start xl) (\<lambda>token. bindM body (\<lambda>res.
             thenM (thread_priority_floor_end xl token) (retM res)))
      else body)"

definition lck_rw_sleep ::
  "('z lhost_ext) xnu_thread \<Rightarrow> 'z xnu_lock \<Rightarrow> nat \<Rightarrow> ptr \<Rightarrow> u32 \<Rightarrow> u64 \<Rightarrow> u32 \<Rightarrow> (wait_result, 'z lhost_scheme) prog" where
  "lck_rw_sleep xnu xl fuel lck action event interruptible =
     thenM (check_sleep_action action)
       (promoted xl action
         (bindM (assert_wait xl event interruptible) (\<lambda>res.
            if res = THREAD_WAITING then
              bindM (lck_rw_done xnu fuel lck) (\<lambda>lck_rw_type.
              bindM (thread_block xl) (\<lambda>res.
              thenM (whenM (\<not> flag_set action LCK_SLEEP_UNLOCK)
                 (if \<not> flag_set action (LCK_SLEEP_SHARED OR LCK_SLEEP_EXCLUSIVE) then lck_rw_lock xnu fuel lck lck_rw_type
                  else if flag_set action LCK_SLEEP_EXCLUSIVE then lck_rw_lock_exclusive xnu fuel lck
                  else lck_rw_lock_shared xnu fuel lck))
                (retM res)))
            else if flag_set action LCK_SLEEP_UNLOCK then bindM (lck_rw_done xnu fuel lck) (\<lambda>_. retM res)
            else retM res)))"

definition lck_mtx_sleep ::
  "('z lhost_ext) xnu_thread \<Rightarrow> 'z xnu_lock \<Rightarrow> nat \<Rightarrow> ptr \<Rightarrow> u32 \<Rightarrow> u64 \<Rightarrow> u32 \<Rightarrow> (wait_result, 'z lhost_scheme) prog" where
  "lck_mtx_sleep xnu xl fuel lck action event interruptible =
     thenM (check_sleep_action action)
       (promoted xl action
         (bindM (assert_wait xl event interruptible) (\<lambda>res.
            if res = THREAD_WAITING then
              thenM (lck_mtx_unlock xnu lck)
             (bindM (thread_block xl) (\<lambda>res.
              thenM (whenM (\<not> flag_set action LCK_SLEEP_UNLOCK)
                 (if flag_set action LCK_SLEEP_SPIN then lck_mtx_lock_spin xnu fuel lck
                  else if flag_set action LCK_SLEEP_SPIN_ALWAYS then lck_mtx_lock_spin_always xnu fuel lck
                  else lck_mtx_lock xnu fuel lck))
                (retM res)))
            else if flag_set action LCK_SLEEP_UNLOCK then thenM (lck_mtx_unlock xnu lck) (retM res)
            else retM res)))"

definition lck_mtx_sleep_deadline ::
  "('z lhost_ext) xnu_thread \<Rightarrow> 'z xnu_lock \<Rightarrow> nat \<Rightarrow> ptr \<Rightarrow> u32 \<Rightarrow> u64 \<Rightarrow> u32 \<Rightarrow> u64 \<Rightarrow> (wait_result, 'z lhost_scheme) prog" where
  "lck_mtx_sleep_deadline xnu xl fuel lck action event interruptible deadline =
     thenM (check_sleep_action action)
       (promoted xl action
         (bindM (assert_wait_deadline xl event interruptible deadline) (\<lambda>res.
            if res = THREAD_WAITING then
              thenM (lck_mtx_unlock xnu lck)
             (bindM (thread_block xl) (\<lambda>res.
              thenM (whenM (\<not> flag_set action LCK_SLEEP_UNLOCK)
                 (if flag_set action LCK_SLEEP_SPIN then lck_mtx_lock_spin xnu fuel lck
                  else lck_mtx_lock xnu fuel lck))
                (retM res)))
            else if flag_set action LCK_SLEEP_UNLOCK then thenM (lck_mtx_unlock xnu lck) (retM res)
            else retM res)))"

section \<open>Ticket reservations\<close>

definition hw_wait_while_equals64 :: "ptr \<Rightarrow> u64 \<Rightarrow> (u64, 's) prog" where
  "hw_wait_while_equals64 address cur = abortM"

definition lck_ticket_lock_try :: "ptr \<Rightarrow> (bool, 's) prog" where
  "lck_ticket_lock_try tlock = abortM"

text \<open>The result and, when the lock was not taken, the ticket 0 written through the pointer.\<close>

definition hw_lck_ticket_reserve :: "('z lhost_ext) xnu_thread \<Rightarrow> ptr \<Rightarrow> (bool \<times> u32 option, 'z lhost_scheme) prog" where
  "hw_lck_ticket_reserve xnu tlock =
     bindM (hw_lck_ticket_lock_try xnu tlock) (\<lambda>got_lock.
       if got_lock then retM (True, None) else retM (False, Some 0))"

definition hw_lck_ticket_wait :: "('z lhost_ext) xnu_thread \<Rightarrow> nat \<Rightarrow> ptr \<Rightarrow> u32 \<Rightarrow> (hw_lock_status, 'z lhost_scheme) prog" where
  "hw_lck_ticket_wait xnu fuel tlock ticket = hw_lck_ticket_lock_to xnu fuel tlock"

text \<open>The truth value is returned as a status: 0 is \<open>HW_LOCK_CONTENDED\<close>, 1 is \<open>HW_LOCK_ACQUIRED\<close>.\<close>

definition hw_lck_ticket_reserve_allow_invalid ::
  "('z lhost_ext) xnu_thread \<Rightarrow> ptr \<Rightarrow> (hw_lock_status \<times> u32 option, 'z lhost_scheme) prog" where
  "hw_lck_ticket_reserve_allow_invalid xnu tlock =
     bindM (hw_lck_ticket_reserve xnu tlock) (\<lambda>(got, ticket).
       retM (if got then HW_LOCK_ACQUIRED else HW_LOCK_CONTENDED, ticket))"

definition lck_ticket_startup_init :: "(unit, 's) prog" where
  "lck_ticket_startup_init = retM ()"

section \<open>Waking with an inheritor\<close>

text \<open>\<open>wokenup\<close> tells whether the caller passed a place for the woken thread; the second result is the value
  stored there. The Boolean of \<open>waitq_wakeup64_identify\<close> is \<open>WAITQ_UPDATE_INHERITOR\<close>, the one of
  \<open>turnstile_update_inheritor\<close> is \<open>TURNSTILE_IMMEDIATE_UPDATE\<close>.\<close>

definition wakeup_finish :: "'z xnu_lock \<Rightarrow> u64 \<Rightarrow> (unit, 'z lhost_scheme) prog" where
  "wakeup_finish xl event =
     thenM (turnstile_complete_hash xl event)
    (thenM (turnstile_hash_bucket_unlock xl) (turnstile_cleanup xl))"

definition wakeup_settle :: "'z xnu_lock \<Rightarrow> ptr \<Rightarrow> u64 \<Rightarrow> (unit, 'z lhost_scheme) prog" where
  "wakeup_settle xl ts event =
     thenM (turnstile_hash_bucket_unlock xl)
    (thenM (turnstile_update_inheritor_complete xl ts)
    (thenM (turnstile_hash_bucket_lock xl 0) (wakeup_finish xl event)))"

definition wakeup_with_inheritor_and_turnstile ::
  "'z xnu_lock \<Rightarrow> u64 \<Rightarrow> wait_result \<Rightarrow> bool \<Rightarrow> u32 \<Rightarrow> bool \<Rightarrow> (int \<times> thread_t option, 'z lhost_scheme) prog" where
  "wakeup_with_inheritor_and_turnstile xl event result wake_one action wokenup =
     thenM (turnstile_hash_bucket_lock xl event)
    (bindM (turnstile_prepare_hash xl event) (\<lambda>ts.
       if wake_one then
         thenM (assertM (action = LCK_WAKE_DEFAULT xl \<or> action = LCK_WAKE_DO_NOT_TRANSFER_PUSH xl))
        (bindM (waitq_wakeup64_identify xl ts event result (action = LCK_WAKE_DEFAULT xl)) (\<lambda>woken.
           if woken \<noteq> 0 then
             thenM (whenM (\<not> wokenup) (thread_deallocate_safe xl woken))
            (thenM (if action = LCK_WAKE_DO_NOT_TRANSFER_PUSH xl then wakeup_finish xl event else wakeup_settle xl ts event)
               (retM (0, if wokenup then Some woken else None)))
           else
             thenM (turnstile_update_inheritor xl ts 0 True)
            (thenM (wakeup_settle xl ts event)
               (retM (KERN_NOT_WAITING xl, if wokenup then Some 0 else None)))))
       else
         bindM (waitq_wakeup64_all xl ts event result) (\<lambda>ret.
         thenM (wakeup_settle xl ts event) (retM (ret, None)))))"

definition wakeup_one_with_inheritor ::
  "'z xnu_lock \<Rightarrow> u64 \<Rightarrow> wait_result \<Rightarrow> u32 \<Rightarrow> bool \<Rightarrow> (int \<times> thread_t option, 'z lhost_scheme) prog" where
  "wakeup_one_with_inheritor xl event result action wokenup =
     wakeup_with_inheritor_and_turnstile xl event result True action wokenup"

definition wakeup_all_with_inheritor :: "'z xnu_lock \<Rightarrow> u64 \<Rightarrow> wait_result \<Rightarrow> (int, 'z lhost_scheme) prog" where
  "wakeup_all_with_inheritor xl event result =
     bindM (wakeup_with_inheritor_and_turnstile xl event result False 0 False) (\<lambda>(ret, _). retM ret)"

section \<open>The contract of a lock to sleep on\<close>

text \<open>\<open>avail\<close> and \<open>held\<close> are the two states of the lock as the calling thread sees them: from an available lock
  \<open>acquire\<close> returns with the lock held, and \<open>release\<close> gives it back.\<close>

definition sleep_core ::
  "(unit, 's) prog \<Rightarrow> (unit, 's) prog \<Rightarrow> bool \<Rightarrow> (wait_result, 's) prog \<Rightarrow> (wait_result, 's) prog \<Rightarrow> (wait_result, 's) prog" where
  "sleep_core acquire release unlock wait block =
     bindM wait (\<lambda>res.
       if res = THREAD_WAITING then
         thenM release (bindM block (\<lambda>res. thenM (whenM (\<not> unlock) acquire) (retM res)))
       else if unlock then thenM release (retM res)
       else retM res)"

definition inheritor_neutral :: "('z lhost_scheme \<Rightarrow> bool) \<Rightarrow> 'z xnu_lock \<Rightarrow> bool" where
  "inheritor_neutral P xl \<longleftrightarrow>
     (\<forall>e. runs P (turnstile_hash_bucket_lock xl e) (\<lambda>_. P)) \<and> runs P (turnstile_hash_bucket_unlock xl) (\<lambda>_. P) \<and>
     (\<forall>e. runs P (turnstile_prepare_hash xl e) (\<lambda>_. P)) \<and> (\<forall>e. runs P (turnstile_complete_hash xl e) (\<lambda>_. P)) \<and>
     (\<forall>ts th b. runs P (turnstile_update_inheritor xl ts th b) (\<lambda>_. P)) \<and>
     (\<forall>ts. runs P (turnstile_update_inheritor_complete xl ts) (\<lambda>_. P)) \<and> runs P (turnstile_cleanup xl) (\<lambda>_. P) \<and>
     (\<forall>th. runs P (thread_set_pending_block_hint xl th) (\<lambda>_. P)) \<and>
     (\<forall>ts e i d. runs P (waitq_assert_wait64 xl ts e i d) (\<lambda>_. P)) \<and> runs P (thread_block xl) (\<lambda>_. P)"

locale sleep_lock =
  fixes acquire release :: "(unit, 's) prog" and avail held :: "'s \<Rightarrow> bool"
  assumes acquire_avail: "runs avail acquire (\<lambda>_. held)"
    and release_held: "runs held release (\<lambda>_. avail)"
begin

lemma sleep_core_state:
  assumes "runs held wait (\<lambda>_. held)" and "runs avail block (\<lambda>_. avail)"
  shows "runs held (sleep_core acquire release unlock wait block) (\<lambda>_. if unlock then avail else held)"
  unfolding sleep_core_def
proof (rule runs_bindM [OF assms(1)], rule runs_if)
  fix res
  show "runs held (thenM release (bindM block (\<lambda>res. thenM (whenM (\<not> unlock) acquire) (retM res))))
          (\<lambda>_. if unlock then avail else held)"
    using acquire_avail
    by (intro runs_thenM [OF release_held] runs_bindM [OF assms(2)])
       (auto simp: runs_def split: outcome.splits)
  show "runs held (if unlock then thenM release (retM res) else retM res) (\<lambda>_. if unlock then avail else held)"
    using release_held by (auto simp: runs_def split: outcome.splits)
qed

end

text \<open>A priority floor around the sleep changes neither state of the lock.\<close>

lemma runs_promoted:
  assumes "runs P body (\<lambda>_. Q)" and "runs P (thread_priority_floor_start xl) (\<lambda>_. P)"
    and "\<And>token. runs Q (thread_priority_floor_end xl token) (\<lambda>_. Q)"
  shows "runs P (promoted xl action body) (\<lambda>_. Q)"
  unfolding promoted_def
  by (intro runs_if runs_bindM [OF assms(2)] runs_bindM [OF assms(1)] runs_thenM [OF assms(3)] runs_ret assms(1))

lemma runs_checked:
  "action AND NOT LCK_SLEEP_MASK = 0 \<Longrightarrow> runs P m Q \<Longrightarrow> runs P (thenM (check_sleep_action action) m) Q"
  by (simp add: runs_def check_sleep_action_def)

text \<open>Sleeping with an inheritor releases first and takes the lock at the end.\<close>

lemma runs_sleep_with_inheritor:
  assumes rel: "runs held release (\<lambda>_. avail)" and acq: "runs avail lock_again (\<lambda>_. Q)"
    and h: "runs held (turnstile_hash_bucket_lock xl event) (\<lambda>_. held)" and n: "inheritor_neutral avail xl"
  shows "runs held (sleep_with_inheritor_and_turnstile xl event inheritor interruptible deadline lock_again release) (\<lambda>_. Q)"
proof -
  have hint: "runs avail (\<lambda>s. thread_set_pending_block_hint xl (GetCurrentThreadT s) s) (\<lambda>_. avail)"
    using n by (simp add: inheritor_neutral_def runs_def)
  have block: "runs avail (if r = THREAD_WAITING then thread_block xl else retM r) (\<lambda>_. avail)" for r
    using n by (simp add: inheritor_neutral_def runs_def)
  have [intro]: "runs avail (turnstile_hash_bucket_lock xl e) (\<lambda>_. avail)" "runs avail (turnstile_hash_bucket_unlock xl) (\<lambda>_. avail)"
    "runs avail (turnstile_prepare_hash xl e) (\<lambda>_. avail)" "runs avail (turnstile_complete_hash xl e) (\<lambda>_. avail)"
    "runs avail (turnstile_update_inheritor xl ts th b) (\<lambda>_. avail)" "runs avail (turnstile_update_inheritor_complete xl ts) (\<lambda>_. avail)"
    "runs avail (turnstile_cleanup xl) (\<lambda>_. avail)" "runs avail (waitq_assert_wait64 xl ts e i d) (\<lambda>_. avail)" for e ts th b i d
    using n by (simp_all add: inheritor_neutral_def)
  show ?thesis unfolding sleep_with_inheritor_and_turnstile_def
    by (rule runs_thenM [OF h] runs_thenM [OF rel] runs_thenM [OF hint] runs_bindM [OF block] runs_thenM [OF acq] runs_ret
        runs_thenM [where R = avail] runs_bindM [where R = "\<lambda>_. avail"] | blast | assumption)+
qed

section \<open>Mutexes and ticket locks keep the contract\<close>

text \<open>The current thread is not preempted at a yield: preemption or interrupts are off, or it already waits.\<close>

definition calm :: "'z host_scheme \<Rightarrow> bool" where
  "calm s \<longleftrightarrow> \<not> ready_for_preemption s \<or> \<not> interrupts_enabled s \<or> IsWaiting (GetCurrentThreadT s) s"

lemma Yield_calm [simp]: "calm s \<Longrightarrow> Yield xnu s = Done () s"
  by (auto simp: Yield_def calm_def)

definition mutex_by :: "ptr \<Rightarrow> (handle \<Rightarrow> handle) \<Rightarrow> 'z lhost_scheme \<Rightarrow> bool" where
  "mutex_by lck who s \<longleftrightarrow> calm s \<and> current s \<noteq> 0 \<and>
     (\<exists>v. mutexes s (lock_var s lck) = Some v \<and> owner v = who (current s) \<and> (\<forall>h \<in> set (waiters v). queue_good h s))"

definition mutex_avail :: "ptr \<Rightarrow> 'z lhost_scheme \<Rightarrow> bool" where
  "mutex_avail lck = mutex_by lck (\<lambda>_. 0)"

definition mutex_mine :: "ptr \<Rightarrow> 'z lhost_scheme \<Rightarrow> bool" where
  "mutex_mine lck = mutex_by lck (\<lambda>h. h)"

lemmas mutex_state_defs = mutex_avail_def mutex_mine_def mutex_by_def calm_def IsWaiting_def GetCurrentThreadT_def HandleToThreadT_def
  queue_good_def

lemma mutex_Lock_avail:
  assumes "mutexes s m = Some v" and "owner v = 0"
  shows "mutex_Lock xnu fuel m s =
     Done () (s\<lparr>mutexes := (mutexes s)(m \<mapsto> \<lparr>owner = current s, waiters = remove1 (current s) (waiters v)\<rparr>)\<rparr>)"
  using assms by (cases fuel; cases v) (auto simp: mutex_acquire_def mutex_RemoveWaiter_def)

lemma mutex_Unlock_mine:
  assumes "mutexes s m = Some v" and "owner v = current s" and "\<forall>h \<in> set (waiters v). queue_good h s"
  shows "\<exists>r. mutex_Unlock m s = Done () (s\<lparr>mutexes := (mutexes s)(m \<mapsto> v\<lparr>owner := 0\<rparr>), runnable := r\<rparr>) \<and>
     (distinct (runnable s) \<longrightarrow> distinct r)"
proof -
  let ?t = "s\<lparr>mutexes := (mutexes s)(m \<mapsto> v\<lparr>owner := 0\<rparr>)\<rparr>"
  have "\<forall>h \<in> set (waiters v). queue_good h ?t" using assms(3) by (auto simp: queue_good_def)
  from MakeAllRunnable_good [OF this] show ?thesis
    using assms(1,2) by (auto simp: mutex_Unlock_def mutex_AssertHeld_def mutex_Held_def)
qed

lemma runs_lock:
  "runs (mutex_avail lck) (thenM (Yield xnu) (bindM (deref lck) (mutex_Lock xnu fuel))) (\<lambda>_. mutex_mine lck)"
proof
  fix s :: "'a lhost_scheme"
  assume a: "mutex_avail lck s"
  then have c: "calm s" by (simp add: mutex_avail_def mutex_by_def)
  from a obtain v where v: "mutexes s (lock_var s lck) = Some v" "owner v = 0" "\<forall>h \<in> set (waiters v). queue_good h s"
    by (auto simp: mutex_avail_def mutex_by_def)
  have "set (remove1 (current s) (waiters v)) \<subseteq> set (waiters v)" by (rule set_remove1_subset)
  then show "\<exists>x t. thenM (Yield xnu) (bindM (deref lck) (mutex_Lock xnu fuel)) s = Done x t \<and> mutex_mine lck t"
    using a c mutex_Lock_avail [OF v(1,2)] v by (auto simp: mutex_state_defs)
qed

lemma mutex_Unlock_avail:
  assumes a: "mutex_mine lck s"
  shows "\<exists>t. mutex_Unlock (lock_var s lck) s = Done () t \<and> mutex_avail lck t \<and> calm t \<and>
     live_locks t = live_locks s \<and> invalidated_locks t = invalidated_locks s"
proof -
  from a obtain v where v: "mutexes s (lock_var s lck) = Some v" "owner v = current s" "\<forall>h \<in> set (waiters v). queue_good h s"
    by (auto simp: mutex_mine_def mutex_by_def)
  from mutex_Unlock_mine [OF v] obtain r where r: "mutex_Unlock (lock_var s lck) s =
      Done () (s\<lparr>mutexes := (mutexes s)(lock_var s lck \<mapsto> v\<lparr>owner := 0\<rparr>), runnable := r\<rparr>)" "distinct (runnable s) \<longrightarrow> distinct r" by blast
  let ?t = "s\<lparr>mutexes := (mutexes s)(lock_var s lck \<mapsto> v\<lparr>owner := 0\<rparr>), runnable := r\<rparr>"
  have t: "mutex_avail lck ?t" using a v r(2) by (auto simp: mutex_state_defs)
  then have "calm ?t" by (simp only: mutex_avail_def mutex_by_def)
  then show ?thesis using r(1) t by (intro exI [of _ ?t]) simp
qed

lemma runs_unlock:
  "runs (mutex_mine lck) (thenM (bindM (deref lck) mutex_Unlock) (Yield xnu)) (\<lambda>_. mutex_avail lck)"
proof
  fix s :: "'a lhost_scheme"
  assume "mutex_mine lck s"
  from mutex_Unlock_avail [OF this]
  show "\<exists>x t. thenM (bindM (deref lck) mutex_Unlock) (Yield xnu) s = Done x t \<and> mutex_avail lck t" by auto
qed

interpretation mtx: sleep_lock "lck_mtx_lock xnu fuel lck" "lck_mtx_unlock xnu lck" "mutex_avail lck" "mutex_mine lck"
  by unfold_locales (simp_all add: lck_mtx_lock_def lck_mtx_unlock_def runs_lock runs_unlock)

interpretation spin: sleep_lock "lck_spin_lock xnu fuel lck" "lck_spin_unlock xnu lck" "mutex_avail lck" "mutex_mine lck"
  by unfold_locales (simp_all add: lck_spin_lock_def lck_spin_unlock_def runs_lock runs_unlock)

text \<open>A ticket lock is in addition known to the manager and not invalidated.\<close>

definition ticket_valid :: "ptr \<Rightarrow> 'z lhost_scheme \<Rightarrow> bool" where
  "ticket_valid lck s \<longleftrightarrow> lck \<in> live_locks s \<and> lck \<notin> invalidated_locks s"

lemma runs_ticket_lock:
  "runs (\<lambda>s. ticket_valid lck s \<and> mutex_avail lck s) (lck_ticket_lock xnu fuel lck) (\<lambda>_ s. ticket_valid lck s \<and> mutex_mine lck s)"
proof
  fix s :: "'a lhost_scheme"
  assume a: "ticket_valid lck s \<and> mutex_avail lck s"
  then have c: "calm s" by (simp add: mutex_avail_def mutex_by_def)
  from a obtain v where v: "mutexes s (lock_var s lck) = Some v" "owner v = 0" by (auto simp: mutex_avail_def mutex_by_def)
  from runsD [OF runs_lock conjunct2 [OF a], of xnu fuel] c mutex_Lock_avail [OF v]
  show "\<exists>x t. lck_ticket_lock xnu fuel lck s = Done x t \<and> ticket_valid lck t \<and> mutex_mine lck t"
    using a by (auto simp: lck_ticket_lock_def tlock_Lock_def ticket_valid_def)
qed

lemma runs_ticket_unlock:
  "runs (\<lambda>s. ticket_valid lck s \<and> mutex_mine lck s) (lck_ticket_unlock xnu lck) (\<lambda>_ s. ticket_valid lck s \<and> mutex_avail lck s)"
proof
  fix s :: "'a lhost_scheme"
  assume a: "ticket_valid lck s \<and> mutex_mine lck s"
  then obtain v where "mutexes s (lock_var s lck) = Some v" "owner v = current s"
    by (auto simp: mutex_mine_def mutex_by_def)
  then have "mutex_Held (lock_var s lck) s = Done True s" by (simp add: mutex_Held_def)
  then show "\<exists>x t. lck_ticket_unlock xnu lck s = Done x t \<and> ticket_valid lck t \<and> mutex_avail lck t"
    using a mutex_Unlock_avail [OF conjunct2 [OF a]] by (auto simp: lck_ticket_unlock_def tlock_Unlock_def ticket_valid_def)
qed

interpretation ticket: sleep_lock "lck_ticket_lock xnu fuel lck" "lck_ticket_unlock xnu lck"
  "\<lambda>s. ticket_valid lck s \<and> mutex_avail lck s" "\<lambda>s. ticket_valid lck s \<and> mutex_mine lck s"
  by unfold_locales (simp_all add: runs_ticket_lock runs_ticket_unlock)

section \<open>Properties\<close>

text \<open>XNU functions that make the thread wait and otherwise do nothing, and a host whose thread 5 holds the lock
  at 400, for which thread 7 waits.\<close>

definition xl_idle :: "'z xnu_lock" where
  "xl_idle = \<lparr>assert_wait = (\<lambda>_ _. retM THREAD_WAITING), assert_wait_deadline = (\<lambda>_ _ _. retM THREAD_TIMED_OUT),
     thread_block = retM THREAD_AWAKENED, thread_priority_floor_start = retM 1, thread_priority_floor_end = (\<lambda>_. retM ()),
     turnstile_hash_bucket_lock = (\<lambda>_. retM ()), turnstile_hash_bucket_unlock = retM (),
     turnstile_prepare_hash = (\<lambda>_. retM 9), turnstile_complete_hash = (\<lambda>_. retM ()),
     turnstile_update_inheritor = (\<lambda>_ _ _. retM ()), turnstile_update_inheritor_complete = (\<lambda>_. retM ()),
     turnstile_cleanup = retM (), thread_set_pending_block_hint = (\<lambda>_. retM ()),
     waitq_assert_wait64 = (\<lambda>_ _ _ _. retM THREAD_WAITING), waitq_wakeup64_identify = (\<lambda>_ _ _ _. retM 700),
     waitq_wakeup64_all = (\<lambda>_ _ _. retM 0), thread_deallocate_safe = (\<lambda>_. retM ()), LCK_WAKE_DEFAULT = 0,
     LCK_WAKE_DO_NOT_TRANSFER_PUSH = 1, KERN_NOT_WAITING = 48\<rparr>"

definition holder :: lhost where
  "holder = lhost_example\<lparr>mutexes := [40 \<mapsto> \<lparr>owner = 5, waiters = [7]\<rparr>], live_locks := {400}\<rparr>"

lemma holder_mine: "mutex_mine 400 holder" "ticket_valid 400 holder"
  by (simp_all add: holder_def mutex_state_defs ticket_valid_def lhost_example_def host_example_def host.defs)

lemma runs_ret_same: "runs P (retM x) (\<lambda>_. P)"
  by (simp add: runs_def)

lemma lck_mtx_locks:
  "lck_mtx_lock_spin xnu fuel lck = lck_mtx_lock xnu fuel lck"
  "lck_mtx_lock_spin_always xnu fuel lck = lck_mtx_lock xnu fuel lck"
  "lck_spin_lock_grp xnu fuel lck = lck_spin_lock xnu fuel lck"
  by (simp_all add: lck_mtx_lock_def lck_mtx_lock_spin_def lck_mtx_lock_spin_always_def lck_spin_lock_def lck_spin_lock_grp_def)

lemma lck_mtx_sleep_core:
  "lck_mtx_sleep xnu xl fuel lck action event i = thenM (check_sleep_action action) (promoted xl action
     (sleep_core (lck_mtx_lock xnu fuel lck) (lck_mtx_unlock xnu lck) (flag_set action LCK_SLEEP_UNLOCK)
       (assert_wait xl event i) (thread_block xl)))"
  "lck_mtx_sleep_deadline xnu xl fuel lck action event i d = thenM (check_sleep_action action) (promoted xl action
     (sleep_core (lck_mtx_lock xnu fuel lck) (lck_mtx_unlock xnu lck) (flag_set action LCK_SLEEP_UNLOCK)
       (assert_wait_deadline xl event i d) (thread_block xl)))"
  unfolding lck_mtx_sleep_def lck_mtx_sleep_deadline_def sleep_core_def lck_mtx_locks if_cancel by (rule refl)+

lemma lck_spin_sleep_core:
  "lck_spin_sleep xnu xl fuel lck action event i = thenM (check_sleep_action action)
     (sleep_core (lck_spin_lock xnu fuel lck) (lck_spin_unlock xnu lck) (flag_set action LCK_SLEEP_UNLOCK)
       (assert_wait xl event i) (thread_block xl))"
  "lck_spin_sleep_deadline xnu xl fuel lck action event i d = thenM (check_sleep_action action)
     (sleep_core (lck_spin_lock xnu fuel lck) (lck_spin_unlock xnu lck) (flag_set action LCK_SLEEP_UNLOCK)
       (assert_wait_deadline xl event i d) (thread_block xl))"
  unfolding lck_spin_sleep_def lck_spin_sleep_grp_def lck_spin_sleep_deadline_def sleep_core_def lck_mtx_locks by (rule refl)+

text \<open>Sleeping on a mutex, when nothing else takes it. A thread that holds a mutex and sleeps on it with a legal action comes back, as long as
  \<open>assert_wait\<close> leaves the lock alone and the lock is free again when \<open>thread_block\<close> returns; then it holds
  the mutex, or with \<open>LCK_SLEEP_UNLOCK\<close> the mutex is free, whether or not it had to wait, in every
  spin mode, with a priority floor or without, with a deadline or without.\<close>

lemma lck_mtx_sleep_state:
  assumes legal: "action AND NOT LCK_SLEEP_MASK = 0" and mine: "mutex_mine lck s"
    and wait: "runs (mutex_mine lck) (assert_wait xl event i) (\<lambda>_. mutex_mine lck)"
      "runs (mutex_mine lck) (assert_wait_deadline xl event i d) (\<lambda>_. mutex_mine lck)"
    and block: "runs (mutex_avail lck) (thread_block xl) (\<lambda>_. mutex_avail lck)"
    and floor: "runs (mutex_mine lck) (thread_priority_floor_start xl) (\<lambda>_. mutex_mine lck)"
      "\<And>token. runs (mutex_mine lck) (thread_priority_floor_end xl token) (\<lambda>_. mutex_mine lck)"
      "\<And>token. runs (mutex_avail lck) (thread_priority_floor_end xl token) (\<lambda>_. mutex_avail lck)"
  shows "(\<exists>r t. lck_mtx_sleep xnu xl fuel lck action event i s = Done r t \<and>
            (if flag_set action LCK_SLEEP_UNLOCK then mutex_avail lck t else mutex_mine lck t)) \<and>
         (\<exists>r t. lck_mtx_sleep_deadline xnu xl fuel lck action event i d s = Done r t \<and>
            (if flag_set action LCK_SLEEP_UNLOCK then mutex_avail lck t else mutex_mine lck t))"
proof -
  let ?Q = "if flag_set action LCK_SLEEP_UNLOCK then mutex_avail lck else mutex_mine lck :: 'a lhost_scheme \<Rightarrow> bool"
  have fin: "runs ?Q (thread_priority_floor_end xl token) (\<lambda>_. ?Q)" for token using floor by simp
  have "runs (mutex_mine lck) (lck_mtx_sleep xnu xl fuel lck action event i) (\<lambda>_. ?Q)"
    "runs (mutex_mine lck) (lck_mtx_sleep_deadline xnu xl fuel lck action event i d) (\<lambda>_. ?Q)"
    unfolding lck_mtx_sleep_core
    by (intro runs_checked legal runs_promoted mtx.sleep_core_state wait block floor fin)+
  from this [THEN runsD, OF mine] show ?thesis by (cases "flag_set action LCK_SLEEP_UNLOCK") simp_all
qed

lemma lck_mtx_sleep_state_witness:
  "\<exists>r t. lck_mtx_sleep (xnu_idle (\<lambda>_. retM ())) xl_idle 0 400 (LCK_SLEEP_SPIN OR LCK_SLEEP_PROMOTED_PRI) 77 2 holder = Done r t \<and>
     mutex_mine 400 t"
proof -
  have a: "(LCK_SLEEP_SPIN OR LCK_SLEEP_PROMOTED_PRI) AND NOT LCK_SLEEP_MASK = 0"
    "\<not> flag_set (LCK_SLEEP_SPIN OR LCK_SLEEP_PROMOTED_PRI) LCK_SLEEP_UNLOCK"
    by (simp_all add: LCK_SLEEP_SPIN_def LCK_SLEEP_PROMOTED_PRI_def LCK_SLEEP_MASK_def LCK_SLEEP_UNLOCK_def flag_set_def)
  show ?thesis
    using lck_mtx_sleep_state [OF a(1) holder_mine(1), of xl_idle 77 2 0 "xnu_idle (\<lambda>_. retM ())" 0] a(2)
    by (simp add: xl_idle_def runs_ret_same)
qed

text \<open>Sleeping on a spin lock leaves the lock in the same two states.\<close>

lemma lck_spin_sleep_state:
  assumes legal: "action AND NOT LCK_SLEEP_MASK = 0" and mine: "mutex_mine lck s"
    and wait: "runs (mutex_mine lck) (assert_wait xl event i) (\<lambda>_. mutex_mine lck)"
      "runs (mutex_mine lck) (assert_wait_deadline xl event i d) (\<lambda>_. mutex_mine lck)"
    and block: "runs (mutex_avail lck) (thread_block xl) (\<lambda>_. mutex_avail lck)"
  shows "(\<exists>r t. lck_spin_sleep xnu xl fuel lck action event i s = Done r t \<and>
            (if flag_set action LCK_SLEEP_UNLOCK then mutex_avail lck t else mutex_mine lck t)) \<and>
         (\<exists>r t. lck_spin_sleep_deadline xnu xl fuel lck action event i d s = Done r t \<and>
            (if flag_set action LCK_SLEEP_UNLOCK then mutex_avail lck t else mutex_mine lck t))"
proof -
  let ?Q = "if flag_set action LCK_SLEEP_UNLOCK then mutex_avail lck else mutex_mine lck :: 'a lhost_scheme \<Rightarrow> bool"
  have "runs (mutex_mine lck) (lck_spin_sleep xnu xl fuel lck action event i) (\<lambda>_. ?Q)"
    "runs (mutex_mine lck) (lck_spin_sleep_deadline xnu xl fuel lck action event i d) (\<lambda>_. ?Q)"
    unfolding lck_spin_sleep_core
    by (intro runs_checked legal spin.sleep_core_state wait block)+
  from this [THEN runsD, OF mine] show ?thesis by (cases "flag_set action LCK_SLEEP_UNLOCK") simp_all
qed

lemma lck_spin_sleep_state_witness:
  "\<exists>r t. lck_spin_sleep (xnu_idle (\<lambda>_. retM ())) xl_idle 0 400 LCK_SLEEP_UNLOCK 77 2 holder = Done r t \<and> mutex_avail 400 t"
proof -
  have a: "LCK_SLEEP_UNLOCK AND NOT LCK_SLEEP_MASK = 0" "flag_set LCK_SLEEP_UNLOCK LCK_SLEEP_UNLOCK"
    by (simp_all add: LCK_SLEEP_MASK_def LCK_SLEEP_UNLOCK_def flag_set_def)
  show ?thesis
    using lck_spin_sleep_state [OF a(1) holder_mine(1), of xl_idle 77 2 0 "xnu_idle (\<lambda>_. retM ())" 0] a(2)
    by (simp add: xl_idle_def runs_ret_same)
qed

text \<open>Sleeping on a ticket lock with an inheritor. With turnstile and wait-queue functions that leave the lock alone,
  the call returns with a valid ticket lock that the thread holds, or that is free when the action is
  \<open>LCK_SLEEP_UNLOCK\<close>, whether the wait queue made it wait or not.\<close>

lemma lck_ticket_sleep_with_inheritor_state:
  assumes mine: "ticket_valid lck s" "mutex_mine lck s"
    and bucket: "runs (\<lambda>s. ticket_valid lck s \<and> mutex_mine lck s) (turnstile_hash_bucket_lock xl event)
        (\<lambda>_ s. ticket_valid lck s \<and> mutex_mine lck s)"
    and neutral: "inheritor_neutral (\<lambda>s. ticket_valid lck s \<and> mutex_avail lck s) xl"
  shows "\<exists>r t. lck_ticket_sleep_with_inheritor xnu xl fuel lck action event inheritor i d s = Done r t \<and> ticket_valid lck t \<and>
     (if flag_set action LCK_SLEEP_UNLOCK then mutex_avail lck t else mutex_mine lck t)"
proof -
  let ?Q = "\<lambda>s :: 'a lhost_scheme. ticket_valid lck s \<and> (if flag_set action LCK_SLEEP_UNLOCK then mutex_avail lck s else mutex_mine lck s)"
  have again: "runs (\<lambda>s. ticket_valid lck s \<and> mutex_avail lck s)
      (if flag_set action LCK_SLEEP_UNLOCK then retM () else lck_ticket_lock xnu fuel lck) (\<lambda>_. ?Q)"
    using ticket.acquire_avail [of lck xnu fuel] by (auto simp: runs_def)
  from runs_sleep_with_inheritor [OF ticket.release_held again bucket neutral]
  show ?thesis unfolding lck_ticket_sleep_with_inheritor_def using mine by (auto simp: runs_def)
qed

lemma lck_ticket_sleep_with_inheritor_state_witness:
  "\<exists>r t. lck_ticket_sleep_with_inheritor (xnu_idle (\<lambda>_. retM ())) xl_idle 0 400 0 77 700 2 0 holder = Done r t \<and> ticket_valid 400 t \<and>
     mutex_mine 400 t"
proof -
  have f: "\<not> flag_set 0 LCK_SLEEP_UNLOCK" by (simp add: flag_set_def)
  have n: "inheritor_neutral P xl_idle" for P by (simp add: inheritor_neutral_def xl_idle_def runs_ret_same)
  have b: "runs P (turnstile_hash_bucket_lock xl_idle 77) (\<lambda>_. P)" for P by (simp add: xl_idle_def runs_ret_same)
  show ?thesis
    using lck_ticket_sleep_with_inheritor_state [OF holder_mine(2,1) b n, of "xnu_idle (\<lambda>_. retM ())" 0 0 700 2 0] f
    by simp
qed

text \<open>C35. An invalidated ticket lock is no lock. Once it is invalidated, \<open>hw_lck_ticket_lock_to\<close> reports the lock as acquired, yet
  changes nothing and leaves the lock unheld, and a second thread gets the same answer.\<close>

theorem invalidated_ticket_lock_not_taken:
  assumes "calm s" and "lock_var s lck = m" and "mutexes s m = Some v" and "owner v = 0" and "current s \<noteq> 0"
    and "lck \<in> live_locks s"
  shows "\<exists>t. tlock_Invalidate lck s = Done () t \<and> hw_lck_ticket_lock_to xnu fuel lck t = Done HW_LOCK_ACQUIRED t \<and>
     mutex_Held m t = Done False t \<and>
     (\<forall>h. calm (t\<lparr>current := h\<rparr>) \<longrightarrow>
        hw_lck_ticket_lock_to xnu fuel lck (t\<lparr>current := h\<rparr>) = Done HW_LOCK_ACQUIRED (t\<lparr>current := h\<rparr>))"
  using assms
  by (auto simp: tlock_Invalidate_def hw_lck_ticket_lock_to_def tlock_Lock_def mutex_Held_def calm_def IsWaiting_def
      GetCurrentThreadT_def HandleToThreadT_def Yield_def)

theorem invalidated_ticket_lock_not_taken_witness:
  "\<exists>t. tlock_Invalidate 400 (holder\<lparr>mutexes := [40 \<mapsto> \<lparr>owner = 0, waiters = []\<rparr>]\<rparr>) = Done () t \<and>
     hw_lck_ticket_lock_to (xnu_idle (\<lambda>_. retM ())) 0 400 t = Done HW_LOCK_ACQUIRED t \<and> mutex_Held 40 t = Done False t"
proof -
  let ?s = "holder\<lparr>mutexes := [40 \<mapsto> \<lparr>owner = 0, waiters = []\<rparr>]\<rparr>"
  have "calm ?s" "lock_var ?s 400 = 40" "mutexes ?s 40 = Some \<lparr>owner = 0, waiters = []\<rparr>" "current ?s \<noteq> 0" "400 \<in> live_locks ?s"
    by (simp_all add: holder_def mutex_state_defs lhost_example_def host_example_def host.defs)
  then show ?thesis
    using invalidated_ticket_lock_not_taken [of ?s 400 40 _ "xnu_idle (\<lambda>_. retM ())" 0] by fastforce
qed

end
