(* ===== verification/SyncShims.thy ===== *)
theory SyncShims
  imports Locks
begin

text \<open>
  The lock entry points of \<open>fuzz/xnu/osfmk/fakes/sync/\<close> that the earlier theories do not need: allocation and
  destruction, the yielding variants, the pointer locks of \<open>locks.cc\<close>, and the entry points the fuzzer does not
  support, which abort. The groups and attributes of XNU's locks carry no state.

  A pointer lock is an object with a mutex and a value (\<open>VirtualLckPtr\<close>); the guest's variable holds the address of the
  object, 0 once it is destroyed.
\<close>

section \<open>State\<close>

record vlck_ptr =
  lp_mutex :: ptr
  protected_value :: ptr

record shost = lhost +
  lck_ptrs :: "ptr \<rightharpoonup> vlck_ptr"
  lck_ptr_var :: "ptr \<Rightarrow> ptr"
  new_cells :: "ptr list"

text \<open>\<open>new\<close>: the next address of the C++ heap.\<close>

definition new_cell :: "(ptr, 'z shost_scheme) prog" where
  "new_cell = (\<lambda>s. case new_cells s of [] \<Rightarrow> Stopped HostAbort | c # cs \<Rightarrow> Done c (s\<lparr>new_cells := cs\<rparr>))"

definition set_lock_var :: "ptr \<Rightarrow> ptr \<Rightarrow> (unit, 'z lhost_scheme) prog" where
  "set_lock_var sp m = modifyM (\<lambda>s. s\<lparr>lock_var := (lock_var s)(sp := m)\<rparr>)"

section \<open>Attributes and groups\<close>

definition lck_attr_alloc_init :: ptr where "lck_attr_alloc_init = 1"

definition lck_attr_free :: "(unit, 's) prog" where "lck_attr_free = retM ()"

definition lck_attr_setdebug :: "(unit, 's) prog" where "lck_attr_setdebug = retM ()"

definition lck_attr_setdefault :: "(unit, 's) prog" where "lck_attr_setdefault = retM ()"

definition lck_attr_startup_init :: "(unit, 's) prog" where "lck_attr_startup_init = retM ()"

definition lck_grp_alloc_init :: ptr where "lck_grp_alloc_init = 1"

definition lck_grp_attr_alloc_init :: ptr where "lck_grp_attr_alloc_init = 1"

definition lck_grp_attr_free :: "(unit, 's) prog" where "lck_grp_attr_free = retM ()"

definition lck_grp_attr_setdefault :: "(unit, 's) prog" where "lck_grp_attr_setdefault = retM ()"

definition lck_grp_free :: "(unit, 's) prog" where "lck_grp_free = retM ()"

definition lck_grp_startup_init :: "(unit, 's) prog" where "lck_grp_startup_init = retM ()"

definition lck_grp_init :: "(unit, 's) prog" where "lck_grp_init = abortM"

definition lck_grp_lckcnt_incr :: "(unit, 's) prog" where "lck_grp_lckcnt_incr = abortM"

definition lck_grp_reference :: "(unit, 's) prog" where "lck_grp_reference = abortM"

section \<open>Mutexes\<close>

text \<open>\<open>new HyperMutex *\<close> is a fresh variable that holds the mutex.\<close>

definition alloc_lock_var :: "(ptr, 'z shost_scheme) prog" where
  "alloc_lock_var = bindM AllocateMutex (\<lambda>mtx. bindM new_cell (\<lambda>p. thenM (set_lock_var p mtx) (retM p)))"

definition lck_mtx_alloc_init :: "(ptr, 'z shost_scheme) prog" where
  "lck_mtx_alloc_init = alloc_lock_var"

definition lck_mtx_convert_spin :: "(unit, 's) prog" where "lck_mtx_convert_spin = retM ()"

definition lck_mtx_free :: "(unit, 's) prog" where "lck_mtx_free = abortM"

definition lck_mtx_sleep_with_inheritor :: "(unit, 's) prog" where "lck_mtx_sleep_with_inheritor = abortM"

definition lck_mtx_init_ext :: "ptr \<Rightarrow> (unit, 'z lhost_scheme) prog" where
  "lck_mtx_init_ext sp = bindM AllocateMutex (set_lock_var sp)"

definition lck_mtx_try_lock_spin_always :: "(unit, 's) prog" where "lck_mtx_try_lock_spin_always = abortM"

text \<open>The start-up variants get the address of a variable that holds the address of the lock.\<close>

definition lck_mtx_startup_init :: "ptr \<Rightarrow> (unit, 'z lhost_scheme) prog" where
  "lck_mtx_startup_init sp = bindM (deref sp) lck_mtx_init"

definition lck_mtx_try_lock_spin :: "('z lhost_ext) xnu_thread \<Rightarrow> ptr \<Rightarrow> (bool, 'z lhost_scheme) prog" where
  "lck_mtx_try_lock_spin xnu sp = thenM (Yield xnu) (bindM (deref sp) mutex_TryLock)"

definition lck_mtx_yield :: "('z lhost_ext) xnu_thread \<Rightarrow> nat \<Rightarrow> ptr \<Rightarrow> (unit, 'z lhost_scheme) prog" where
  "lck_mtx_yield xnu fuel sp =
     thenM (bindM (deref sp) mutex_Unlock) (thenM (Yield xnu) (bindM (deref sp) (mutex_Lock xnu fuel)))"

definition lck_mtx_assert :: "('z lhost_ext) xnu_thread \<Rightarrow> ptr \<Rightarrow> (unit, 'z lhost_scheme) prog" where
  "lck_mtx_assert xnu sp = Yield xnu"

section \<open>Spin locks\<close>

definition lck_spin_alloc_init :: "(ptr, 'z shost_scheme) prog" where
  "lck_spin_alloc_init = alloc_lock_var"

definition lck_spin_assert :: "(unit, 's) prog" where "lck_spin_assert = retM ()"

definition lck_spin_destroy :: "ptr \<Rightarrow> (unit, 'z lhost_scheme) prog" where
  "lck_spin_destroy sp = thenM (bindM (deref sp) FreeMutex) (set_lock_var sp 0)"

definition lck_spin_init :: "ptr \<Rightarrow> (unit, 'z lhost_scheme) prog" where
  "lck_spin_init sp = bindM AllocateMutex (set_lock_var sp)"

definition lck_spin_startup_init :: "ptr \<Rightarrow> (unit, 'z lhost_scheme) prog" where
  "lck_spin_startup_init sp = bindM (deref sp) lck_spin_init"

definition lck_spin_try_lock :: "('z lhost_ext) xnu_thread \<Rightarrow> ptr \<Rightarrow> (bool, 'z lhost_scheme) prog" where
  "lck_spin_try_lock xnu sp = thenM (Yield xnu) (bindM (deref sp) mutex_TryLock)"

definition lck_spin_try_lock_grp :: "('z lhost_ext) xnu_thread \<Rightarrow> ptr \<Rightarrow> (bool, 'z lhost_scheme) prog" where
  "lck_spin_try_lock_grp xnu lock = thenM (Yield xnu) (bindM (deref lock) mutex_TryLock)"

definition spinlock_timeout_NMI :: "(unit, 's) prog" where "spinlock_timeout_NMI = abortM"

definition spinlock_timeout_panic :: "(unit, 's) prog" where "spinlock_timeout_panic = abortM"

section \<open>Reader-writer locks\<close>

definition lck_rw_alloc_init :: "(ptr, 'z shost_scheme) prog" where
  "lck_rw_alloc_init = bindM AllocateRwLock (\<lambda>l. bindM new_cell (\<lambda>p. thenM (set_lock_var p l) (retM p)))"

definition lck_rw_destroy :: "ptr \<Rightarrow> (unit, 'z lhost_scheme) prog" where
  "lck_rw_destroy sp = thenM (bindM (deref sp) FreeRwLock) (set_lock_var sp 0)"

definition lck_rw_free :: "(unit, 's) prog" where "lck_rw_free = abortM"

definition lck_rw_init :: "ptr \<Rightarrow> (unit, 'z lhost_scheme) prog" where
  "lck_rw_init sp = bindM AllocateRwLock (set_lock_var sp)"

definition lck_rw_lock_exclusive_to_shared :: "ptr \<Rightarrow> (unit, 'z lhost_scheme) prog" where
  "lck_rw_lock_exclusive_to_shared sp = bindM (deref sp) ExclusiveToShared"

definition lck_rw_lock_shared_to_exclusive :: "ptr \<Rightarrow> (bool, 'z lhost_scheme) prog" where
  "lck_rw_lock_shared_to_exclusive sp = bindM (deref sp) SharedToExclusive"

definition lck_rw_startup_init :: "ptr \<Rightarrow> (unit, 'z lhost_scheme) prog" where
  "lck_rw_startup_init sp = bindM (deref sp) lck_rw_init"

definition lck_rw_try_lock_exclusive :: "('z lhost_ext) xnu_thread \<Rightarrow> ptr \<Rightarrow> (bool, 'z lhost_scheme) prog" where
  "lck_rw_try_lock_exclusive xnu sp = thenM (Yield xnu) (bindM (deref sp) TryLockExclusive)"

definition lck_rw_try_lock_shared :: "('z lhost_ext) xnu_thread \<Rightarrow> ptr \<Rightarrow> (bool, 'z lhost_scheme) prog" where
  "lck_rw_try_lock_shared xnu sp = thenM (Yield xnu) (bindM (deref sp) TryLockShared)"

definition lck_rw_unlock :: "(unit, 's) prog" where "lck_rw_unlock = abortM"

definition lck_rw_unlock_exclusive :: "('z lhost_ext) xnu_thread \<Rightarrow> ptr \<Rightarrow> (unit, 'z lhost_scheme) prog" where
  "lck_rw_unlock_exclusive xnu sp = thenM (bindM (deref sp) UnlockExclusive) (Yield xnu)"

definition lck_rw_unlock_shared :: "('z lhost_ext) xnu_thread \<Rightarrow> nat \<Rightarrow> ptr \<Rightarrow> (unit, 'z lhost_scheme) prog" where
  "lck_rw_unlock_shared xnu fuel sp = thenM (bindM (deref sp) (UnlockShared xnu fuel)) (Yield xnu)"

definition lck_rw_clear_promotion :: "(unit, 's) prog" where "lck_rw_clear_promotion = abortM"

definition lck_rw_lock_exclusive_check_contended :: "('z lhost_ext) xnu_thread \<Rightarrow> nat \<Rightarrow> ptr \<Rightarrow> (bool, 'z lhost_scheme) prog" where
  "lck_rw_lock_exclusive_check_contended xnu fuel sp =
     thenM (Yield xnu) (thenM (bindM (deref sp) (LockExclusive xnu fuel)) (fuzzM GetFuzzedBool))"

definition lck_rw_lock_yield_shared :: "('z lhost_ext) xnu_thread \<Rightarrow> nat \<Rightarrow> ptr \<Rightarrow> bool \<Rightarrow> (bool, 'z lhost_scheme) prog" where
  "lck_rw_lock_yield_shared xnu fuel sp force_yield =
     thenM (bindM (deref sp) (UnlockShared xnu fuel))
    (thenM (Yield xnu) (thenM (bindM (deref sp) (LockShared xnu fuel)) (retM True)))"

datatype lck_rw_yield_t = LCK_RW_YIELD_WRITERS_ONLY | LCK_RW_YIELD_ANY_WAITER | LCK_RW_YIELD_ALWAYS

definition lck_rw_lock_yield_exclusive :: "('z lhost_ext) xnu_thread \<Rightarrow> nat \<Rightarrow> ptr \<Rightarrow> lck_rw_yield_t \<Rightarrow> (bool, 'z lhost_scheme) prog" where
  "lck_rw_lock_yield_exclusive xnu fuel sp mode =
     thenM (bindM (deref sp) UnlockExclusive)
    (thenM (Yield xnu) (thenM (bindM (deref sp) (LockExclusive xnu fuel)) (retM True)))"

definition lck_rw_assert :: "(unit, 's) prog" where "lck_rw_assert = retM ()"

section \<open>Ticket locks\<close>

definition lck_ticket_assert_owned :: "ptr \<Rightarrow> (unit, 'z lhost_scheme) prog" where
  "lck_ticket_assert_owned tlock = bindM (tlock_Held tlock) (\<lambda>h. if h then retM () else abortM)"

definition lck_ticket_init :: "ptr \<Rightarrow> (unit, 'z lhost_scheme) prog" where
  "lck_ticket_init tlock = tlock_Allocate tlock"

definition lck_ticket_destroy :: "('z lhost_ext) xnu_thread \<Rightarrow> nat \<Rightarrow> ptr \<Rightarrow> (unit, 'z lhost_scheme) prog" where
  "lck_ticket_destroy xnu fuel tlock = thenM (tlock_Destroy xnu fuel tlock False) (set_lock_var tlock 0)"

definition hw_lck_ticket_destroy :: "('z lhost_ext) xnu_thread \<Rightarrow> nat \<Rightarrow> ptr \<Rightarrow> (unit, 'z lhost_scheme) prog" where
  "hw_lck_ticket_destroy xnu fuel tlock = tlock_Destroy xnu fuel tlock True"

definition hw_lck_ticket_held :: "ptr \<Rightarrow> (bool, 'z lhost_scheme) prog" where
  "hw_lck_ticket_held tlock = tlock_Held tlock"

definition hw_lck_ticket_init :: "ptr \<Rightarrow> (unit, 'z lhost_scheme) prog" where
  "hw_lck_ticket_init tlock = tlock_Allocate tlock"

definition hw_lck_ticket_init_locked :: "('z lhost_ext) xnu_thread \<Rightarrow> nat \<Rightarrow> ptr \<Rightarrow> (unit, 'z lhost_scheme) prog" where
  "hw_lck_ticket_init_locked xnu fuel tlock =
     thenM (hw_lck_ticket_init tlock) (thenM (tlock_Lock xnu fuel tlock False) (retM ()))"

definition hw_lck_ticket_invalidate :: "ptr \<Rightarrow> (unit, 'z lhost_scheme) prog" where
  "hw_lck_ticket_invalidate tlock = tlock_Invalidate tlock"

definition hw_lck_ticket_lock_allow_invalid :: "('z lhost_ext) xnu_thread \<Rightarrow> nat \<Rightarrow> ptr \<Rightarrow> (hw_lock_status, 'z lhost_scheme) prog" where
  "hw_lck_ticket_lock_allow_invalid xnu fuel tlock =
     bindM (tlock_Lock xnu fuel tlock True) (\<lambda>result. thenM (Yield xnu) (retM result))"

definition hw_lck_ticket_unlock :: "('z lhost_ext) xnu_thread \<Rightarrow> ptr \<Rightarrow> (unit, 'z lhost_scheme) prog" where
  "hw_lck_ticket_unlock xnu tlock = thenM (tlock_Unlock tlock) (Yield xnu)"

section \<open>Hardware and simple locks\<close>

definition hw_lock_init :: "ptr \<Rightarrow> (unit, 'z lhost_scheme) prog" where
  "hw_lock_init sp = bindM AllocateMutex (set_lock_var sp)"

definition hw_lock_try :: "('z lhost_ext) xnu_thread \<Rightarrow> ptr \<Rightarrow> (bool, 'z lhost_scheme) prog" where
  "hw_lock_try xnu sp = thenM (Yield xnu) (bindM (deref sp) mutex_TryLock)"

definition hw_lock_unlock :: "('z lhost_ext) xnu_thread \<Rightarrow> ptr \<Rightarrow> (unit, 'z lhost_scheme) prog" where
  "hw_lock_unlock xnu sp = thenM (bindM (deref sp) mutex_Unlock) (Yield xnu)"

definition hw_lock_held :: "('z lhost_ext) xnu_thread \<Rightarrow> ptr \<Rightarrow> (unit, 'z lhost_scheme) prog" where
  "hw_lock_held xnu sp = thenM (Yield xnu) (bindM (deref sp) mutex_AssertHeld)"

definition hw_lock_to_init :: "ptr \<Rightarrow> (unit, 'z lhost_scheme) prog" where
  "hw_lock_to_init sp = bindM AllocateMutex (set_lock_var sp)"

definition hw_lock_to :: "('z lhost_ext) xnu_thread \<Rightarrow> ptr \<Rightarrow> (bool, 'z lhost_scheme) prog" where
  "hw_lock_to xnu sp = thenM (Yield xnu) (bindM (deref sp) mutex_TryLock)"

definition usimple_lock :: "('z lhost_ext) xnu_thread \<Rightarrow> nat \<Rightarrow> ptr \<Rightarrow> (unit, 'z lhost_scheme) prog" where
  "usimple_lock xnu fuel sp = thenM (Yield xnu) (bindM (deref sp) (mutex_Lock xnu fuel))"

definition usimple_lock_try :: "('z lhost_ext) xnu_thread \<Rightarrow> ptr \<Rightarrow> (bool, 'z lhost_scheme) prog" where
  "usimple_lock_try xnu sp = thenM (Yield xnu) (bindM (deref sp) mutex_TryLock)"

definition usimple_unlock :: "('z lhost_ext) xnu_thread \<Rightarrow> ptr \<Rightarrow> (unit, 'z lhost_scheme) prog" where
  "usimple_unlock xnu sp = thenM (bindM (deref sp) mutex_Unlock) (Yield xnu)"

definition usimple_lock_init :: "ptr \<Rightarrow> (unit, 'z lhost_scheme) prog" where
  "usimple_lock_init sp = bindM AllocateMutex (set_lock_var sp)"

definition usimple_lock_startup_init :: "ptr \<Rightarrow> (unit, 'z lhost_scheme) prog" where
  "usimple_lock_startup_init sp = bindM (deref sp) usimple_lock_init"

definition mutex_pause :: "('z lhost_ext) xnu_thread \<Rightarrow> u32 \<Rightarrow> (unit, 'z lhost_scheme) prog" where
  "mutex_pause xnu collisions = Yield xnu"

definition host_lockgroup_info :: "(unit, 's) prog" where "host_lockgroup_info = retM ()"

definition hw_lock_byte_init :: "(unit, 's) prog" where "hw_lock_byte_init = abortM"

definition hw_wait_while_equals :: "(unit, 's) prog" where "hw_wait_while_equals = abortM"

definition kdp_lck_mtx_find_owner :: "(unit, 's) prog" where "kdp_lck_mtx_find_owner = abortM"

definition kdp_lck_mtx_lock_spin_is_acquired :: "(unit, 's) prog" where "kdp_lck_mtx_lock_spin_is_acquired = abortM"

definition kdp_lck_rw_lock_is_acquired_exclusive :: "(unit, 's) prog" where "kdp_lck_rw_lock_is_acquired_exclusive = abortM"

definition kdp_lck_spin_is_acquired :: "(unit, 's) prog" where "kdp_lck_spin_is_acquired = abortM"

definition kdp_rwlck_find_owner :: "(unit, 's) prog" where "kdp_rwlck_find_owner = abortM"

definition kdp_sleep_with_inheritor_find_owner :: "(unit, 's) prog" where "kdp_sleep_with_inheritor_find_owner = abortM"

section \<open>Pointer locks\<close>

definition lck_ptr_get :: "ptr \<Rightarrow> (vlck_ptr, 'z shost_scheme) prog" where
  "lck_ptr_get p = (\<lambda>s. case lck_ptrs s p of None \<Rightarrow> Stopped MemFault | Some v \<Rightarrow> Done v s)"

definition GetValue :: "ptr \<Rightarrow> (ptr, 'z shost_scheme) prog" where
  "GetValue p = bindM (lck_ptr_get p) (\<lambda>v. retM (protected_value v))"

definition SetValue :: "ptr \<Rightarrow> ptr \<Rightarrow> (unit, 'z shost_scheme) prog" where
  "SetValue p val = bindM (lck_ptr_get p) (\<lambda>v. modifyM (\<lambda>s. s\<lparr>lck_ptrs := (lck_ptrs s)(p \<mapsto> v\<lparr>protected_value := val\<rparr>)\<rparr>))"

definition lp_LockExclusive :: "('z shost_ext lhost_ext) xnu_thread \<Rightarrow> nat \<Rightarrow> ptr \<Rightarrow> (unit, 'z shost_scheme) prog" where
  "lp_LockExclusive xnu fuel p = bindM (lck_ptr_get p) (\<lambda>v. mutex_Lock xnu fuel (lp_mutex v))"

definition lp_UnlockExclusive :: "ptr \<Rightarrow> (unit, 'z shost_scheme) prog" where
  "lp_UnlockExclusive p = bindM (lck_ptr_get p) (\<lambda>v. mutex_Unlock (lp_mutex v))"

definition IsLocked :: "ptr \<Rightarrow> (bool, 'z shost_scheme) prog" where
  "IsLocked p = bindM (lck_ptr_get p) (\<lambda>v. bindM (mutex_get (lp_mutex v)) (\<lambda>m. retM (owner m \<noteq> 0)))"

text \<open>The argument \<open>rounds\<close> bounds the rounds of the loop, \<open>fuel\<close> the resumptions of each lock attempt.\<close>

primrec WaitForValue :: "('z shost_ext lhost_ext) xnu_thread \<Rightarrow> nat \<Rightarrow> nat \<Rightarrow> ptr \<Rightarrow> ptr \<Rightarrow> (unit, 'z shost_scheme) prog" where
  "WaitForValue xnu fuel 0 p val = bindM (GetValue p) (\<lambda>v. if v \<noteq> val then stopM Diverge else retM ())"
| "WaitForValue xnu fuel (Suc rounds) p val =
     bindM (GetValue p) (\<lambda>v.
       if v \<noteq> val
       then thenM (lp_UnlockExclusive p) (thenM (Yield xnu) (thenM (lp_LockExclusive xnu fuel p) (WaitForValue xnu fuel rounds p val)))
       else retM ())"

definition lck_ptr_obj :: "ptr \<Rightarrow> (ptr, 'z shost_scheme) prog" where
  "lck_ptr_obj lck = bindM (getsM (\<lambda>s. lck_ptr_var s lck)) (\<lambda>p. if p = 0 then abortM else retM p)"

definition hw_lck_ptr_init :: "ptr \<Rightarrow> ptr \<Rightarrow> (unit, 'z shost_scheme) prog" where
  "hw_lck_ptr_init lck val =
     bindM new_cell (\<lambda>p. bindM AllocateMutex (\<lambda>m. modifyM (\<lambda>s. s\<lparr>
       lck_ptrs := (lck_ptrs s)(p \<mapsto> \<lparr>lp_mutex = m, protected_value = val\<rparr>), lck_ptr_var := (lck_ptr_var s)(lck := p)\<rparr>)))"

text \<open>Deleting a null pointer does nothing.\<close>

definition hw_lck_ptr_destroy :: "ptr \<Rightarrow> (unit, 'z shost_scheme) prog" where
  "hw_lck_ptr_destroy lck =
     bindM (getsM (\<lambda>s. lck_ptr_var s lck)) (\<lambda>p.
       thenM (whenM (p \<noteq> 0) (bindM (lck_ptr_get p) (\<lambda>v. thenM (FreeMutex (lp_mutex v)) (modifyM (\<lambda>s. s\<lparr>lck_ptrs := (lck_ptrs s)(p := None)\<rparr>)))))
         (modifyM (\<lambda>s. s\<lparr>lck_ptr_var := (lck_ptr_var s)(lck := 0)\<rparr>)))"

definition hw_lck_ptr_value :: "ptr \<Rightarrow> (ptr, 'z shost_scheme) prog" where
  "hw_lck_ptr_value lck = bindM (lck_ptr_obj lck) GetValue"

definition hw_lck_ptr_lock :: "('z shost_ext lhost_ext) xnu_thread \<Rightarrow> nat \<Rightarrow> ptr \<Rightarrow> (ptr, 'z shost_scheme) prog" where
  "hw_lck_ptr_lock xnu fuel lck = bindM (lck_ptr_obj lck) (\<lambda>p. thenM (lp_LockExclusive xnu fuel p) (GetValue p))"

definition hw_lck_ptr_lock_nopreempt :: "('z shost_ext lhost_ext) xnu_thread \<Rightarrow> nat \<Rightarrow> ptr \<Rightarrow> (ptr, 'z shost_scheme) prog" where
  "hw_lck_ptr_lock_nopreempt xnu fuel lck = hw_lck_ptr_lock xnu fuel lck"

definition hw_lck_ptr_unlock :: "ptr \<Rightarrow> ptr \<Rightarrow> (unit, 'z shost_scheme) prog" where
  "hw_lck_ptr_unlock lck val = bindM (lck_ptr_obj lck) (\<lambda>p. thenM (SetValue p val) (lp_UnlockExclusive p))"

definition hw_lck_ptr_unlock_nopreempt :: "ptr \<Rightarrow> ptr \<Rightarrow> (unit, 'z shost_scheme) prog" where
  "hw_lck_ptr_unlock_nopreempt lck val = hw_lck_ptr_unlock lck val"

definition hw_lck_ptr_held :: "ptr \<Rightarrow> (bool, 'z shost_scheme) prog" where
  "hw_lck_ptr_held lck = bindM (lck_ptr_obj lck) IsLocked"

definition hw_lck_ptr_wait_for_value :: "('z shost_ext lhost_ext) xnu_thread \<Rightarrow> nat \<Rightarrow> nat \<Rightarrow> ptr \<Rightarrow> ptr \<Rightarrow> (unit, 'z shost_scheme) prog" where
  "hw_lck_ptr_wait_for_value xnu fuel rounds lck val = bindM (lck_ptr_obj lck) (\<lambda>p. WaitForValue xnu fuel rounds p val)"

definition hw_lck_ptr_wait_for_value_contended :: "('z shost_ext lhost_ext) xnu_thread \<Rightarrow> nat \<Rightarrow> nat \<Rightarrow> ptr \<Rightarrow> ptr \<Rightarrow> (unit, 'z shost_scheme) prog" where
  "hw_lck_ptr_wait_for_value_contended xnu fuel rounds lck val = hw_lck_ptr_wait_for_value xnu fuel rounds lck val"

definition hw_lck_ptr_lock_fastpath :: "('z shost_ext lhost_ext) xnu_thread \<Rightarrow> nat \<Rightarrow> ptr \<Rightarrow> (ptr, 'z shost_scheme) prog" where
  "hw_lck_ptr_lock_fastpath xnu fuel lck = hw_lck_ptr_lock xnu fuel lck"

definition hw_lck_ptr_lock_slow :: "('z shost_ext lhost_ext) xnu_thread \<Rightarrow> nat \<Rightarrow> ptr \<Rightarrow> ptr \<Rightarrow> (ptr, 'z shost_scheme) prog" where
  "hw_lck_ptr_lock_slow xnu fuel lck tmp = hw_lck_ptr_lock xnu fuel lck"

section \<open>Facts on pointer locks\<close>

text \<open>The object of the lock holds the value, and its mutex is free (owner 0) or held.\<close>

definition lck_ptr_at :: "ptr \<Rightarrow> ptr \<Rightarrow> handle \<Rightarrow> 'z shost_scheme \<Rightarrow> bool" where
  "lck_ptr_at lck val h s \<longleftrightarrow> (\<exists>v m. lck_ptr_var s lck \<noteq> 0 \<and> lck_ptrs s (lck_ptr_var s lck) = Some v \<and> protected_value v = val \<and>
     mutexes s (lp_mutex v) = Some m \<and> owner m = h \<and> (\<forall>h \<in> set (waiters m). queue_good h s))"

lemmas lck_ptr_run_defs = lck_ptr_obj_def lck_ptr_get_def GetValue_def SetValue_def lp_LockExclusive_def lp_UnlockExclusive_def IsLocked_def

lemma hw_lck_ptr_lock_runs:
  assumes "lck_ptr_at lck val 0 s"
  shows "\<exists>t. hw_lck_ptr_lock xnu fuel lck s = Done val t \<and> lck_ptr_at lck val (current s) t \<and> current t = current s"
proof -
  from assms obtain v m where v: "lck_ptr_var s lck \<noteq> 0" "lck_ptrs s (lck_ptr_var s lck) = Some v" "protected_value v = val"
    and m: "mutexes s (lp_mutex v) = Some m" "owner m = 0" "\<forall>h \<in> set (waiters m). queue_good h s"
    by (auto simp: lck_ptr_at_def)
  let ?t = "s\<lparr>mutexes := (mutexes s)(lp_mutex v \<mapsto> \<lparr>owner = current s, waiters = remove1 (current s) (waiters m)\<rparr>)\<rparr>"
  have "\<forall>h \<in> set (remove1 (current s) (waiters m)). queue_good h ?t"
    using m(3) set_remove1_subset [of "current s" "waiters m"] by (auto simp: queue_good_def)
  then have "lck_ptr_at lck val (current s) ?t" using v by (simp add: lck_ptr_at_def)
  then show ?thesis using v mutex_Lock_avail [OF m(1,2)]
    by (intro exI [of _ ?t]) (simp add: hw_lck_ptr_lock_def lck_ptr_run_defs)
qed

lemma hw_lck_ptr_unlock_runs:
  assumes "lck_ptr_at lck val (current s) s"
  shows "\<exists>t. hw_lck_ptr_unlock lck new s = Done () t \<and> lck_ptr_at lck new 0 t \<and> current t = current s"
proof -
  from assms obtain v m where v: "lck_ptr_var s lck \<noteq> 0" "lck_ptrs s (lck_ptr_var s lck) = Some v"
    and m: "mutexes s (lp_mutex v) = Some m" "owner m = current s" "\<forall>h \<in> set (waiters m). queue_good h s"
    by (auto simp: lck_ptr_at_def)
  let ?u = "s\<lparr>lck_ptrs := (lck_ptrs s)(lck_ptr_var s lck \<mapsto> v\<lparr>protected_value := new\<rparr>)\<rparr>"
  have "mutexes ?u (lp_mutex v) = Some m" "owner m = current ?u" "\<forall>h \<in> set (waiters m). queue_good h ?u"
    using m by (auto simp: queue_good_def)
  then obtain r where r: "mutex_Unlock (lp_mutex v) ?u = Done () (?u\<lparr>mutexes := (mutexes ?u)(lp_mutex v \<mapsto> m\<lparr>owner := 0\<rparr>), runnable := r\<rparr>)"
    "distinct (runnable ?u) \<longrightarrow> distinct r" using mutex_Unlock_mine [of ?u "lp_mutex v" m] by blast
  let ?t = "?u\<lparr>mutexes := (mutexes ?u)(lp_mutex v \<mapsto> m\<lparr>owner := 0\<rparr>), runnable := r\<rparr>"
  have "lck_ptr_at lck new 0 ?t" using v m r(2) by (auto simp: lck_ptr_at_def queue_good_def)
  then show ?thesis using v r(1) by (intro exI [of _ ?t]) (simp add: hw_lck_ptr_unlock_def lck_ptr_run_defs)
qed

lemma hw_lck_ptr_held_runs: "lck_ptr_at lck val h s \<Longrightarrow> hw_lck_ptr_held lck s = Done (h \<noteq> 0) s"
  by (auto simp: lck_ptr_at_def hw_lck_ptr_held_def lck_ptr_run_defs)

section \<open>Properties\<close>

text \<open>A pointer lock hands its value over. Locking a free pointer lock returns the value and leaves the lock held. Unlocking it
  with a new value frees it, and the next lock returns exactly that value; waiting for that value while holding the lock then
  returns at once and changes nothing. Every operation on a destroyed lock aborts.\<close>

lemma hw_lck_ptr_handoff:
  assumes "lck_ptr_at lck val 0 s" and "current s \<noteq> 0"
  shows "\<exists>t u w. hw_lck_ptr_lock xnu fuel lck s = Done val t \<and> hw_lck_ptr_held lck t = Done True t \<and>
     hw_lck_ptr_unlock lck new t = Done () u \<and> hw_lck_ptr_held lck u = Done False u \<and>
     hw_lck_ptr_lock xnu fuel lck u = Done new w \<and> hw_lck_ptr_wait_for_value xnu fuel rounds lck new w = Done () w \<and>
     (\<forall>d. hw_lck_ptr_destroy lck w = Done () d \<longrightarrow> hw_lck_ptr_lock xnu fuel lck d = Stopped HostAbort \<and>
        hw_lck_ptr_unlock lck new d = Stopped HostAbort \<and> hw_lck_ptr_value lck d = Stopped HostAbort)"
proof -
  obtain t where t: "hw_lck_ptr_lock xnu fuel lck s = Done val t" "lck_ptr_at lck val (current t) t" "current t = current s"
    using hw_lck_ptr_lock_runs [OF assms(1)] by metis
  obtain u where u: "hw_lck_ptr_unlock lck new t = Done () u" "lck_ptr_at lck new 0 u" "current u = current s"
    using hw_lck_ptr_unlock_runs [OF t(2)] t(3) by metis
  obtain w where w: "hw_lck_ptr_lock xnu fuel lck u = Done new w" "lck_ptr_at lck new (current s) w"
    using hw_lck_ptr_lock_runs [OF u(2)] u(3) by metis
  have wait: "hw_lck_ptr_wait_for_value xnu fuel rounds lck new w = Done () w"
    using w(2) by (cases rounds) (auto simp: lck_ptr_at_def hw_lck_ptr_wait_for_value_def lck_ptr_run_defs)
  have "lck_ptr_var d lck = 0" if "hw_lck_ptr_destroy lck w = Done () d" for d
    using that w(2) by (auto simp: lck_ptr_at_def hw_lck_ptr_destroy_def lck_ptr_get_def allocate_defs)
  then have gone: "\<forall>d. hw_lck_ptr_destroy lck w = Done () d \<longrightarrow> hw_lck_ptr_lock xnu fuel lck d = Stopped HostAbort \<and>
        hw_lck_ptr_unlock lck new d = Stopped HostAbort \<and> hw_lck_ptr_value lck d = Stopped HostAbort"
    by (simp add: hw_lck_ptr_lock_def hw_lck_ptr_unlock_def hw_lck_ptr_value_def lck_ptr_obj_def)
  show ?thesis
    using t(1,3) u(1) w(1) wait gone hw_lck_ptr_held_runs [OF t(2)] hw_lck_ptr_held_runs [OF u(2)] assms(2)
    by (intro exI [of _ t] exI [of _ u] exI [of _ w]) simp
qed

definition shost_example :: shost where
  "shost_example = lhost.extend lhost_example
     \<lparr>lck_ptrs = [90 \<mapsto> \<lparr>lp_mutex = 48, protected_value = 1234\<rparr>], lck_ptr_var = (\<lambda>_. 90), new_cells = []\<rparr>"

lemma hw_lck_ptr_handoff_witness:
  "\<exists>t u w. hw_lck_ptr_lock (xnu_idle (\<lambda>_. retM ())) 0 300 shost_example = Done 1234 t \<and>
     hw_lck_ptr_unlock 300 77 t = Done () u \<and> hw_lck_ptr_lock (xnu_idle (\<lambda>_. retM ())) 0 300 u = Done 77 w"
proof -
  have "lck_ptr_at 300 1234 0 shost_example" "current shost_example \<noteq> 0"
    by (simp_all add: shost_example_def lhost.defs lhost_example_def host_example_def host.defs lck_ptr_at_def)
  from hw_lck_ptr_handoff [OF this, of "xnu_idle (\<lambda>_. retM ())" 0 77 0] show ?thesis by blast
qed

end
