(* ===== verification/MachBackend.thy ===== *)
theory MachBackend
  imports ThreadApi SyncShims
begin

text \<open>
  The Mach half of the fuzzer's backend, \<open>fuzz/xnu/osfmk/api/osfmk_backend.c\<close>: one wrapper per Mach trap the fuzzer
  calls, which packs its arguments in the structure of the trap; a random trap by number; threads and tasks; and the
  threads of the concurrency test, which look for one given interleaving of five threads on two locks.

  The traps and the thread functions of XNU are parameters. The messages the test prints are left out.
\<close>

section \<open>Start-up\<close>

definition osfmk_bootstrap ::
  "(unit, 'z host_scheme) prog \<Rightarrow> (thread_t, 'z host_scheme) prog \<Rightarrow> (unit, 'z host_scheme) prog" where
  "osfmk_bootstrap processor_bootstrap thread_bootstrap =
     thenM processor_bootstrap (bindM thread_bootstrap machine_set_current_thread)"

section \<open>Mach traps\<close>

text \<open>A trap and the fields of its argument structure, in the order the wrappers fill them in. \<open>mach_port_name_t\<close> and the
  other \<open>natural_t\<close> types are \<open>u32\<close>, addresses and sizes \<open>u64\<close>. A trap answers 32 bits, which the wrapper passes on
  (as an \<open>int\<close>, without changing them).\<close>

datatype mach_trap_call =
    Mach_vm_allocate u32 u64 u64 int
  | Mach_vm_purgable_control u32 u64 int u64
  | Mach_vm_deallocate u32 u64 u64
  | Task_dyld_process_info_notify_get u64 u64
  | Mach_vm_protect u32 u64 u64 bool int
  | Mach_vm_map u32 u64 u64 u64 int int
  | Mach_port_allocate u32 u32 u64
  | Mach_port_deallocate u32 u32
  | Mach_port_mod_refs u32 u32 u32 int
  | Mach_port_move_member u32 u32 u32
  | Mach_port_insert_right u32 u32 u32 u32
  | Mach_port_insert_member u32 u32 u32
  | Mach_port_extract_member u32 u32 u32
  | Mach_port_construct u32 u64 u64 u64
  | Mach_port_destruct u32 u32 int u64
  | Mach_reply_port
  | Thread_self_trap
  | Task_self_trap
  | Host_self_trap
  | Mach_msg_trap u64 int u32 u32 u32 u32 u32 u64
  | Mach_msg2_trap u64 u64 u64 u64 u64 u64 u64 u64
  | Mach_msg_overwrite_trap u64 int u32 u32 u32 u32 u32 u64
  | Host_create_mach_voucher u32 u64 int u64
  | Mach_voucher_extract_attr_recipe u32 u32 u64 u64
  | Mach_port_request_notification u32 u32 int u32 u32 u32 u64
  | Thread_get_special_reply_port
  | Mk_timer_create
  | Mk_timer_destroy u32
  | Mk_timer_arm u32 u64
  | Mk_timer_cancel u32 u64
  | Mk_timer_arm_leeway u32 u64 u64 u64

definition kernelrpc_mach_vm_allocate_trap_wrapper ::
  "(mach_trap_call \<Rightarrow> (u32, 's) prog) \<Rightarrow> u32 \<Rightarrow> u64 \<Rightarrow> u64 \<Rightarrow> int \<Rightarrow> (u32, 's) prog" where
  "kernelrpc_mach_vm_allocate_trap_wrapper trap target addr sz flags = trap (Mach_vm_allocate target addr sz flags)"

definition kernelrpc_mach_vm_purgable_control_trap_wrapper ::
  "(mach_trap_call \<Rightarrow> (u32, 's) prog) \<Rightarrow> u32 \<Rightarrow> u64 \<Rightarrow> int \<Rightarrow> u64 \<Rightarrow> (u32, 's) prog" where
  "kernelrpc_mach_vm_purgable_control_trap_wrapper trap target address control state = trap (Mach_vm_purgable_control target address control state)"

definition kernelrpc_mach_vm_deallocate_trap_wrapper ::
  "(mach_trap_call \<Rightarrow> (u32, 's) prog) \<Rightarrow> u32 \<Rightarrow> u64 \<Rightarrow> u64 \<Rightarrow> (u32, 's) prog" where
  "kernelrpc_mach_vm_deallocate_trap_wrapper trap target address sz = trap (Mach_vm_deallocate target address sz)"

definition task_dyld_process_info_notify_get_trap_wrapper ::
  "(mach_trap_call \<Rightarrow> (u32, 's) prog) \<Rightarrow> u64 \<Rightarrow> u64 \<Rightarrow> (u32, 's) prog" where
  "task_dyld_process_info_notify_get_trap_wrapper trap names_addr names_count_addr = trap (Task_dyld_process_info_notify_get names_addr names_count_addr)"

definition kernelrpc_mach_vm_protect_trap_wrapper ::
  "(mach_trap_call \<Rightarrow> (u32, 's) prog) \<Rightarrow> u32 \<Rightarrow> u64 \<Rightarrow> u64 \<Rightarrow> bool \<Rightarrow> int \<Rightarrow> (u32, 's) prog" where
  "kernelrpc_mach_vm_protect_trap_wrapper trap target address sz set_maximum new_protection = trap (Mach_vm_protect target address sz set_maximum new_protection)"

definition kernelrpc_mach_vm_map_trap_wrapper ::
  "(mach_trap_call \<Rightarrow> (u32, 's) prog) \<Rightarrow> u32 \<Rightarrow> u64 \<Rightarrow> u64 \<Rightarrow> u64 \<Rightarrow> int \<Rightarrow> int \<Rightarrow> (u32, 's) prog" where
  "kernelrpc_mach_vm_map_trap_wrapper trap target addr sz align_mask flags cur_protection = trap (Mach_vm_map target addr sz align_mask flags cur_protection)"

definition kernelrpc_mach_port_allocate_trap_wrapper ::
  "(mach_trap_call \<Rightarrow> (u32, 's) prog) \<Rightarrow> u32 \<Rightarrow> u32 \<Rightarrow> u64 \<Rightarrow> (u32, 's) prog" where
  "kernelrpc_mach_port_allocate_trap_wrapper trap target right name = trap (Mach_port_allocate target right name)"

definition kernelrpc_mach_port_deallocate_trap_wrapper ::
  "(mach_trap_call \<Rightarrow> (u32, 's) prog) \<Rightarrow> u32 \<Rightarrow> u32 \<Rightarrow> (u32, 's) prog" where
  "kernelrpc_mach_port_deallocate_trap_wrapper trap target name = trap (Mach_port_deallocate target name)"

definition kernelrpc_mach_port_mod_refs_trap_wrapper ::
  "(mach_trap_call \<Rightarrow> (u32, 's) prog) \<Rightarrow> u32 \<Rightarrow> u32 \<Rightarrow> u32 \<Rightarrow> int \<Rightarrow> (u32, 's) prog" where
  "kernelrpc_mach_port_mod_refs_trap_wrapper trap target name right delta = trap (Mach_port_mod_refs target name right delta)"

definition kernelrpc_mach_port_move_member_trap_wrapper ::
  "(mach_trap_call \<Rightarrow> (u32, 's) prog) \<Rightarrow> u32 \<Rightarrow> u32 \<Rightarrow> u32 \<Rightarrow> (u32, 's) prog" where
  "kernelrpc_mach_port_move_member_trap_wrapper trap target member after = trap (Mach_port_move_member target member after)"

definition kernelrpc_mach_port_insert_right_trap_wrapper ::
  "(mach_trap_call \<Rightarrow> (u32, 's) prog) \<Rightarrow> u32 \<Rightarrow> u32 \<Rightarrow> u32 \<Rightarrow> u32 \<Rightarrow> (u32, 's) prog" where
  "kernelrpc_mach_port_insert_right_trap_wrapper trap target name poly polyPoly = trap (Mach_port_insert_right target name poly polyPoly)"

definition kernelrpc_mach_port_insert_member_trap_wrapper ::
  "(mach_trap_call \<Rightarrow> (u32, 's) prog) \<Rightarrow> u32 \<Rightarrow> u32 \<Rightarrow> u32 \<Rightarrow> (u32, 's) prog" where
  "kernelrpc_mach_port_insert_member_trap_wrapper trap target name pset = trap (Mach_port_insert_member target name pset)"

definition kernelrpc_mach_port_extract_member_trap_wrapper ::
  "(mach_trap_call \<Rightarrow> (u32, 's) prog) \<Rightarrow> u32 \<Rightarrow> u32 \<Rightarrow> u32 \<Rightarrow> (u32, 's) prog" where
  "kernelrpc_mach_port_extract_member_trap_wrapper trap target name pset = trap (Mach_port_extract_member target name pset)"

definition kernelrpc_mach_port_construct_trap_wrapper ::
  "(mach_trap_call \<Rightarrow> (u32, 's) prog) \<Rightarrow> u32 \<Rightarrow> u64 \<Rightarrow> u64 \<Rightarrow> u64 \<Rightarrow> (u32, 's) prog" where
  "kernelrpc_mach_port_construct_trap_wrapper trap target options ctxt name = trap (Mach_port_construct target options ctxt name)"

definition kernelrpc_mach_port_destruct_trap_wrapper ::
  "(mach_trap_call \<Rightarrow> (u32, 's) prog) \<Rightarrow> u32 \<Rightarrow> u32 \<Rightarrow> int \<Rightarrow> u64 \<Rightarrow> (u32, 's) prog" where
  "kernelrpc_mach_port_destruct_trap_wrapper trap target name srdelta guard = trap (Mach_port_destruct target name srdelta guard)"

definition mach_reply_port_wrapper ::
  "(mach_trap_call \<Rightarrow> (u32, 's) prog) \<Rightarrow> (u32, 's) prog" where
  "mach_reply_port_wrapper trap = trap Mach_reply_port"

definition thread_self_trap_wrapper ::
  "(mach_trap_call \<Rightarrow> (u32, 's) prog) \<Rightarrow> (u32, 's) prog" where
  "thread_self_trap_wrapper trap = trap Thread_self_trap"

definition task_self_trap_wrapper ::
  "(mach_trap_call \<Rightarrow> (u32, 's) prog) \<Rightarrow> (u32, 's) prog" where
  "task_self_trap_wrapper trap = trap Task_self_trap"

definition host_self_trap_wrapper ::
  "(mach_trap_call \<Rightarrow> (u32, 's) prog) \<Rightarrow> (u32, 's) prog" where
  "host_self_trap_wrapper trap = trap Host_self_trap"

definition mach_msg_trap_wrapper ::
  "(mach_trap_call \<Rightarrow> (u32, 's) prog) \<Rightarrow> u64 \<Rightarrow> int \<Rightarrow> u32 \<Rightarrow> u32 \<Rightarrow> u32 \<Rightarrow> u32 \<Rightarrow> u32 \<Rightarrow> u64 \<Rightarrow> (u32, 's) prog" where
  "mach_msg_trap_wrapper trap msg option_bits send_size rcv_size rcv_name timeout prio rcv_msg = trap (Mach_msg_trap msg option_bits send_size rcv_size rcv_name timeout prio rcv_msg)"

definition mach_msg2_trap_wrapper ::
  "(mach_trap_call \<Rightarrow> (u32, 's) prog) \<Rightarrow> u64 \<Rightarrow> u64 \<Rightarrow> u64 \<Rightarrow> u64 \<Rightarrow> u64 \<Rightarrow> u64 \<Rightarrow> u64 \<Rightarrow> u64 \<Rightarrow> (u32, 's) prog" where
  "mach_msg2_trap_wrapper trap data options msgh_bits_and_send_size msgh_remote_and_local_port msgh_voucher_and_id desc_count_and_rcv_name rcv_size_and_priority timeout = trap (Mach_msg2_trap data options msgh_bits_and_send_size msgh_remote_and_local_port msgh_voucher_and_id desc_count_and_rcv_name rcv_size_and_priority timeout)"

definition mach_msg_overwrite_trap_wrapper ::
  "(mach_trap_call \<Rightarrow> (u32, 's) prog) \<Rightarrow> u64 \<Rightarrow> int \<Rightarrow> u32 \<Rightarrow> u32 \<Rightarrow> u32 \<Rightarrow> u32 \<Rightarrow> u32 \<Rightarrow> u64 \<Rightarrow> (u32, 's) prog" where
  "mach_msg_overwrite_trap_wrapper trap msg option_bits send_size rcv_size rcv_name timeout prio rcv_msg = trap (Mach_msg_overwrite_trap msg option_bits send_size rcv_size rcv_name timeout prio rcv_msg)"

definition host_create_mach_voucher_trap_wrapper ::
  "(mach_trap_call \<Rightarrow> (u32, 's) prog) \<Rightarrow> u32 \<Rightarrow> u64 \<Rightarrow> int \<Rightarrow> u64 \<Rightarrow> (u32, 's) prog" where
  "host_create_mach_voucher_trap_wrapper trap host_name recipes recipes_size voucher = trap (Host_create_mach_voucher host_name recipes recipes_size voucher)"

definition mach_voucher_extract_attr_recipe_trap_wrapper ::
  "(mach_trap_call \<Rightarrow> (u32, 's) prog) \<Rightarrow> u32 \<Rightarrow> u32 \<Rightarrow> u64 \<Rightarrow> u64 \<Rightarrow> (u32, 's) prog" where
  "mach_voucher_extract_attr_recipe_trap_wrapper trap voucher_name key recipe recipe_size = trap (Mach_voucher_extract_attr_recipe voucher_name key recipe recipe_size)"

definition kernelrpc_mach_port_request_notification_trap_wrapper ::
  "(mach_trap_call \<Rightarrow> (u32, 's) prog) \<Rightarrow> u32 \<Rightarrow> u32 \<Rightarrow> int \<Rightarrow> u32 \<Rightarrow> u32 \<Rightarrow> u32 \<Rightarrow> u64 \<Rightarrow> (u32, 's) prog" where
  "kernelrpc_mach_port_request_notification_trap_wrapper trap target name msgid sync notify notifyPoly previous = trap (Mach_port_request_notification target name msgid sync notify notifyPoly previous)"

definition thread_get_special_reply_port_wrapper ::
  "(mach_trap_call \<Rightarrow> (u32, 's) prog) \<Rightarrow> (u32, 's) prog" where
  "thread_get_special_reply_port_wrapper trap = trap Thread_get_special_reply_port"

definition mk_timer_create_trap_wrapper ::
  "(mach_trap_call \<Rightarrow> (u32, 's) prog) \<Rightarrow> (u32, 's) prog" where
  "mk_timer_create_trap_wrapper trap = trap Mk_timer_create"

definition mk_timer_destroy_trap_wrapper ::
  "(mach_trap_call \<Rightarrow> (u32, 's) prog) \<Rightarrow> u32 \<Rightarrow> (u32, 's) prog" where
  "mk_timer_destroy_trap_wrapper trap name = trap (Mk_timer_destroy name)"

definition mk_timer_arm_trap_wrapper ::
  "(mach_trap_call \<Rightarrow> (u32, 's) prog) \<Rightarrow> u32 \<Rightarrow> u64 \<Rightarrow> (u32, 's) prog" where
  "mk_timer_arm_trap_wrapper trap name expire_time = trap (Mk_timer_arm name expire_time)"

definition mk_timer_cancel_trap_wrapper ::
  "(mach_trap_call \<Rightarrow> (u32, 's) prog) \<Rightarrow> u32 \<Rightarrow> u64 \<Rightarrow> (u32, 's) prog" where
  "mk_timer_cancel_trap_wrapper trap name result_time = trap (Mk_timer_cancel name result_time)"

definition mk_timer_arm_leeway_trap_wrapper ::
  "(mach_trap_call \<Rightarrow> (u32, 's) prog) \<Rightarrow> u32 \<Rightarrow> u64 \<Rightarrow> u64 \<Rightarrow> u64 \<Rightarrow> (u32, 's) prog" where
  "mk_timer_arm_leeway_trap_wrapper trap name mk_timer_flags expire_time mk_leeway = trap (Mk_timer_arm_leeway name mk_timer_flags expire_time mk_leeway)"

definition counter_dec_preemption_disabled :: "u64 \<Rightarrow> u64" where
  "counter_dec_preemption_disabled counter = counter - 1"

section \<open>Threads and tasks\<close>

record tstate = shost +
  t_task :: "thread_t \<rightharpoonup> ptr"
  sync_initialized :: bool
  current_index :: nat
  failed :: bool
  num_expected :: nat

record 'z xnu_task =
  kernel_thread_create :: "ptr \<Rightarrow> ptr \<Rightarrow> int \<Rightarrow> (thread_t, 'z tstate_scheme) prog"
  kernel_task :: ptr
  main_thread_create_waiting :: "ptr \<Rightarrow> ptr \<Rightarrow> u64 \<Rightarrow> (int \<times> thread_t, 'z tstate_scheme) prog"
  task_wait_to_return :: ptr
  task_get_return_wait_event :: "ptr \<Rightarrow> u64"
  cloneproc :: "ptr \<Rightarrow> (thread_t, 'z tstate_scheme) prog"
  get_bsdtask_info :: "ptr \<Rightarrow> ptr"
  proc_signalend :: "ptr \<Rightarrow> (unit, 'z tstate_scheme) prog"
  proc_transend :: "ptr \<Rightarrow> (unit, 'z tstate_scheme) prog"
  task_clear_return_wait :: "ptr \<Rightarrow> u32 \<Rightarrow> (unit, 'z tstate_scheme) prog"
  task_deallocate :: "ptr \<Rightarrow> (unit, 'z tstate_scheme) prog"
  TCRW_CLEAR_ALL_WAIT :: u32
  mach_trap_count :: u32
  mach_trap_arg_count :: "u32 \<Rightarrow> nat"
  mach_trap_function :: "u32 \<Rightarrow> ptr \<Rightarrow> (int, 'z tstate_scheme) prog"
  thread_yield_internal :: "u64 \<Rightarrow> (unit, 'z tstate_scheme) prog"
  vm_fault :: "ptr \<Rightarrow> u64 \<Rightarrow> int \<Rightarrow> bool \<Rightarrow> u32 \<Rightarrow> u32 \<Rightarrow> ptr \<Rightarrow> u64 \<Rightarrow> (unit, 'z tstate_scheme) prog"
  thread_map :: "thread_t \<Rightarrow> ptr"
  VM_KERN_MEMORY_NONE :: u32

definition GetTaskFromThread :: "thread_t \<Rightarrow> (ptr, 'z tstate_scheme) prog" where
  "GetTaskFromThread th = (\<lambda>s. case t_task s th of None \<Rightarrow> Stopped MemFault | Some k \<Rightarrow> Done k s)"

text \<open>A failed creation leaves the thread NULL, and storing its task faults.\<close>

definition CreateKernelThread :: "'z xnu_task \<Rightarrow> (thread_t, 'z tstate_scheme) prog" where
  "CreateKernelThread xk =
     bindM (kernel_thread_create xk 0 0 0) (\<lambda>th.
     thenM (if th = 0 then stopM MemFault else modifyM (\<lambda>s. s\<lparr>t_task := (t_task s)(th \<mapsto> kernel_task xk)\<rparr>)) (retM th))"

definition XNUThreadGetThreadName :: "(thread_t \<Rightarrow> string) \<Rightarrow> thread_t \<Rightarrow> string" where
  "XNUThreadGetThreadName thread_name th = thread_name th"

definition CreateWaitingThread :: "'z xnu_task \<Rightarrow> ptr \<Rightarrow> (thread_t, 'z tstate_scheme) prog" where
  "CreateWaitingThread xk task =
     bindM (main_thread_create_waiting xk task (task_wait_to_return xk) (task_get_return_wait_event xk task)) (\<lambda>(kr, th).
       if kr \<noteq> 0 then retM 0 else retM th)"

definition CloneTask :: "'z xnu_task \<Rightarrow> ptr \<Rightarrow> (thread_t, 'z tstate_scheme) prog" where
  "CloneTask xk task =
     bindM (cloneproc xk (get_bsdtask_info xk task)) (\<lambda>th.
     bindM (GetTaskFromThread th) (\<lambda>k.
     thenM (proc_signalend xk (get_bsdtask_info xk k))
    (bindM (GetTaskFromThread th) (\<lambda>k. thenM (proc_transend xk (get_bsdtask_info xk k)) (retM th)))))"

definition ClearTaskWait :: "'z xnu_task \<Rightarrow> ptr \<Rightarrow> (unit, 'z tstate_scheme) prog" where
  "ClearTaskWait xk task = thenM (task_clear_return_wait xk task (TCRW_CLEAR_ALL_WAIT xk)) (task_deallocate xk task)"

definition GetProcFromTask :: "'z xnu_task \<Rightarrow> ptr \<Rightarrow> ptr" where
  "GetProcFromTask xk task = get_bsdtask_info xk task"

definition DoVmFault :: "('z tstate_ext shost_ext lhost_ext) xnu_thread \<Rightarrow> 'z xnu_task \<Rightarrow> u64 \<Rightarrow> int \<Rightarrow> (unit, 'z tstate_scheme) prog" where
  "DoVmFault xnu xk address access =
     bindM (getsM current_thread) (\<lambda>th.
       vm_fault xk (thread_map xk th) address access False (VM_KERN_MEMORY_NONE xk) (THREAD_ABORTSAFE xnu) 0 0)"

section \<open>A random trap\<close>

text \<open>\<open>size\<close> is cut to the size of the arguments and then not used: the data never reaches the trap.\<close>

definition DoRandomMachTrap :: "'z xnu_task \<Rightarrow> u32 \<Rightarrow> ptr \<Rightarrow> nat \<Rightarrow> (unit, 'z tstate_scheme) prog" where
  "DoRandomMachTrap xk number data sz =
     (if mach_trap_count xk = 0 then stopM MemFault else
      let number = number mod mach_trap_count xk; argument_size = mach_trap_arg_count xk number * 8 in
      bindM (heapM (calloc 1 argument_size)) (\<lambda>arguments.
        if arguments = 0 then retM ()
        else thenM BlockCopyin
          (bindM (mach_trap_function xk number arguments) (\<lambda>_.
           thenM UnblockCopyin (heapM (free arguments))))))"

section \<open>The concurrency test\<close>

definition expected_order :: "nat list" where
  "expected_order = [4, 0, 2, 2, 1, 4, 3, 4, 3, 0, 4, 0, 2, 2, 1, 3, 0, 3, 2, 0, 1, 3, 1, 2, 0, 1, 4, 2, 3]"

definition HostTestInit :: "ptr \<Rightarrow> ptr \<Rightarrow> (unit, 'z tstate_scheme) prog" where
  "HostTestInit test_mtx test_rw =
     thenM (bindM (getsM sync_initialized) (\<lambda>b. whenM (\<not> b) (thenM (lck_mtx_init test_mtx) (lck_rw_init test_rw))))
       (modifyM (\<lambda>s. s\<lparr>current_index := 0, failed := False\<rparr>))"

definition check_state :: "nat \<Rightarrow> (bool, 'z tstate_scheme) prog" where
  "check_state tid = (\<lambda>s.
     if failed s then Done False s
     else if current_index s \<ge> length expected_order then Done True s
     else let expected_id = expected_order ! current_index s; s = s\<lparr>current_index := current_index s + 1\<rparr> in
       if tid \<noteq> expected_id then Done False (s\<lparr>failed := True\<rparr>)
       else let s = (if num_expected s = 0 then s\<lparr>num_expected := length expected_order\<rparr> else s) in
         if current_index s \<ge> num_expected s then Stopped HostAbort
         else Done True s)"

datatype LOCK_TEST = YIELD | MUTEX | READ_WRITE_SHARED | READ_WRITE_EXCLUSIVE | MUTEX2 | READ_WRITE_SHARED2 | READ_WRITE_EXCLUSIVE2

fun lock_test :: "nat \<Rightarrow> LOCK_TEST option" where
  "lock_test tid =
     (if tid < 7 then Some ([YIELD, MUTEX, READ_WRITE_SHARED, READ_WRITE_EXCLUSIVE, MUTEX2, READ_WRITE_SHARED2, READ_WRITE_EXCLUSIVE2] ! tid)
      else None)"

definition test_round ::
  "('z tstate_ext shost_ext lhost_ext) xnu_thread \<Rightarrow> 'z xnu_task \<Rightarrow> nat \<Rightarrow> ptr \<Rightarrow> ptr \<Rightarrow> nat \<Rightarrow> (bool, 'z tstate_scheme) prog" where
  "test_round xnu xk fuel test_mtx test_rw tid = (case lock_test tid of
       None \<Rightarrow> abortM
     | Some YIELD \<Rightarrow> thenM (thread_yield_internal xk 1) (check_state tid)
     | Some t \<Rightarrow>
         if t = MUTEX \<or> t = MUTEX2
         then thenM (lck_mtx_lock xnu fuel test_mtx)
             (bindM (check_state tid) (\<lambda>passed. thenM (lck_mtx_unlock xnu test_mtx) (retM passed)))
         else if t = READ_WRITE_SHARED \<or> t = READ_WRITE_SHARED2
         then thenM (lck_rw_lock_shared xnu fuel test_rw)
             (bindM (check_state tid) (\<lambda>passed. thenM (lck_rw_unlock_shared xnu fuel test_rw) (retM passed)))
         else thenM (lck_rw_lock_exclusive xnu fuel test_rw)
             (bindM (check_state tid) (\<lambda>passed. thenM (lck_rw_unlock_exclusive xnu test_rw) (retM passed))))"

text \<open>The argument \<open>rounds\<close> bounds the rounds of the loop.\<close>

primrec HostTestThread ::
  "('z tstate_ext shost_ext lhost_ext) xnu_thread \<Rightarrow> 'z xnu_task \<Rightarrow> nat \<Rightarrow> nat \<Rightarrow> ptr \<Rightarrow> ptr \<Rightarrow> nat \<Rightarrow> (unit, 'z tstate_scheme) prog" where
  "HostTestThread xnu xk fuel 0 test_mtx test_rw tid = stopM Diverge"
| "HostTestThread xnu xk fuel (Suc rounds) test_mtx test_rw tid =
     bindM (test_round xnu xk fuel test_mtx test_rw tid) (\<lambda>passed.
       if passed then HostTestThread xnu xk fuel rounds test_mtx test_rw tid else retM ())"

section \<open>Properties\<close>

primrec check_all :: "nat list \<Rightarrow> (bool list, 'z tstate_scheme) prog" where
  "check_all [] = retM []"
| "check_all (i # ids) = bindM (check_state i) (\<lambda>b. bindM (check_all ids) (\<lambda>bs. retM (b # bs)))"

lemma check_all_failed: "failed s \<Longrightarrow> check_all ids s = Done (replicate (length ids) False) s"
  by (induction ids) (simp_all add: check_state_def)

lemma check_all_from:
  fixes s :: "'z tstate_scheme"
  assumes "\<not> failed s" "num_expected s = 10" "current_index s < 10" "drop (current_index s) (take 10 expected_order) = rest"
  shows "if take (length rest) ids = rest then check_all ids s = Stopped HostAbort
     else \<exists>t. check_all ids s = Done (map (\<lambda>i. take (Suc i) ids = take (Suc i) rest) [0 ..< length ids]) t"
  using assms
proof (induction ids arbitrary: s rest)
  case Nil
  then have "rest \<noteq> []" by (auto simp: expected_order_def)
  then show ?case by simp
next
  case (Cons i ids)
  let ?k = "current_index s"
  have len: "length (take 10 expected_order) = 10" "10 < length expected_order" by (simp_all add: expected_order_def)
  then have rest: "rest = (expected_order ! ?k) # drop (Suc ?k) (take 10 expected_order)"
    using Cons.prems(3,4) by (simp add: Cons_nth_drop_Suc [symmetric])
  show ?case
  proof (cases "i = expected_order ! ?k")
    case False
    let ?t = "s\<lparr>current_index := ?k + 1, failed := True\<rparr>"
    have "check_state i s = Done False ?t" using False Cons.prems len by (simp add: check_state_def Let_def)
    moreover have "check_all ids ?t = Done (replicate (length ids) False) ?t" by (intro check_all_failed) simp
    moreover have "map (\<lambda>j. take (Suc j) (i # ids) = take (Suc j) rest) [0 ..< length (i # ids)] = False # replicate (length ids) False"
      using False rest by (simp add: map_replicate_const del: upt_Suc)
    ultimately show ?thesis using False rest by simp
  next
    case True
    let ?t = "s\<lparr>current_index := ?k + 1\<rparr>" and ?r = "drop (Suc ?k) (take 10 expected_order)"
    have "check_state i s = (if 10 \<le> ?k + 1 then Stopped HostAbort else Done True ?t)"
      using True Cons.prems len by (simp add: check_state_def Let_def)
    moreover have "?r = []" if "10 \<le> ?k + 1" using that len by simp
    moreover have "if take (length ?r) ids = ?r then check_all ids ?t = Stopped HostAbort
        else \<exists>u. check_all ids ?t = Done (map (\<lambda>i. take (Suc i) ids = take (Suc i) ?r) [0 ..< length ids]) u" if "\<not> 10 \<le> ?k + 1"
      using that Cons.prems by (intro Cons.IH) simp_all
    moreover have "map (\<lambda>j. take (Suc j) (i # ids) = take (Suc j) rest) [0 ..< length (i # ids)] =
        True # map (\<lambda>i. take (Suc i) ids = take (Suc i) ?r) [0 ..< length ids]"
      using True rest by (simp add: upt_conv_Cons map_Suc_upt [symmetric] del: upt_Suc)
    ultimately show ?thesis using True rest by (cases "10 \<le> ?k + 1") (auto split: if_splits)
  qed
qed

text \<open>The concurrency test stops the fuzzer exactly on the interleaving it looks for. After \<open>HostTestInit\<close>, with ten
  steps expected, let the threads report the numbers \<open>ids\<close> in this order. When the first ten are the first ten of
  \<open>expected_order\<close> the tenth report aborts. Otherwise no report does, and each one answers whether all reports so far agree with
  \<open>expected_order\<close>: once one differs, every thread that reports stops.\<close>

lemma check_state_order:
  fixes s :: "'z tstate_scheme"
  assumes init: "HostTestInit test_mtx test_rw s = Done () t" and ten: "num_expected s = 10"
  shows "if take 10 ids = take 10 expected_order then check_all ids t = Stopped HostAbort
     else \<exists>u. check_all ids t = Done (map (\<lambda>i. take (Suc i) ids = take (Suc i) (take 10 expected_order)) [0 ..< length ids]) u"
proof -
  have "\<not> failed t \<and> current_index t = 0 \<and> num_expected t = 10"
    using init ten
    by (auto simp: HostTestInit_def lck_mtx_init_def lck_rw_init_def allocate_defs set_lock_var_def
        split: list.splits outcome.splits if_splits)
  moreover have "length (take 10 expected_order) = 10" by (simp add: expected_order_def)
  ultimately show ?thesis using check_all_from [of t "take 10 expected_order" ids] by simp
qed

definition tstate_example :: tstate where
  "tstate_example = shost.extend (shost_example\<lparr>new_syncs := [60, 61, 62]\<rparr>)
     \<lparr>t_task = Map.empty, sync_initialized = False, current_index = 3, failed = True, num_expected = 10\<rparr>"

lemma check_state_order_witness:
  "\<exists>t u. HostTestInit 400 440 tstate_example = Done () t \<and> check_all (take 10 expected_order) t = Stopped HostAbort \<and>
     check_all [4, 0, 1, 2] t = Done [True, True, False, False] u"
proof -
  obtain t where t: "HostTestInit 400 440 tstate_example = Done () t"
    by (simp add: tstate_example_def shost.defs HostTestInit_def lck_mtx_init_def lck_rw_init_def allocate_defs
        set_lock_var_def)
  have ten: "num_expected tstate_example = 10" by (simp add: tstate_example_def shost.defs)
  have "check_all (take 10 expected_order) t = Stopped HostAbort"
    using check_state_order [OF t ten, of "take 10 expected_order"] by simp
  moreover have "\<exists>u. check_all [4, 0, 1, 2] t = Done [True, True, False, False] u"
    using check_state_order [OF t ten, of "[4, 0, 1, 2]"] by (simp add: expected_order_def upt_rec)
  ultimately show ?thesis using t by blast
qed

text \<open>A random Mach trap never sees its data. The trap gets an argument block of zeros of the size its table entry asks for, with
  copyio blocked once more, whatever data and size the caller passes: the outcome is the same for all of them. When the trap
  returns, the block is freed, the live blocks are those from before and copyio is blocked as before.\<close>

lemma DoRandomMachTrap_ignores_data:
  fixes s :: "'z tstate_scheme"
  assumes wf: "heap_wf (mheap s)" and tab: "mach_trap_count xk \<noteq> 0" "k = number mod mach_trap_count xk"
    and unbl: "copyin_blocked s (current s) \<noteq> - 1"
    and call: "\<And>arguments u. IsCopyioBlocked u \<Longrightarrow> current u = current s \<Longrightarrow> heap_wf (mheap u) \<Longrightarrow>
        block_size (mheap u) arguments = Some (mach_trap_arg_count xk k * 8) \<Longrightarrow>
        read_bytes (mheap u) arguments (mach_trap_arg_count xk k * 8) = replicate (mach_trap_arg_count xk k * 8) 0 \<Longrightarrow>
        \<exists>r t. mach_trap_function xk k arguments u = Done r t \<and> heap_wf (mheap t) \<and> block_size (mheap t) = block_size (mheap u) \<and>
          copyin_blocked t = copyin_blocked u \<and> current t = current u"
  shows "\<exists>t. (\<forall>data sz. DoRandomMachTrap xk number data sz s = Done () t) \<and> live_blocks t = live_blocks s \<and>
     copyin_blocked t = copyin_blocked s"
proof -
  let ?n = "mach_trap_arg_count xk k * 8"
  obtain p a where a: "calloc 1 ?n (mheap s) = Done p a" "heap_wf a"
    "p = 0 \<and> block_size a = block_size (mheap s) \<or>
      p \<noteq> 0 \<and> block_size (mheap s) p = None \<and> block_size a = (block_size (mheap s))(p \<mapsto> ?n) \<and> read_bytes a p ?n = replicate ?n 0"
    using calloc_runs [OF wf, of 1 ?n] by auto
  show ?thesis
  proof (cases "p = 0")
    case True
    then show ?thesis using a tab by (intro exI [of _ "s\<lparr>mheap := a\<rparr>"]) (simp add: DoRandomMachTrap_def Let_def live_blocks_def)
  next
    case nz: False
    then have live: "block_size a p = Some ?n" "block_size (mheap s) p = None" "block_size a = (block_size (mheap s))(p \<mapsto> ?n)"
      "read_bytes a p ?n = replicate ?n 0" using a(3) by auto
    let ?u = "s\<lparr>mheap := a, copyin_blocked := (copyin_blocked s)(current s := copyin_blocked s (current s) + 1)\<rparr>"
    have "IsCopyioBlocked ?u" using unbl by (simp add: IsCopyioBlocked_def word_gt_0 eq_neg_iff_add_eq_0)
    then obtain r t where t: "mach_trap_function xk k p ?u = Done r t" "heap_wf (mheap t)" "block_size (mheap t) = block_size a"
      "copyin_blocked t = copyin_blocked ?u" "current t = current s"
      using call [of ?u p] live a(2) by auto
    let ?v = "t\<lparr>copyin_blocked := copyin_blocked s\<rparr>"
    have ub: "UnblockCopyin t = Done () ?v" using t(4,5) by (simp add: UnblockCopyin_def fun_eq_iff)
    obtain f where f: "free p (mheap t) = Done () f" "block_size f = (block_size (mheap t))(p := None)"
      using free_live [OF t(2), of p ?n] t(3) live(1) by auto
    have "block_size f = block_size (mheap s)" using f(2) t(3) live(2,3) by (auto simp: fun_eq_iff)
    moreover have "DoRandomMachTrap xk number data sz s = Done () (?v\<lparr>mheap := f\<rparr>)" for data sz
      using a(1) t(1) ub f(1) nz tab by (simp add: DoRandomMachTrap_def Let_def BlockCopyin_def)
    ultimately show ?thesis by (intro exI [of _ "?v\<lparr>mheap := f\<rparr>"]) (simp add: live_blocks_def)
  qed
qed

definition xk_example :: "'z xnu_task" where
  "xk_example = \<lparr>kernel_thread_create = (\<lambda>_ _ _. retM 0), kernel_task = 0, main_thread_create_waiting = (\<lambda>_ _ _. retM (5, 0)),
     task_wait_to_return = 0, task_get_return_wait_event = (\<lambda>_. 0), cloneproc = (\<lambda>_. retM 0), get_bsdtask_info = (\<lambda>k. k),
     proc_signalend = (\<lambda>_. retM ()), proc_transend = (\<lambda>_. retM ()), task_clear_return_wait = (\<lambda>_ _. retM ()),
     task_deallocate = (\<lambda>_. retM ()), TCRW_CLEAR_ALL_WAIT = 1, mach_trap_count = 128, mach_trap_arg_count = (\<lambda>_. 2),
     mach_trap_function = (\<lambda>_ _. retM 0), thread_yield_internal = (\<lambda>_. retM ()), vm_fault = (\<lambda>_ _ _ _ _ _ _ _. retM ()),
     thread_map = (\<lambda>_. 0), VM_KERN_MEMORY_NONE = 0\<rparr>"

lemma DoRandomMachTrap_ignores_data_witness:
  "\<exists>t. DoRandomMachTrap xk_example 131 2000 4 tstate_example = Done () t \<and> live_blocks t = live_blocks tstate_example"
proof -
  have "heap_wf (mheap tstate_example)" "copyin_blocked tstate_example (current tstate_example) \<noteq> - 1"
    by (simp_all add: tstate_example_def shost.defs shost_example_def lhost.defs lhost_example_def host_example_def host.defs heap_wf_def)
  moreover have "mach_trap_count xk_example \<noteq> 0" "3 = 131 mod mach_trap_count xk_example" by (simp_all add: xk_example_def)
  ultimately show ?thesis
    using DoRandomMachTrap_ignores_data [of tstate_example xk_example 3 131] by (auto simp: xk_example_def)
qed

end
