(* ===== verification/Backend.thy ===== *)
theory Backend
  imports Atomic Platform MachBackend
begin

text \<open>
  The BSD entry points of the fuzzer, \<open>fuzz/xnu/bsd/api/bsd_backend.c\<close>, and packet buffers, \<open>bsd/fakes/mbuf.c\<close>: booting the
  kernel, injecting packets, running a random system call, killing the processes a test case left behind and
  reaping their zombies. The XNU functions and tables behind them (\<open>sysent\<close>, the process lists, \<open>kill\<close>,
  \<open>wait4\<close>, the mbuf allocator, the boot functions) are the parameter \<open>xb\<close>.
\<close>

section \<open>State and parameters\<close>

record mbuf =
  m_len :: nat
  m_data :: ptr

record bstate = tstate +
  mbufs :: "ptr \<rightharpoonup> mbuf"

record 'z xnu_bsd =
  nsysent :: u32
  sy_narg :: "u32 \<Rightarrow> nat"
  sy_call :: "u32 \<Rightarrow> ptr \<Rightarrow> ptr \<Rightarrow> (int, 'z bstate_scheme) prog"
  current_proc :: "'z bstate_scheme \<Rightarrow> ptr"
  kernproc :: ptr
  init_proc :: ptr
  nprocs :: "'z bstate_scheme \<Rightarrow> nat"
  allproc :: "'z bstate_scheme \<Rightarrow> (ptr \<times> u32) list"
  proc_list_lock :: "(unit, 'z bstate_scheme) prog"
  proc_list_unlock :: "(unit, 'z bstate_scheme) prog"
  kill :: "ptr \<Rightarrow> u32 \<Rightarrow> u32 \<Rightarrow> (int, 'z bstate_scheme) prog"
  SIGKILL :: u32
  zombproc :: "'z bstate_scheme \<Rightarrow> ptr list"
  wait4 :: "ptr \<Rightarrow> (int, 'z bstate_scheme) prog"
  m_gethdr :: "int \<Rightarrow> (ptr, 'z bstate_scheme) prog"
  m_get :: "int \<Rightarrow> (ptr, 'z bstate_scheme) prog"
  mbuf_pkthdr_setrcvif :: "ptr \<Rightarrow> ptr \<Rightarrow> (unit, 'z bstate_scheme) prog"
  lo_ifp :: ptr
  ip_input :: "ptr \<Rightarrow> (unit, 'z bstate_scheme) prog"
  ip6_input :: "ptr \<Rightarrow> (unit, 'z bstate_scheme) prog"
  kernel_startup_bootstrap :: "(unit, 'z bstate_scheme) prog"
  timer_call_init :: "(unit, 'z bstate_scheme) prog"
  timer_call_queue_init :: "ptr \<Rightarrow> (unit, 'z bstate_scheme) prog"
  timer_queue :: ptr
  processor_bootstrap :: "(unit, 'z bstate_scheme) prog"
  thread_bootstrap :: "(thread_t, 'z bstate_scheme) prog"
  kernel_bootstrap :: "(unit, 'z bstate_scheme) prog"
  proc_task :: "ptr \<Rightarrow> ptr"

section \<open>Packets\<close>

definition MT_DATA :: int where
  "MT_DATA = 1"

definition mbuf_upd :: "ptr \<Rightarrow> (mbuf \<Rightarrow> mbuf) \<Rightarrow> (unit, 'z bstate_scheme) prog" where
  "mbuf_upd m f = (\<lambda>s. case mbufs s m of None \<Rightarrow> Stopped MemFault | Some v \<Rightarrow> Done () (s\<lparr>mbufs := (mbufs s)(m \<mapsto> f v)\<rparr>))"

definition mbuf_create :: "'z xnu_bsd \<Rightarrow> ptr \<Rightarrow> nat \<Rightarrow> bool \<Rightarrow> bool \<Rightarrow> int \<Rightarrow> int \<Rightarrow> (ptr, 'z bstate_scheme) prog" where
  "mbuf_create xb data sz is_header force_ext mtype pktflags =
     bindM (if is_header then m_gethdr xb mtype else m_get xb mtype) (\<lambda>m.
       if m = 0 then retM 0
       else bindM (\<lambda>s. case mbufs s m of None \<Rightarrow> Stopped MemFault | Some v \<Rightarrow> Done v s) (\<lambda>v.
         let n = (if sz > m_len v then m_len v else sz) in
         thenM (mbuf_upd m (\<lambda>v. v\<lparr>m_len := n\<rparr>)) (thenM (heapM (memcpy (m_data v) data n)) (retM m))))"

definition get_mbuf_data :: "'z xnu_bsd \<Rightarrow> ptr \<Rightarrow> nat \<Rightarrow> int \<Rightarrow> (ptr, 'z bstate_scheme) prog" where
  "get_mbuf_data xb data sz pktflags =
     bindM (mbuf_create xb data sz True False MT_DATA pktflags) (\<lambda>m.
       if m = 0 then retM 0 else thenM (mbuf_pkthdr_setrcvif xb m (lo_ifp xb)) (retM m))"

definition ip_input_wrapper :: "'z xnu_bsd \<Rightarrow> ptr \<Rightarrow> (unit, 'z bstate_scheme) prog" where
  "ip_input_wrapper xb m = ip_input xb m"

definition ip6_input_wrapper :: "'z xnu_bsd \<Rightarrow> ptr \<Rightarrow> (unit, 'z bstate_scheme) prog" where
  "ip6_input_wrapper xb m = ip6_input xb m"

definition initialize_kernel :: "'z xnu_bsd \<Rightarrow> (bool, 'z bstate_scheme) prog" where
  "initialize_kernel xb =
     thenM (kernel_startup_bootstrap xb) (thenM (timer_call_init xb) (thenM (cpu_init (timer_call_queue_init xb) (timer_queue xb))
    (thenM (osfmk_bootstrap (processor_bootstrap xb) (thread_bootstrap xb)) (thenM (kernel_bootstrap xb) (retM True)))))"

definition get_init_task :: "'z xnu_bsd \<Rightarrow> ptr" where
  "get_init_task xb = proc_task xb (init_proc xb)"

definition CloneTaskFromInit :: "'z xnu_bsd \<Rightarrow> ('z bstate_ext) xnu_task \<Rightarrow> (thread_t, 'z bstate_scheme) prog" where
  "CloneTaskFromInit xb xk = CloneTask xk (get_init_task xb)"

definition XNUCurrentProc :: "'z xnu_bsd \<Rightarrow> 'z bstate_scheme \<Rightarrow> ptr" where
  "XNUCurrentProc xb s = current_proc xb s"

section \<open>Random system calls\<close>

definition NOSYS_SYSNO :: u32 where "NOSYS_SYSNO = 0"
definition EXIT_SYSNO :: u32 where "EXIT_SYSNO = 1"
definition FORK_SYSNO :: u32 where "FORK_SYSNO = 2"
definition PTRACE_SYSNO :: u32 where "PTRACE_SYSNO = 26"
definition POSIX_SPAWN_SYSNO :: u32 where "POSIX_SPAWN_SYSNO = 244"
definition SEMSYS_SYSNO :: u32 where "SEMSYS_SYSNO = 251"
definition SEMGET_SYSNO :: u32 where "SEMGET_SYSNO = 255"
definition LIO_LISTIO_SYSNO :: u32 where "LIO_LISTIO_SYSNO = 320"
definition PSELECT_SYSNO :: u32 where "PSELECT_SYSNO = 394"

definition banned_syscalls :: "u32 list" where
  "banned_syscalls = [FORK_SYSNO, PTRACE_SYSNO, NOSYS_SYSNO, POSIX_SPAWN_SYSNO, EXIT_SYSNO, LIO_LISTIO_SYSNO,
     PSELECT_SYSNO, SEMSYS_SYSNO, SEMGET_SYSNO]"

definition XNUDoRandomSyscall :: "'z xnu_bsd \<Rightarrow> u32 \<Rightarrow> ptr \<Rightarrow> nat \<Rightarrow> (unit, 'z bstate_scheme) prog" where
  "XNUDoRandomSyscall xb number data sz =
     (if nsysent xb = 0 then stopM MemFault else
      let number = number mod nsysent xb in
      if number \<in> set banned_syscalls then retM ()
      else let argument_size = sy_narg xb number * 8 in
        bindM (heapM (calloc 1 argument_size)) (\<lambda>arguments.
          if arguments = 0 then retM ()
          else let n = (if sz > argument_size then argument_size else sz) in
            thenM (heapM (memcpy arguments data n))
           (thenM BlockCopyin
           (bindM (getsM (current_proc xb)) (\<lambda>proc.
            bindM (sy_call xb number proc arguments) (\<lambda>_.
            thenM UnblockCopyin (heapM (free arguments))))))))"

section \<open>Cleaning up processes\<close>

definition spared :: "'z xnu_bsd \<Rightarrow> ptr \<Rightarrow> bool" where
  "spared xb p \<longleftrightarrow> p = kernproc xb \<or> p = init_proc xb"

primrec collect_pids :: "'z xnu_bsd \<Rightarrow> (ptr \<times> u32) list \<Rightarrow> ptr \<Rightarrow> nat \<Rightarrow> (nat, heap) prog" where
  "collect_pids xb [] pids n = retM n"
| "collect_pids xb (x # xs) pids n =
     (if spared xb (fst x) then collect_pids xb xs pids n
      else thenM (store32 (pids + 4 * n) (snd x)) (collect_pids xb xs pids (n + 1)))"

text \<open>The loop over the collected pids: \<open>k\<close> rounds are left, \<open>i\<close> is the index.\<close>

primrec kill_pids :: "'z xnu_bsd \<Rightarrow> ptr \<Rightarrow> nat \<Rightarrow> nat \<Rightarrow> (unit, 'z bstate_scheme) prog" where
  "kill_pids xb pids i 0 = retM ()"
| "kill_pids xb pids i (Suc k) =
     bindM (heapM (load32 (pids + 4 * i))) (\<lambda>pid.
     bindM (getsM (current_proc xb)) (\<lambda>self.
     thenM (kill xb self pid (SIGKILL xb)) (kill_pids xb pids (i + 1) k)))"

text \<open>The second walk only counts the survivors for a message; the result is that count.\<close>

definition KillAllNonInitProcs :: "'z xnu_bsd \<Rightarrow> (nat, 'z bstate_scheme) prog" where
  "KillAllNonInitProcs xb =
     thenM (proc_list_lock xb)
    (bindM (getsM (nprocs xb)) (\<lambda>np.
     bindM (heapM (calloc np 4)) (\<lambda>pids.
     bindM (getsM (allproc xb)) (\<lambda>ps.
     bindM (heapM (collect_pids xb ps pids 0)) (\<lambda>n.
     thenM (proc_list_unlock xb)
    (thenM (kill_pids xb pids 0 n)
    (thenM (heapM (free pids))
    (thenM (proc_list_lock xb)
    (bindM (getsM (\<lambda>s. length (filter (\<lambda>x. \<not> spared xb (fst x)) (allproc xb s)))) (\<lambda>left.
     thenM (proc_list_unlock xb) (retM left)))))))))))"

primrec reap_loop :: "'z xnu_bsd \<Rightarrow> nat \<Rightarrow> (bool, 'z bstate_scheme) prog" where
  "reap_loop xb 0 = bindM (getsM (zombproc xb)) (\<lambda>z. if z \<noteq> [] then stopM Diverge else retM False)"
| "reap_loop xb (Suc fuel) =
     bindM (getsM (zombproc xb)) (\<lambda>z.
       if z \<noteq> [] then bindM (wait4 xb (init_proc xb)) (\<lambda>retval. if retval = 0 then retM False else reap_loop xb fuel)
       else retM False)"

definition XNUReapInitChildren :: "'z xnu_bsd \<Rightarrow> nat \<Rightarrow> (bool, 'z bstate_scheme) prog" where
  "XNUReapInitChildren xb fuel = reap_loop xb fuel"

section \<open>Properties\<close>

text \<open>What the theorem on system calls asks of the call: it returns, it leaves the copyio counters and the argument block as it
  found them, and it does not switch threads.\<close>

definition syscall_returns :: "'z xnu_bsd \<Rightarrow> u32 \<Rightarrow> ptr \<Rightarrow> 'z bstate_scheme \<Rightarrow> bool" where
  "syscall_returns xb number arguments s \<longleftrightarrow> (\<exists>r t. sy_call xb number (current_proc xb s) arguments s = Done r t \<and>
     heap_wf (mheap t) \<and> block_size (mheap t) = block_size (mheap s) \<and> copyin_blocked t = copyin_blocked s \<and> current t = current s)"


definition xb_example :: "'z xnu_bsd" where
  "xb_example = \<lparr>nsysent = 500, sy_narg = (\<lambda>_. 1), sy_call = (\<lambda>_ _ _. retM 0), current_proc = (\<lambda>_. 90), kernproc = 80, init_proc = 81,
     nprocs = (\<lambda>_. 4), allproc = (\<lambda>_. [(80, 0), (81, 1), (90, 12), (91, 13)]), proc_list_lock = retM (), proc_list_unlock = retM (),
     kill = (\<lambda>_ _ _. retM 0), SIGKILL = 9, zombproc = (\<lambda>_. []), wait4 = (\<lambda>_. retM 0), m_gethdr = (\<lambda>_. retM 60), m_get = (\<lambda>_. retM 0),
     mbuf_pkthdr_setrcvif = (\<lambda>_ _. retM ()), lo_ifp = 3, ip_input = (\<lambda>_. retM ()), ip6_input = (\<lambda>_. retM ()),
     kernel_startup_bootstrap = retM (), timer_call_init = retM (), timer_call_queue_init = (\<lambda>_. retM ()), timer_queue = 0, processor_bootstrap = retM (), thread_bootstrap = retM 100,
     kernel_bootstrap = retM (), proc_task = (\<lambda>p. p + 1)\<rparr>"

definition bstate_example :: bstate where
  "bstate_example = tstate.extend (tstate_example\<lparr>mheap := mheap copyio_example, mfuzz := mfuzz copyio_example\<rparr>) \<lparr>mbufs = [60 \<mapsto> \<lparr>m_len = 0, m_data = 1000\<rparr>]\<rparr>"

lemmas bstate_example_defs = bstate_example_def tstate.defs tstate_example_def shost.defs shost_example_def lhost.defs
  lhost_example_def copyio_example_def host_example_def host.defs

lemma bstate_example_ok:
  "heap_wf (mheap bstate_example)" "in_block (mheap bstate_example) 2000 4" "copyin_blocked bstate_example (current bstate_example) = 0"
  "mheap bstate_example = \<lparr>choices = [(4000, \<lambda>_. 0)], blocks = [(1000, 4), (2000, 4)], mem = (\<lambda>a. of_nat (a mod 256))\<rparr>"
  by (simp_all add: bstate_example_defs heap_wf_def legal_block_def separate_def
      addr_limit_def in_block_def)


text \<open>Killing processes: an array of 4-byte pids.\<close>

lemma store32_at:
  assumes "in_block h a 4"
  shows "store32 a w h = Done () (write_bytes a (bytes_of_u32 w) h)"
    and "load32 a (write_bytes a (bytes_of_u32 w) h) = Done w (write_bytes a (bytes_of_u32 w) h)"
  using assms read_write_same [of a "bytes_of_u32 w" h] by (auto simp: store32_def store_at_def load32_def memory_at_def)

lemma load32_other:
  assumes "a + 4 \<le> b \<or> b + 4 \<le> a" "load32 b h = Done v h"
  shows "load32 b (write_bytes a (bytes_of_u32 w) h) = Done v (write_bytes a (bytes_of_u32 w) h)"
  using assms load_other [of a 4 b "bytes_of_u32 w" h] by (auto simp: load32_def memory_at_def split: if_splits)

definition doomed :: "'z xnu_bsd \<Rightarrow> (ptr \<times> u32) list \<Rightarrow> u32 list" where
  "doomed xb ps = map snd (filter (\<lambda>x. \<not> spared xb (fst x)) ps)"

lemma collect_pids_runs:
  assumes "heap_wf h" "block_size h pids = Some (4 * cap)" "n + length (doomed xb ps) \<le> cap"
  shows "\<exists>t. collect_pids xb ps pids n h = Done (n + length (doomed xb ps)) t \<and> heap_wf t \<and> block_size t = block_size h \<and>
     (\<forall>i < length (doomed xb ps). load32 (pids + 4 * (n + i)) t = Done (doomed xb ps ! i) t) \<and>
     (\<forall>i < n. \<forall>v. load32 (pids + 4 * i) h = Done v h \<longrightarrow> load32 (pids + 4 * i) t = Done v t)"
  using assms
proof (induction ps arbitrary: n h)
  case Nil
  then show ?case by (simp add: doomed_def)
next
  case (Cons x xs)
  show ?case
  proof (cases "spared xb (fst x)")
    case True
    then have "doomed xb (x # xs) = doomed xb xs" by (simp add: doomed_def)
    then show ?thesis using Cons True by simp
  next
    case False
    then have d: "doomed xb (x # xs) = snd x # doomed xb xs" by (simp add: doomed_def)
    let ?w = "write_bytes (pids + 4 * n) (bytes_of_u32 (snd x)) h"
    have inb: "in_block h (pids + 4 * n) 4" using Cons.prems(2,3) d by (intro in_blockI [of h pids "4 * cap"]) auto
    obtain t where t: "collect_pids xb xs pids (n + 1) ?w = Done (n + 1 + length (doomed xb xs)) t" "heap_wf t" "block_size t = block_size h"
      "\<forall>i < length (doomed xb xs). load32 (pids + 4 * (n + 1 + i)) t = Done (doomed xb xs ! i) t"
      "\<forall>i < n + 1. \<forall>v. load32 (pids + 4 * i) ?w = Done v ?w \<longrightarrow> load32 (pids + 4 * i) t = Done v t"
      using Cons.IH [of ?w "n + 1"] Cons.prems d by auto
    have "load32 (pids + 4 * (n + i)) t = Done (doomed xb (x # xs) ! i) t" if "i < length (doomed xb (x # xs))" for i
    proof (cases i)
      case 0
      then show ?thesis using t(5) store32_at(2) [OF inb, of "snd x"] d by simp
    next
      case (Suc j)
      then show ?thesis using t(4) that d by (simp add: add.assoc)
    qed
    moreover have "load32 (pids + 4 * i) t = Done v t" if "i < n" "load32 (pids + 4 * i) h = Done v h" for i v
      using that t(5) load32_other [of "pids + 4 * n" "pids + 4 * i" h v "snd x"] by auto
    ultimately show ?thesis using t(1-3) False d store32_at(1) [OF inb, of "snd x"] by (intro exI [of _ t]) auto
  qed
qed

definition kill_one :: "'z xnu_bsd \<Rightarrow> u32 \<Rightarrow> (unit, 'z bstate_scheme) prog" where
  "kill_one xb pid = bindM (getsM (current_proc xb)) (\<lambda>self. thenM (kill xb self pid (SIGKILL xb)) (retM ()))"

lemma kill_pids_runs:
  assumes k: "\<And>p pid u. \<exists>r t. kill xb p pid (SIGKILL xb) u = Done r t \<and> mheap t = mheap u"
    and "\<forall>j < length ys. load32 (pids + 4 * (i + j)) (mheap s) = Done (ys ! j) (mheap s)"
  shows "\<exists>t. kill_pids xb pids i (length ys) s = Done () t \<and> forM ys (kill_one xb) s = Done () t \<and> mheap t = mheap s"
  using assms(2)
proof (induction ys arbitrary: i s)
  case Nil
  then show ?case by simp
next
  case (Cons y ys)
  have y: "load32 (pids + 4 * i) (mheap s) = Done y (mheap s)" using Cons.prems by force
  obtain r t where t: "kill xb (current_proc xb s) y (SIGKILL xb) s = Done r t" "mheap t = mheap s" using k by blast
  have "\<forall>j < length ys. load32 (pids + 4 * (i + 1 + j)) (mheap t) = Done (ys ! j) (mheap t)"
  proof (intro allI impI)
    fix j assume "j < length ys"
    then show "load32 (pids + 4 * (i + 1 + j)) (mheap t) = Done (ys ! j) (mheap t)"
      using Cons.prems [rule_format, of "Suc j"] t(2) by simp
  qed
  from Cons.IH [OF this] show ?case using y t by (auto simp: kill_one_def)
qed

text \<open>Killing what a test case left behind. When there is memory for the pids, the process count covers the list and killing
  does not touch the C heap, \<open>KillAllNonInitProcs\<close> returns after sending SIGKILL to every process but the kernel and init, once each
  and in list order, to nobody else; the pid array is freed again.\<close>

lemma KillAllNonInitProcs_kills_all:
  assumes wf: "heap_wf (mheap s)" and mem: "calloc (nprocs xb s) 4 (mheap s) = Done p a" "p \<noteq> 0"
    and lock: "\<And>u. proc_list_lock xb u = Done () u" "\<And>u. proc_list_unlock xb u = Done () u"
    and procs: "\<And>h. allproc xb (s\<lparr>mheap := h\<rparr>) = allproc xb s"
    and cap: "length (doomed xb (allproc xb s)) \<le> nprocs xb s"
    and k: "\<And>q pid u. \<exists>r t. kill xb q pid (SIGKILL xb) u = Done r t \<and> mheap t = mheap u"
  shows "\<exists>h u f. forM (doomed xb (allproc xb s)) (kill_one xb) (s\<lparr>mheap := h\<rparr>) = Done () u \<and>
     KillAllNonInitProcs xb s = Done (length (doomed xb (allproc xb (u\<lparr>mheap := f\<rparr>)))) (u\<lparr>mheap := f\<rparr>) \<and>
     block_size f = block_size (mheap s)"
proof -
  let ?ys = "doomed xb (allproc xb s)"
  have a: "heap_wf a" "block_size (mheap s) p = None" "block_size a = (block_size (mheap s))(p \<mapsto> nprocs xb s * 4)"
    using calloc_runs [OF wf, of "nprocs xb s" 4] mem by auto
  have live: "block_size a p = Some (4 * nprocs xb s)" using a(3) by (simp add: mult.commute)
  obtain h where h: "collect_pids xb (allproc xb s) p 0 a = Done (length ?ys) h" "heap_wf h" "block_size h = block_size a"
    "\<forall>i < length ?ys. load32 (p + 4 * (0 + i)) h = Done (?ys ! i) h"
    using collect_pids_runs [OF a(1) live, of 0 xb "allproc xb s"] cap by auto
  obtain u where u: "kill_pids xb p 0 (length ?ys) (s\<lparr>mheap := h\<rparr>) = Done () u" "forM ?ys (kill_one xb) (s\<lparr>mheap := h\<rparr>) = Done () u"
    "mheap u = h"
    using kill_pids_runs [OF k, of ?ys p 0 "s\<lparr>mheap := h\<rparr>"] h(4) by auto
  obtain f where f: "free p h = Done () f" "block_size f = (block_size h)(p := None)"
    using free_live [OF h(2)] h(3) live by auto
  have "block_size f = block_size (mheap s)" using f(2) h(3) a(2,3) by (auto simp: fun_eq_iff)
  moreover have "KillAllNonInitProcs xb s = Done (length (doomed xb (allproc xb (u\<lparr>mheap := f\<rparr>)))) (u\<lparr>mheap := f\<rparr>)"
    using mem lock procs h(1) u(1,3) f(1) by (simp add: KillAllNonInitProcs_def doomed_def)
  ultimately show ?thesis using u(2) by blast
qed

lemma KillAllNonInitProcs_kills_all_witness:
  "doomed xb_example (allproc xb_example bstate_example) = [12, 13] \<and> (\<exists>n t. KillAllNonInitProcs xb_example bstate_example = Done n t)"
proof -
  obtain p a where m: "calloc (nprocs xb_example bstate_example) 4 (mheap bstate_example) = Done p a" "p \<noteq> 0"
    by (simp add: bstate_example_ok(4) xb_example_def calloc_def alloc_aligned_def legal_block_def separate_def addr_limit_def)
  have d: "doomed xb_example (allproc xb_example bstate_example) = [12, 13]" by (simp add: doomed_def xb_example_def spared_def)
  have "length (doomed xb_example (allproc xb_example bstate_example)) \<le> nprocs xb_example bstate_example"
    unfolding d by (simp add: xb_example_def)
  from KillAllNonInitProcs_kills_all [OF bstate_example_ok(1) m _ _ _ this] d show ?thesis
    by (auto simp: xb_example_def)
qed

text \<open>Reaping. \<open>XNUReapInitChildren\<close> never answers true. It does return when every successful \<open>wait4\<close> takes a zombie off the
  list, within as many rounds as there are zombies.\<close>

lemma XNUReapInitChildren_false:
  assumes "\<And>u. zombproc xb u \<noteq> [] \<Longrightarrow> \<exists>r t. wait4 xb (init_proc xb) u = Done r t \<and>
      (r \<noteq> 0 \<longrightarrow> length (zombproc xb t) < length (zombproc xb u))"
  shows "\<exists>t. XNUReapInitChildren xb (length (zombproc xb s)) s = Done False t \<and>
     (\<forall>n u. XNUReapInitChildren xb n s \<noteq> Done True u)"
proof -
  have "reap_loop xb n v \<noteq> Done True u" for n v u
    by (induction n arbitrary: v) (auto split: outcome.splits)
  moreover have "\<exists>t. reap_loop xb n v = Done False t" if "length (zombproc xb v) \<le> n" for n v
    using that
  proof (induction n arbitrary: v)
    case (Suc n)
    show ?case
    proof (cases "zombproc xb v = []")
      case False
      then obtain r t where t: "wait4 xb (init_proc xb) v = Done r t" "r \<noteq> 0 \<longrightarrow> length (zombproc xb t) < length (zombproc xb v)"
        using assms by blast
      then show ?thesis using False Suc.IH [of t] Suc.prems by (cases "r = 0") auto
    qed simp
  qed simp
  ultimately show ?thesis unfolding XNUReapInitChildren_def by blast
qed

lemma XNUReapInitChildren_false_witness:
  "\<exists>t. XNUReapInitChildren (xb_example\<lparr>zombproc := \<lambda>s. if current s = 5 then [70] else [], wait4 := \<lambda>_ s. Done 12 (s\<lparr>current := 6\<rparr>)\<rparr>) 1
     bstate_example = Done False t"
proof -
  let ?x = "xb_example\<lparr>zombproc := \<lambda>s. if current s = 5 then [70] else [], wait4 := \<lambda>_ s. Done 12 (s\<lparr>current := 6\<rparr>)\<rparr> :: unit xnu_bsd"
  have "current bstate_example = 5" by (simp add: bstate_example_defs)
  then have "length (zombproc ?x bstate_example) = 1" by simp
  then show ?thesis using XNUReapInitChildren_false [of ?x bstate_example] by auto
qed

lemma write_bytes_nil [simp]: "write_bytes a [] h = h"
proof -
  have "fill (mem h) a 0 f = mem h" for f by (auto simp: fill_def fun_eq_iff)
  then show ?thesis by (simp add: write_bytes_def)
qed

text \<open>Injected packets are empty. A header mbuf comes from the allocator with length 0, and \<open>mbuf_create\<close> cuts the data to that
  length: the packet that \<open>get_mbuf_data\<close> returns has length 0, whatever was asked for, and no byte of the data is
  copied.\<close>

lemma get_mbuf_data_empty:
  assumes "m_gethdr xb MT_DATA s = Done m t" and "m \<noteq> 0" and "mbufs t m = Some v" and "m_len v = 0"
    and "\<And>u. mbuf_pkthdr_setrcvif xb m (lo_ifp xb) u = Done () u"
  shows "get_mbuf_data xb data sz pktflags s = Done m t"
proof -
  have v: "v\<lparr>m_len := 0\<rparr> = v" using assms(4) by (cases v) simp
  have t: "t\<lparr>mbufs := (mbufs t)(m \<mapsto> v)\<rparr> = t" using assms(3) by (simp add: map_upd_triv)
  have c: "memcpy a b 0 h = Done () h" for a b h
    by (simp add: memcpy_def memory_at_def store_at_def read_bytes_def)
  have "mbuf_create xb data sz True False MT_DATA pktflags s = Done m (t\<lparr>mbufs := (mbufs t)(m \<mapsto> v\<lparr>m_len := 0\<rparr>)\<rparr>)"
    using assms(1-4) by (cases sz) (simp_all add: mbuf_create_def mbuf_upd_def Let_def c)
  then have "mbuf_create xb data sz True False MT_DATA pktflags s = Done m t" unfolding v t .
  then show ?thesis using assms(2,5) by (simp add: get_mbuf_data_def)
qed

lemma get_mbuf_data_empty_witness:
  "get_mbuf_data xb_example 2000 4 0 bstate_example = Done 60 bstate_example"
proof -
  have "mbufs bstate_example 60 = Some \<lparr>m_len = 0, m_data = 1000\<rparr>" by (simp add: bstate_example_defs)
  then show ?thesis using get_mbuf_data_empty [of xb_example bstate_example 60 bstate_example _ 2000 4 0] by (simp add: xb_example_def)
qed

end
