(* ===== verification/Packets.thy ===== *)
theory Packets
  imports Backend
begin

text \<open>
  The packets and socket addresses a test case builds, \<open>fuzz/handlers/bsd.cc\<close> with the layouts of
  \<open>fuzz/handlers/bsd_types.h\<close>: the fuzzer reads the fields of a packet from a protobuf message, lays them out as the C
  structures of the network stack and injects the bytes through \<open>get_mbuf_data\<close> and \<open>ip_input\<close> (theory \<open>Backend\<close>).

  A message is a record of the values its accessors return, which are the declared defaults where a field is unset. An
  enumeration value of a message is its \<open>int32\<close> bit pattern in a 32-bit word, so that the casts of the code are \<open>ucast\<close>.
  A structure is a record, and its bytes in memory (little endian, the offsets of the header file) are its encoding.
  The decoders are the reference definitions of the same layouts: they read a field at its offset.
\<close>

unbundle bit_operations_syntax

section \<open>Layout\<close>

type_synonym in6_addr = "u8 list"

definition bytes_of_u16 :: "u16 \<Rightarrow> u8 list" where
  "bytes_of_u16 w = map (\<lambda>i. ucast (drop_bit (8 * i) (ucast w :: u64))) [0 ..< 2]"

definition bswap16 :: "u16 \<Rightarrow> u16" where
  "bswap16 w = push_bit 8 w OR drop_bit 8 w"

definition bswap32 :: "u32 \<Rightarrow> u32" where
  "bswap32 w = push_bit 24 w OR (push_bit 8 w AND 0xFF0000) OR (drop_bit 8 w AND 0xFF00) OR drop_bit 24 w"

definition ntohl :: "u32 \<Rightarrow> u32" where "ntohl data = bswap32 data"

definition ntohs :: "u16 \<Rightarrow> u16" where "ntohs data = bswap16 data"

text \<open>Stores into the bytes of a structure at an offset, and the 16 and 32-bit reads there.\<close>

definition poke :: "u8 list \<Rightarrow> nat \<Rightarrow> u8 list \<Rightarrow> u8 list" where
  "poke dest off bs = take off dest @ bs @ drop (off + length bs) dest"

definition peek16 :: "u8 list \<Rightarrow> nat \<Rightarrow> u16" where
  "peek16 bs off = ucast (u64_of_bytes (take 2 (drop off bs)))"

definition peek32 :: "u8 list \<Rightarrow> nat \<Rightarrow> u32" where
  "peek32 bs off = ucast (u64_of_bytes (take 4 (drop off bs)))"

section \<open>IPv6 addresses\<close>

datatype In6Addr = IN6_ADDR_ANY | IN6_ADDR_LOOPBACK | IN6_ADDR_REAL | IN6_ADDR_SELF | IN6_ADDR_LINK_LOCAL
  | IN6_ADDR_UNSPECIFIED | IN6_ADDR_V4COMPAT | IN6_ADDR_V4MAPPED | IN6_ADDR_6TO4 | IN6_ADDR_LINKLOCAL
  | IN6_ADDR_SITELOCAL | IN6_ADDR_MULTICAST | IN6_ADDR_UNIQUE_LOCAL | IN6_ADDR_MC_NODELOCAL
  | IN6_ADDR_MC_INTFACELOCAL | IN6_ADDR_MC_LINKLOCAL | IN6_ADDR_MC_SITELOCAL | IN6_ADDR_MC_ORGLOCAL
  | IN6_ADDR_MC_GLOBAL | IN6_ADDR_LOCAL_ADDRESS | MAYBE_LOCALHOST

fun In6Addr_value :: "In6Addr \<Rightarrow> u32" where
  "In6Addr_value IN6_ADDR_ANY = 0"
| "In6Addr_value IN6_ADDR_LOOPBACK = 1"
| "In6Addr_value IN6_ADDR_REAL = 2"
| "In6Addr_value IN6_ADDR_SELF = 3"
| "In6Addr_value IN6_ADDR_LINK_LOCAL = 4"
| "In6Addr_value IN6_ADDR_UNSPECIFIED = 5"
| "In6Addr_value IN6_ADDR_V4COMPAT = 7"
| "In6Addr_value IN6_ADDR_V4MAPPED = 8"
| "In6Addr_value IN6_ADDR_6TO4 = 9"
| "In6Addr_value IN6_ADDR_LINKLOCAL = 10"
| "In6Addr_value IN6_ADDR_SITELOCAL = 11"
| "In6Addr_value IN6_ADDR_MULTICAST = 12"
| "In6Addr_value IN6_ADDR_UNIQUE_LOCAL = 13"
| "In6Addr_value IN6_ADDR_MC_NODELOCAL = 14"
| "In6Addr_value IN6_ADDR_MC_INTFACELOCAL = 15"
| "In6Addr_value IN6_ADDR_MC_LINKLOCAL = 16"
| "In6Addr_value IN6_ADDR_MC_SITELOCAL = 17"
| "In6Addr_value IN6_ADDR_MC_ORGLOCAL = 18"
| "In6Addr_value IN6_ADDR_MC_GLOBAL = 19"
| "In6Addr_value IN6_ADDR_LOCAL_ADDRESS = 20"
| "In6Addr_value MAYBE_LOCALHOST = 16777216"

text \<open>The predicates of the header file on an address.\<close>

definition IN6_IS_ADDR_UNSPECIFIED :: "in6_addr \<Rightarrow> bool" where
  "IN6_IS_ADDR_UNSPECIFIED a \<longleftrightarrow> peek32 a 0 = 0 \<and> peek32 a 4 = 0 \<and> peek32 a 8 = 0 \<and> peek32 a 12 = 0"

definition IN6_IS_ADDR_LOOPBACK :: "in6_addr \<Rightarrow> bool" where
  "IN6_IS_ADDR_LOOPBACK a \<longleftrightarrow> peek32 a 0 = 0 \<and> peek32 a 4 = 0 \<and> peek32 a 8 = 0 \<and> peek32 a 12 = ntohl 1"

definition IN6_IS_ADDR_V4COMPAT :: "in6_addr \<Rightarrow> bool" where
  "IN6_IS_ADDR_V4COMPAT a \<longleftrightarrow> peek32 a 0 = 0 \<and> peek32 a 4 = 0 \<and> peek32 a 8 = 0 \<and> peek32 a 12 \<noteq> 0 \<and>
     peek32 a 12 \<noteq> ntohl 1"

definition IN6_IS_ADDR_V4MAPPED :: "in6_addr \<Rightarrow> bool" where
  "IN6_IS_ADDR_V4MAPPED a \<longleftrightarrow> peek32 a 0 = 0 \<and> peek32 a 4 = 0 \<and> peek32 a 8 = ntohl 0x0000ffff"

definition IN6_IS_ADDR_6TO4 :: "in6_addr \<Rightarrow> bool" where
  "IN6_IS_ADDR_6TO4 a \<longleftrightarrow> ntohs (peek16 a 0) = 0x2002"

definition IPV6_ADDR_SCOPE_NODELOCAL :: u8 where "IPV6_ADDR_SCOPE_NODELOCAL = 0x01"
definition IPV6_ADDR_SCOPE_INTFACELOCAL :: u8 where "IPV6_ADDR_SCOPE_INTFACELOCAL = 0x01"
definition IPV6_ADDR_SCOPE_LINKLOCAL :: u8 where "IPV6_ADDR_SCOPE_LINKLOCAL = 0x02"
definition IPV6_ADDR_SCOPE_SITELOCAL :: u8 where "IPV6_ADDR_SCOPE_SITELOCAL = 0x05"
definition IPV6_ADDR_SCOPE_ORGLOCAL :: u8 where "IPV6_ADDR_SCOPE_ORGLOCAL = 0x08"
definition IPV6_ADDR_SCOPE_GLOBAL :: u8 where "IPV6_ADDR_SCOPE_GLOBAL = 0x0e"

definition IN6_IS_ADDR_LINKLOCAL :: "in6_addr \<Rightarrow> bool" where
  "IN6_IS_ADDR_LINKLOCAL a \<longleftrightarrow> a ! 0 = 0xfe \<and> a ! 1 AND 0xc0 = 0x80"

definition IN6_IS_ADDR_SITELOCAL :: "in6_addr \<Rightarrow> bool" where
  "IN6_IS_ADDR_SITELOCAL a \<longleftrightarrow> a ! 0 = 0xfe \<and> a ! 1 AND 0xc0 = 0xc0"

definition IN6_IS_ADDR_MULTICAST :: "in6_addr \<Rightarrow> bool" where
  "IN6_IS_ADDR_MULTICAST a \<longleftrightarrow> a ! 0 = 0xff"

definition IN6_IS_ADDR_UNIQUE_LOCAL :: "in6_addr \<Rightarrow> bool" where
  "IN6_IS_ADDR_UNIQUE_LOCAL a \<longleftrightarrow> a ! 0 = 0xfc \<or> a ! 0 = 0xfd"

definition IPV6_ADDR_MC_SCOPE :: "in6_addr \<Rightarrow> u8" where
  "IPV6_ADDR_MC_SCOPE a = a ! 1 AND 0x0f"

definition IN6_IS_ADDR_MC :: "u8 \<Rightarrow> in6_addr \<Rightarrow> bool" where
  "IN6_IS_ADDR_MC scope a \<longleftrightarrow> IN6_IS_ADDR_MULTICAST a \<and> IPV6_ADDR_MC_SCOPE a = scope"

lemmas in6_scopes = IPV6_ADDR_SCOPE_NODELOCAL_def
  IPV6_ADDR_SCOPE_INTFACELOCAL_def IPV6_ADDR_SCOPE_LINKLOCAL_def IPV6_ADDR_SCOPE_SITELOCAL_def
  IPV6_ADDR_SCOPE_ORGLOCAL_def IPV6_ADDR_SCOPE_GLOBAL_def

definition assert_addr :: "(in6_addr \<Rightarrow> bool) \<Rightarrow> in6_addr \<Rightarrow> (in6_addr, 's) prog" where
  "assert_addr P sai = thenM (assertM (P sai)) (retM sai)"

definition mc_addr :: "u8 \<Rightarrow> in6_addr \<Rightarrow> (in6_addr, 's) prog" where
  "mc_addr scope sai = assert_addr (IN6_IS_ADDR_MC scope) (sai[0 := 0xff, 1 := scope])"

text \<open>The sixteen bytes are cleared first. The four stores of \<open>IN6_ADDR_SELF\<close> all go to the first word.\<close>

fun get_in6_addr :: "In6Addr \<Rightarrow> (in6_addr, 's) prog" where
  "get_in6_addr IN6_ADDR_SELF = (let sai = replicate 16 0 in
     retM (poke (poke (poke (poke sai 0 (bytes_of_u32 16810238)) 0 (bytes_of_u32 0)) 0 (bytes_of_u32 0)) 0
       (bytes_of_u32 16777216)))"
| "get_in6_addr IN6_ADDR_LINK_LOCAL = (let sai = replicate 16 0 in
     assert_addr IN6_IS_ADDR_LINKLOCAL (sai[0 := 0xfe, 1 := 0x80]))"
| "get_in6_addr IN6_ADDR_LOOPBACK =
     assert_addr IN6_IS_ADDR_LOOPBACK (replicate 15 0 @ [ucast (In6Addr_value IN6_ADDR_LOOPBACK)])"
| "get_in6_addr IN6_ADDR_REAL = retM (replicate 15 0 @ [ucast (In6Addr_value IN6_ADDR_REAL)])"
| "get_in6_addr MAYBE_LOCALHOST = retM (replicate 15 0 @ [ucast (In6Addr_value MAYBE_LOCALHOST)])"
| "get_in6_addr IN6_ADDR_V4COMPAT = (let sai = replicate 16 0 in assert_addr IN6_IS_ADDR_V4COMPAT (sai[12 := 1]))"
| "get_in6_addr IN6_ADDR_V4MAPPED = (let sai = replicate 16 0 in
     assert_addr IN6_IS_ADDR_V4MAPPED (poke sai 8 (bytes_of_u32 0xffff0000)))"
| "get_in6_addr IN6_ADDR_6TO4 = retM (replicate 16 0)"
| "get_in6_addr IN6_ADDR_LINKLOCAL = (let sai = replicate 16 0 in
     assert_addr IN6_IS_ADDR_LINKLOCAL (sai[0 := 0xfe, 1 := 0x80]))"
| "get_in6_addr IN6_ADDR_SITELOCAL = (let sai = replicate 16 0 in
     assert_addr IN6_IS_ADDR_SITELOCAL (sai[0 := 0xfe, 1 := 0xc0]))"
| "get_in6_addr IN6_ADDR_MULTICAST = (let sai = replicate 16 0 in assert_addr IN6_IS_ADDR_MULTICAST (sai[0 := 0xff]))"
| "get_in6_addr IN6_ADDR_UNIQUE_LOCAL = (let sai = replicate 16 0 in
     assert_addr IN6_IS_ADDR_UNIQUE_LOCAL (sai[0 := 0xfc]))"
| "get_in6_addr IN6_ADDR_MC_NODELOCAL = mc_addr IPV6_ADDR_SCOPE_NODELOCAL (replicate 16 0)"
| "get_in6_addr IN6_ADDR_MC_INTFACELOCAL = mc_addr IPV6_ADDR_SCOPE_INTFACELOCAL (replicate 16 0)"
| "get_in6_addr IN6_ADDR_MC_LINKLOCAL = mc_addr IPV6_ADDR_SCOPE_LINKLOCAL (replicate 16 0)"
| "get_in6_addr IN6_ADDR_MC_SITELOCAL = mc_addr IPV6_ADDR_SCOPE_SITELOCAL (replicate 16 0)"
| "get_in6_addr IN6_ADDR_MC_ORGLOCAL = mc_addr IPV6_ADDR_SCOPE_ORGLOCAL (replicate 16 0)"
| "get_in6_addr IN6_ADDR_MC_GLOBAL = mc_addr IPV6_ADDR_SCOPE_GLOBAL (replicate 16 0)"
| "get_in6_addr IN6_ADDR_UNSPECIFIED = assert_addr IN6_IS_ADDR_UNSPECIFIED (replicate 16 0)"
| "get_in6_addr IN6_ADDR_ANY = assert_addr IN6_IS_ADDR_UNSPECIFIED (replicate 16 0)"
| "get_in6_addr IN6_ADDR_LOCAL_ADDRESS = (let sai = replicate 16 0 in
     retM (poke (poke (poke (poke (poke (poke sai 0 (bytes_of_u16 0xfe80)) 2 (bytes_of_u16 0x0001)) 8 (bytes_of_u16 0xa8aa))
       10 (bytes_of_u16 0xaaaa)) 12 (bytes_of_u16 0xaaaa)) 14 (bytes_of_u16 0xaaaa)))"

text \<open>What each case leaves in memory, as the reference.\<close>

fun in6_bytes :: "In6Addr \<Rightarrow> in6_addr" where
  "in6_bytes IN6_ADDR_SELF = [0, 0, 0, 1, 0, 0, 0, 0, 0, 0, 0, 0, 0, 0, 0, 0]"
| "in6_bytes IN6_ADDR_LINK_LOCAL = [0xfe, 0x80, 0, 0, 0, 0, 0, 0, 0, 0, 0, 0, 0, 0, 0, 0]"
| "in6_bytes IN6_ADDR_LOOPBACK = [0, 0, 0, 0, 0, 0, 0, 0, 0, 0, 0, 0, 0, 0, 0, 1]"
| "in6_bytes IN6_ADDR_REAL = [0, 0, 0, 0, 0, 0, 0, 0, 0, 0, 0, 0, 0, 0, 0, 2]"
| "in6_bytes IN6_ADDR_V4COMPAT = [0, 0, 0, 0, 0, 0, 0, 0, 0, 0, 0, 0, 1, 0, 0, 0]"
| "in6_bytes IN6_ADDR_V4MAPPED = [0, 0, 0, 0, 0, 0, 0, 0, 0, 0, 0xff, 0xff, 0, 0, 0, 0]"
| "in6_bytes IN6_ADDR_LINKLOCAL = [0xfe, 0x80, 0, 0, 0, 0, 0, 0, 0, 0, 0, 0, 0, 0, 0, 0]"
| "in6_bytes IN6_ADDR_SITELOCAL = [0xfe, 0xc0, 0, 0, 0, 0, 0, 0, 0, 0, 0, 0, 0, 0, 0, 0]"
| "in6_bytes IN6_ADDR_MULTICAST = [0xff, 0, 0, 0, 0, 0, 0, 0, 0, 0, 0, 0, 0, 0, 0, 0]"
| "in6_bytes IN6_ADDR_UNIQUE_LOCAL = [0xfc, 0, 0, 0, 0, 0, 0, 0, 0, 0, 0, 0, 0, 0, 0, 0]"
| "in6_bytes IN6_ADDR_MC_NODELOCAL = [0xff, 1, 0, 0, 0, 0, 0, 0, 0, 0, 0, 0, 0, 0, 0, 0]"
| "in6_bytes IN6_ADDR_MC_INTFACELOCAL = [0xff, 1, 0, 0, 0, 0, 0, 0, 0, 0, 0, 0, 0, 0, 0, 0]"
| "in6_bytes IN6_ADDR_MC_LINKLOCAL = [0xff, 2, 0, 0, 0, 0, 0, 0, 0, 0, 0, 0, 0, 0, 0, 0]"
| "in6_bytes IN6_ADDR_MC_SITELOCAL = [0xff, 5, 0, 0, 0, 0, 0, 0, 0, 0, 0, 0, 0, 0, 0, 0]"
| "in6_bytes IN6_ADDR_MC_ORGLOCAL = [0xff, 8, 0, 0, 0, 0, 0, 0, 0, 0, 0, 0, 0, 0, 0, 0]"
| "in6_bytes IN6_ADDR_MC_GLOBAL = [0xff, 0x0e, 0, 0, 0, 0, 0, 0, 0, 0, 0, 0, 0, 0, 0, 0]"
| "in6_bytes IN6_ADDR_LOCAL_ADDRESS = [0x80, 0xfe, 1, 0, 0, 0, 0, 0, 0xaa, 0xa8, 0xaa, 0xaa, 0xaa, 0xaa, 0xaa, 0xaa]"
| "in6_bytes _ = replicate 16 0"

text \<open>The constant stores, and the assertions on the bytes they leave.\<close>

lemma in6_stores:
  "bytes_of_u32 16777216 = [0, 0, 0, 1]" "bytes_of_u32 16810238 = [0xfe, 0x80, 0, 1]" "bytes_of_u32 0 = [0, 0, 0, 0]"
  "bytes_of_u32 0xffff0000 = [0, 0, 0xff, 0xff]" "bytes_of_u16 0xfe80 = [0x80, 0xfe]" "bytes_of_u16 0x0001 = [1, 0]"
  "bytes_of_u16 0xa8aa = [0xaa, 0xa8]" "bytes_of_u16 0xaaaa = [0xaa, 0xaa]"
  by code_simp+

lemma in6_asserts:
  "IN6_IS_ADDR_LINKLOCAL (in6_bytes IN6_ADDR_LINK_LOCAL)" "IN6_IS_ADDR_LOOPBACK (in6_bytes IN6_ADDR_LOOPBACK)"
  "IN6_IS_ADDR_V4COMPAT (in6_bytes IN6_ADDR_V4COMPAT)" "IN6_IS_ADDR_V4MAPPED (in6_bytes IN6_ADDR_V4MAPPED)"
  "IN6_IS_ADDR_SITELOCAL (in6_bytes IN6_ADDR_SITELOCAL)" "IN6_IS_ADDR_MULTICAST (in6_bytes IN6_ADDR_MULTICAST)"
  "IN6_IS_ADDR_UNIQUE_LOCAL (in6_bytes IN6_ADDR_UNIQUE_LOCAL)" "IN6_IS_ADDR_UNSPECIFIED (replicate 16 0)"
  by code_simp+

lemma zero16: "replicate 16 (0 :: u8) = [0, 0, 0, 0, 0, 0, 0, 0, 0, 0, 0, 0, 0, 0, 0, 0]"
  "replicate 15 (0 :: u8) = [0, 0, 0, 0, 0, 0, 0, 0, 0, 0, 0, 0, 0, 0, 0]"
  by code_simp+

lemma mc_addr_zero:
  "scope AND 0x0f = scope \<Longrightarrow>
   mc_addr scope [0, 0, 0, 0, 0, 0, 0, 0, 0, 0, 0, 0, 0, 0, 0, 0] s = Done [0xff, scope, 0, 0, 0, 0, 0, 0, 0, 0, 0, 0, 0, 0, 0, 0] s"
  by (simp add: mc_addr_def assert_addr_def assertM_def IN6_IS_ADDR_MC_def IN6_IS_ADDR_MULTICAST_def IPV6_ADDR_MC_SCOPE_def)

lemma get_in6_addr_bytes [simp]: "get_in6_addr addr s = Done (in6_bytes addr) s"
  using in6_asserts
  by (cases addr) (simp_all add: assert_addr_def assertM_def zero16 in6_stores poke_def mc_addr_zero in6_scopes)

lemma length_in6_bytes [simp]: "length (in6_bytes addr) = 16"
  by (cases addr) simp_all

section \<open>Socket addresses\<close>

definition AF_INET :: u8 where "AF_INET = 2"
definition AF_INET6 :: u8 where "AF_INET6 = 30"

record sockaddr_in6 =
  sin6_len :: u8
  sin6_family :: u8
  sin6_port :: u16
  sin6_flowinfo :: u32
  sin6_addr :: in6_addr
  sin6_scope_id :: u32

record sockaddr_in =
  sin_len :: u8
  sin_family :: u8
  sin_port :: u16
  sin_addr :: u32
  sin_zero :: "u8 list"

definition bytes_of_sockaddr_in6 :: "sockaddr_in6 \<Rightarrow> u8 list" where
  "bytes_of_sockaddr_in6 a = [sin6_len a, sin6_family a] @ bytes_of_u16 (sin6_port a) @ bytes_of_u32 (sin6_flowinfo a) @
     sin6_addr a @ bytes_of_u32 (sin6_scope_id a)"

definition bytes_of_sockaddr_in :: "sockaddr_in \<Rightarrow> u8 list" where
  "bytes_of_sockaddr_in a = [sin_len a, sin_family a] @ bytes_of_u16 (sin_port a) @ bytes_of_u32 (sin_addr a) @ sin_zero a"

text \<open>The messages.\<close>

record SockAddr6 =
  SockAddr6_port :: u32
  SockAddr6_flow_info :: u32
  SockAddr6_sin6_addr :: In6Addr
  SockAddr6_sin6_scope_id :: u32

datatype SockAddr =
  SockaddrGeneric (sa_family: u32) (sa_data: "u8 list")
| Sockaddr4 (sockaddr4_port: u32) (sockaddr4_addr: u32)
| Sockaddr6 SockAddr6
| SOCKADDR_NOT_SET

definition get_sockaddr6 :: "SockAddr6 \<Rightarrow> (sockaddr_in6, 's) prog" where
  "get_sockaddr6 sa6 = bindM (get_in6_addr (SockAddr6_sin6_addr sa6)) (\<lambda>addr.
     retM \<lparr>sin6_len = 28, sin6_family = AF_INET6, sin6_port = ucast (SockAddr6_port sa6),
           sin6_flowinfo = SockAddr6_flow_info sa6, sin6_addr = addr, sin6_scope_id = SockAddr6_sin6_scope_id sa6\<rparr>)"

fun get_sockaddr :: "SockAddr \<Rightarrow> (u8 list, 's) prog" where
  "get_sockaddr (SockaddrGeneric family data) =
     retM ([of_nat (2 + length data), ucast family] @ data)"
| "get_sockaddr (Sockaddr4 port addr) =
     retM (bytes_of_sockaddr_in \<lparr>sin_len = 16, sin_family = AF_INET, sin_port = ucast port, sin_addr = addr,
       sin_zero = replicate 8 0\<rparr>)"
| "get_sockaddr (Sockaddr6 sa6) = bindM (get_sockaddr6 sa6) (\<lambda>sai. retM (bytes_of_sockaddr_in6 sai))"
| "get_sockaddr SOCKADDR_NOT_SET = retM []"

section \<open>Headers\<close>

record ip =
  ip_hl :: "4 word"
  ip_v :: "4 word"
  ip_tos :: u8
  ip_len :: u16
  ip_id :: u16
  ip_off :: u16
  ip_ttl :: u8
  ip_p :: u8
  ip_sum :: u16
  ip_src :: u32
  ip_dst :: u32

record ip6_hdr =
  ip6_un1_flow :: u32
  ip6_un1_plen :: u16
  ip6_un1_nxt :: u8
  ip6_un1_hlim :: u8
  ip6_src :: in6_addr
  ip6_dst :: in6_addr

record tcphdr =
  th_sport :: u16
  th_dport :: u16
  th_seq :: u32
  th_ack :: u32
  th_x2 :: "4 word"
  th_off :: "4 word"
  th_flags :: u8
  th_win :: u16
  th_sum :: u16
  th_urp :: u16

definition nibbles :: "4 word \<Rightarrow> 4 word \<Rightarrow> u8" where
  "nibbles lo hi = ucast lo OR push_bit 4 (ucast hi)"

definition bytes_of_ip :: "ip \<Rightarrow> u8 list" where
  "bytes_of_ip h = [nibbles (ip_hl h) (ip_v h), ip_tos h] @ bytes_of_u16 (ip_len h) @ bytes_of_u16 (ip_id h) @
     bytes_of_u16 (ip_off h) @ [ip_ttl h, ip_p h] @ bytes_of_u16 (ip_sum h) @ bytes_of_u32 (ip_src h) @ bytes_of_u32 (ip_dst h)"

definition bytes_of_ip6_hdr :: "ip6_hdr \<Rightarrow> u8 list" where
  "bytes_of_ip6_hdr h = bytes_of_u32 (ip6_un1_flow h) @ bytes_of_u16 (ip6_un1_plen h) @ [ip6_un1_nxt h, ip6_un1_hlim h] @
     ip6_src h @ ip6_dst h"

definition bytes_of_tcphdr :: "tcphdr \<Rightarrow> u8 list" where
  "bytes_of_tcphdr h = bytes_of_u16 (th_sport h) @ bytes_of_u16 (th_dport h) @ bytes_of_u32 (th_seq h) @
     bytes_of_u32 (th_ack h) @ [nibbles (th_x2 h) (th_off h), th_flags h] @ bytes_of_u16 (th_win h) @
     bytes_of_u16 (th_sum h) @ bytes_of_u16 (th_urp h)"

definition ip_at :: "u8 list \<Rightarrow> ip" where
  "ip_at bs = \<lparr>ip_hl = ucast (bs ! 0), ip_v = ucast (drop_bit 4 (bs ! 0)), ip_tos = bs ! 1, ip_len = peek16 bs 2,
     ip_id = peek16 bs 4, ip_off = peek16 bs 6, ip_ttl = bs ! 8, ip_p = bs ! 9, ip_sum = peek16 bs 10,
     ip_src = peek32 bs 12, ip_dst = peek32 bs 16\<rparr>"

definition ip6_hdr_at :: "u8 list \<Rightarrow> ip6_hdr" where
  "ip6_hdr_at bs = \<lparr>ip6_un1_flow = peek32 bs 0, ip6_un1_plen = peek16 bs 4, ip6_un1_nxt = bs ! 6, ip6_un1_hlim = bs ! 7,
     ip6_src = take 16 (drop 8 bs), ip6_dst = take 16 (drop 24 bs)\<rparr>"

definition tcphdr_at :: "u8 list \<Rightarrow> tcphdr" where
  "tcphdr_at bs = \<lparr>th_sport = peek16 bs 0, th_dport = peek16 bs 2, th_seq = peek32 bs 4, th_ack = peek32 bs 8,
     th_x2 = ucast (bs ! 12), th_off = ucast (drop_bit 4 (bs ! 12)), th_flags = bs ! 13, th_win = peek16 bs 14,
     th_sum = peek16 bs 16, th_urp = peek16 bs 18\<rparr>"

lemma length_bytes_of_u16 [simp]: "length (bytes_of_u16 w) = 2"
  by (simp add: bytes_of_u16_def)

lemma u16_bytes_roundtrip [simp]: "ucast (u64_of_bytes (bytes_of_u16 w)) = w"
  unfolding bytes_of_u16_def u64_of_bytes_prefix
  by (rule bit_word_eqI) (auto simp: bit_simps)

lemma nibbles_lo [simp]: "ucast (nibbles lo hi) = lo"
  by (rule bit_word_eqI) (auto simp: nibbles_def bit_simps)

lemma nibbles_hi [simp]: "ucast (drop_bit 4 (nibbles lo hi)) = hi"
  by (rule bit_word_eqI) (auto simp: nibbles_def bit_simps dest: bit_imp_le_length)

lemma length_bytes_of_headers [simp]:
  "length (bytes_of_ip h) = 20" "length (bytes_of_tcphdr t) = 20"
  "length (ip6_src h6) = 16 \<Longrightarrow> length (ip6_dst h6) = 16 \<Longrightarrow> length (bytes_of_ip6_hdr h6) = 40"
  by (simp_all add: bytes_of_ip_def bytes_of_tcphdr_def bytes_of_ip6_hdr_def)

lemma ip_roundtrip [simp]: "ip_at (bytes_of_ip h @ rest) = h"
  by (simp add: ip_at_def bytes_of_ip_def peek16_def peek32_def nth_append)

lemma tcphdr_roundtrip [simp]: "tcphdr_at (bytes_of_tcphdr h @ rest) = h"
  by (simp add: tcphdr_at_def bytes_of_tcphdr_def peek16_def peek32_def nth_append)

lemma ip6_hdr_roundtrip [simp]:
  "length (ip6_src h) = 16 \<Longrightarrow> length (ip6_dst h) = 16 \<Longrightarrow> ip6_hdr_at (bytes_of_ip6_hdr h @ rest) = h"
  by (simp add: ip6_hdr_at_def bytes_of_ip6_hdr_def peek16_def peek32_def nth_append)

text \<open>The messages of the headers.\<close>

record Ip6Hdrctl =
  Ip6Hdrctl_ip6_un1_nxt :: u32
  Ip6Hdrctl_ip6_un1_hlim :: u32

record Ip6Hdr =
  Ip6Hdr_ip6_hdrctl :: Ip6Hdrctl
  Ip6Hdr_ip6_src :: In6Addr
  Ip6Hdr_ip6_dst :: In6Addr

record IpHdr =
  IpHdr_ip_tos :: u32
  IpHdr_ip_id :: u32
  IpHdr_ip_off :: u32
  IpHdr_ip_ttl :: u32
  IpHdr_ip_p :: u32
  IpHdr_ip_src :: u32
  IpHdr_ip_dst :: u32

record TcpHdr =
  TcpHdr_th_sport :: u32
  TcpHdr_th_dport :: u32
  TcpHdr_th_seq :: u32
  TcpHdr_th_ack :: u32
  TcpHdr_th_off :: u32
  TcpHdr_th_flags :: "u32 list"
  TcpHdr_th_win :: u32
  TcpHdr_th_urp :: u32
  TcpHdr_is_pure_syn :: bool
  TcpHdr_is_pure_ack :: bool

definition IPV6_VERSION :: u8 where "IPV6_VERSION = 0x60"
definition IPV4 :: "4 word" where "IPV4 = 4"
definition TH_SYN :: u8 where "TH_SYN = 2"
definition TH_RST :: u8 where "TH_RST = 4"
definition TH_ACK :: u8 where "TH_ACK = 16"

text \<open>Both addresses of an IPv6 header are read from the source field of the message. The version byte is the first
  byte of the flow word.\<close>

definition get_ip6_hdr :: "Ip6Hdr \<Rightarrow> u16 \<Rightarrow> (u8 list, 's) prog" where
  "get_ip6_hdr hdr expected_size =
     bindM (get_in6_addr (Ip6Hdr_ip6_src hdr)) (\<lambda>src.
     bindM (get_in6_addr (Ip6Hdr_ip6_src hdr)) (\<lambda>dst.
     retM (bytes_of_ip6_hdr \<lparr>ip6_un1_flow = ucast IPV6_VERSION, ip6_un1_plen = bswap16 expected_size,
       ip6_un1_nxt = ucast (Ip6Hdrctl_ip6_un1_nxt (Ip6Hdr_ip6_hdrctl hdr)),
       ip6_un1_hlim = ucast (Ip6Hdrctl_ip6_un1_hlim (Ip6Hdr_ip6_hdrctl hdr)), ip6_src = src, ip6_dst = dst\<rparr>)))"

definition get_ip_hdr :: "IpHdr \<Rightarrow> nat \<Rightarrow> u8 list" where
  "get_ip_hdr hdr expected_size = bytes_of_ip
     \<lparr>ip_hl = 5, ip_v = IPV4, ip_tos = ucast (IpHdr_ip_tos hdr), ip_len = bswap16 (of_nat expected_size),
      ip_id = ucast (IpHdr_ip_id hdr), ip_off = ucast (IpHdr_ip_off hdr), ip_ttl = ucast (IpHdr_ip_ttl hdr),
      ip_p = ucast (IpHdr_ip_p hdr), ip_sum = 0, ip_src = IpHdr_ip_src hdr, ip_dst = IpHdr_ip_dst hdr\<rparr>"

definition tcp_flags :: "TcpHdr \<Rightarrow> u8" where
  "tcp_flags hdr = (let flags = fold (\<lambda>flag f. f XOR ucast flag) (TcpHdr_th_flags hdr) 0 in
     if TcpHdr_is_pure_syn hdr then flags AND NOT (TH_RST OR TH_ACK) OR TH_SYN
     else if TcpHdr_is_pure_ack hdr then flags AND NOT (TH_RST OR TH_SYN) OR TH_ACK
     else flags)"

definition get_tcp_hdr :: "TcpHdr \<Rightarrow> u8 list" where
  "get_tcp_hdr hdr = bytes_of_tcphdr
     \<lparr>th_sport = ucast (TcpHdr_th_sport hdr), th_dport = ucast (TcpHdr_th_dport hdr), th_seq = bswap32 (TcpHdr_th_seq hdr),
      th_ack = bswap32 (TcpHdr_th_ack hdr), th_x2 = 0, th_off = ucast (TcpHdr_th_off hdr), th_flags = tcp_flags hdr,
      th_win = ucast (TcpHdr_th_win hdr), th_sum = 0, th_urp = ucast (TcpHdr_th_urp hdr)\<rparr>"

text \<open>The extension headers, which no packet of the fuzzer carries yet.\<close>

definition get_icmp6_hdr :: "u32 \<Rightarrow> u32 \<Rightarrow> u32 \<Rightarrow> u8 list" where
  "get_icmp6_hdr icmp6_type icmp6_code icmp6_dataun =
     [ucast icmp6_type, ucast icmp6_code] @ bytes_of_u16 0 @ bytes_of_u32 icmp6_dataun"

definition get_ip6_route_hdr :: "u32 \<Rightarrow> u32 \<Rightarrow> u32 \<Rightarrow> u32 \<Rightarrow> u8 list" where
  "get_ip6_route_hdr ip6r_nxt ip6r_len ip6r_type ip6r_segleft =
     [ucast ip6r_nxt, ucast ip6r_len, ucast ip6r_type, ucast ip6r_segleft]"

record Ip6Rt0Hdr =
  ip6r0_nxt :: u32
  ip6r0_len :: u32
  ip6r0_type :: u32
  ip6r0_segleft :: u32
  ip6r0_reserved :: u32
  ip6r0_slmap :: u32
  ip6r0_addr :: "In6Addr list"

text \<open>The loop stops at the 23 addresses the structure has room for. The map is stored as four bytes in a field of three.\<close>

primrec route0_addrs :: "In6Addr list \<Rightarrow> nat \<Rightarrow> u8 list \<Rightarrow> (u8 list, 's) prog" where
  "route0_addrs [] i bs = retM bs"
| "route0_addrs (a # as) i bs =
     (if 23 \<le> i then retM bs
      else bindM (get_in6_addr a) (\<lambda>addr. route0_addrs as (i + 1) (poke bs (8 + 16 * i) addr)))"

definition get_ip6_route0_hdr :: "Ip6Rt0Hdr \<Rightarrow> (u8 list, 's) prog" where
  "get_ip6_route0_hdr hdr =
     (let bs = [ucast (ip6r0_nxt hdr), ucast (ip6r0_len hdr), ucast (ip6r0_type hdr), ucast (ip6r0_segleft hdr),
                ucast (ip6r0_reserved hdr)] @ replicate (3 + 16 * 23) 0 in
      route0_addrs (ip6r0_addr hdr) 0 (poke bs 5 (bytes_of_u32 (ip6r0_slmap hdr))))"

definition get_ip6_frag_hdr :: "u32 \<Rightarrow> u32 \<Rightarrow> u32 \<Rightarrow> u32 \<Rightarrow> u8 list" where
  "get_ip6_frag_hdr ip6f_nxt ip6f_reserved ip6f_offlg ip6f_ident =
     [ucast ip6f_nxt, ucast ip6f_reserved] @ bytes_of_u16 (ucast ip6f_offlg) @ bytes_of_u32 ip6f_ident"

definition get_ip6_ext :: "u32 \<Rightarrow> u32 \<Rightarrow> u8 list" where
  "get_ip6_ext ip6e_nxt ip6e_len = [ucast ip6e_nxt, ucast ip6e_len]"

record in6_addrlifetime_64 =
  ia6t_expire :: u64
  ia6t_preferred :: u64
  ia6t_vltime :: u32
  ia6t_pltime :: u32

definition get_in6_addrlifetime_64 :: "in6_addrlifetime_64 \<Rightarrow> u8 list" where
  "get_in6_addrlifetime_64 msg = bytes_of_u64 (ia6t_expire msg) @ bytes_of_u64 (ia6t_preferred msg) @
     bytes_of_u32 (ia6t_vltime msg) @ bytes_of_u32 (ia6t_pltime msg)"

datatype IfrName = LO0 | STF0 | IPSEC0 | UTUN0

text \<open>The name is copied with its terminating NUL over the start of the destination.\<close>

definition ascii_bytes :: "string \<Rightarrow> u8 list" where
  "ascii_bytes cs = map (\<lambda>c. of_nat (of_char c)) cs @ [0]"

fun get_ifr_name :: "u8 list \<Rightarrow> IfrName \<Rightarrow> u8 list" where
  "get_ifr_name dest LO0 = poke dest 0 (ascii_bytes ''lo0'')"
| "get_ifr_name dest STF0 = poke dest 0 (ascii_bytes ''stf0'')"
| "get_ifr_name dest IPSEC0 = poke dest 0 (ascii_bytes ''ipsec0'')"
| "get_ifr_name dest UTUN0 = poke dest 0 (ascii_bytes ''utun0'')"

section \<open>Facts on the headers\<close>

lemma bswap16_twice [simp]: "bswap16 (bswap16 w) = w"
  by (rule bit_word_eqI) (auto simp: bswap16_def bit_simps dest: bit_imp_le_length)

lemma ip_hdr_fields:
  "ip_at (get_ip_hdr hdr n @ rest) =
     \<lparr>ip_hl = 5, ip_v = IPV4, ip_tos = ucast (IpHdr_ip_tos hdr), ip_len = bswap16 (of_nat n),
      ip_id = ucast (IpHdr_ip_id hdr), ip_off = ucast (IpHdr_ip_off hdr), ip_ttl = ucast (IpHdr_ip_ttl hdr),
      ip_p = ucast (IpHdr_ip_p hdr), ip_sum = 0, ip_src = IpHdr_ip_src hdr, ip_dst = IpHdr_ip_dst hdr\<rparr>"
  by (simp add: get_ip_hdr_def)

lemma unat_word16: "unat (of_nat n :: u16) = n mod 65536"
  by (simp add: unat_of_nat)

lemma length_get_hdr [simp]: "length (get_ip_hdr hdr n) = 20" "length (get_tcp_hdr h) = 20"
  by (simp_all add: get_ip_hdr_def get_tcp_hdr_def)

text \<open>A pure SYN has SYN and neither ACK nor RST, a pure ACK the other way round, whatever flags were listed.\<close>

lemma tcp_flags_pure:
  "TcpHdr_is_pure_syn hdr \<Longrightarrow> tcp_flags hdr AND (TH_SYN OR TH_ACK OR TH_RST) = TH_SYN"
  "\<not> TcpHdr_is_pure_syn hdr \<Longrightarrow> TcpHdr_is_pure_ack hdr \<Longrightarrow> tcp_flags hdr AND (TH_SYN OR TH_ACK OR TH_RST) = TH_ACK"
  by (rule bit_word_eqI, auto simp: tcp_flags_def Let_def bit_simps)+

section \<open>Packets\<close>

record TcpPacket =
  TcpPacket_ip_hdr :: IpHdr
  TcpPacket_tcp_hdr :: TcpHdr
  TcpPacket_data :: "u8 list"

record Tcp6Packet =
  Tcp6Packet_ip6_hdr :: Ip6Hdr
  Tcp6Packet_tcp_hdr :: TcpHdr
  Tcp6Packet_data :: "u8 list"

record Ip4Packet =
  Ip4Packet_ip_hdr :: IpHdr
  Ip4Packet_data :: "u8 list"

record Ip6Packet =
  Ip6Packet_ip6_hdr :: Ip6Hdr
  Ip6Packet_data :: "u8 list"

text \<open>Raw packets are passed where the message keeps them: an address and a length.\<close>

datatype Packet = kTcpPacket TcpPacket | kTcp6Packet Tcp6Packet | kIp4Packet Ip4Packet | kIp6Packet Ip6Packet
  | kRawIp4 ptr nat | kRawIp6 ptr nat | PACKET_NOT_SET

definition PKTF_LOOP :: int where "PKTF_LOOP = 0x2000"

text \<open>The buffer of a \<open>std::string\<close> on the heap: its characters and a NUL, released at the end of the function. A
  failed allocation throws, which ends the process.\<close>

definition with_string :: "u8 list \<Rightarrow> (ptr \<Rightarrow> (unit, 'z bstate_scheme) prog) \<Rightarrow> (unit, 'z bstate_scheme) prog" where
  "with_string bs body =
     bindM (heapM (malloc (length bs + 1))) (\<lambda>p.
       if p = 0 then abortM
       else thenM (heapM (store_at p (bs @ [0]))) (thenM (body p) (heapM (free p))))"

text \<open>The last steps every packet shares: wrap the bytes in an mbuf and hand it to the stack, unless there is none.\<close>

definition inject :: "'z xnu_bsd \<Rightarrow> (ptr \<Rightarrow> (unit, 'z bstate_scheme) prog) \<Rightarrow> ptr \<Rightarrow> nat \<Rightarrow> (unit, 'z bstate_scheme) prog" where
  "inject xb input data n =
     bindM (get_mbuf_data xb data n PKTF_LOOP) (\<lambda>mbuf_data. if mbuf_data = 0 then retM () else input mbuf_data)"

definition DoTcpInput :: "'z xnu_bsd \<Rightarrow> TcpPacket \<Rightarrow> (unit, 'z bstate_scheme) prog" where
  "DoTcpInput xb tcp_packet =
     (let expected_size = 20 + 20 + length (TcpPacket_data tcp_packet);
          packet_s = get_ip_hdr (TcpPacket_ip_hdr tcp_packet) expected_size @ get_tcp_hdr (TcpPacket_tcp_hdr tcp_packet) @
            TcpPacket_data tcp_packet in
      thenM (assertM (expected_size = length packet_s))
       (if packet_s = [] then retM ()
        else with_string packet_s (\<lambda>data. inject xb (ip_input_wrapper xb) data (length packet_s))))"

definition DoTcp6Input :: "'z xnu_bsd \<Rightarrow> Tcp6Packet \<Rightarrow> (unit, 'z bstate_scheme) prog" where
  "DoTcp6Input xb tcp6_packet =
     (let expected_size = 20 + length (Tcp6Packet_data tcp6_packet) in
      bindM (get_ip6_hdr (Tcp6Packet_ip6_hdr tcp6_packet) (of_nat expected_size)) (\<lambda>ip6.
      let packet_s = ip6 @ get_tcp_hdr (Tcp6Packet_tcp_hdr tcp6_packet) @ Tcp6Packet_data tcp6_packet in
      if packet_s = [] then retM ()
      else with_string packet_s (\<lambda>data. inject xb (ip6_input_wrapper xb) data (length packet_s))))"

definition DoIp4Packet :: "'z xnu_bsd \<Rightarrow> Ip4Packet \<Rightarrow> (unit, 'z bstate_scheme) prog" where
  "DoIp4Packet xb packet =
     (let expected_size = 20 + length (Ip4Packet_data packet);
          packet_s = get_ip_hdr (Ip4Packet_ip_hdr packet) expected_size @ Ip4Packet_data packet in
      with_string packet_s (\<lambda>data. inject xb (ip_input_wrapper xb) data (length packet_s)))"

definition DoIp6Packet :: "'z xnu_bsd \<Rightarrow> Ip6Packet \<Rightarrow> (unit, 'z bstate_scheme) prog" where
  "DoIp6Packet xb packet =
     (let expected_size = length (Ip6Packet_data packet) in
      bindM (get_ip6_hdr (Ip6Packet_ip6_hdr packet) (of_nat expected_size)) (\<lambda>ip6.
      let packet_s = ip6 @ Ip6Packet_data packet in
      with_string packet_s (\<lambda>data. inject xb (ip6_input_wrapper xb) data (length packet_s))))"

fun DoIpInput :: "'z xnu_bsd \<Rightarrow> Packet \<Rightarrow> (unit, 'z bstate_scheme) prog" where
  "DoIpInput xb (kTcpPacket packet) = DoTcpInput xb packet"
| "DoIpInput xb (kTcp6Packet packet) = DoTcp6Input xb packet"
| "DoIpInput xb (kIp4Packet packet) = DoIp4Packet xb packet"
| "DoIpInput xb (kIp6Packet packet) = DoIp6Packet xb packet"
| "DoIpInput xb (kRawIp4 data n) = inject xb (ip_input_wrapper xb) data n"
| "DoIpInput xb (kRawIp6 data n) = inject xb (ip6_input_wrapper xb) data n"
| "DoIpInput xb PACKET_NOT_SET = retM ()"

section \<open>What reaches the stack\<close>

text \<open>The bytes of a packet built from its message, as the reference, and the entry point they go to.\<close>

definition ip6_header :: "Ip6Hdr \<Rightarrow> nat \<Rightarrow> u8 list" where
  "ip6_header hdr n = bytes_of_ip6_hdr
     \<lparr>ip6_un1_flow = 0x60, ip6_un1_plen = bswap16 (of_nat n),
      ip6_un1_nxt = ucast (Ip6Hdrctl_ip6_un1_nxt (Ip6Hdr_ip6_hdrctl hdr)),
      ip6_un1_hlim = ucast (Ip6Hdrctl_ip6_un1_hlim (Ip6Hdr_ip6_hdrctl hdr)),
      ip6_src = in6_bytes (Ip6Hdr_ip6_src hdr), ip6_dst = in6_bytes (Ip6Hdr_ip6_src hdr)\<rparr>"

fun packet_bytes :: "Packet \<Rightarrow> u8 list option" where
  "packet_bytes (kTcpPacket p) = Some (let d = TcpPacket_data p in
     get_ip_hdr (TcpPacket_ip_hdr p) (40 + length d) @ get_tcp_hdr (TcpPacket_tcp_hdr p) @ d)"
| "packet_bytes (kTcp6Packet p) = Some (let d = Tcp6Packet_data p in
     ip6_header (Tcp6Packet_ip6_hdr p) (20 + length d) @ get_tcp_hdr (Tcp6Packet_tcp_hdr p) @ d)"
| "packet_bytes (kIp4Packet p) = Some (let d = Ip4Packet_data p in get_ip_hdr (Ip4Packet_ip_hdr p) (20 + length d) @ d)"
| "packet_bytes (kIp6Packet p) = Some (let d = Ip6Packet_data p in ip6_header (Ip6Packet_ip6_hdr p) (length d) @ d)"
| "packet_bytes _ = None"

fun packet_entry :: "'z xnu_bsd \<Rightarrow> Packet \<Rightarrow> ptr \<Rightarrow> (unit, 'z bstate_scheme) prog" where
  "packet_entry xb (kTcp6Packet _) = ip6_input xb"
| "packet_entry xb (kIp6Packet _) = ip6_input xb"
| "packet_entry xb (kRawIp6 _ _) = ip6_input xb"
| "packet_entry xb _ = ip_input xb"

lemma get_ip6_hdr_bytes [simp]: "get_ip6_hdr hdr (of_nat n) s = Done (ip6_header hdr n) s"
  by (simp add: get_ip6_hdr_def ip6_header_def IPV6_VERSION_def)

lemma length_ip6_header [simp]: "length (ip6_header hdr n) = 40"
  by (simp add: ip6_header_def)

lemma get_ip6_hdr_tcp [simp]: "get_ip6_hdr hdr (20 + of_nat n) s = Done (ip6_header hdr (20 + n)) s"
  using get_ip6_hdr_bytes [of hdr "20 + n"] by simp

lemma headers_nonempty [simp]: "get_ip_hdr hdr n \<noteq> []" "ip6_header hdr6 n \<noteq> []"
  using length_get_hdr(1) [of hdr n] length_ip6_header [of hdr6 n] by force+

lemma ip6_header_first: "(ip6_header hdr n @ rest) ! 0 = IPV6_VERSION"
proof -
  have "bytes_of_u32 0x60 = [0x60, 0, 0, 0]" by code_simp
  then show ?thesis by (simp add: ip6_header_def bytes_of_ip6_hdr_def IPV6_VERSION_def)
qed

lemma DoIpInput_built:
  assumes "packet_bytes packet = Some bs"
  shows "DoIpInput xb packet s = with_string bs (\<lambda>data. inject xb (packet_entry xb packet) data (length bs)) s"
  using assms
  by (cases packet) (auto simp: DoTcpInput_def DoTcp6Input_def DoIp4Packet_def DoIp6Packet_def Let_def assertM_def
      ip_input_wrapper_def [abs_def] ip6_input_wrapper_def [abs_def])

lemma mbuf_create_copies:
  assumes "m_gethdr xb MT_DATA u = Done m t" and "m \<noteq> 0" and "mbufs t m = Some v"
    and src: "in_block (mheap t) p (length bs)" "read_bytes (mheap t) p (length bs) = bs"
    and dst: "in_block (mheap t) (m_data v) (m_len v)"
  defines "n \<equiv> min (length bs) (m_len v)"
  shows "mbuf_create xb p (length bs) True False MT_DATA flags u =
    Done m (t\<lparr>mbufs := (mbufs t)(m \<mapsto> v\<lparr>m_len := n\<rparr>), mheap := write_bytes (m_data v) (take n bs) (mheap t)\<rparr>)"
proof -
  have n: "(if length bs > m_len v then m_len v else length bs) = n" by (simp add: n_def)
  have part: "in_block h a k" if "in_block h a l" "k \<le> l" for h a k l
    using that by (force simp: in_block_def list_ex_iff)
  have "read_bytes (mheap t) p n = take n bs"
    using read_bytes_part [of 0 n "length bs" "mheap t" p] src(2) by (simp add: n_def)
  moreover have "in_block (mheap t) p n" "in_block (mheap t) (m_data v) n" using part src(1) dst by (auto simp: n_def)
  ultimately have "memcpy (m_data v) p n (mheap t) = Done () (write_bytes (m_data v) (take n bs) (mheap t))"
    by (simp add: memcpy_def memory_at_def store_at_def n_def min.absorb2)
  then show ?thesis using assms(1-3) by (simp add: mbuf_create_def n mbuf_upd_def)
qed

text \<open>A string is alive and holds its characters while its body runs.\<close>

lemma with_string_runs:
  assumes "heap_wf (mheap s)" and "malloc (length bs + 1) (mheap s) = Done p h" and "p \<noteq> 0"
  defines "u \<equiv> s\<lparr>mheap := write_bytes p (bs @ [0]) h\<rparr>"
  shows "with_string bs body s = thenM (body p) (heapM (free p)) u" and "heap_wf (mheap u)"
    and "block_size (mheap u) p = Some (length bs + 1)" and "read_bytes (mheap u) p (length bs) = bs"
proof -
  have h: "heap_wf h" "block_size h p = Some (length bs + 1)"
    using alloc_aligned_contract [OF assms(1), of 1 "length bs + 1" None] assms(2,3) by (auto simp: malloc_def)
  then show "heap_wf (mheap u)" "block_size (mheap u) p = Some (length bs + 1)" by (simp_all add: u_def)
  have "in_block h p (length (bs @ [0]))" using in_block_base [OF h(2)] by simp
  then show "with_string bs body s = thenM (body p) (heapM (free p)) u"
    using assms(2,3) by (simp add: with_string_def store_at_def u_def)
  show "read_bytes (mheap u) p (length bs) = bs"
    using read_bytes_part [of 0 "length bs" "length (bs @ [0])" "write_bytes p (bs @ [0]) h" p]
      read_write_same [of p "bs @ [0]" h] by (simp add: u_def)
qed

text \<open>Injecting a packet built from its message hands the stack one mbuf. Its length is that of the packet, cut to the length the
  mbuf came with from \<open>m_gethdr\<close>, and it holds that many first bytes of the packet; the temporary string is released when the stack
  returns. The hypotheses are that the string and the mbuf could be allocated, that allocating the mbuf leaves the live blocks
  alone, and that setting the receiving interface changes nothing the model has.
\<close>

lemma DoIpInput_delivers:
  assumes "packet_bytes packet = Some bs" and "heap_wf (mheap s)" and "malloc (length bs + 1) (mheap s) = Done p h" and "p \<noteq> 0"
    and "m_gethdr xb MT_DATA (s\<lparr>mheap := write_bytes p (bs @ [0]) h\<rparr>) = Done m t" and "m \<noteq> 0" and "mbufs t m = Some v"
    and "keeps (write_bytes p (bs @ [0]) h) (mheap t) {}" and "in_block (mheap t) (m_data v) (m_len v)"
    and "\<And>w. mbuf_pkthdr_setrcvif xb m (lo_ifp xb) w = Done () w"
  shows "\<exists>w. DoIpInput xb packet s = thenM (packet_entry xb packet m) (heapM (free p)) w \<and>
    mbufs w m = Some (v\<lparr>m_len := min (length bs) (m_len v)\<rparr>) \<and>
    read_bytes (mheap w) (m_data v) (min (length bs) (m_len v)) = take (m_len v) bs"
proof -
  note str = with_string_runs [OF assms(2-4)]
  let ?n = "min (length bs) (m_len v)"
  let ?w = "t\<lparr>mbufs := (mbufs t)(m \<mapsto> v\<lparr>m_len := ?n\<rparr>), mheap := write_bytes (m_data v) (take ?n bs) (mheap t)\<rparr>"
  have "in_block (mheap t) p (length bs) \<and> read_bytes (mheap t) p (length bs) = bs"
    using keeps_in_block [OF _ assms(8), of p "length bs"] str(2-4) in_block_base [OF str(3)] by simp
  then have "mbuf_create xb p (length bs) True False MT_DATA PKTF_LOOP (s\<lparr>mheap := write_bytes p (bs @ [0]) h\<rparr>) = Done m ?w"
    using mbuf_create_copies [OF assms(5-7) _ _ assms(9)] by blast
  then have "DoIpInput xb packet s = thenM (packet_entry xb packet m) (heapM (free p)) ?w"
    using assms(6,10) by (simp add: DoIpInput_built [OF assms(1)] str(1) inject_def get_mbuf_data_def)
  moreover have "read_bytes (mheap ?w) (m_data v) ?n = take (m_len v) bs"
    using read_write_same [of "m_data v" "take ?n bs" "mheap t"] by (simp add: min_def split: if_splits)
  ultimately show ?thesis by auto
qed

definition ip4_example :: Ip4Packet where
  "ip4_example = \<lparr>Ip4Packet_ip_hdr = \<lparr>IpHdr_ip_tos = 0, IpHdr_ip_id = 1, IpHdr_ip_off = 0, IpHdr_ip_ttl = 64, IpHdr_ip_p = 6,
     IpHdr_ip_src = 2130706433, IpHdr_ip_dst = 1\<rparr>, Ip4Packet_data = [7]\<rparr>"

text \<open>C18. Injected packets are empty. An mbuf comes from \<open>m_gethdr\<close> with length 0, and the code cuts the packet to that length: whatever packet
  is built from its message, the stack is called with the mbuf in exactly the state \<open>m_gethdr\<close> left, with no byte of the packet
  copied and length 0, and the temporary string is released when the stack returns.\<close>

theorem DoIpInput_empty:
  assumes "packet_bytes packet = Some bs" and "heap_wf (mheap s)" and "malloc (length bs + 1) (mheap s) = Done p h" and "p \<noteq> 0"
    and "m_gethdr xb MT_DATA (s\<lparr>mheap := write_bytes p (bs @ [0]) h\<rparr>) = Done m t" and "m \<noteq> 0" and "mbufs t m = Some v" and "m_len v = 0"
    and "\<And>w. mbuf_pkthdr_setrcvif xb m (lo_ifp xb) w = Done () w"
  shows "DoIpInput xb packet s = thenM (packet_entry xb packet m) (heapM (free p)) t"
  using get_mbuf_data_empty [OF assms(5-9)] assms(6)
  by (simp add: DoIpInput_built [OF assms(1)] with_string_runs(1) [OF assms(2-4)] inject_def)

theorem DoIpInput_empty_witness:
  "\<exists>t. DoIpInput xb_example (kIp4Packet ip4_example) bstate_example = thenM (ip_input xb_example 60) (heapM (free 4000)) t \<and>
     mbufs t 60 = Some \<lparr>m_len = 0, m_data = 1000\<rparr>"
proof -
  obtain bs where bs: "packet_bytes (kIp4Packet ip4_example) = Some bs" "length bs = 21"
    by (simp add: ip4_example_def)
  define h where "h = (mheap bstate_example)\<lparr>choices := [], blocks := (4000, 22) # blocks (mheap bstate_example),
    mem := fill (mem (mheap bstate_example)) 4000 22 (\<lambda>_. 0)\<rparr>"
  have m: "malloc (length bs + 1) (mheap bstate_example) = Done 4000 h"
    by (simp add: bs(2) h_def bstate_example_ok(4) malloc_def alloc_aligned_def legal_block_def separate_def addr_limit_def)
  let ?t = "bstate_example\<lparr>mheap := write_bytes 4000 (bs @ [0]) h\<rparr>"
  have t: "mbufs ?t 60 = Some \<lparr>m_len = 0, m_data = 1000\<rparr>" by (simp add: bstate_example_defs)
  have "DoIpInput xb_example (kIp4Packet ip4_example) bstate_example = thenM (ip_input xb_example 60) (heapM (free 4000)) ?t"
    using DoIpInput_empty [OF bs(1) bstate_example_ok(1) m, of xb_example 60 ?t] t by (simp add: xb_example_def)
  with t show ?thesis by blast
qed

text \<open>The fields of a TCP header, read at their offsets.\<close>

definition carries_tcp :: "TcpHdr \<Rightarrow> u8 list \<Rightarrow> bool" where
  "carries_tcp hdr bs \<longleftrightarrow>
     peek16 bs 0 = ucast (TcpHdr_th_sport hdr) \<and> peek16 bs 2 = ucast (TcpHdr_th_dport hdr) \<and>
     ntohl (peek32 bs 4) = TcpHdr_th_seq hdr \<and> ntohl (peek32 bs 8) = TcpHdr_th_ack hdr \<and>
     (ucast (drop_bit 4 (bs ! 12)) :: 4 word) = ucast (TcpHdr_th_off hdr) \<and> bs ! 13 = tcp_flags hdr \<and>
     peek16 bs 14 = ucast (TcpHdr_th_win hdr) \<and> peek16 bs 16 = 0 \<and> peek16 bs 18 = ucast (TcpHdr_th_urp hdr)"

lemma bit_bswap32:
  "bit (bswap32 w) n \<longleftrightarrow> 24 \<le> n \<and> n < 32 \<and> bit w (n - 24) \<or> 16 \<le> n \<and> n < 24 \<and> bit w (n - 8) \<or>
     8 \<le> n \<and> n < 16 \<and> bit w (n + 8) \<or> n < 8 \<and> bit w (n + 24)"
proof -
  have m: "(0xFF0000 :: u32) = push_bit 16 (mask 8)" "(0xFF00 :: u32) = push_bit 8 (mask 8)" by code_simp+
  show ?thesis unfolding bswap32_def m
    by (auto simp: bit_simps add.commute dest: bit_imp_le_length)
qed

lemma bswap32_twice [simp]: "bswap32 (bswap32 w) = w"
proof (rule bit_word_eqI)
  fix n assume "n < LENGTH(32)"
  then consider "n < 8" | "8 \<le> n \<and> n < 16" | "16 \<le> n \<and> n < 24" | "24 \<le> n \<and> n < 32" by force
  then show "bit (bswap32 (bswap32 w)) n = bit w n" by cases (auto simp: bit_bswap32)
qed

lemma carries_tcp_hdr: "carries_tcp hdr (get_tcp_hdr hdr @ rest)"
  by (simp add: carries_tcp_def get_tcp_hdr_def bytes_of_tcphdr_def peek16_def peek32_def nth_append ntohl_def)

text \<open>C19. The packets carry their messages. \<open>DoTcpInput\<close> injects a string of bytes that, read at the offsets of the C structures, has
  version 4, a header of five words, the length of the whole packet in network order (modulo 2^16, the width of the field), each other
  field of the IP header of the message, each field of its TCP header at offset 20 with sequence numbers in network order and no
  checksum, and the data at offset 40. \<open>DoTcp6Input\<close> injects a string with version 6, the length of what follows the header, the
  next header and hop limit of the message, the TCP header at offset 40 and the data at offset 60; both addresses are the ones
  \<open>get_in6_addr\<close> gives for the source of the message, whose destination is not used.\<close>

theorem packet_headers_decode:
  "\<exists>bs bs6.
     DoTcpInput xb p s = with_string bs (\<lambda>data. inject xb (ip_input xb) data (length bs)) s \<and>
     ip_v (ip_at bs) = 4 \<and> ip_hl (ip_at bs) = 5 \<and> unat (ntohs (ip_len (ip_at bs))) = length bs mod 2 ^ 16 \<and>
     ip_tos (ip_at bs) = ucast (IpHdr_ip_tos (TcpPacket_ip_hdr p)) \<and> ip_id (ip_at bs) = ucast (IpHdr_ip_id (TcpPacket_ip_hdr p)) \<and>
     ip_off (ip_at bs) = ucast (IpHdr_ip_off (TcpPacket_ip_hdr p)) \<and> ip_ttl (ip_at bs) = ucast (IpHdr_ip_ttl (TcpPacket_ip_hdr p)) \<and>
     ip_p (ip_at bs) = ucast (IpHdr_ip_p (TcpPacket_ip_hdr p)) \<and> ip_sum (ip_at bs) = 0 \<and>
     ip_src (ip_at bs) = IpHdr_ip_src (TcpPacket_ip_hdr p) \<and> ip_dst (ip_at bs) = IpHdr_ip_dst (TcpPacket_ip_hdr p) \<and>
     carries_tcp (TcpPacket_tcp_hdr p) (drop 20 bs) \<and> drop 40 bs = TcpPacket_data p \<and>
     DoTcp6Input xb q s = with_string bs6 (\<lambda>data. inject xb (ip6_input xb) data (length bs6)) s \<and>
     bs6 ! 0 = IPV6_VERSION \<and> unat (ntohs (ip6_un1_plen (ip6_hdr_at bs6))) = (length bs6 - 40) mod 2 ^ 16 \<and>
     ip6_un1_nxt (ip6_hdr_at bs6) = ucast (Ip6Hdrctl_ip6_un1_nxt (Ip6Hdr_ip6_hdrctl (Tcp6Packet_ip6_hdr q))) \<and>
     ip6_un1_hlim (ip6_hdr_at bs6) = ucast (Ip6Hdrctl_ip6_un1_hlim (Ip6Hdr_ip6_hdrctl (Tcp6Packet_ip6_hdr q))) \<and>
     get_in6_addr (Ip6Hdr_ip6_src (Tcp6Packet_ip6_hdr q)) s = Done (ip6_src (ip6_hdr_at bs6)) s \<and>
     get_in6_addr (Ip6Hdr_ip6_src (Tcp6Packet_ip6_hdr q)) s = Done (ip6_dst (ip6_hdr_at bs6)) s \<and>
     carries_tcp (Tcp6Packet_tcp_hdr q) (drop 40 bs6) \<and> drop 60 bs6 = Tcp6Packet_data q"
proof -
  let ?d = "TcpPacket_data p" and ?d6 = "Tcp6Packet_data q" and ?h6 = "Tcp6Packet_ip6_hdr q"
  let ?bs = "get_ip_hdr (TcpPacket_ip_hdr p) (40 + length ?d) @ get_tcp_hdr (TcpPacket_tcp_hdr p) @ ?d"
  let ?bs6 = "ip6_header ?h6 (20 + length ?d6) @ get_tcp_hdr (Tcp6Packet_tcp_hdr q) @ ?d6"
  have run: "DoTcpInput xb p s = with_string ?bs (\<lambda>data. inject xb (ip_input xb) data (length ?bs)) s"
    using DoIpInput_built [of "kTcpPacket p" ?bs xb s] by (simp add: Let_def)
  have run6: "DoTcp6Input xb q s = with_string ?bs6 (\<lambda>data. inject xb (ip6_input xb) data (length ?bs6)) s"
    using DoIpInput_built [of "kTcp6Packet q" ?bs6 xb s] by (simp add: Let_def)
  have tcp: "carries_tcp (TcpPacket_tcp_hdr p) (drop 20 ?bs)" "carries_tcp (Tcp6Packet_tcp_hdr q) (drop 40 ?bs6)"
    using carries_tcp_hdr by simp_all
  have len: "unat (ntohs (ip_len (ip_at ?bs))) = length ?bs mod 2 ^ 16"
    by (simp add: ip_hdr_fields ntohs_def unat_word16 [of "40 + _", simplified])
  have hdr6: "ip6_hdr_at ?bs6 = \<lparr>ip6_un1_flow = 0x60, ip6_un1_plen = bswap16 (of_nat (20 + length ?d6)),
      ip6_un1_nxt = ucast (Ip6Hdrctl_ip6_un1_nxt (Ip6Hdr_ip6_hdrctl ?h6)), ip6_un1_hlim = ucast (Ip6Hdrctl_ip6_un1_hlim (Ip6Hdr_ip6_hdrctl ?h6)),
      ip6_src = in6_bytes (Ip6Hdr_ip6_src ?h6), ip6_dst = in6_bytes (Ip6Hdr_ip6_src ?h6)\<rparr>"
    by (simp add: ip6_header_def)
  have len6: "unat (ntohs (ip6_un1_plen (ip6_hdr_at ?bs6))) = (length ?bs6 - 40) mod 2 ^ 16"
    unfolding hdr6 by (simp add: ntohs_def unat_word16 [of "20 + _", simplified])
  show ?thesis
    by (intro exI [of _ ?bs] exI [of _ ?bs6] conjI run run6 tcp len len6)
       (simp_all add: hdr6 ip_hdr_fields IPV4_def ip6_header_first del: append_assoc)
qed

text \<open>The addresses that are not what their names say, and what the assertions do not cover. The address of the local
  interface is stored in host order and is not link-local, although \<open>fe80:0001:...\<close> is meant; \<open>MAYBE_LOCALHOST\<close> is cut
  to its low byte and is the unspecified address; the address of the host itself has only its last word, in the first
  place; and the destination of an IPv6 header is its source, whatever the message says.
\<close>

lemma in6_addr_defects:
  "\<exists>a b c. get_in6_addr IN6_ADDR_LOCAL_ADDRESS s = Done a s \<and> \<not> IN6_IS_ADDR_LINKLOCAL a \<and>
     get_in6_addr MAYBE_LOCALHOST s = Done b s \<and> IN6_IS_ADDR_UNSPECIFIED b \<and> \<not> IN6_IS_ADDR_LOOPBACK b \<and>
     get_in6_addr IN6_ADDR_SELF s = Done c s \<and> \<not> IN6_IS_ADDR_LINKLOCAL c \<and>
     get_ip6_hdr hdr n s = get_ip6_hdr (hdr\<lparr>Ip6Hdr_ip6_dst := d\<rparr>) n s \<and>
     (\<exists>bs. get_ip6_hdr hdr n s = Done bs s \<and> ip6_dst (ip6_hdr_at bs) = in6_bytes (Ip6Hdr_ip6_src hdr))"
proof -
  have "\<not> IN6_IS_ADDR_LINKLOCAL (in6_bytes IN6_ADDR_LOCAL_ADDRESS)" "\<not> IN6_IS_ADDR_LINKLOCAL (in6_bytes IN6_ADDR_SELF)"
    "IN6_IS_ADDR_UNSPECIFIED (in6_bytes MAYBE_LOCALHOST)" "\<not> IN6_IS_ADDR_LOOPBACK (in6_bytes MAYBE_LOCALHOST)"
    by code_simp+
  moreover have "ip6_hdr_at (bytes_of_ip6_hdr h) = h" if "length (ip6_src h) = 16" "length (ip6_dst h) = 16" for h
    using ip6_hdr_roundtrip [of h "[]"] that by simp
  ultimately show ?thesis by (simp add: get_ip6_hdr_def del: in6_bytes.simps get_in6_addr.simps)
qed

section \<open>Routing headers and socket addresses\<close>

lemma length_poke [simp]: "off + length bs \<le> length dest \<Longrightarrow> length (poke dest off bs) = length dest"
  by (simp add: poke_def)

lemma poke_other: "i < off \<or> off + length bs \<le> i \<Longrightarrow> off + length bs \<le> length dest \<Longrightarrow> poke dest off bs ! i = dest ! i"
  by (auto simp: poke_def nth_append)

lemma poke_same: "i < length bs \<Longrightarrow> off + length bs \<le> length dest \<Longrightarrow> poke dest off bs ! (off + i) = bs ! i"
  by (simp add: poke_def nth_append)

text \<open>The addresses land in their slots, at most 23 of them, and nothing else changes.\<close>

lemma route0_addrs_runs:
  assumes "length bs = 376"
  shows "\<exists>t. route0_addrs as i bs s = Done t s \<and> length t = 376 \<and> (\<forall>k < 8 + 16 * i. t ! k = bs ! k) \<and>
     (as = [] \<longrightarrow> t = bs) \<and>
     (\<forall>j k. j < length as \<and> i + j < 23 \<and> k < 16 \<longrightarrow> t ! (8 + 16 * (i + j) + k) = in6_bytes (as ! j) ! k)"
  using assms
proof (induction as arbitrary: i bs)
  case (Cons a as)
  show ?case
  proof (cases "23 \<le> i")
    case False
    let ?bs = "poke bs (8 + 16 * i) (in6_bytes a)"
    have len: "length ?bs = 376" using Cons.prems False by simp
    from Cons.IH [OF this, of "i + 1"] obtain t where t: "route0_addrs as (i + 1) ?bs s = Done t s" "length t = 376"
      "\<forall>k < 8 + 16 * (i + 1). t ! k = ?bs ! k"
      "\<forall>j k. j < length as \<and> i + 1 + j < 23 \<and> k < 16 \<longrightarrow> t ! (8 + 16 * (i + 1 + j) + k) = in6_bytes (as ! j) ! k" by blast
    have "t ! k = bs ! k" if "k < 8 + 16 * i" for k
      using t(3) that Cons.prems False by (simp add: poke_other)
    moreover have "t ! (8 + 16 * (i + j) + k) = in6_bytes ((a # as) ! j) ! k" if "j < length (a # as)" "i + j < 23" "k < 16" for j k
      using t(3,4) that Cons.prems False by (cases j) (auto simp: poke_same)
    ultimately show ?thesis using t(1,2) False by simp
  qed (use Cons.prems in simp)
qed simp

lemma get_ip6_route0_hdr_slmap:
  assumes "ip6r0_addr hdr = []"
  shows "\<exists>t. get_ip6_route0_hdr hdr s = Done t s \<and> t ! 8 = ucast (drop_bit 24 (ip6r0_slmap hdr))"
proof -
  have "bytes_of_u32 w ! 3 = ucast (drop_bit 24 w)" for w
    by (rule bit_word_eqI) (auto simp: bytes_of_u32_def bit_simps)
  then show ?thesis
    using assms poke_same [of 3 "bytes_of_u32 (ip6r0_slmap hdr)" 5] by (simp add: get_ip6_route0_hdr_def Let_def)
qed

lemma get_sockaddr_len:
  "\<exists>bs. get_sockaddr sa s = Done bs s \<and> (bs \<noteq> [] \<longrightarrow> unat (bs ! 0) = length bs mod 256)"
  using unat_of_nat [of "Suc (Suc _)", where 'a = 8]
  by (cases sa) (simp_all add: get_sockaddr6_def bytes_of_sockaddr_in_def bytes_of_sockaddr_in6_def)

end
