(* ===== verification/Messages.thy ===== *)
theory Messages
  imports Packets
begin

text \<open>
  The Mach messages a test case builds, \<open>fuzz/handlers/mach_message.cc\<close>, and the conversions of MIG argument types,
  \<open>fuzz/handlers/mig_types.cc\<close>: port names, the five kinds of descriptors, the header with its size, and the vector that
  holds header, body, descriptors and inline data.

  The structures of \<open>mach/message.h\<close> come from a package outside the sources. Their layouts, sizes and constants are the
  parameter \<open>mh\<close>; what the code relies on is that a structure occupies \<open>sizeof\<close> bytes, the predicate \<open>layout_ok\<close>. A message
  is a record of its accessors' values, as in theory \<open>Packets\<close>.
\<close>

unbundle bit_operations_syntax

section \<open>The structures of the header file\<close>

record mach_msg_header =
  msgh_bits :: u32
  msgh_size :: u32
  msgh_remote_port :: u32
  msgh_local_port :: u32
  msgh_voucher_port :: u32
  msgh_id :: u32

record mach_h =
  header_bytes :: "mach_msg_header \<Rightarrow> u8 list"
  sizeof_header :: nat
  body_bytes :: "u32 \<Rightarrow> u8 list"
  sizeof_body :: nat
  port_descriptor_bytes :: "u32 \<Rightarrow> u32 \<Rightarrow> u32 \<Rightarrow> u8 list"
  ool_descriptor_bytes :: "u64 \<Rightarrow> bool \<Rightarrow> u32 \<Rightarrow> u32 \<Rightarrow> u32 \<Rightarrow> u8 list"
  ool_ports_descriptor_bytes :: "u64 \<Rightarrow> bool \<Rightarrow> u32 \<Rightarrow> u32 \<Rightarrow> u32 \<Rightarrow> u32 \<Rightarrow> u8 list"
  guarded_port_descriptor_bytes :: "u64 \<Rightarrow> u32 \<Rightarrow> u32 \<Rightarrow> u32 \<Rightarrow> u32 \<Rightarrow> u8 list"
  MACH_MSG_PORT_DESCRIPTOR :: u32
  MACH_MSG_OOL_DESCRIPTOR :: u32
  MACH_MSG_OOL_PORTS_DESCRIPTOR :: u32
  MACH_MSG_OOL_VOLATILE_DESCRIPTOR :: u32
  MACH_MSG_GUARDED_PORT_DESCRIPTOR :: u32
  MACH_MSGH_BITS_COMPLEX :: u32
  MACH_MSGH_BITS_SET :: "u32 \<Rightarrow> u32 \<Rightarrow> u32 \<Rightarrow> u32 \<Rightarrow> u32"
  sizeof_mzn_name :: nat
  sizeof_uuid :: nat
  sizeof_audit_token :: nat

definition layout_ok :: "mach_h \<Rightarrow> bool" where
  "layout_ok mh \<longleftrightarrow> (\<forall>h. length (header_bytes mh h) = sizeof_header mh) \<and> (\<forall>n. length (body_bytes mh n) = sizeof_body mh)"

section \<open>Ports and descriptors\<close>

text \<open>A port of a message is the 32-bit pattern of its number; \<open>CASE_NEGATIVE\<close> is -1.\<close>

definition CASE_NEGATIVE :: u32 where "CASE_NEGATIVE = - 1"

definition GetMachPort :: "u32 \<Rightarrow> u32" where
  "GetMachPort port = (if port = CASE_NEGATIVE then 0xFFFFFFFF else port)"

definition GetMachPortName :: "u32 \<Rightarrow> u32" where
  "GetMachPortName name = GetMachPort name"

definition GetMachMsgTypeName :: "u32 \<Rightarrow> u32" where
  "GetMachMsgTypeName type_name = type_name"

definition GetMachMsgPortDescriptor :: "mach_h \<Rightarrow> u32 \<Rightarrow> u32 \<Rightarrow> u8 list" where
  "GetMachMsgPortDescriptor mh name disposition =
     port_descriptor_bytes mh (GetMachPort name) (GetMachMsgTypeName disposition) (MACH_MSG_PORT_DESCRIPTOR mh)"

definition GetMachMsgCopyOptions :: "u32 \<Rightarrow> u32" where
  "GetMachMsgCopyOptions copy_options = copy_options"

record MachMsgOolDescriptor =
  ool_deallocate :: bool
  ool_copy :: u32
  ool_size :: u32

definition GetMachMsgOolDescriptor :: "mach_h \<Rightarrow> MachMsgOolDescriptor \<Rightarrow> u8 list" where
  "GetMachMsgOolDescriptor mh d = ool_descriptor_bytes mh 1 (ool_deallocate d) (GetMachMsgCopyOptions (ool_copy d))
     (MACH_MSG_OOL_DESCRIPTOR mh) (ool_size d)"

definition GetMachMsgOolDescriptorVolatile :: "mach_h \<Rightarrow> MachMsgOolDescriptor \<Rightarrow> u8 list" where
  "GetMachMsgOolDescriptorVolatile mh d = ool_descriptor_bytes mh 1 (ool_deallocate d) (GetMachMsgCopyOptions (ool_copy d))
     (MACH_MSG_OOL_VOLATILE_DESCRIPTOR mh) (ool_size d)"

record MachMsgOolPortsDescriptor =
  op_deallocate :: bool
  op_copy :: u32
  op_disposition :: u32
  op_names :: "u32 list"

definition GetMachMsgOolPortsDescriptor :: "mach_h \<Rightarrow> MachMsgOolPortsDescriptor \<Rightarrow> u8 list" where
  "GetMachMsgOolPortsDescriptor mh d = ool_ports_descriptor_bytes mh 1 (op_deallocate d) (GetMachMsgCopyOptions (op_copy d))
     (GetMachMsgTypeName (op_disposition d)) (MACH_MSG_OOL_PORTS_DESCRIPTOR mh) (of_nat (length (op_names d)))"

record MachMsgGuardedPortDescriptor =
  gp_context :: u64
  gp_flags :: u32
  gp_disposition :: u32
  gp_name :: u32

definition GetMachMsgGuardedPortDescriptor :: "mach_h \<Rightarrow> MachMsgGuardedPortDescriptor \<Rightarrow> u8 list" where
  "GetMachMsgGuardedPortDescriptor mh d = guarded_port_descriptor_bytes mh (gp_context d) (gp_flags d)
     (GetMachMsgTypeName (gp_disposition d)) (MACH_MSG_GUARDED_PORT_DESCRIPTOR mh) (GetMachPortName (gp_name d))"

datatype MachMsgDescriptor = kPort u32 u32 | kOutOfLine MachMsgOolDescriptor | kOolPorts MachMsgOolPortsDescriptor
  | kGuardedPort MachMsgGuardedPortDescriptor | kOutOfLineVolatile MachMsgOolDescriptor | DESCRIPTOR_NOT_SET

fun GetMachMsgDescriptor :: "mach_h \<Rightarrow> MachMsgDescriptor \<Rightarrow> u8 list" where
  "GetMachMsgDescriptor mh (kPort name disposition) = GetMachMsgPortDescriptor mh name disposition"
| "GetMachMsgDescriptor mh (kOutOfLine d) = GetMachMsgOolDescriptor mh d"
| "GetMachMsgDescriptor mh (kOolPorts d) = GetMachMsgOolPortsDescriptor mh d"
| "GetMachMsgDescriptor mh (kGuardedPort d) = GetMachMsgGuardedPortDescriptor mh d"
| "GetMachMsgDescriptor mh (kOutOfLineVolatile d) = GetMachMsgOolDescriptorVolatile mh d"
| "GetMachMsgDescriptor mh DESCRIPTOR_NOT_SET = []"

section \<open>The message\<close>

text \<open>\<open>memcpy\<close> into the vector: outside of it the memory error detector stops the process.\<close>

definition vec_copy :: "u8 list \<Rightarrow> nat \<Rightarrow> u8 list \<Rightarrow> (u8 list, 's) prog" where
  "vec_copy result i bs = (if i + length bs \<le> length result then retM (poke result i bs) else stopM MemFault)"

primrec copy_descriptors :: "u8 list list \<Rightarrow> nat \<Rightarrow> u8 list \<Rightarrow> (nat \<times> u8 list, 's) prog" where
  "copy_descriptors [] i result = retM (i, result)"
| "copy_descriptors (d # ds) i result =
     bindM (vec_copy result i d) (\<lambda>result. copy_descriptors ds (i + length d) result)"

record msg_ports =
  remote_type :: u32
  remote_port :: u32
  local_type :: u32
  local_port :: u32
  voucher_type :: u32
  voucher_port :: u32

definition GetMachMsgStruct ::
  "mach_h \<Rightarrow> msg_ports \<Rightarrow> u32 \<Rightarrow> u8 list \<Rightarrow> u8 list list \<Rightarrow> (u8 list, 's) prog" where
  "GetMachMsgStruct mh ports id_number inline_data descriptors =
     (let other = (if descriptors \<noteq> [] then MACH_MSGH_BITS_COMPLEX mh else 0);
          sz = sizeof_header mh + (if descriptors \<noteq> [] then sizeof_body mh + sum_list (map length descriptors) else 0) +
            length inline_data;
          message_header = \<lparr>msgh_bits = MACH_MSGH_BITS_SET mh (remote_type ports) (local_type ports) (voucher_type ports) other,
            msgh_size = of_nat sz, msgh_remote_port = remote_port ports, msgh_local_port = local_port ports,
            msgh_voucher_port = voucher_port ports, msgh_id = id_number\<rparr> in
      bindM (vec_copy (replicate sz 0) 0 (header_bytes mh message_header)) (\<lambda>result.
      bindM (if descriptors \<noteq> []
             then bindM (vec_copy result (sizeof_header mh) (body_bytes mh (of_nat (length descriptors)))) (\<lambda>result.
               retM (sizeof_header mh + sizeof_body mh, result))
             else retM (sizeof_header mh, result)) (\<lambda>(i, result).
      bindM (copy_descriptors descriptors i result) (\<lambda>(i, result).
      bindM (vec_copy result i inline_data) (\<lambda>result.
        if i + length inline_data \<noteq> sz then abortM else retM result)))))"

record MachMsg =
  msg_header :: "(msg_ports \<times> u32) option"
  msg_body :: "MachMsgDescriptor list"
  msg_data :: "u8 list"

definition GetMachMsg :: "mach_h \<Rightarrow> MachMsg \<Rightarrow> (u8 list, 's) prog" where
  "GetMachMsg mh msg = (case msg_header msg of
     None \<Rightarrow> retM (msg_data msg)
   | Some (ports, id_number) \<Rightarrow>
       GetMachMsgStruct mh
         \<lparr>remote_type = GetMachMsgTypeName (remote_type ports), remote_port = GetMachPort (remote_port ports),
          local_type = GetMachMsgTypeName (local_type ports), local_port = GetMachPort (local_port ports),
          voucher_type = GetMachMsgTypeName (voucher_type ports), voucher_port = GetMachPortName (voucher_port ports)\<rparr>
         id_number (msg_data msg)
         (map (GetMachMsgDescriptor mh) (filter (\<lambda>d. d \<noteq> DESCRIPTOR_NOT_SET) (msg_body msg))))"

section \<open>MIG argument types\<close>

definition VM_PROT_READ :: u32 where "VM_PROT_READ = 0x01"
definition VM_PROT_WRITE :: u32 where "VM_PROT_WRITE = 0x02"
definition VM_PROT_EXECUTE :: u32 where "VM_PROT_EXECUTE = 0x04"

record VmProt =
  prot_read :: bool
  prot_write :: bool
  prot_execute :: bool

definition GetVmProt :: "VmProt \<Rightarrow> u32" where
  "GetVmProt prot =
     (let result = 0;
          result = (if prot_read prot then result OR VM_PROT_READ else result);
          result = (if prot_write prot then result OR VM_PROT_WRITE else result) in
      if prot_execute prot then result OR VM_PROT_EXECUTE else result)"

definition VM_SYNC_ASYNCHRONOUS :: u32 where "VM_SYNC_ASYNCHRONOUS = 0x01"
definition VM_SYNC_SYNCHRONOUS :: u32 where "VM_SYNC_SYNCHRONOUS = 0x02"
definition VM_SYNC_INVALIDATE :: u32 where "VM_SYNC_INVALIDATE = 0x04"
definition VM_SYNC_KILLPAGES :: u32 where "VM_SYNC_KILLPAGES = 0x08"
definition VM_SYNC_DEACTIVATE :: u32 where "VM_SYNC_DEACTIVATE = 0x10"
definition VM_SYNC_CONTIGUOUS :: u32 where "VM_SYNC_CONTIGUOUS = 0x20"
definition VM_SYNC_REUSABLEPAGES :: u32 where "VM_SYNC_REUSABLEPAGES = 0x40"

record VmSync =
  asynchronous :: bool
  synchronous :: bool
  invalidate :: bool
  killpages :: bool
  deactivate :: bool
  contiguous :: bool
  reusablepages :: bool

definition GetVmSync :: "VmSync \<Rightarrow> u32" where
  "GetVmSync sync =
     (let result = 0;
          result = (if asynchronous sync then result OR VM_SYNC_ASYNCHRONOUS else result);
          result = (if synchronous sync then result OR VM_SYNC_SYNCHRONOUS else result);
          result = (if invalidate sync then result OR VM_SYNC_INVALIDATE else result);
          result = (if killpages sync then result OR VM_SYNC_KILLPAGES else result);
          result = (if deactivate sync then result OR VM_SYNC_DEACTIVATE else result);
          result = (if contiguous sync then result OR VM_SYNC_CONTIGUOUS else result) in
      if reusablepages sync then result OR VM_SYNC_REUSABLEPAGES else result)"

definition GetVmBehavior :: "u32 \<Rightarrow> u32" where
  "GetVmBehavior behavior = behavior"

text \<open>The arguments of a routine are laid out by generated code, the parameter \<open>routine_data\<close>: the message number, the
  descriptors and the inline data of a routine. The number 0 means that there is no message.\<close>

definition GetMigRoutineMsg ::
  "mach_h \<Rightarrow> ('r \<Rightarrow> u32 \<times> u8 list list \<times> u8 list) \<Rightarrow> 'r \<Rightarrow> msg_ports \<Rightarrow> (u8 list, 's) prog" where
  "GetMigRoutineMsg mh routine_data routine ports =
     (case routine_data routine of (id_number, descriptors, data) \<Rightarrow>
        if id_number = 0 then retM [] else GetMachMsgStruct mh ports id_number data descriptors)"

record mach_port_qos =
  qos_name :: bool
  qos_prealloc :: bool
  qos_len :: u32

definition GetMachPortQos :: "bool \<Rightarrow> bool \<Rightarrow> u32 \<Rightarrow> mach_port_qos" where
  "GetMachPortQos name prealloc len = \<lparr>qos_name = name, qos_prealloc = prealloc, qos_len = len\<rparr>"

record mach_timespec =
  tv_sec :: u32
  tv_nsec :: u32

definition GetMachTimespec :: "u32 \<Rightarrow> u32 \<Rightarrow> mach_timespec" where
  "GetMachTimespec a1 a2 = \<lparr>tv_sec = a1, tv_nsec = a2\<rparr>"

text \<open>A byte field of a message copied into an array of fixed size: cut to the size, and what follows is left as it was.\<close>

definition copy_field :: "u8 list \<Rightarrow> u8 list \<Rightarrow> u8 list" where
  "copy_field array data = (let n = (if length data > length array then length array else length data) in poke array 0 (take n data))"

text \<open>The zone name starts as an uninitialised structure, the argument \<open>junk\<close>.\<close>

definition GetMachZoneName :: "u8 list \<Rightarrow> u8 list \<Rightarrow> u8 list" where
  "GetMachZoneName junk mzn_name = copy_field junk mzn_name"

record DyldKernelImageInfo =
  dyld_uuid :: "u8 list"
  fid_objno :: u32
  fid_generation :: u32
  fsid1 :: u32
  fsid2 :: u32
  load_addr :: u64

definition GetDyldKernelImageInfo :: "mach_h \<Rightarrow> DyldKernelImageInfo \<Rightarrow> DyldKernelImageInfo" where
  "GetDyldKernelImageInfo mh info =
     \<lparr>dyld_uuid = copy_field (replicate (sizeof_uuid mh) 0) (dyld_uuid info), fid_objno = fid_objno info,
      fid_generation = fid_generation info, fsid1 = fsid1 info, fsid2 = fsid2 info, load_addr = load_addr info\<rparr>"

definition GetAuditToken :: "mach_h \<Rightarrow> u8 list \<Rightarrow> u8 list" where
  "GetAuditToken mh val = copy_field (replicate (sizeof_audit_token mh) 0) val"

definition GetSecurityToken :: "u32 \<Rightarrow> u32 \<Rightarrow> u32 \<times> u32" where
  "GetSecurityToken token1 token2 = (token1, token2)"

section \<open>The layout of a message\<close>

lemma vec_copy_append:
  "length bs \<le> n \<Longrightarrow> vec_copy (pre @ replicate n 0) (length pre) bs s = Done ((pre @ bs) @ replicate (n - length bs) 0) s"
  by (simp add: vec_copy_def poke_def)

lemma copy_descriptors_append:
  "sum_list (map length ds) \<le> n \<Longrightarrow> copy_descriptors ds (length pre) (pre @ replicate n 0) s =
     Done (length pre + sum_list (map length ds), (pre @ concat ds) @ replicate (n - sum_list (map length ds)) 0) s"
proof (induction ds arbitrary: pre n)
  case (Cons d ds)
  then show ?case using Cons.IH [of "n - length d" "pre @ d"] vec_copy_append [of d n pre s] by (simp add: add.assoc)
qed simp

text \<open>What a message consists of, as the reference.\<close>

definition message_header :: "mach_h \<Rightarrow> msg_ports \<Rightarrow> u32 \<Rightarrow> bool \<Rightarrow> nat \<Rightarrow> mach_msg_header" where
  "message_header mh ports id_number complex n =
     \<lparr>msgh_bits = MACH_MSGH_BITS_SET mh (remote_type ports) (local_type ports) (voucher_type ports)
        (if complex then MACH_MSGH_BITS_COMPLEX mh else 0),
      msgh_size = of_nat n, msgh_remote_port = remote_port ports, msgh_local_port = local_port ports,
      msgh_voucher_port = voucher_port ports, msgh_id = id_number\<rparr>"

definition message_parts :: "mach_h \<Rightarrow> u8 list list \<Rightarrow> u8 list \<Rightarrow> u8 list" where
  "message_parts mh descriptors inline_data =
     (if descriptors = [] then [] else body_bytes mh (of_nat (length descriptors)) @ concat descriptors) @ inline_data"

text \<open>C23. A Mach message is well formed. Building one never copies outside its vector and never aborts: the result is the header, the
  body with the number of descriptors when there are any, the descriptors in order and the inline data; the size in the
  header is the length of the whole message (in its 32 bits) and the complex bit is set exactly when there are descriptors.\<close>

theorem GetMachMsgStruct_layout:
  assumes "layout_ok mh"
  shows "\<exists>message. GetMachMsgStruct mh ports id_number inline_data descriptors s = Done message s \<and>
     message = header_bytes mh (message_header mh ports id_number (descriptors \<noteq> []) (length message)) @
       message_parts mh descriptors inline_data"
proof -
  let ?b = "if descriptors \<noteq> [] then sizeof_body mh + sum_list (map length descriptors) else 0"
  let ?n = "sizeof_header mh + ?b + length inline_data"
  let ?h = "header_bytes mh (message_header mh ports id_number (descriptors \<noteq> []) ?n)"
  let ?body = "body_bytes mh (of_nat (length descriptors))"
  have len: "length (header_bytes mh h) = sizeof_header mh" "length (body_bytes mh n) = sizeof_body mh" for h n
    using assms by (simp_all add: layout_ok_def)
  have c1: "vec_copy (replicate ?n 0) 0 ?h s = Done (?h @ replicate (?n - sizeof_header mh) 0) s"
    using vec_copy_append [of ?h ?n "[]" s] by (simp add: len)
  have "GetMachMsgStruct mh ports id_number inline_data descriptors s = Done (?h @ message_parts mh descriptors inline_data) s"
  proof (cases "descriptors = []")
    case True
    then show ?thesis
      using c1 vec_copy_append [of inline_data "length inline_data" ?h s]
      by (simp add: GetMachMsgStruct_def Let_def message_header_def message_parts_def len)
  next
    case False
    let ?k = "sum_list (map length descriptors)"
    have c2: "vec_copy (?h @ replicate (?n - sizeof_header mh) 0) (sizeof_header mh) ?body s =
        Done ((?h @ ?body) @ replicate (?k + length inline_data) 0) s"
      using vec_copy_append [of ?body "?n - sizeof_header mh" ?h s] False by (simp add: len)
    have c3: "copy_descriptors descriptors (sizeof_header mh + sizeof_body mh) ((?h @ ?body) @ replicate (?k + length inline_data) 0) s =
        Done (sizeof_header mh + sizeof_body mh + ?k, (?h @ ?body @ concat descriptors) @ replicate (length inline_data) 0) s"
      using copy_descriptors_append [of descriptors "?k + length inline_data" "?h @ ?body" s] by (simp add: len)
    have c4: "vec_copy ((?h @ ?body @ concat descriptors) @ replicate (length inline_data) 0)
        (sizeof_header mh + sizeof_body mh + ?k) inline_data s = Done (?h @ ?body @ concat descriptors @ inline_data) s"
      using vec_copy_append [of inline_data "length inline_data" "?h @ ?body @ concat descriptors" s]
      by (simp add: len length_concat add.assoc)
    show ?thesis
      using c1 c2 c3 c4 False
      by (simp add: GetMachMsgStruct_def Let_def message_header_def message_parts_def add.assoc)
  qed
  moreover have "length (?h @ message_parts mh descriptors inline_data) = ?n"
    by (simp add: len message_parts_def length_concat)
  ultimately show ?thesis by metis
qed

text \<open>The layout of the header in the Mach ABI, six little-endian words, and a body of one word.\<close>

definition mh_example :: mach_h where
  "mh_example = \<lparr>header_bytes = (\<lambda>h. bytes_of_u32 (msgh_bits h) @ bytes_of_u32 (msgh_size h) @ bytes_of_u32 (msgh_remote_port h) @
       bytes_of_u32 (msgh_local_port h) @ bytes_of_u32 (msgh_voucher_port h) @ bytes_of_u32 (msgh_id h)),
     sizeof_header = 24, body_bytes = bytes_of_u32, sizeof_body = 4,
     port_descriptor_bytes = (\<lambda>name disposition t. bytes_of_u32 name @ bytes_of_u32 0 @ bytes_of_u16 0 @ [ucast disposition, ucast t]),
     ool_descriptor_bytes = (\<lambda>a dealloc copy t n. bytes_of_u64 a @ [if dealloc then 1 else 0, ucast copy, 0, ucast t] @ bytes_of_u32 n),
     ool_ports_descriptor_bytes = (\<lambda>a dealloc copy d t n. bytes_of_u64 a @ [if dealloc then 1 else 0, ucast copy, ucast d, ucast t] @ bytes_of_u32 n),
     guarded_port_descriptor_bytes = (\<lambda>c f d t n. bytes_of_u64 c @ bytes_of_u16 (ucast f) @ [ucast d, ucast t] @ bytes_of_u32 n),
     MACH_MSG_PORT_DESCRIPTOR = 0, MACH_MSG_OOL_DESCRIPTOR = 1, MACH_MSG_OOL_PORTS_DESCRIPTOR = 2,
     MACH_MSG_OOL_VOLATILE_DESCRIPTOR = 3, MACH_MSG_GUARDED_PORT_DESCRIPTOR = 4, MACH_MSGH_BITS_COMPLEX = 0x80000000,
     MACH_MSGH_BITS_SET = (\<lambda>r l v oth. (r AND 0x1f) OR push_bit 8 (l AND 0x1f) OR push_bit 16 (v AND 0x1f) OR oth),
     sizeof_mzn_name = 80, sizeof_uuid = 16, sizeof_audit_token = 32\<rparr>"

definition ports_example :: msg_ports where
  "ports_example = \<lparr>remote_type = 19, remote_port = 3, local_type = 0, local_port = 0, voucher_type = 0, voucher_port = 0\<rparr>"

theorem GetMachMsgStruct_layout_witness:
  "\<exists>message. GetMachMsgStruct mh_example ports_example 3400 [1, 2, 3] [[0, 0, 0, 0, 0, 0, 0, 0, 0, 0, 17, 0]] () = Done message () \<and>
     length message = 43 \<and> peek32 message 4 = 43"
proof -
  have "layout_ok mh_example" by (simp add: layout_ok_def mh_example_def)
  from GetMachMsgStruct_layout [OF this, of ports_example 3400 "[1, 2, 3]" "[[0, 0, 0, 0, 0, 0, 0, 0, 0, 0, 17, 0]]" "()"]
  obtain message where m: "GetMachMsgStruct mh_example ports_example 3400 [1, 2, 3] [[0, 0, 0, 0, 0, 0, 0, 0, 0, 0, 17, 0]] () = Done message ()"
    "message = header_bytes mh_example (message_header mh_example ports_example 3400 True (length message)) @
       message_parts mh_example [[0, 0, 0, 0, 0, 0, 0, 0, 0, 0, 17, 0]] [1, 2, 3]" by auto
  have "length message = 43" by (subst m(2)) (simp add: mh_example_def message_parts_def)
  moreover have "peek32 message 4 = of_nat (length message)"
    by (subst m(2)) (simp add: mh_example_def message_header_def peek32_def)
  ultimately show ?thesis using m(1) by simp
qed

section \<open>Ports and byte fields\<close>

text \<open>The case distinction on -1 does nothing: the cast to 32 bits is the same pattern.\<close>

lemma GetMachPort_same: "GetMachPort port = port"
  by (simp add: GetMachPort_def CASE_NEGATIVE_def)

lemma length_copy_field [simp]: "length (copy_field array data) = length array"
  by (simp add: copy_field_def Let_def)

text \<open>A zone name shorter than its array is followed by what the stack held before.\<close>

lemma GetMachZoneName_leaks:
  assumes "length mzn_name \<le> length junk"
  shows "GetMachZoneName junk mzn_name = mzn_name @ drop (length mzn_name) junk"
  using assms by (simp add: GetMachZoneName_def copy_field_def poke_def)

lemma GetAuditToken_bytes:
  "GetAuditToken mh val = take (sizeof_audit_token mh) val @ replicate (sizeof_audit_token mh - length val) 0"
  by (auto simp: GetAuditToken_def copy_field_def poke_def)

end
