(* ===== verification/Ioctl.thy ===== *)
theory Ioctl
  imports Prelude
begin

text \<open>
  The table of ioctl numbers, \<open>fuzz/xnu/bsd/api/ioctl.c\<close>, and the enumeration \<open>IoctlIdx\<close> of \<open>fuzz/proto/bsd_enums.proto\<close>
  that selects from it. The numbers themselves are XNU's macros: the table holds their names, and a function from names to
  numbers is a parameter where a number is needed.
\<close>

definition ioctls_first :: "string list" where
  "ioctls_first = [
    ''SIOCSHIWAT'', ''SIOCGHIWAT'', ''SIOCSLOWAT'', ''SIOCGLOWAT'', ''SIOCATMARK'', ''SIOCSPGRP'', ''SIOCGPGRP'',
    ''SIOCSIFADDR'', ''OSIOCGIFADDR'', ''SIOCSIFDSTADDR'', ''OSIOCGIFDSTADDR'', ''SIOCSIFFLAGS'', ''SIOCGIFFLAGS'',
    ''OSIOCGIFBRDADDR'', ''SIOCSIFBRDADDR'', ''OSIOCGIFCONF'', ''OSIOCGIFCONF32'', ''OSIOCGIFCONF64'', ''OSIOCGIFNETMASK'',
    ''SIOCSIFNETMASK'', ''SIOCGIFMETRIC'', ''SIOCSIFMETRIC'', ''SIOCDIFADDR'', ''SIOCAIFADDR'', ''SIOCGIFADDR'',
    ''SIOCGIFDSTADDR'', ''SIOCGIFBRDADDR'', ''SIOCGIFCONF'', ''SIOCGIFCONF32'', ''SIOCGIFCONF64'', ''SIOCGIFNETMASK'',
    ''SIOCADDMULTI'', ''SIOCDELMULTI'', ''SIOCGIFMTU'', ''SIOCSIFMTU'', ''SIOCGIFPHYS'', ''SIOCSIFPHYS'', ''SIOCSIFMEDIA'',
    ''SIOCGIFMEDIA'', ''SIOCGIFMEDIA32'', ''SIOCGIFMEDIA64'', ''SIOCSIFGENERIC'', ''SIOCGIFGENERIC'', ''SIOCSIFLLADDR'',
    ''SIOCGIFSTATUS'', ''SIOCSIFPHYADDR'', ''SIOCGIFPSRCADDR'', ''SIOCGIFPDSTADDR'', ''SIOCDIFPHYADDR'', ''SIOCGIFDEVMTU'',
    ''SIOCSIFALTMTU'', ''SIOCPROTOATTACH'', ''SIOCPROTODETACH'', ''SIOCIFCREATE'', ''SIOCIFDESTROY'', ''SIOCSIFVLAN'',
    ''SIOCGIFVLAN'', ''SIOCSETVLAN'', ''SIOCGETVLAN'', ''SIOCSIFDEVMTU'', ''SIOCIFGCLONERS'', ''SIOCIFGCLONERS32'',
    ''SIOCIFGCLONERS64'', ''SIOCGIFASYNCMAP'', ''SIOCSIFASYNCMAP'', ''SIOCSIFKPI'', ''SIOCGIFKPI'', ''SIOCGIFWAKEFLAGS'',
    ''SIOCGIFGETRTREFCNT'', ''SIOCGIFLINKQUALITYMETRIC'', ''SIOCSETROUTERMODE'', ''SIOCGIFEFLAGS'', ''SIOCSIFDESC'',
    ''SIOCGIFDESC'', ''SIOCSIFLINKPARAMS'', ''SIOCGIFLINKPARAMS'', ''SIOCGIFQUEUESTATS'', ''SIOCSIFTHROTTLE'',
    ''SIOCGIFTHROTTLE'', ''SIOCGASSOCIDS'', ''SIOCGCONNIDS'', ''SIOCGCONNINFO'', ''SIOCGASSOCIDS32'', ''SIOCGASSOCIDS64'',
    ''SIOCGCONNIDS32'', ''SIOCGCONNIDS64'', ''SIOCGCONNINFO32'', ''SIOCGCONNINFO64'', ''SIOCSCONNORDER'', ''SIOCGCONNORDER'',
    ''SIOCSIFLOG'', ''SIOCGIFLOG'', ''SIOCGIFDELEGATE'', ''SIOCGIFLLADDR'', ''SIOCGIFTYPE'', ''SIOCGIFEXPENSIVE'',
    ''SIOCSIFEXPENSIVE'', ''SIOCGIF2KCL'', ''SIOCSIF2KCL'', ''SIOCGSTARTDELAY'', ''SIOCAIFAGENTID'', ''SIOCDIFAGENTID'',
    ''SIOCGIFAGENTIDS'', ''SIOCGIFAGENTDATA'', ''SIOCGIFAGENTIDS32'', ''SIOCGIFAGENTIDS64'', ''SIOCGIFAGENTDATA32'',
    ''SIOCGIFAGENTDATA64'', ''SIOCSIFINTERFACESTATE'', ''SIOCGIFINTERFACESTATE'', ''SIOCSIFPROBECONNECTIVITY'',
    ''SIOCGIFPROBECONNECTIVITY'', ''SIOCGIFFUNCTIONALTYPE'', ''SIOCSIFNETSIGNATURE'', ''SIOCGIFNETSIGNATURE'',
    ''SIOCGECNMODE'', ''SIOCSECNMODE'', ''SIOCSIFORDER'', ''SIOCGIFORDER'', ''SIOCSQOSMARKINGMODE'', ''SIOCSFASTLANECAPABLE'',
    ''SIOCSQOSMARKINGENABLED'', ''SIOCSFASTLEENABLED'', ''SIOCGQOSMARKINGMODE'', ''SIOCGQOSMARKINGENABLED'',
    ''SIOCSIFTIMESTAMPENABLE'', ''SIOCSIFTIMESTAMPDISABLE'', ''SIOCGIFTIMESTAMPENABLED'', ''SIOCSIFDISABLEOUTPUT'',
    ''SIOCGIFAGENTLIST'', ''SIOCGIFAGENTLIST32'', ''SIOCGIFAGENTLIST64'', ''SIOCSIFLOWINTERNET'', ''SIOCGIFLOWINTERNET'',
    ''SIOCGIFNAT64PREFIX'', ''SIOCSIFNAT64PREFIX'', ''SIOCGIFNEXUS'', ''SIOCSIFADDR_IN6'', ''SIOCGIFADDR_IN6'',
    ''SIOCSIFDSTADDR_IN6'', ''SIOCSIFNETMASK_IN6''
  ]"

definition ioctls_rest :: "string list" where
  "ioctls_rest = [
    ''SIOCGIFDSTADDR_IN6'', ''SIOCGIFNETMASK_IN6'', ''SIOCDIFADDR_IN6'', ''SIOCAIFADDR_IN6'', ''SIOCAIFADDR_IN6_32'',
    ''SIOCAIFADDR_IN6_64'', ''SIOCSIFPHYADDR_IN6'', ''SIOCSIFPHYADDR_IN6_32'', ''SIOCSIFPHYADDR_IN6_64'',
    ''SIOCGIFPSRCADDR_IN6'', ''SIOCGIFPDSTADDR_IN6'', ''SIOCGIFAFLAG_IN6'', ''SIOCGDRLST_IN6'', ''SIOCGDRLST_IN6_32'',
    ''SIOCGDRLST_IN6_64'', ''SIOCGPRLST_IN6'', ''SIOCGPRLST_IN6_32'', ''SIOCGPRLST_IN6_64'', ''OSIOCGIFINFO_IN6'',
    ''SIOCGIFINFO_IN6'', ''SIOCSNDFLUSH_IN6'', ''SIOCGNBRINFO_IN6'', ''SIOCGNBRINFO_IN6_32'', ''SIOCGNBRINFO_IN6_64'',
    ''SIOCSPFXFLUSH_IN6'', ''SIOCSRTRFLUSH_IN6'', ''SIOCGIFALIFETIME_IN6'', ''SIOCSIFALIFETIME_IN6'', ''SIOCGIFSTAT_IN6'',
    ''SIOCGIFSTAT_ICMP6'', ''SIOCSDEFIFACE_IN6'', ''SIOCGDEFIFACE_IN6'', ''SIOCSDEFIFACE_IN6_32'', ''SIOCSDEFIFACE_IN6_64'',
    ''SIOCGDEFIFACE_IN6_32'', ''SIOCGDEFIFACE_IN6_64'', ''SIOCSIFINFO_FLAGS'', ''SIOCSSCOPE6'', ''SIOCGSCOPE6'',
    ''SIOCGSCOPE6DEF'', ''SIOCSIFPREFIX_IN6'', ''SIOCGIFPREFIX_IN6'', ''SIOCDIFPREFIX_IN6'', ''SIOCAIFPREFIX_IN6'',
    ''SIOCCIFPREFIX_IN6'', ''SIOCSGIFPREFIX_IN6'', ''SIOCAADDRCTL_POLICY'', ''SIOCDADDRCTL_POLICY'', ''SIOCPROTOATTACH_IN6'',
    ''SIOCPROTOATTACH_IN6_32'', ''SIOCPROTOATTACH_IN6_64'', ''SIOCPROTODETACH_IN6'', ''SIOCLL_START'', ''SIOCLL_START_32'',
    ''SIOCLL_START_64'', ''SIOCLL_STOP'', ''SIOCAUTOCONF_START'', ''SIOCAUTOCONF_STOP'', ''SIOCDRADD_IN6'',
    ''SIOCDRADD_IN6_32'', ''SIOCDRADD_IN6_64'', ''SIOCDRDEL_IN6'', ''SIOCDRDEL_IN6_32'', ''SIOCDRDEL_IN6_64'',
    ''SIOCSETROUTERMODE_IN6'', ''SIOCLL_CGASTART'', ''SIOCLL_CGASTART_32'', ''SIOCLL_CGASTART_64'', ''SIOCGIFCGAPREP_IN6'',
    ''SIOCSIFCGAPREP_IN6'', ''DIOCSTART'', ''DIOCSTOP'', ''DIOCADDRULE'', ''DIOCGETSTARTERS'', ''DIOCGETRULES'',
    ''DIOCGETRULE'', ''DIOCSTARTREF'', ''DIOCSTOPREF'', ''DIOCCLRSTATES'', ''DIOCGETSTATE'', ''DIOCSETSTATUSIF'',
    ''DIOCGETSTATUS'', ''DIOCCLRSTATUS'', ''DIOCNATLOOK'', ''DIOCSETDEBUG'', ''DIOCGETSTATES'', ''DIOCCHANGERULE'',
    ''DIOCINSERTRULE'', ''DIOCDELETERULE'', ''DIOCSETTIMEOUT'', ''DIOCGETTIMEOUT'', ''DIOCADDSTATE'', ''DIOCCLRRULECTRS'',
    ''DIOCGETLIMIT'', ''DIOCSETLIMIT'', ''DIOCKILLSTATES'', ''DIOCSTARTALTQ'', ''DIOCSTOPALTQ'', ''DIOCADDALTQ'',
    ''DIOCGETALTQS'', ''DIOCGETALTQ'', ''DIOCCHANGEALTQ'', ''DIOCGETQSTATS'', ''DIOCBEGINADDRS'', ''DIOCADDADDR'',
    ''DIOCGETADDRS'', ''DIOCGETADDR'', ''DIOCCHANGEADDR'', ''DIOCGETRULESETS'', ''DIOCGETRULESET'', ''DIOCRCLRTABLES'',
    ''DIOCRADDTABLES'', ''DIOCRDELTABLES'', ''DIOCRGETTABLES'', ''DIOCRGETTSTATS'', ''DIOCRCLRTSTATS'', ''DIOCRCLRADDRS'',
    ''DIOCRADDADDRS'', ''DIOCRDELADDRS'', ''DIOCRSETADDRS'', ''DIOCRGETADDRS'', ''DIOCRGETASTATS'', ''DIOCRCLRASTATS'',
    ''DIOCRTSTADDRS'', ''DIOCRSETTFLAGS'', ''DIOCRINADEFINE'', ''DIOCOSFPFLUSH'', ''DIOCOSFPADD'', ''DIOCOSFPGET'',
    ''DIOCXBEGIN'', ''DIOCXCOMMIT'', ''DIOCXROLLBACK'', ''DIOCGETSRCNODES'', ''DIOCCLRSRCNODES'', ''DIOCSETHOSTID'',
    ''DIOCIGETIFACES'', ''DIOCSETIFFLAG'', ''DIOCCLRIFFLAG'', ''DIOCKILLSRCNODES'', ''DIOCGIFSPEED''
  ]"

definition ioctls :: "string list" where
  "ioctls = ioctls_first @ ioctls_rest"

definition num_ioctls :: nat where
  "num_ioctls = length ioctls"

text \<open>The names and values of the enumeration.\<close>

definition IoctlIdx :: "(string \<times> nat) list" where
  "IoctlIdx = [
    (''SIOCSHIWAT'', 1), (''SIOCGHIWAT'', 2), (''SIOCSLOWAT'', 3), (''SIOCGLOWAT'', 4), (''SIOCATMARK'', 5),
    (''SIOCSPGRP'', 6), (''SIOCGPGRP'', 7), (''SIOCSIFADDR'', 8), (''OSIOCGIFADDR'', 9), (''SIOCSIFDSTADDR'', 10),
    (''OSIOCGIFDSTADDR'', 11), (''SIOCSIFFLAGS'', 12), (''SIOCGIFFLAGS'', 13), (''OSIOCGIFBRDADDR'', 14),
    (''SIOCSIFBRDADDR'', 15), (''OSIOCGIFCONF'', 16), (''OSIOCGIFCONF32'', 17), (''OSIOCGIFCONF64'', 18),
    (''OSIOCGIFNETMASK'', 19), (''SIOCSIFNETMASK'', 20), (''SIOCGIFMETRIC'', 21), (''SIOCSIFMETRIC'', 22),
    (''SIOCDIFADDR'', 23), (''SIOCAIFADDR'', 24), (''SIOCGIFADDR'', 25), (''SIOCGIFDSTADDR'', 26), (''SIOCGIFBRDADDR'', 27),
    (''SIOCGIFCONF'', 28), (''SIOCGIFCONF32'', 29), (''SIOCGIFCONF64'', 30), (''SIOCGIFNETMASK'', 31), (''SIOCADDMULTI'', 32),
    (''SIOCDELMULTI'', 33), (''SIOCGIFMTU'', 34), (''SIOCSIFMTU'', 35), (''SIOCGIFPHYS'', 36), (''SIOCSIFPHYS'', 37),
    (''SIOCSIFMEDIA'', 38), (''SIOCGIFMEDIA'', 39), (''SIOCGIFMEDIA32'', 40), (''SIOCGIFMEDIA64'', 41),
    (''SIOCSIFGENERIC'', 42), (''SIOCGIFGENERIC'', 43), (''SIOCSIFLLADDR'', 44), (''SIOCGIFSTATUS'', 45),
    (''SIOCSIFPHYADDR'', 46), (''SIOCGIFPSRCADDR'', 47), (''SIOCGIFPDSTADDR'', 48), (''SIOCDIFPHYADDR'', 49),
    (''SIOCGIFDEVMTU'', 50), (''SIOCSIFALTMTU'', 51), (''SIOCPROTOATTACH'', 52), (''SIOCPROTODETACH'', 53),
    (''SIOCIFCREATE'', 54), (''SIOCIFDESTROY'', 55), (''SIOCSIFVLAN'', 56), (''SIOCGIFVLAN'', 57), (''SIOCSETVLAN'', 58),
    (''SIOCGETVLAN'', 59), (''SIOCSIFDEVMTU'', 60), (''SIOCIFGCLONERS'', 61), (''SIOCIFGCLONERS32'', 62),
    (''SIOCIFGCLONERS64'', 63), (''SIOCGIFASYNCMAP'', 64), (''SIOCSIFASYNCMAP'', 65), (''SIOCSIFKPI'', 66),
    (''SIOCGIFKPI'', 67), (''SIOCGIFWAKEFLAGS'', 68), (''SIOCGIFGETRTREFCNT'', 69), (''SIOCGIFLINKQUALITYMETRIC'', 70),
    (''SIOCSETROUTERMODE'', 71), (''SIOCGIFEFLAGS'', 72), (''SIOCSIFDESC'', 73), (''SIOCGIFDESC'', 74),
    (''SIOCSIFLINKPARAMS'', 75), (''SIOCGIFLINKPARAMS'', 76), (''SIOCGIFQUEUESTATS'', 77), (''SIOCSIFTHROTTLE'', 78),
    (''SIOCGIFTHROTTLE'', 79), (''SIOCGASSOCIDS'', 80), (''SIOCGCONNIDS'', 81), (''SIOCGCONNINFO'', 82),
    (''SIOCGASSOCIDS32'', 83), (''SIOCGASSOCIDS64'', 84), (''SIOCGCONNIDS32'', 85), (''SIOCGCONNIDS64'', 86),
    (''SIOCGCONNINFO32'', 87), (''SIOCGCONNINFO64'', 88), (''SIOCSCONNORDER'', 89), (''SIOCGCONNORDER'', 90),
    (''SIOCSIFLOG'', 91), (''SIOCGIFLOG'', 92), (''SIOCGIFDELEGATE'', 93), (''SIOCGIFLLADDR'', 94), (''SIOCGIFTYPE'', 95),
    (''SIOCGIFEXPENSIVE'', 96), (''SIOCSIFEXPENSIVE'', 97), (''SIOCGIF2KCL'', 98), (''SIOCSIF2KCL'', 99),
    (''SIOCGSTARTDELAY'', 100), (''SIOCAIFAGENTID'', 101), (''SIOCDIFAGENTID'', 102), (''SIOCGIFAGENTIDS'', 103),
    (''SIOCGIFAGENTDATA'', 104), (''SIOCGIFAGENTIDS32'', 105), (''SIOCGIFAGENTIDS64'', 106), (''SIOCGIFAGENTDATA32'', 107),
    (''SIOCGIFAGENTDATA64'', 108), (''SIOCSIFINTERFACESTATE'', 109), (''SIOCGIFINTERFACESTATE'', 110),
    (''SIOCSIFPROBECONNECTIVITY'', 111), (''SIOCGIFPROBECONNECTIVITY'', 112), (''SIOCGIFFUNCTIONALTYPE'', 113),
    (''SIOCSIFNETSIGNATURE'', 114), (''SIOCGIFNETSIGNATURE'', 115), (''SIOCGECNMODE'', 116), (''SIOCSECNMODE'', 117),
    (''SIOCSIFORDER'', 118), (''SIOCGIFORDER'', 119), (''SIOCSQOSMARKINGMODE'', 120), (''SIOCSFASTLANECAPABLE'', 121),
    (''SIOCSQOSMARKINGENABLED'', 122), (''SIOCSFASTLEENABLED'', 123), (''SIOCGQOSMARKINGMODE'', 124),
    (''SIOCGQOSMARKINGENABLED'', 125), (''SIOCSIFTIMESTAMPENABLE'', 126), (''SIOCSIFTIMESTAMPDISABLE'', 127),
    (''SIOCGIFTIMESTAMPENABLED'', 128), (''SIOCSIFDISABLEOUTPUT'', 129), (''SIOCGIFAGENTLIST'', 130),
    (''SIOCGIFAGENTLIST32'', 131), (''SIOCGIFAGENTLIST64'', 132), (''SIOCSIFLOWINTERNET'', 133), (''SIOCGIFLOWINTERNET'', 134),
    (''SIOCGIFNAT64PREFIX'', 135), (''SIOCSIFNAT64PREFIX'', 136), (''SIOCGIFNEXUS'', 137), (''SIOCSIFADDR_IN6'', 138),
    (''SIOCGIFADDR_IN6'', 139), (''SIOCSIFDSTADDR_IN6'', 140), (''SIOCSIFNETMASK_IN6'', 141), (''SIOCGIFDSTADDR_IN6'', 142),
    (''SIOCGIFNETMASK_IN6'', 143), (''SIOCDIFADDR_IN6'', 144), (''SIOCAIFADDR_IN6'', 145), (''SIOCAIFADDR_IN6_32'', 146),
    (''SIOCAIFADDR_IN6_64'', 147), (''SIOCSIFPHYADDR_IN6'', 148), (''SIOCSIFPHYADDR_IN6_32'', 149),
    (''SIOCSIFPHYADDR_IN6_64'', 150), (''SIOCGIFPSRCADDR_IN6'', 151), (''SIOCGIFPDSTADDR_IN6'', 152),
    (''SIOCGIFAFLAG_IN6'', 153), (''SIOCGDRLST_IN6'', 154), (''SIOCGDRLST_IN6_32'', 155), (''SIOCGDRLST_IN6_64'', 156),
    (''SIOCGPRLST_IN6'', 157), (''SIOCGPRLST_IN6_32'', 158), (''SIOCGPRLST_IN6_64'', 159), (''OSIOCGIFINFO_IN6'', 160),
    (''SIOCGIFINFO_IN6'', 161), (''SIOCSNDFLUSH_IN6'', 162), (''SIOCGNBRINFO_IN6'', 163), (''SIOCGNBRINFO_IN6_32'', 164),
    (''SIOCGNBRINFO_IN6_64'', 165), (''SIOCSPFXFLUSH_IN6'', 166), (''SIOCSRTRFLUSH_IN6'', 167),
    (''SIOCGIFALIFETIME_IN6'', 168), (''SIOCSIFALIFETIME_IN6'', 169), (''SIOCGIFSTAT_IN6'', 170), (''SIOCGIFSTAT_ICMP6'', 171),
    (''SIOCSDEFIFACE_IN6'', 172), (''SIOCGDEFIFACE_IN6'', 173), (''SIOCSDEFIFACE_IN6_32'', 174),
    (''SIOCSDEFIFACE_IN6_64'', 175), (''SIOCGDEFIFACE_IN6_32'', 176), (''SIOCGDEFIFACE_IN6_64'', 177),
    (''SIOCSIFINFO_FLAGS'', 178), (''SIOCSSCOPE6'', 179), (''SIOCGSCOPE6'', 180), (''SIOCGSCOPE6DEF'', 181),
    (''SIOCSIFPREFIX_IN6'', 182), (''SIOCGIFPREFIX_IN6'', 183), (''SIOCDIFPREFIX_IN6'', 184), (''SIOCAIFPREFIX_IN6'', 185),
    (''SIOCCIFPREFIX_IN6'', 186), (''SIOCSGIFPREFIX_IN6'', 187), (''SIOCAADDRCTL_POLICY'', 188),
    (''SIOCDADDRCTL_POLICY'', 189), (''SIOCPROTOATTACH_IN6'', 190), (''SIOCPROTOATTACH_IN6_32'', 191),
    (''SIOCPROTOATTACH_IN6_64'', 192), (''SIOCPROTODETACH_IN6'', 193), (''SIOCLL_START'', 194), (''SIOCLL_START_32'', 195),
    (''SIOCLL_START_64'', 196), (''SIOCLL_STOP'', 197), (''SIOCAUTOCONF_START'', 198), (''SIOCAUTOCONF_STOP'', 199),
    (''SIOCDRADD_IN6'', 200), (''SIOCDRADD_IN6_32'', 201), (''SIOCDRADD_IN6_64'', 202), (''SIOCDRDEL_IN6'', 203),
    (''SIOCDRDEL_IN6_32'', 204), (''SIOCDRDEL_IN6_64'', 205), (''SIOCSETROUTERMODE_IN6'', 206), (''SIOCLL_CGASTART'', 207),
    (''SIOCLL_CGASTART_32'', 208), (''SIOCLL_CGASTART_64'', 209), (''SIOCGIFCGAPREP_IN6'', 210), (''SIOCSIFCGAPREP_IN6'', 211),
    (''DIOCSTART'', 212), (''DIOCSTOP'', 213), (''DIOCADDRULE'', 214), (''DIOCGETSTARTERS'', 215), (''DIOCGETRULES'', 216),
    (''DIOCGETRULE'', 217), (''DIOCSTARTREF'', 218), (''DIOCSTOPREF'', 219), (''DIOCCLRSTATES'', 220), (''DIOCGETSTATE'', 221),
    (''DIOCSETSTATUSIF'', 222), (''DIOCGETSTATUS'', 223), (''DIOCCLRSTATUS'', 224), (''DIOCNATLOOK'', 225),
    (''DIOCSETDEBUG'', 226), (''DIOCGETSTATES'', 227), (''DIOCCHANGERULE'', 228), (''DIOCINSERTRULE'', 229),
    (''DIOCDELETERULE'', 230), (''DIOCSETTIMEOUT'', 231), (''DIOCGETTIMEOUT'', 232), (''DIOCADDSTATE'', 233),
    (''DIOCCLRRULECTRS'', 234), (''DIOCGETLIMIT'', 235), (''DIOCSETLIMIT'', 236), (''DIOCKILLSTATES'', 237),
    (''DIOCSTARTALTQ'', 238), (''DIOCSTOPALTQ'', 239), (''DIOCADDALTQ'', 240), (''DIOCGETALTQS'', 241), (''DIOCGETALTQ'', 242),
    (''DIOCCHANGEALTQ'', 243), (''DIOCGETQSTATS'', 244), (''DIOCBEGINADDRS'', 245), (''DIOCADDADDR'', 246),
    (''DIOCGETADDRS'', 247), (''DIOCGETADDR'', 248), (''DIOCCHANGEADDR'', 249), (''DIOCGETRULESETS'', 250),
    (''DIOCGETRULESET'', 251), (''DIOCRCLRTABLES'', 252), (''DIOCRADDTABLES'', 253), (''DIOCRDELTABLES'', 254),
    (''DIOCRGETTABLES'', 255), (''DIOCRGETTSTATS'', 256), (''DIOCRCLRTSTATS'', 257), (''DIOCRCLRADDRS'', 258),
    (''DIOCRADDADDRS'', 259), (''DIOCRDELADDRS'', 260), (''DIOCRSETADDRS'', 261), (''DIOCRGETADDRS'', 262),
    (''DIOCRGETASTATS'', 263), (''DIOCRCLRASTATS'', 264), (''DIOCRTSTADDRS'', 265), (''DIOCRSETTFLAGS'', 266),
    (''DIOCRINADEFINE'', 267), (''DIOCOSFPFLUSH'', 268), (''DIOCOSFPADD'', 269), (''DIOCOSFPGET'', 270), (''DIOCXBEGIN'', 271),
    (''DIOCXCOMMIT'', 272), (''DIOCXROLLBACK'', 273), (''DIOCGETSRCNODES'', 274), (''DIOCCLRSRCNODES'', 275),
    (''DIOCSETHOSTID'', 276), (''DIOCIGETIFACES'', 277), (''DIOCSETIFFLAG'', 278), (''DIOCCLRIFFLAG'', 279),
    (''DIOCKILLSRCNODES'', 280), (''DIOCGIFSPEED'', 281)
  ]"

lemma num_ioctls_value: "num_ioctls = 281"
  by (simp add: num_ioctls_def ioctls_def ioctls_first_def ioctls_rest_def)

lemma IoctlIdx_values: "map snd IoctlIdx = [1 ..< 282]"
  by (simp add: IoctlIdx_def upt_rec)

lemma IoctlIdx_names: "map fst IoctlIdx = ioctls"
  by (simp only: IoctlIdx_def ioctls_def ioctls_first_def ioctls_rest_def list.map fst_conv append.simps)

text \<open>The enumeration of ioctls and the table agree: every value of \<open>IoctlIdx\<close>, less one, is an index of the table, the entry
  there is the ioctl of the same name, and every entry of the table has a value.\<close>

lemma IoctlIdx_iff: "(n, v) \<in> set IoctlIdx \<longleftrightarrow> 1 \<le> v \<and> v \<le> num_ioctls \<and> ioctls ! (v - 1) = n"
proof -
  have len: "length IoctlIdx = 281" using arg_cong [OF IoctlIdx_values, of length] by simp
  have nth: "IoctlIdx ! i = (ioctls ! i, i + 1)" if "i < 281" for i
    using that len nth_map [of i IoctlIdx fst] nth_map [of i IoctlIdx snd] by (simp add: IoctlIdx_names IoctlIdx_values prod_eq_iff)
  show ?thesis
  proof
    assume "(n, v) \<in> set IoctlIdx"
    then show "1 \<le> v \<and> v \<le> num_ioctls \<and> ioctls ! (v - 1) = n"
      using nth len by (auto simp: in_set_conv_nth num_ioctls_value)
  next
    assume "1 \<le> v \<and> v \<le> num_ioctls \<and> ioctls ! (v - 1) = n"
    then have "IoctlIdx ! (v - 1) = (n, v)" "v - 1 < length IoctlIdx"
      using nth [of "v - 1"] len by (auto simp: num_ioctls_value)
    then show "(n, v) \<in> set IoctlIdx" by (metis nth_mem)
  qed
qed

end
