(* ===== verification/ReturnCodes.thy ===== *)
theory ReturnCodes
  imports Prelude
begin

text \<open>
  The names of return values in the log: \<open>ErrorToString\<close>, \<open>mach_message_return_strings\<close> and
  \<open>MachMessageReturnValueToString\<close> of \<open>fuzz/handlers/command.cc\<close> over the enumeration \<open>MachMsgReturnT\<close> of
  \<open>fuzz/xnu/osfmk/api/types.h\<close>. A name of the enumeration is a string of the model, and its value a word of 32 bits.
\<close>

text \<open>Any other error is logged and aborts: no result.\<close>

definition ErrorToString :: "int \<Rightarrow> string option" where
  "ErrorToString error = map_of
    [
    (0, ''SUCCESS''), (102, ''EOPNOTSUPP''), (52, ''ENETRESET''), (22, ''EINVAL''), (13, ''EACCES''),
    (41, ''EPROTOTYPE''), (9, ''EBADF''), (17, ''EEXIST'')
    ] error"

definition MachMsgReturnT :: "(string \<times> u32) list" where
  "MachMsgReturnT =
    [
    (''MACH_MSG_SUCCESS'', 0x00000000), (''MACH_MSG_MASK'', 0x00003e00), (''MACH_MSG_IPC_SPACE'', 0x00002000),
    (''MACH_MSG_VM_SPACE'', 0x00001000), (''MACH_MSG_IPC_KERNEL'', 0x00000800),
    (''MACH_MSG_VM_KERNEL'', 0x00000400), (''MACH_SEND_IN_PROGRESS'', 0x10000001),
    (''MACH_SEND_INVALID_DATA'', 0x10000002), (''MACH_SEND_INVALID_DEST'', 0x10000003),
    (''MACH_SEND_TIMED_OUT'', 0x10000004), (''MACH_SEND_INVALID_VOUCHER'', 0x10000005),
    (''MACH_SEND_INTERRUPTED'', 0x10000007), (''MACH_SEND_MSG_TOO_SMALL'', 0x10000008),
    (''MACH_SEND_INVALID_REPLY'', 0x10000009), (''MACH_SEND_INVALID_RIGHT'', 0x1000000a),
    (''MACH_SEND_INVALID_NOTIFY'', 0x1000000b), (''MACH_SEND_INVALID_MEMORY'', 0x1000000c),
    (''MACH_SEND_NO_BUFFER'', 0x1000000d), (''MACH_SEND_TOO_LARGE'', 0x1000000e),
    (''MACH_SEND_INVALID_TYPE'', 0x1000000f), (''MACH_SEND_INVALID_HEADER'', 0x10000010),
    (''MACH_SEND_INVALID_TRAILER'', 0x10000011), (''MACH_SEND_INVALID_CONTEXT'', 0x10000012),
    (''MACH_SEND_INVALID_OPTIONS'', 0x10000013), (''MACH_SEND_INVALID_RT_OOL_SIZE'', 0x10000015),
    (''MACH_SEND_NO_GRANT_DEST'', 0x10000016), (''MACH_SEND_MSG_FILTERED'', 0x10000017),
    (''MACH_SEND_AUX_TOO_SMALL'', 0x10000018), (''MACH_SEND_AUX_TOO_LARGE'', 0x10000019),
    (''MACH_RCV_IN_PROGRESS'', 0x10004001), (''MACH_RCV_INVALID_NAME'', 0x10004002),
    (''MACH_RCV_TIMED_OUT'', 0x10004003), (''MACH_RCV_TOO_LARGE'', 0x10004004),
    (''MACH_RCV_INTERRUPTED'', 0x10004005), (''MACH_RCV_PORT_CHANGED'', 0x10004006),
    (''MACH_RCV_INVALID_NOTIFY'', 0x10004007), (''MACH_RCV_INVALID_DATA'', 0x10004008),
    (''MACH_RCV_PORT_DIED'', 0x10004009), (''MACH_RCV_IN_SET'', 0x1000400a),
    (''MACH_RCV_HEADER_ERROR'', 0x1000400b), (''MACH_RCV_BODY_ERROR'', 0x1000400c),
    (''MACH_RCV_INVALID_TYPE'', 0x1000400d), (''MACH_RCV_SCATTER_SMALL'', 0x1000400e),
    (''MACH_RCV_INVALID_TRAILER'', 0x1000400f), (''MACH_RCV_IN_PROGRESS_TIMED'', 0x10004011),
    (''MACH_RCV_INVALID_REPLY'', 0x10004012), (''MACH_RCV_INVALID_ARGUMENTS'', 0x10004013)
    ]"

definition MachMsgReturnT_value :: "string \<Rightarrow> u32" where
  "MachMsgReturnT_value name = the (map_of MachMsgReturnT name)"

text \<open>The initialiser of the hash map: pairs of an enumerator and a string.\<close>

definition mach_message_return_strings :: "(string \<times> string) list" where
  "mach_message_return_strings =
    [
    (''MACH_MSG_SUCCESS'', ''MACH_MSG_SUCCESS''), (''MACH_MSG_MASK'', ''MACH_MSG_MASK''),
    (''MACH_MSG_IPC_SPACE'', ''MACH_MSG_IPC_SPACE''), (''MACH_MSG_VM_SPACE'', ''MACH_MSG_VM_SPACE''),
    (''MACH_MSG_IPC_KERNEL'', ''MACH_MSG_IPC_KERNEL''), (''MACH_MSG_VM_KERNEL'', ''MACH_MSG_VM_KERNEL''),
    (''MACH_SEND_IN_PROGRESS'', ''MACH_SEND_IN_PROGRESS''),
    (''MACH_SEND_INVALID_DATA'', ''MACH_SEND_INVALID_DATA''),
    (''MACH_SEND_INVALID_DEST'', ''MACH_SEND_INVALID_DEST''),
    (''MACH_SEND_TIMED_OUT'', ''MACH_SEND_TIMED_OUT''),
    (''MACH_SEND_INVALID_VOUCHER'', ''MACH_SEND_INVALID_VOUCHER''),
    (''MACH_SEND_INTERRUPTED'', ''MACH_SEND_INTERRUPTED''),
    (''MACH_SEND_MSG_TOO_SMALL'', ''MACH_SEND_MSG_TOO_SMALL''),
    (''MACH_SEND_INVALID_REPLY'', ''MACH_SEND_INVALID_REPLY''),
    (''MACH_SEND_INVALID_RIGHT'', ''MACH_SEND_INVALID_RIGHT''),
    (''MACH_SEND_INVALID_NOTIFY'', ''MACH_SEND_INVALID_NOTIFY''),
    (''MACH_SEND_INVALID_MEMORY'', ''MACH_SEND_INVALID_MEMORY''),
    (''MACH_SEND_NO_BUFFER'', ''MACH_SEND_NO_BUFFER''), (''MACH_SEND_TOO_LARGE'', ''MACH_SEND_TOO_LARGE''),
    (''MACH_SEND_INVALID_TYPE'', ''MACH_SEND_INVALID_TYPE''),
    (''MACH_SEND_INVALID_HEADER'', ''MACH_SEND_INVALID_HEADER''),
    (''MACH_SEND_INVALID_TRAILER'', ''MACH_SEND_INVALID_TRAILER''),
    (''MACH_SEND_INVALID_CONTEXT'', ''MACH_SEND_INVALID_CONTEXT''),
    (''MACH_SEND_INVALID_OPTIONS'', ''MACH_SEND_INVALID_OPTIONS''),
    (''MACH_SEND_INVALID_RT_OOL_SIZE'', ''MACH_SEND_INVALID_RT_OOL_SIZE''),
    (''MACH_SEND_NO_GRANT_DEST'', ''MACH_SEND_NO_GRANT_DEST''),
    (''MACH_SEND_MSG_FILTERED'', ''MACH_SEND_MSG_FILTERED''),
    (''MACH_SEND_AUX_TOO_SMALL'', ''MACH_SEND_AUX_TOO_SMALL''),
    (''MACH_SEND_AUX_TOO_LARGE'', ''MACH_SEND_AUX_TOO_LARGE''),
    (''MACH_RCV_IN_PROGRESS'', ''MACH_RCV_IN_PROGRESS''),
    (''MACH_RCV_INVALID_NAME'', ''MACH_RCV_INVALID_NAME''), (''MACH_RCV_TIMED_OUT'', ''MACH_RCV_TIMED_OUT''),
    (''MACH_RCV_TOO_LARGE'', ''MACH_RCV_TOO_LARGE''), (''MACH_RCV_INTERRUPTED'', ''MACH_RCV_INTERRUPTED''),
    (''MACH_RCV_PORT_CHANGED'', ''MACH_RCV_PORT_CHANGED''),
    (''MACH_RCV_INVALID_NOTIFY'', ''MACH_RCV_INVALID_NOTIFY''),
    (''MACH_RCV_INVALID_DATA'', ''MACH_RCV_INVALID_DATA''), (''MACH_RCV_PORT_DIED'', ''MACH_RCV_PORT_DIED''),
    (''MACH_RCV_IN_SET'', ''MACH_RCV_IN_SET''), (''MACH_RCV_HEADER_ERROR'', ''MACH_RCV_HEADER_ERROR''),
    (''MACH_RCV_BODY_ERROR'', ''MACH_RCV_BODY_ERROR''),
    (''MACH_RCV_INVALID_TYPE'', ''MACH_RCV_INVALID_TYPE''),
    (''MACH_RCV_SCATTER_SMALL'', ''MACH_RCV_SCATTER_SMALL''),
    (''MACH_RCV_INVALID_TRAILER'', ''MACH_RCV_INVALID_TRAILER''),
    (''MACH_RCV_IN_PROGRESS_TIMED'', ''MACH_RCV_IN_PROGRESS_TIMED''),
    (''MACH_RCV_INVALID_REPLY'', ''MACH_RCV_INVALID_REPLY''),
    (''MACH_RCV_INVALID_ARGUMENTS'', ''MACH_RCV_INVALID_ARGUMENTS'')
    ]"

text \<open>The conversion \<open>%x\<close> of \<open>absl::StrFormat\<close>.\<close>

definition hex_digit :: "nat \<Rightarrow> char" where
  "hex_digit d = ''0123456789abcdef'' ! d"

fun hex_digits :: "nat \<Rightarrow> string" where
  "hex_digits n = (if n < 16 then [hex_digit n] else hex_digits (n div 16) @ [hex_digit (n mod 16)])"

declare hex_digits.simps [simp del]

definition MachMessageReturnValueToString :: "u32 \<Rightarrow> string" where
  "MachMessageReturnValueToString rv =
     (case map_of (map (\<lambda>(e, str). (MachMsgReturnT_value e, str)) mach_message_return_strings) rv of
        Some str \<Rightarrow> str
      | None \<Rightarrow> ''MachMessageReturnValueToString: Unknown Mach message return value: 0x'' @ hex_digits (unat rv))"

section \<open>Properties\<close>

lemma MachMsgReturnT_distinct: "distinct (map fst MachMsgReturnT)" "distinct (map snd MachMsgReturnT)"
  by code_simp+

lemma return_strings_names: "mach_message_return_strings = map (\<lambda>n. (n, n)) (map fst MachMsgReturnT)"
  by (simp only: mach_message_return_strings_def MachMsgReturnT_def list.map fst_conv)

lemma return_strings_values:
  "map (\<lambda>(e, str). (MachMsgReturnT_value e, str)) mach_message_return_strings = map (\<lambda>(n, v). (v, n)) MachMsgReturnT"
proof -
  have "MachMsgReturnT_value n = v" if "(n, v) \<in> set MachMsgReturnT" for n v
    using map_of_is_SomeI [OF MachMsgReturnT_distinct(1) that] by (simp add: MachMsgReturnT_value_def)
  then show ?thesis by (auto simp: return_strings_names)
qed

text \<open>Every value of the enumeration is reported by its own name.\<close>

lemma MachMessageReturnValueToString_known:
  assumes "(n, v) \<in> set MachMsgReturnT"
  shows "MachMessageReturnValueToString v = n"
proof -
  have "(v, n) \<in> set (map (\<lambda>(n, v). (v, n)) MachMsgReturnT)" using assms by force
  moreover have "distinct (map fst (map (\<lambda>(n, v). (v, n)) MachMsgReturnT))"
    using MachMsgReturnT_distinct(2) by (simp add: comp_def case_prod_beta)
  ultimately have "map_of (map (\<lambda>(n, v). (v, n)) MachMsgReturnT) v = Some n" by (rule map_of_is_SomeI [rotated])
  then show ?thesis by (simp add: MachMessageReturnValueToString_def return_strings_values)
qed

text \<open>Any other value is printed as a number, and no two numbers look alike.\<close>

lemma hex_digit_inj: "inj_on hex_digit {..<16}"
proof (rule inj_onI)
  fix a b
  have "distinct ''0123456789abcdef''" by simp
  moreover assume "a \<in> {..<16}" "b \<in> {..<16}" "hex_digit a = hex_digit b"
  ultimately show "a = b" by (simp add: hex_digit_def nth_eq_iff_index_eq del: nth_Cons_numeral)
qed

lemma hex_digits_inj: "hex_digits m = hex_digits n \<Longrightarrow> m = n"
proof (induction m arbitrary: n rule: hex_digits.induct)
  case (1 m)
  have ne: "hex_digits k \<noteq> []" for k by (subst hex_digits.simps) simp
  have last: "last (hex_digits k) = hex_digit (k mod 16)" for k by (subst hex_digits.simps) simp
  have but: "butlast (hex_digits k) = (if k < 16 then [] else hex_digits (k div 16))" for k
    by (subst hex_digits.simps) simp
  have digit: "m mod 16 = n mod 16"
    using "1.prems" last [of m] last [of n] by (intro inj_onD [OF hex_digit_inj]) auto
  have "m div 16 = n div 16"
    using "1.prems" but [of m] but [of n] ne [of "m div 16"] ne [of "n div 16"] "1.IH" by (auto split: if_splits)
  with digit show ?case by (metis div_mult_mod_eq)
qed

lemma MachMessageReturnValueToString_unknown:
  assumes "v \<notin> snd ` set MachMsgReturnT"
  shows "MachMessageReturnValueToString v =
    ''MachMessageReturnValueToString: Unknown Mach message return value: 0x'' @ hex_digits (unat v)"
proof -
  have "map_of (map (\<lambda>(n, v). (v, n)) MachMsgReturnT) v = None" using assms by (force simp: map_of_eq_None_iff)
  then show ?thesis by (simp add: MachMessageReturnValueToString_def return_strings_values)
qed

end
