(* ===== verification/Command.thy ===== *)
theory Command
  imports Messages Ioctl ReturnCodes
begin

text \<open>
  The commands of a test case, \<open>fuzz/handlers/command.cc\<close> and \<open>fuzz/handlers/necp.cc\<close>: one case per command of the message,
  which turns its fields into the arguments of a Mach trap (theory \<open>MachBackend\<close>), a system call, a packet (theory
  \<open>Packets\<close>) or a Mach message (theory \<open>Messages\<close>), and yields when it did something.

  The parameter \<open>env\<close> holds what the sources call and do not contain: the traps of XNU, the wrappers of system calls and
  the dispatcher over them, which a tool generates, the arguments of MIG routines, and the numbers of the ioctls. A local
  variable whose address is passed on is a block of its own for as long as the case runs; where a wrapper writes its result
  through such an address and the code reads it, the wrapper answers the value. Messages to the log are left out.
\<close>

unbundle bit_operations_syntax

section \<open>State and parameters\<close>

record cstate = bstate +
  cids :: "u32 list"

record sa_endpoints =
  sae_srcif :: u32
  sae_srcaddr :: ptr
  sae_srcaddrlen :: u32
  sae_dstaddr :: ptr
  sae_dstaddrlen :: u32

record ('r, 'b, 'z) handler_env =
  mach_headers :: mach_h
  trap :: "mach_trap_call \<Rightarrow> (u32, 'z cstate_scheme) prog"
  routine_data :: "'r \<Rightarrow> u32 \<times> u8 list list \<times> u8 list"
  CallBsdSyscall :: "'b \<Rightarrow> (unit, 'z cstate_scheme) prog"
  ioctl_number :: "string \<Rightarrow> u64"
  ioctl_wrapper :: "u32 \<Rightarrow> u32 \<Rightarrow> ptr \<Rightarrow> (int, 'z cstate_scheme) prog"
  connectx_wrapper :: "u32 \<Rightarrow> sa_endpoints \<Rightarrow> u32 \<Rightarrow> u32 \<Rightarrow> (u32, 'z cstate_scheme) prog"
  disconnectx_wrapper :: "u32 \<Rightarrow> u32 \<Rightarrow> u32 \<Rightarrow> (int, 'z cstate_scheme) prog"
  necp_session_action_wrapper :: "u32 \<Rightarrow> u32 \<Rightarrow> ptr \<Rightarrow> nat \<Rightarrow> ptr \<Rightarrow> nat \<Rightarrow> (int, 'z cstate_scheme) prog"
  necp_client_action_wrapper :: "u32 \<Rightarrow> u32 \<Rightarrow> ptr \<Rightarrow> nat \<Rightarrow> ptr \<Rightarrow> nat \<Rightarrow> (int, 'z cstate_scheme) prog"
  kevent_wrapper :: "u32 \<Rightarrow> ptr \<Rightarrow> nat \<Rightarrow> ptr \<Rightarrow> nat \<Rightarrow> (int, 'z cstate_scheme) prog"
  port_options_bytes :: "u32 \<Rightarrow> u32 \<Rightarrow> u32 \<Rightarrow> u8 list"

text \<open>Memory of the case: a block with given bytes, the buffer of a string with its NUL, of a vector (none when it is
  empty) and of an uninitialised array. These stand for what the code passes by address: locals, which live on the stack, strings, which the message
  owns or a destructor frees, and vectors. Each is given a block for as long as the case runs, whatever its storage in the code, and its
  release is part of the combinator. The connection ids of \<open>kConnectx\<close> are a list; the memory of their vector is not in the heap.\<close>

definition with_block :: "u8 list \<Rightarrow> (ptr \<Rightarrow> ('a, 'z mach_scheme) prog) \<Rightarrow> ('a, 'z mach_scheme) prog" where
  "with_block bs body =
     bindM (heapM (malloc (length bs))) (\<lambda>p.
       if p = 0 then abortM
       else thenM (heapM (store_at p bs)) (bindM (body p) (\<lambda>x. thenM (heapM (free p)) (retM x))))"

definition with_chars :: "u8 list \<Rightarrow> (ptr \<Rightarrow> ('a, 'z mach_scheme) prog) \<Rightarrow> ('a, 'z mach_scheme) prog" where
  "with_chars cs body = with_block (cs @ [0]) body"

definition with_vector :: "u8 list \<Rightarrow> (ptr \<Rightarrow> ('a, 'z mach_scheme) prog) \<Rightarrow> ('a, 'z mach_scheme) prog" where
  "with_vector bs body = (if bs = [] then body 0 else with_block bs body)"

definition with_new :: "nat \<Rightarrow> (ptr \<Rightarrow> ('a, 'z mach_scheme) prog) \<Rightarrow> ('a, 'z mach_scheme) prog" where
  "with_new n body =
     bindM (heapM (malloc n)) (\<lambda>p. if p = 0 then abortM else bindM (body p) (\<lambda>x. thenM (heapM (free p)) (retM x)))"

definition ignore :: "('a, 's) prog \<Rightarrow> (unit, 's) prog" where
  "ignore m = bindM m (\<lambda>_. retM ())"

section \<open>Flags\<close>

definition GetProtection :: "u32 list \<Rightarrow> u32" where
  "GetProtection prot = fold (\<lambda>flag result. result OR flag) prot 0"

definition or_options :: "u32 list \<Rightarrow> u32" where
  "or_options options = fold (\<lambda>opt r. r OR opt) options 0"

section \<open>Network policy\<close>

datatype NecpClientId = CLIENT_0 | CLIENT_1 | CLIENT_2

fun GetNecpClient :: "NecpClientId \<Rightarrow> u8 list" where
  "GetNecpClient CLIENT_0 = replicate 16 48"
| "GetNecpClient CLIENT_1 = replicate 16 49"
| "GetNecpClient CLIENT_2 = replicate 16 50"

definition NECP_CLIENT_ACTION_ADD :: u32 where "NECP_CLIENT_ACTION_ADD = 1"
definition NECP_CLIENT_ACTION_REMOVE :: u32 where "NECP_CLIENT_ACTION_REMOVE = 2"
definition NECP_CLIENT_ACTION_COPY_PARAMETERS :: u32 where "NECP_CLIENT_ACTION_COPY_PARAMETERS = 3"
definition NECP_CLIENT_ACTION_AGENT :: u32 where "NECP_CLIENT_ACTION_AGENT = 7"

definition necp_client_add :: "('r, 'b, 'z) handler_env \<Rightarrow> u32 \<Rightarrow> NecpClientId \<Rightarrow> u8 list \<Rightarrow> (unit, 'z cstate_scheme) prog" where
  "necp_client_add env fd client_id data =
     with_chars (GetNecpClient client_id) (\<lambda>cl. with_chars data (\<lambda>buf.
       ignore (necp_client_action_wrapper env fd NECP_CLIENT_ACTION_ADD cl 16 buf (length data))))"

definition necp_client_remove :: "('r, 'b, 'z) handler_env \<Rightarrow> u32 \<Rightarrow> NecpClientId \<Rightarrow> (unit, 'z cstate_scheme) prog" where
  "necp_client_remove env fd client_id =
     with_chars (GetNecpClient client_id) (\<lambda>cl.
       ignore (necp_client_action_wrapper env fd NECP_CLIENT_ACTION_REMOVE cl 16 0 0))"

definition necp_client_copy_parameters ::
  "('r, 'b, 'z) handler_env \<Rightarrow> u32 \<Rightarrow> NecpClientId \<Rightarrow> u32 \<Rightarrow> (unit, 'z cstate_scheme) prog" where
  "necp_client_copy_parameters env fd client_id copyout_size =
     with_chars (GetNecpClient client_id) (\<lambda>cl.
       let copyout_size = unat (copyout_size mod 4096) in
       with_new copyout_size (\<lambda>buf.
         ignore (necp_client_action_wrapper env fd NECP_CLIENT_ACTION_COPY_PARAMETERS cl 16 buf copyout_size)))"

text \<open>A header of five bytes, type and length, before the data of each element.\<close>

definition tlv_bytes :: "u32 \<times> u8 list \<Rightarrow> u8 list" where
  "tlv_bytes tlv = [ucast (fst tlv)] @ bytes_of_u32 (of_nat (length (snd tlv))) @ snd tlv"

definition necp_client_agent ::
  "('r, 'b, 'z) handler_env \<Rightarrow> u32 \<Rightarrow> NecpClientId \<Rightarrow> (u32 \<times> u8 list) list \<Rightarrow> (unit, 'z cstate_scheme) prog" where
  "necp_client_agent env fd client_id necp_tlv =
     with_chars (GetNecpClient client_id) (\<lambda>cl.
       let parameters = concat (map tlv_bytes necp_tlv) in
       with_chars parameters (\<lambda>buf.
         ignore (necp_client_action_wrapper env fd NECP_CLIENT_ACTION_AGENT cl 16 buf (length parameters))))"

datatype NecpAction = kAdd "u8 list" | kRemove | kCopyParameters u32 | kAgent "(u32 \<times> u8 list) list" | ACTION_NOT_SET

fun DoNecpClientAction :: "('r, 'b, 'z) handler_env \<Rightarrow> u32 \<Rightarrow> NecpClientId \<Rightarrow> NecpAction \<Rightarrow> (unit, 'z cstate_scheme) prog" where
  "DoNecpClientAction env fd client_id (kAdd buffer) = necp_client_add env fd client_id buffer"
| "DoNecpClientAction env fd client_id kRemove = necp_client_remove env fd client_id"
| "DoNecpClientAction env fd client_id (kCopyParameters n) = necp_client_copy_parameters env fd client_id n"
| "DoNecpClientAction env fd client_id (kAgent tlvs) = necp_client_agent env fd client_id tlvs"
| "DoNecpClientAction env fd client_id ACTION_NOT_SET = retM ()"

section \<open>Mach traps with more to do\<close>

record MachMsg2Trap =
  m2_data :: "MachMsg option"
  m2_options :: "u32 list"
  m2_options_upper_bits :: "u32 list"
  m2_remote_port :: u32
  m2_local_port :: u32
  m2_voucher_port :: u32
  m2_id :: u32
  m2_desc_count :: u32
  m2_rcv_name :: u32
  m2_rcv_size :: u32
  m2_priority :: u32
  m2_timeout :: u64

definition pack32 :: "u32 \<Rightarrow> u32 \<Rightarrow> u64" where
  "pack32 lo hi = ucast lo AND 0xFFFFFFFF OR push_bit 32 (ucast hi)"

definition msg2_options :: "MachMsg2Trap \<Rightarrow> u64" where
  "msg2_options t =
     fold (\<lambda>opt r. r OR push_bit 32 (scast opt)) (m2_options_upper_bits t)
       (fold (\<lambda>opt r. r OR scast opt) (m2_options t) (push_bit 32 0x80000000))"

definition msg2_bits :: "mach_h \<Rightarrow> MachMsg2Trap \<Rightarrow> u32" where
  "msg2_bits mh t = (case Option.bind (m2_data t) msg_header of
     Some (ports, _) \<Rightarrow> MACH_MSGH_BITS_SET mh (remote_type ports) (local_type ports) (voucher_type ports) 0
   | None \<Rightarrow> MACH_MSGH_BITS_SET mh 0 0 0 0)"

definition HandleMachMsg2 :: "('r, 'b, 'z) handler_env \<Rightarrow> MachMsg2Trap \<Rightarrow> (u32, 'z cstate_scheme) prog" where
  "HandleMachMsg2 env t =
     bindM (case m2_data t of None \<Rightarrow> retM [] | Some msg \<Rightarrow> GetMachMsg (mach_headers env) msg) (\<lambda>message.
     with_vector message (\<lambda>data.
       mach_msg2_trap_wrapper (trap env) (of_nat data) (msg2_options t)
         (push_bit 32 (of_nat (length message)) OR ucast (msg2_bits (mach_headers env) t))
         (pack32 (GetMachPortName (m2_remote_port t)) (GetMachPortName (m2_local_port t)))
         (pack32 (GetMachPortName (m2_voucher_port t)) (m2_id t))
         (pack32 (m2_desc_count t) (GetMachPortName (m2_rcv_name t)))
         (ucast (m2_rcv_size t) AND 0xFFFFFFFF OR push_bit 32 (scast (m2_priority t))) (m2_timeout t)))"

definition HandleMachPortAllocate :: "('r, 'b, 'z) handler_env \<Rightarrow> u32 \<Rightarrow> u32 \<Rightarrow> ptr \<Rightarrow> (u32, 'z cstate_scheme) prog" where
  "HandleMachPortAllocate env target right name =
     kernelrpc_mach_port_allocate_trap_wrapper (trap env) (GetMachPortName target) right (of_nat name)"

definition HandleMachPortDeallocate :: "('r, 'b, 'z) handler_env \<Rightarrow> u32 \<Rightarrow> u32 \<Rightarrow> (u32, 'z cstate_scheme) prog" where
  "HandleMachPortDeallocate env target name =
     kernelrpc_mach_port_deallocate_trap_wrapper (trap env) (GetMachPortName target) (GetMachPortName name)"

definition HandleTaskSelfTrap :: "('r, 'b, 'z) handler_env \<Rightarrow> (u32, 'z cstate_scheme) prog" where
  "HandleTaskSelfTrap env = task_self_trap_wrapper (trap env)"

record MachMsgOverwrite =
  mo_msg :: "MachMsg option"
  mo_options :: "u32 list"
  mo_rcv_size :: u32
  mo_rcv_name :: u32
  mo_timeout :: u32
  mo_priority :: u32
  mo_rcv_msg :: u64

text \<open>The address is 1 when there is no message.\<close>

definition handle_mach_msg_overwrite :: "('r, 'b, 'z) handler_env \<Rightarrow> MachMsgOverwrite \<Rightarrow> (u32, 'z cstate_scheme) prog" where
  "handle_mach_msg_overwrite env m =
     bindM (case mo_msg m of None \<Rightarrow> retM None | Some msg \<Rightarrow> bindM (GetMachMsg (mach_headers env) msg) (\<lambda>bs. retM (Some bs))) (\<lambda>message.
     let call = (\<lambda>addr n. mach_msg_overwrite_trap_wrapper (trap env) addr (sint (or_options (mo_options m))) (of_nat n)
           (mo_rcv_size m) (GetMachPortName (mo_rcv_name m)) (mo_timeout m) (mo_priority m) (mo_rcv_msg m)) in
     case message of None \<Rightarrow> call 1 0 | Some bs \<Rightarrow> with_vector bs (\<lambda>p. call (of_nat p) (length bs)))"

record 'r MigRoutineMachMsg =
  mig_routine :: 'r
  mig_options :: "u32 list"
  mig_rcv_size :: u32
  mig_rcv_name :: u32
  mig_timeout :: u32
  mig_priority :: u32
  mig_rcv_msg :: u64
  mig_ports :: msg_ports

definition handle_mig_routine :: "('r, 'b, 'z) handler_env \<Rightarrow> 'r MigRoutineMachMsg \<Rightarrow> (u32, 'z cstate_scheme) prog" where
  "handle_mig_routine env m =
     bindM (GetMigRoutineMsg (mach_headers env) (routine_data env) (mig_routine m)
       ((mig_ports m)\<lparr>remote_port := GetMachPortName (remote_port (mig_ports m)),
         local_port := GetMachPortName (local_port (mig_ports m)), voucher_port := GetMachPortName (voucher_port (mig_ports m))\<rparr>)) (\<lambda>message.
     with_vector message (\<lambda>p.
       mach_msg_trap_wrapper (trap env) (of_nat p) (sint (or_options (mig_options m))) (of_nat (length message)) (mig_rcv_size m)
         (GetMachPortName (mig_rcv_name m)) (mig_timeout m) (mig_priority m) (mig_rcv_msg m)))"

record MachPortConstruct =
  pc_target :: u32
  pc_flags :: "u32 list"
  pc_limit :: u32
  pc_work_interval_port :: u32
  pc_context :: u64

definition handle_mach_port_construct :: "('r, 'b, 'z) handler_env \<Rightarrow> MachPortConstruct \<Rightarrow> (u32, 'z cstate_scheme) prog" where
  "handle_mach_port_construct env c =
     with_block (bytes_of_u64 0) (\<lambda>name.
     with_block (port_options_bytes env (or_options (pc_flags c)) (pc_limit c) (GetMachPortName (pc_work_interval_port c))) (\<lambda>options.
     bindM (task_self_trap_wrapper (trap env)) (\<lambda>_.
       kernelrpc_mach_port_construct_trap_wrapper (trap env) (GetMachPortName (pc_target c)) (of_nat options) (pc_context c) (of_nat name))))"

section \<open>System calls with structures\<close>

record In6_AliasReq_64 =
  ar_name :: "u8 list"
  ar_addr :: SockAddr6
  ar_dstaddr :: SockAddr6
  ar_prefixmask :: SockAddr6
  ar_flags :: "u32 list"
  ar_lifetime :: in6_addrlifetime_64

text \<open>The bytes of \<open>struct in6_aliasreq_64\<close>: the flags of the message are combined by exclusive or.\<close>

definition alias_bytes :: "In6_AliasReq_64 \<Rightarrow> (u8 list, 's) prog" where
  "alias_bytes req =
     bindM (get_sockaddr6 (ar_addr req)) (\<lambda>addr.
     bindM (get_sockaddr6 (ar_dstaddr req)) (\<lambda>dstaddr.
     bindM (get_sockaddr6 (ar_prefixmask req)) (\<lambda>prefixmask.
     retM (poke (replicate 16 0) 0 (take (min (length (ar_name req)) 16) (ar_name req)) @
       bytes_of_sockaddr_in6 addr @ bytes_of_sockaddr_in6 dstaddr @ bytes_of_sockaddr_in6 prefixmask @
       bytes_of_u32 (fold (\<lambda>flag f. f XOR flag) (ar_flags req) 0) @ get_in6_addrlifetime_64 (ar_lifetime req)))))"

definition ifreq_bytes :: "u32 list \<Rightarrow> u8 list" where
  "ifreq_bytes flags =
     get_ifr_name (replicate 16 0) LO0 @ bytes_of_u16 (fold (\<lambda>flag f. f OR ucast flag) flags 0) @ replicate 14 0"

datatype IoctlReal = kSiocaifaddrIn664 In6_AliasReq_64 | kSiocsifflags "u32 list" | IOCTL_NOT_SET

fun handle_ioctl_real :: "('r, 'b, 'z) handler_env \<Rightarrow> u32 \<Rightarrow> IoctlReal \<Rightarrow> (unit, 'z cstate_scheme) prog" where
  "handle_ioctl_real env fd (kSiocaifaddrIn664 req) =
     bindM (alias_bytes req) (\<lambda>bs. with_block bs (\<lambda>p.
       ignore (ioctl_wrapper env fd (ucast (ioctl_number env ''SIOCAIFADDR_IN6_64'')) p)))"
| "handle_ioctl_real env fd (kSiocsifflags flags) =
     with_block (ifreq_bytes flags) (\<lambda>p. ignore (ioctl_wrapper env fd (ucast (ioctl_number env ''SIOCSIFFLAGS'')) p))"
| "handle_ioctl_real env fd IOCTL_NOT_SET = retM ()"

text \<open>The index is not checked; outside of the table the memory error detector stops the process.\<close>

definition handle_ioctl :: "('r, 'b, 'z) handler_env \<Rightarrow> u32 \<Rightarrow> u32 \<Rightarrow> (unit, 'z cstate_scheme) prog" where
  "handle_ioctl env fd idx =
     (let i = unat (idx - 1) in
      if num_ioctls \<le> i then stopM MemFault
      else thenM BlockCopyin (bindM (ioctl_wrapper env fd (ucast (ioctl_number env (ioctls ! i))) 1) (\<lambda>_. UnblockCopyin)))"

record ConnectX =
  cx_socket :: u32
  cx_srcif :: u32
  cx_srcaddr :: "SockAddr option"
  cx_dstaddr :: SockAddr
  cx_associd :: u32
  cx_flags :: "u32 list"

definition ConnectX_default :: ConnectX where
  "ConnectX_default = \<lparr>cx_socket = 0, cx_srcif = 0, cx_srcaddr = None, cx_dstaddr = SOCKADDR_NOT_SET, cx_associd = 0, cx_flags = []\<rparr>"

definition handle_connectx :: "('r, 'b, 'z) handler_env \<Rightarrow> ConnectX \<Rightarrow> (unit, 'z cstate_scheme) prog" where
  "handle_connectx env c =
     bindM (case cx_srcaddr c of None \<Rightarrow> retM None | Some a \<Rightarrow> bindM (get_sockaddr a) (\<lambda>bs. retM (Some bs))) (\<lambda>src.
     bindM (get_sockaddr (cx_dstaddr c)) (\<lambda>dst.
     let call = (\<lambda>srcaddr srcsize. with_chars dst (\<lambda>dstaddr.
           connectx_wrapper env (cx_socket c)
             \<lparr>sae_srcif = cx_srcif c, sae_srcaddr = srcaddr, sae_srcaddrlen = of_nat srcsize, sae_dstaddr = dstaddr,
              sae_dstaddrlen = of_nat (length dst)\<rparr> (cx_associd c) (or_options (cx_flags c)))) in
     bindM (case src of None \<Rightarrow> call 0 0 | Some bs \<Rightarrow> with_chars bs (\<lambda>p. call p (length bs))) (\<lambda>cid.
       modifyM (\<lambda>s. s\<lparr>cids := cids s @ [cid]\<rparr>))))"

text \<open>\<open>cid % cids_.size()\<close> converts the signed number to the 64-bit unsigned type first.\<close>

definition disconnect_cid :: "u32 \<Rightarrow> u32 list \<Rightarrow> u32" where
  "disconnect_cid cid cs = (if cs \<noteq> [] then cs ! (unat (scast cid :: u64) mod length cs) else cid)"

definition handle_disconnectx :: "('r, 'b, 'z) handler_env \<Rightarrow> u32 \<Rightarrow> u32 \<Rightarrow> u32 \<Rightarrow> (unit, 'z cstate_scheme) prog" where
  "handle_disconnectx env fd associd cid =
     bindM (getsM (\<lambda>s. disconnect_cid cid (cids s))) (\<lambda>cid. ignore (disconnectx_wrapper env fd associd cid))"

definition handle_necp_session ::
  "('r, 'b, 'z) handler_env \<Rightarrow> u32 \<Rightarrow> u32 \<Rightarrow> u8 list \<Rightarrow> u32 \<Rightarrow> (unit, 'z cstate_scheme) prog" where
  "handle_necp_session env fd action in_buffer out_buffer_size =
     (let n = unat (out_buffer_size mod 4096) in
      with_chars in_buffer (\<lambda>buffer. with_vector (replicate n 0) (\<lambda>out_buffer.
        ignore (necp_session_action_wrapper env fd action buffer (length in_buffer) out_buffer n))))"

record KEventStruct =
  ke_ident :: u32
  ke_filter :: u32
  ke_flags :: "u32 list"
  ke_fflags :: u64
  ke_data :: u64
  ke_udata :: u64

definition kevent_bytes :: "KEventStruct \<Rightarrow> u8 list" where
  "kevent_bytes c = bytes_of_u64 (scast (ke_ident c)) @ bytes_of_u16 (ucast (ke_filter c)) @
     bytes_of_u16 (ucast (or_options (ke_flags c))) @ bytes_of_u32 (ucast (ke_fflags c)) @ bytes_of_u64 (ke_data c) @
     bytes_of_u64 (ke_udata c)"

definition handle_kevent ::
  "('r, 'b, 'z) handler_env \<Rightarrow> u32 \<Rightarrow> KEventStruct list \<Rightarrow> KEventStruct list \<Rightarrow> (unit, 'z cstate_scheme) prog" where
  "handle_kevent env kq changelist eventlist =
     with_vector (concat (map kevent_bytes changelist)) (\<lambda>changes. with_vector (concat (map kevent_bytes eventlist)) (\<lambda>events.
       ignore (kevent_wrapper env kq changes (length changelist) events (length eventlist))))"

section \<open>The dispatcher\<close>

datatype ('r, 'b) Command =
    kMachVmAllocateTrap u32 u64 u32
  | kMachVmPurgableControl u32 u64 u32
  | kMachVmDeallocateTrap u32 u64 u64
  | kTaskDyldProcessInfoNotifyGet
  | kMachVmProtectTrap u32 u64 u64 bool "u32 list"
  | kMachVmMapTrap u32 u64 u32 u32 "u32 list"
  | kMachPortAllocate u32 u32
  | kMachPortDeallocate u32 u32
  | kMachPortModRefs u32 u32 u32 u32
  | kMachPortMoveMember u32 u32 u32
  | kMachPortInsertRight u32 u32 u32 u32
  | kMachPortInsertMember u32 u32 u32
  | kMachPortExtractMember u32 u32 u32
  | kMachPortConstruct MachPortConstruct
  | kMachPortDestruct u32 u32 u32 u64
  | kMachReplyPort
  | kMachPortRequestNotificationTrap u32 u32 u64 u32 u32
  | kThreadSelf
  | kTaskSelf
  | kHostSelf
  | kMachMsg MachMsgOverwrite
  | kMachMsgOverwrite MachMsgOverwrite
  | kMachMsg2Trap MachMsg2Trap
  | kHostCreateMachVoucherTrap u32 "u8 list"
  | kMachVoucherExtractAttrRecipeTrap u32 u32 "u8 list"
  | kThreadGetSpecialReplyPort
  | kMkTimerCreateTrap
  | kMkTimerDestroyTrap u32
  | kMkTimerCancelTrap u32
  | kMkTimerArmTrap u32 u64
  | kMkTimerArmLeewayTrap u32 u64 u64 u64
  | kArbBsdSyscall u32 "u8 list"
  | kArbMachTrap u32 "u8 list"
  | kIoctl u32 u32
  | kIpInput Packet
  | kIoctlReal u32 IoctlReal
  | kConnectx ConnectX
  | kDisconnectx u32 u32 u32
  | kNecpClientAction u32 NecpClientId NecpAction
  | kNecpSessionAction u32 u32 "u8 list" u32
  | kMigRoutineMachMsg "'r MigRoutineMachMsg"
  | kKevent u32 "KEventStruct list" "KEventStruct list"
  | kProcessorException "(u64 \<times> u32) option"
  | kSyscall 'b
  | COMMAND_NOT_SET

record ('r, 'b, 'z) handler =
  h_env :: "('r, 'b, 'z) handler_env"
  h_xnu :: "('z cstate_ext bstate_ext tstate_ext shost_ext lhost_ext) xnu_thread"
  h_task :: "('z cstate_ext bstate_ext) xnu_task"
  h_bsd :: "('z cstate_ext) xnu_bsd"

primrec run_command :: "('r, 'b, 'z) handler \<Rightarrow> ('r, 'b) Command \<Rightarrow> (unit, 'z cstate_scheme) prog" where
  "run_command hnd (kMachVmAllocateTrap target sz flags) = ignore (kernelrpc_mach_vm_allocate_trap_wrapper (trap (h_env hnd))
     (GetMachPortName target) 1 sz (sint flags))"
| "run_command hnd (kMachVmPurgableControl target address control) = ignore (kernelrpc_mach_vm_purgable_control_trap_wrapper
     (trap (h_env hnd)) (GetMachPortName target) address (sint control) 1)"
| "run_command hnd (kMachVmDeallocateTrap target address sz) = ignore (kernelrpc_mach_vm_deallocate_trap_wrapper
     (trap (h_env hnd)) (GetMachPortName target) address sz)"
| "run_command hnd kTaskDyldProcessInfoNotifyGet =
     ignore (task_dyld_process_info_notify_get_trap_wrapper (trap (h_env hnd)) 1 1)"
| "run_command hnd (kMachVmProtectTrap target address sz set_maximum new_protection) =
     ignore (kernelrpc_mach_vm_protect_trap_wrapper (trap (h_env hnd)) (GetMachPortName target) address sz set_maximum
       (sint (GetProtection new_protection)))"
| "run_command hnd (kMachVmMapTrap target sz align_mask flags cur_protection) =
     ignore (kernelrpc_mach_vm_map_trap_wrapper (trap (h_env hnd)) (GetMachPortName target) 1 sz (scast align_mask) (sint flags)
       (sint (GetProtection cur_protection)))"
| "run_command hnd (kMachPortAllocate target right) =
     with_block (bytes_of_u32 0) (\<lambda>name. ignore (HandleMachPortAllocate (h_env hnd) target right name))"
| "run_command hnd (kMachPortDeallocate target name) = ignore (HandleMachPortDeallocate (h_env hnd) target name)"
| "run_command hnd (kMachPortModRefs target name right delta) = ignore (kernelrpc_mach_port_mod_refs_trap_wrapper (trap (h_env hnd))
     (GetMachPortName target) (GetMachPortName name) right (sint delta))"
| "run_command hnd (kMachPortMoveMember target member after) = ignore (kernelrpc_mach_port_move_member_trap_wrapper
     (trap (h_env hnd)) (GetMachPortName target) (GetMachPortName member) (GetMachPortName after))"
| "run_command hnd (kMachPortInsertRight target name poly polypoly) = ignore (kernelrpc_mach_port_insert_right_trap_wrapper
     (trap (h_env hnd)) (GetMachPortName target) (GetMachPortName name) (GetMachPortName poly) polypoly)"
| "run_command hnd (kMachPortInsertMember target name pset) = ignore (kernelrpc_mach_port_insert_member_trap_wrapper
     (trap (h_env hnd)) (GetMachPortName target) (GetMachPortName name) (GetMachPortName pset))"
| "run_command hnd (kMachPortExtractMember target name pset) = ignore (kernelrpc_mach_port_extract_member_trap_wrapper
     (trap (h_env hnd)) (GetMachPortName target) (GetMachPortName name) (GetMachPortName pset))"
| "run_command hnd (kMachPortConstruct c) = ignore (handle_mach_port_construct (h_env hnd) c)"
| "run_command hnd (kMachPortDestruct target name srdelta guard) = ignore (kernelrpc_mach_port_destruct_trap_wrapper
     (trap (h_env hnd)) (GetMachPortName target) (GetMachPortName name) (sint srdelta) guard)"
| "run_command hnd kMachReplyPort = ignore (mach_reply_port_wrapper (trap (h_env hnd)))"
| "run_command hnd (kMachPortRequestNotificationTrap name msgid sync notify notify_poly) =
     with_block (bytes_of_u32 0) (\<lambda>previous. bindM (task_self_trap_wrapper (trap (h_env hnd))) (\<lambda>task.
       ignore (kernelrpc_mach_port_request_notification_trap_wrapper (trap (h_env hnd)) task (GetMachPortName name) (sint msgid)
         (ucast sync) (GetMachPortName notify) (GetMachMsgTypeName notify_poly) (of_nat previous))))"
| "run_command hnd kThreadSelf = ignore (thread_self_trap_wrapper (trap (h_env hnd)))"
| "run_command hnd kTaskSelf = ignore (HandleTaskSelfTrap (h_env hnd))"
| "run_command hnd kHostSelf = ignore (host_self_trap_wrapper (trap (h_env hnd)))"
| "run_command hnd (kMachMsg m) = retM ()"
| "run_command hnd (kMachMsgOverwrite m) = ignore (handle_mach_msg_overwrite (h_env hnd) m)"
| "run_command hnd (kMachMsg2Trap t) = ignore (HandleMachMsg2 (h_env hnd) t)"
| "run_command hnd (kHostCreateMachVoucherTrap host_name recipes) = with_chars recipes (\<lambda>p.
     ignore (host_create_mach_voucher_trap_wrapper (trap (h_env hnd)) (GetMachPortName host_name) (of_nat p)
       (sint (of_nat (length recipes) :: u32)) 1))"
| "run_command hnd (kMachVoucherExtractAttrRecipeTrap voucher_name key recipe) =
     with_block (bytes_of_u64 (of_nat (length recipe))) (\<lambda>recipe_size. with_chars recipe (\<lambda>p.
       ignore (mach_voucher_extract_attr_recipe_trap_wrapper (trap (h_env hnd)) (GetMachPortName voucher_name) key (of_nat p)
         (of_nat recipe_size))))"
| "run_command hnd kThreadGetSpecialReplyPort = ignore (thread_get_special_reply_port_wrapper (trap (h_env hnd)))"
| "run_command hnd kMkTimerCreateTrap = ignore (mk_timer_create_trap_wrapper (trap (h_env hnd)))"
| "run_command hnd (kMkTimerDestroyTrap name) = ignore (mk_timer_destroy_trap_wrapper (trap (h_env hnd)) (GetMachPortName name))"
| "run_command hnd (kMkTimerCancelTrap name) = ignore (mk_timer_cancel_trap_wrapper (trap (h_env hnd)) (GetMachPortName name) 0)"
| "run_command hnd (kMkTimerArmTrap name expire_time) =
     ignore (mk_timer_arm_trap_wrapper (trap (h_env hnd)) (GetMachPortName name) expire_time)"
| "run_command hnd (kMkTimerArmLeewayTrap name mk_timer_flags expire_time mk_leeway) =
     ignore (mk_timer_arm_leeway_trap_wrapper (trap (h_env hnd)) (GetMachPortName name) mk_timer_flags expire_time mk_leeway)"
| "run_command hnd (kArbBsdSyscall number arguments) =
     with_chars arguments (\<lambda>p. XNUDoRandomSyscall (h_bsd hnd) number p (length arguments))"
| "run_command hnd (kArbMachTrap number arguments) =
     with_chars arguments (\<lambda>p. DoRandomMachTrap (h_task hnd) number p (length arguments))"
| "run_command hnd (kIoctl fd idx) = handle_ioctl (h_env hnd) fd idx"
| "run_command hnd (kIpInput packet) = DoIpInput (h_bsd hnd) packet"
| "run_command hnd (kIoctlReal fd r) = thenM (handle_ioctl_real (h_env hnd) fd r) (handle_connectx (h_env hnd) ConnectX_default)"
| "run_command hnd (kConnectx c) = handle_connectx (h_env hnd) c"
| "run_command hnd (kDisconnectx fd associd cid) = handle_disconnectx (h_env hnd) fd associd cid"
| "run_command hnd (kNecpClientAction fd client_id action) = DoNecpClientAction (h_env hnd) fd client_id action"
| "run_command hnd (kNecpSessionAction fd action in_buffer out_buffer_size) =
     handle_necp_session (h_env hnd) fd action in_buffer out_buffer_size"
| "run_command hnd (kMigRoutineMachMsg m) = ignore (handle_mig_routine (h_env hnd) m)"
| "run_command hnd (kKevent kq changelist eventlist) = handle_kevent (h_env hnd) kq changelist eventlist"
| "run_command hnd (kProcessorException e) = (case e of
     None \<Rightarrow> retM ()
   | Some (addr, access) \<Rightarrow> DoVmFault (h_xnu hnd) (h_task hnd) addr (sint access))"
| "run_command hnd (kSyscall call) = CallBsdSyscall (h_env hnd) call"
| "run_command hnd COMMAND_NOT_SET = retM ()"

text \<open>A command that leaves through \<open>SyscallReturn\<close> jumps back to the entry point saved here; in the model such a
  run is \<open>Stopped NoReturn\<close>.\<close>

definition HandleCommand :: "('r, 'b, 'z) handler \<Rightarrow> ('r, 'b) Command \<Rightarrow> (unit, 'z cstate_scheme) prog" where
  "HandleCommand hnd command =
     thenM SetKernelEntryPoint
    (thenM (run_command hnd command)
       (whenM (command \<noteq> COMMAND_NOT_SET) (Yield (h_xnu hnd))))"


section \<open>The words of mach_msg2\<close>

lemma low_word: "(0xFFFFFFFF :: u64) = mask 32"
  by (simp add: mask_eq_exp_minus_1)

lemma word_halves [simp]:
  "ucast (push_bit 32 (ucast hi) OR ucast lo :: u64) = (lo :: u32)"
  "ucast (drop_bit 32 (push_bit 32 (ucast hi) OR ucast lo :: u64)) = (hi :: u32)"
  "ucast (ucast lo AND 0xFFFFFFFF OR push_bit 32 (scast hi) :: u64) = lo"
  "ucast (drop_bit 32 (ucast lo AND 0xFFFFFFFF OR push_bit 32 (scast hi) :: u64)) = hi"
  "ucast (pack32 lo hi) = lo" "ucast (drop_bit 32 (pack32 lo hi)) = hi"
  unfolding low_word pack32_def
  by (rule bit_word_eqI, auto simp: bit_simps dest: bit_imp_le_length)+

lemma size_word_high:
  "ucast (drop_bit 32 (push_bit 32 (of_nat n) OR ucast (lo :: u32) :: u64)) = (of_nat n :: u32)"
  "ucast (push_bit 32 (of_nat n) OR ucast lo :: u64) = (lo :: u32)"
  by (rule bit_word_eqI, auto simp: bit_simps dest: bit_imp_le_length)+

lemma msg2_options_63: "bit (msg2_options t) 63"
proof -
  have keep: "bit (fold (\<lambda>opt r. r OR f opt) xs r) 63" if "bit r 63" for f :: "u32 \<Rightarrow> u64" and xs r
    using that by (induction xs arbitrary: r) (simp_all add: bit_simps)
  have "bit (push_bit 32 0x80000000 :: u64) 63" by (simp add: bit_simps)
  then show ?thesis unfolding msg2_options_def by (intro keep)
qed

text \<open>C24. The trap \<open>mach_msg2\<close> takes its arguments two to a word. For every message of the protocol the handler builds the
  message, if there is one, in a vector and calls the trap with its address, and the words that it passes give back the fields they
  were made of: the remote and the local port, the voucher and the message id, the number of descriptors and the receive name,
  the receive size and the priority, the header bits and the length of the message; bit 63 of the options, which marks the call as
  \<open>mach_msg2\<close>, is always set.\<close>

theorem HandleMachMsg2_packs:
  "\<exists>ports voucher desc rcv sizes. HandleMachMsg2 env t =
      bindM (case m2_data t of None \<Rightarrow> retM [] | Some msg \<Rightarrow> GetMachMsg (mach_headers env) msg) (\<lambda>message.
        with_vector message (\<lambda>data. trap env (Mach_msg2_trap (of_nat data) (msg2_options t) (sizes message) ports voucher desc rcv (m2_timeout t)))) \<and>
     ucast ports = m2_remote_port t \<and> ucast (drop_bit 32 ports) = m2_local_port t \<and>
     ucast voucher = m2_voucher_port t \<and> ucast (drop_bit 32 voucher) = m2_id t \<and>
     ucast desc = m2_desc_count t \<and> ucast (drop_bit 32 desc) = m2_rcv_name t \<and>
     ucast rcv = m2_rcv_size t \<and> ucast (drop_bit 32 rcv) = m2_priority t \<and>
     (\<forall>message :: u8 list. ucast (sizes message) = msg2_bits (mach_headers env) t \<and>
        ucast (drop_bit 32 (sizes message)) = (of_nat (length message) :: u32)) \<and>
     bit (msg2_options t) 63"
  unfolding HandleMachMsg2_def mach_msg2_trap_wrapper_def
  by (intro exI conjI allI, rule refl) (simp_all only: word_halves size_word_high msg2_options_63 GetMachPortName_def GetMachPort_same)


section \<open>Memory\<close>

text \<open>A program that, when it returns, leaves the heap well formed and the live blocks as they were.\<close>

definition balanced :: "('a, 'z mach_scheme) prog \<Rightarrow> bool" where
  "balanced m \<longleftrightarrow> (\<forall>s x t. heap_wf (mheap s) \<longrightarrow> m s = Done x t \<longrightarrow> heap_wf (mheap t) \<and> live_blocks t = live_blocks s)"

lemma balancedD: "balanced m \<Longrightarrow> heap_wf (mheap s) \<Longrightarrow> m s = Done x t \<Longrightarrow> heap_wf (mheap t) \<and> live_blocks t = live_blocks s"
  unfolding balanced_def by blast

lemma balanced_bind [intro]:
  assumes "balanced m" "\<And>x. balanced (f x)"
  shows "balanced (bindM m f)"
  unfolding balanced_def
proof (intro allI impI)
  fix s y u
  assume wf: "heap_wf (mheap s)" and run: "bindM m f s = Done y u"
  then obtain x t where t: "m s = Done x t" "f x t = Done y u" by (auto split: outcome.splits)
  from balancedD [OF assms(1) wf t(1)] balancedD [OF assms(2) _ t(2)]
  show "heap_wf (mheap u) \<and> live_blocks u = live_blocks s" by simp
qed

lemma balanced_then [intro]: "balanced m \<Longrightarrow> balanced n \<Longrightarrow> balanced (thenM m n)"
  unfolding thenM_def by blast

lemma balanced_simple [intro, simp]: "balanced (retM x)" "balanced (stopM e)" "balanced abortM" "balanced (getsM f)"
  by (auto simp: balanced_def)

lemma balanced_modify [intro]: "(\<And>s. mheap (f s) = mheap s) \<Longrightarrow> balanced (modifyM f)"
  by (auto simp: balanced_def live_blocks_def)

lemma balanced_ignore [intro]: "balanced m \<Longrightarrow> balanced (ignore m)"
  unfolding ignore_def by blast

lemma balanced_frees:
  assumes alloc: "\<And>s. heap_wf s \<Longrightarrow> \<exists>p t. alloc s = Done p t \<and> heap_wf t \<and>
      (p = 0 \<and> block_size t = block_size s \<or> p \<noteq> 0 \<and> block_size s p = None \<and> block_size t = (block_size s)(p \<mapsto> n))"
    and body: "\<And>p. balanced (body p)" and null: "balanced none"
  shows "balanced (bindM (heapM alloc) (\<lambda>p. if p = 0 then none else bindM (body p) (\<lambda>x. thenM (heapM (free p)) (retM x))))"
  unfolding balanced_def
proof (intro allI impI)
  fix s x u
  assume wf: "heap_wf (mheap s)"
    and run: "bindM (heapM alloc) (\<lambda>p. if p = 0 then none else bindM (body p) (\<lambda>x. thenM (heapM (free p)) (retM x))) s = Done x u"
  obtain p h where a: "alloc (mheap s) = Done p h" "heap_wf h"
    "p = 0 \<and> block_size h = block_size (mheap s) \<or> p \<noteq> 0 \<and> block_size (mheap s) p = None \<and> block_size h = (block_size (mheap s))(p \<mapsto> n)"
    using alloc [OF wf] by blast
  show "heap_wf (mheap u) \<and> live_blocks u = live_blocks s"
  proof (cases "p = 0")
    case True
    then have "none (s\<lparr>mheap := h\<rparr>) = Done x u" using run a(1) by simp
    from balancedD [OF null _ this] show ?thesis using True a(2,3) wf by (auto simp: live_blocks_def)
  next
    case False
    then obtain y t where t: "body p (s\<lparr>mheap := h\<rparr>) = Done y t" "thenM (heapM (free p)) (retM y) t = Done x u"
      using run a(1) by (auto split: outcome.splits)
    have b: "heap_wf (mheap t)" "block_size (mheap t) = block_size h"
      using balancedD [OF body _ t(1)] a(2) by (simp_all add: live_blocks_def)
    then obtain g where g: "free p (mheap t) = Done () g" "heap_wf g" "block_size g = (block_size h)(p := None)"
      using free_live [OF b(1), of p n] a(3) False by auto
    then show ?thesis using t(2) a(3) False by (auto simp: live_blocks_def fun_upd_idem)
  qed
qed

lemma malloc_gives:
  assumes "heap_wf h"
  shows "\<exists>p t. malloc n h = Done p t \<and> heap_wf t \<and>
      (p = 0 \<and> block_size t = block_size h \<or> p \<noteq> 0 \<and> block_size h p = None \<and> block_size t = (block_size h)(p \<mapsto> n))"
  using alloc_aligned_contract [OF assms, of 1 n None] by (auto simp: malloc_def)

lemma balanced_new [intro]: "(\<And>p. balanced (body p)) \<Longrightarrow> balanced (with_new n body)"
  unfolding with_new_def by (rule balanced_frees [OF malloc_gives]) auto

lemma balanced_store [intro]: "balanced (heapM (store_at p bs))"
  by (auto simp: balanced_def live_blocks_def store_at_def split: if_splits)

lemma then_bind: "thenM a (bindM b f) = bindM (thenM a b) f"
  by (auto simp: fun_eq_iff thenM_def bindM_def split: outcome.splits)

lemma balanced_block [intro]: "(\<And>p. balanced (body p)) \<Longrightarrow> balanced (with_block bs body)"
  unfolding with_block_def then_bind [of "heapM (store_at _ bs)"] by (rule balanced_frees [OF malloc_gives]) auto

lemma balanced_buffers [intro]:
  assumes "\<And>p. balanced (body p)"
  shows "balanced (with_chars cs body)" "balanced (with_vector cs body)"
  using assms by (auto simp: with_chars_def with_vector_def)


lemma balanced_string [intro]: "(\<And>p. balanced (body p)) \<Longrightarrow> balanced (with_string bs body)"
proof -
  assume "\<And>p. balanced (body p)"
  then have "balanced (with_block (bs @ [0]) body)" by blast
  moreover have "with_string bs body = with_block (bs @ [0]) body"
    by (auto simp: fun_eq_iff with_string_def with_block_def split: outcome.splits)
  ultimately show ?thesis by simp
qed

lemma balanced_if [intro]: "(b \<Longrightarrow> balanced m) \<Longrightarrow> (\<not> b \<Longrightarrow> balanced n) \<Longrightarrow> balanced (if b then m else n)"
  by simp

lemma balanced_option [intro]: "balanced n \<Longrightarrow> (\<And>x. balanced (f x)) \<Longrightarrow> balanced (case opt of None \<Rightarrow> n | Some x \<Rightarrow> f x)"
  by (cases opt) simp_all

text \<open>The programs that do not touch the state at all.\<close>

lemma balanced_pure:
  assumes "\<And>s. (\<exists>x. m s = Done x s) \<or> (\<exists>e. m s = Stopped e)"
  shows "balanced m"
  unfolding balanced_def
proof (intro allI impI)
  fix s x t
  assume "heap_wf (mheap s)" "m s = Done x t"
  then show "heap_wf (mheap t) \<and> live_blocks t = live_blocks s" using assms [of s] by auto
qed

lemma balanced_get_sockaddr6 [intro]: "balanced (get_sockaddr6 a)"
  by (rule balanced_pure) (simp add: get_sockaddr6_def)

lemma balanced_get_sockaddr [intro]: "balanced (get_sockaddr a)"
  by (cases a) (auto)

lemma copy_descriptors_pure:
  "(\<exists>x. copy_descriptors ds i r s = Done x s) \<or> (\<exists>e. copy_descriptors ds i r s = Stopped e)"
  by (induction ds arbitrary: i r) (auto simp: vec_copy_def split: if_splits)

lemma balanced_GetMachMsgStruct [intro]: "balanced (GetMachMsgStruct mh ports i data ds)"
proof -
  have "balanced (vec_copy r k bs)" for r k bs by (simp add: vec_copy_def)
  moreover have "balanced (copy_descriptors ds k r)" for ds k r by (rule balanced_pure) (rule copy_descriptors_pure)
  ultimately show ?thesis unfolding GetMachMsgStruct_def Let_def by (auto intro!: balanced_bind split: prod.split)
qed

lemma balanced_GetMachMsg [intro]: "balanced (GetMachMsg mh msg)"
  unfolding GetMachMsg_def by (auto split: option.split)

lemma balanced_GetMigRoutineMsg [intro]: "balanced (GetMigRoutineMsg mh rd r ports)"
  unfolding GetMigRoutineMsg_def by (auto split: prod.split)

lemma balanced_alias_bytes [intro]: "balanced (alias_bytes req)"
  unfolding alias_bytes_def by auto

lemma balanced_copyin [intro]: "balanced BlockCopyin" "balanced UnblockCopyin"
  by (auto simp: BlockCopyin_def UnblockCopyin_def)


text \<open>What is asked of the code outside of the sources: no call leaves a block behind or releases one that it did not
  allocate.\<close>

definition handler_balanced :: "('r, 'b, 'z) handler \<Rightarrow> bool" where
  "handler_balanced hnd \<longleftrightarrow>
     (\<forall>c. balanced (trap (h_env hnd) c)) \<and> (\<forall>c. balanced (CallBsdSyscall (h_env hnd) c)) \<and>
     (\<forall>fd com p. balanced (ioctl_wrapper (h_env hnd) fd com p)) \<and>
     (\<forall>fd ep a f. balanced (connectx_wrapper (h_env hnd) fd ep a f)) \<and>
     (\<forall>fd a c. balanced (disconnectx_wrapper (h_env hnd) fd a c)) \<and>
     (\<forall>fd a p n q m. balanced (necp_session_action_wrapper (h_env hnd) fd a p n q m)) \<and>
     (\<forall>fd a p n q m. balanced (necp_client_action_wrapper (h_env hnd) fd a p n q m)) \<and>
     (\<forall>kq p n q m. balanced (kevent_wrapper (h_env hnd) kq p n q m)) \<and>
     (\<forall>n p a. balanced (sy_call (h_bsd hnd) n p a)) \<and> (\<forall>n a. balanced (mach_trap_function (h_task hnd) n a)) \<and>
     (\<forall>t. balanced (m_gethdr (h_bsd hnd) t)) \<and> (\<forall>m i. balanced (mbuf_pkthdr_setrcvif (h_bsd hnd) m i)) \<and>
     (\<forall>m. balanced (ip_input (h_bsd hnd) m)) \<and> (\<forall>m. balanced (ip6_input (h_bsd hnd) m)) \<and>
     (\<forall>a b c d e f g h. balanced (vm_fault (h_task hnd) a b c d e f g h))"

lemma balanced_memcpy [intro]: "balanced (heapM (memcpy a b n))"
  by (auto simp: balanced_def live_blocks_def memcpy_def memory_at_def store_at_def split: if_splits outcome.splits)

lemma calloc_gives:
  assumes "heap_wf h"
  shows "\<exists>p t. calloc k n h = Done p t \<and> heap_wf t \<and>
      (p = 0 \<and> block_size t = block_size h \<or> p \<noteq> 0 \<and> block_size h p = None \<and> block_size t = (block_size h)(p \<mapsto> k * n))"
  using alloc_aligned_contract [OF assms, of 1 "k * n" "Some (\<lambda>_. 0)"] by (auto simp: calloc_def)

lemma balanced_inject [intro]:
  assumes "\<And>t. balanced (m_gethdr xb t)" "\<And>m i. balanced (mbuf_pkthdr_setrcvif xb m i)" "\<And>m. balanced (inp m)"
  shows "balanced (inject xb inp data n)"
proof -
  have "balanced (mbuf_create xb data n True False t f)" for t f
  proof -
    have "balanced (\<lambda>s. case mbufs s m of None \<Rightarrow> Stopped MemFault | Some v \<Rightarrow> Done v s)" for m
      by (rule balanced_pure) (simp split: option.split)
    moreover have "balanced (mbuf_upd m g)" for m g
      by (auto simp: mbuf_upd_def balanced_def live_blocks_def split: option.splits)
    ultimately show ?thesis using assms(1) unfolding mbuf_create_def Let_def if_True
      by (intro balanced_bind balanced_if balanced_then balanced_memcpy balanced_simple)
  qed
  then show ?thesis using assms unfolding inject_def get_mbuf_data_def
    by (intro balanced_bind balanced_if balanced_then balanced_simple)
qed

lemma balanced_DoIpInput [intro]:
  assumes "\<And>t. balanced (m_gethdr xb t)" "\<And>m i. balanced (mbuf_pkthdr_setrcvif xb m i)"
    "\<And>m. balanced (ip_input xb m)" "\<And>m. balanced (ip6_input xb m)"
  shows "balanced (DoIpInput xb packet)"
proof (cases "packet_bytes packet")
  case (Some bs)
  have "balanced (packet_entry xb packet m)" for m using assms by (cases packet) auto
  then have "balanced (with_string bs (\<lambda>data. inject xb (packet_entry xb packet) data (length bs)))" using assms by blast
  then show ?thesis using DoIpInput_built [OF Some, of xb] by (simp add: balanced_def)
next
  case None
  then show ?thesis using assms
    by (cases packet) (auto simp: ip_input_wrapper_def [abs_def] ip6_input_wrapper_def [abs_def])
qed

text \<open>Blocks that a callee allocates and releases at its end.\<close>

lemma balanced_scoped:
  fixes body :: "ptr \<Rightarrow> (unit, 'z mach_scheme) prog"
  assumes "\<And>p. balanced (body p)"
  shows "balanced (bindM (heapM (calloc k n)) (\<lambda>p. if p = 0 then retM () else thenM (body p) (heapM (free p))))"
proof -
  have "thenM (body p) (heapM (free p)) = bindM (body p) (\<lambda>x. thenM (heapM (free p)) (retM x))" for p
    by (auto simp: fun_eq_iff split: outcome.splits)
  then show ?thesis using balanced_frees [OF calloc_gives, of body "retM ()"] assms by (simp cong: if_cong)
qed

lemma balanced_random_syscall [intro]:
  assumes "\<And>n p a. balanced (sy_call xb n p a)"
  shows "balanced (XNUDoRandomSyscall xb number data sz)"
proof -
  let ?k = "number mod nsysent xb"
  let ?n = "if sz > sy_narg xb ?k * 8 then sy_narg xb ?k * 8 else sz"
  have "balanced (bindM (heapM (calloc 1 (sy_narg xb ?k * 8))) (\<lambda>p. if p = 0 then retM () else
      thenM (thenM (heapM (memcpy p data ?n)) (thenM BlockCopyin (bindM (getsM (current_proc xb)) (\<lambda>proc.
        bindM (sy_call xb ?k proc p) (\<lambda>_. UnblockCopyin))))) (heapM (free p))))"
    using assms by (intro balanced_scoped balanced_then balanced_bind balanced_memcpy balanced_copyin balanced_simple)
  moreover have "thenM (thenM (heapM (memcpy p data ?n)) (thenM BlockCopyin (bindM (getsM (current_proc xb)) (\<lambda>proc.
        bindM (sy_call xb ?k proc p) (\<lambda>_. UnblockCopyin))))) (heapM (free p)) =
      thenM (heapM (memcpy p data ?n)) (thenM BlockCopyin (bindM (getsM (current_proc xb)) (\<lambda>proc.
        bindM (sy_call xb ?k proc p) (\<lambda>_. thenM UnblockCopyin (heapM (free p))))))" for p
    by (auto simp: fun_eq_iff thenM_def bindM_def split: outcome.splits)
  ultimately show ?thesis unfolding XNUDoRandomSyscall_def Let_def by (intro balanced_if balanced_simple) (simp cong: if_cong)
qed

lemma balanced_random_trap [intro]:
  assumes "\<And>n a. balanced (mach_trap_function xk n a)"
  shows "balanced (DoRandomMachTrap xk number data sz)"
proof -
  let ?k = "number mod mach_trap_count xk"
  have "balanced (bindM (heapM (calloc 1 (mach_trap_arg_count xk ?k * 8))) (\<lambda>p. if p = 0 then retM () else
      thenM (thenM BlockCopyin (bindM (mach_trap_function xk ?k p) (\<lambda>_. UnblockCopyin))) (heapM (free p))))"
    using assms by (intro balanced_scoped balanced_then balanced_bind balanced_copyin)
  moreover have "thenM (thenM BlockCopyin (bindM (mach_trap_function xk ?k p) (\<lambda>_. UnblockCopyin))) (heapM (free p)) =
      thenM BlockCopyin (bindM (mach_trap_function xk ?k p) (\<lambda>_. thenM UnblockCopyin (heapM (free p))))" for p
    by (auto simp: fun_eq_iff thenM_def bindM_def split: outcome.splits)
  ultimately show ?thesis unfolding DoRandomMachTrap_def Let_def by (intro balanced_if balanced_simple) (simp cong: if_cong)
qed

lemma balanced_vm_fault [intro]:
  assumes "\<And>a b c d e f g h. balanced (vm_fault xk a b c d e f g h)"
  shows "balanced (DoVmFault xnu xk addr access)"
  using assms unfolding DoVmFault_def by auto


lemmas wrapper_defs = kernelrpc_mach_vm_allocate_trap_wrapper_def kernelrpc_mach_vm_purgable_control_trap_wrapper_def
  kernelrpc_mach_vm_deallocate_trap_wrapper_def task_dyld_process_info_notify_get_trap_wrapper_def
  kernelrpc_mach_vm_protect_trap_wrapper_def kernelrpc_mach_vm_map_trap_wrapper_def
  kernelrpc_mach_port_allocate_trap_wrapper_def kernelrpc_mach_port_deallocate_trap_wrapper_def
  kernelrpc_mach_port_mod_refs_trap_wrapper_def kernelrpc_mach_port_move_member_trap_wrapper_def
  kernelrpc_mach_port_insert_right_trap_wrapper_def kernelrpc_mach_port_insert_member_trap_wrapper_def
  kernelrpc_mach_port_extract_member_trap_wrapper_def kernelrpc_mach_port_construct_trap_wrapper_def
  kernelrpc_mach_port_destruct_trap_wrapper_def mach_reply_port_wrapper_def thread_self_trap_wrapper_def
  task_self_trap_wrapper_def host_self_trap_wrapper_def mach_msg_trap_wrapper_def mach_msg2_trap_wrapper_def
  mach_msg_overwrite_trap_wrapper_def host_create_mach_voucher_trap_wrapper_def
  mach_voucher_extract_attr_recipe_trap_wrapper_def kernelrpc_mach_port_request_notification_trap_wrapper_def
  thread_get_special_reply_port_wrapper_def mk_timer_create_trap_wrapper_def mk_timer_destroy_trap_wrapper_def
  mk_timer_arm_trap_wrapper_def mk_timer_cancel_trap_wrapper_def mk_timer_arm_leeway_trap_wrapper_def

lemmas balanced_intros = balanced_bind balanced_then balanced_simple balanced_ignore balanced_new balanced_block balanced_buffers
  balanced_if balanced_option balanced_get_sockaddr balanced_get_sockaddr6 balanced_GetMachMsg balanced_GetMigRoutineMsg
  balanced_alias_bytes balanced_copyin balanced_random_syscall balanced_random_trap balanced_vm_fault balanced_DoIpInput

lemma handler_balancedD:
  assumes "handler_balanced hnd"
  shows "balanced (trap (h_env hnd) c)" "balanced (CallBsdSyscall (h_env hnd) b)" "balanced (ioctl_wrapper (h_env hnd) fd com p)"
    "balanced (connectx_wrapper (h_env hnd) fd ep a f)" "balanced (disconnectx_wrapper (h_env hnd) fd a cid)"
    "balanced (necp_session_action_wrapper (h_env hnd) fd a p n q m)"
    "balanced (necp_client_action_wrapper (h_env hnd) fd a p n q m)" "balanced (kevent_wrapper (h_env hnd) kq p n q m)"
  using assms by (simp_all add: handler_balanced_def)

lemma balanced_handlers:
  assumes "handler_balanced hnd"
  shows "balanced (HandleMachMsg2 (h_env hnd) t)" "balanced (handle_mach_msg_overwrite (h_env hnd) m)"
    "balanced (handle_mig_routine (h_env hnd) r)" "balanced (handle_mach_port_construct (h_env hnd) c)"
    "balanced (handle_ioctl (h_env hnd) fd idx)" "balanced (handle_ioctl_real (h_env hnd) fd i)"
    "balanced (handle_connectx (h_env hnd) cx)" "balanced (handle_disconnectx (h_env hnd) fd a cid)"
    "balanced (handle_necp_session (h_env hnd) fd act ib obs)" "balanced (handle_kevent (h_env hnd) kq cl el)"
    "balanced (DoNecpClientAction (h_env hnd) fd cl_id na)"
proof -
  note env = handler_balancedD [OF assms]
  show "balanced (HandleMachMsg2 (h_env hnd) t)" "balanced (handle_mach_msg_overwrite (h_env hnd) m)"
    "balanced (handle_mig_routine (h_env hnd) r)" "balanced (handle_mach_port_construct (h_env hnd) c)"
    "balanced (handle_ioctl (h_env hnd) fd idx)" "balanced (handle_disconnectx (h_env hnd) fd a cid)"
    "balanced (handle_necp_session (h_env hnd) fd act ib obs)" "balanced (handle_kevent (h_env hnd) kq cl el)"
    unfolding HandleMachMsg2_def handle_mach_msg_overwrite_def handle_mig_routine_def handle_mach_port_construct_def
      handle_ioctl_def handle_disconnectx_def handle_necp_session_def handle_kevent_def wrapper_defs Let_def
    by (intro balanced_intros env)+
  show "balanced (handle_ioctl_real (h_env hnd) fd i)"
    by (cases i) (simp_all only: handle_ioctl_real.simps, (intro balanced_intros env)+)
  show "balanced (handle_connectx (h_env hnd) cx)"
    unfolding handle_connectx_def Let_def by (intro balanced_intros balanced_modify env) simp
  show "balanced (DoNecpClientAction (h_env hnd) fd cl_id na)"
    by (cases na) (simp_all only: DoNecpClientAction.simps necp_client_add_def necp_client_remove_def
      necp_client_copy_parameters_def necp_client_agent_def Let_def, (intro balanced_intros env)+)
qed

text \<open>The blocks of the temporaries are balanced. If the calls of the kernel and of the platform leave the heap well formed and the live
  blocks as they were, then so does every command of the model that returns. The release of a temporary is part of \<open>with_block\<close>, as
  destructors release temporaries in the code, so this says only that no other block is touched. The table of connection ids, which
  grows with \<open>kConnectx\<close>, is not in the heap of the model.\<close>

lemma run_command_balanced:
  assumes "handler_balanced hnd" and "heap_wf (mheap s)" and "run_command hnd command s = Done () t"
  shows "heap_wf (mheap t) \<and> live_blocks t = live_blocks s"
proof -
  note env = handler_balancedD [OF assms(1)] balanced_handlers [OF assms(1)]
  have bsd: "balanced (sy_call (h_bsd hnd) n p a)" "balanced (mach_trap_function (h_task hnd) n' a')" "balanced (m_gethdr (h_bsd hnd) ty)"
    "balanced (mbuf_pkthdr_setrcvif (h_bsd hnd) m i)" "balanced (ip_input (h_bsd hnd) m)" "balanced (ip6_input (h_bsd hnd) m)"
    "balanced (vm_fault (h_task hnd) b1 b2 b3 b4 b5 b6 b7 b8)" for n p a n' a' ty m i b1 b2 b3 b4 b5 b6 b7 b8
    using assms(1) by (simp_all add: handler_balanced_def)
  have "balanced (run_command hnd command)"
  proof (cases command)
    case (kProcessorException e)
    then show ?thesis by (cases e) (auto intro: balanced_vm_fault bsd)
  qed (simp_all only: run_command.simps wrapper_defs HandleMachPortAllocate_def HandleMachPortDeallocate_def HandleTaskSelfTrap_def,
       (intro balanced_intros env bsd)+)
  from balancedD [OF this assms(2,3)] show ?thesis .
qed


section \<open>Single commands\<close>

definition env_example :: "(unit, unit, 'z) handler_env" where
  "env_example = \<lparr>mach_headers = mh_example, trap = (\<lambda>_. retM 0), routine_data = (\<lambda>_. (3400, [], [1])), CallBsdSyscall = (\<lambda>_. retM ()),
     ioctl_number = (\<lambda>n. of_nat (length n)), ioctl_wrapper = (\<lambda>_ _ _. retM 0), connectx_wrapper = (\<lambda>_ _ _ _. retM 11),
     disconnectx_wrapper = (\<lambda>_ _ _. retM 0), necp_session_action_wrapper = (\<lambda>_ _ _ _ _ _. retM 0),
     necp_client_action_wrapper = (\<lambda>_ _ _ _ _ _. retM 0), kevent_wrapper = (\<lambda>_ _ _ _ _. retM 0),
     port_options_bytes = (\<lambda>a b c. bytes_of_u32 a @ bytes_of_u32 b @ bytes_of_u32 c)\<rparr>"

definition handler_example :: "(unit, unit, 'z) handler" where
  "handler_example = \<lparr>h_env = env_example, h_xnu = xnu_idle (\<lambda>_. retM ()), h_task = xk_example, h_bsd = xb_example\<rparr>"

definition cstate_example :: cstate where
  "cstate_example = bstate.extend bstate_example \<lparr>cids = [7, 9]\<rparr>"

lemma handler_example_balanced: "handler_balanced handler_example"
  by (simp add: handler_balanced_def handler_example_def env_example_def xk_example_def xb_example_def)

lemma mheap_cstate_example: "mheap cstate_example = mheap bstate_example"
  by (simp add: cstate_example_def bstate.defs)

lemma run_command_balanced_witness:
  "\<exists>t. run_command handler_example (kMachPortAllocate 3 1) cstate_example = Done () t \<and> live_blocks t = live_blocks cstate_example"
proof -
  have wf: "heap_wf (mheap cstate_example)" using bstate_example_ok(1) by (simp add: mheap_cstate_example)
  obtain t where t: "run_command handler_example (kMachPortAllocate 3 1) cstate_example = Done () t"
    by (simp add: with_block_def mheap_cstate_example bstate_example_ok(4) malloc_def alloc_aligned_def legal_block_def separate_def
        addr_limit_def store_at_def in_block_def write_bytes_def free_def block_size_def ignore_def HandleMachPortAllocate_def
        kernelrpc_mach_port_allocate_trap_wrapper_def handler_example_def env_example_def)
  from run_command_balanced [OF handler_example_balanced wf t] t show ?thesis by blast
qed

text \<open>C25. The command \<open>ioctl\<close> carries a value of the enumeration \<open>IoctlIdx\<close>, and the handler looks up the entry of the
  table of requests one below it. For every name of the enumeration the call that is made is the one with the request number of
  this name, the data pointer 1 and the copy-in blocked; afterwards the thread yields.\<close>

theorem ioctl_by_name:
  assumes "(n, v) \<in> set IoctlIdx"
  shows "HandleCommand hnd (kIoctl fd (of_nat v)) s =
     thenM SetKernelEntryPoint (thenM (thenM BlockCopyin (bindM (ioctl_wrapper (h_env hnd) fd (ucast (ioctl_number (h_env hnd) n)) 1)
       (\<lambda>_. UnblockCopyin))) (Yield (h_xnu hnd))) s"
proof -
  have v: "1 \<le> v" "v \<le> 281" "ioctls ! (v - 1) = n" using assms by (simp_all add: IoctlIdx_iff num_ioctls_value)
  then have "unat (of_nat (v - 1) :: u32) = v - 1" by (intro unat_of_nat_less) simp
  then have "unat (of_nat v - 1 :: u32) = v - 1" using v(1) by (simp add: of_nat_diff)
  moreover have "\<not> num_ioctls \<le> v - 1" using v(1,2) by (simp add: num_ioctls_value)
  ultimately show ?thesis using v(3) by (simp add: HandleCommand_def handle_ioctl_def whenM_def)
qed

theorem ioctl_by_name_witness:
  "HandleCommand handler_example (kIoctl 3 12) cstate_example =
     thenM SetKernelEntryPoint (thenM (thenM BlockCopyin (bindM (ioctl_wrapper env_example 3 12 1)
       (\<lambda>_. UnblockCopyin))) (Yield (xnu_idle (\<lambda>_. retM ())))) cstate_example"
proof -
  have "(''SIOCSIFFLAGS'', 12) \<in> set IoctlIdx" by (simp add: IoctlIdx_def)
  from ioctl_by_name [OF this, of handler_example 3 cstate_example] show ?thesis
    by (simp add: handler_example_def env_example_def)
qed

lemma disconnect_cid_in_range: "cs \<noteq> [] \<Longrightarrow> disconnect_cid cid cs \<in> set cs"
  by (simp add: disconnect_cid_def)

lemma GetProtection_execute:
  "GetProtection [3] = VM_PROT_READ OR VM_PROT_WRITE" "GetProtection [3] AND VM_PROT_EXECUTE = 0"
  by (simp_all add: GetProtection_def VM_PROT_READ_def VM_PROT_WRITE_def VM_PROT_EXECUTE_def)

lemma mach_msg_ignored: "HandleCommand hnd (kMachMsg m) = HandleCommand hnd (kMachMsg m')"
  by (simp add: HandleCommand_def)

text \<open>The case \<open>kIoctlReal\<close> goes on into the next one.\<close>

lemma ioctl_real_falls_through:
  assumes "heap_wf (mheap s)" "malloc 1 (mheap s) = Done p h" "p \<noteq> 0"
    "connectx_wrapper (h_env hnd) 0 \<lparr>sae_srcif = 0, sae_srcaddr = 0, sae_srcaddrlen = 0, sae_dstaddr = p, sae_dstaddrlen = 0\<rparr> 0 0
       (s\<lparr>mheap := write_bytes p [0] h\<rparr>) = Done cid (s\<lparr>mheap := write_bytes p [0] h\<rparr>)"
  shows "\<exists>t. run_command hnd (kIoctlReal fd IOCTL_NOT_SET) s = Done () t \<and> cids t = cids s @ [cid]"
proof -
  have h: "heap_wf h" "block_size h p = Some 1"
    using alloc_aligned_contract [OF assms(1), of 1 1 None] assms(2,3) by (auto simp: malloc_def)
  then have "in_block h p 1" using in_block_base by blast
  moreover obtain g where "free p (write_bytes p [0] h) = Done () g" using free_live [of "write_bytes p [0] h" p 1] h by auto
  ultimately show ?thesis using assms(2-4)
    by (simp add: handle_connectx_def ConnectX_default_def with_chars_def with_block_def store_at_def or_options_def)
qed

end
