(* ===== verification/RwLock.thy ===== *)
theory RwLock
  imports VirtualSync
begin

text \<open>
  Reader-writer locks under all interleavings. The operations of \<open>third_party/concurrence/sync/rwlock.cc\<close> block at two
  places: in \<open>LockExclusive\<close> while there are readers, and in \<open>mutex_.Lock()\<close>, which \<open>LockShared\<close>, \<open>UnlockShared\<close> and
  \<open>LockExclusive\<close> call. Between two such places a thread runs without interruption. Here each operation is cut into these
  segments, so that other threads may run whenever a thread is blocked, and a blocked thread may be resumed at any moment and
  finds whatever state the others have left.

  Two results: the operations of the theory VirtualSync are exactly the runs of these segments with a call of \<open>Block\<close>
  between them; and every segment of every thread is one transition of an abstract reader-writer lock, whatever the
  interleaving, so that a writer excludes readers and other writers.
\<close>

section \<open>Operations in segments\<close>

text \<open>Why a thread takes the mutex of the lock: to enter the readers, to leave them, or to write.\<close>

datatype rw_goal = ToShare | ToUnshare | ToWrite

text \<open>Where a thread stands: in no operation, blocked in the loop of \<open>LockExclusive\<close> over the readers, or blocked in the loop of
  \<open>Lock\<close> on the mutex of the lock.\<close>

datatype rw_pc = Idle | AtReaders | InMutex rw_goal ptr

text \<open>One test of the loop condition of \<open>VirtualMutex::Lock\<close>: the thread enters the list of waiters, or takes the mutex.\<close>

definition mutex_try :: "ptr \<Rightarrow> (bool, 'z lhost_scheme) prog" where
  "mutex_try m =
     bindM (mutex_get m) (\<lambda>v.
       if owner v \<noteq> 0 then thenM (mutex_AddWaiter m) (retM False)
       else thenM (mutex_acquire m) (retM True))"

text \<open>What follows \<open>mutex_.Lock()\<close>. A writer that finds a reader has lost the race: it releases the mutex and returns to the top of
  the loop, where it finds the reader again and waits.\<close>

fun rw_after :: "rw_goal \<Rightarrow> ptr \<Rightarrow> ptr \<Rightarrow> (rw_pc, 'z lhost_scheme) prog" where
  "rw_after ToShare m l = thenM (AddOwner l) (thenM (mutex_Unlock m) (retM Idle))"
| "rw_after ToUnshare m l = thenM (RemoveOwner l) (thenM (mutex_Unlock m) (retM Idle))"
| "rw_after ToWrite m l =
     bindM (rw_get l) (\<lambda>v.
       if rw_owners v = {} then retM Idle
       else thenM (mutex_Unlock (rw_mutex v)) (thenM (rw_AddWaiter l) (retM AtReaders)))"

definition rw_enter :: "rw_goal \<Rightarrow> ptr \<Rightarrow> ptr \<Rightarrow> (rw_pc, 'z lhost_scheme) prog" where
  "rw_enter g m l = bindM (mutex_try m) (\<lambda>got. if got then rw_after g m l else retM (InMutex g m))"

text \<open>From a blocking call to the next one, or to the end of the operation.\<close>

fun rw_resume :: "rw_pc \<Rightarrow> ptr \<Rightarrow> (rw_pc, 'z lhost_scheme) prog" where
  "rw_resume Idle l = retM Idle"
| "rw_resume AtReaders l =
     bindM (rw_get l) (\<lambda>v.
       if rw_owners v \<noteq> {} then thenM (rw_AddWaiter l) (retM AtReaders)
       else thenM (rw_RemoveWaiter l) (bindM (rw_get l) (\<lambda>v. rw_enter ToWrite (rw_mutex v) l)))"
| "rw_resume (InMutex g m) l = rw_enter g m l"

text \<open>The operations of the class, up to their first blocking call. Those that never block end at once.\<close>

datatype rw_op = OpLockShared | OpUnlockShared | OpLockExclusive | OpTryLockShared | OpTryLockExclusive
  | OpUnlockExclusive | OpExclusiveToShared | OpSharedToExclusive | OpUnlock

fun rw_call :: "rw_op \<Rightarrow> ptr \<Rightarrow> (rw_pc, 'z lhost_scheme) prog" where
  "rw_call OpLockShared l = bindM (rw_get l) (\<lambda>v. rw_enter ToShare (rw_mutex v) l)"
| "rw_call OpUnlockShared l = bindM (rw_get l) (\<lambda>v. rw_enter ToUnshare (rw_mutex v) l)"
| "rw_call OpLockExclusive l = rw_resume AtReaders l"
| "rw_call OpTryLockShared l = thenM (TryLockShared l) (retM Idle)"
| "rw_call OpTryLockExclusive l = thenM (TryLockExclusive l) (retM Idle)"
| "rw_call OpUnlockExclusive l = thenM (UnlockExclusive l) (retM Idle)"
| "rw_call OpExclusiveToShared l = thenM (ExclusiveToShared l) (retM Idle)"
| "rw_call OpSharedToExclusive l = thenM (SharedToExclusive l) (retM Idle)"
| "rw_call OpUnlock l =
     bindM (IsShared l) (\<lambda>sh. if sh then bindM (rw_get l) (\<lambda>v. rw_enter ToUnshare (rw_mutex v) l)
       else thenM (UnlockExclusive l) (retM Idle))"

text \<open>A whole operation: its segments, with a call of \<open>Block\<close> after each that does not end it.\<close>

primrec rw_drive :: "('z lhost_ext) xnu_thread \<Rightarrow> nat \<Rightarrow> (rw_pc, 'z lhost_scheme) prog \<Rightarrow> ptr \<Rightarrow> (unit, 'z lhost_scheme) prog" where
  "rw_drive xnu 0 p l = bindM p (\<lambda>pc. if pc = Idle then retM () else stopM Diverge)"
| "rw_drive xnu (Suc n) p l =
     bindM p (\<lambda>pc. if pc = Idle then retM () else thenM (sBlock xnu) (rw_drive xnu n (rw_resume pc l) l))"

text \<open>Inverting the operations on a lock whose state is known.\<close>

lemma mutex_TryLock_Done:
  assumes "mutex_TryLock m s = Done b t" "mutexes s m = Some v"
  shows "(b \<longrightarrow> owner v = 0 \<and> t = s\<lparr>mutexes := (mutexes s)(m \<mapsto> v\<lparr>owner := current s\<rparr>)\<rparr>) \<and> (\<not> b \<longrightarrow> t = s \<and> owner v \<noteq> 0)"
  using assms by (auto simp: mutex_TryLock_def split: if_splits)

lemma mutex_Unlock_Done:
  assumes "mutex_Unlock m s = Done () t" "mutexes s m = Some v"
  shows "owner v = current s \<and> (\<exists>r. t = s\<lparr>mutexes := (mutexes s)(m \<mapsto> v\<lparr>owner := 0\<rparr>), runnable := r\<rparr>)"
proof -
  have "owner v = current s" and
    all: "MakeAllRunnable (waiters v) (s\<lparr>mutexes := (mutexes s)(m \<mapsto> v\<lparr>owner := 0\<rparr>)\<rparr>) = Done () t"
    using assms by (auto simp: mutex_Unlock_def mutex_AssertHeld_def mutex_Held_def split: if_splits outcome.splits)
  with MakeAllRunnable_frame [OF all] show ?thesis by auto
qed

lemma RemoveOwner_Done:
  assumes "RemoveOwner l s = Done () t" "rwlocks s l = Some v"
  shows "current s \<in> rw_owners v \<and>
     (\<exists>r. t = s\<lparr>rwlocks := (rwlocks s)(l \<mapsto> v\<lparr>rw_owners := rw_owners v - {current s}\<rparr>), runnable := r\<rparr>)"
proof (cases "rw_owners v - {current s} = {}")
  case True
  then have "MakeAllRunnable (rw_waiters v) (s\<lparr>rwlocks := (rwlocks s)(l \<mapsto> v\<lparr>rw_owners := rw_owners v - {current s}\<rparr>)\<rparr>) = Done () t"
    and "current s \<in> rw_owners v"
    using assms by (auto simp: RemoveOwner_def split: if_splits)
  with MakeAllRunnable_frame [OF this(1)] show ?thesis by auto
next
  case False
  then show ?thesis using assms
    by (auto simp: RemoveOwner_def split: if_splits intro!: exI [of _ "runnable s"])
qed

section \<open>The operations are runs of these segments\<close>

lemma rw_drive_cong: "p s = q t \<Longrightarrow> rw_drive xnu n p l s = rw_drive xnu n q l t"
  by (cases n) simp_all

lemma bindM_Done_iff: "bindM m f s = Done x u \<longleftrightarrow> (\<exists>y t. m s = Done y t \<and> f y t = Done x u)"
  by (simp split: outcome.splits)

lemma thenM_Done_iff: "thenM m n s = Done x u \<longleftrightarrow> (\<exists>y t. m s = Done y t \<and> n t = Done x u)"
  by (simp split: outcome.splits)

lemma rw_get_Done_iff: "rw_get l s = Done v t \<longleftrightarrow> rwlocks s l = Some v \<and> t = s"
  by (auto simp: rw_get_def split: option.splits)

lemmas prog_Done_iffs = bindM_Done_iff thenM_Done_iff rw_get_Done_iff

lemma mutex_Lock_0_iff: "mutex_Lock xnu 0 m s = Done () u \<longleftrightarrow> mutex_try m s = Done True u"
  by (auto simp: mutex_try_def mutex_get_def split: outcome.splits option.splits)

lemma mutex_Lock_Suc_iff:
  "mutex_Lock xnu (Suc n) m s = Done () u \<longleftrightarrow>
     mutex_try m s = Done True u \<or>
     (\<exists>t t'. mutex_try m s = Done False t \<and> sBlock xnu t = Done () t' \<and> mutex_Lock xnu n m t' = Done () u)"
  by (auto simp: mutex_try_def mutex_get_def split: outcome.splits option.splits)

lemma rw_wait_readers_0_iff:
  "rw_wait_readers xnu 0 l s = Done () u \<longleftrightarrow> (\<exists>v. rwlocks s l = Some v \<and> rw_owners v = {} \<and> u = s)"
  by (auto simp: rw_get_def split: outcome.splits option.splits)

lemma rw_wait_readers_Suc_iff:
  "rw_wait_readers xnu (Suc n) l s = Done () u \<longleftrightarrow>
     (\<exists>v. rwlocks s l = Some v \<and>
       ((rw_owners v = {} \<and> u = s) \<or>
        (\<exists>t t'. rw_owners v \<noteq> {} \<and> rw_AddWaiter l s = Done () t \<and> sBlock xnu t = Done () t' \<and>
           rw_wait_readers xnu n l t' = Done () u)))"
  by (auto simp: rw_get_def split: outcome.splits option.splits)

declare mutex_Lock.simps [simp del] rw_wait_readers.simps [simp del]

lemmas wait_loop_iffs = mutex_Lock_0_iff mutex_Lock_Suc_iff rw_wait_readers_0_iff rw_wait_readers_Suc_iff

lemma mutex_Lock_mono:
  "mutex_Lock xnu n m s = Done () u \<Longrightarrow> n \<le> k \<Longrightarrow> mutex_Lock xnu k m s = Done () u"
proof (induction n arbitrary: k s)
  case 0
  then show ?case by (cases k) (auto simp: wait_loop_iffs)
next
  case (Suc n)
  then obtain k' where k: "k = Suc k'" "n \<le> k'" by (cases k) auto
  show ?case using Suc.prems(1) Suc.IH [OF _ k(2)] by (auto simp: wait_loop_iffs k(1))
qed

lemma rw_wait_readers_mono:
  "rw_wait_readers xnu n l s = Done () u \<Longrightarrow> n \<le> k \<Longrightarrow> rw_wait_readers xnu k l s = Done () u"
proof (induction n arbitrary: k s)
  case 0
  then show ?case by (cases k) (auto simp: wait_loop_iffs)
next
  case (Suc n)
  then obtain k' where k: "k = Suc k'" "n \<le> k'" by (cases k) auto
  show ?case using Suc.prems(1) Suc.IH [OF _ k(2)] by (auto simp: wait_loop_iffs k(1))
qed

text \<open>What a round does after the readers have gone.\<close>

definition LockExclusive_rest :: "('z lhost_ext) xnu_thread \<Rightarrow> nat \<Rightarrow> nat \<Rightarrow> ptr \<Rightarrow> ptr \<Rightarrow> (unit, 'z lhost_scheme) prog" where
  "LockExclusive_rest xnu fuel rounds l m =
     thenM (mutex_Lock xnu fuel m)
    (bindM (rw_get l) (\<lambda>v.
       if rw_owners v = {} then retM ()
       else thenM (mutex_Unlock (rw_mutex v)) (LockExclusive_loop xnu fuel rounds l)))"

lemma LockExclusive_loop_step:
  "LockExclusive_loop xnu fuel rounds l s = Done () u \<longleftrightarrow>
     (\<exists>r t t' v. rounds = Suc r \<and> rw_wait_readers xnu fuel l s = Done () t \<and> rw_RemoveWaiter l t = Done () t' \<and>
        rwlocks t' l = Some v \<and> LockExclusive_rest xnu fuel r l (rw_mutex v) t' = Done () u)"
  by (cases rounds) (auto simp: LockExclusive_rest_def prog_Done_iffs simp del: bindM_apply thenM_apply)

lemma LockExclusive_rest_step:
  "LockExclusive_rest xnu fuel rounds l m s = Done () u \<longleftrightarrow>
     (\<exists>t v. mutex_Lock xnu fuel m s = Done () t \<and> rwlocks t l = Some v \<and>
       ((rw_owners v = {} \<and> u = t) \<or>
        (rw_owners v \<noteq> {} \<and> (\<exists>t'. mutex_Unlock (rw_mutex v) t = Done () t' \<and> LockExclusive_loop xnu fuel rounds l t' = Done () u))))"
  by (auto simp: LockExclusive_rest_def prog_Done_iffs split: if_splits simp del: bindM_apply thenM_apply)

lemma LockExclusive_loop_mono:
  "LockExclusive_loop xnu f r l s = Done () u \<Longrightarrow> f \<le> f' \<Longrightarrow> r \<le> r' \<Longrightarrow> LockExclusive_loop xnu f' r' l s = Done () u"
proof (induction r arbitrary: r' s)
  case (Suc r)
  then obtain k where k: "r' = Suc k" "r \<le> k" by (cases r') auto
  from Suc.prems(1) obtain t t' v where t: "rw_wait_readers xnu f l s = Done () t" "rw_RemoveWaiter l t = Done () t'"
      "rwlocks t' l = Some v" and rest: "LockExclusive_rest xnu f r l (rw_mutex v) t' = Done () u"
    using LockExclusive_loop_step [of xnu f "Suc r" l s u] by blast
  have "LockExclusive_rest xnu f' k l (rw_mutex v) t' = Done () u"
    using rest mutex_Lock_mono [OF _ Suc.prems(2)] Suc.IH [OF _ Suc.prems(2) k(2)]
    unfolding LockExclusive_rest_step by blast
  then show ?case using t rw_wait_readers_mono [OF _ Suc.prems(2)] k(1)
    LockExclusive_loop_step [of xnu f' r' l s u] by blast
qed simp

lemma LockExclusive_rest_mono:
  "LockExclusive_rest xnu f r l m s = Done () u \<Longrightarrow> f \<le> f' \<Longrightarrow> r \<le> r' \<Longrightarrow> LockExclusive_rest xnu f' r' l m s = Done () u"
  unfolding LockExclusive_rest_step using mutex_Lock_mono LockExclusive_loop_mono by blast

text \<open>From the loops to the segments.\<close>

lemma rw_enter_drive:
  assumes "mutex_Lock xnu k m s = Done () t" "rw_drive xnu j (rw_after g m l) l t = Done () u"
  shows "\<exists>n. rw_drive xnu n (rw_enter g m l) l s = Done () u"
  using assms(1)
proof (induction k arbitrary: s)
  case (Suc k)
  from Suc.prems consider "mutex_try m s = Done True t"
    | t1 t2 where "mutex_try m s = Done False t1" "sBlock xnu t1 = Done () t2" "mutex_Lock xnu k m t2 = Done () t"
    by (auto simp: wait_loop_iffs)
  then show ?case
  proof cases
    case 1
    then have "rw_enter g m l s = rw_after g m l t" by (simp add: rw_enter_def)
    from rw_drive_cong [where p = "rw_enter g m l" and q = "rw_after g m l", OF this] assms(2) show ?thesis by metis
  next
    case 2
    obtain n where "rw_drive xnu n (rw_enter g m l) l t2 = Done () u" using Suc.IH [OF 2(3)] by blast
    with 2 have "rw_drive xnu (Suc n) (rw_enter g m l) l s = Done () u" by (simp add: rw_enter_def)
    then show ?thesis by blast
  qed
next
  case 0
  then have "mutex_try m s = Done True t" by (simp add: wait_loop_iffs)
  then have "rw_enter g m l s = rw_after g m l t" by (simp add: rw_enter_def)
  from rw_drive_cong [where p = "rw_enter g m l" and q = "rw_after g m l", OF this] assms(2) show ?case by metis
qed

lemma rw_drive_enter:
  "rw_drive xnu n (rw_enter g m l) l s = Done () u \<Longrightarrow>
   \<exists>k j t. k + j = n \<and> mutex_Lock xnu k m s = Done () t \<and> rw_drive xnu j (rw_after g m l) l t = Done () u"
proof (induction n arbitrary: s)
  case (Suc n)
  obtain b t where t: "mutex_try m s = Done b t" using Suc.prems by (auto simp: rw_enter_def split: outcome.splits)
  show ?case
  proof (cases b)
    case True
    with t have "rw_enter g m l s = rw_after g m l t" by (simp add: rw_enter_def)
    with Suc.prems have "rw_drive xnu (Suc n) (rw_after g m l) l t = Done () u" by simp
    moreover have "mutex_Lock xnu 0 m s = Done () t" using t True by (simp add: wait_loop_iffs)
    ultimately show ?thesis by (metis add_0)
  next
    case False
    with t Suc.prems obtain t' where t': "sBlock xnu t = Done () t'" "rw_drive xnu n (rw_enter g m l) l t' = Done () u"
      by (auto simp: rw_enter_def split: outcome.splits)
    from Suc.IH [OF this(2)] obtain k j w where "k + j = n" "mutex_Lock xnu k m t' = Done () w"
      "rw_drive xnu j (rw_after g m l) l w = Done () u" by blast
    moreover from this(2) have "mutex_Lock xnu (Suc k) m s = Done () w"
      using t t' False by (auto simp: wait_loop_iffs)
    ultimately show ?thesis by (metis add_Suc)
  qed
next
  case 0
  obtain b t where t: "mutex_try m s = Done b t" using 0 by (auto simp: rw_enter_def split: outcome.splits)
  with 0 have b: b by (cases b) (auto simp: rw_enter_def)
  with t have "rw_enter g m l s = rw_after g m l t" by (simp add: rw_enter_def)
  with 0 have "rw_drive xnu 0 (rw_after g m l) l t = Done () u" by simp
  moreover have "mutex_Lock xnu 0 m s = Done () t" using t b by (simp add: wait_loop_iffs)
  ultimately show ?case by auto
qed

lemma rw_wait_readers_drive:
  assumes "rw_wait_readers xnu k l s = Done () t" "rw_drive xnu j (rw_resume AtReaders l) l t = Done () u"
  shows "\<exists>n. rw_drive xnu n (rw_resume AtReaders l) l s = Done () u"
  using assms(1)
proof (induction k arbitrary: s)
  case 0
  then show ?case using assms(2) by (auto simp: wait_loop_iffs simp del: rw_resume.simps)
next
  case (Suc k)
  then consider "t = s" | v t1 t2 where "rwlocks s l = Some v" "rw_owners v \<noteq> {}" "rw_AddWaiter l s = Done () t1"
      "sBlock xnu t1 = Done () t2" "rw_wait_readers xnu k l t2 = Done () t"
    by (auto simp: wait_loop_iffs)
  then show ?case
  proof cases
    case 2
    obtain n where "rw_drive xnu n (rw_resume AtReaders l) l t2 = Done () u" using Suc.IH [OF 2(5)] by blast
    with 2 have "rw_drive xnu (Suc n) (rw_resume AtReaders l) l s = Done () u" by simp
    then show ?thesis by blast
  qed (use assms(2) in blast)
qed

lemma mutex_Unlock_rwlocks: "mutex_Unlock m s = Done () t \<Longrightarrow> rwlocks t = rwlocks s"
proof (cases "mutexes s m")
  case None
  then show "mutex_Unlock m s = Done () t \<Longrightarrow> rwlocks t = rwlocks s"
    by (simp add: mutex_Unlock_def mutex_AssertHeld_def mutex_Held_def mutex_get_def)
qed (auto dest: mutex_Unlock_Done)

text \<open>Looking again after the mutex has been released is the same as waiting for the readers at once.\<close>

lemma rw_after_write_again:
  assumes "rwlocks s l = Some v" "rw_owners v \<noteq> {}" "mutex_Unlock (rw_mutex v) s = Done () t"
  shows "rw_after ToWrite m l s = rw_resume AtReaders l t"
  using assms mutex_Unlock_rwlocks [OF assms(3)] by simp

lemma LockExclusive_loop_drive:
  "LockExclusive_loop xnu f r l s = Done () u \<Longrightarrow> \<exists>n. rw_drive xnu n (rw_resume AtReaders l) l s = Done () u"
proof (induction r arbitrary: s)
  case (Suc r)
  then obtain t t' v where t: "rw_wait_readers xnu f l s = Done () t" "rw_RemoveWaiter l t = Done () t'"
      "rwlocks t' l = Some v" and rest: "LockExclusive_rest xnu f r l (rw_mutex v) t' = Done () u"
    using LockExclusive_loop_step [of xnu f "Suc r" l s u] by blast
  from rest obtain w v' where w: "mutex_Lock xnu f (rw_mutex v) t' = Done () w" "rwlocks w l = Some v'"
      and c: "rw_owners v' = {} \<and> u = w \<or>
        rw_owners v' \<noteq> {} \<and> (\<exists>w'. mutex_Unlock (rw_mutex v') w = Done () w' \<and> LockExclusive_loop xnu f r l w' = Done () u)"
    unfolding LockExclusive_rest_step by blast
  have "\<exists>j. rw_drive xnu j (rw_after ToWrite (rw_mutex v) l) l w = Done () u"
    using c
  proof (elim disjE conjE exE)
    assume "rw_owners v' = {}" "u = w"
    then have "rw_drive xnu 0 (rw_after ToWrite (rw_mutex v) l) l w = Done () u" using w by simp
    then show ?thesis by blast
  next
    fix w' assume w': "rw_owners v' \<noteq> {}" "mutex_Unlock (rw_mutex v') w = Done () w'"
      and "LockExclusive_loop xnu f r l w' = Done () u"
    from Suc.IH [OF this(3)] rw_drive_cong [where p = "rw_after ToWrite (rw_mutex v) l" and q = "rw_resume AtReaders l",
        OF rw_after_write_again [OF w(2) w']]
    show ?thesis by metis
  qed
  then obtain n where n: "rw_drive xnu n (rw_enter ToWrite (rw_mutex v) l) l t' = Done () u"
    using rw_enter_drive [OF w(1)] by blast
  obtain v0 where v0: "rwlocks t l = Some v0" "rw_owners v0 = {}"
    using t(1) by (induction f arbitrary: s) (auto simp: wait_loop_iffs)
  have "rw_resume AtReaders l t = rw_enter ToWrite (rw_mutex v) l t'" using v0 t by simp
  from rw_drive_cong [where p = "rw_resume AtReaders l" and q = "rw_enter ToWrite (rw_mutex v) l", OF this] n
  show ?case using rw_wait_readers_drive [OF t(1)] by metis
qed simp

text \<open>From the segments to the loops.\<close>

lemma rw_drive_after_write:
  assumes drive: "rw_drive xnu n (rw_after ToWrite m l) l s = Done () u"
    and again: "\<And>t v. rw_drive xnu n (rw_resume AtReaders l) l t = Done () u \<Longrightarrow> rwlocks t l = Some v \<Longrightarrow> rw_owners v \<noteq> {}
      \<Longrightarrow> \<exists>f r. LockExclusive_loop xnu f r l t = Done () u"
    and lock: "mutex_Lock xnu k m s0 = Done () s"
  shows "\<exists>f r. LockExclusive_rest xnu f r l m s0 = Done () u"
proof -
  obtain v where v: "rwlocks s l = Some v"
    using drive by (cases n; cases "rwlocks s l") (auto simp: rw_get_def)
  show ?thesis
  proof (cases "rw_owners v = {}")
    case True
    then have "u = s" using drive v by (cases n) auto
    then show ?thesis using True v lock LockExclusive_rest_step [of xnu k 0 l m s0 u] by blast
  next
    case False
    then obtain t where t: "mutex_Unlock (rw_mutex v) s = Done () t"
      using drive v by (cases n) (auto split: outcome.splits)
    have "rw_drive xnu n (rw_resume AtReaders l) l t = Done () u"
      using drive rw_drive_cong [where p = "rw_after ToWrite m l" and q = "rw_resume AtReaders l",
        OF rw_after_write_again [OF v False t]] by metis
    then obtain f r where "LockExclusive_loop xnu f r l t = Done () u"
      using again [of t v] False v mutex_Unlock_rwlocks [OF t] by metis
    then have "LockExclusive_loop xnu (max f k) r l t = Done () u" by (rule LockExclusive_loop_mono) simp_all
    then show ?thesis using False v t mutex_Lock_mono [OF lock, of "max f k"]
        LockExclusive_rest_step [of xnu "max f k" r l m s0 u] by auto
  qed
qed

lemma rw_drive_readers:
  assumes drive: "rw_drive xnu n (rw_resume AtReaders l) l s = Done () u"
    and v: "rwlocks s l = Some v" "rw_owners v \<noteq> {}"
    and again: "\<And>k t. k < n \<Longrightarrow> rw_drive xnu k (rw_resume AtReaders l) l t = Done () u \<Longrightarrow> \<exists>f r. LockExclusive_loop xnu f r l t = Done () u"
  shows "\<exists>f r. LockExclusive_loop xnu f r l s = Done () u"
proof -
  obtain t where t: "rw_AddWaiter l s = Done () t" using drive v by (cases n) (auto split: outcome.splits)
  with drive v obtain k t' where k: "n = Suc k" "sBlock xnu t = Done () t'" "rw_drive xnu k (rw_resume AtReaders l) l t' = Done () u"
    by (cases n) (auto split: outcome.splits simp del: rw_resume.simps(3))
  then obtain f r where "LockExclusive_loop xnu f r l t' = Done () u" using again [of k t'] by auto
  then obtain r' w w' v' where r: "r = Suc r'" "rw_wait_readers xnu f l t' = Done () w" "rw_RemoveWaiter l w = Done () w'"
      "rwlocks w' l = Some v'" "LockExclusive_rest xnu f r' l (rw_mutex v') w' = Done () u"
    using LockExclusive_loop_step [of xnu f r l t' u] by blast
  have "rw_wait_readers xnu (Suc f) l s = Done () w" using v t k(2) r(2) by (auto simp: wait_loop_iffs)
  moreover have "LockExclusive_rest xnu (Suc f) r' l (rw_mutex v') w' = Done () u"
    using r(5) by (rule LockExclusive_rest_mono) simp_all
  ultimately show ?thesis using r LockExclusive_loop_step [of xnu "Suc f" r l s u] by blast
qed

lemma rw_drive_LockExclusive:
  "rw_drive xnu n (rw_resume AtReaders l) l s = Done () u \<Longrightarrow> \<exists>f r. LockExclusive_loop xnu f r l s = Done () u"
proof (induction n arbitrary: s rule: less_induct)
  case (less n)
  have readers: "\<exists>f r. LockExclusive_loop xnu f r l t = Done () u"
    if "j \<le> n" "rw_drive xnu j (rw_resume AtReaders l) l t = Done () u" "rwlocks t l = Some v" "rw_owners v \<noteq> {}" for j t v
  proof (rule rw_drive_readers [OF that(2-4)])
    fix k t' assume "k < j" "rw_drive xnu k (rw_resume AtReaders l) l t' = Done () u"
    then show "\<exists>f r. LockExclusive_loop xnu f r l t' = Done () u" using less.IH [of k t'] that(1) by (meson less_le_trans)
  qed
  obtain v where v: "rwlocks s l = Some v" using less.prems by (cases n; cases "rwlocks s l") (auto simp: rw_get_def)
  show ?case
  proof (cases "rw_owners v = {}")
    case True
    obtain t v' where t: "rw_RemoveWaiter l s = Done () t" "rwlocks t l = Some v'"
      using v by (auto simp: rw_RemoveWaiter_def)
    then have "rw_resume AtReaders l s = rw_enter ToWrite (rw_mutex v') l t" using v True by simp
    from rw_drive_cong [where p = "rw_resume AtReaders l" and q = "rw_enter ToWrite (rw_mutex v') l", OF this] less.prems
    have "rw_drive xnu n (rw_enter ToWrite (rw_mutex v') l) l t = Done () u" by metis
    from rw_drive_enter [OF this] obtain k j w where j: "k + j = n" and w: "mutex_Lock xnu k (rw_mutex v') t = Done () w"
      "rw_drive xnu j (rw_after ToWrite (rw_mutex v') l) l w = Done () u" by blast
    have "j \<le> n" using j by simp
    then have "\<exists>f r. LockExclusive_rest xnu f r l (rw_mutex v') t = Done () u"
      using rw_drive_after_write [OF w(2) _ w(1)] readers by blast
    then obtain f r where "LockExclusive_rest xnu f r l (rw_mutex v') t = Done () u" by blast
    moreover have "rw_wait_readers xnu f l s = Done () s" using v True by (cases f) (auto simp: wait_loop_iffs)
    ultimately show ?thesis using t LockExclusive_loop_step [of xnu f "Suc r" l s u] by blast
  qed (use readers [OF order_refl less.prems v] in blast)
qed

lemma rw_drive_after_plain: "g \<noteq> ToWrite \<Longrightarrow> rw_drive xnu j (rw_after g m l) l = rw_drive xnu 0 (rw_after g m l) l"
  by (rule ext) (cases j; cases g; auto split: outcome.splits)

lemma rw_drive_enter_plain:
  assumes "g \<noteq> ToWrite"
  shows "(\<exists>n. rw_drive xnu n (rw_enter g m l) l s = Done () u) \<longleftrightarrow>
    (\<exists>k. thenM (mutex_Lock xnu k m) (rw_drive xnu 0 (rw_after g m l) l) s = Done () u)"
proof
  assume "\<exists>n. rw_drive xnu n (rw_enter g m l) l s = Done () u"
  then obtain k j t where "mutex_Lock xnu k m s = Done () t" "rw_drive xnu j (rw_after g m l) l t = Done () u"
    using rw_drive_enter by blast
  moreover from this(2) have "rw_drive xnu 0 (rw_after g m l) l t = Done () u"
    using rw_drive_after_plain [OF assms, of xnu j m l] by metis
  ultimately have "thenM (mutex_Lock xnu k m) (rw_drive xnu 0 (rw_after g m l) l) s = Done () u"
    unfolding thenM_Done_iff by blast
  then show "\<exists>k. thenM (mutex_Lock xnu k m) (rw_drive xnu 0 (rw_after g m l) l) s = Done () u" by blast
next
  assume "\<exists>k. thenM (mutex_Lock xnu k m) (rw_drive xnu 0 (rw_after g m l) l) s = Done () u"
  then show "\<exists>n. rw_drive xnu n (rw_enter g m l) l s = Done () u"
    unfolding thenM_Done_iff using rw_enter_drive [of xnu _ m s _ 0 g l u] by fastforce
qed

lemma rw_drive_shared:
  assumes "g \<noteq> ToWrite"
  shows "(\<exists>k. bindM (rw_get l) (\<lambda>v. thenM (mutex_Lock xnu k (rw_mutex v)) (rw_drive xnu 0 (rw_after g (rw_mutex v) l) l)) s = Done () t)
    \<longleftrightarrow> (\<exists>n. rw_drive xnu n (bindM (rw_get l) (\<lambda>v. rw_enter g (rw_mutex v) l)) l s = Done () t)"
proof (cases "rwlocks s l")
  case None
  then have no: "rw_get l s = Stopped MemFault" by (simp add: rw_get_def)
  then have "rw_drive xnu n (bindM (rw_get l) (\<lambda>v. rw_enter g (rw_mutex v) l)) l s = Stopped MemFault" for n by (cases n) simp_all
  with no show ?thesis by simp
next
  case (Some v)
  have "rw_drive xnu n (bindM (rw_get l) (\<lambda>v. rw_enter g (rw_mutex v) l)) l s = rw_drive xnu n (rw_enter g (rw_mutex v) l) l s" for n
    by (rule rw_drive_cong) (simp add: Some)
  then show ?thesis using Some rw_drive_enter_plain [OF assms, of xnu "rw_mutex v" l s t] by simp
qed

lemma LockShared_drive:
  "(\<exists>fuel. LockShared xnu fuel l s = Done () t) \<longleftrightarrow> (\<exists>n. rw_drive xnu n (rw_call OpLockShared l) l s = Done () t)"
proof -
  have "LockShared xnu k l s =
      bindM (rw_get l) (\<lambda>v. thenM (mutex_Lock xnu k (rw_mutex v)) (rw_drive xnu 0 (rw_after ToShare (rw_mutex v) l) l)) s" for k
    by (simp add: LockShared_def split: outcome.split)
  then show ?thesis using rw_drive_shared [of ToShare l xnu s t] by simp
qed

lemma UnlockShared_drive:
  "(\<exists>fuel. UnlockShared xnu fuel l s = Done () t) \<longleftrightarrow> (\<exists>n. rw_drive xnu n (rw_call OpUnlockShared l) l s = Done () t)"
proof -
  have "UnlockShared xnu k l s =
      bindM (rw_get l) (\<lambda>v. thenM (mutex_Lock xnu k (rw_mutex v)) (rw_drive xnu 0 (rw_after ToUnshare (rw_mutex v) l) l)) s" for k
    by (simp add: UnlockShared_def split: outcome.split)
  then show ?thesis using rw_drive_shared [of ToUnshare l xnu s t] by simp
qed

lemma LockExclusive_drive:
  "(\<exists>fuel. LockExclusive xnu fuel l s = Done () t) \<longleftrightarrow> (\<exists>n. rw_drive xnu n (rw_call OpLockExclusive l) l s = Done () t)"
proof
  assume "\<exists>n. rw_drive xnu n (rw_call OpLockExclusive l) l s = Done () t"
  then obtain f r where "LockExclusive_loop xnu f r l s = Done () t"
    using rw_drive_LockExclusive unfolding rw_call.simps(3) by blast
  then have "LockExclusive_loop xnu (max f r) (Suc (max f r)) l s = Done () t" by (rule LockExclusive_loop_mono) simp_all
  then show "\<exists>fuel. LockExclusive xnu fuel l s = Done () t" unfolding LockExclusive_def by blast
qed (use LockExclusive_loop_drive in \<open>unfold LockExclusive_def rw_call.simps(3), blast\<close>)

lemma rw_Unlock_drive:
  "(\<exists>fuel. rw_Unlock xnu fuel l s = Done () t) \<longleftrightarrow> (\<exists>n. rw_drive xnu n (rw_call OpUnlock l) l s = Done () t)"
proof (cases "\<exists>v. rwlocks s l = Some v \<and> rw_owners v \<noteq> {}")
  case True
  then have "IsShared l s = Done True s" by (auto simp: IsShared_def)
  then have "rw_Unlock xnu fuel l s = UnlockShared xnu fuel l s" "rw_call OpUnlock l s = rw_call OpUnlockShared l s" for fuel
    by (simp_all add: rw_Unlock_def)
  then show ?thesis using UnlockShared_drive rw_drive_cong [where p = "rw_call OpUnlock l" and q = "rw_call OpUnlockShared l"] by metis
next
  case False
  show ?thesis
  proof (cases "rwlocks s l")
    case None
    then have "IsShared l s = Stopped MemFault" by (simp add: IsShared_def rw_get_def)
    then have "rw_drive xnu n (rw_call OpUnlock l) l s = Stopped MemFault" for n by (cases n) simp_all
    with \<open>IsShared l s = _\<close> show ?thesis by (simp add: rw_Unlock_def)
  next
    case (Some v)
    with False have "IsShared l s = Done False s" by (auto simp: IsShared_def)
    moreover from this have "rw_drive xnu n (rw_call OpUnlock l) l s = UnlockExclusive l s" for n
      by (cases n) (simp_all split: outcome.split)
    ultimately show ?thesis by (simp add: rw_Unlock_def)
  qed
qed


section \<open>Threads\<close>

text \<open>The steps of any number of threads on one lock. A thread in no operation calls one; a blocked thread is resumed, whatever the
  reason; and everything else that happens, other locks and the scheduler included, leaves the two objects of this lock as they
  are.\<close>

inductive rw_step :: "ptr \<Rightarrow> handle \<Rightarrow> (handle \<Rightarrow> rw_pc) \<times> 'z lhost_scheme \<Rightarrow> (handle \<Rightarrow> rw_pc) \<times> 'z lhost_scheme \<Rightarrow> bool"
  for l :: ptr where
  call: "h \<noteq> 0 \<Longrightarrow> pcs h = Idle \<Longrightarrow> rw_call op l (s\<lparr>current := h\<rparr>) = Done pc t \<Longrightarrow> rw_step l h (pcs, s) (pcs(h := pc), t)"
| resume: "h \<noteq> 0 \<Longrightarrow> pcs h \<noteq> Idle \<Longrightarrow> rw_resume (pcs h) l (s\<lparr>current := h\<rparr>) = Done pc t \<Longrightarrow> rw_step l h (pcs, s) (pcs(h := pc), t)"
| elsewhere: "rwlocks s l = Some v \<Longrightarrow> rwlocks t l = Some v \<Longrightarrow> mutexes t (rw_mutex v) = mutexes s (rw_mutex v) \<Longrightarrow> rw_step l h (pcs, s) (pcs, t)"

inductive rw_steps :: "ptr \<Rightarrow> (handle \<Rightarrow> rw_pc) \<times> 'z lhost_scheme \<Rightarrow> (handle \<Rightarrow> rw_pc) \<times> 'z lhost_scheme \<Rightarrow> bool"
  for l :: ptr where
  none: "rw_steps l c c"
| more: "rw_steps l c d \<Longrightarrow> rw_step l h d e \<Longrightarrow> rw_steps l c e"

text \<open>The abstract reader-writer lock: the writer, or 0, and the readers.\<close>

inductive rw_abs :: "handle \<Rightarrow> handle \<times> handle set \<Rightarrow> handle \<times> handle set \<Rightarrow> bool"
  for h :: handle where
  keep: "rw_abs h c c"
| read: "h \<notin> R \<Longrightarrow> rw_abs h (0, R) (0, insert h R)"
| unread: "h \<in> R \<Longrightarrow> rw_abs h (0, R) (0, R - {h})"
| "write": "rw_abs h (0, {}) (h, {})"
| unwrite: "rw_abs h (h, {}) (0, {})"
| downgrade: "rw_abs h (h, {}) (0, {h})"
| upgrade: "rw_abs h (0, {h}) (h, {})"

text \<open>The lock as it is seen from outside: the address of its mutex, the owner of the mutex and the readers.\<close>

definition rw_view :: "ptr \<Rightarrow> 'z lhost_scheme \<Rightarrow> (ptr \<times> handle \<times> handle set) option" where
  "rw_view l s = (case rwlocks s l of None \<Rightarrow> None
     | Some v \<Rightarrow> (case mutexes s (rw_mutex v) of None \<Rightarrow> None | Some m \<Rightarrow> Some (rw_mutex v, owner m, rw_owners v)))"

lemma rw_view_eq:
  "rw_view l s = Some (p, w, R) \<longleftrightarrow>
     (\<exists>v m. rwlocks s l = Some v \<and> mutexes s p = Some m \<and> rw_mutex v = p \<and> owner m = w \<and> rw_owners v = R)"
  by (auto simp: rw_view_def split: option.splits)

lemma mutex_try_Done:
  assumes "mutex_try m s = Done b t" "mutexes s m = Some x"
  shows "if b then owner x = 0 \<and> t = s\<lparr>mutexes := (mutexes s)(m \<mapsto> \<lparr>owner = current s, waiters = remove1 (current s) (waiters x)\<rparr>)\<rparr>
     else owner x \<noteq> 0 \<and> (\<exists>ws. t = s\<lparr>mutexes := (mutexes s)(m \<mapsto> x\<lparr>waiters := ws\<rparr>)\<rparr>)"
  using assms by (cases x) (auto simp: mutex_try_def mutex_acquire_def mutex_RemoveWaiter_def mutex_AddWaiter_def split: if_splits)

text \<open>What the operations of the parts do to the lock as it is seen from outside.\<close>

lemma AddOwner_view:
  assumes "AddOwner l s = Done () t" "rw_view l s = Some (p, w, R)"
  shows "current s \<notin> R \<and> rw_view l t = Some (p, w, insert (current s) R) \<and> current t = current s"
  using assms by (auto simp: rw_view_eq AddOwner_def split: if_splits)

lemma RemoveOwner_view:
  assumes "RemoveOwner l s = Done () t" "rw_view l s = Some (p, w, R)"
  shows "current s \<in> R \<and> rw_view l t = Some (p, w, R - {current s}) \<and> current t = current s"
  using assms(2) RemoveOwner_Done [OF assms(1)] by (auto simp: rw_view_eq)

lemma mutex_Unlock_view:
  assumes "mutex_Unlock p s = Done () t" "rw_view l s = Some (p, w, R)"
  shows "w = current s \<and> rw_view l t = Some (p, 0, R) \<and> current t = current s"
  using assms(2) mutex_Unlock_Done [OF assms(1)] by (auto simp: rw_view_eq)

lemma mutex_try_view:
  assumes "mutex_try p s = Done b t" "rw_view l s = Some (p, w, R)"
  shows "rw_view l t = Some (p, if b then current s else w, R) \<and> (b \<longleftrightarrow> w = 0) \<and> current t = current s"
proof -
  obtain x where x: "mutexes s p = Some x" using assms(2) by (auto simp: rw_view_eq)
  from mutex_try_Done [OF assms(1) x] x assms(2) show ?thesis by (cases b) (auto simp: rw_view_eq)
qed

lemma mutex_TryLock_view:
  assumes "mutex_TryLock p s = Done b t" "rw_view l s = Some (p, w, R)"
  shows "rw_view l t = Some (p, if b then current s else w, R) \<and> (b \<longleftrightarrow> w = 0) \<and> current t = current s"
proof -
  obtain x where x: "mutexes s p = Some x" using assms(2) by (auto simp: rw_view_eq)
  from mutex_TryLock_Done [OF assms(1) x] x assms(2) show ?thesis by (cases b) (auto simp: rw_view_eq)
qed

lemma rw_waiters_view:
  assumes "rw_AddWaiter l s = Done () t \<or> rw_RemoveWaiter l s = Done () t" "rw_view l s = Some c"
  shows "rw_view l t = Some c \<and> current t = current s"
  using assms by (cases c) (auto simp: rw_view_eq rw_AddWaiter_def rw_RemoveWaiter_def split: if_splits)

text \<open>One segment of one operation is one transition of the abstract lock.\<close>

definition rw_seg :: "ptr \<Rightarrow> ptr \<times> handle \<times> handle set \<Rightarrow> 'z lhost_scheme \<Rightarrow> (rw_pc, 'z lhost_scheme) outcome \<Rightarrow> bool" where
  "rw_seg l = (\<lambda>(p, c) s r. \<forall>pc t. r = Done pc t \<longrightarrow>
     (\<exists>c'. rw_view l t = Some (p, c') \<and> rw_abs (current s) c c') \<and> (\<forall>g q. pc = InMutex g q \<longrightarrow> q = p))"

lemma rw_segI:
  "(\<And>pc t. r = Done pc t \<Longrightarrow> \<exists>c'. rw_view l t = Some (p, c') \<and> rw_abs (current s) c c') \<Longrightarrow>
   (\<And>g q t. r = Done (InMutex g q) t \<Longrightarrow> q = p) \<Longrightarrow> rw_seg l (p, c) s r"
  by (auto simp: rw_seg_def)

lemma rw_after_view:
  assumes "rw_after g p l s = Done pc t" "rw_view l s = Some (p, current s, R)"
  shows "case g of
       ToShare \<Rightarrow> current s \<notin> R \<and> pc = Idle \<and> rw_view l t = Some (p, 0, insert (current s) R)
     | ToUnshare \<Rightarrow> current s \<in> R \<and> pc = Idle \<and> rw_view l t = Some (p, 0, R - {current s})
     | ToWrite \<Rightarrow> if R = {} then pc = Idle \<and> t = s else pc = AtReaders \<and> rw_view l t = Some (p, 0, R)"
proof (cases g)
  case ToShare
  then obtain u where u: "AddOwner l s = Done () u" "mutex_Unlock p u = Done () t" "pc = Idle"
    using assms(1) by (auto split: outcome.splits)
  then show ?thesis using AddOwner_view [OF u(1) assms(2)] mutex_Unlock_view [OF u(2)] ToShare by auto
next
  case ToUnshare
  then obtain u where u: "RemoveOwner l s = Done () u" "mutex_Unlock p u = Done () t" "pc = Idle"
    using assms(1) by (auto split: outcome.splits)
  then show ?thesis using RemoveOwner_view [OF u(1) assms(2)] mutex_Unlock_view [OF u(2)] ToUnshare by auto
next
  case ToWrite
  obtain v where v: "rwlocks s l = Some v" "rw_mutex v = p" "rw_owners v = R" using assms(2) by (auto simp: rw_view_eq)
  show ?thesis
  proof (cases "R = {}")
    case False
    with v ToWrite assms(1) obtain u where u: "mutex_Unlock p s = Done () u" "rw_AddWaiter l u = Done () t" "pc = AtReaders"
      by (auto split: outcome.splits)
    then show ?thesis using mutex_Unlock_view [OF u(1) assms(2)] rw_waiters_view [of l u t] False ToWrite by auto
  qed (use v ToWrite assms(1) in auto)
qed

lemma rw_enter_view:
  assumes "rw_enter g p l s = Done pc t" "rw_view l s = Some (p, w, R)"
  shows "if w \<noteq> 0 then pc = InMutex g p \<and> rw_view l t = Some (p, w, R)
     else (case g of
       ToShare \<Rightarrow> current s \<notin> R \<and> pc = Idle \<and> rw_view l t = Some (p, 0, insert (current s) R)
     | ToUnshare \<Rightarrow> current s \<in> R \<and> pc = Idle \<and> rw_view l t = Some (p, 0, R - {current s})
     | ToWrite \<Rightarrow> if R = {} then pc = Idle \<and> rw_view l t = Some (p, current s, {}) else pc = AtReaders \<and> rw_view l t = Some (p, 0, R))"
proof -
  obtain b u where u: "mutex_try p s = Done b u" using assms(1) by (auto simp: rw_enter_def split: outcome.splits)
  note got = mutex_try_view [OF u assms(2)]
  show ?thesis
  proof (cases b)
    case True
    with u assms(1) have "rw_after g p l u = Done pc t" by (simp add: rw_enter_def)
    from rw_after_view [OF this] got True show ?thesis by (cases g) (auto split: if_splits)
  next
    case False
    with u assms(1) got show ?thesis by (auto simp: rw_enter_def)
  qed
qed

lemma rw_enter_seg:
  assumes "rw_view l s = Some (p, w, R)" "w = 0 \<or> R = {}"
  shows "rw_seg l (p, w, R) s (rw_enter g p l s)"
proof (rule rw_segI)
  fix pc t assume "rw_enter g p l s = Done pc t"
  from rw_enter_view [OF this assms(1)]
  show "\<exists>c'. rw_view l t = Some (p, c') \<and> rw_abs (current s) (w, R) c'"
    by (cases g) (auto intro: rw_abs.intros split: if_splits)
next
  fix g' q t assume "rw_enter g p l s = Done (InMutex g' q) t"
  from rw_enter_view [OF this assms(1)] show "q = p" by (cases g) (auto split: if_splits)
qed

lemma rw_readers_view:
  assumes "rw_resume AtReaders l s = Done pc t" "rw_view l s = Some (p, w, R)"
  shows "if R \<noteq> {} then pc = AtReaders \<and> rw_view l t = Some (p, w, R)
     else if w \<noteq> 0 then pc = InMutex ToWrite p \<and> rw_view l t = Some (p, w, R)
     else pc = Idle \<and> rw_view l t = Some (p, current s, {})"
proof -
  obtain v where v: "rwlocks s l = Some v" "rw_mutex v = p" "rw_owners v = R" using assms(2) by (auto simp: rw_view_eq)
  show ?thesis
  proof (cases "R = {}")
    case False
    with v assms(1) have "rw_AddWaiter l s = Done () t" "pc = AtReaders" by (auto split: outcome.splits)
    then show ?thesis using rw_waiters_view [of l s t, OF _ assms(2)] False by simp
  next
    case True
    with v assms(1) obtain u where u: "rw_RemoveWaiter l s = Done () u" by (auto split: outcome.splits)
    note same = rw_waiters_view [OF disjI2, OF u assms(2)]
    then obtain v' where "rwlocks u l = Some v'" "rw_mutex v' = p" by (auto simp: rw_view_eq)
    with u v True assms(1) have "rw_enter ToWrite p l u = Done pc t" by simp
    from rw_enter_view [OF this] same True show ?thesis by (auto split: if_splits)
  qed
qed

lemma rw_resume_seg:
  assumes "rw_view l s = Some (p, w, R)" "w = 0 \<or> R = {}" "\<And>g q. pc = InMutex g q \<Longrightarrow> q = p"
  shows "rw_seg l (p, w, R) s (rw_resume pc l s)"
proof (cases pc)
  case Idle
  then show ?thesis using assms(1) by (auto intro: rw_segI rw_abs.keep)
next
  case AtReaders
  show ?thesis
  proof (rule rw_segI)
    fix pc' t assume "rw_resume pc l s = Done pc' t"
    from rw_readers_view [OF this [unfolded AtReaders] assms(1)]
    show "\<exists>c'. rw_view l t = Some (p, c') \<and> rw_abs (current s) (w, R) c'"
      by (auto intro: rw_abs.intros split: if_splits)
  next
    fix g' q t assume "rw_resume pc l s = Done (InMutex g' q) t"
    from rw_readers_view [OF this [unfolded AtReaders] assms(1)] show "q = p" by (auto split: if_splits)
  qed
next
  case (InMutex g q)
  then show ?thesis using rw_enter_seg [OF assms(1,2)] assms(3) [OF InMutex] by simp
qed

lemma TryLockExclusive_view:
  assumes "TryLockExclusive l s = Done b t" "rw_view l s = Some (p, w, R)"
  shows "rw_view l t = Some (p, if b then current s else w, R) \<and> (b \<longrightarrow> w = 0 \<and> R = {}) \<and> current t = current s"
proof (cases "R = {}")
  case True
  with assms have "mutex_TryLock p s = Done b t" by (auto simp: rw_view_eq TryLockExclusive_def)
  from mutex_TryLock_view [OF this assms(2)] True show ?thesis by auto
qed (use assms in \<open>auto simp: rw_view_eq TryLockExclusive_def split: if_splits\<close>)

lemma try_ops_seg:
  assumes "rw_view l s = Some (p, w, R)" "w = 0 \<or> R = {}"
  shows "TryLockExclusive l s = Done b t \<Longrightarrow> \<exists>c'. rw_view l t = Some (p, c') \<and> rw_abs (current s) (w, R) c'"
    and "TryLockShared l s = Done b t \<Longrightarrow> \<exists>c'. rw_view l t = Some (p, c') \<and> rw_abs (current s) (w, R) c'"
    and "SharedToExclusive l s = Done b t \<Longrightarrow> \<exists>c'. rw_view l t = Some (p, c') \<and> rw_abs (current s) (w, R) c'"
proof -
  assume "TryLockExclusive l s = Done b t"
  from TryLockExclusive_view [OF this assms(1)]
  show "\<exists>c'. rw_view l t = Some (p, c') \<and> rw_abs (current s) (w, R) c'" by (auto intro: rw_abs.intros)
next
  assume d: "TryLockShared l s = Done b t"
  obtain v where v: "rwlocks s l = Some v" "rw_mutex v = p" using assms(1) by (auto simp: rw_view_eq)
  obtain got u where u: "mutex_TryLock p s = Done got u" using d v by (auto simp: TryLockShared_def split: outcome.splits)
  note g = mutex_TryLock_view [OF u assms(1)]
  show "\<exists>c'. rw_view l t = Some (p, c') \<and> rw_abs (current s) (w, R) c'"
  proof (cases got)
    case True
    with d v u obtain u' where u': "AddOwner l u = Done () u'" "mutex_Unlock p u' = Done () t"
      by (auto simp: TryLockShared_def split: outcome.splits)
    from AddOwner_view [OF u'(1)] mutex_Unlock_view [OF u'(2)] g True show ?thesis by (auto intro: rw_abs.read)
  next
    case False
    with d v u g show ?thesis by (auto simp: TryLockShared_def intro: rw_abs.keep)
  qed
next
  assume "SharedToExclusive l s = Done b t"
  then obtain u where u: "RemoveOwner l s = Done () u" "TryLockExclusive l u = Done b t"
    by (auto simp: SharedToExclusive_def split: outcome.splits)
  note r = RemoveOwner_view [OF u(1) assms(1)]
  have "R = {current s}" if "R - {current s} = {}" using that r by auto
  with r TryLockExclusive_view [OF u(2), of p w "R - {current s}"] assms(2)
  show "\<exists>c'. rw_view l t = Some (p, c') \<and> rw_abs (current s) (w, R) c'"
    by (cases b) (auto intro: rw_abs.intros)
qed

lemma held_ops_seg:
  assumes "rw_view l s = Some (p, w, R)"
  shows "UnlockExclusive l s = Done x t \<Longrightarrow> \<exists>c'. rw_view l t = Some (p, c') \<and> rw_abs (current s) (w, R) c'"
    and "ExclusiveToShared l s = Done x t \<Longrightarrow> \<exists>c'. rw_view l t = Some (p, c') \<and> rw_abs (current s) (w, R) c'"
proof -
  obtain v m where v: "rwlocks s l = Some v" "rw_mutex v = p" "rw_owners v = R" "mutexes s p = Some m" "owner m = w"
    using assms by (auto simp: rw_view_eq)
  {
    assume "UnlockExclusive l s = Done x t"
    then have "mutex_Unlock p s = Done () t" "R = {}"
      using v by (auto simp: UnlockExclusive_def mutex_Held_def split: if_splits)
    from mutex_Unlock_view [OF this(1) assms] this(2)
    show "\<exists>c'. rw_view l t = Some (p, c') \<and> rw_abs (current s) (w, R) c'" by (auto intro: rw_abs.unwrite)
  next
    assume "ExclusiveToShared l s = Done x t"
    then obtain u where u: "AddOwner l s = Done () u" "mutex_Unlock p u = Done () t" "R = {}" "w = current s"
      using v by (auto simp: ExclusiveToShared_def mutex_AssertHeld_def mutex_Held_def split: if_splits outcome.splits)
    from AddOwner_view [OF u(1) assms] mutex_Unlock_view [OF u(2)] u(3,4)
    show "\<exists>c'. rw_view l t = Some (p, c') \<and> rw_abs (current s) (w, R) c'" by (auto intro: rw_abs.downgrade)
  }
qed

lemma rw_call_seg:
  assumes "rw_view l s = Some (p, w, R)" "w = 0 \<or> R = {}"
  shows "rw_seg l (p, w, R) s (rw_call op l s)"
proof -
  obtain v where v: "rwlocks s l = Some v" "rw_mutex v = p" "rw_owners v = R" using assms(1) by (auto simp: rw_view_eq)
  have plain: "rw_seg l (p, w, R) s (thenM f (retM Idle) s)"
    if "\<And>x t. f s = Done x t \<Longrightarrow> \<exists>c'. rw_view l t = Some (p, c') \<and> rw_abs (current s) (w, R) c'" for f :: "('b, _) prog"
    using that by (auto intro!: rw_segI split: outcome.splits)
  note ops = try_ops_seg [OF assms] held_ops_seg [OF assms(1)]
  show ?thesis
  proof (cases op)
    case OpLockShared
    then show ?thesis using v rw_enter_seg [OF assms] by simp
  next
    case OpUnlockShared
    then show ?thesis using v rw_enter_seg [OF assms] by simp
  next
    case OpLockExclusive
    then show ?thesis using rw_resume_seg [OF assms, of AtReaders] by simp
  next
    case OpUnlock
    then show ?thesis using v rw_enter_seg [OF assms] plain [of "UnlockExclusive l"] ops(4)
      by (cases "R = {}") (simp_all add: IsShared_def)
  qed (simp_all only: rw_call.simps, (rule plain, erule ops)+)
qed

text \<open>The invariant of the steps.\<close>

definition rw_inv :: "ptr \<Rightarrow> ptr \<Rightarrow> (handle \<Rightarrow> rw_pc) \<times> 'z lhost_scheme \<Rightarrow> bool" where
  "rw_inv l p = (\<lambda>(pcs, s). (\<exists>w R. rw_view l s = Some (p, w, R) \<and> (w = 0 \<or> R = {})) \<and> (\<forall>h g q. pcs h = InMutex g q \<longrightarrow> q = p))"

lemma rw_view_current [simp]: "rw_view l (s\<lparr>current := h\<rparr>) = rw_view l s"
  by (simp add: rw_view_def split: option.split)

lemma rw_abs_exclusive: "rw_abs h (w, R) (w', R') \<Longrightarrow> w = 0 \<or> R = {} \<Longrightarrow> w' = 0 \<or> R' = {}"
  by (auto elim: rw_abs.cases)

lemma rw_abs_others:
  "rw_abs h (w, R) (w', R') \<Longrightarrow> k \<noteq> h \<Longrightarrow> k \<noteq> 0 \<Longrightarrow> (w' = k \<longleftrightarrow> w = k) \<and> (k \<in> R' \<longleftrightarrow> k \<in> R)"
  by (auto elim: rw_abs.cases)

lemma rw_step_seg:
  assumes "rw_step l h (pcs, s) (pcs', t)" "rw_inv l p (pcs, s)" "rw_view l s = Some (p, w, R)"
  shows "(\<exists>w' R'. rw_view l t = Some (p, w', R') \<and> rw_abs h (w, R) (w', R')) \<and> (\<forall>h g q. pcs' h = InMutex g q \<longrightarrow> q = p)"
proof -
  have inv: "w = 0 \<or> R = {}" "\<And>h g q. pcs h = InMutex g q \<Longrightarrow> q = p" using assms(2,3) by (auto simp: rw_inv_def)
  have v: "rw_view l (s\<lparr>current := h\<rparr>) = Some (p, w, R)" using assms(3) by simp
  from assms(1) show ?thesis
  proof cases
    case (call op pc)
    with rw_call_seg [OF v inv(1), of op] inv(2) show ?thesis by (auto simp: rw_seg_def)
  next
    case (resume pc)
    with rw_resume_seg [OF v inv(1), of "pcs h"] inv(2) show ?thesis by (auto simp: rw_seg_def)
  next
    case (elsewhere v)
    then show ?thesis using assms(3) inv(2) by (auto simp: rw_view_def intro: rw_abs.keep)
  qed
qed

lemma rw_steps_inv: "rw_steps l c d \<Longrightarrow> rw_inv l p c \<Longrightarrow> rw_inv l p d"
proof (induction rule: rw_steps.induct)
  case (more c d h e)
  obtain pcs s pcs' t where e: "d = (pcs, s)" "e = (pcs', t)" by (cases d, cases e)
  from more e obtain w R where v: "rw_view l s = Some (p, w, R)" "w = 0 \<or> R = {}" by (auto simp: rw_inv_def)
  have "rw_step l h (pcs, s) (pcs', t)" "rw_inv l p (pcs, s)" using more e by simp_all
  from rw_step_seg [OF this v(1)] obtain w' R' where "rw_view l t = Some (p, w', R')" "rw_abs h (w, R) (w', R')"
    "\<forall>h g q. pcs' h = InMutex g q \<longrightarrow> q = p" by blast
  with rw_abs_exclusive [OF this(2) v(2)] show ?case by (simp add: rw_inv_def e)
qed

text \<open>C11. Readers and writers exclude each other, under every interleaving. From a lock that is not both read and written, in every
  state that threads reach by calling its operations, blocking inside them and being resumed at any moment, either nobody writes or
  nobody reads; each further step is one transition of the abstract lock by the thread that makes it and leaves the other threads'
  hold on the lock as it was; \<open>LockExclusive\<close> returns, also after it was blocked, only with the thread as the single owner and no
  reader; and \<open>LockShared\<close> returns only while nobody writes, with the thread among the readers.\<close>

theorem rw_lock_exclusion:
  assumes "rw_view l s = Some (p, w, R)" and "w = 0 \<or> R = {}" and "rw_steps l (\<lambda>_. Idle, s) (pcs, t)"
  shows "\<exists>w R. rw_view l t = Some (p, w, R) \<and> (w = 0 \<or> R = {}) \<and>
     (\<forall>h pcs' u. rw_step l h (pcs, t) (pcs', u) \<longrightarrow>
        (\<exists>w' R'. rw_view l u = Some (p, w', R') \<and> rw_abs h (w, R) (w', R') \<and>
           (\<forall>k. k \<noteq> h \<and> k \<noteq> 0 \<longrightarrow> (w' = k \<longleftrightarrow> w = k) \<and> (k \<in> R' \<longleftrightarrow> k \<in> R)))) \<and>
     (\<forall>h u. rw_resume AtReaders l (t\<lparr>current := h\<rparr>) = Done Idle u \<longrightarrow> rw_view l u = Some (p, h, {})) \<and>
     (\<forall>h u. rw_resume (InMutex ToWrite p) l (t\<lparr>current := h\<rparr>) = Done Idle u \<longrightarrow> rw_view l u = Some (p, h, {})) \<and>
     (\<forall>h u. rw_resume (InMutex ToShare p) l (t\<lparr>current := h\<rparr>) = Done Idle u \<longrightarrow> w = 0 \<and> rw_view l u = Some (p, 0, insert h R))"
proof -
  have inv: "rw_inv l p (pcs, t)" using rw_steps_inv [OF assms(3), of p] assms(1,2) by (simp add: rw_inv_def)
  then obtain w R where v: "rw_view l t = Some (p, w, R)" "w = 0 \<or> R = {}" by (auto simp: rw_inv_def)
  have v': "rw_view l (t\<lparr>current := h\<rparr>) = Some (p, w, R)" for h using v by simp
  show ?thesis
  proof (rule exI [of _ w], rule exI [of _ R], intro conjI allI impI v)
    fix h pcs' u assume "rw_step l h (pcs, t) (pcs', u)"
    from rw_step_seg [OF this inv v(1)] rw_abs_others
    show "\<exists>w' R'. rw_view l u = Some (p, w', R') \<and> rw_abs h (w, R) (w', R') \<and>
           (\<forall>k. k \<noteq> h \<and> k \<noteq> 0 \<longrightarrow> (w' = k \<longleftrightarrow> w = k) \<and> (k \<in> R' \<longleftrightarrow> k \<in> R))" by blast
  next
    fix h u assume "rw_resume AtReaders l (t\<lparr>current := h\<rparr>) = Done Idle u"
    from rw_readers_view [OF this v'] show "rw_view l u = Some (p, h, {})" by (auto split: if_splits)
  next
    fix h u assume "rw_resume (InMutex ToWrite p) l (t\<lparr>current := h\<rparr>) = Done Idle u"
    from rw_enter_view [OF this [unfolded rw_resume.simps] v'] show "rw_view l u = Some (p, h, {})" by (auto split: if_splits)
  next
    fix h u assume d: "rw_resume (InMutex ToShare p) l (t\<lparr>current := h\<rparr>) = Done Idle u"
    from rw_enter_view [OF d [unfolded rw_resume.simps] v'] show "w = 0" by (auto split: if_splits)
    from rw_enter_view [OF d [unfolded rw_resume.simps] v'] show "rw_view l u = Some (p, 0, insert h R)" by (auto split: if_splits)
  qed
qed

text \<open>Runs of the lock by a schedule: each entry names a thread, and the operation it calls when it is not inside one.\<close>

fun rw_play :: "ptr \<Rightarrow> (handle \<times> rw_op) list \<Rightarrow> (handle \<Rightarrow> rw_pc) \<times> 'z lhost_scheme \<Rightarrow> ((handle \<Rightarrow> rw_pc) \<times> 'z lhost_scheme) option" where
  "rw_play l [] c = Some c"
| "rw_play l ((h, op) # hs) (pcs, s) =
     (if h = 0 then None
      else (case (if pcs h = Idle then rw_call op l else rw_resume (pcs h) l) (s\<lparr>current := h\<rparr>) of
        Stopped e \<Rightarrow> None
      | Done pc t \<Rightarrow> rw_play l hs (pcs(h := pc), t)))"

lemma rw_step_steps: "rw_step l h c d \<Longrightarrow> rw_steps l d e \<Longrightarrow> rw_steps l c e"
  by (rotate_tac, induction rule: rw_steps.induct) (auto intro: rw_steps.intros)

lemma rw_play_steps: "rw_play l hs c = Some d \<Longrightarrow> rw_steps l c d"
proof (induction hs arbitrary: c)
  case (Cons x hs)
  obtain h op pcs s where c: "x = (h, op)" "c = (pcs, s)" by (cases x, cases c)
  from Cons.prems c have h: "h \<noteq> 0" by (auto split: if_splits)
  obtain pc t where t: "(if pcs h = Idle then rw_call op l else rw_resume (pcs h) l) (s\<lparr>current := h\<rparr>) = Done pc t"
    "rw_play l hs (pcs(h := pc), t) = Some d" using Cons.prems c h by (auto split: outcome.splits)
  have "rw_step l h c (pcs(h := pc), t)"
    using t(1) h c by (cases "pcs h = Idle") (auto intro: rw_step.intros)
  then show ?case using Cons.IH [OF t(2)] by (rule rw_step_steps)
qed (auto intro: rw_steps.none)

text \<open>A race: thread 7 blocks on the mutex that the writer 9 holds, 9 leaves, 5 starts to read, and 7, resumed, takes the mutex, finds the
  reader and waits again.\<close>

definition rw_race :: "(handle \<times> rw_op) list" where
  "rw_race = [(9, OpLockExclusive), (7, OpLockExclusive), (9, OpUnlockExclusive), (5, OpLockShared), (7, OpLockExclusive)]"

lemmas rw_op_defs = rw_get_def rw_upd_def mutex_get_def mutex_upd_def mutex_try_def rw_enter_def rw_AddWaiter_def
  rw_RemoveWaiter_def mutex_acquire_def mutex_RemoveWaiter_def mutex_AddWaiter_def mutex_Unlock_def mutex_AssertHeld_def
  mutex_Held_def UnlockExclusive_def AddOwner_def RemoveOwner_def MakeAllRunnable_def MakeRunnable_def sIsRunnable_def

lemma rw_race_runs:
  "\<exists>pcs t. rw_play 44 rw_race (\<lambda>_. Idle, lhost_example) = Some (pcs, t) \<and> pcs 7 = AtReaders \<and> rw_view 44 t = Some (48, 0, {5})"
  by (simp add: rw_race_def rw_op_defs lhost_example_def host_example_def host.defs rw_view_def)

theorem rw_lock_exclusion_witness:
  "\<exists>pcs t w R. rw_steps 44 (\<lambda>_. Idle, lhost_example) (pcs, t) \<and> pcs 7 = AtReaders \<and> rw_view 44 t = Some (48, w, R) \<and> R = {5} \<and>
     (w = 0 \<or> R = {}) \<and>
     (\<forall>h u. rw_resume AtReaders 44 (t\<lparr>current := h\<rparr>) = Done Idle u \<longrightarrow> rw_view 44 u = Some (48, h, {}))"
proof -
  obtain pcs t where t: "rw_play 44 rw_race (\<lambda>_. Idle, lhost_example) = Some (pcs, t)" "pcs 7 = AtReaders"
    "rw_view 44 t = Some (48, 0, {5})" using rw_race_runs by blast
  have v: "rw_view 44 lhost_example = Some (48, 0, {})"
    by (simp add: lhost_example_def host_example_def host.defs rw_view_def)
  from rw_lock_exclusion [OF v _ rw_play_steps [OF t(1)]] t rw_play_steps [OF t(1)] show ?thesis by auto
qed

end
