(* ===== verification/Deadlock.thy ===== *)
theory Deadlock
  imports RwLock
begin

text \<open>
  The search for deadlocks: \<open>third_party/concurrence/sync/tracker.cc\<close>, the tracker that owns the mutexes and the
  reader-writer locks the guest allocates, and the part of \<open>sync.cc\<close> that runs when \<open>is_verbose\<close> is set. A thread that
  starts to wait follows the owners of the object it waits for, then the objects those threads wait for, and so on; a chain
  that leads back to it is a deadlock and the host aborts with a report.

  The tables of the tracker are hash tables: \<open>all_primitives\<close> lists one in its iteration order, and the argument
  \<open>ord\<close> lists the readers of a lock in the order of their set. Nothing is assumed of either order. The reports, which only
  print, are left out; the search itself carries a bound on its depth.
\<close>

section \<open>Sessions\<close>

definition BeginSession :: "(unit, 'z lhost_scheme) prog" where
  "BeginSession = modifyM (\<lambda>s. if debug_build s then s\<lparr>session_tracked := {}\<rparr> else s)"

text \<open>The report returns before it prints.\<close>

definition ReportSession :: "(unit, 'z lhost_scheme) prog" where
  "ReportSession = retM ()"

definition free_sync :: "sync_ref \<Rightarrow> 'z lhost_scheme \<Rightarrow> 'z lhost_scheme" where
  "free_sync r s = (case r of MutexRef m \<Rightarrow> s\<lparr>mutexes := (mutexes s)(m := None)\<rparr>
     | RwRef l \<Rightarrow> s\<lparr>mutexes := (case rwlocks s l of None \<Rightarrow> mutexes s | Some v \<Rightarrow> (mutexes s)(rw_mutex v := None)),
                    rwlocks := (rwlocks s)(l := None)\<rparr>)"

definition FreeSession :: "(unit, 'z lhost_scheme) prog" where
  "FreeSession = modifyM (\<lambda>s. if \<not> debug_build s then s else
     (fold free_sync (filter (\<lambda>r. r \<in> session_tracked s) (all_primitives s)) s)
       \<lparr>all_primitives := filter (\<lambda>r. r \<notin> session_tracked s) (all_primitives s), session_tracked := {}\<rparr>)"

section \<open>Owners and waiters of an object\<close>

definition sync_waiters :: "sync_ref \<Rightarrow> (handle list, 'z lhost_scheme) prog" where
  "sync_waiters r = (case r of MutexRef m \<Rightarrow> bindM (mutex_get m) (\<lambda>v. retM (waiters v))
     | RwRef l \<Rightarrow> bindM (rw_get l) (\<lambda>v. retM (rw_waiters v)))"

definition sync_owners :: "(handle set \<Rightarrow> handle list) \<Rightarrow> sync_ref \<Rightarrow> (handle list, 'z lhost_scheme) prog" where
  "sync_owners ord r = (case r of
       MutexRef m \<Rightarrow> bindM (mutex_get m) (\<lambda>v. retM (if owner v \<noteq> 0 then [owner v] else []))
     | RwRef l \<Rightarrow> bindM (rw_get l) (\<lambda>v. retM (ord (rw_owners v))))"

definition IsOwnedBy :: "sync_ref \<Rightarrow> handle \<Rightarrow> (bool, 'z lhost_scheme) prog" where
  "IsOwnedBy r h = (case r of MutexRef m \<Rightarrow> bindM (mutex_get m) (\<lambda>v. retM (owner v = h))
     | RwRef l \<Rightarrow> bindM (rw_get l) (\<lambda>v. retM (h \<in> rw_owners v)))"

definition IsOwned :: "sync_ref \<Rightarrow> (bool, 'z lhost_scheme) prog" where
  "IsOwned r = (case r of MutexRef m \<Rightarrow> bindM (mutex_get m) (\<lambda>v. retM (owner v \<noteq> 0))
     | RwRef l \<Rightarrow> bindM (rw_get l) (\<lambda>v. retM (rw_owners v \<noteq> {})))"

primrec owned_among :: "handle \<Rightarrow> sync_ref list \<Rightarrow> (sync_ref set, 'z lhost_scheme) prog" where
  "owned_among h [] = retM {}"
| "owned_among h (r # rs) = bindM (IsOwnedBy r h) (\<lambda>b. bindM (owned_among h rs) (\<lambda>A. retM (if b then insert r A else A)))"

definition Owned :: "handle \<Rightarrow> (sync_ref set, 'z lhost_scheme) prog" where
  "Owned h = bindM (getsM all_primitives) (owned_among h)"

section \<open>The search\<close>

primrec scan_waiters :: "handle \<Rightarrow> sync_ref list \<Rightarrow> (sync_ref option, 'z lhost_scheme) prog" where
  "scan_waiters h [] = retM None"
| "scan_waiters h (r # rs) =
     bindM (sync_waiters r) (\<lambda>ws.
       if h \<in> set ws then bindM (IsOwnedBy r h) (\<lambda>b. if b then abortM else retM (Some r))
       else scan_waiters h rs)"

definition GetObjectWithWaiter :: "handle \<Rightarrow> (sync_ref option, 'z lhost_scheme) prog" where
  "GetObjectWithWaiter h = bindM (getsM all_primitives) (scan_waiters h)"

text \<open>The loop over the owners: the first one with a path wins, and \<open>source\<close> goes in front of that path.\<close>

primrec first_path ::
  "(handle \<Rightarrow> handle list \<Rightarrow> (bool \<times> handle list, 's) prog) \<Rightarrow> handle \<Rightarrow> handle list \<Rightarrow> handle list \<Rightarrow> (bool \<times> handle list, 's) prog" where
  "first_path f source [] path = retM (False, path)"
| "first_path f source (n # ns) path =
     bindM (f n path) (\<lambda>(b, p). if b then retM (True, source # p) else first_path f source ns p)"

primrec FindDependencyPath ::
  "(handle set \<Rightarrow> handle list) \<Rightarrow> nat \<Rightarrow> handle \<Rightarrow> handle \<Rightarrow> handle list \<Rightarrow> (bool \<times> handle list, 'z lhost_scheme) prog" where
  "FindDependencyPath ord 0 source destination path = stopM Diverge"
| "FindDependencyPath ord (Suc fuel) source destination path =
     (if source = destination
      then if path \<noteq> [] then abortM else retM (True, [destination])
      else bindM (GetObjectWithWaiter source) (\<lambda>wanted. case wanted of
         None \<Rightarrow> retM (False, path)
       | Some r \<Rightarrow> bindM (sync_owners ord r) (\<lambda>ns.
           first_path (\<lambda>n. FindDependencyPath ord fuel n destination) source ns path)))"

text \<open>\<open>HandleBlockedMainThread\<close> walks along the first owners while it prints, then aborts; \<open>HandleDeadlock\<close> prints and aborts.\<close>

primrec HandleBlockedMainThread :: "(handle set \<Rightarrow> handle list) \<Rightarrow> nat \<Rightarrow> sync_ref option \<Rightarrow> (unit, 'z lhost_scheme) prog" where
  "HandleBlockedMainThread ord 0 cur = stopM Diverge"
| "HandleBlockedMainThread ord (Suc fuel) cur = (case cur of
       None \<Rightarrow> abortM
     | Some r \<Rightarrow> bindM (sync_owners ord r) (\<lambda>os. case os of
         [] \<Rightarrow> abortM
       | h # _ \<Rightarrow> bindM (GetObjectWithWaiter h) (HandleBlockedMainThread ord fuel)))"

definition HandleDeadlock :: "handle list \<Rightarrow> (unit, 's) prog" where
  "HandleDeadlock path = abortM"

primrec check_owners ::
  "(handle set \<Rightarrow> handle list) \<Rightarrow> nat \<Rightarrow> handle \<Rightarrow> handle list \<Rightarrow> handle list \<Rightarrow> (unit, 'z lhost_scheme) prog" where
  "check_owners ord fuel h [] path = retM ()"
| "check_owners ord fuel h (n # ns) path =
     bindM (FindDependencyPath ord fuel n h path) (\<lambda>(b, p).
       thenM (whenM b (HandleDeadlock p)) (check_owners ord fuel h ns p))"

definition DetectDeadlock :: "(handle set \<Rightarrow> handle list) \<Rightarrow> nat \<Rightarrow> sync_ref \<Rightarrow> (unit, 'z lhost_scheme) prog" where
  "DetectDeadlock ord fuel r =
     bindM (getsM current) (\<lambda>h. bindM GetMainThread (\<lambda>main.
       thenM (whenM (h = main) (HandleBlockedMainThread ord fuel (Some r)))
         (bindM (sync_owners ord r) (\<lambda>ns. check_owners ord fuel h ns []))))"

definition sync_AddWaiter :: "(handle set \<Rightarrow> handle list) \<Rightarrow> bool \<Rightarrow> nat \<Rightarrow> sync_ref \<Rightarrow> (unit, 'z lhost_scheme) prog" where
  "sync_AddWaiter ord is_verbose fuel r =
     thenM (case r of MutexRef m \<Rightarrow> mutex_AddWaiter m | RwRef l \<Rightarrow> rw_AddWaiter l)
       (whenM is_verbose (DetectDeadlock ord fuel r))"

section \<open>The graph of who waits for whom\<close>

definition present :: "'z lhost_scheme \<Rightarrow> sync_ref \<Rightarrow> bool" where
  "present s r = (case r of MutexRef m \<Rightarrow> mutexes s m \<noteq> None | RwRef l \<Rightarrow> rwlocks s l \<noteq> None)"

definition waiters_of :: "'z lhost_scheme \<Rightarrow> sync_ref \<Rightarrow> handle list" where
  "waiters_of s r = (case r of MutexRef m \<Rightarrow> waiters (the (mutexes s m)) | RwRef l \<Rightarrow> rw_waiters (the (rwlocks s l)))"

definition owners_of :: "'z lhost_scheme \<Rightarrow> sync_ref \<Rightarrow> handle set" where
  "owners_of s r = (case r of MutexRef m \<Rightarrow> {owner (the (mutexes s m))} - {0} | RwRef l \<Rightarrow> rw_owners (the (rwlocks s l)))"

text \<open>The tracker holds live objects, nobody waits for an object they own, handle 0 neither waits nor owns, and the orders list
  every reader.\<close>

definition tracker_ok :: "'z lhost_scheme \<Rightarrow> bool" where
  "tracker_ok s \<longleftrightarrow> (\<forall>r \<in> set (all_primitives s). present s r \<and> set (waiters_of s r) \<inter> owners_of s r = {} \<and>
     0 \<notin> set (waiters_of s r) \<and> finite (owners_of s r))"

definition lists_sets :: "(handle set \<Rightarrow> handle list) \<Rightarrow> bool" where
  "lists_sets ord \<longleftrightarrow> (\<forall>A. finite A \<longrightarrow> set (ord A) = A)"

definition wanted_by :: "'z lhost_scheme \<Rightarrow> handle \<Rightarrow> sync_ref option" where
  "wanted_by s h = find (\<lambda>r. h \<in> set (waiters_of s r)) (all_primitives s)"

definition waits_for :: "'z lhost_scheme \<Rightarrow> (handle \<times> handle) set" where
  "waits_for s = {(a, b). \<exists>r. wanted_by s a = Some r \<and> b \<in> owners_of s r}"

lemma sync_waiters_run: "present s r \<Longrightarrow> sync_waiters r s = Done (waiters_of s r) s"
  by (cases r) (auto simp: present_def waiters_of_def sync_waiters_def)

lemma IsOwnedBy_run: "present s r \<Longrightarrow> h \<noteq> 0 \<Longrightarrow> IsOwnedBy r h s = Done (h \<in> owners_of s r) s"
  by (cases r) (auto simp: present_def owners_of_def IsOwnedBy_def)

lemma scan_waiters_runs:
  assumes "\<forall>r \<in> set rs. present s r \<and> set (waiters_of s r) \<inter> owners_of s r = {} \<and> 0 \<notin> set (waiters_of s r)"
  shows "scan_waiters h rs s = Done (find (\<lambda>r. h \<in> set (waiters_of s r)) rs) s"
  using assms
proof (induction rs)
  case (Cons r rs)
  then have "h \<in> set (waiters_of s r) \<Longrightarrow> h \<noteq> 0 \<and> h \<notin> owners_of s r" by auto
  then show ?case using Cons by (auto simp: sync_waiters_run IsOwnedBy_run)
qed simp

lemma GetObjectWithWaiter_runs:
  fixes s :: "'z lhost_scheme"
  assumes "tracker_ok s"
  shows "GetObjectWithWaiter h s = Done (wanted_by s h) s"
  using assms scan_waiters_runs [of "all_primitives s" s h] by (simp add: GetObjectWithWaiter_def tracker_ok_def wanted_by_def)

lemma wanted_by_registered: "wanted_by s h = Some r \<Longrightarrow> r \<in> set (all_primitives s) \<and> h \<in> set (waiters_of s r)"
  by (auto simp: wanted_by_def find_Some_iff)

lemma sync_owners_runs:
  assumes "present s r" "finite (owners_of s r)" "lists_sets ord"
  shows "\<exists>ns. sync_owners ord r s = Done ns s \<and> set ns = owners_of s r"
  using assms by (cases r) (auto simp: sync_owners_def present_def owners_of_def lists_sets_def)

section \<open>Reachability\<close>

text \<open>The loop over the owners, when every search below it returns.\<close>

lemma first_path_runs:
  assumes "\<forall>n \<in> set ns. f n [] s = Done (B n, P n) s \<and> (\<not> B n \<longrightarrow> P n = [])"
  shows "\<exists>p. first_path f source ns [] s = Done (\<exists>n \<in> set ns. B n, p) s \<and>
     (if \<exists>n \<in> set ns. B n then \<exists>n \<in> set ns. B n \<and> p = source # P n else p = [])"
  using assms
proof (induction ns)
  case (Cons a ns)
  then show ?case by (cases "B a"; cases "\<exists>n \<in> set ns. B n") auto
qed simp

text \<open>With a rank that falls along every edge, except the ones out of \<open>destination\<close>, the search returns and decides
  whether \<open>destination\<close> can be reached; a path it finds is a chain of edges.\<close>

lemma FindDependencyPath_decides:
  fixes s :: "'z lhost_scheme"
  assumes ok: "tracker_ok s" "lists_sets ord"
    and rank: "\<And>a b. (a, b) \<in> waits_for s \<Longrightarrow> a \<noteq> destination \<Longrightarrow> rank b < (rank a :: nat)"
    and fuel: "rank source < fuel"
  shows "\<exists>p. FindDependencyPath ord fuel source destination [] s = Done ((source, destination) \<in> (waits_for s)\<^sup>*, p) s \<and>
     (if (source, destination) \<in> (waits_for s)\<^sup>*
      then p \<noteq> [] \<and> hd p = source \<and> last p = destination \<and> successively (\<lambda>a b. (a, b) \<in> waits_for s) p else p = [])"
  using fuel
proof (induction fuel arbitrary: source)
  case (Suc fuel)
  let ?R = "\<lambda>n. (n, destination) \<in> (waits_for s)\<^sup>*"
  show ?case
  proof (cases "source = destination \<or> wanted_by s source = None")
    case True
    moreover have "\<not> ?R source" if "wanted_by s source = None" "source \<noteq> destination"
      using that by (auto simp: waits_for_def elim: converse_rtranclE)
    ultimately show ?thesis using GetObjectWithWaiter_runs [OF ok(1)] by auto
  next
    case False
    then obtain r where r: "wanted_by s source = Some r" by blast
    then have reg: "present s r" "finite (owners_of s r)" using wanted_by_registered ok(1) by (auto simp: tracker_ok_def)
    obtain ns where ns: "sync_owners ord r s = Done ns s" "set ns = owners_of s r"
      using sync_owners_runs [OF reg ok(2)] by blast
    have edge: "(source, n) \<in> waits_for s \<longleftrightarrow> n \<in> set ns" for n using r ns(2) by (auto simp: waits_for_def)
    let ?f = "\<lambda>n. FindDependencyPath ord fuel n destination"
    have "\<exists>p. ?f n [] s = Done (?R n, p) s \<and> (if ?R n then p \<noteq> [] \<and> hd p = n \<and> last p = destination \<and>
        successively (\<lambda>a b. (a, b) \<in> waits_for s) p else p = [])" if "n \<in> set ns" for n
      using that Suc.prems rank [of source n] edge False by (intro Suc.IH) auto
    then obtain P where P: "\<And>n. n \<in> set ns \<Longrightarrow> ?f n [] s = Done (?R n, P n) s" "\<And>n. n \<in> set ns \<Longrightarrow> \<not> ?R n \<Longrightarrow> P n = []"
      "\<And>n. n \<in> set ns \<Longrightarrow> ?R n \<Longrightarrow> P n \<noteq> [] \<and> hd (P n) = n \<and> last (P n) = destination \<and> successively (\<lambda>a b. (a, b) \<in> waits_for s) (P n)"
      by metis
    obtain p where p: "first_path ?f source ns [] s = Done (\<exists>n \<in> set ns. ?R n, p) s"
      "if \<exists>n \<in> set ns. ?R n then \<exists>n \<in> set ns. ?R n \<and> p = source # P n else p = []"
      using first_path_runs [of ns ?f s ?R P source] P(1,2) by blast
    have reach: "?R source \<longleftrightarrow> (\<exists>n \<in> set ns. ?R n)"
      using False edge by (metis converse_rtrancl_into_rtrancl converse_rtranclE)
    have "FindDependencyPath ord (Suc fuel) source destination [] s = Done (?R source, p) s"
      using False r ns(1) p(1) reach GetObjectWithWaiter_runs [OF ok(1), of source] by simp
    moreover have "if ?R source then p \<noteq> [] \<and> hd p = source \<and> last p = destination \<and>
        successively (\<lambda>a b. (a, b) \<in> waits_for s) p else p = []"
    proof (cases "?R source")
      case True
      then obtain n where n: "n \<in> set ns" "?R n" "p = source # P n" using p(2) reach by (auto split: if_splits)
      then show ?thesis using True P(3) [OF n(1,2)] edge [of n] by (auto simp: successively_Cons)
    next
      case False
      then show ?thesis using p(2) reach by auto
    qed
    ultimately show ?thesis by blast
  qed
qed simp

text \<open>In a finite acyclic graph the number of reachable nodes falls along every edge.\<close>

lemma acyclic_rank:
  assumes "finite G" "acyclic G" "(a, b) \<in> G"
  shows "card (G\<^sup>+ `` {b}) < card (G\<^sup>+ `` {a})"
proof (rule psubset_card_mono)
  show "finite (G\<^sup>+ `` {a})" using assms(1) by (auto intro: finite_Image simp: finite_trancl)
  have "b \<in> G\<^sup>+ `` {a}" "b \<notin> G\<^sup>+ `` {b}" using assms(2,3) by (auto simp: acyclic_def)
  moreover have "G\<^sup>+ `` {b} \<subseteq> G\<^sup>+ `` {a}" using assms(3) by (auto intro: trancl_into_trancl2)
  ultimately show "G\<^sup>+ `` {b} \<subset> G\<^sup>+ `` {a}" by blast
qed

lemma rank_bound: "finite G \<Longrightarrow> card (G\<^sup>+ `` {a}) \<le> card (Range G)"
  by (intro card_mono) (auto simp: finite_Range dest: tranclD2)

text \<open>A cycle that appears when edges out of \<open>h\<close> are added goes through \<open>h\<close>.\<close>

lemma trancl_through:
  assumes "(a, b) \<in> (G \<union> {h} \<times> N)\<^sup>+"
  shows "(a, b) \<in> G\<^sup>+ \<or> (a, h) \<in> (G \<union> {h} \<times> N)\<^sup>* \<and> (\<exists>n \<in> N. (n, b) \<in> (G \<union> {h} \<times> N)\<^sup>*)"
  using assms
proof (induction rule: trancl_induct)
  case (step b c)
  show ?case
  proof (cases "(b, c) \<in> G")
    case True
    with step show ?thesis by (meson UnI1 rtrancl.rtrancl_into_rtrancl trancl.trancl_into_trancl)
  next
    case False
    with step have "b = h" "c \<in> N" by auto
    then show ?thesis using step(1) by (auto dest: trancl_into_rtrancl)
  qed
qed auto

lemma acyclic_through:
  assumes "acyclic G"
  shows "acyclic (G \<union> {h} \<times> N) \<longleftrightarrow> (\<forall>n \<in> N. (n, h) \<notin> (G \<union> {h} \<times> N)\<^sup>*)"
proof -
  have "(h, h) \<in> (G \<union> {h} \<times> N)\<^sup>+" if "n \<in> N" "(n, h) \<in> (G \<union> {h} \<times> N)\<^sup>*" for n
    using that by (auto intro: rtrancl_into_trancl2)
  moreover have "\<exists>n \<in> N. (n, h) \<in> (G \<union> {h} \<times> N)\<^sup>*" if "(x, x) \<in> (G \<union> {h} \<times> N)\<^sup>+" for x
    using trancl_through [OF that] assms by (auto simp: acyclic_def intro: rtrancl_trans)
  ultimately show ?thesis unfolding acyclic_def by blast
qed

section \<open>Adding a waiter\<close>

lemma find_eq_mem: "r \<in> set xs \<Longrightarrow> find (\<lambda>q. q = r) xs = Some r"
  by (induction xs) auto

lemma add_waiter_runs:
  fixes s :: "'z lhost_scheme"
  assumes "present s r" "current s \<noteq> 0" "current s \<notin> owners_of s r" "current s \<notin> set (waiters_of s r)"
  shows "\<exists>t. (case r of MutexRef m \<Rightarrow> mutex_AddWaiter m | RwRef l \<Rightarrow> rw_AddWaiter l) s = Done () t \<and>
     all_primitives t = all_primitives s \<and> current t = current s \<and> main_handle t = main_handle s \<and>
     (\<forall>q. present t q = present s q \<and> owners_of t q = owners_of s q \<and>
        waiters_of t q = (if q = r then waiters_of s r @ [current s] else waiters_of s q))"
proof (cases r)
  case (MutexRef m)
  with assms obtain v where v: "mutexes s m = Some v" "owner v \<noteq> current s" "current s \<notin> set (waiters v)"
    by (auto simp: present_def owners_of_def waiters_of_def)
  then show ?thesis using MutexRef
    by (simp add: mutex_AddWaiter_def remove1_idem present_def owners_of_def waiters_of_def split: sync_ref.split)
next
  case (RwRef l)
  with assms obtain v where v: "rwlocks s l = Some v" "current s \<notin> rw_owners v" "current s \<notin> set (rw_waiters v)"
    by (auto simp: present_def owners_of_def waiters_of_def)
  then show ?thesis using RwRef
    by (simp add: rw_AddWaiter_def remove1_idem present_def owners_of_def waiters_of_def split: sync_ref.split)
qed

lemma check_owners_runs:
  assumes "\<And>n. n \<in> set ns \<Longrightarrow> \<exists>p. FindDependencyPath ord fuel n h [] s = Done (B n, p) s \<and> (\<not> B n \<longrightarrow> p = [])"
  shows "check_owners ord fuel h ns [] s = (if \<exists>n \<in> set ns. B n then Stopped HostAbort else Done () s)"
  using assms
proof (induction ns)
  case (Cons a ns)
  from Cons.prems [of a] obtain p where "FindDependencyPath ord fuel a h [] s = Done (B a, p) s" "\<not> B a \<longrightarrow> p = []" by auto
  then show ?case using Cons by (cases "B a") (auto simp: HandleDeadlock_def)
qed simp

lemma finite_waits_for:
  assumes "tracker_ok s"
  shows "finite (waits_for s)"
proof (rule finite_subset)
  show "waits_for s \<subseteq> (\<Union>r \<in> set (all_primitives s). set (waiters_of s r) \<times> owners_of s r)"
    by (auto simp: waits_for_def dest: wanted_by_registered)
  show "finite (\<Union>r \<in> set (all_primitives s). set (waiters_of s r) \<times> owners_of s r)"
    using assms by (auto simp: tracker_ok_def)
qed

lemma waits_for_add:
  fixes s :: "'z lhost_scheme"
  assumes ok: "tracker_ok s" and reg: "r \<in> set (all_primitives s)"
    and idle: "\<forall>q \<in> set (all_primitives s). h \<notin> set (waiters_of s q)" and h: "h \<noteq> 0" "h \<notin> owners_of s r"
    and t: "all_primitives t = all_primitives s" "\<forall>q. present t q = present s q \<and> owners_of t q = owners_of s q \<and>
        waiters_of t q = (if q = r then waiters_of s r @ [h] else waiters_of s q)"
  shows "waits_for t = waits_for s \<union> {h} \<times> owners_of s r" and "tracker_ok t"
proof -
  have "wanted_by t a = wanted_by s a" if "a \<noteq> h" for a
    using that t by (auto simp: wanted_by_def intro: find_cong)
  moreover have "wanted_by t h = Some r"
  proof -
    have "wanted_by t h = find (\<lambda>q. q = r) (all_primitives s)"
      using t idle unfolding wanted_by_def by (intro find_cong) auto
    then show ?thesis using find_eq_mem [OF reg] by simp
  qed
  moreover have "wanted_by s h = None" using idle by (simp add: wanted_by_def find_None_iff)
  ultimately have "(a, b) \<in> waits_for t \<longleftrightarrow> (a, b) \<in> waits_for s \<union> {h} \<times> owners_of s r" for a b
    using t(2) by (cases "a = h") (auto simp: waits_for_def)
  then show "waits_for t = waits_for s \<union> {h} \<times> owners_of s r" by auto
  show "tracker_ok t" using ok t h by (auto simp: tracker_ok_def)
qed

section \<open>Properties\<close>

text \<open>C2. The search for deadlocks is exact on the objects the tracker knows. Take a state in which no chain of waiting threads is
  a cycle, and let the current thread, which is not the main thread and does not wait yet, start to wait for a tracked object
  it does not own. The thread is appended to the waiters; the new edges of the graph of who waits for whom go from this thread
  to the owners. With verbose checks, \<open>AddWaiter\<close> then aborts exactly when the new graph has a cycle, and returns
  otherwise: the search always ends, and the graph stays acyclic. A depth bound above the number of threads waited for is
  enough.\<close>

theorem DetectDeadlock_exact:
  fixes s :: "'z lhost_scheme"
  assumes ok: "tracker_ok s" "lists_sets ord" and acyc: "acyclic (waits_for s)"
    and cur: "current s \<noteq> 0" "current s \<noteq> main_handle s" "\<forall>q \<in> set (all_primitives s). current s \<notin> set (waiters_of s q)"
    and r: "r \<in> set (all_primitives s)" "current s \<notin> owners_of s r"
    and fuel: "card (Range (waits_for s)) < fuel"
  shows "\<exists>t. sync_AddWaiter ord False fuel r s = Done () t \<and> tracker_ok t \<and>
     waiters_of t r = waiters_of s r @ [current s] \<and> waits_for t = waits_for s \<union> {current s} \<times> owners_of s r \<and>
     sync_AddWaiter ord True fuel r s = (if acyclic (waits_for t) then Done () t else Stopped HostAbort)"
proof -
  have pres: "present s r" "finite (owners_of s r)" using ok(1) r(1) by (auto simp: tracker_ok_def)
  have "current s \<notin> set (waiters_of s r)" using cur(3) r(1) by blast
  from add_waiter_runs [OF pres(1) cur(1) r(2) this]
  obtain t where t: "(case r of MutexRef m \<Rightarrow> mutex_AddWaiter m | RwRef l \<Rightarrow> rw_AddWaiter l) s = Done () t"
    "all_primitives t = all_primitives s" "current t = current s" "main_handle t = main_handle s"
    "\<forall>q. present t q = present s q \<and> owners_of t q = owners_of s q \<and>
        waiters_of t q = (if q = r then waiters_of s r @ [current s] else waiters_of s q)" by blast
  note g = waits_for_add [OF ok(1) r(1) cur(3,1) r(2) t(2,5)]
  let ?G = "waits_for s" and ?h = "current s"
  let ?rank = "\<lambda>a. card (?G\<^sup>+ `` {a})"
  have fin: "finite ?G" using ok(1) by (rule finite_waits_for)
  obtain ns where ns: "sync_owners ord r t = Done ns t" "set ns = owners_of s r"
    using sync_owners_runs [of t r ord] pres t(5) ok(2) by auto
  have "\<exists>p. FindDependencyPath ord fuel n ?h [] t = Done ((n, ?h) \<in> (waits_for t)\<^sup>*, p) t \<and> ((n, ?h) \<notin> (waits_for t)\<^sup>* \<longrightarrow> p = [])" for n
  proof -
    have "?rank b < ?rank a" if "(a, b) \<in> waits_for t" "a \<noteq> ?h" for a b
      using that g(1) acyclic_rank [OF fin acyc] by auto
    moreover have "?rank n < fuel" using rank_bound [OF fin, of n] fuel by simp
    ultimately show ?thesis using FindDependencyPath_decides [OF g(2) ok(2), where rank = ?rank and source = n and fuel = fuel and destination = ?h]
      by (metis (mono_tags, lifting))
  qed
  then have "check_owners ord fuel ?h ns [] t = (if \<exists>n \<in> set ns. (n, ?h) \<in> (waits_for t)\<^sup>* then Stopped HostAbort else Done () t)"
    by (intro check_owners_runs) auto
  moreover have "acyclic (waits_for t) \<longleftrightarrow> (\<forall>n \<in> set ns. (n, ?h) \<notin> (waits_for t)\<^sup>*)"
    using acyclic_through [OF acyc, of ?h "owners_of s r"] by (simp add: g(1) ns(2))
  ultimately have "DetectDeadlock ord fuel r t = (if acyclic (waits_for t) then Done () t else Stopped HostAbort)"
    using ns(1) t(3,4) cur(2) by (simp add: DetectDeadlock_def GetMainThread_def)
  then show ?thesis using t(1,5) g by (intro exI [of _ t]) (simp add: sync_AddWaiter_def)
qed

text \<open>Thread 5 runs and holds mutex 40, for which thread 7 waits; thread 7 holds mutex 41.\<close>

definition dhost_example :: lhost where
  "dhost_example =
     lhost_example\<lparr>mutexes := [40 \<mapsto> \<lparr>owner = 5, waiters = [7]\<rparr>, 41 \<mapsto> \<lparr>owner = 7, waiters = []\<rparr>], rwlocks := Map.empty,
       all_primitives := [MutexRef 40, MutexRef 41]\<rparr>"

lemma dhost_example_ok:
  "tracker_ok dhost_example" "waits_for dhost_example = {(7, 5)}" "current dhost_example = 5" "main_handle dhost_example \<noteq> 5"
  "all_primitives dhost_example = [MutexRef 40, MutexRef 41]" "owners_of dhost_example (MutexRef 41) = {7}"
  "waiters_of dhost_example (MutexRef 40) = [7]" "waiters_of dhost_example (MutexRef 41) = []"
  by (auto simp: dhost_example_def lhost.defs lhost_example_def host_example_def host.defs tracker_ok_def present_def waiters_of_def
      owners_of_def waits_for_def wanted_by_def split: if_splits)

theorem DetectDeadlock_exact_witness:
  "sync_AddWaiter sorted_list_of_set True 2 (MutexRef 41) dhost_example = Stopped HostAbort"
proof -
  have "lists_sets sorted_list_of_set" by (simp add: lists_sets_def)
  moreover have "acyclic (waits_for dhost_example)" using dhost_example_ok(2) by (auto simp: acyclic_def trancl_insert)
  ultimately obtain t where t: "waits_for t = waits_for dhost_example \<union> {5} \<times> {7}"
    "sync_AddWaiter sorted_list_of_set True 2 (MutexRef 41) dhost_example = (if acyclic (waits_for t) then Done () t else Stopped HostAbort)"
    using DetectDeadlock_exact [OF dhost_example_ok(1), of sorted_list_of_set "MutexRef 41" 2] dhost_example_ok by auto
  have "(5, 7) \<in> waits_for t" "(7, 5) \<in> waits_for t" using t(1) dhost_example_ok(2) by auto
  then have "(5, 5) \<in> (waits_for t)\<^sup>+" by (meson trancl.simps)
  then have "\<not> acyclic (waits_for t)" by (auto simp: acyclic_def)
  then show ?thesis using t(2) by simp
qed

section \<open>Deadlocks through reader-writer locks\<close>

text \<open>\<open>LockExclusive\<close> of a lock without readers whose mutex is taken, up to its first call of \<open>Block\<close>: the thread leaves the waiters of
  the lock and enters those of the mutex, where the search for deadlocks runs when the checks are verbose.\<close>

definition LockExclusive_waits :: "(handle set \<Rightarrow> handle list) \<Rightarrow> bool \<Rightarrow> nat \<Rightarrow> ptr \<Rightarrow> (unit, 'z lhost_scheme) prog" where
  "LockExclusive_waits ord is_verbose fuel l =
     thenM (rw_RemoveWaiter l) (bindM (rw_get l) (\<lambda>v. sync_AddWaiter ord is_verbose fuel (MutexRef (rw_mutex v))))"

lemma LockExclusive_waits_segment:
  assumes "rw_view l s = Some (m, h, {})" "h \<noteq> 0"
  shows "rw_call OpLockExclusive l s = thenM (LockExclusive_waits ord False fuel l) (retM (InMutex ToWrite m)) s"
proof -
  from assms obtain v x where v: "rwlocks s l = Some v" "mutexes s m = Some x" "rw_mutex v = m" "owner x \<noteq> 0" "rw_owners v = {}"
    by (auto simp: rw_view_eq)
  then show ?thesis
    by (simp add: LockExclusive_waits_def rw_enter_def mutex_try_def sync_AddWaiter_def rw_RemoveWaiter_def split: outcome.split)
qed

definition on_thread :: "handle \<Rightarrow> ('a, 'z lhost_scheme) prog \<Rightarrow> ('a, 'z lhost_scheme) prog" where
  "on_thread h p = thenM (modifyM (\<lambda>s. s\<lparr>current := h\<rparr>)) p"

text \<open>Two new locks; each of two threads takes one of them exclusively and then asks for the other.\<close>

definition rw_cross ::
  "('z lhost_ext) xnu_thread \<Rightarrow> (handle set \<Rightarrow> handle list) \<Rightarrow> nat \<Rightarrow> handle \<Rightarrow> handle \<Rightarrow> (ptr \<times> ptr, 'z lhost_scheme) prog" where
  "rw_cross xnu ord fuel a b =
     bindM AllocateRwLock (\<lambda>k. bindM AllocateRwLock (\<lambda>l.
       thenM (on_thread a (LockExclusive xnu 0 k))
      (thenM (on_thread b (LockExclusive xnu 0 l))
      (thenM (on_thread b (LockExclusive_waits ord True fuel k))
      (thenM (on_thread a (LockExclusive_waits ord True fuel l)) (retM (k, l)))))))"

lemma LockExclusive_waits_run:
  assumes "rwlocks s l = Some \<lparr>rw_mutex = m, rw_owners = {}, rw_waiters = []\<rparr>"
  shows "LockExclusive_waits ord is_verbose fuel l s = sync_AddWaiter ord is_verbose fuel (MutexRef m) s"
proof -
  have "s\<lparr>rwlocks := (rwlocks s)(l \<mapsto> \<lparr>rw_mutex = m, rw_owners = {}, rw_waiters = []\<rparr>)\<rparr> = s"
    using assms by (simp add: fun_upd_idem)
  then show ?thesis using assms by (simp add: LockExclusive_waits_def rw_RemoveWaiter_def)
qed

lemma wait_unseen:
  fixes s :: "'z lhost_scheme"
  assumes ok: "tracker_ok s" "2 \<le> fuel" and cur: "current s = a" "a \<noteq> 0" "a \<noteq> main_handle s"
    and m: "mutexes s n = Some \<lparr>owner = b, waiters = []\<rparr>" "b \<noteq> 0" "b \<noteq> a" "MutexRef n \<notin> set (all_primitives s)"
    and idle: "wanted_by s b = None"
  defines "t \<equiv> s\<lparr>mutexes := (mutexes s)(n \<mapsto> \<lparr>owner = b, waiters = [a]\<rparr>)\<rparr>"
  shows "sync_AddWaiter ord True fuel (MutexRef n) s = Done () t" "tracker_ok t" "\<And>h. wanted_by t h = wanted_by s h"
proof -
  have add: "mutex_AddWaiter n s = Done () t" using cur m by (simp add: mutex_AddWaiter_def t_def)
  have same: "present t q = present s q \<and> waiters_of t q = waiters_of s q \<and> owners_of t q = owners_of s q"
    if "q \<in> set (all_primitives s)" for q
  proof (cases q)
    case (MutexRef k)
    then have "k \<noteq> n" using that m(4) by blast
    then show ?thesis using MutexRef by (simp add: t_def present_def waiters_of_def owners_of_def)
  qed (simp add: t_def present_def waiters_of_def owners_of_def)
  have prims: "all_primitives t = all_primitives s" by (simp add: t_def)
  show ok': "tracker_ok t" using ok same by (simp add: tracker_ok_def prims)
  show w: "wanted_by t h = wanted_by s h" for h using same by (auto simp: wanted_by_def prims intro!: find_cong)
  obtain f where f: "fuel = Suc (Suc f)" using ok(2) by (metis add_2_eq_Suc le_Suc_ex)
  have "FindDependencyPath ord fuel b a [] t = Done (False, []) t"
    using GetObjectWithWaiter_runs [OF ok', of b] w [of b] idle m(3) by (simp add: f)
  then have "DetectDeadlock ord fuel (MutexRef n) t = Done () t"
    using cur m by (simp add: DetectDeadlock_def GetMainThread_def sync_owners_def t_def del: FindDependencyPath.simps)
  then show "sync_AddWaiter ord True fuel (MutexRef n) s = Done () t" using add by (simp add: sync_AddWaiter_def)
qed

text \<open>The state after the four calls that succeed at once.\<close>

definition rw_crossed :: "ptr \<Rightarrow> ptr \<Rightarrow> ptr \<Rightarrow> ptr \<Rightarrow> handle \<Rightarrow> handle \<Rightarrow> 'z lhost_scheme \<Rightarrow> 'z lhost_scheme" where
  "rw_crossed m k n l a b s = s\<lparr>new_syncs := drop 4 (new_syncs s),
     mutexes := (mutexes s)(m \<mapsto> \<lparr>owner = a, waiters = []\<rparr>, n \<mapsto> \<lparr>owner = b, waiters = []\<rparr>),
     rwlocks := (rwlocks s)(k \<mapsto> \<lparr>rw_mutex = m, rw_owners = {}, rw_waiters = []\<rparr>, l \<mapsto> \<lparr>rw_mutex = n, rw_owners = {}, rw_waiters = []\<rparr>),
     all_primitives := all_primitives s @ [RwRef k, RwRef l],
     session_tracked := session_tracked s \<union> (if debug_build s then {RwRef k} else {}) \<union> (if debug_build s then {RwRef l} else {}), current := b\<rparr>"

lemma LockExclusive_free:
  assumes "rwlocks s l = Some \<lparr>rw_mutex = m, rw_owners = {}, rw_waiters = []\<rparr>" "mutexes s m = Some \<lparr>owner = 0, waiters = []\<rparr>"
  shows "LockExclusive xnu 0 l s = Done () (s\<lparr>mutexes := (mutexes s)(m \<mapsto> \<lparr>owner = current s, waiters = []\<rparr>)\<rparr>)"
proof -
  have "s\<lparr>rwlocks := (rwlocks s)(l \<mapsto> \<lparr>rw_mutex = m, rw_owners = {}, rw_waiters = []\<rparr>)\<rparr> = s"
    using assms(1) by (simp add: fun_upd_idem)
  then show ?thesis using assms
    by (simp add: LockExclusive_def rw_wait_readers.simps rw_RemoveWaiter_def mutex_Lock.simps mutex_acquire_def mutex_RemoveWaiter_def)
qed

lemma rw_crossed_runs:
  fixes s :: "'z lhost_scheme"
  assumes "new_syncs s = m # k # n # l # rest" "m \<noteq> n" "k \<noteq> l"
  shows "rw_cross xnu ord fuel a b s =
      thenM (on_thread b (LockExclusive_waits ord True fuel k))
        (thenM (on_thread a (LockExclusive_waits ord True fuel l)) (retM (k, l))) (rw_crossed m k n l a b s)"
proof -
  let ?lock = "\<lambda>m. \<lparr>rw_mutex = m, rw_owners = {}, rw_waiters = []\<rparr>" and ?free = "\<lparr>owner = 0, waiters = []\<rparr>"
  let ?tr = "\<lambda>r. if debug_build s then {r} else {}"
  define s1 where "s1 = s\<lparr>new_syncs := n # l # rest, mutexes := (mutexes s)(m \<mapsto> ?free), rwlocks := (rwlocks s)(k \<mapsto> ?lock m),
    all_primitives := all_primitives s @ [RwRef k], session_tracked := session_tracked s \<union> ?tr (RwRef k)\<rparr>"
  define s2 where "s2 = s\<lparr>new_syncs := rest, mutexes := (mutexes s)(m \<mapsto> ?free, n \<mapsto> ?free), rwlocks := (rwlocks s)(k \<mapsto> ?lock m, l \<mapsto> ?lock n),
    all_primitives := all_primitives s @ [RwRef k, RwRef l], session_tracked := session_tracked s \<union> ?tr (RwRef k) \<union> ?tr (RwRef l)\<rparr>"
  have 1: "AllocateRwLock s = Done k s1" using assms(1) by (simp add: allocate_defs s1_def)
  have 2: "AllocateRwLock s1 = Done l s2" by (simp add: allocate_defs s1_def s2_def)
  define s3 where "s3 = s2\<lparr>current := a, mutexes := (mutexes s2)(m \<mapsto> \<lparr>owner = a, waiters = []\<rparr>)\<rparr>"
  have 3: "on_thread a (LockExclusive xnu 0 k) s2 = Done () s3"
    using LockExclusive_free [of "s2\<lparr>current := a\<rparr>" k m xnu] assms(2,3) by (simp add: on_thread_def s2_def s3_def)
  have 4: "on_thread b (LockExclusive xnu 0 l) s3 = Done () (rw_crossed m k n l a b s)"
    using LockExclusive_free [of "s3\<lparr>current := b\<rparr>" l n xnu] assms(1-3)
    by (simp add: on_thread_def s2_def s3_def rw_crossed_def fun_upd_twist)
  show ?thesis by (simp add: rw_cross_def 1 2 3 4)
qed

lemma find_Some_append: "find P xs = Some r \<Longrightarrow> find P (xs @ ys) = Some r"
  by (induction xs) (auto split: if_splits)

lemma rw_crossed_tracker:
  fixes s :: "'z lhost_scheme"
  assumes "tracker_ok s" "m \<noteq> n" "k \<noteq> l"
    and fresh: "MutexRef m \<notin> set (all_primitives s)" "MutexRef n \<notin> set (all_primitives s)"
      "RwRef k \<notin> set (all_primitives s)" "RwRef l \<notin> set (all_primitives s)"
  shows "tracker_ok (rw_crossed m k n l a b s)" "wanted_by (rw_crossed m k n l a b s) h = wanted_by s h"
proof -
  let ?t = "rw_crossed m k n l a b s"
  have same: "present ?t q = present s q \<and> waiters_of ?t q = waiters_of s q \<and> owners_of ?t q = owners_of s q"
    if "q \<in> set (all_primitives s)" for q
  proof (cases q)
    case (MutexRef x)
    then have "x \<noteq> m" "x \<noteq> n" using that fresh by blast+
    then show ?thesis using MutexRef by (simp add: rw_crossed_def present_def waiters_of_def owners_of_def)
  next
    case (RwRef x)
    then have "x \<noteq> k" "x \<noteq> l" using that fresh by blast+
    then show ?thesis using RwRef by (simp add: rw_crossed_def present_def waiters_of_def owners_of_def)
  qed
  have new: "present ?t q \<and> waiters_of ?t q = [] \<and> owners_of ?t q = {}" if "q \<in> {RwRef k, RwRef l}" for q
    using that assms(3) by (auto simp: rw_crossed_def present_def waiters_of_def owners_of_def)
  have prims: "all_primitives ?t = all_primitives s @ [RwRef k, RwRef l]" by (simp add: rw_crossed_def)
  show "tracker_ok ?t" using assms(1) same new unfolding tracker_ok_def prims by auto
  have "wanted_by ?t h = find (\<lambda>r. h \<in> set (waiters_of s r)) (all_primitives s)"
  proof (cases "find (\<lambda>r. h \<in> set (waiters_of s r)) (all_primitives s)")
    case None
    then have "wanted_by ?t h = None" using same new by (auto simp: wanted_by_def prims find_None_iff)
    with None show ?thesis by simp
  next
    case (Some r)
    then have "find (\<lambda>r. h \<in> set (waiters_of ?t r)) (all_primitives s) = Some r"
      using same by (subst find_cong [OF refl, of _ _ "\<lambda>r. h \<in> set (waiters_of s r)"]) auto
    then show ?thesis using Some find_Some_append by (simp add: wanted_by_def prims)
  qed
  then show "wanted_by ?t h = wanted_by s h" by (simp add: wanted_by_def)
qed

text \<open>C37. The search does not see the mutex inside a reader-writer lock, which the tracker does not list. Two threads allocate two locks
  by \<open>AllocateRwLock\<close>, take one each by \<open>LockExclusive\<close>, and then each asks for the lock of the other, with verbose
  checks. Both start to wait and neither request aborts: in the state that is reached each thread owns the mutex that the other waits
  for, and the deadlock is not reported. Nothing is assumed but that the two threads wait for nothing before and that the new
  objects get addresses the tracker does not list.\<close>

theorem rwlock_deadlock_missed:
  fixes s :: "'z lhost_scheme"
  assumes "tracker_ok s" and "2 \<le> fuel" and "new_syncs s = m # k # n # l # rest" and "m \<noteq> n" and "k \<noteq> l"
    and "{MutexRef m, MutexRef n, RwRef k, RwRef l} \<inter> set (all_primitives s) = {}"
    and "a \<noteq> 0" and "b \<noteq> 0" and "a \<noteq> b" and "a \<noteq> main_handle s" and "b \<noteq> main_handle s"
    and "wanted_by s a = None" and "wanted_by s b = None"
  shows "\<exists>t. rw_cross xnu ord fuel a b s = Done (k, l) t \<and> rw_view k t = Some (m, a, {}) \<and> rw_view l t = Some (n, b, {}) \<and>
     waiters_of t (MutexRef m) = [b] \<and> waiters_of t (MutexRef n) = [a]"
proof -
  define s4 where "s4 = rw_crossed m k n l a b s"
  have fresh: "MutexRef m \<notin> set (all_primitives s)" "MutexRef n \<notin> set (all_primitives s)"
      "RwRef k \<notin> set (all_primitives s)" "RwRef l \<notin> set (all_primitives s)" using assms(6) by auto
  note tr = rw_crossed_tracker [OF assms(1,4,5) fresh, where a = a and b = b]
  let ?lock = "\<lambda>m. \<lparr>rw_mutex = m, rw_owners = {}, rw_waiters = []\<rparr>"
  have f: "current s4 = b" "main_handle s4 = main_handle s" "mutexes s4 m = Some \<lparr>owner = a, waiters = []\<rparr>"
    "mutexes s4 n = Some \<lparr>owner = b, waiters = []\<rparr>" "rwlocks s4 k = Some (?lock m)" "rwlocks s4 l = Some (?lock n)"
    "MutexRef m \<notin> set (all_primitives s4)" "MutexRef n \<notin> set (all_primitives s4)"
    using assms(4,5) fresh by (simp_all add: s4_def rw_crossed_def)
  define s5 where "s5 = s4\<lparr>mutexes := (mutexes s4)(m \<mapsto> \<lparr>owner = a, waiters = [b]\<rparr>)\<rparr>"
  have 5: "sync_AddWaiter ord True fuel (MutexRef m) s4 = Done () s5" "tracker_ok s5" "\<And>h. wanted_by s5 h = wanted_by s h"
    unfolding s5_def using wait_unseen(1) [of s4 fuel b m a ord] wait_unseen(2,3) [of s4 fuel b m a] tr f assms(2,7-12)
    by (simp_all add: s4_def)
  define s6 where "s6 = s5\<lparr>current := a, mutexes := (mutexes s5)(n \<mapsto> \<lparr>owner = b, waiters = [a]\<rparr>)\<rparr>"
  have cur: "tracker_ok (s5\<lparr>current := a\<rparr>)" "wanted_by (s5\<lparr>current := a\<rparr>) b = None"
    using 5(2,3) assms(13) by (simp_all add: tracker_ok_def wanted_by_def present_def waiters_of_def owners_of_def cong: sync_ref.case_cong)
  have 6: "sync_AddWaiter ord True fuel (MutexRef n) (s5\<lparr>current := a\<rparr>) = Done () s6"
    using wait_unseen(1) [OF cur(1) assms(2), of a n b ord] cur f assms(4,7-10) by (simp add: s5_def s6_def)
  have "s4\<lparr>current := b\<rparr> = s4" using f(1) by auto
  then have 7: "on_thread b (LockExclusive_waits ord True fuel k) s4 = Done () s5"
    using 5(1) LockExclusive_waits_run [OF f(5)] by (simp add: on_thread_def)
  have 8: "on_thread a (LockExclusive_waits ord True fuel l) s5 = Done () s6"
    using 6 LockExclusive_waits_run [of "s5\<lparr>current := a\<rparr>" l n] f(6) by (simp add: on_thread_def s5_def)
  have "rw_cross xnu ord fuel a b s = Done (k, l) s6"
    using rw_crossed_runs [OF assms(3-5), of xnu ord fuel a b] 7 8 by (simp add: s4_def)
  moreover have "rw_view k s6 = Some (m, a, {})" "rw_view l s6 = Some (n, b, {})" "waiters_of s6 (MutexRef m) = [b]"
    "waiters_of s6 (MutexRef n) = [a]"
    using f assms(4) by (simp_all add: s5_def s6_def rw_view_eq waiters_of_def)
  ultimately show ?thesis by blast
qed

theorem rwlock_deadlock_missed_witness:
  "\<exists>t. rw_cross (xnu_idle (\<lambda>_. retM ())) sorted_list_of_set 2 5 9 (dhost_example\<lparr>new_syncs := [60, 61, 62, 63]\<rparr>) = Done (61, 63) t \<and>
     rw_view 61 t = Some (60, 5, {}) \<and> rw_view 63 t = Some (62, 9, {}) \<and>
     waiters_of t (MutexRef 60) = [9] \<and> waiters_of t (MutexRef 62) = [5]"
proof -
  let ?s = "dhost_example\<lparr>new_syncs := [60, 61, 62, 63]\<rparr>"
  have "main_handle ?s = 1" "all_primitives ?s = [MutexRef 40, MutexRef 41]" "tracker_ok ?s" "wanted_by ?s 5 = None" "wanted_by ?s 9 = None"
    by (auto simp: dhost_example_def lhost.defs lhost_example_def host_example_def host.defs tracker_ok_def present_def waiters_of_def
      owners_of_def wanted_by_def)
  then show ?thesis by (intro rwlock_deadlock_missed [where rest = "[]"]) simp_all
qed

end
