(* ===== verification/Session.thy ===== *)
theory Session
  imports Command Deadlock
begin

text \<open>
  A test case from its message to the end of its last thread: the names of threads and \<open>RunUntilEmpty\<close> of
  \<open>fuzz/host/host.cc\<close>, the rest of \<open>fuzzed_scheduler.cc\<close>, the body of a coroutine in \<open>coroutine_executor.cc\<close>,
  \<open>CommandThread\<close> of \<open>fuzz/handlers/command_thread.cc\<close>, \<open>HandleSession\<close> of \<open>fuzz/handlers/session.cc\<close> and
  \<open>InitializeHost\<close>.

  \<open>RunUntilEmpty\<close> switches to one thread after the other until none is runnable and need not end; its model has a bound on
  the number of switches. What happens between two switches is the parameter \<open>co_switch\<close> of \<open>xnu\<close>. The property says when
  the loop ends and how many switches are enough; the last section puts the parts of a session together for a guest that stays within a
  bound of work fixed in advance.
\<close>

section \<open>Names of threads\<close>

record sstate = cstate +
  readable_ids :: "handle \<rightharpoonup> u32"
  names :: "handle \<rightharpoonup> string"
  next_thread_id :: u32

text \<open>The conversion \<open>%d\<close> of an unsigned number.\<close>

fun dec_digits :: "nat \<Rightarrow> string" where
  "dec_digits n = (if n < 10 then [''0123456789'' ! n] else dec_digits (n div 10) @ [''0123456789'' ! (n mod 10)])"

declare dec_digits.simps [simp del]

definition GetId :: "handle \<Rightarrow> (u32, 'z sstate_scheme) prog" where
  "GetId handle = bindM (getsM (\<lambda>s. readable_ids s handle)) (\<lambda>it. case it of
     None \<Rightarrow> bindM (getsM next_thread_id) (\<lambda>tid.
       thenM (modifyM (\<lambda>s. s\<lparr>next_thread_id := tid + 1, readable_ids := (readable_ids s)(handle \<mapsto> tid)\<rparr>)) (retM tid))
   | Some tid \<Rightarrow> retM tid)"

definition SetId :: "thread_t \<Rightarrow> u32 \<Rightarrow> (unit, 'z sstate_scheme) prog" where
  "SetId th tid = bindM (getsM (ThreadTToHandle th)) (\<lambda>handle. modifyM (\<lambda>s.
     s\<lparr>readable_ids := (readable_ids s)(handle \<mapsto> tid),
       names := (case names s handle of None \<Rightarrow> (names s)(handle \<mapsto> ''user'' @ dec_digits (unat tid)) | Some _ \<Rightarrow> names s)\<rparr>))"

definition SetThreadName ::
  "(thread_t \<Rightarrow> string \<Rightarrow> (unit, 'z sstate_scheme) prog) \<Rightarrow> thread_t \<Rightarrow> string \<Rightarrow> (unit, 'z sstate_scheme) prog" where
  "SetThreadName thread_set_thread_name th name = bindM (getsM (ThreadTToHandle th)) (\<lambda>handle.
     thenM (thread_set_thread_name th name) (modifyM (\<lambda>s. s\<lparr>names := (names s)(handle \<mapsto> name)\<rparr>)))"

definition DescribeThreadHandle :: "handle \<Rightarrow> (string, 'z sstate_scheme) prog" where
  "DescribeThreadHandle handle = bindM (getsM (\<lambda>s. names s handle)) (\<lambda>it. case it of
     Some name \<Rightarrow> retM name
   | None \<Rightarrow> bindM (GetId handle) (\<lambda>tid. retM (''kernel'' @ dec_digits (unat tid))))"

text \<open>The executor has no description of its own.\<close>

definition executor_DescribeThreadHandle :: "handle \<Rightarrow> string" where
  "executor_DescribeThreadHandle handle = []"

definition sDescribeThreadHandle :: "handle \<Rightarrow> (string, 'z sstate_scheme) prog" where
  "sDescribeThreadHandle handle = bindM (DescribeThreadHandle handle) (\<lambda>host_description.
     let executor_description = executor_DescribeThreadHandle handle in
     if executor_description = [] then retM host_description
     else retM (host_description @ ''/'' @ executor_description))"

section \<open>The rest of the scheduler\<close>

text \<open>\<open>srand\<close> chooses the sequence of numbers of \<open>rand\<close>.\<close>

definition SetRandSeed :: "(u32 \<Rightarrow> nat list) \<Rightarrow> u32 \<Rightarrow> (unit, 'z sched_scheme) prog" where
  "SetRandSeed srand rand_seed = modifyM (\<lambda>s. s\<lparr>rands := srand rand_seed\<rparr>)"

definition SetThreadChoices :: "fuzz \<Rightarrow> (unit, 'z sched_scheme) prog" where
  "SetThreadChoices dp = modifyM (\<lambda>s. s\<lparr>thread_choices := dp\<rparr>)"

definition NumLiveThreads :: "'z sched_scheme \<Rightarrow> nat" where
  "NumLiveThreads s = card (live_set s)"

definition NumRunnableThreads :: "'z sched_scheme \<Rightarrow> nat" where
  "NumRunnableThreads s = length (runnable s)"

definition ResetBytesNeeded :: "(unit, 'z sched_scheme) prog" where
  "ResetBytesNeeded = modifyM (\<lambda>s. s\<lparr>bytes_needed := 0\<rparr>)"

definition BytesNeeded :: "'z sched_scheme \<Rightarrow> u64" where
  "BytesNeeded s = bytes_needed s"

definition RandomDataRemaining :: "'z sched_scheme \<Rightarrow> nat" where
  "RandomDataRemaining s = (case thread_choices s of None \<Rightarrow> 0 | Some d \<Rightarrow> remaining_bytes d)"

definition sYield :: "'z xnu_thread \<Rightarrow> (unit, 'z host_scheme) prog" where
  "sYield xnu = bindM (getsM (\<lambda>s. current s = main_handle s \<or> \<not> interrupts_enabled s \<or> runnable s = [])) (\<lambda>stay.
     if stay then retM () else thenM (\<lambda>s. MakeRunnable (current s) s) (sBlock xnu))"

primrec srun_loop :: "'z xnu_thread \<Rightarrow> nat \<Rightarrow> (unit, 'z host_scheme) prog" where
  "srun_loop xnu 0 = bindM (getsM runnable) (\<lambda>r. if r \<noteq> [] then stopM Diverge else retM ())"
| "srun_loop xnu (Suc fuel) = bindM (getsM runnable) (\<lambda>r.
     if r \<noteq> [] then bindM (GetRandomRunnableHandle False) (\<lambda>handle. thenM (sSwitchTo xnu handle) (srun_loop xnu fuel))
     else retM ())"

definition sRunUntilEmpty :: "'z xnu_thread \<Rightarrow> nat \<Rightarrow> (bool, 'z host_scheme) prog" where
  "sRunUntilEmpty xnu fuel = bindM (getsM runnable) (\<lambda>r.
     if r = [] then retM False else thenM (srun_loop xnu fuel) (thenM CleanupDeadThreads (retM True)))"

section \<open>Running threads\<close>

primrec RunUntilEmpty :: "'z xnu_thread \<Rightarrow> nat \<Rightarrow> (unit, 'z host_scheme) prog" where
  "RunUntilEmpty xnu 0 = bindM (ChooseThread False) (\<lambda>handle. if handle \<noteq> 0 then stopM Diverge else CleanupDeadThreads)"
| "RunUntilEmpty xnu (Suc fuel) = bindM (ChooseThread False) (\<lambda>handle.
     if handle \<noteq> 0 then thenM (SwitchTo xnu handle) (RunUntilEmpty xnu fuel) else CleanupDeadThreads)"

text \<open>A coroutine from its first switch to its end, for a map of the functions that wait for their threads. Switching back
  to the main thread is the end of the program.\<close>

definition CallPendingFunctionThenSwap ::
  "(handle \<rightharpoonup> (unit, 'z host_scheme) prog) \<Rightarrow> handle \<Rightarrow> (unit, 'z host_scheme) prog" where
  "CallPendingFunctionThenSwap pending_functions active =
     thenM (modifyM (\<lambda>s. s\<lparr>current := active\<rparr>))
    (bindM GetMainThread (\<lambda>main. if active = main then abortM
     else case pending_functions active of
        None \<Rightarrow> abortM
      | Some pending_function \<Rightarrow> thenM pending_function (sThreadDestroyed active)))"

section \<open>Commands and sessions\<close>

text \<open>A thread of the test case. Behind \<open>ThreadFinished\<close> is \<open>__builtin_unreachable\<close>.\<close>

definition CommandThread ::
  "('r, 'b, 'z) handler \<Rightarrow> ('z cstate_ext bstate_ext tstate_ext shost_ext) xnu_machine \<Rightarrow> ('r, 'b) Command list \<Rightarrow>
     (unit, 'z cstate_scheme) prog" where
  "CommandThread hnd xm commands =
     thenM (forM commands (HandleCommand hnd)) (thenM (ThreadFinished (h_xnu hnd) xm) (stopM MemFault))"

text \<open>The parts of the message of a session that the host itself reads, and what the session calls outside of the sources.\<close>

record Session =
  rand_seed :: u32
  thread_choices_bytes :: "u8 list"
  xnu_data_provider :: "u8 list"

record 'z session_env =
  s_xnu :: "('z cstate_ext bstate_ext tstate_ext shost_ext lhost_ext) xnu_thread"
  s_task :: "('z cstate_ext bstate_ext) xnu_task"
  s_bsd :: "('z cstate_ext) xnu_bsd"
  provider :: "u8 list \<Rightarrow> fdp"
  srand :: "u32 \<Rightarrow> nat list"
  thread_deallocate :: "thread_t \<Rightarrow> (unit, 'z cstate_scheme) prog"
  CommandThread_at :: ptr
  commands_at :: "nat \<Rightarrow> ptr"
  switches :: nat
  reaps :: nat

definition session_thread :: "('z sstate_ext) session_env \<Rightarrow> nat \<Rightarrow> thread_t \<Rightarrow> (unit, 'z sstate_scheme) prog" where
  "session_thread se i th =
     (if th = 0 then abortM
      else thenM (SetContinuation th (CommandThread_at se) (commands_at se i)) (SetId th (of_nat i)))"

definition session_setup :: "('z sstate_ext) session_env \<Rightarrow> (thread_t list \<times> ptr list, 'z sstate_scheme) prog" where
  "session_setup se =
     thenM BeginSession
    (bindM (SetInterruptsEnabled True) (\<lambda>_.
     thenM (modifyM (\<lambda>s. s\<lparr>ready_for_preemption := False\<rparr>))
    (bindM (CloneTaskFromInit (s_bsd se) (s_task se)) (\<lambda>thread1.
     bindM (GetTaskFromThread thread1) (\<lambda>task.
     thenM (session_thread se 1 thread1)
    (bindM (CreateWaitingThread (s_task se) task) (\<lambda>thread2.
     thenM (session_thread se 2 thread2)
    (bindM (CloneTaskFromInit (s_bsd se) (s_task se)) (\<lambda>thread3.
     bindM (GetTaskFromThread thread3) (\<lambda>task2.
     thenM (session_thread se 3 thread3)
       (retM ([thread1, thread2, thread3], [task, task2]))))))))))))"

definition session_run :: "('z sstate_ext) session_env \<Rightarrow> Session \<Rightarrow> ptr list \<Rightarrow> (unit, 'z sstate_scheme) prog" where
  "session_run se session tasks =
     thenM (forM tasks (ClearTaskWait (s_task se)))
    (thenM (modifyM (\<lambda>s. s\<lparr>mfuzz := Some (provider se (xnu_data_provider session))\<rparr>))
    (thenM (SetRandSeed (srand se) (rand_seed session))
    (thenM (SetThreadChoices (Some (provider se (thread_choices_bytes session))))
    (thenM (modifyM (\<lambda>s. s\<lparr>ready_for_preemption := True\<rparr>))
       (RunUntilEmpty (s_xnu se) (switches se))))))"

text \<open>\<open>XNUReapInitChildren\<close> is called as long as it answers true.\<close>

primrec reap_all :: "('z sstate_ext) session_env \<Rightarrow> nat \<Rightarrow> (unit, 'z sstate_scheme) prog" where
  "reap_all se 0 = stopM Diverge"
| "reap_all se (Suc n) = bindM (XNUReapInitChildren (s_bsd se) (reaps se)) (\<lambda>more. if more then reap_all se n else retM ())"

definition session_end :: "('z sstate_ext) session_env \<Rightarrow> thread_t list \<Rightarrow> (unit, 'z sstate_scheme) prog" where
  "session_end se ths =
     thenM (forM ths (\<lambda>th. thenM (XNUThreadAbort (s_xnu se) th) (RunUntilEmpty (s_xnu se) (switches se))))
    (thenM (forM ths (thread_deallocate se))
    (thenM (RunUntilEmpty (s_xnu se) (switches se))
    (bindM (SetInterruptsEnabled False) (\<lambda>_.
     bindM (KillAllNonInitProcs (s_bsd se)) (\<lambda>_.
     thenM (reap_all se 1)
    (thenM (RunUntilEmpty (s_xnu se) (switches se))
    (thenM (modifyM (\<lambda>s. s\<lparr>mfuzz := None\<rparr>)) ReportSession)))))))"

definition HandleSession :: "('z sstate_ext) session_env \<Rightarrow> Session \<Rightarrow> (unit, 'z sstate_scheme) prog" where
  "HandleSession se session =
     bindM (session_setup se) (\<lambda>(ths, tasks). thenM (session_run se session tasks) (session_end se ths))"

text \<open>The constructors of the executor, the scheduler, the trackers and the host, and the start of the guest. The coroutine
  that runs them is the main one. The check compares the main thread with the current one.\<close>

definition new_Host :: "(u32 \<Rightarrow> nat list) \<Rightarrow> 'z sstate_scheme \<Rightarrow> 'z sstate_scheme" where
  "new_Host srand_seq s = s\<lparr>runnable := [], live_set := {}, pending_deletion := {}, mapped_stacks := {}, thread_choices := None,
     rands := srand_seq 0, interrupts_enabled := True, bytes_needed := 0, internal_to_handle := Map.empty,
     handle_to_internal := Map.empty, suspended := {}, suspended_runnable := {}, terminating := {}, waiting := {},
     wait_report := {}, uninterruptible := {}, enqueued_for_termination := {}, wait_results := Map.empty,
     continuations := Map.empty, saved_kernel_entry := {}, copyin_blocked := (\<lambda>_. 0),
     current := main_handle s, live_locks := {}, invalidated_locks := {}, all_primitives := [], session_tracked := {}, readable_ids := Map.empty,
     names := Map.empty, next_thread_id := 7\<rparr>"

definition InitializeHost :: "('z sstate_ext) session_env \<Rightarrow> (unit, 'z sstate_scheme) prog" where
  "InitializeHost se =
     thenM (modifyM (new_Host (srand se)))
    (thenM (modifyM (\<lambda>s. s\<lparr>mfuzz := Some (provider se [])\<rparr>))
    (thenM (SetThreadChoices (Some (provider se [])))
    (thenM (SetRandSeed (srand se) 0)
    (bindM (SetInterruptsEnabled False) (\<lambda>_.
     bindM (initialize_kernel (s_bsd se)) (\<lambda>_.
     bindM (getsM (\<lambda>s. main_thread s = GetCurrentThreadT s)) (\<lambda>same.
       if \<not> same then abortM
       else thenM (RunUntilEmpty (s_xnu se) (switches se)) (modifyM (\<lambda>s. s\<lparr>mfuzz := None\<rparr>)))))))))"

section \<open>When the loop ends\<close>

text \<open>Choosing a thread touches four fields of the scheduler.\<close>

definition chose :: "'z sched_scheme \<Rightarrow> 'z sched_scheme \<Rightarrow> bool" where
  "chose s t \<longleftrightarrow> (\<exists>r c x b. t = s\<lparr>runnable := r, thread_choices := c, rands := x, bytes_needed := b\<rparr>)"

lemma choseI: "t = s\<lparr>runnable := runnable t, thread_choices := thread_choices t, rands := rands t, bytes_needed := bytes_needed t\<rparr> \<Longrightarrow> chose s t"
  unfolding chose_def by blast

lemma chose_trans: "chose s t \<Longrightarrow> chose t u \<Longrightarrow> chose s u"
  unfolding chose_def by (elim exE) (simp, blast)

lemma take_runnable_chose: "take_runnable i s = Done h t \<Longrightarrow> chose s t"
  by (rule choseI) (auto simp: take_runnable_def split: if_splits)

lemma thread_choice_chose: "thread_choice n s = Done i t \<Longrightarrow> chose s t"
  by (rule choseI) (auto simp: thread_choice_def rand_def split: option.splits prod.splits list.splits if_splits)

lemma update_chose: "chose s (s\<lparr>bytes_needed := b\<rparr>)" "chose s (s\<lparr>runnable := r\<rparr>)" "chose s s"
  by (rule choseI, simp)+

lemma GetRandomRunnableHandle_chose:
  assumes "GetRandomRunnableHandle e s = Done h t"
  shows "chose s t"
proof -
  consider i where "take_runnable i s = Done h t"
    | n i u where "thread_choice n s = Done i u"
        "MakeNotRunnable (current u) (u\<lparr>bytes_needed := bytes_needed u + 1\<rparr>) = Done () t \<or>
         take_runnable i (u\<lparr>bytes_needed := bytes_needed u + 1\<rparr>) = Done h t"
    using assms by (auto simp: GetRandomRunnableHandle_def Let_def split: if_splits option.splits outcome.splits)
  then show ?thesis
  proof cases
    case 1
    then show ?thesis by (rule take_runnable_chose)
  next
    case 2
    have "chose (u\<lparr>bytes_needed := bytes_needed u + 1\<rparr>) t"
      using 2(2) take_runnable_chose update_chose(2) [of "u\<lparr>bytes_needed := bytes_needed u + 1\<rparr>"]
      by (auto simp: MakeNotRunnable_def split: if_splits)
    then show ?thesis using thread_choice_chose [OF 2(1)] update_chose(1) chose_trans by blast
  qed
qed

lemma ChooseThread_chose: "ChooseThread e s = Done h t \<Longrightarrow> chose s t"
proof (induction e s rule: ChooseThread.induct)
  case (1 e s)
  from "1.prems" show ?case
    by (subst (asm) ChooseThread.simps)
      (auto split: if_splits outcome.splits intro: update_chose GetRandomRunnableHandle_chose chose_trans "1.IH")
qed


text \<open>The host between two switches: the main coroutine runs, its thread is known, does not wait, has no continuation and
  nobody waits for it to stop, and the run queue is well formed.\<close>

definition main_ok :: "handle \<Rightarrow> thread_t \<Rightarrow> 'z host_scheme \<Rightarrow> bool" where
  "main_ok m th s \<longleftrightarrow> current s = m \<and> main_handle s = m \<and> HandleToThreadT m s = th \<and> ThreadTToHandle th s = m \<and>
     (\<forall>h. h \<noteq> m \<longrightarrow> HandleToThreadT h s \<noteq> th) \<and> th \<notin> waiting s \<and> continuations s th = None \<and>
     (\<exists>k. threads s th = Some k \<and> \<not> wake_active k) \<and>
     sched_wf s \<and> finite (live_set s) \<and> 0 \<notin> live_set s \<and> m \<notin> live_set s \<and> heap_wf (mheap s)"

lemma main_ok_chose:
  assumes "main_ok m th s" "chose s t" "sched_wf t"
  shows "main_ok m th t"
  using assms by (auto simp: main_ok_def chose_def HandleToThreadT_def ThreadTToHandle_def)

lemma ThreadResumed_main:
  assumes "main_ok m th s"
  shows "\<exists>t. ThreadResumed s = Done () t \<and> main_ok m th t \<and> live_set t = live_set s \<and> threads t = threads s \<and> mheap t = mheap s"
  using assms
  by (auto simp: ThreadResumed_def CallContinuationIfPresent_def main_ok_def GetCurrentThreadT_def HandleToThreadT_def
      ThreadTToHandle_def sched_wf_def)

text \<open>From the main coroutine \<open>SwitchTo\<close> is the switch and the bookkeeping of the resumption.\<close>

lemma SwitchTo_main:
  assumes "main_ok m th s" "h \<in> live_set s"
  shows "SwitchTo xnu h s = (case co_switch xnu h s of Stopped e \<Rightarrow> Stopped e | Done _ t \<Rightarrow> ThreadResumed (t\<lparr>current := m\<rparr>))"
proof -
  obtain k where k: "threads s th = Some k" "\<not> wake_active k" using assms(1) by (auto simp: main_ok_def)
  have m: "current s = m" "main_handle s = m" "GetCurrentThreadT s = th" "h \<noteq> m" "ThreadTToHandle th s = m" "th \<notin> waiting s"
    using assms by (auto simp: main_ok_def GetCurrentThreadT_def)
  have "SwitchFrom xnu th s = Done () s"
    using m k by (simp add: SwitchFrom_def IsWaiting_def SetRunnable_def MakeRunnable_def XNUThreadSignalWake_def)
  then show ?thesis using m assms(2)
    by (simp add: SwitchTo_def sSwitchTo_def executor_SwitchTo_def split: outcome.splits)
qed

text \<open>How much a thread has left to do is a matter of the guest: a number read off its threads and its memory that every
  switch from the main coroutine makes smaller.\<close>

type_synonym work = "handle set \<Rightarrow> (thread_t \<rightharpoonup> kthread) \<Rightarrow> heap \<Rightarrow> nat"

definition work_left :: "work \<Rightarrow> 'z host_scheme \<Rightarrow> nat" where
  "work_left w s = w (live_set s) (threads s) (mheap s)"

definition progresses :: "'z xnu_thread \<Rightarrow> handle \<Rightarrow> thread_t \<Rightarrow> work \<Rightarrow> bool" where
  "progresses xnu m th w \<longleftrightarrow> (\<forall>h s. main_ok m th s \<longrightarrow> h \<in> live_set s \<longrightarrow>
     (\<exists>t. co_switch xnu h s = Done () t \<and> main_ok m th (t\<lparr>current := m\<rparr>) \<and> work_left w t < work_left w s))"

lemma ChooseThread_main:
  assumes "main_ok m th s"
  shows "\<exists>h t. ChooseThread False s = Done h t \<and> main_ok m th t \<and> work_left w t = work_left w s \<and>
     (if h = 0 then runnable t = [] else h \<in> live_set t)"
proof -
  have wf: "sched_wf s" using assms by (simp add: main_ok_def)
  obtain h t where t: "ChooseThread False s = Done h t" "sched_wf t" "h \<in> schedulable s \<or> h = 0 \<and> runnable t = []" "live_set t = live_set s"
    using ChooseThread_runs [OF wf, of False] by (auto simp: same_threads_def)
  have c: "chose s t" by (rule ChooseThread_chose [OF t(1)])
  then have "work_left w t = work_left w s" by (auto simp: work_left_def chose_def)
  moreover have "0 \<notin> live_set s" using assms by (simp add: main_ok_def)
  ultimately show ?thesis using t main_ok_chose [OF assms c t(2)] by (auto simp: schedulable_def)
qed

lemma RunUntilEmpty_runs:
  assumes p: "progresses xnu m th w"
  shows "main_ok m th s \<Longrightarrow> work_left w s \<le> fuel \<Longrightarrow>
    \<exists>t. RunUntilEmpty xnu fuel s = Done () t \<and> main_ok m th t \<and> runnable t = [] \<and> pending_deletion t = {} \<and> work_left w t \<le> work_left w s"
proof (induction fuel arbitrary: s)
  case 0
  obtain h t where t: "ChooseThread False s = Done h t" "main_ok m th t" "work_left w t = work_left w s"
    "if h = 0 then runnable t = [] else h \<in> live_set t"
    using ChooseThread_main [OF "0.prems"(1)] by blast
  have "h = 0"
  proof (rule ccontr)
    assume "h \<noteq> 0"
    then have "h \<in> live_set t" using t(4) by simp
    then obtain u where "co_switch xnu h t = Done () u" "work_left w u < work_left w t"
      using p t(2) unfolding progresses_def by blast
    then show False using t(3) "0.prems"(2) by simp
  qed
  then show ?case using t by (auto simp: CleanupDeadThreads_def main_ok_def work_left_def HandleToThreadT_def ThreadTToHandle_def sched_wf_def)
next
  case (Suc fuel)
  obtain h t where t: "ChooseThread False s = Done h t" "main_ok m th t" "work_left w t = work_left w s"
    "if h = 0 then runnable t = [] else h \<in> live_set t"
    using ChooseThread_main [OF Suc.prems(1)] by blast
  show ?case
  proof (cases "h = 0")
    case True
    then show ?thesis using t by (auto simp: CleanupDeadThreads_def main_ok_def work_left_def HandleToThreadT_def ThreadTToHandle_def sched_wf_def)
  next
    case False
    then have h: "h \<in> live_set t" using t(4) by simp
    then obtain u where u: "co_switch xnu h t = Done () u" "main_ok m th (u\<lparr>current := m\<rparr>)" "work_left w u < work_left w t"
      using p t(2) unfolding progresses_def by blast
    obtain v where v: "ThreadResumed (u\<lparr>current := m\<rparr>) = Done () v" "main_ok m th v" "work_left w v = work_left w u"
      using ThreadResumed_main [OF u(2)] by (auto simp: work_left_def)
    have "SwitchTo xnu h t = Done () v" using SwitchTo_main [OF t(2) h] u(1) v(1) by simp
    moreover obtain x where "RunUntilEmpty xnu fuel v = Done () x" "main_ok m th x" "runnable x = []" "pending_deletion x = {}"
      "work_left w x \<le> work_left w v"
      using Suc.IH [OF v(2)] u(3) v(3) t(3) Suc.prems(2) by auto
    ultimately show ?thesis using False t(1,3) u(3) v(3) by auto
  qed
qed

text \<open>Threads that run to their end once they are switched to: every switch destroys one, so there are at most as many switches
  as live threads.\<close>

lemma handle_maps_current [simp]:
  "HandleToThreadT g (s\<lparr>current := c\<rparr>) = HandleToThreadT g s" "ThreadTToHandle th (s\<lparr>current := c\<rparr>) = ThreadTToHandle th s"
  by (simp_all add: HandleToThreadT_def ThreadTToHandle_def)

lemma sThreadDestroyed_main:
  assumes "main_ok m th (s\<lparr>current := m\<rparr>)" "h \<noteq> m" "th \<noteq> 0"
  shows "\<exists>t. sThreadDestroyed h s = Done () t \<and> main_ok m th (t\<lparr>current := m\<rparr>) \<and> live_set t = live_set s - {h}"
proof -
  let ?u = "s\<lparr>live_set := live_set s - {h}, pending_deletion := insert h (pending_deletion s)\<rparr>"
  let ?x = "HandleToThreadT h ?u"
  have x: "?x \<noteq> th" using assms(1,2) by (auto simp: main_ok_def HandleToThreadT_def)
  obtain t where t: "ThreadDestroyed h ?u = Done () t" "main_handle t = main_handle s" "live_set t = live_set s - {h}"
    "handle_to_internal t = (handle_to_internal s)(h := None)" "internal_to_handle t = (internal_to_handle s)(?x := None)"
    "waiting t = waiting s - {?x}" "continuations t = (continuations s)(?x := None)" "threads t = threads s" "mheap t = mheap s"
    "runnable t = runnable s" "thread_choices t = thread_choices s"
    by (simp add: ThreadDestroyed_def Let_def)
  have h: "HandleToThreadT g t = (if g = h then 0 else HandleToThreadT g s)" "ThreadTToHandle th t = ThreadTToHandle th s" for g
    using t(4,5) x by (simp_all add: HandleToThreadT_def ThreadTToHandle_def)
  have "main_ok m th (t\<lparr>current := m\<rparr>)"
    using assms h t(2,3,6-) x by (auto simp: main_ok_def sched_wf_def)
  then show ?thesis using t(1,3) by (simp add: sThreadDestroyed_def mark_destroyed_def)
qed

definition runs_to_end :: "(handle \<rightharpoonup> (unit, 'z host_scheme) prog) \<Rightarrow> handle \<Rightarrow> thread_t \<Rightarrow> bool" where
  "runs_to_end pend m th \<longleftrightarrow> (\<forall>h s. main_ok m th s \<longrightarrow> h \<in> live_set s \<longrightarrow>
     (\<exists>f t. pend h = Some f \<and> f (s\<lparr>current := h\<rparr>) = Done () t \<and> main_ok m th (t\<lparr>current := m\<rparr>) \<and> live_set t \<subseteq> live_set s))"

lemma pending_progresses:
  assumes co: "\<And>h. co_switch xnu h = CallPendingFunctionThenSwap pend h" and f: "runs_to_end pend m th" and "th \<noteq> 0"
  shows "progresses xnu m th (\<lambda>L _ _. card L)"
  unfolding progresses_def
proof (intro allI impI)
  fix h and s :: "'a host_scheme"
  assume s: "main_ok m th s" "h \<in> live_set s"
  then obtain f t where t: "pend h = Some f" "f (s\<lparr>current := h\<rparr>) = Done () t" "main_ok m th (t\<lparr>current := m\<rparr>)" "live_set t \<subseteq> live_set s"
    using f unfolding runs_to_end_def by blast
  have hm: "h \<noteq> m" "main_handle s = m" "finite (live_set s)" using s by (auto simp: main_ok_def)
  obtain u where u: "sThreadDestroyed h t = Done () u" "main_ok m th (u\<lparr>current := m\<rparr>)" "live_set u = live_set t - {h}"
    using sThreadDestroyed_main [OF t(3) hm(1) assms(3)] by blast
  have "co_switch xnu h s = Done () u"
    using t(1,2) u(1) hm by (simp add: co CallPendingFunctionThenSwap_def GetMainThread_def)
  moreover have "live_set u \<subset> live_set s" using u(3) t(4) s(2) by auto
  then have "work_left (\<lambda>L _ _. card L) u < work_left (\<lambda>L _ _. card L) s"
    unfolding work_left_def using hm(3) by (intro psubset_card_mono)
  ultimately show "\<exists>t. co_switch xnu h s = Done () t \<and> main_ok m th (t\<lparr>current := m\<rparr>) \<and>
      work_left (\<lambda>L _ _. card L) t < work_left (\<lambda>L _ _. card L) s" using u(2) by blast
qed


definition main_example :: host where
  "main_example = host_example\<lparr>current := 1, runnable := [7, 5], waiting := {}, threads := [100 \<mapsto> kthread_zero]\<rparr>"

definition idle_coroutines :: "(unit xnu_thread)" where
  "idle_coroutines = xnu_idle (CallPendingFunctionThenSwap (\<lambda>_. Some (retM ())))"

lemma main_example_ok: "main_ok 1 100 main_example"
  by (auto simp: main_ok_def main_example_def host_example_def HandleToThreadT_def ThreadTToHandle_def sched_wf_def
      kthread_zero_def heap_wf_def fuzz_ok_def split: if_splits)


section \<open>A whole session\<close>

definition session_ok :: "handle \<Rightarrow> thread_t \<Rightarrow> work \<Rightarrow> nat \<Rightarrow> 'z host_scheme \<Rightarrow> bool" where
  "session_ok m th w n s \<longleftrightarrow> main_ok m th s \<and> work_left w s \<le> n"

text \<open>What is asked of the guest: its calls return and keep the main thread, its new threads are new, the switches make progress, and
  the work never grows past the bound. The last two conditions are on code of the sources over the guest's lists of processes; when each of the
  two returns is the subject of lemmas of the theory Backend. The conditions are strong: a guest whose new threads run arbitrary code does not
  meet them.\<close>

definition guest_ok :: "('z sstate_ext) session_env \<Rightarrow> handle \<Rightarrow> thread_t \<Rightarrow> work \<Rightarrow> bool" where
  "guest_ok se m th w \<longleftrightarrow> (let I = session_ok m th w (switches se); xk = s_task se in
     progresses (s_xnu se) m th w \<and> (\<forall>bs. fdp_ok (provider se bs)) \<and>
     (\<forall>p. runs I (cloneproc xk p) (\<lambda>k t. I t \<and> k \<noteq> 0 \<and> k \<noteq> th \<and> t_task t k \<noteq> None)) \<and>
     (\<forall>p k. runs (\<lambda>s. I s \<and> t_task s k \<noteq> None) (proc_signalend xk p) (\<lambda>_ t. I t \<and> t_task t k \<noteq> None)) \<and>
     (\<forall>p k. runs (\<lambda>s. I s \<and> t_task s k \<noteq> None) (proc_transend xk p) (\<lambda>_ t. I t \<and> t_task t k \<noteq> None)) \<and>
     (\<forall>a b c. runs I (main_thread_create_waiting xk a b c) (\<lambda>(kr, k) t. I t \<and> kr = 0 \<and> k \<noteq> 0 \<and> k \<noteq> th)) \<and>
     (\<forall>k f. runs I (task_clear_return_wait xk k f) (\<lambda>_. I)) \<and> (\<forall>k. runs I (task_deallocate xk k) (\<lambda>_. I)) \<and>
     (\<forall>k. runs I (thread_abort (s_xnu se) k) (\<lambda>_. I)) \<and> (\<forall>k. runs I (thread_deallocate se k) (\<lambda>_. I)) \<and>
     runs I (KillAllNonInitProcs (s_bsd se)) (\<lambda>_. I) \<and> runs I (XNUReapInitChildren (s_bsd se) (reaps se)) (\<lambda>_. I))"

lemma reap_loop_never_true: "reap_loop xb n s \<noteq> Done True t"
  by (induction n arbitrary: s) (auto split: outcome.splits if_splits)

lemma session_steps:
  assumes I: "I = (session_ok m th w n :: 'z sstate_scheme \<Rightarrow> bool)"
  shows "runs I BeginSession (\<lambda>_. I)" "runs I (SetInterruptsEnabled b) (\<lambda>_. I)"
    "runs I (modifyM (\<lambda>s. s\<lparr>ready_for_preemption := b\<rparr>)) (\<lambda>_. I)"
    "k \<noteq> th \<Longrightarrow> runs I (SetContinuation k c p) (\<lambda>_. I)" "runs I (SetId k i) (\<lambda>_. I)"
    "runs I (modifyM (\<lambda>s. s\<lparr>mfuzz := z\<rparr>)) (\<lambda>_. I)" "runs I (SetRandSeed sr seed) (\<lambda>_. I)"
    "fuzz_ok z \<Longrightarrow> runs I (SetThreadChoices z) (\<lambda>_. I)"
  unfolding I
  by (auto simp: runs_def session_ok_def main_ok_def work_left_def HandleToThreadT_def ThreadTToHandle_def sched_wf_def
      BeginSession_def SetContinuation_def SetId_def SetRandSeed_def SetThreadChoices_def)

lemma session_RunUntilEmpty:
  fixes se :: "('z sstate_ext) session_env"
  assumes "guest_ok se m th w" "I = session_ok m th w (switches se)"
  shows "runs I (RunUntilEmpty (s_xnu se) (switches se)) (\<lambda>_ t. I t \<and> runnable t = [] \<and> pending_deletion t = {})"
  unfolding assms(2) session_ok_def
proof (rule runsI)
  fix s :: "'z sstate_scheme"
  assume s: "main_ok m th s \<and> work_left w s \<le> switches se"
  have "progresses (s_xnu se) m th w" using assms(1) by (simp add: guest_ok_def Let_def)
  from RunUntilEmpty_runs [OF this, of s "switches se"] s
  show "\<exists>x t. RunUntilEmpty (s_xnu se) (switches se) s = Done x t \<and>
     (main_ok m th t \<and> work_left w t \<le> switches se) \<and> runnable t = [] \<and> pending_deletion t = {}" by auto
qed

lemma session_thread_runs:
  assumes "I = session_ok m th w n" "k \<noteq> th" "k \<noteq> 0"
  shows "runs I (session_thread se i k) (\<lambda>_. I)"
  unfolding session_thread_def using assms
  by (auto intro!: runs_thenM [OF session_steps(4) session_steps(5)])

lemma session_clone:
  assumes g: "guest_ok se m th w" and I: "I = session_ok m th w (switches se)"
    and rest: "\<And>k task. k \<noteq> 0 \<Longrightarrow> k \<noteq> th \<Longrightarrow> runs I (f k task) Q"
  shows "runs I (bindM (CloneTaskFromInit (s_bsd se) (s_task se)) (\<lambda>k. bindM (GetTaskFromThread k) (f k))) Q"
proof -
  let ?J = "\<lambda>k t. I t \<and> k \<noteq> 0 \<and> k \<noteq> th \<and> t_task t k \<noteq> None"
  have c: "runs I (cloneproc (s_task se) p) ?J" "runs (?J k) (proc_signalend (s_task se) q) (\<lambda>_. ?J k)"
    "runs (?J k) (proc_transend (s_task se) q) (\<lambda>_. ?J k)" for p q k
    using g unfolding guest_ok_def Let_def I by (fastforce simp: runs_def)+
  have task: "runs (?J k) (GetTaskFromThread k) (\<lambda>_. ?J k)" for k
    by (auto simp: runs_def GetTaskFromThread_def)
  have "runs I (CloneTaskFromInit (s_bsd se) (s_task se)) ?J"
    unfolding CloneTaskFromInit_def CloneTask_def
    by (intro runs_bindM [OF c(1)] runs_bindM [OF task] runs_thenM [OF c(2)] runs_thenM [OF c(3)] runs_ret)
  moreover have "runs (?J k) (bindM (GetTaskFromThread k) (f k)) Q" for k
    using rest by (intro runs_bindM [OF task]) (auto simp: runs_def)
  ultimately show ?thesis by (rule runs_bindM)
qed


lemma session_setup_runs:
  assumes g: "guest_ok se m th w" and I: "I = session_ok m th w (switches se)"
  shows "runs I (session_setup se) (\<lambda>_. I)"
proof -
  have wait: "runs I (CreateWaitingThread (s_task se) task) (\<lambda>k t. I t \<and> k \<noteq> 0 \<and> k \<noteq> th)" for task
  proof -
    have "runs I (main_thread_create_waiting (s_task se) a b c) (\<lambda>(kr, k) t. I t \<and> kr = 0 \<and> k \<noteq> 0 \<and> k \<noteq> th)" for a b c
      using g unfolding guest_ok_def Let_def I by blast
    then show ?thesis unfolding CreateWaitingThread_def by (rule runs_bindM) (auto simp: runs_def)
  qed
  have second: "runs I (bindM (CreateWaitingThread (s_task se) task) f) Q" if "\<And>k. k \<noteq> 0 \<Longrightarrow> k \<noteq> th \<Longrightarrow> runs I (f k) Q"
    for task f and Q :: "'b \<Rightarrow> _"
    using that by (intro runs_bindM [OF wait]) (auto simp: runs_def)
  show ?thesis unfolding session_setup_def
    by (intro runs_thenM [OF session_steps(1) [OF I]] runs_bindM [OF session_steps(2) [OF I]] runs_thenM [OF session_steps(3) [OF I]]
        session_clone [OF g I] runs_thenM [OF session_thread_runs [OF I]] second runs_ret)
qed

lemma session_run_runs:
  assumes g: "guest_ok se m th w" and I: "I = session_ok m th w (switches se)"
  shows "runs I (session_run se session tasks) (\<lambda>_. I)"
proof -
  have c: "runs I (ClearTaskWait (s_task se) task) (\<lambda>_. I)" for task
    using g unfolding guest_ok_def Let_def I ClearTaskWait_def by (intro runs_thenM [where R = I]) (auto simp: I)
  have p: "fuzz_ok (Some (provider se bs))" for bs using g by (simp add: guest_ok_def Let_def fuzz_ok_def)
  have r: "runs I (RunUntilEmpty (s_xnu se) (switches se)) (\<lambda>_. I)"
    using session_RunUntilEmpty [OF g I] by (fastforce simp: runs_def)
  show ?thesis unfolding session_run_def
    by (intro runs_thenM [OF runs_forM [OF c]] runs_thenM [OF session_steps(6) [OF I]] runs_thenM [OF session_steps(7) [OF I]]
        runs_thenM [OF session_steps(8) [OF I p]] runs_thenM [OF session_steps(3) [OF I]] r)
qed

lemma session_end_runs:
  assumes g: "guest_ok se m th w" and I: "I = session_ok m th w (switches se)"
  shows "runs I (session_end se ths) (\<lambda>_ t. I t \<and> runnable t = [] \<and> pending_deletion t = {} \<and> mfuzz t = None)"
proof -
  let ?run = "RunUntilEmpty (s_xnu se) (switches se)"
  have r: "runs I ?run (\<lambda>_. I)" using session_RunUntilEmpty [OF g I] by (fastforce simp: runs_def)
  have calls: "runs I (XNUThreadAbort (s_xnu se) k) (\<lambda>_. I)" "runs I (thread_deallocate se k) (\<lambda>_. I)"
    "runs I (KillAllNonInitProcs (s_bsd se)) (\<lambda>_. I)" "runs I (XNUReapInitChildren (s_bsd se) (reaps se)) (\<lambda>_. I)" for k
    using g by (simp_all add: guest_ok_def Let_def I XNUThreadAbort_def)
  have reap: "runs I (reap_all se 1) (\<lambda>_. I)"
    using calls(4) reap_loop_never_true [of "s_bsd se" "reaps se"] by (fastforce simp: runs_def XNUReapInitChildren_def)
  have last: "runs (\<lambda>t. I t \<and> runnable t = [] \<and> pending_deletion t = {}) (thenM (modifyM (\<lambda>s. s\<lparr>mfuzz := None\<rparr>)) ReportSession)
      (\<lambda>_ t. I t \<and> runnable t = [] \<and> pending_deletion t = {} \<and> mfuzz t = None)"
    using session_steps(6) [OF I, of None] by (simp add: runs_def ReportSession_def)
  have abort: "runs I (thenM (XNUThreadAbort (s_xnu se) k) ?run) (\<lambda>_. I)" for k by (intro runs_thenM [OF calls(1) r])
  show ?thesis unfolding session_end_def
    by (intro runs_thenM [OF runs_forM [OF abort]] runs_thenM [OF runs_forM [OF calls(2)]] runs_thenM [OF r]
        runs_bindM [OF session_steps(2) [OF I]] runs_bindM [OF calls(3)] runs_thenM [OF reap]
        runs_thenM [OF session_RunUntilEmpty [OF g I] last])
qed

text \<open>A session under such a guest. For every message, when the calls of the guest return and keep the main thread, its new threads are new and
  its switches make progress within the bound, \<open>HandleSession\<close> sets up the three threads, runs them, aborts and deallocates
  them, kills and reaps what is left and returns: the main coroutine runs, the run queue is empty, no thread waits for deletion and
  the input is detached.\<close>

lemma HandleSession_ends:
  assumes "guest_ok se m th w" "main_ok m th s" "work_left w s \<le> switches se"
  shows "\<exists>t. HandleSession se session s = Done () t \<and> current t = m \<and> main_handle t = m \<and> runnable t = [] \<and>
     pending_deletion t = {} \<and> mfuzz t = None"
proof -
  let ?I = "session_ok m th w (switches se)"
  let ?Q = "\<lambda>t. ?I t \<and> runnable t = [] \<and> pending_deletion t = {} \<and> mfuzz t = None"
  have "runs ?I (case p of (ths, tasks) \<Rightarrow> thenM (session_run se session tasks) (session_end se ths)) (\<lambda>_. ?Q)" for p
    by (cases p) (simp, intro runs_thenM [OF session_run_runs [OF assms(1) refl] session_end_runs [OF assms(1) refl]])
  then have "runs ?I (HandleSession se session) (\<lambda>_. ?Q)"
    unfolding HandleSession_def by (intro runs_bindM [OF session_setup_runs [OF assms(1) refl]])
  moreover have "?I s" using assms(2,3) by (simp add: session_ok_def)
  ultimately obtain t where "HandleSession se session s = Done () t" "?Q t" by (fastforce dest: runsD)
  then show ?thesis by (auto simp: session_ok_def main_ok_def)
qed

definition sstate_example :: sstate where
  "sstate_example = cstate.extend (cstate_example\<lparr>current := 1, runnable := [7, 5], waiting := {}, threads := [100 \<mapsto> kthread_zero]\<rparr>)
     \<lparr>readable_ids = Map.empty, names = Map.empty, next_thread_id = 7\<rparr>"

definition session_env_example :: "(unit sstate_ext) session_env" where
  "session_env_example = \<lparr>s_xnu = xnu_idle (CallPendingFunctionThenSwap (\<lambda>_. Some (retM ()))),
     s_task = xk_example\<lparr>cloneproc := (\<lambda>_ s. Done 500 (s\<lparr>t_task := (t_task s)(500 \<mapsto> 9)\<rparr>)),
       main_thread_create_waiting := (\<lambda>_ _ _. retM (0, 700))\<rparr>,
     s_bsd = xb_example\<lparr>allproc := (\<lambda>_. []), nprocs := (\<lambda>_. 0)\<rparr>,
     provider = byte_fdp, srand = (\<lambda>_. []), thread_deallocate = (\<lambda>_. retM ()), CommandThread_at = 3000, commands_at = (\<lambda>i. 3000 + i),
     switches = 2, reaps = 0\<rparr>"


lemma sstate_example_ok: "main_ok 1 100 sstate_example" "card (live_set sstate_example) = 2"
proof -
  have h: "heap_wf (mheap sstate_example)"
    using bstate_example_ok(1) by (simp add: sstate_example_def cstate.defs mheap_cstate_example)
  have f: "current sstate_example = 1" "main_handle sstate_example = 1" "runnable sstate_example = [7, 5]" "live_set sstate_example = {5, 7}"
    "handle_to_internal sstate_example = [1 \<mapsto> 100, 5 \<mapsto> 500, 7 \<mapsto> 700]" "internal_to_handle sstate_example = [100 \<mapsto> 1, 500 \<mapsto> 5, 700 \<mapsto> 7]"
    "waiting sstate_example = {}" "continuations sstate_example = Map.empty" "threads sstate_example = [100 \<mapsto> kthread_zero]"
    "thread_choices sstate_example = None"
    by (simp_all add: sstate_example_def cstate.defs cstate_example_def bstate.defs bstate_example_defs)
  show "main_ok 1 100 sstate_example" "card (live_set sstate_example) = 2"
    using h by (auto simp: f main_ok_def HandleToThreadT_def ThreadTToHandle_def sched_wf_def kthread_zero_def fuzz_ok_def split: if_splits)
qed

lemma session_ok_t_task: "session_ok m th w n (s\<lparr>t_task := x\<rparr>) = session_ok m th w n s"
  by (simp add: session_ok_def main_ok_def work_left_def HandleToThreadT_def ThreadTToHandle_def sched_wf_def)

lemma idle_kill_runs:
  fixes xb :: "'z xnu_bsd"
  assumes "\<And>s. allproc xb s = []" "\<And>s. nprocs xb s = 0" "proc_list_lock xb = retM ()" "proc_list_unlock xb = retM ()"
  shows "runs (session_ok m th (\<lambda>L _ _. card L) n) (KillAllNonInitProcs xb) (\<lambda>_. session_ok m th (\<lambda>L _ _. card L) n)"
proof (rule runsI)
  fix s :: "'z bstate_scheme"
  assume s: "session_ok m th (\<lambda>L _ _. card L) n s"
  then have wf: "heap_wf (mheap s)" by (simp add: session_ok_def main_ok_def)
  obtain p h where p: "calloc 0 4 (mheap s) = Done p h" "heap_wf h" "p = 0 \<or> block_size h p \<noteq> None"
    using calloc_gives [OF wf, of 0 4] by auto
  obtain g where g: "free p h = Done () g" "heap_wf g" using p(2,3) free_live [OF p(2)] free_null by (cases "p = 0") auto
  have "KillAllNonInitProcs xb s = Done 0 (s\<lparr>mheap := g\<rparr>)"
    using p g by (simp add: KillAllNonInitProcs_def assms)
  moreover have "session_ok m th (\<lambda>L _ _. card L) n (s\<lparr>mheap := g\<rparr>)"
    using s g(2) by (auto simp: session_ok_def main_ok_def work_left_def HandleToThreadT_def ThreadTToHandle_def sched_wf_def)
  ultimately show "\<exists>x t. KillAllNonInitProcs xb s = Done x t \<and> session_ok m th (\<lambda>L _ _. card L) n t" by blast
qed

lemma session_env_example_ok: "guest_ok session_env_example 1 100 (\<lambda>L _ _. card L)"
proof -
  let ?e = session_env_example
  have "runs_to_end (\<lambda>_. Some (retM ())) 1 100"
    by (auto simp: runs_to_end_def main_ok_def sched_wf_def)
  then have p: "progresses (s_xnu ?e) 1 100 (\<lambda>L _ _. card L)"
    by (intro pending_progresses) (simp_all add: session_env_example_def xnu_idle_def)
  have k: "runs (session_ok 1 100 (\<lambda>L _ _. card L) n) (KillAllNonInitProcs (s_bsd ?e)) (\<lambda>_. session_ok 1 100 (\<lambda>L _ _. card L) n)" for n
    by (intro idle_kill_runs) (simp_all add: session_env_example_def xb_example_def)
  show ?thesis unfolding guest_ok_def Let_def
    using p k
    by (auto simp: session_env_example_def xk_example_def xb_example_def byte_fdp_ok runs_def xnu_idle_def session_ok_t_task
        XNUReapInitChildren_def)
qed

lemma HandleSession_ends_witness:
  "\<exists>t. HandleSession session_env_example \<lparr>rand_seed = 1, thread_choices_bytes = [3, 4], xnu_data_provider = [7]\<rparr> sstate_example = Done () t \<and>
     runnable sstate_example = [7, 5] \<and> runnable t = [] \<and> mfuzz t = None"
proof -
  have "work_left (\<lambda>L _ _. card L) sstate_example \<le> switches session_env_example"
    using sstate_example_ok(2) by (simp add: work_left_def session_env_example_def)
  from HandleSession_ends [OF session_env_example_ok sstate_example_ok(1) this] show ?thesis
    by (auto simp: sstate_example_def cstate.defs)
qed

section \<open>Threads of a session and their names\<close>

lemma session_thread_sets:
  assumes "k \<noteq> 0" "CommandThread_at se \<noteq> 0"
  shows "\<exists>t. session_thread se i k s = Done () t \<and> continuations t k = Some (CommandThread_at se, commands_at se i) \<and>
     readable_ids t (ThreadTToHandle k s) = Some (of_nat i)"
  using assms by (simp add: session_thread_def SetContinuation_def SetId_def ThreadTToHandle_def)

lemma GetId_stable: "GetId h s = Done i t \<Longrightarrow> GetId h t = Done i t"
  by (auto simp: GetId_def split: option.splits)

text \<open>\<open>ThreadDestroyed\<close> leaves the name of a handle, and \<open>SetId\<close> does not replace one: a thread on a stack that is used again is
  described by the name of the thread before it.\<close>

lemma SetId_keeps_name:
  assumes "names s (ThreadTToHandle k s) = Some name"
  shows "\<exists>t. SetId k tid s = Done () t \<and> readable_ids t (ThreadTToHandle k s) = Some tid \<and>
     DescribeThreadHandle (ThreadTToHandle k s) t = Done name t"
  using assms by (simp add: SetId_def DescribeThreadHandle_def)

end
