(* ===== verification/Hypercall.thy ===== *)
theory Hypercall
  imports Session
begin

text \<open>
  The hypercall interface, \<open>fuzz/host/hypercall/hypercall.h\<close> and \<open>fuzz/host/hypercall/hypercall.cc\<close>: the table of functions
  through which the guest reaches the host, as one datatype of calls per part of the file and the programs they run. The calls that
  only print are left out, and so are the sanitizer and debugging variants. Two slots deserve a note. \<open>ThreadShouldBlock\<close> is declared
  and never initialised, so a call through it jumps to address 0. \<open>GetFuzzedBytes\<close> writes to the memory of the guest.

  The parameters are those of the host and of the guest; \<open>hc_fuel\<close> bounds the loops of the locks and of \<open>ThreadWait\<close>.

  The property is an invariant of the whole interface: no sequence of calls breaks the run queue. It is proved by composition,
  one lemma per layer (the queue, the host, the callbacks, the locks), each over the operations of the layer below.
\<close>

section \<open>The calls\<close>

datatype hc_result = RVoid | RBool bool | RInt int | RU32 u32 | RU64 u64 | RNat nat

record 'z hc_env =
  hc_session :: "('z sstate_ext) session_env"
  hc_machine :: "('z sstate_ext cstate_ext bstate_ext tstate_ext shost_ext) xnu_machine"
  hc_fuel :: nat

abbreviation hc_xnu :: "'z hc_env \<Rightarrow> ('z sstate_ext cstate_ext bstate_ext tstate_ext shost_ext lhost_ext) xnu_thread" where
  "hc_xnu e \<equiv> s_xnu (hc_session e)"

definition answer :: "('a \<Rightarrow> hc_result) \<Rightarrow> ('a, 's) prog \<Rightarrow> (hc_result, 's) prog" where
  "answer f m = bindM m (\<lambda>x. retM (f x))"

definition void :: "('a, 's) prog \<Rightarrow> (hc_result, 's) prog" where
  "void m = bindM m (\<lambda>_. retM RVoid)"

text \<open>Life of the host, interrupts, the current thread, copyio and the input.\<close>

datatype BasicCall =
    Hc_Initialize | Hc_Abort | Hc_Yield | Hc_Block | Hc_SyscallReturn | Hc_SetInterruptsEnabled bool | Hc_GetInterruptsEnabled
  | Hc_GetCurrentThreadT | Hc_SetCurrentThreadT thread_t | Hc_NotifyDestroyed thread_t | Hc_BlockCopyin | Hc_UnblockCopyin
  | Hc_IsCopyioBlocked | Hc_BytesNeeded | Hc_RandomDataRemaining | Hc_ReportBadThreadState | Hc_CreateThread thread_t bool

primrec run_basic :: "'z hc_env \<Rightarrow> BasicCall \<Rightarrow> (hc_result, 'z sstate_scheme) prog" where
  "run_basic e Hc_Initialize = void (InitializeHost (hc_session e))"
| "run_basic e Hc_Abort = abortM"
| "run_basic e Hc_Yield = void (Yield (hc_xnu e))"
| "run_basic e Hc_Block = void (sBlock (hc_xnu e))"
| "run_basic e Hc_SyscallReturn = SyscallReturn"
| "run_basic e (Hc_SetInterruptsEnabled b) = answer RBool (SetInterruptsEnabled b)"
| "run_basic e Hc_GetInterruptsEnabled = answer RBool GetInterruptsEnabled"
| "run_basic e Hc_GetCurrentThreadT = answer RNat (getsM GetCurrentThreadT)"
| "run_basic e (Hc_SetCurrentThreadT th) = void (SetCurrentThreadT th)"
| "run_basic e (Hc_NotifyDestroyed th) = void (NotifyDestroyed th)"
| "run_basic e Hc_BlockCopyin = void BlockCopyin"
| "run_basic e Hc_UnblockCopyin = void UnblockCopyin"
| "run_basic e Hc_IsCopyioBlocked = answer RBool (getsM IsCopyioBlocked)"
| "run_basic e Hc_BytesNeeded = answer RU64 (getsM BytesNeeded)"
| "run_basic e Hc_RandomDataRemaining = answer RNat (getsM RandomDataRemaining)"
| "run_basic e Hc_ReportBadThreadState = abortM"
| "run_basic e (Hc_CreateThread th run) = void (CreateThread th run)"

datatype FuzzCall =
    Hc_GetFuzzedBytes ptr nat | Hc_GetFuzzedBool | Hc_GetFuzzedUint32 | Hc_GetFuzzedUint32InRange u32 u32 | Hc_GetFuzzedUint64
  | Hc_GetFuzzedUint64InRange u64 u64 | Hc_GetRemainingFuzzedBytes

primrec run_fuzz :: "FuzzCall \<Rightarrow> (hc_result, 'z sstate_scheme) prog" where
  "run_fuzz (Hc_GetFuzzedBytes addr n) = void (bindM (fuzzM (GetFuzzedBytes n)) (\<lambda>bs. heapM (store_at addr bs)))"
| "run_fuzz Hc_GetFuzzedBool = answer RBool (fuzzM GetFuzzedBool)"
| "run_fuzz Hc_GetFuzzedUint32 = answer RU32 (fuzzM GetFuzzedUint32)"
| "run_fuzz (Hc_GetFuzzedUint32InRange lo hi) = answer RU32 (fuzzM (GetFuzzedUint32InRange lo hi))"
| "run_fuzz Hc_GetFuzzedUint64 = answer RU64 (fuzzM GetFuzzedUint64)"
| "run_fuzz (Hc_GetFuzzedUint64InRange lo hi) = answer RU64 (fuzzM (GetFuzzedUint64InRange lo hi))"
| "run_fuzz Hc_GetRemainingFuzzedBytes = answer RU32 (fuzzM GetRemainingFuzzedBytes)"

text \<open>Threads. Setting and clearing the suspension asks for the id of the thread for a message first, which numbers a thread
  that has none.\<close>

datatype ThreadCall =
    Hc_FreeVirtualMutex ptr | Hc_CurrentProc | Hc_IsHwTicketLockValid ptr | Hc_ThreadGo thread_t wait_result
  | Hc_ThreadBlockReason ptr ptr | Hc_ThreadGetWaitResult thread_t | Hc_ThreadMarkWaitLocked thread_t u32 | Hc_ThreadStop thread_t bool
  | Hc_ThreadSetTerminating thread_t | Hc_ThreadUnstop thread_t | Hc_ThreadWait thread_t bool | Hc_ThreadIsRunnable thread_t
  | Hc_ThreadSetUninterruptibleWait thread_t | Hc_ThreadIsIdle thread_t | Hc_ThreadIsWaiting thread_t
  | Hc_ThreadIsEnqueuedForTermination thread_t | Hc_ThreadIsUninterruptible thread_t
  | Hc_ThreadIsTerminating thread_t | Hc_ThreadIsSuspended thread_t | Hc_ThreadSetSuspended thread_t | Hc_ThreadSetNotSuspended thread_t
  | Hc_ThreadWantsWaitReport thread_t | Hc_ThreadShouldBlock thread_t | Hc_ThreadSignalWake thread_t
  | Hc_ThreadClearUninterruptibleWait thread_t | Hc_ThreadClearWait thread_t wait_result | Hc_ThreadSetWaitResult thread_t wait_result
  | Hc_ThreadCancelWaitTimer thread_t | Hc_ThreadSchedCallNotifyUnblocked thread_t | Hc_ThreadSetContinuation thread_t ptr ptr
  | Hc_ThreadSetRunnable thread_t | Hc_ThreadSetNotRunnable thread_t | Hc_ThreadClearContinuation thread_t | Hc_ThreadAbort thread_t
  | Hc_ThreadFinished | Hc_ThreadSetWaiting thread_t | Hc_ThreadSetNotWaiting thread_t | Hc_ThreadSetWaitReport thread_t
  | Hc_ThreadSetNotUninterruptible thread_t | Hc_ThreadSetNotWaitReport thread_t | Hc_ThreadSetUninterruptible thread_t
  | Hc_ThreadBlock ptr

definition log_id :: "thread_t \<Rightarrow> (u32, 'z sstate_scheme) prog" where
  "log_id th = bindM (getsM (ThreadTToHandle th)) GetId"

text \<open>A handler that no slot of the table points to.\<close>

definition ThreadSetQueuedForTermination :: "'z xnu_thread \<Rightarrow> thread_t \<Rightarrow> (unit, 'z host_scheme) prog" where
  "ThreadSetQueuedForTermination xnu th = thenM (SetEnqueuedForTermination th) (XNUThreadEnqueueTermination xnu th)"

primrec run_thread :: "'z hc_env \<Rightarrow> ThreadCall \<Rightarrow> (hc_result, 'z sstate_scheme) prog" where
  "run_thread e (Hc_FreeVirtualMutex mutex) = void (FreeVirtualMutex mutex)"
| "run_thread e Hc_CurrentProc = answer RNat (getsM (XNUCurrentProc (s_bsd (hc_session e))))"
| "run_thread e (Hc_IsHwTicketLockValid lck) = answer RBool (tlock_IsValid lck)"
| "run_thread e (Hc_ThreadGo th r) = answer RInt (ThreadGo (hc_xnu e) th r)"
| "run_thread e (Hc_ThreadBlockReason continuation param) = answer RInt (ThreadBlockReason (hc_xnu e) continuation param)"
| "run_thread e (Hc_ThreadGetWaitResult th) = answer RInt (getsM (GetWaitResult th))"
| "run_thread e (Hc_ThreadMarkWaitLocked th i) = answer RInt (XNUThreadMarkWaitLocked (hc_xnu e) th i)"
| "run_thread e (Hc_ThreadStop th until_not_runnable) = retM (RBool (ThreadStop th until_not_runnable))"
| "run_thread e (Hc_ThreadSetTerminating th) = void (SetTerminating th)"
| "run_thread e (Hc_ThreadUnstop th) = void (ThreadUnstop th)"
| "run_thread e (Hc_ThreadWait th until_not_runnable) = void (XNUThreadWait (hc_xnu e) (hc_fuel e) th until_not_runnable)"
| "run_thread e (Hc_ThreadIsRunnable th) = answer RBool (getsM (IsRunnable th))"
| "run_thread e (Hc_ThreadSetUninterruptibleWait th) = void (ThreadSetUninterruptibleWait th)"
| "run_thread e (Hc_ThreadIsIdle th) = answer RBool (getsM (ThreadIsIdle th))"
| "run_thread e (Hc_ThreadIsWaiting th) = answer RBool (getsM (IsWaiting th))"
| "run_thread e (Hc_ThreadIsEnqueuedForTermination th) = answer RBool (getsM (IsEnqueuedForTermination th))"
| "run_thread e (Hc_ThreadIsUninterruptible th) = answer RBool (getsM (IsUninterruptible th))"
| "run_thread e (Hc_ThreadIsTerminating th) = answer RBool (getsM (IsTerminating th))"
| "run_thread e (Hc_ThreadIsSuspended th) = answer RBool (getsM (IsSuspended th))"
| "run_thread e (Hc_ThreadSetSuspended th) = void (thenM (log_id th) (SetSuspended th))"
| "run_thread e (Hc_ThreadSetNotSuspended th) = void (thenM (log_id th) (SetNotSuspended th))"
| "run_thread e (Hc_ThreadWantsWaitReport th) = answer RBool (getsM (IsWaitReport th))"
| "run_thread e (Hc_ThreadShouldBlock th) = stopM MemFault"
| "run_thread e (Hc_ThreadSignalWake th) = void (XNUThreadSignalWake (hc_xnu e) th)"
| "run_thread e (Hc_ThreadClearUninterruptibleWait th) = void (ThreadClearUninterruptibleWait th)"
| "run_thread e (Hc_ThreadClearWait th r) = void (ThreadClearWait th r)"
| "run_thread e (Hc_ThreadSetWaitResult th r) = void (SetWaitResult th r)"
| "run_thread e (Hc_ThreadCancelWaitTimer th) = void (XNUThreadCancelWaitTimer (hc_xnu e) th)"
| "run_thread e (Hc_ThreadSchedCallNotifyUnblocked th) = void (XNUThreadSchedCallNotifyUnblocked (hc_xnu e) th)"
| "run_thread e (Hc_ThreadSetContinuation th continuation param) = void (SetContinuation th continuation param)"
| "run_thread e (Hc_ThreadSetRunnable th) = void (SetRunnable th)"
| "run_thread e (Hc_ThreadSetNotRunnable th) = void (SetNotRunnable th)"
| "run_thread e (Hc_ThreadClearContinuation th) = void (SetContinuation th 0 0)"
| "run_thread e (Hc_ThreadAbort th) = void (XNUThreadAbort (hc_xnu e) th)"
| "run_thread e Hc_ThreadFinished = void (ThreadFinished (hc_xnu e) (hc_machine e))"
| "run_thread e (Hc_ThreadSetWaiting th) = void (SetWaiting th)"
| "run_thread e (Hc_ThreadSetNotWaiting th) = void (SetNotWaiting th)"
| "run_thread e (Hc_ThreadSetWaitReport th) = void (SetWaitReport th)"
| "run_thread e (Hc_ThreadSetNotUninterruptible th) = void (SetNotUninterruptible th)"
| "run_thread e (Hc_ThreadSetNotWaitReport th) = void (SetNotWaitReport th)"
| "run_thread e (Hc_ThreadSetUninterruptible th) = void (SetUninterruptible th)"
| "run_thread e (Hc_ThreadBlock continuation) = answer RInt (ThreadBlockReason (hc_xnu e) continuation 0)"

text \<open>Locks. A handle of the guest is the address of the host's object.\<close>

datatype MutexCall =
    Hc_AllocateMutex | Hc_FreeMutex ptr | Hc_AssertMutexHeld ptr | Hc_MutexLock ptr | Hc_MutexTryLock ptr | Hc_MutexUnlock ptr
  | Hc_MutexIsOwned ptr

primrec run_mutex :: "'z hc_env \<Rightarrow> MutexCall \<Rightarrow> (hc_result, 'z sstate_scheme) prog" where
  "run_mutex e Hc_AllocateMutex = answer RNat AllocateMutex"
| "run_mutex e (Hc_FreeMutex mutex) = void (FreeMutex mutex)"
| "run_mutex e (Hc_AssertMutexHeld mutex) = void (mutex_AssertHeld mutex)"
| "run_mutex e (Hc_MutexLock mutex) = void (mutex_Lock (hc_xnu e) (hc_fuel e) mutex)"
| "run_mutex e (Hc_MutexTryLock mutex) = answer RBool (mutex_TryLock mutex)"
| "run_mutex e (Hc_MutexUnlock mutex) = void (mutex_Unlock mutex)"
| "run_mutex e (Hc_MutexIsOwned mutex) = answer RBool (IsOwned (MutexRef mutex))"

datatype TicketCall =
    Hc_TicketLockAllocate ptr | Hc_TicketLockDestroy ptr bool | Hc_TicketLockLock ptr bool u64 ptr | Hc_TicketLockTryLock ptr
  | Hc_TicketLockUnlock ptr | Hc_TicketLockInvalidate ptr | Hc_TicketLockHeld ptr


primrec hw_status :: "hw_lock_status \<Rightarrow> int" where
  "hw_status HW_LOCK_INVALID = - 1"
| "hw_status HW_LOCK_CONTENDED = 0"
| "hw_status HW_LOCK_ACQUIRED = 1"

primrec run_ticket :: "'z hc_env \<Rightarrow> TicketCall \<Rightarrow> (hc_result, 'z sstate_scheme) prog" where
  "run_ticket e (Hc_TicketLockAllocate lock) = void (tlock_Allocate lock)"
| "run_ticket e (Hc_TicketLockDestroy lock sync) = void (tlock_Destroy (hc_xnu e) (hc_fuel e) lock sync)"
| "run_ticket e (Hc_TicketLockLock lock allow_invalid timeout hnd) =
     answer (\<lambda>st. RInt (hw_status st)) (tlock_Lock (hc_xnu e) (hc_fuel e) lock allow_invalid)"
| "run_ticket e (Hc_TicketLockTryLock lock) = answer RBool (tlock_TryLock lock)"
| "run_ticket e (Hc_TicketLockUnlock lock) = void (tlock_Unlock lock)"
| "run_ticket e (Hc_TicketLockInvalidate lock) = void (tlock_Invalidate lock)"
| "run_ticket e (Hc_TicketLockHeld lock) = answer RBool (tlock_Held lock)"

datatype RwCall =
    Hc_AllocateRwLock | Hc_FreeRwLock ptr | Hc_RwLockExclusiveToShared ptr | Hc_RwLockSharedToExclusive ptr | Hc_RwLockLockExclusive ptr
  | Hc_RwLockTryLockExclusive ptr | Hc_RwLockLockShared ptr | Hc_RwLockTryLockShared ptr | Hc_RwLockUnlockExclusive ptr
  | Hc_RwLockUnlockShared ptr | Hc_RwLockUnlock ptr | Hc_RwLockIsShared ptr

primrec run_rw :: "'z hc_env \<Rightarrow> RwCall \<Rightarrow> (hc_result, 'z sstate_scheme) prog" where
  "run_rw e Hc_AllocateRwLock = answer RNat AllocateRwLock"
| "run_rw e (Hc_FreeRwLock l) = void (FreeRwLock l)"
| "run_rw e (Hc_RwLockExclusiveToShared l) = void (ExclusiveToShared l)"
| "run_rw e (Hc_RwLockSharedToExclusive l) = answer RBool (SharedToExclusive l)"
| "run_rw e (Hc_RwLockLockExclusive l) = void (LockExclusive (hc_xnu e) (hc_fuel e) l)"
| "run_rw e (Hc_RwLockTryLockExclusive l) = answer RBool (TryLockExclusive l)"
| "run_rw e (Hc_RwLockLockShared l) = void (LockShared (hc_xnu e) (hc_fuel e) l)"
| "run_rw e (Hc_RwLockTryLockShared l) = answer RBool (TryLockShared l)"
| "run_rw e (Hc_RwLockUnlockExclusive l) = void (UnlockExclusive l)"
| "run_rw e (Hc_RwLockUnlockShared l) = void (UnlockShared (hc_xnu e) (hc_fuel e) l)"
| "run_rw e (Hc_RwLockUnlock l) = void (rw_Unlock (hc_xnu e) (hc_fuel e) l)"
| "run_rw e (Hc_RwLockIsShared l) = answer RBool (IsShared l)"

datatype Hypercall = Basic BasicCall | Fuzz FuzzCall | Thread ThreadCall | Mutex MutexCall | Ticket TicketCall | Rw RwCall

primrec run_hypercall :: "'z hc_env \<Rightarrow> Hypercall \<Rightarrow> (hc_result, 'z sstate_scheme) prog" where
  "run_hypercall e (Basic c) = run_basic e c"
| "run_hypercall e (Fuzz c) = run_fuzz c"
| "run_hypercall e (Thread c) = run_thread e c"
| "run_hypercall e (Mutex c) = run_mutex e c"
| "run_hypercall e (Ticket c) = run_ticket e c"
| "run_hypercall e (Rw c) = run_rw e c"

section \<open>An invariant of the whole interface\<close>

text \<open>\<open>keeps_inv P m\<close>: a run of \<open>m\<close> that returns leaves \<open>P\<close> true.\<close>

definition keeps_inv :: "('s \<Rightarrow> bool) \<Rightarrow> ('a, 's) prog \<Rightarrow> bool" where
  "keeps_inv P m \<longleftrightarrow> (\<forall>s x t. P s \<longrightarrow> m s = Done x t \<longrightarrow> P t)"

lemma keeps_invD: "keeps_inv P m \<Longrightarrow> P s \<Longrightarrow> m s = Done x t \<Longrightarrow> P t"
  unfolding keeps_inv_def by blast

lemma keeps_inv_bind:
  assumes "keeps_inv P m" "\<And>x. keeps_inv P (f x)"
  shows "keeps_inv P (bindM m f)"
  unfolding keeps_inv_def
proof (intro allI impI)
  fix s y u
  assume s: "P s" and run: "bindM m f s = Done y u"
  then obtain x t where t: "m s = Done x t" "f x t = Done y u" by (auto split: outcome.splits)
  from keeps_invD [OF assms(2) keeps_invD [OF assms(1) s t(1)] t(2)] show "P u" .
qed

lemma keeps_inv_then: "keeps_inv P m \<Longrightarrow> keeps_inv P n \<Longrightarrow> keeps_inv P (thenM m n)"
  unfolding thenM_def by (rule keeps_inv_bind)

lemma keeps_inv_simple: "keeps_inv P (retM x)" "keeps_inv P (stopM e)" "keeps_inv P abortM" "keeps_inv P (getsM f)"
  by (auto simp: keeps_inv_def)

lemma keeps_inv_if: "(b \<Longrightarrow> keeps_inv P m) \<Longrightarrow> (\<not> b \<Longrightarrow> keeps_inv P n) \<Longrightarrow> keeps_inv P (if b then m else n)"
  by simp

lemma keeps_inv_when: "(b \<Longrightarrow> keeps_inv P m) \<Longrightarrow> keeps_inv P (whenM b m)"
  by (simp add: whenM_def keeps_inv_simple)

lemma keeps_inv_option: "keeps_inv P n \<Longrightarrow> (\<And>x. keeps_inv P (f x)) \<Longrightarrow> keeps_inv P (case opt of None \<Rightarrow> n | Some x \<Rightarrow> f x)"
  by (cases opt) simp_all

lemma keeps_inv_forM: "(\<And>x. keeps_inv P (f x)) \<Longrightarrow> keeps_inv P (forM xs f)"
  by (induction xs) (auto intro: keeps_inv_then keeps_inv_simple)

lemma keeps_inv_answer: "keeps_inv P m \<Longrightarrow> keeps_inv P (answer f m)" "keeps_inv P m \<Longrightarrow> keeps_inv P (void m)"
  unfolding answer_def void_def by (intro keeps_inv_bind keeps_inv_simple, assumption)+

lemma keeps_inv_state: "(\<And>s. keeps_inv P (f s)) \<Longrightarrow> keeps_inv P (\<lambda>s. f s s)"
  unfolding keeps_inv_def by blast

text \<open>The run queue: no handle twice, never the main one; the scheduler's input is in order.\<close>

definition queue_inv :: "'z sched_scheme \<Rightarrow> bool" where
  "queue_inv s \<longleftrightarrow> distinct (runnable s) \<and> main_handle s \<notin> set (runnable s) \<and> fuzz_ok (thread_choices s)"

abbreviation keepsq :: "('a, 'z sched_scheme) prog \<Rightarrow> bool" where
  "keepsq \<equiv> keeps_inv queue_inv"

lemma keepsq_modify:
  assumes "\<And>s. queue_inv s \<Longrightarrow> queue_inv (f s)"
  shows "keepsq (modifyM f)"
  using assms by (auto simp: keeps_inv_def)

lemma keepsq_queue: "keepsq (MakeRunnable h)" "keepsq (MakeNotRunnable h)" "keepsq (MakeAllRunnable hs)" "keepsq (mark_destroyed h)"
  "keepsq (SetInterruptsEnabled b)" "keepsq GetInterruptsEnabled" "keepsq CleanupDeadThreads" "keepsq (take_runnable i)"
proof -
  show r: "keepsq (MakeRunnable h)" for h :: handle
    by (auto simp: keeps_inv_def queue_inv_def MakeRunnable_def sIsRunnable_def split: if_splits)
  show "keepsq (MakeAllRunnable hs)" unfolding MakeAllRunnable_def by (intro keeps_inv_forM r)
  show "keepsq (take_runnable i)"
    by (auto simp: keeps_inv_def queue_inv_def take_runnable_def remove1_nth split: if_splits dest: notin_set_remove1)
qed (auto simp: keeps_inv_def queue_inv_def MakeNotRunnable_def mark_destroyed_def GetInterruptsEnabled_def CleanupDeadThreads_def
    split: if_splits dest: notin_set_remove1)

lemma keepsq_choice: "keepsq (thread_choice n)"
  by (auto simp: keeps_inv_def queue_inv_def thread_choice_def rand_def fuzz_ok_def split: option.splits prod.splits list.splits if_splits
      dest: fdp_ok_u64_in_range [OF _ word_zero_le])

lemma keepsq_GetRandomRunnableHandle: "keepsq (GetRandomRunnableHandle e :: (handle, 'z sched_scheme) prog)"
proof -
  define F :: "nat \<Rightarrow> fuzz \<Rightarrow> (handle, 'z sched_scheme) prog" where "F n c = (if n = 1 then take_runnable 0
     else case c of None \<Rightarrow> take_runnable (n - 1)
     | Some _ \<Rightarrow> bindM (thread_choice (if e then n else n - 1)) (\<lambda>idx.
         thenM (modifyM (\<lambda>s. s\<lparr>bytes_needed := bytes_needed s + 1\<rparr>))
           (if e \<and> n \<le> idx then bindM (getsM current) (\<lambda>cur. thenM (MakeNotRunnable cur) (retM cur)) else take_runnable idx)))"
    for n c
  have "keepsq (F n c)" for n c unfolding F_def
    by (intro keeps_inv_if keeps_inv_option keeps_inv_bind keeps_inv_then keeps_inv_simple keepsq_queue keepsq_choice keepsq_modify)
      (simp add: queue_inv_def)
  then have "keepsq (\<lambda>s. F (length (runnable s)) (thread_choices s) s)" by (rule keeps_inv_state)
  moreover have "GetRandomRunnableHandle e = (\<lambda>s. F (length (runnable s)) (thread_choices s) s)"
    by (auto simp: fun_eq_iff GetRandomRunnableHandle_def F_def Let_def split: option.split)
  ultimately show ?thesis by simp
qed

lemma keepsq_ChooseThread: "keepsq (ChooseThread e)"
proof -
  have "ChooseThread e s = Done h t \<Longrightarrow> queue_inv s \<Longrightarrow> queue_inv t" for s t :: "'a sched_scheme" and h
  proof (induction e s rule: ChooseThread.induct)
    case (1 e s)
    from "1.prems" show ?case
      by (subst (asm) ChooseThread.simps)
        (auto split: if_splits outcome.splits intro: "1.IH" dest: keeps_invD [OF keepsq_GetRandomRunnableHandle])
  qed
  then show ?thesis unfolding keeps_inv_def by blast
qed


lemmas keeps_basics = keeps_inv_if keeps_inv_when keeps_inv_option keeps_inv_bind keeps_inv_then keeps_inv_simple keeps_inv_answer
  keepsq_queue keepsq_choice keepsq_ChooseThread keepsq_modify

section \<open>The host\<close>

lemma keepsq_at: "keepsq (\<lambda>s. MakeRunnable (g s) s)" "keepsq (\<lambda>s. MakeNotRunnable (g s) s)"
  by (rule keeps_inv_state, rule keepsq_queue)+

lemma keepsq_kthread: "keepsq (kthread_get th)" "keepsq (kthread_upd th f)"
proof -
  show g: "keepsq (kthread_get th)" for th :: thread_t
    by (auto simp: keeps_inv_def kthread_get_def split: option.splits)
  show "keepsq (kthread_upd th f)" unfolding kthread_upd_def
    by (intro keeps_basics g) (simp add: queue_inv_def)
qed

lemma keepsq_flags:
  "keepsq (SetCurrentThreadT th)" "keepsq (SetRunnable th)" "keepsq (SetNotRunnable th)" "keepsq (SetTerminating th)" "keepsq (SetWaiting th)"
  "keepsq (SetNotWaiting th)" "keepsq (SetWaitReport th)" "keepsq (SetNotWaitReport th)" "keepsq (SetUninterruptible th)"
  "keepsq (SetNotUninterruptible th)" "keepsq (SetEnqueuedForTermination th)" "keepsq (SetWaitResult th r)"
  "keepsq (SetContinuation th c p)" "keepsq BlockCopyin" "keepsq UnblockCopyin" "keepsq (ThreadDestroyed h)" "keepsq (ThreadUnstop th)"
  unfolding SetCurrentThreadT_def SetRunnable_def SetNotRunnable_def flag_defs SetContinuation_def BlockCopyin_def UnblockCopyin_def
    ThreadDestroyed_def ThreadUnstop_def
  by (intro keeps_basics keepsq_at; simp add: queue_inv_def Let_def)+

lemma keepsq_threads:
  "keepsq (SetSuspended th)" "keepsq (SetNotSuspended th)" "keepsq (ThreadClearWait th r)" "keepsq (ThreadSetUninterruptibleWait th)"
  "keepsq (ThreadClearUninterruptibleWait th)" "keepsq ThreadWillBlock" "keepsq (sThreadDestroyed h)" "keepsq CallContinuationIfPresent"
  "keepsq SyscallReturn" "keepsq (NotifyDestroyed th)" "keepsq GetMainThread"
  unfolding SetSuspended_def SetNotSuspended_def ThreadClearWait_def ThreadSetUninterruptibleWait_def ThreadClearUninterruptibleWait_def
    ThreadWillBlock_def sThreadDestroyed_def CallContinuationIfPresent_def SyscallReturn_def NotifyDestroyed_def GetMainThread_def
  by (intro keeps_basics keepsq_flags; simp add: queue_inv_def)+

lemma keepsq_ThreadResumed: "keepsq ThreadResumed"
  unfolding ThreadResumed_def by (intro keeps_basics keepsq_threads)

lemma keepsq_CreateThread: "keepsq (CreateThread th run)"
proof -
  have c: "keepsq executor_CreateThread"
    by (auto simp: keeps_inv_def executor_CreateThread_def queue_inv_def split: list.splits)
  have "keepsq (sCreateThread run)" unfolding sCreateThread_def
    by (intro keeps_basics c) (simp add: queue_inv_def)
  moreover have "keepsq (\<lambda>s. if P s then Stopped HostAbort else Done () s)" for P
    by (auto simp: keeps_inv_def)
  ultimately show ?thesis unfolding CreateThread_def
    by (intro keeps_basics) (simp_all add: queue_inv_def)
qed

text \<open>What the host asks of the code it calls: the coroutines it switches to, and XNU.\<close>

definition xnu_keeps :: "'z xnu_thread \<Rightarrow> bool" where
  "xnu_keeps xnu \<longleftrightarrow> (\<forall>h. keepsq (co_switch xnu h)) \<and> (\<forall>th. keepsq (thread_terminate_enqueue xnu th)) \<and>
     (\<forall>th. keepsq (thread_terminate xnu th)) \<and> (\<forall>th. keepsq (thread_abort xnu th)) \<and> (\<forall>p k th. keepsq (sched_callback xnu p k th)) \<and>
     (\<forall>th. keepsq (timer_call_cancel xnu th)) \<and> (\<forall>th. keepsq (thread_wakeup_event xnu th)) \<and>
     (\<forall>th i. keepsq (assert_wait_event xnu th i))"

lemma xnu_keepsD:
  assumes "xnu_keeps xnu"
  shows "keepsq (co_switch xnu h)" "keepsq (thread_terminate_enqueue xnu th)" "keepsq (thread_terminate xnu th)"
    "keepsq (thread_abort xnu th)" "keepsq (sched_callback xnu p k th)" "keepsq (timer_call_cancel xnu th)"
    "keepsq (thread_wakeup_event xnu th)" "keepsq (assert_wait_event xnu th i)"
  using assms unfolding xnu_keeps_def by blast+

lemmas keeps_host = keeps_basics keepsq_kthread keepsq_flags keepsq_threads keepsq_ThreadResumed keepsq_CreateThread keepsq_at

lemma keepsq_callbacks:
  assumes "xnu_keeps xnu"
  shows "keepsq (XNUThreadEnqueueTermination xnu th)" "keepsq (XNUThreadSchedCallNotifyBlocked xnu th)"
    "keepsq (XNUThreadSchedCallNotifyUnblocked xnu th)" "keepsq (XNUThreadCancelWaitTimer xnu th)" "keepsq (XNUThreadSignalWake xnu th)"
    "keepsq (XNUThreadTerminate xnu th)" "keepsq (XNUThreadAbort xnu th)" "keepsq (XNUAssertWait xnu th i)"
  unfolding XNUThreadEnqueueTermination_def XNUThreadSchedCallNotifyBlocked_def XNUThreadSchedCallNotifyUnblocked_def
    sched_call_notify_def XNUThreadCancelWaitTimer_def XNUThreadSignalWake_def XNUThreadTerminate_def XNUThreadAbort_def XNUAssertWait_def
  by (intro keeps_host xnu_keepsD [OF assms])+

lemma keepsq_switch:
  assumes "xnu_keeps xnu"
  shows "keepsq (sSwitchTo xnu h)" "keepsq (SwitchTo xnu h)" "keepsq ThreadSelect" "keepsq (ThreadWakeup xnu th r)"
proof -
  have e: "keepsq (executor_SwitchTo xnu h)" for h
    unfolding executor_SwitchTo_def by (intro keeps_host xnu_keepsD [OF assms]) (simp add: queue_inv_def)
  show s: "keepsq (sSwitchTo xnu h)" for h unfolding sSwitchTo_def by (intro keeps_host e)
  have "keepsq (SwitchFrom xnu th)" for th
    unfolding SwitchFrom_def ThreadSetBlocked_def by (intro keeps_host keepsq_callbacks [OF assms])
  then show "keepsq (SwitchTo xnu h)" unfolding SwitchTo_def by (intro keeps_host s)
qed (unfold ThreadSelect_def ThreadWakeup_def, (intro keeps_host keepsq_callbacks [OF assms])+)

lemma keepsq_block:
  assumes "xnu_keeps xnu"
  shows "keepsq (ThreadBlock xnu)" "keepsq (ThreadBlockReason xnu c p)" "keepsq (Yield xnu)" "keepsq (sBlock xnu)"
    "keepsq (ThreadGo xnu th r)" "keepsq (XNUThreadMarkWaitLocked xnu th i)" "keepsq (XNUThreadWait xnu fuel th b)" "keepsq (RunUntilEmpty xnu fuel)"
proof -
  show b: "keepsq (ThreadBlock xnu)" unfolding ThreadBlock_def by (intro keeps_host keepsq_switch [OF assms])
  show r: "keepsq (ThreadBlockReason xnu c p)" for c p unfolding ThreadBlockReason_def by (intro keeps_host b)
  have "keepsq (\<lambda>s. sSwitchTo xnu (main_handle s) s)" by (rule keeps_inv_state, rule keepsq_switch [OF assms])
  then show "keepsq (sBlock xnu)" unfolding sBlock_def by (intro keeps_host)
  show "keepsq (Yield xnu)" unfolding Yield_def by (intro keeps_host b)
  show "keepsq (XNUThreadWait xnu fuel th b)" for b
  proof (induction fuel)
    case 0
    show ?case unfolding XNUThreadWait.simps by (intro keeps_host)
  next
    case (Suc fuel)
    show ?case unfolding XNUThreadWait.simps by (intro keeps_host keepsq_callbacks [OF assms] r Suc)
  qed
  show "keepsq (RunUntilEmpty xnu fuel)"
  proof (induction fuel)
    case 0
    show ?case unfolding RunUntilEmpty.simps by (intro keeps_host)
  next
    case (Suc fuel)
    show ?case unfolding RunUntilEmpty.simps by (intro keeps_host keepsq_switch [OF assms] Suc)
  qed
qed (unfold ThreadGo_def XNUThreadMarkWaitLocked_def, (intro keeps_host keepsq_switch [OF assms])+)


section \<open>Locks\<close>

lemma keepsq_cells: "keepsq (mutex_get m)" "keepsq (rw_get l)" "keepsq (mutex_upd m f)" "keepsq (rw_upd l g)" "keepsq (deref p)"
proof -
  show m: "keepsq (mutex_get m)" and r: "keepsq (rw_get l)" for m l
    by (auto simp: keeps_inv_def mutex_get_def rw_get_def split: option.splits)
  show "keepsq (mutex_upd m f)" "keepsq (rw_upd l g)" "keepsq (deref p)" unfolding mutex_upd_def rw_upd_def deref_def
    by (intro keeps_basics m r; simp add: queue_inv_def)+
qed

lemma keepsq_allocation: "keepsq AllocateMutex" "keepsq AllocateRwLock" "keepsq (FreeMutex m)" "keepsq (FreeRwLock l)"
  by (auto simp: keeps_inv_def allocate_defs queue_inv_def split: list.splits option.splits outcome.splits)

lemma keepsq_mutex:
  "keepsq (mutex_AddWaiter m)" "keepsq (mutex_acquire m)" "keepsq (mutex_Held m)" "keepsq (mutex_TryLock m)" "keepsq (mutex_AssertHeld m)"
  "keepsq (mutex_Unlock m)" "keepsq (rw_AddWaiter l)" "keepsq (rw_RemoveWaiter l)" "keepsq (AddOwner l)" "keepsq (RemoveOwner l)"
  "keepsq (IsShared l)"
  unfolding mutex_AddWaiter_def mutex_acquire_def mutex_RemoveWaiter_def mutex_TryLock_def mutex_Unlock_def mutex_AssertHeld_def mutex_Held_def
    rw_AddWaiter_def rw_RemoveWaiter_def AddOwner_def RemoveOwner_def IsShared_def
  by (intro keeps_basics keepsq_cells)+

lemmas keeps_locks = keeps_basics keepsq_cells keepsq_allocation keepsq_mutex

lemma keepsq_rw: "keepsq (TryLockExclusive l)" "keepsq (TryLockShared l)" "keepsq (UnlockExclusive l)" "keepsq (ExclusiveToShared l)"
  "keepsq (SharedToExclusive l)"
  unfolding TryLockExclusive_def TryLockShared_def UnlockExclusive_def ExclusiveToShared_def SharedToExclusive_def
  by (intro keeps_locks)+

lemma keepsq_waiting:
  assumes "xnu_keeps xnu"
  shows "keepsq (mutex_Lock xnu fuel m)" "keepsq (rw_wait_readers xnu fuel l)" "keepsq (tlock_yield_waiters xnu fuel m)"
    "keepsq (LockExclusive_loop xnu n fuel l)"
proof -
  show m: "keepsq (mutex_Lock xnu fuel m)" for fuel m
    by (induction fuel; unfold mutex_Lock.simps; intro keeps_locks keepsq_block [OF assms]; assumption?)
  show w: "keepsq (rw_wait_readers xnu fuel l)" for fuel l
    by (induction fuel; unfold rw_wait_readers.simps; intro keeps_locks keepsq_block [OF assms]; assumption?)
  show "keepsq (tlock_yield_waiters xnu fuel m)"
    by (induction fuel; unfold tlock_yield_waiters.simps; intro keeps_locks keepsq_block [OF assms]; assumption?)
  show "keepsq (LockExclusive_loop xnu n fuel l)"
    by (induction fuel; unfold LockExclusive_loop.simps; intro keeps_locks m w; assumption?)
qed

lemma keepsq_lock:
  assumes "xnu_keeps xnu"
  shows "keepsq (LockExclusive xnu fuel l)" "keepsq (LockShared xnu fuel l)" "keepsq (UnlockShared xnu fuel l)" "keepsq (rw_Unlock xnu fuel l)"
    "keepsq (tlock_Lock xnu fuel p b)" "keepsq (tlock_Destroy xnu fuel p b)"
  unfolding LockExclusive_def LockShared_def UnlockShared_def rw_Unlock_def tlock_Lock_def tlock_Destroy_def tlock_WakeupWaiters_def
  by (intro keeps_locks keepsq_rw keepsq_waiting [OF assms]; simp add: queue_inv_def)+

lemma keepsq_ticket: "keepsq (tlock_Allocate p)" "keepsq (tlock_Invalidate p)" "keepsq (tlock_IsValid p)" "keepsq (tlock_TryLock p)"
  "keepsq (tlock_Unlock p)" "keepsq (tlock_Held p)" "keepsq (FreeVirtualMutex p)"
  unfolding tlock_Allocate_def tlock_Invalidate_def tlock_IsValid_def tlock_TryLock_def tlock_Unlock_def tlock_Held_def FreeVirtualMutex_def
  by (intro keeps_locks; simp add: queue_inv_def)+

section \<open>The interface\<close>

text \<open>What a guest needs for the whole interface: the callbacks above, the AST handler, the boot and a byte source that is in order.\<close>

definition guest_keeps :: "'z hc_env \<Rightarrow> bool" where
  "guest_keeps e \<longleftrightarrow> xnu_keeps (hc_xnu e) \<and> keepsq (ast_taken_user (hc_machine e)) \<and> keepsq (initialize_kernel (s_bsd (hc_session e))) \<and>
     (\<forall>bs. fdp_ok (provider (hc_session e) bs))"

lemma keepsq_InitializeHost:
  assumes "guest_keeps e"
  shows "keepsq (InitializeHost (hc_session e))"
proof -
  have x: "xnu_keeps (hc_xnu e)" and k: "keepsq (initialize_kernel (s_bsd (hc_session e)))" and p: "fdp_ok (provider (hc_session e) [])"
    using assms by (simp_all add: guest_keeps_def)
  show ?thesis unfolding InitializeHost_def SetThreadChoices_def SetRandSeed_def
    by (intro keeps_basics k keepsq_block [OF x]) (simp_all add: queue_inv_def new_Host_def p fuzz_ok_def)
qed

lemma keepsq_fuzz: "keepsq (fuzzM m)" "keepsq (heapM n)"
  by (auto simp: keeps_inv_def fuzzM_def heapM_def queue_inv_def zoomM_def split: outcome.splits)

lemma keepsq_log_id: "keepsq (log_id th)"
  unfolding log_id_def GetId_def by (intro keeps_basics) (simp add: queue_inv_def)

lemma keepsq_hypercall:
  assumes "guest_keeps e"
  shows "keepsq (run_hypercall e c)"
proof -
  have x: "xnu_keeps (hc_xnu e)" and a: "keepsq (ast_taken_user (hc_machine e))" using assms by (simp_all add: guest_keeps_def)
  have t: "keepsq (ThreadFinished (hc_xnu e) (hc_machine e))"
    unfolding ThreadFinished_def by (intro keeps_basics a keepsq_callbacks [OF x])
  have "keepsq (run_basic e b)" for b
    by (cases b; simp only: run_basic.simps sync_ref.case) (intro keeps_host keepsq_block [OF x] keepsq_InitializeHost [OF assms])+
  moreover have "keepsq (run_fuzz f)" for f
    by (cases f; simp only: run_fuzz.simps sync_ref.case) (intro keeps_basics keepsq_fuzz)+
  moreover have "keepsq (run_thread e th)" for th
    by (cases th; simp only: run_thread.simps sync_ref.case)
      (intro keeps_host keepsq_block [OF x] keepsq_callbacks [OF x] keepsq_switch [OF x] keepsq_ticket keepsq_log_id t)+
  moreover have "keepsq (run_mutex e m)" for m
    by (cases m; simp only: run_mutex.simps IsOwned_def sync_ref.case) (intro keeps_locks keepsq_waiting [OF x])+
  moreover have "keepsq (run_ticket e k)" for k
    by (cases k; simp only: run_ticket.simps sync_ref.case) (intro keeps_locks keepsq_ticket keepsq_lock [OF x])+
  moreover have "keepsq (run_rw e r)" for r
    by (cases r; simp only: run_rw.simps sync_ref.case) (intro keeps_locks keepsq_rw keepsq_lock [OF x])+
  ultimately show ?thesis by (cases c) simp_all
qed

text \<open>The states a guest can bring the host to: any number of calls, in any order.\<close>

inductive hc_reaches :: "'z hc_env \<Rightarrow> 'z sstate_scheme \<Rightarrow> 'z sstate_scheme \<Rightarrow> bool" for e s where
  hc_none: "hc_reaches e s s"
| hc_call: "hc_reaches e s t \<Longrightarrow> run_hypercall e c t = Done r u \<Longrightarrow> hc_reaches e s u"

lemma hc_reaches_queue_inv:
  assumes "guest_keeps e" "queue_inv s" "hc_reaches e s t"
  shows "queue_inv t"
  using assms(3,2) by induction (auto dest: keeps_invD [OF keepsq_hypercall [OF assms(1)]])

text \<open>C6. The run queue survives the guest. Whatever hypercalls the guest makes, in whatever order and number, as long as they
  return: no thread is queued twice, the main thread, which the scheduler must never pick, is never queued, and the input
  that decides the next thread stays in order.\<close>

theorem hypercalls_keep_queue:
  assumes "guest_keeps e" "queue_inv s" "hc_reaches e s t"
  shows "distinct (runnable t) \<and> main_handle t \<notin> set (runnable t) \<and> fuzz_ok (thread_choices t)"
  using hc_reaches_queue_inv [OF assms] by (simp add: queue_inv_def)


definition hc_env_example :: "unit hc_env" where
  "hc_env_example = \<lparr>hc_session = session_env_example,
     hc_machine = \<lparr>sched_lock_at = (\<lambda>th. th), wake_lock_at = (\<lambda>th. th + 1), depress_timer_lock_at = (\<lambda>th. th + 2),
       wait_timer_lock_at = (\<lambda>th. th + 3), thread_initialize_kernel_state = (\<lambda>_. retM ()), thread_get_thread_name = (\<lambda>_. []),
       ast_taken_user = retM (), current_bsdtask = (\<lambda>_. 90), initproc = 81\<rparr>,
     hc_fuel = 2\<rparr>"

lemma keepsq_example_parts:
  "keepsq (CallPendingFunctionThenSwap (\<lambda>_. Some (retM ())) h)"
  "keepsq (initialize_kernel (xb_example\<lparr>allproc := A, nprocs := N\<rparr>))"
proof -
  show "keepsq (CallPendingFunctionThenSwap (\<lambda>_. Some (retM ())) h)" unfolding CallPendingFunctionThenSwap_def option.case
    by (intro keeps_host) (simp add: queue_inv_def)
  show "keepsq (initialize_kernel (xb_example\<lparr>allproc := A, nprocs := N\<rparr>))"
    unfolding initialize_kernel_def cpu_init_def osfmk_bootstrap_def machine_set_current_thread_def
    by (simp add: xb_example_def, intro keeps_host)
qed

lemma hc_env_example_keeps: "guest_keeps hc_env_example"
  by (simp add: guest_keeps_def xnu_keeps_def hc_env_example_def session_env_example_def keepsq_example_parts)
    (simp add: xnu_idle_def keepsq_example_parts keeps_inv_simple byte_fdp_ok)

lemma sstate_example_fields:
  "runnable sstate_example = [7, 5]" "main_handle sstate_example = 1" "internal_to_handle sstate_example = [100 \<mapsto> 1, 500 \<mapsto> 5, 700 \<mapsto> 7]"
  "7 \<notin> pending_deletion sstate_example" "readable_ids sstate_example = Map.empty" "thread_choices sstate_example = None"
  by (simp_all add: sstate_example_def cstate.defs cstate_example_def bstate.defs bstate_example_defs)

lemma sstate_example_queue: "queue_inv sstate_example"
  by (simp add: queue_inv_def sstate_example_fields fuzz_ok_def)

theorem hypercalls_keep_queue_witness:
  "\<exists>t. hc_reaches hc_env_example sstate_example t \<and> runnable sstate_example = [7, 5] \<and> runnable t = [5, 7] \<and>
     distinct (runnable t) \<and> main_handle t \<notin> set (runnable t)"
proof -
  note st = sstate_example_fields
  define stop go where "stop = Thread (Hc_ThreadSetSuspended 700)" and "go = Thread (Hc_ThreadSetNotSuspended 700)"
  obtain t where t: "run_hypercall hc_env_example stop sstate_example = Done RVoid t" "runnable t = [5]" "main_handle t = 1"
    "internal_to_handle t = [100 \<mapsto> 1, 500 \<mapsto> 5, 700 \<mapsto> 7]" "suspended_runnable t = insert 700 (suspended_runnable sstate_example)"
    "readable_ids t = [7 \<mapsto> next_thread_id sstate_example]" "7 \<notin> pending_deletion t"
    using st by (simp add: stop_def void_def log_id_def GetId_def SetSuspended_def IsRunnable_def sIsRunnable_def ThreadTToHandle_def
        SetNotRunnable_def MakeNotRunnable_def)
  obtain u where u: "run_hypercall hc_env_example go t = Done RVoid u" "runnable u = [5, 7]"
    using t by (simp add: go_def void_def log_id_def GetId_def SetNotSuspended_def sIsRunnable_def ThreadTToHandle_def
        SetRunnable_def MakeRunnable_def)
  have "hc_reaches hc_env_example sstate_example u" using hc_call [OF hc_call [OF hc_none t(1)] u(1)] .
  then show ?thesis using hypercalls_keep_queue [OF hc_env_example_keeps sstate_example_queue] u(2) st(1) by blast
qed

end
