(* ===== verification/Logger.thy ===== *)
theory Logger
  imports Session
begin

text \<open>
  The log of the host: \<open>fuzz/host/logger.cc\<close> with its word lists in \<open>fuzz/host/words/\<close>, and the printing part of
  \<open>fuzz/host/host.cc\<close>. A message that prints pointers gets a readable name beside each of them: the format \<open>%p\<close> is wrapped in
  a marker, the text that \<open>vsnprintf\<close> makes is cut at the markers, the numbers are parsed back and each new address is given a
  name made of an adjective and a noun that no other address has.

  The conversion of the arguments is \<open>vsnprintf\<close> of the C library, the argument \<open>vformat\<close>; \<open>prng i\<close> is the result of draw
  number \<open>i\<close> of the generator of names. The loop that draws names until one is free need not end: \<open>fuel\<close> bounds it. The first
  property says that enough fuel gives the result while names are left, the second that no fuel does once they have run out.
\<close>

section \<open>State\<close>

datatype log_subsystem = VIRTUAL_MEMORY | TICKET_LOCK | THREAD | ABORT | ANY_SUBSYSTEM

record lgstate = sstate +
  subsystems :: "log_subsystem \<Rightarrow> bool"
  log_enabled :: bool
  drawn :: nat
  pointer_names :: "u64 \<rightharpoonup> string"
  pointer_names_used :: "string set"
  out :: string

text \<open>The errors of \<open>absl::InvalidArgumentError\<close>.\<close>

datatype log_error = InvalidToken string | InvalidValue string | VsnprintfFailed

section \<open>Names\<close>

definition adjectives :: "string list" where
  "adjectives = [
    ''admiring'', ''adoring'', ''affectionate'', ''agile'', ''amazing'', ''ambitious'', ''amused'', ''brave'', ''bright'',
    ''charming'', ''clever'', ''cool'', ''compassionate'', ''competent'', ''confident'', ''curious'', ''dazzling'',
    ''determined'', ''diligent'', ''eager'', ''energetic'', ''enthusiastic'', ''friendly'', ''funny'', ''generous'',
    ''gentle'', ''happy'', ''harmonious'', ''helpful'', ''imaginative'', ''jolly'', ''kind'', ''lively'', ''loving'',
    ''loyal'', ''nice'', ''optimistic'', ''passionate'', ''patient'', ''peaceful'', ''plucky'', ''proud'', ''quirky'',
    ''relaxed'', ''reliable'', ''silly'', ''sincere'', ''sympathetic'', ''thoughtful'', ''warmhearted'', ''wise'',
    ''wonderful'']"

definition nouns :: "string list" where
  "nouns = [
    ''albatross'', ''beaver'', ''cat'', ''dolphin'', ''elephant'', ''falcon'', ''giraffe'', ''hedgehog'', ''iguana'',
    ''jaguar'', ''kangaroo'', ''lion'', ''monkey'', ''nightingale'', ''octopus'', ''penguin'', ''quokka'', ''rabbit'',
    ''squirrel'', ''tiger'', ''unicorn'', ''vulture'', ''whale'', ''xenops'', ''yak'', ''zebra'']"

text \<open>\<open>absl::AsciiStrToLower\<close>.\<close>

definition AsciiStrToLower :: "string \<Rightarrow> string" where
  "AsciiStrToLower s = map (\<lambda>c. if 65 \<le> (of_char c :: nat) \<and> (of_char c :: nat) \<le> 90 then char_of (of_char c + 32 :: nat) else c) s"

definition name_at :: "nat \<Rightarrow> string" where
  "name_at index = adjectives ! (index mod length adjectives) @ ''_'' @
     AsciiStrToLower (nouns ! (index div length adjectives mod length nouns))"

definition GetRandomIndexForPointerName :: "(nat \<Rightarrow> nat) \<Rightarrow> (nat, 'z lgstate_scheme) prog" where
  "GetRandomIndexForPointerName prng = (\<lambda>s. Done (prng (drawn s)) (s\<lparr>drawn := drawn s + 1\<rparr>))"

primrec draw_name :: "(nat \<Rightarrow> nat) \<Rightarrow> nat \<Rightarrow> u64 \<Rightarrow> (string, 'z lgstate_scheme) prog" where
  "draw_name prng 0 ptr = stopM Diverge"
| "draw_name prng (Suc fuel) ptr =
     bindM (GetRandomIndexForPointerName prng) (\<lambda>index.
     bindM (getsM (\<lambda>s. name_at index \<in> pointer_names_used s)) (\<lambda>used.
       if used then draw_name prng fuel ptr
       else thenM (modifyM (\<lambda>s. s\<lparr>pointer_names_used := insert (name_at index) (pointer_names_used s),
                                  pointer_names := (pointer_names s)(ptr \<mapsto> name_at index)\<rparr>))
              (retM (name_at index))))"

definition GenerateNameFromPointer :: "(nat \<Rightarrow> nat) \<Rightarrow> nat \<Rightarrow> u64 \<Rightarrow> (string, 'z lgstate_scheme) prog" where
  "GenerateNameFromPointer prng fuel ptr = bindM (getsM (\<lambda>s. pointer_names s ptr)) (\<lambda>it. case it of
     Some name \<Rightarrow> retM name
   | None \<Rightarrow> draw_name prng fuel ptr)"

section \<open>Messages with pointers\<close>

fun ReplacePointerPlaceholders :: "string \<Rightarrow> string" where
  "ReplacePointerPlaceholders [] = []"
| "ReplacePointerPlaceholders [c] = [c]"
| "ReplacePointerPlaceholders (c # d # cs) =
     (if c = CHR ''%'' \<and> d = CHR ''p'' then ''[ptr:%p]'' @ ReplacePointerPlaceholders cs
      else c # ReplacePointerPlaceholders (d # cs))"

text \<open>\<open>absl::StrSplit\<close> at every \<open>[ptr:\<close>, and at the first \<open>]\<close>.\<close>

fun split_ptr :: "string \<Rightarrow> string list" where
  "split_ptr [] = [[]]"
| "split_ptr (c # cs) =
     (if take 5 (c # cs) = ''[ptr:'' then [] # split_ptr (drop 4 cs)
      else (c # hd (split_ptr cs)) # tl (split_ptr cs))"

definition split_bracket :: "string \<Rightarrow> string list" where
  "split_bracket s = (case dropWhile (\<lambda>c. c \<noteq> CHR '']'') s of
     [] \<Rightarrow> [s]
   | _ # rest \<Rightarrow> [takeWhile (\<lambda>c. c \<noteq> CHR '']'') s, rest])"

text \<open>\<open>std::stoull\<close>: leading white space, a sign, the prefix of base 16, as many digits as there are. No digit and a number
  over 64 bits are exceptions; a negative number wraps.\<close>

definition digit_value :: "char \<Rightarrow> nat option" where
  "digit_value c = (let n = of_char c :: nat in
     if 48 \<le> n \<and> n \<le> 57 then Some (n - 48)
     else if 97 \<le> n \<and> n \<le> 122 then Some (n - 87)
     else if 65 \<le> n \<and> n \<le> 90 then Some (n - 55) else None)"

definition is_digit :: "nat \<Rightarrow> char \<Rightarrow> bool" where
  "is_digit base c = (case digit_value c of None \<Rightarrow> False | Some d \<Rightarrow> d < base)"

definition digits_value :: "nat \<Rightarrow> string \<Rightarrow> nat" where
  "digits_value base = foldl (\<lambda>acc c. acc * base + the (digit_value c)) 0"

definition isspace :: "char \<Rightarrow> bool" where
  "isspace c \<longleftrightarrow> c = CHR '' '' \<or> 9 \<le> (of_char c :: nat) \<and> (of_char c :: nat) \<le> 13"

definition strip_prefix :: "nat \<Rightarrow> string \<Rightarrow> string" where
  "strip_prefix base s = (case s of
     z # x # d # ds \<Rightarrow> if base = 16 \<and> z = CHR ''0'' \<and> (x = CHR ''x'' \<or> x = CHR ''X'') \<and> is_digit 16 d then d # ds else s
   | _ \<Rightarrow> s)"

definition stoull_unsigned :: "nat \<Rightarrow> string \<Rightarrow> nat option" where
  "stoull_unsigned base s = (let ds = takeWhile (is_digit base) (strip_prefix base s) in
     if ds = [] then None else if 2 ^ 64 \<le> digits_value base ds then None else Some (digits_value base ds))"

definition stoull :: "nat \<Rightarrow> string \<Rightarrow> u64 option" where
  "stoull base s = (case dropWhile isspace s of
     [] \<Rightarrow> None
   | c # cs \<Rightarrow> if c = CHR ''-'' then map_option (\<lambda>n. - of_nat n) (stoull_unsigned base cs)
              else map_option of_nat (stoull_unsigned base (if c = CHR ''+'' then cs else c # cs)))"

definition parse_pointer :: "string \<Rightarrow> log_error + u64" where
  "parse_pointer part = (if part = ''(nil)'' then Inr 0
     else case stoull (if take 2 part = ''0x'' \<or> take 2 part = ''0X'' then 16 else 10) part of
       None \<Rightarrow> Inl (InvalidValue part)
     | Some v \<Rightarrow> Inr v)"

primrec extract_tokens :: "string list \<Rightarrow> log_error + u64 option list" where
  "extract_tokens [] = Inr []"
| "extract_tokens (t # ts) = (case split_bracket t of
     [part, rest] \<Rightarrow> (case parse_pointer part of
        Inl e \<Rightarrow> Inl e
      | Inr v \<Rightarrow> (case extract_tokens ts of Inl e \<Rightarrow> Inl e | Inr vs \<Rightarrow> Inr (Some v # vs)))
   | _ \<Rightarrow> Inl (InvalidToken t))"

definition ExtractPointers :: "string \<Rightarrow> log_error + u64 option list" where
  "ExtractPointers formatted = extract_tokens (tl (split_ptr formatted))"

text \<open>One pointer of the message, for the text behind its marker; \<open>parts[1]\<close> of a text without bracket is out of range.\<close>

definition format_pointer :: "(nat \<Rightarrow> nat) \<Rightarrow> nat \<Rightarrow> u64 option \<Rightarrow> string \<Rightarrow> (string, 'z lgstate_scheme) prog" where
  "format_pointer prng fuel ptr token = (case ptr of
     None \<Rightarrow> retM (''[ptr:'' @ token)
   | Some v \<Rightarrow> (case split_bracket token of
       [_, rest] \<Rightarrow>
         if v = 0 then retM (''(nil)'' @ rest)
         else bindM (GenerateNameFromPointer prng fuel v) (\<lambda>name.
                retM (''0x'' @ hex_digits (unat v) @ '' ('' @ name @ '')'' @ rest))
     | _ \<Rightarrow> stopM MemFault))"

fun format_pointers :: "(nat \<Rightarrow> nat) \<Rightarrow> nat \<Rightarrow> u64 option list \<Rightarrow> string list \<Rightarrow> (string, 'z lgstate_scheme) prog" where
  "format_pointers prng fuel [] tokens = retM []"
| "format_pointers prng fuel (p # ps) [] = stopM MemFault"
| "format_pointers prng fuel (p # ps) (t # ts) =
     bindM (format_pointer prng fuel p t) (\<lambda>x. bindM (format_pointers prng fuel ps ts) (\<lambda>y. retM (x @ y)))"

definition FormatExtractedPointers ::
  "(nat \<Rightarrow> nat) \<Rightarrow> nat \<Rightarrow> string \<Rightarrow> u64 option list \<Rightarrow> (string, 'z lgstate_scheme) prog" where
  "FormatExtractedPointers prng fuel formatted pointers =
     bindM (format_pointers prng fuel pointers (tl (split_ptr formatted))) (\<lambda>r. retM (hd (split_ptr formatted) @ r))"

definition FormatWithPointersForTesting ::
  "(nat \<Rightarrow> nat) \<Rightarrow> nat \<Rightarrow> string \<Rightarrow> (log_error + string, 'z lgstate_scheme) prog" where
  "FormatWithPointersForTesting prng fuel formatted = (case ExtractPointers formatted of
     Inl e \<Rightarrow> retM (Inl e)
   | Inr ps \<Rightarrow> bindM (FormatExtractedPointers prng fuel formatted ps) (\<lambda>r. retM (Inr r)))"

text \<open>\<open>vformat f\<close> is all that \<open>f\<close> and the arguments of the call print, or none when the conversion fails. The buffer takes one byte
  less than its size, and answers the length of the whole.\<close>

definition FormatWithPointers ::
  "(nat \<Rightarrow> nat) \<Rightarrow> nat \<Rightarrow> (string \<Rightarrow> string option) \<Rightarrow> string \<Rightarrow> (log_error + string, 'z lgstate_scheme) prog" where
  "FormatWithPointers prng fuel vformat format = (case vformat (ReplacePointerPlaceholders format) of
     None \<Rightarrow> retM (Inl VsnprintfFailed)
   | Some s \<Rightarrow>
       let buffer = (if 1024 \<le> length s then take (length s + 1 - 1) s else take (1024 - 1) s) in
       FormatWithPointersForTesting prng fuel (take (length s) buffer))"

section \<open>Printing\<close>

definition print :: "string \<Rightarrow> (unit, 'z lgstate_scheme) prog" where
  "print x = modifyM (\<lambda>s. s\<lparr>out := out s @ x\<rparr>)"

definition reset_colors_and_text_effects :: string where
  "reset_colors_and_text_effects = CHR 0x1B # ''[0m''"

text \<open>Bright magenta, green, red, blue, yellow, cyan and white.\<close>

definition color_sequences :: "string list" where
  "color_sequences = map (\<lambda>n. CHR 0x1B # ''['' @ n @ ''m'') [''95'', ''92'', ''91'', ''94'', ''93'', ''96'', ''97'']"

definition PrintThreadPrefix :: "(unit, 'z lgstate_scheme) prog" where
  "PrintThreadPrefix =
     bindM (getsM current) (\<lambda>cur.
     bindM (GetId cur) (\<lambda>tid.
     bindM (DescribeThreadHandle cur) (\<lambda>name.
       print (color_sequences ! (unat (tid - 1) mod length color_sequences) @ ''['' @ name @ '']: ''))))"

definition ResetColors :: "(unit, 'z lgstate_scheme) prog" where
  "ResetColors = print reset_colors_and_text_effects"

definition Host_Log :: "string \<Rightarrow> (unit, 'z lgstate_scheme) prog" where
  "Host_Log x = bindM (getsM (\<lambda>s. debug_build s \<and> log_enabled s)) (\<lambda>b.
     whenM b (thenM PrintThreadPrefix (thenM (print x) ResetColors)))"

text \<open>The two functions called \<open>Log\<close> of the logger: for a text, and for a format and its arguments.\<close>

definition Logger_Log :: "log_subsystem \<Rightarrow> string \<Rightarrow> (unit, 'z lgstate_scheme) prog" where
  "Logger_Log subsystem x =
     (if subsystem = TICKET_LOCK then retM ()
      else bindM (getsM debug_build) (\<lambda>debug. whenM debug (Host_Log x)))"

definition Logger_Log_format :: "log_subsystem \<Rightarrow> string \<Rightarrow> (unit, 'z lgstate_scheme) prog" where
  "Logger_Log_format subsystem x =
     bindM (getsM (\<lambda>s. debug_build s \<and> log_enabled s \<and> subsystems s subsystem)) (\<lambda>b. whenM b (Logger_Log subsystem x))"

definition EnableSubsystem :: "log_subsystem \<Rightarrow> (unit, 'z lgstate_scheme) prog" where
  "EnableSubsystem subsystem = modifyM (\<lambda>s. s\<lparr>subsystems := (subsystems s)(subsystem := True)\<rparr>)"

definition DisableSubsystem :: "log_subsystem \<Rightarrow> (unit, 'z lgstate_scheme) prog" where
  "DisableSubsystem subsystem = modifyM (\<lambda>s. s\<lparr>subsystems := (subsystems s)(subsystem := False)\<rparr>)"

definition EnableThreadPrintf :: "(unit, 'z lgstate_scheme) prog" where
  "EnableThreadPrintf = modifyM (\<lambda>s. s\<lparr>log_enabled := True\<rparr>)"

text \<open>The message of an error; \<open>what\<close> is what the exception of \<open>std::stoull\<close> says.\<close>

primrec error_message :: "(string \<Rightarrow> string) \<Rightarrow> log_error \<Rightarrow> string" where
  "error_message what (InvalidToken t) = ''Invalid pointer token: '' @ t"
| "error_message what (InvalidValue v) = ''Invalid pointer value: '' @ v @ '' ('' @ what v @ '')''"
| "error_message what VsnprintfFailed = ''Error in vsnprintf''"

text \<open>The value of a failed result is taken all the same, which ends the process.\<close>

definition ThreadPrintf ::
  "(nat \<Rightarrow> nat) \<Rightarrow> nat \<Rightarrow> (string \<Rightarrow> string) \<Rightarrow> (string \<Rightarrow> string option) \<Rightarrow> string \<Rightarrow> (unit, 'z lgstate_scheme) prog" where
  "ThreadPrintf prng fuel what vformat format =
     bindM (getsM (\<lambda>s. debug_build s \<and> log_enabled s)) (\<lambda>b. whenM b
    (bindM (FormatWithPointers prng fuel vformat format) (\<lambda>r. case r of
        Inl e \<Rightarrow> thenM (Logger_Log ANY_SUBSYSTEM (error_message what e)) abortM
      | Inr formatted \<Rightarrow>
          thenM (Logger_Log ANY_SUBSYSTEM formatted)
            (whenM (formatted = [] \<or> last formatted \<noteq> CHR 0x0A) (Logger_Log ANY_SUBSYSTEM [CHR 0x0A])))))"

section \<open>Names are unique\<close>

definition names_ok :: "'z lgstate_scheme \<Rightarrow> bool" where
  "names_ok s \<longleftrightarrow> inj_on (pointer_names s) (dom (pointer_names s)) \<and> ran (pointer_names s) = pointer_names_used s \<and>
     pointer_names_used s \<subseteq> range name_at"

abbreviation num_names :: nat where
  "num_names \<equiv> 1352"

lemma length_words: "length adjectives = 52" "length nouns = 26"
  by (simp_all add: adjectives_def nouns_def)

lemma name_at_mod: "name_at (i mod num_names) = name_at i"
proof -
  have "i mod 1352 mod 52 = i mod 52" using mod_mod_cancel [of 52 1352 i] by simp
  moreover have "i mod 1352 div 52 = i div 52 mod 26" using mod_mult2_eq [of i 52 26] by simp
  ultimately show ?thesis by (simp add: name_at_def length_words)
qed

lemma card_names: "card (range name_at) \<le> num_names" "finite (range name_at)"
proof -
  have "range name_at = name_at ` {..<num_names}"
    by (auto simp: image_iff) (metis lessThan_iff mod_less_divisor name_at_mod zero_less_numeral)
  then show "card (range name_at) \<le> num_names" "finite (range name_at)"
    using card_image_le [of "{..<num_names}" name_at] by simp_all
qed

lemma words_distinct: "distinct adjectives" "distinct (map AsciiStrToLower nouns)" "\<forall>a \<in> set adjectives. CHR ''_'' \<notin> set a"
  by code_simp+

lemma append_sep: "a @ x # m = b @ x # n \<Longrightarrow> x \<notin> set a \<Longrightarrow> x \<notin> set b \<Longrightarrow> a = b \<and> m = n"
proof (induction a arbitrary: b)
  case Nil
  then show ?case by (cases b) auto
next
  case (Cons y a)
  then show ?case by (cases b) auto
qed

lemma name_at_inj: "inj_on name_at {..<num_names}"
proof (rule inj_onI)
  fix i j assume ij: "i \<in> {..<num_names}" "j \<in> {..<num_names}" "name_at i = name_at j"
  define a where "a k = adjectives ! (k mod 52)" for k
  define n where "n k = map AsciiStrToLower nouns ! (k div 52)" for k
  have small: "i div 52 < 26" "j div 52 < 26" using ij(1,2) by (simp_all add: less_mult_imp_div_less)
  have eq: "name_at k = a k @ CHR ''_'' # n k" if "k div 52 < 26" for k
  proof -
    have "map AsciiStrToLower nouns ! (k div 52) = AsciiStrToLower (nouns ! (k div 52))" using that by (intro nth_map) (simp add: length_words)
    moreover have "k div 52 mod 26 = k div 52" using that by (rule mod_less)
    ultimately show ?thesis by (simp only: name_at_def a_def n_def length_words append_Cons append_Nil)
  qed
  have no: "CHR ''_'' \<notin> set (a k)" for k
    using words_distinct(3) nth_mem [of "k mod 52" adjectives] by (simp add: a_def length_words)
  have "a i = a j \<and> n i = n j"
    using ij(3) unfolding eq [OF small(1)] eq [OF small(2)] by (rule append_sep [OF _ no no])
  then have "i mod 52 = j mod 52" "i div 52 = j div 52"
    using words_distinct(1,2) small by (auto simp: a_def n_def nth_eq_iff_index_eq length_words simp del: nth_map)
  then show "i = j" by (metis div_mult_mod_eq)
qed


section \<open>Drawing a name\<close>

lemma draw_name_Suc:
  "draw_name prng (Suc fuel) p s =
     (let n = name_at (prng (drawn s)); u = s\<lparr>drawn := drawn s + 1\<rparr> in
      if n \<in> pointer_names_used s then draw_name prng fuel p u
      else Done n (u\<lparr>pointer_names_used := insert n (pointer_names_used s), pointer_names := (pointer_names s)(p \<mapsto> n)\<rparr>))"
  by (simp add: GetRandomIndexForPointerName_def Let_def)

declare draw_name.simps(2) [simp del]

lemma draw_name_result:
  "draw_name prng fuel p s = Done n t \<Longrightarrow> n \<in> range name_at \<and> n \<notin> pointer_names_used s \<and>
     pointer_names_used t = insert n (pointer_names_used s) \<and> pointer_names t = (pointer_names s)(p \<mapsto> n)"
proof (induction fuel arbitrary: s)
  case (Suc fuel)
  show ?case
  proof (cases "name_at (prng (drawn s)) \<in> pointer_names_used s")
    case True
    with Suc.prems have "draw_name prng fuel p (s\<lparr>drawn := drawn s + 1\<rparr>) = Done n t" by (simp add: draw_name_Suc Let_def)
    from Suc.IH [OF this] show ?thesis by simp
  qed (use Suc.prems in \<open>auto simp: draw_name_Suc Let_def\<close>)
qed simp

lemma draw_name_returns:
  "name_at (prng (drawn s + j)) \<notin> pointer_names_used s \<Longrightarrow> j < fuel \<Longrightarrow> \<exists>n t. draw_name prng fuel p s = Done n t"
proof (induction fuel arbitrary: s j)
  case (Suc fuel)
  show ?case
  proof (cases "name_at (prng (drawn s)) \<in> pointer_names_used s")
    case True
    with Suc.prems obtain i where "j = Suc i" by (cases j) auto
    with True Suc.prems Suc.IH [of "s\<lparr>drawn := drawn s + 1\<rparr>" i] show ?thesis by (simp add: draw_name_Suc Let_def)
  qed (simp add: draw_name_Suc Let_def)
qed simp

lemma draw_name_mono: "draw_name prng fuel p s = Done n t \<Longrightarrow> draw_name prng (fuel + k) p s = Done n t"
proof (induction fuel arbitrary: s)
  case (Suc fuel)
  then show ?case by (auto simp: draw_name_Suc Let_def split: if_splits)
qed simp

lemma draw_name_exhausted: "range name_at \<subseteq> pointer_names_used s \<Longrightarrow> draw_name prng fuel p s = Stopped Diverge"
proof (induction fuel arbitrary: s)
  case (Suc fuel)
  have "name_at (prng (drawn s)) \<in> pointer_names_used s" using Suc.prems by blast
  with Suc show ?case by (simp add: draw_name_Suc Let_def)
qed simp

section \<open>Naming a pointer\<close>

text \<open>A generator that goes on producing every name.\<close>

definition fair :: "(nat \<Rightarrow> nat) \<Rightarrow> bool" where
  "fair prng \<longleftrightarrow> (\<forall>k m. \<exists>i\<ge>m. name_at (prng i) = name_at k)"

text \<open>How many pointers have a name.\<close>

definition named :: "'z lgstate_scheme \<Rightarrow> nat" where
  "named s = card (dom (pointer_names s))"

lemma names_ok_card:
  assumes "names_ok s"
  shows "finite (dom (pointer_names s))" "card (pointer_names_used s) = named s" "finite (pointer_names_used s)"
proof -
  have f: "finite (pointer_names_used s)" using assms card_names(2) finite_subset unfolding names_ok_def by blast
  have im: "pointer_names s ` dom (pointer_names s) = Some ` pointer_names_used s"
    using assms by (force simp: names_ok_def ran_def dom_def image_iff)
  have inj: "inj_on (pointer_names s) (dom (pointer_names s))" using assms by (simp add: names_ok_def)
  have "finite (pointer_names s ` dom (pointer_names s))" unfolding im using f by (rule finite_imageI)
  then show "finite (dom (pointer_names s))" using inj by (rule finite_imageD)
  have "named s = card (Some ` pointer_names_used s)" unfolding named_def im [symmetric] using inj by (rule card_image [symmetric])
  also have "\<dots> = card (pointer_names_used s)" by (intro card_image) simp
  finally show "card (pointer_names_used s) = named s" ..
  show "finite (pointer_names_used s)" by (rule f)
qed

lemma named_le: "names_ok s \<Longrightarrow> named s \<le> num_names"
  using card_mono [OF card_names(2), of "pointer_names_used s"] card_names(1) names_ok_card(2) [of s]
  by (simp add: names_ok_def)

lemma names_run_out: "names_ok s \<Longrightarrow> named s = num_names \<Longrightarrow> pointer_names_used s = range name_at"
  using card_seteq [OF card_names(2), of "pointer_names_used s"] card_names(1) names_ok_card(2) [of s]
  by (simp add: names_ok_def)

lemma names_ok_add:
  assumes ok: "names_ok s" and p: "pointer_names s p = None" and n: "n \<in> range name_at" "n \<notin> pointer_names_used s"
    and t: "pointer_names_used t = insert n (pointer_names_used s)" "pointer_names t = (pointer_names s)(p \<mapsto> n)"
  shows "names_ok t" "named t = Suc (named s)"
proof -
  have "pointer_names s q \<noteq> Some n" for q using ok n(2) by (force simp: names_ok_def ran_def)
  moreover have "p \<notin> dom (pointer_names s)" using p by blast
  ultimately have "inj_on (pointer_names t) (dom (pointer_names t))"
    using ok by (auto simp: names_ok_def t inj_on_def)
  moreover have "ran (pointer_names t) = pointer_names_used t" using ok p by (simp add: t names_ok_def)
  ultimately show "names_ok t" using ok n(1) by (auto simp: names_ok_def t)
  show "named t = Suc (named s)"
    using names_ok_card(1) [OF ok] \<open>p \<notin> dom (pointer_names s)\<close> by (simp add: named_def t)
qed

lemma GenerateNameFromPointer_result:
  assumes "names_ok s" "GenerateNameFromPointer prng fuel p s = Done n t"
  shows "names_ok t \<and> pointer_names t p = Some n \<and> pointer_names s \<subseteq>\<^sub>m pointer_names t \<and> named t \<le> Suc (named s)"
proof (cases "pointer_names s p")
  case None
  then have "draw_name prng fuel p s = Done n t" using assms(2) by (simp add: GenerateNameFromPointer_def)
  note r = draw_name_result [OF this]
  from names_ok_add [OF assms(1) None, of n t] r have "names_ok t" "named t = Suc (named s)" by blast+
  then show ?thesis using r None by (auto simp: map_le_def dom_def)
qed (use assms in \<open>simp add: GenerateNameFromPointer_def\<close>)

lemma GenerateNameFromPointer_mono:
  "GenerateNameFromPointer prng fuel p s = Done n t \<Longrightarrow> GenerateNameFromPointer prng (fuel + k) p s = Done n t"
  by (auto simp: GenerateNameFromPointer_def draw_name_mono split: option.splits)

lemma GenerateNameFromPointer_returns:
  assumes "names_ok s" "named s < num_names" "fair prng"
  shows "\<exists>fuel n t. GenerateNameFromPointer prng fuel p s = Done n t"
proof (cases "pointer_names s p")
  case None
  have "pointer_names_used s \<noteq> range name_at"
  proof
    assume "pointer_names_used s = range name_at"
    then have "card (range name_at) < num_names" using assms(2) names_ok_card(2) [OF assms(1)] by simp
    moreover have "card (name_at ` {..<num_names}) \<le> card (range name_at)" by (intro card_mono card_names) blast
    ultimately show False using card_image [OF name_at_inj] by simp
  qed
  then obtain k where "name_at k \<notin> pointer_names_used s" using assms(1) by (auto simp: names_ok_def)
  then obtain i where "drawn s \<le> i" "name_at (prng i) \<notin> pointer_names_used s" using assms(3) unfolding fair_def by metis
  then have "name_at (prng (drawn s + (i - drawn s))) \<notin> pointer_names_used s" by simp
  from draw_name_returns [of prng s "i - drawn s" "Suc (i - drawn s)" p, OF this] None show ?thesis by (auto simp: GenerateNameFromPointer_def)
qed (simp add: GenerateNameFromPointer_def)


section \<open>Cutting a message at its markers\<close>

definition plain :: "string \<Rightarrow> bool" where
  "plain x \<longleftrightarrow> split_ptr x = [x]"

text \<open>What \<open>printf\<close> of the C library makes of \<open>%p\<close>, and the part of a message from one marker to the next.\<close>

definition print_ptr :: "u64 \<Rightarrow> string" where
  "print_ptr v = (if v = 0 then ''(nil)'' else ''0x'' @ hex_digits (unat v))"

definition token :: "u64 \<times> string \<Rightarrow> string" where
  "token vt = print_ptr (fst vt) @ '']'' @ snd vt"

definition message :: "string \<Rightarrow> (u64 \<times> string) list \<Rightarrow> string" where
  "message x segs = x @ concat (map (\<lambda>vt. ''[ptr:'' @ token vt) segs)"

lemma split_ptr_ne: "split_ptr x \<noteq> []"
  by (cases x) simp_all

lemma plain_Cons:
  assumes "plain (c # cs)"
  shows "take 5 (c # cs) \<noteq> ''[ptr:''" "plain cs"
proof -
  show *: "take 5 (c # cs) \<noteq> ''[ptr:''" using assms by (auto simp: plain_def)
  have "hd (split_ptr cs) = cs \<and> tl (split_ptr cs) = []"
    using assms unfolding plain_def split_ptr.simps if_not_P [OF *] by simp
  then show "plain cs" unfolding plain_def by (metis list.collapse split_ptr_ne)
qed

lemma mark_overlap: "take 5 (c # cs) \<noteq> ''[ptr:'' \<Longrightarrow> take 5 (c # cs @ ''[ptr:'' @ y) \<noteq> ''[ptr:''"
  by (cases cs; cases "tl cs"; cases "tl (tl cs)"; cases "tl (tl (tl cs))") auto

lemma split_ptr_mark: "plain x \<Longrightarrow> split_ptr (x @ ''[ptr:'' @ y) = x # split_ptr y"
proof (induction x)
  case (Cons c cs)
  note h = plain_Cons [OF Cons.prems]
  show ?case unfolding append_Cons split_ptr.simps if_not_P [OF mark_overlap [OF h(1), unfolded append_Cons]]
    using Cons.IH [OF h(2)] by simp
qed simp

lemma split_ptr_prefix: "CHR ''['' \<notin> set a \<Longrightarrow> split_ptr (a @ x) = (a @ hd (split_ptr x)) # tl (split_ptr x)"
  by (induction a) (auto simp: split_ptr_ne)

lemma hex_digits_set: "set (hex_digits n) \<subseteq> set ''0123456789abcdef''"
proof (induction n rule: hex_digits.induct)
  case (1 n)
  have d: "hex_digit k \<in> set ''0123456789abcdef''" if "k < 16" for k
    unfolding hex_digit_def using that by (intro nth_mem) simp
  show ?case
  proof (cases "n < 16")
    case True
    then show ?thesis using d by (subst hex_digits.simps) simp
  next
    case False
    then show ?thesis using 1 d [of "n mod 16"] by (subst hex_digits.simps) auto
  qed
qed

lemma print_ptr_set: "CHR ''['' \<notin> set (print_ptr v)" "CHR '']'' \<notin> set (print_ptr v)"
  using hex_digits_set [of "unat v"] by (auto simp: print_ptr_def)

lemma plain_token: "plain t \<Longrightarrow> plain (token (v, t))"
proof -
  assume "plain t"
  then have "split_ptr ('']'' @ t) = ['']'' @ t]" by (simp add: plain_def)
  then show ?thesis using split_ptr_prefix [OF print_ptr_set(1), of v "'']'' @ t"] by (simp add: token_def plain_def)
qed

lemma split_message: "plain x \<Longrightarrow> (\<And>v t. (v, t) \<in> set segs \<Longrightarrow> plain t) \<Longrightarrow> split_ptr (message x segs) = x # map token segs"
proof (induction segs arbitrary: x)
  case Nil
  then show ?case by (simp add: message_def plain_def)
next
  case (Cons vt segs)
  obtain v t where vt: "vt = (v, t)" by fastforce
  have "message x (vt # segs) = x @ ''[ptr:'' @ message (token vt) segs" by (simp add: message_def)
  moreover have "split_ptr (message (token vt) segs) = token vt # map token segs"
    using Cons.prems(2) by (intro Cons.IH) (auto simp: vt intro!: plain_token)
  ultimately show ?case using split_ptr_mark [OF Cons.prems(1)] by simp
qed

lemma split_bracket_token: "split_bracket (token (v, t)) = [print_ptr v, t]"
proof -
  have "dropWhile (\<lambda>c. c \<noteq> CHR '']'') (print_ptr v @ '']'' @ t) = '']'' @ t"
    "takeWhile (\<lambda>c. c \<noteq> CHR '']'') (print_ptr v @ '']'' @ t) = print_ptr v"
    using print_ptr_set(2) [of v] by (auto simp: dropWhile_append3 takeWhile_tail)
  then show ?thesis by (simp add: split_bracket_def token_def)
qed


section \<open>Reading a pointer back\<close>

lemma digit_of_hex: "d < 16 \<Longrightarrow> digit_value (hex_digit d) = Some d"
proof -
  assume "d < 16"
  moreover have "\<forall>d \<in> set [0..<16]. digit_value (hex_digit d) = Some d" by code_simp
  ultimately show ?thesis by simp
qed

lemma digits_value_hex: "digits_value 16 (hex_digits n) = n"
proof (induction n rule: hex_digits.induct)
  case (1 n)
  show ?case
  proof (cases "n < 16")
    case True
    then show ?thesis by (subst hex_digits.simps) (simp add: digits_value_def digit_of_hex)
  next
    case False
    then have "digits_value 16 (hex_digits n) = digits_value 16 (hex_digits (n div 16)) * 16 + n mod 16"
      by (subst hex_digits.simps) (simp add: digits_value_def digit_of_hex)
    then show ?thesis using 1 False by simp
  qed
qed

lemma hex_digits_are: "c \<in> set (hex_digits n) \<Longrightarrow> is_digit 16 c"
proof -
  assume "c \<in> set (hex_digits n)"
  then have "c \<in> set ''0123456789abcdef''" using hex_digits_set by blast
  moreover have "\<forall>c \<in> set ''0123456789abcdef''. is_digit 16 c" by code_simp
  ultimately show ?thesis by blast
qed

lemma hex_digits_ne: "hex_digits n \<noteq> []"
  by (subst hex_digits.simps) simp

lemma stoull_hex:
  assumes "n < 2 ^ 64"
  shows "stoull 16 (''0x'' @ hex_digits n) = Some (of_nat n)"
proof -
  obtain d ds where h: "hex_digits n = d # ds" using hex_digits_ne by (cases "hex_digits n") auto
  have all: "is_digit 16 d" "\<forall>c \<in> set ds. is_digit 16 c" using hex_digits_are [of _ n] by (auto simp: h)
  have sp: "strip_prefix 16 (''0x'' @ hex_digits n) = hex_digits n" using all by (simp add: strip_prefix_def h)
  have tw: "takeWhile (is_digit 16) (hex_digits n) = hex_digits n" using hex_digits_are takeWhile_eq_all_conv by blast
  have "stoull_unsigned 16 (''0x'' @ hex_digits n) = Some n"
    unfolding stoull_unsigned_def Let_def sp tw digits_value_hex using assms hex_digits_ne by simp
  moreover have "\<not> isspace (CHR ''0'')" by code_simp
  ultimately show ?thesis by (simp add: stoull_def)
qed

lemma parse_print_ptr: "parse_pointer (print_ptr v) = Inr v"
proof (cases "v = 0")
  case False
  have "stoull 16 (''0x'' @ hex_digits (unat v)) = Some v" using stoull_hex [of "unat v"] unsigned_less [of v] by simp
  then show ?thesis using False by (simp add: parse_pointer_def print_ptr_def)
qed (simp add: parse_pointer_def print_ptr_def)

lemma extract_message: "extract_tokens (map token segs) = Inr (map (\<lambda>vt. Some (fst vt)) segs)"
proof (induction segs)
  case (Cons vt segs)
  then show ?case by (cases vt) (simp add: split_bracket_token parse_print_ptr)
qed simp

section \<open>Naming the pointers of a message\<close>

definition render :: "(u64 \<rightharpoonup> string) \<Rightarrow> u64 \<Rightarrow> string" where
  "render nm v = (if v = 0 then ''(nil)'' else ''0x'' @ hex_digits (unat v) @ '' ('' @ the (nm v) @ '')'')"

lemma format_pointer_mono:
  "format_pointer prng fuel q x s = Done r t \<Longrightarrow> format_pointer prng (fuel + k) q x s = Done r t"
  by (auto simp: format_pointer_def split: option.splits list.splits if_splits outcome.splits
      dest: GenerateNameFromPointer_mono [where k = k])

lemma format_pointers_mono:
  "format_pointers prng fuel qs xs s = Done r t \<Longrightarrow> format_pointers prng (fuel + k) qs xs s = Done r t"
proof (induction prng fuel qs xs arbitrary: s r rule: format_pointers.induct)
  case (3 prng fuel p ps x xs)
  from "3.prems" obtain a u b where a: "format_pointer prng fuel p x s = Done a u" "format_pointers prng fuel ps xs u = Done b t" "r = a @ b"
    by (auto split: outcome.splits)
  from format_pointer_mono [OF a(1)] "3.IH" [OF a(2)] show ?case by (simp add: a(3))
qed simp_all

lemma format_pointer_names:
  assumes "names_ok s" "named s < num_names" "fair prng"
  shows "\<exists>fuel s'. format_pointer prng fuel (Some v) (token (v, t)) s = Done (render (pointer_names s') v @ t) s' \<and> names_ok s' \<and>
     pointer_names s \<subseteq>\<^sub>m pointer_names s' \<and> named s' \<le> Suc (named s) \<and> (v \<noteq> 0 \<longrightarrow> pointer_names s' v \<noteq> None)"
proof (cases "v = 0")
  case True
  then show ?thesis using assms(1) by (auto simp: format_pointer_def split_bracket_token render_def)
next
  case False
  obtain fuel n s' where g: "GenerateNameFromPointer prng fuel v s = Done n s'" using GenerateNameFromPointer_returns [OF assms] by blast
  from GenerateNameFromPointer_result [OF assms(1) g] g False show ?thesis
    by (intro exI [of _ fuel] exI [of _ s']) (simp add: format_pointer_def split_bracket_token render_def)
qed

lemma render_le: "m \<subseteq>\<^sub>m m' \<Longrightarrow> v \<noteq> 0 \<longrightarrow> m v \<noteq> None \<Longrightarrow> render m' v = render m v"
  by (auto simp: render_def map_le_def dom_def)

lemma format_pointers_names:
  assumes "names_ok s" "named s + length segs \<le> num_names" "fair prng"
  shows "\<exists>fuel s'. format_pointers prng fuel (map (\<lambda>vt. Some (fst vt)) segs) (map token segs) s =
      Done (concat (map (\<lambda>(v, t). render (pointer_names s') v @ t) segs)) s' \<and>
     names_ok s' \<and> pointer_names s \<subseteq>\<^sub>m pointer_names s'"
  using assms
proof (induction segs arbitrary: s)
  case Nil
  then show ?case by simp
next
  case (Cons vt segs)
  obtain v t where vt: "vt = (v, t)" by fastforce
  obtain f u where f: "format_pointer prng f (Some v) (token (v, t)) s = Done (render (pointer_names u) v @ t) u"
    and u: "names_ok u" "pointer_names s \<subseteq>\<^sub>m pointer_names u" "named u \<le> Suc (named s)" "v \<noteq> 0 \<longrightarrow> pointer_names u v \<noteq> None"
    using format_pointer_names [OF Cons.prems(1), of prng v t] Cons.prems(2,3) by auto
  obtain g s' where g: "format_pointers prng g (map (\<lambda>vt. Some (fst vt)) segs) (map token segs) u =
      Done (concat (map (\<lambda>(v, t). render (pointer_names s') v @ t) segs)) s'"
    and s': "names_ok s'" "pointer_names u \<subseteq>\<^sub>m pointer_names s'"
    using Cons.IH [OF u(1) _ Cons.prems(3)] u(3) Cons.prems(2) by auto
  have "format_pointers prng (f + g) (map (\<lambda>vt. Some (fst vt)) (vt # segs)) (map token (vt # segs)) s =
      Done (concat (map (\<lambda>(v, t). render (pointer_names s') v @ t) (vt # segs))) s'"
    using format_pointer_mono [OF f, of g] format_pointers_mono [OF g, of f] render_le [OF s'(2) u(4)]
    by (simp add: vt add.commute)
  then show ?case using s'(1) map_le_trans [OF u(2) s'(2)] by blast
qed

text \<open>C21. Pointers in the log. A message whose arguments print as pointers, with any text between them that does not itself contain
  the marker, comes out with every pointer read back exactly as it was printed and followed by its name; the null pointer prints as
  \<open>(nil)\<close>. Every pointer keeps the name it had, no two pointers share a name, and enough draws of the generator give the result as long
  as names are left: there are 1352.\<close>

theorem FormatWithPointers_names:
  assumes "names_ok s" "named s + length segs \<le> 1352" "fair prng" "plain x" "\<forall>vt \<in> set segs. plain (snd vt)"
    and "vformat (ReplacePointerPlaceholders format) = Some (message x segs)"
  shows "\<exists>fuel s'. FormatWithPointers prng fuel vformat format s =
      Done (Inr (x @ concat (map (\<lambda>(v, t). render (pointer_names s') v @ t) segs))) s' \<and>
     inj_on (pointer_names s') (dom (pointer_names s')) \<and> pointer_names s \<subseteq>\<^sub>m pointer_names s'"
proof -
  have split: "split_ptr (message x segs) = x # map token segs" using assms(4,5) by (intro split_message) auto
  obtain fuel s' where f: "format_pointers prng fuel (map (\<lambda>vt. Some (fst vt)) segs) (map token segs) s =
      Done (concat (map (\<lambda>(v, t). render (pointer_names s') v @ t) segs)) s'" "names_ok s'" "pointer_names s \<subseteq>\<^sub>m pointer_names s'"
    using format_pointers_names [OF assms(1-3)] by blast
  have "FormatWithPointers prng fuel vformat format s = Done (Inr (x @ concat (map (\<lambda>(v, t). render (pointer_names s') v @ t) segs))) s'"
    using f(1) by (simp add: FormatWithPointers_def assms(6) FormatWithPointersForTesting_def ExtractPointers_def split extract_message
        FormatExtractedPointers_def Let_def)
  then show ?thesis using f(2,3) by (auto simp: names_ok_def)
qed


definition lgstate_example :: lgstate where
  "lgstate_example = sstate.extend sstate_example \<lparr>subsystems = (\<lambda>_. False), log_enabled = True, drawn = 0, pointer_names = Map.empty,
     pointer_names_used = {}, out = []\<rparr>"

lemma fair_example: "fair (\<lambda>i. i)"
proof -
  have "\<exists>i\<ge>m. name_at i = name_at k" for k m
  proof (intro exI conjI)
    show "m \<le> k + num_names * m" by simp
    have "(k + num_names * m) mod num_names = k mod num_names" by simp
    then show "name_at (k + num_names * m) = name_at k" using name_at_mod [of "k + num_names * m"] name_at_mod [of k] by metis
  qed
  then show ?thesis by (simp add: fair_def)
qed

lemma names_ok_example: "names_ok lgstate_example" "named lgstate_example = 0"
  by (simp_all add: names_ok_def named_def lgstate_example_def sstate.defs)

theorem FormatWithPointers_names_witness:
  "\<exists>fuel s'. FormatWithPointers (\<lambda>i. i) fuel (\<lambda>f. Some (message ''at '' [(4660, '' and ''), (0, '' here'')])) ''at %p and %p here'' lgstate_example =
      Done (Inr (''at '' @ (render (pointer_names s') 4660 @ '' and '') @ (render (pointer_names s') 0 @ '' here''))) s' \<and>
     inj_on (pointer_names s') (dom (pointer_names s'))"
proof -
  have "plain ''at ''" "plain '' and ''" "plain '' here''" by code_simp+
  then have p: "plain ''at ''" "\<forall>vt \<in> set [(4660 :: u64, '' and ''), (0, '' here'')]. plain (snd vt)" by auto
  have n: "named lgstate_example + length [(4660 :: u64, '' and ''), (0, '' here'')] \<le> 1352" using names_ok_example(2) by simp
  obtain fuel s' where "FormatWithPointers (\<lambda>i. i) fuel (\<lambda>f. Some (message ''at '' [(4660, '' and ''), (0, '' here'')])) ''at %p and %p here''
      lgstate_example = Done (Inr (''at '' @ concat (map (\<lambda>(v, t). render (pointer_names s') v @ t) [(4660, '' and ''), (0, '' here'')]))) s'"
    "inj_on (pointer_names s') (dom (pointer_names s'))"
    using FormatWithPointers_names [where vformat = "\<lambda>f. Some (message ''at '' [(4660, '' and ''), (0, '' here'')])" and
        format = "''at %p and %p here''", OF names_ok_example(1) n fair_example p refl] by blast
  then show ?thesis by (intro exI [of _ fuel] exI [of _ s']) simp
qed

text \<open>C22. The names run out. Once 1352 pointers have a name, naming another one never returns, however long it draws and whatever the
  generator produces: there is no other name, and the loop has no other way out.\<close>

theorem pointer_names_run_out:
  assumes "names_ok s" "named s = 1352" "pointer_names s p = None"
  shows "GenerateNameFromPointer prng fuel p s = Stopped Diverge"
  using draw_name_exhausted [of s prng fuel p] names_run_out [OF assms(1,2)] assms(3) by (simp add: GenerateNameFromPointer_def)

definition lgstate_full :: lgstate where
  "lgstate_full = lgstate_example\<lparr>pointer_names := (\<lambda>p. if unat p < num_names then Some (name_at (unat p)) else None),
     pointer_names_used := range name_at\<rparr>"

lemma lgstate_full_ok: "names_ok lgstate_full" "named lgstate_full = num_names"
proof -
  let ?P = "{p :: u64. unat p < num_names}"
  have d: "dom (pointer_names lgstate_full) = ?P" by (auto simp: lgstate_full_def dom_def)
  have u: "unat (of_nat k :: u64) = k" if "k < num_names" for k using that by (intro unat_of_nat_less) simp
  have P: "?P = of_nat ` {..<num_names}"
  proof (intro equalityI subsetI)
    fix p :: u64 assume "p \<in> ?P"
    then show "p \<in> of_nat ` {..<num_names}" by (intro image_eqI [of _ _ "unat p"]) auto
  qed (auto simp: u)
  have inj: "inj_on (pointer_names lgstate_full) ?P"
  proof (rule inj_onI)
    fix p q assume pq: "p \<in> ?P" "q \<in> ?P" "pointer_names lgstate_full p = pointer_names lgstate_full q"
    then have "name_at (unat p) = name_at (unat q)" by (simp add: lgstate_full_def)
    then have "unat p = unat q" using pq(1,2) inj_onD [OF name_at_inj] by auto
    then have "(of_nat (unat p) :: u64) = of_nat (unat q)" by (rule arg_cong)
    then show "p = q" by simp
  qed
  have img: "name_at k \<in> ran (pointer_names lgstate_full)" for k
  proof -
    have "unat (of_nat (k mod num_names) :: u64) = k mod num_names" by (rule u) simp
    then have "pointer_names lgstate_full (of_nat (k mod num_names)) = Some (name_at k)" by (simp add: lgstate_full_def name_at_mod)
    then show ?thesis by (rule ranI)
  qed
  moreover have "ran (pointer_names lgstate_full) \<subseteq> range name_at" by (auto simp: lgstate_full_def ran_def split: if_splits)
  ultimately have r: "ran (pointer_names lgstate_full) = range name_at" by blast
  show "names_ok lgstate_full" using inj r unfolding names_ok_def d by (simp add: lgstate_full_def)
  have "inj_on (of_nat :: nat \<Rightarrow> u64) {..<num_names}" by (metis inj_onI lessThan_iff u)
  then have "card ?P = num_names" unfolding P by (simp add: card_image)
  then show "named lgstate_full = num_names" by (simp add: named_def d)
qed

theorem pointer_names_run_out_witness:
  "GenerateNameFromPointer (\<lambda>i. i) 5000 2000 lgstate_full = Stopped Diverge"
proof -
  have "pointer_names lgstate_full 2000 = None" by (simp add: lgstate_full_def)
  then show ?thesis by (rule pointer_names_run_out [OF lgstate_full_ok])
qed

section \<open>Messages that end the process, and messages that never appear\<close>

lemma split_bracket_none: "CHR '']'' \<notin> set x \<Longrightarrow> split_bracket x = [x]"
proof -
  assume "CHR '']'' \<notin> set x"
  then have *: "dropWhile (\<lambda>c. c \<noteq> CHR '']'') x = []" by auto
  show ?thesis unfolding split_bracket_def * by simp
qed

lemma Host_Log_runs: "\<exists>t. Host_Log x s = Done () t"
proof -
  have "\<exists>i t. GetId h s = Done i t" for h and s :: "'a lgstate_scheme" by (auto simp: GetId_def split: option.split)
  then have g: "\<exists>i t. GetId h s = Done i t \<and> current t = current s" for h and s :: "'a lgstate_scheme"
    by (auto simp: GetId_def split: option.split)
  have d: "\<exists>n t. DescribeThreadHandle h s = Done n t" for h and s :: "'a lgstate_scheme"
    using g [of h s] by (auto simp: DescribeThreadHandle_def split: option.split)
  obtain i t where "GetId (current s) s = Done i t" using g by blast
  moreover obtain n u where "DescribeThreadHandle (current s) t = Done n u" using d by blast
  ultimately show ?thesis by (simp add: Host_Log_def PrintThreadPrefix_def print_def ResetColors_def whenM_def)
qed

text \<open>A message that contains the marker without its closing bracket, through an argument of \<open>%s\<close> for instance, ends the process: the
  value of the failed result is taken.\<close>

lemma ThreadPrintf_open_marker_aborts:
  assumes "debug_build s" "log_enabled s" "plain x" "plain y" "CHR '']'' \<notin> set y"
    and "vformat (ReplacePointerPlaceholders format) = Some (x @ ''[ptr:'' @ y)"
  shows "ThreadPrintf prng fuel what vformat format s = Stopped HostAbort"
proof -
  have "ExtractPointers (x @ ''[ptr:'' @ y) = Inl (InvalidToken y)"
    using split_ptr_mark [OF assms(3), of y] assms(4) split_bracket_none [OF assms(5)] by (simp add: ExtractPointers_def plain_def)
  then have "FormatWithPointers prng fuel vformat format s = Done (Inl (InvalidToken y)) s"
    by (simp add: FormatWithPointers_def assms(6) FormatWithPointersForTesting_def Let_def)
  moreover obtain t where "Host_Log (error_message what (InvalidToken y)) s = Done () t" using Host_Log_runs by blast
  ultimately show ?thesis using assms(1,2) by (simp add: ThreadPrintf_def Logger_Log_def whenM_def)
qed

lemma ThreadPrintf_open_marker_aborts_witness:
  "ThreadPrintf (\<lambda>i. i) 3 (\<lambda>_. []) (\<lambda>f. Some ''name: [ptr:x'') ''name: %s'' (lgstate_example\<lparr>debug_build := True\<rparr>) = Stopped HostAbort"
proof -
  have "plain ''name: ''" "plain ''x''" by code_simp+
  from ThreadPrintf_open_marker_aborts [OF _ _ this, of "lgstate_example\<lparr>debug_build := True\<rparr>" "\<lambda>f. Some ''name: [ptr:x''" "''name: %s''"]
  show ?thesis by (simp add: lgstate_example_def sstate.defs)
qed

text \<open>No code enables a subsystem, so a formatted message is never printed.\<close>

lemma Logger_Log_format_silent: "\<not> subsystems s k \<Longrightarrow> Logger_Log_format k x s = Done () s"
  by (simp add: Logger_Log_format_def whenM_def)

text \<open>The percent sign of \<open>%%\<close> is taken for that of a pointer.\<close>

lemma ReplacePointerPlaceholders_percent: "ReplacePointerPlaceholders ''100%%p'' = ''100%[ptr:%p]''"
  by simp

end
