(* ===== verification/Target.thy ===== *)
theory Target
  imports Logger
begin

text \<open>
  The fuzz target, \<open>fuzz/target/xnu_fuzzer.cc\<close>: the flag \<open>--testcase\<close>, the start of the process and the function that libFuzzer
  calls with each input. The libraries around it are parameters: the parser of flags, reading and writing files, and the readers and
  printers of protocol buffers.
\<close>

section \<open>The flag\<close>

text \<open>A whole message: what the host reads, and the commands of the three threads.\<close>

record 'c SessionMsg = Session +
  commands1 :: "'c list"
  commands2 :: "'c list"
  commands3 :: "'c list"

record 'c SingleTestcaseSession =
  path :: "string option"
  session :: "'c SessionMsg"

record 'c target_env =
  ParseFlag_path :: "string \<Rightarrow> string + string option"
  ReadFile :: "string \<Rightarrow> string + u8 list"
  LoadProtoInput :: "bool \<Rightarrow> u8 list \<Rightarrow> 'c SessionMsg option"
  ProtobufToString :: "'c SessionMsg \<Rightarrow> string"
  PrintToString :: "'c SessionMsg \<Rightarrow> string option"
  open_ok :: "string \<Rightarrow> bool"
  write_ok :: "string \<Rightarrow> bool"

text \<open>The answer, the flag as it is left, the text of the error if one is set, and what is printed. A reader that fails may
  leave the message it was filling as it was.\<close>

definition AbslParseFlag ::
  "'c target_env \<Rightarrow> string \<Rightarrow> 'c SingleTestcaseSession \<Rightarrow> bool \<times> 'c SingleTestcaseSession \<times> string option \<times> string" where
  "AbslParseFlag te text tc = (case ParseFlag_path te text of
     Inl e \<Rightarrow> (False, tc, Some e, [])
   | Inr None \<Rightarrow> (True, tc\<lparr>path := None\<rparr>, None, [])
   | Inr (Some p) \<Rightarrow> (let tc' = tc\<lparr>path := Some p\<rparr> in
       case ReadFile te p of
         Inl e \<Rightarrow> (False, tc', Some e, [])
       | Inr bytes \<Rightarrow> (case LoadProtoInput te False bytes of
           Some m \<Rightarrow> (True, tc'\<lparr>session := m\<rparr>, None, [])
         | None \<Rightarrow> (case LoadProtoInput te True bytes of
             Some m \<Rightarrow> (False, tc'\<lparr>session := m\<rparr>, Some (''Binary input provided for '' @ p), ProtobufToString te m)
           | None \<Rightarrow> (False, tc', Some (''Failed to parse protobuf input '' @ p), [])))))"

section \<open>The start\<close>

text \<open>\<open>reserve\<close> makes room without adding elements, and the elements are then written by index: the array is what the room holds. The log is
  switched on inside \<open>InitializeHost\<close>, before anything is logged.\<close>

definition forwarded_args :: "string list \<Rightarrow> string list \<Rightarrow> string list" where
  "forwarded_args positional unrecognized = positional @ map (\<lambda>flag_name. ''--'' @ flag_name) unrecognized"

definition LLVMFuzzerInitialize ::
  "('z lgstate_ext sstate_ext) session_env \<Rightarrow> (string list \<Rightarrow> string list \<times> string list \<times> bool) \<Rightarrow> string list \<Rightarrow>
     (string list, 'z lgstate_scheme) prog" where
  "LLVMFuzzerInitialize se ParseAbseilFlagsOnly argv = (case ParseAbseilFlagsOnly argv of (positional, unrecognized, is_verbose) \<Rightarrow>
     thenM (whenM is_verbose EnableThreadPrintf)
    (thenM (InitializeHost se)
    (bindM (getsM debug_build) (\<lambda>debug.
       if \<not> debug \<and> is_verbose then abortM else retM (forwarded_args positional unrecognized)))))"

section \<open>One input\<close>

text \<open>With \<open>--testcase\<close> the commands are those of the file; the input gives the data and the schedule.\<close>

definition effective_session :: "'c SingleTestcaseSession \<Rightarrow> 'c SessionMsg \<Rightarrow> 'c SessionMsg" where
  "effective_session tc input_session = (case path tc of
     None \<Rightarrow> input_session
   | Some _ \<Rightarrow> (session tc)\<lparr>xnu_data_provider := xnu_data_provider input_session, rand_seed := rand_seed input_session,
       thread_choices_bytes := thread_choices_bytes input_session\<rparr>)"

text \<open>Writing the session as text answers whether to go on, and prints why not.\<close>

definition write_text :: "'c target_env \<Rightarrow> string option \<Rightarrow> 'c SessionMsg \<Rightarrow> (bool, 'z lgstate_scheme) prog" where
  "write_text te write_text_protobuf m = (case write_text_protobuf of
     None \<Rightarrow> retM True
   | Some p \<Rightarrow>
       if \<not> open_ok te p then thenM (print (''Failed to open file for --write_text_protobuf: '' @ p @ [CHR 0x0A])) (retM False)
       else case PrintToString te m of
         None \<Rightarrow> thenM (print (''Failed to convert protobuf to text format for --write_text_protobuf'' @ [CHR 0x0A])) (retM False)
       | Some text_output \<Rightarrow>
           if \<not> write_ok te p then thenM (print (''Failed to write text protobuf to file: '' @ p @ [CHR 0x0A])) (retM False)
           else thenM (print (''Successfully wrote text protobuf to: '' @ p @ [CHR 0x0A])) (retM True))"

text \<open>The commands reach the threads through the address that \<open>HandleSession\<close> gives each of them; \<open>handle\<close> is \<open>HandleSession\<close> for
  a message.\<close>

definition TestOneInput ::
  "'c target_env \<Rightarrow> 'c SingleTestcaseSession \<Rightarrow> string option \<Rightarrow> bool \<Rightarrow> ('c SessionMsg \<Rightarrow> (unit, 'z lgstate_scheme) prog) \<Rightarrow>
     'c SessionMsg \<Rightarrow> (unit, 'z lgstate_scheme) prog" where
  "TestOneInput te testcase write_text_protobuf is_verbose handle input_session =
     (let m = effective_session testcase input_session in
      bindM (write_text te write_text_protobuf m) (\<lambda>go_on.
        whenM go_on (thenM (whenM is_verbose (print (ProtobufToString te m))) (handle m))))"

section \<open>Properties\<close>

text \<open>An accepted flag has no path or a message that reads as text; a message in binary form is refused but stays in the flag.\<close>

lemma AbslParseFlag_accepts:
  "AbslParseFlag te text tc = (True, tc', err, printed) \<longleftrightarrow> err = None \<and> printed = [] \<and>
     (ParseFlag_path te text = Inr None \<and> tc' = tc\<lparr>path := None\<rparr> \<or>
      (\<exists>p bytes m. ParseFlag_path te text = Inr (Some p) \<and> ReadFile te p = Inr bytes \<and> LoadProtoInput te False bytes = Some m \<and>
         tc' = tc\<lparr>path := Some p, session := m\<rparr>))"
  by (auto simp: AbslParseFlag_def Let_def split: sum.splits option.splits)

text \<open>Minimising a test case varies only its environment. With \<open>--testcase\<close>, an input runs exactly the commands of the file,
  whatever commands the input itself has, under the data and the schedule of the input; without the flag the input runs unchanged. And
  the session runs unless the text could not be written.\<close>

lemma TestOneInput_runs:
  assumes "write_text_protobuf = None \<or> (\<exists>p. write_text_protobuf = Some p \<and> open_ok te p \<and> write_ok te p \<and>
      PrintToString te (effective_session testcase input_session) \<noteq> None)"
  shows "\<exists>m printed. TestOneInput te testcase write_text_protobuf is_verbose handle input_session s = handle m (s\<lparr>out := out s @ printed\<rparr>) \<and>
     xnu_data_provider m = xnu_data_provider input_session \<and> rand_seed m = rand_seed input_session \<and>
     thread_choices_bytes m = thread_choices_bytes input_session \<and>
     (let origin = (if path testcase = None then input_session else session testcase) in
      commands1 m = commands1 origin \<and> commands2 m = commands2 origin \<and> commands3 m = commands3 origin)"
proof -
  define m where "m = effective_session testcase input_session"
  obtain x where "write_text te write_text_protobuf m s = Done True (s\<lparr>out := out s @ x\<rparr>)"
  proof (cases write_text_protobuf)
    case None
    then show ?thesis using that [of "[]"] by (simp add: write_text_def)
  next
    case (Some p)
    then show ?thesis using assms that by (auto simp: write_text_def print_def m_def)
  qed
  then have "\<exists>y. TestOneInput te testcase write_text_protobuf is_verbose handle input_session s = handle m (s\<lparr>out := out s @ y\<rparr>)"
    by (auto simp: TestOneInput_def m_def [symmetric] whenM_def print_def intro: exI [of _ x] exI [of _ "x @ ProtobufToString te m"])
  then show ?thesis by (intro exI [of _ m]) (auto simp: m_def effective_session_def Let_def split: option.split)
qed

definition target_env_example :: "nat target_env" where
  "target_env_example = \<lparr>ParseFlag_path = (\<lambda>x. Inr (Some x)), ReadFile = (\<lambda>_. Inr []), LoadProtoInput = (\<lambda>_ _. None),
     ProtobufToString = (\<lambda>m. ''session''), PrintToString = (\<lambda>m. Some ''session''), open_ok = (\<lambda>_. True), write_ok = (\<lambda>_. True)\<rparr>"

definition msg_example :: "nat list \<Rightarrow> u8 list \<Rightarrow> nat SessionMsg" where
  "msg_example cs d = \<lparr>rand_seed = 3, thread_choices_bytes = [1], xnu_data_provider = d, commands1 = cs, commands2 = [], commands3 = []\<rparr>"

lemma TestOneInput_runs_witness:
  "\<exists>printed. TestOneInput target_env_example \<lparr>path = Some ''t'', session = msg_example [7, 8] [0]\<rparr> (Some ''f'') True
       (\<lambda>m. if commands1 m = [7, 8] \<and> xnu_data_provider m = [5, 6] then retM () else abortM)
       (msg_example [9] [5, 6]) lgstate_example = Done () (lgstate_example\<lparr>out := out lgstate_example @ printed\<rparr>)"
  using TestOneInput_runs [of "Some ''f''" target_env_example "\<lparr>path = Some ''t'', session = msg_example [7, 8] [0]\<rparr>"
      "msg_example [9] [5, 6]" True "\<lambda>m. if commands1 m = [7, 8] \<and> xnu_data_provider m = [5, 6] then retM () else abortM" lgstate_example]
  by (auto simp: target_env_example_def msg_example_def Let_def)

end
