(* ===== verification/Zalloc.thy ===== *)
theory Zalloc
  imports Machine
begin

text \<open>
  The zone allocator of the fuzzed kernel, \<open>fuzz/xnu/osfmk/fakes/zalloc.c\<close>: the structures,
  the allocation and release entry points, the read-only zone writes and the mbuf cluster arena.
  Zone creation is in \<open>ZoneCreate\<close>, the element stacks are in \<open>ZoneStack\<close>.

  Zones live in a typed store \<open>zones\<close> that maps the address of a \<open>struct zone\<close> to its fields;
  the static \<open>zone_array\<close> occupies the addresses \<open>zone_slot i\<close>. What the file takes from the XNU
  headers (flag values, reserved zone identifiers, the page size, the address of the array, the
  inline helpers) is the parameter \<open>xnu\<close> of the definitions that use it.
\<close>

section \<open>Structures\<close>

record zone =
  z_self :: ptr
  z_name :: string
  z_elem_size :: u16
  z_chunk_pages :: u16
  z_chunk_elems :: u16
  z_elem_offs :: u16
  z_quo_magic :: u64
  z_align_magic :: u64
  z_nocaching :: bool
  z_stats :: ptr
  z_views :: ptr
  z_elems_rsv :: u16

definition zone_zero :: zone where
  "zone_zero = \<lparr>z_self = 0, z_name = '''', z_elem_size = 0, z_chunk_pages = 0, z_chunk_elems = 0,
     z_elem_offs = 0, z_quo_magic = 0, z_align_magic = 0, z_nocaching = False, z_stats = 0,
     z_views = 0, z_elems_rsv = 0\<rparr>"

record zone_security_flags =
  z_kheap_id :: nat
  z_noencrypt :: bool
  z_submap_idx :: nat
  z_kalloc_type :: bool
  z_sig_eq :: u16

record zone_view =
  zv_zone :: ptr
  zv_name :: string
  zv_stats :: ptr
  zv_next :: ptr

record kalloc_result =
  kr_addr :: ptr
  kr_size :: nat

record zstate = mach +
  zones :: "ptr \<rightharpoonup> zone"
  zone_security_array :: "nat \<Rightarrow> zone_security_flags"
  num_zones :: u16
  num_zones_in_use :: u16
  startup_phase :: nat
  views :: "ptr \<rightharpoonup> zone_view"
  zone_view_count :: u32
  mb_is_ready :: bool
  mbutl :: ptr
  embutl :: ptr
  current_page :: u64

text \<open>The constants and inline functions of the XNU headers the file uses.\<close>

record xnu_zone =
  ZONE_ID_ANY :: u16
  ZONE_ID_FIRST_DYNAMIC :: u16
  ZONE_ID_FIRST_RO :: u16
  ZONE_ID_LAST_RO :: u16
  ZONE_ID_PERCPU_PERMANENT :: u16
  ZC_PERCPU :: u64
  ZC_READONLY :: u64
  ZC_DESTRUCTIBLE :: u64
  ZC_NOCACHING :: u64
  ZC_KASAN_NOQUARANTINE :: u64
  ZC_KASAN_NOREDZONE :: u64
  Z_NOFAIL :: u32
  Z_WAITOK :: u32
  PAGE_SIZE :: nat
  STARTUP_SUB_LOCKDOWN :: nat
  MACH_ZONE_NAME_MAX_LEN :: nat
  KHEAP_ID_NONE :: nat
  KHEAP_ID_DATA_BUFFERS :: nat
  Z_SUBMAP_IDX_GENERAL_0 :: nat
  sizeof_zone :: nat
  sizeof_zone_stats :: nat
  zone_array :: ptr
  zone_stats_startup :: ptr
  zpcpu_mangle_for_boot :: "ptr \<Rightarrow> ptr"
  Z_MAGIC_QUO :: "u64 \<Rightarrow> u64"
  Z_MAGIC_ALIGNED :: "u64 \<Rightarrow> u64"
  zone_index :: "ptr \<Rightarrow> u16"
  zone_elem_inner_size :: "zone \<Rightarrow> nat"
  data_buffers_zstart :: u16
  kalloc_zone_for_size :: "u16 \<Rightarrow> nat \<Rightarrow> ptr"
  target_arm64 :: bool

definition MAX_ZONES :: nat where
  "MAX_ZONES = 690"

definition ZONE_MAX_ALLOC_SIZE :: nat where
  "ZONE_MAX_ALLOC_SIZE = 32 * 1024"

definition ZONE_MIN_ELEM_SIZE :: u64 where
  "ZONE_MIN_ELEM_SIZE = 8"

definition ZONE_ALIGN_SIZE :: u64 where
  "ZONE_ALIGN_SIZE = ZONE_MIN_ELEM_SIZE"

definition zone_slot :: "xnu_zone \<Rightarrow> nat \<Rightarrow> ptr" where
  "zone_slot xnu i = zone_array xnu + i * sizeof_zone xnu"

definition has_flag :: "'w::len word \<Rightarrow> 'w word \<Rightarrow> bool" where
  "has_flag flags f \<longleftrightarrow> flags AND f \<noteq> 0"

text \<open>Reading and updating the fields of the zone at an address; anything else there traps.\<close>

definition zone_get :: "ptr \<Rightarrow> (zone, 'z zstate_scheme) prog" where
  "zone_get p = (\<lambda>s. case zones s p of None \<Rightarrow> Stopped MemFault | Some z \<Rightarrow> Done z s)"

definition zone_upd :: "ptr \<Rightarrow> (zone \<Rightarrow> zone) \<Rightarrow> (unit, 'z zstate_scheme) prog" where
  "zone_upd p f = bindM (zone_get p) (\<lambda>z. modifyM (\<lambda>s. s\<lparr>zones := (zones s)(p \<mapsto> f z)\<rparr>))"

definition view_get :: "ptr \<Rightarrow> (zone_view, 'z zstate_scheme) prog" where
  "view_get p = (\<lambda>s. case views s p of None \<Rightarrow> Stopped MemFault | Some v \<Rightarrow> Done v s)"

definition view_upd :: "ptr \<Rightarrow> (zone_view \<Rightarrow> zone_view) \<Rightarrow> (unit, 'z zstate_scheme) prog" where
  "view_upd p f = bindM (view_get p) (\<lambda>v. modifyM (\<lambda>s. s\<lparr>views := (views s)(p \<mapsto> f v)\<rparr>))"

section \<open>Stand-alone zones\<close>

text \<open>\<open>calloc(1, sizeof(struct zone))\<close>: a block whose bytes are 0 is the all-zero zone. A null
  answer traps at the first field written, which every caller does at once.\<close>

definition calloc_zone :: "xnu_zone \<Rightarrow> (ptr, 'z zstate_scheme) prog" where
  "calloc_zone xnu =
     bindM (heapM (calloc 1 (sizeof_zone xnu))) (\<lambda>p.
       thenM (whenM (p \<noteq> 0) (modifyM (\<lambda>s. s\<lparr>zones := (zones s)(p \<mapsto> zone_zero)\<rparr>)))
         (retM p))"

definition zinit :: "xnu_zone \<Rightarrow> u64 \<Rightarrow> u64 \<Rightarrow> u64 \<Rightarrow> string \<Rightarrow> (ptr, 'z zstate_scheme) prog" where
  "zinit xnu sz mx al name =
     bindM (calloc_zone xnu) (\<lambda>z.
       thenM (zone_upd z (\<lambda>r. r\<lparr>z_elem_size := ucast sz\<rparr>))
         (retM z))"

definition zone_initialize :: "ptr \<Rightarrow> string \<Rightarrow> u64 \<Rightarrow> u64 \<Rightarrow> (unit, 'z zstate_scheme) prog" where
  "zone_initialize z name sz flags =
     thenM (zone_upd z (\<lambda>r. r\<lparr>z_self := z\<rparr>))
      (thenM (zone_upd z (\<lambda>r. r\<lparr>z_name := name\<rparr>))
        (zone_upd z (\<lambda>r. r\<lparr>z_elem_size := ucast sz\<rparr>)))"

definition zone_create :: "xnu_zone \<Rightarrow> string \<Rightarrow> u64 \<Rightarrow> u64 \<Rightarrow> (ptr, 'z zstate_scheme) prog" where
  "zone_create xnu name sz flags =
     bindM (calloc_zone xnu) (\<lambda>z.
       thenM (zone_initialize z name sz flags) (retM z))"

section \<open>Allocation\<close>

definition zalloc_ext :: "ptr \<Rightarrow> ptr \<Rightarrow> u32 \<Rightarrow> (kalloc_result, 'z zstate_scheme) prog" where
  "zalloc_ext z zstats flags =
     bindM (zone_get z) (\<lambda>r.
       bindM (heapM (calloc 1 (unat (z_elem_size r)))) (\<lambda>p.
         retM \<lparr>kr_addr = p, kr_size = unat (z_elem_size r)\<rparr>))"

definition zalloc_flags :: "ptr \<Rightarrow> u32 \<Rightarrow> (ptr, 'z zstate_scheme) prog" where
  "zalloc_flags z flags =
     bindM (zone_get z) (\<lambda>r.
       thenM (assertM (z_self r \<noteq> 0))
         (bindM (zalloc_ext (z_self r) (z_stats r) flags) (\<lambda>k. retM (kr_addr k))))"

definition xnu_zalloc :: "xnu_zone \<Rightarrow> ptr \<Rightarrow> (ptr, 'z zstate_scheme) prog" where
  "xnu_zalloc xnu zov = zalloc_flags zov (Z_WAITOK xnu)"

definition zalloc_ro :: "xnu_zone \<Rightarrow> u16 \<Rightarrow> u32 \<Rightarrow> (ptr, 'z zstate_scheme) prog" where
  "zalloc_ro xnu zone_id flags = xnu_zalloc xnu (zone_slot xnu (unat zone_id))"

definition zalloc_noblock :: "xnu_zone \<Rightarrow> ptr \<Rightarrow> (ptr, 'z zstate_scheme) prog" where
  "zalloc_noblock xnu zov =
     bindM (xnu_zalloc xnu zov) (\<lambda>p. if p = 0 then abortM else retM p)"

definition zalloc_id :: "xnu_zone \<Rightarrow> u16 \<Rightarrow> u32 \<Rightarrow> (ptr, 'z zstate_scheme) prog" where
  "zalloc_id xnu zid flags = zalloc_flags (zone_slot xnu (unat zid)) flags"

definition zalloc_percpu :: "xnu_zone \<Rightarrow> ptr \<Rightarrow> u32 \<Rightarrow> (ptr, 'z zstate_scheme) prog" where
  "zalloc_percpu xnu zov flags =
     bindM (view_get zov) (\<lambda>v. xnu_zalloc xnu (zv_zone v))"

definition zalloc_permanent :: "nat \<Rightarrow> nat \<Rightarrow> (ptr, 'z mach_scheme) prog" where
  "zalloc_permanent n msk = heapM (calloc 1 n)"

definition zalloc_percpu_permanent :: "nat \<Rightarrow> nat \<Rightarrow> (ptr, 'z mach_scheme) prog" where
  "zalloc_percpu_permanent n align_mask = heapM (calloc 1 n)"

definition zalloc_permanent_tag :: "nat \<Rightarrow> nat \<Rightarrow> nat \<Rightarrow> (ptr, 'z mach_scheme) prog" where
  "zalloc_permanent_tag n msk tag = heapM (calloc 1 n)"

definition kalloc_canblock :: "nat \<Rightarrow> bool \<Rightarrow> (ptr, 'z mach_scheme) prog" where
  "kalloc_canblock psize canblock = heapM (malloc psize)"

definition MALLOC_ZONE :: "nat \<Rightarrow> int \<Rightarrow> int \<Rightarrow> (ptr, 'z mach_scheme) prog" where
  "MALLOC_ZONE n type flags = heapM (malloc n)"

definition REALLOC :: "ptr \<Rightarrow> nat \<Rightarrow> int \<Rightarrow> int \<Rightarrow> (ptr, 'z mach_scheme) prog" where
  "REALLOC addr n type flags = heapM (realloc addr n)"

definition OSMalloc :: "u32 \<Rightarrow> (ptr, 'z mach_scheme) prog" where
  "OSMalloc n = heapM (malloc (unat n))"

section \<open>Release\<close>

definition xnu_zfree :: "ptr \<Rightarrow> ptr \<Rightarrow> (unit, 'z mach_scheme) prog" where
  "xnu_zfree z addr = heapM (free addr)"

definition zfree_ro :: "u16 \<Rightarrow> ptr \<Rightarrow> (unit, 'z mach_scheme) prog" where
  "zfree_ro zone_id addr = heapM (free addr)"

definition zfree_id :: "u16 \<Rightarrow> ptr \<Rightarrow> (unit, 'z mach_scheme) prog" where
  "zfree_id zone_id addr = heapM (free addr)"

definition zfree_nozero :: "u16 \<Rightarrow> ptr \<Rightarrow> (unit, 'z mach_scheme) prog" where
  "zfree_nozero zone_id elem = heapM (free elem)"

definition zfree_percpu :: "ptr \<Rightarrow> ptr \<Rightarrow> (unit, 'z mach_scheme) prog" where
  "zfree_percpu zone_or_view addr = heapM (free addr)"

definition zfree_ext :: "ptr \<Rightarrow> ptr \<Rightarrow> ptr \<Rightarrow> u64 \<Rightarrow> (unit, 'z mach_scheme) prog" where
  "zfree_ext z zstats addr combined_size = abortM"

definition kheap_free_addr :: "ptr \<Rightarrow> ptr \<Rightarrow> (unit, 'z mach_scheme) prog" where
  "kheap_free_addr kheap addr = heapM (free addr)"

definition kfree :: "ptr \<Rightarrow> nat \<Rightarrow> (unit, 'z mach_scheme) prog" where
  "kfree data n = heapM (free data)"

definition FREE_ZONE :: "ptr \<Rightarrow> nat \<Rightarrow> int \<Rightarrow> (unit, 'z mach_scheme) prog" where
  "FREE_ZONE elem n type = heapM (free elem)"

definition OSFree :: "ptr \<Rightarrow> u32 \<Rightarrow> (unit, 'z mach_scheme) prog" where
  "OSFree p n = heapM (free p)"

definition kfree_type_impl_internal :: "ptr \<Rightarrow> ptr \<Rightarrow> (unit, 'z mach_scheme) prog" where
  "kfree_type_impl_internal kt_view p = heapM (free p)"

definition security_zero :: zone_security_flags where
  "security_zero = \<lparr>z_kheap_id = 0, z_noencrypt = False, z_submap_idx = 0, z_kalloc_type = False,
     z_sig_eq = 0\<rparr>"

section \<open>Read-only zones\<close>

definition is_ro_zone :: "xnu_zone \<Rightarrow> u16 \<Rightarrow> bool" where
  "is_ro_zone xnu zid \<longleftrightarrow> ZONE_ID_FIRST_RO xnu \<le> zid \<and> zid \<le> ZONE_ID_LAST_RO xnu"

definition zalloc_ro_mut ::
  "xnu_zone \<Rightarrow> u16 \<Rightarrow> ptr \<Rightarrow> nat \<Rightarrow> ptr \<Rightarrow> nat \<Rightarrow> (unit, 'z mach_scheme) prog" where
  "zalloc_ro_mut xnu zid elem offset new_data new_data_size =
     thenM (assertM (is_ro_zone xnu zid))
       (heapM (memcpy (elem + offset) new_data new_data_size))"

definition zalloc_ro_clear :: "xnu_zone \<Rightarrow> u16 \<Rightarrow> ptr \<Rightarrow> nat \<Rightarrow> nat \<Rightarrow> (unit, 'z mach_scheme) prog" where
  "zalloc_ro_clear xnu zid elem offset n =
     thenM (assertM (is_ro_zone xnu zid)) (heapM (bzero (elem + offset) n))"

text \<open>The atomic operations themselves (\<open>__zalloc_ro_mut_atomic\<close>) are XNU code.\<close>

definition zalloc_ro_mut_atomic ::
  "xnu_zone \<Rightarrow> (ptr \<Rightarrow> 'op \<Rightarrow> u64 \<Rightarrow> (u64, 'z mach_scheme) prog) \<Rightarrow> u16 \<Rightarrow> ptr \<Rightarrow> nat \<Rightarrow> 'op \<Rightarrow> u64
   \<Rightarrow> (u64, 'z mach_scheme) prog" where
  "zalloc_ro_mut_atomic xnu atomic zid elem offset op val =
     thenM (assertM (is_ro_zone xnu zid)) (atomic (elem + offset) op val)"

section \<open>The mbuf cluster arena\<close>

definition MB_ARENA_BYTES :: nat where
  "MB_ARENA_BYTES = 4096 * 65535"

text \<open>C division of a signed \<open>int\<close> rounds towards 0; the quotient is added to a \<open>size_t\<close>.\<close>

definition pages_of :: "int \<Rightarrow> int" where
  "pages_of sz = sgn sz * (\<bar>sz\<bar> div 4096)"

text \<open>The result is the address and the value stored through \<open>err\<close>.\<close>

definition kmem_mb_alloc :: "u32 \<Rightarrow> int \<Rightarrow> int \<Rightarrow> (ptr \<times> int, 'z zstate_scheme) prog" where
  "kmem_mb_alloc mbmap sz physContig =
     bindM (getsM mb_is_ready) (\<lambda>ready.
     bindM (if ready then retM 0
            else bindM (heapM (posix_memalign 4096 MB_ARENA_BYTES)) (\<lambda>(err, p).
              if err \<noteq> 0 then retM err
              else thenM (modifyM (\<lambda>s. s\<lparr>mbutl := p, embutl := p + MB_ARENA_BYTES, mb_is_ready := True\<rparr>))
                     (retM 0))) (\<lambda>err.
     if err \<noteq> 0 then retM (0, err)
     else
       bindM (getsM mbutl) (\<lambda>base.
       thenM (assertM (base \<noteq> 0))
        (bindM (getsM current_page) (\<lambda>page.
         thenM (modifyM (\<lambda>s. s\<lparr>current_page := page + word_of_int (pages_of sz)\<rparr>))
           (retM (unat (of_nat base + page * 4096 :: u64), 0)))))))"

section \<open>Zone lookup\<close>

definition zone_by_id :: "xnu_zone \<Rightarrow> u64 \<Rightarrow> (ptr, 'z zstate_scheme) prog" where
  "zone_by_id xnu zid =
     (if zid = ucast (ZONE_ID_ANY xnu) then retM 0
      else if MAX_ZONES \<le> unat zid then panicM
      else bindM (zone_get (zone_slot xnu (unat zid))) (\<lambda>r.
        if z_self r \<noteq> zone_slot xnu (unat zid) then retM 0
        else retM (zone_slot xnu (unat zid))))"

definition zone_has_index :: "xnu_zone \<Rightarrow> ptr \<Rightarrow> u16 \<Rightarrow> bool" where
  "zone_has_index xnu z zid \<longleftrightarrow> zone_slot xnu (unat zid) = z"

definition zone_set_sig_eq :: "xnu_zone \<Rightarrow> ptr \<Rightarrow> u16 \<Rightarrow> (unit, 'z zstate_scheme) prog" where
  "zone_set_sig_eq xnu z sig_eq =
     (if unat (zone_index xnu z) < MAX_ZONES
      then modifyM (\<lambda>s. s\<lparr>zone_security_array := (zone_security_array s)
             (unat (zone_index xnu z) := (zone_security_array s (unat (zone_index xnu z)))\<lparr>z_sig_eq := sig_eq\<rparr>)\<rparr>)
      else stopM MemFault)"

definition zone_get_sig_eq :: "xnu_zone \<Rightarrow> ptr \<Rightarrow> (u16, 'z zstate_scheme) prog" where
  "zone_get_sig_eq xnu z =
     (if unat (zone_index xnu z) < MAX_ZONES
      then getsM (\<lambda>s. z_sig_eq (zone_security_array s (unat (zone_index xnu z))))
      else stopM MemFault)"

text \<open>\<open>zone_raise_reserve\<close> is given a zone or a view and tells them apart by address.\<close>

definition zone_raise_reserve :: "xnu_zone \<Rightarrow> ptr \<Rightarrow> u16 \<Rightarrow> (unit, 'z zstate_scheme) prog" where
  "zone_raise_reserve xnu zov min_elements =
     bindM (if zov < zone_array xnu \<or> zone_slot xnu MAX_ZONES < zov
            then bindM (view_get zov) (\<lambda>v. retM (zv_zone v))
            else retM zov) (\<lambda>z.
       zone_upd z (\<lambda>r. r\<lparr>z_elems_rsv := max (z_elems_rsv r) min_elements\<rparr>))"

section \<open>Entry points with a fixed answer\<close>

definition zone_change :: "(unit, 's) prog" where "zone_change = retM ()"
definition zone_enable_caching :: "ptr \<Rightarrow> (unit, 's) prog" where "zone_enable_caching z = retM ()"
definition cpu_number :: int where "cpu_number = 0"
definition zone_bootstrap :: "(unit, 's) prog" where "zone_bootstrap = retM ()"
definition zone_cram_foreign :: "ptr \<Rightarrow> nat \<Rightarrow> nat \<Rightarrow> (unit, 's) prog" where
  "zone_cram_foreign z newmem n = retM ()"
definition zone_element_info :: "ptr \<Rightarrow> (nat, 's) prog" where "zone_element_info addr = abortM"
definition zone_fill_initially :: "ptr \<Rightarrow> nat \<Rightarrow> (unit, 's) prog" where
  "zone_fill_initially z nelems = retM ()"
definition zone_foreign_mem_init :: "nat \<Rightarrow> bool \<Rightarrow> (ptr, 's) prog" where
  "zone_foreign_mem_init n allow_meta_steal = retM 0"
definition zone_gc :: "nat \<Rightarrow> (unit, 's) prog" where "zone_gc level = retM ()"
definition zone_get_foreign_alloc_size :: "string \<Rightarrow> nat \<Rightarrow> u64 \<Rightarrow> u16 \<Rightarrow> nat" where
  "zone_get_foreign_alloc_size name elem_size flags min_pages = 0"
definition zone_heap_name :: "ptr \<Rightarrow> (string, 's) prog" where "zone_heap_name z = abortM"
definition zone_id_require :: "u16 \<Rightarrow> nat \<Rightarrow> ptr \<Rightarrow> (unit, 's) prog" where
  "zone_id_require zone_id elem_size addr = retM ()"
definition zone_id_require_allow_foreign :: "u16 \<Rightarrow> nat \<Rightarrow> ptr \<Rightarrow> (unit, 's) prog" where
  "zone_id_require_allow_foreign zone_id elem_size addr = retM ()"
definition zone_index_from_tag_index :: "u32 \<Rightarrow> (u32, 's) prog" where
  "zone_index_from_tag_index tag_zone_index = abortM"
definition zone_map_nearing_exhaustion :: bool where "zone_map_nearing_exhaustion = False"
definition zone_maps_owned :: "nat \<Rightarrow> nat \<Rightarrow> bool" where "zone_maps_owned addr n = False"
definition zone_map_sizes :: "(unit, 's) prog" where "zone_map_sizes = abortM"
definition zone_name_of :: "ptr \<Rightarrow> (string, 's) prog" where "zone_name_of z = abortM"
definition zone_replenish_configure :: "(unit, 's) prog" where "zone_replenish_configure = retM ()"
definition zone_require :: "ptr \<Rightarrow> ptr \<Rightarrow> (unit, 's) prog" where "zone_require z addr = retM ()"
definition zone_require_ro :: "u16 \<Rightarrow> nat \<Rightarrow> ptr \<Rightarrow> (unit, 's) prog" where
  "zone_require_ro zone_id elem_size addr = retM ()"
definition zone_set_exhaustible :: "ptr \<Rightarrow> nat \<Rightarrow> bool \<Rightarrow> (unit, 's) prog" where
  "zone_set_exhaustible z max_elements by_design = retM ()"
definition zone_set_submap_idx :: "(unit, 's) prog" where "zone_set_submap_idx = retM ()"
definition zone_id_require_aligned :: "u16 \<Rightarrow> ptr \<Rightarrow> (unit, 's) prog" where
  "zone_id_require_aligned zone_id addr = retM ()"
definition zone_element_size :: "ptr \<Rightarrow> nat" where "zone_element_size elem = 0"
definition zalloc_first_proc_made :: "(unit, 's) prog" where "zalloc_first_proc_made = retM ()"
definition zcache_mark_valid :: "ptr \<Rightarrow> ptr \<Rightarrow> ptr" where "zcache_mark_valid z elem = elem"
definition zcache_mark_invalid :: "ptr \<Rightarrow> ptr \<Rightarrow> ptr" where "zcache_mark_invalid z elem = elem"
definition zone_id_for_element :: "ptr \<Rightarrow> nat \<Rightarrow> (u16, 's) prog" where
  "zone_id_for_element addr esize = abortM"
definition zone_cram_early :: "ptr \<Rightarrow> nat \<Rightarrow> nat \<Rightarrow> (unit, 's) prog" where
  "zone_cram_early z newmem n = retM ()"
definition zone_get_early_alloc_size :: "string \<Rightarrow> nat \<Rightarrow> u64 \<Rightarrow> nat \<Rightarrow> nat" where
  "zone_get_early_alloc_size name elem_size flags min_elems = 0"
definition zone_early_mem_init :: "nat \<Rightarrow> (ptr, 's) prog" where "zone_early_mem_init n = retM 0"

section \<open>The contract of the allocation entry points\<close>

lemma mach_alloc_contract:
  assumes "mach_ok s"
  shows "\<exists>p t. heapM (alloc_aligned al n c) s = Done p t \<and> mach_ok t \<and>
           (p = 0 \<and> live_blocks t = live_blocks s
            \<or> p \<noteq> 0 \<and> live_blocks s p = None \<and> live_blocks t = (live_blocks s)(p \<mapsto> n))"
  using alloc_aligned_contract [of "mheap s" al n c] assms
  by (fastforce simp: mach_ok_def live_blocks_def)

lemma mach_free_live:
  assumes "mach_ok s" "live_blocks s p = Some n"
  shows "\<exists>t. heapM (free p) s = Done () t \<and> mach_ok t \<and> live_blocks t = (live_blocks s)(p := None)"
  using free_live [of "mheap s" p n] assms
  by (fastforce simp: mach_ok_def live_blocks_def)

lemma mach_free_dead:
  "p \<noteq> 0 \<Longrightarrow> live_blocks s p = None \<Longrightarrow> heapM (free p) s = Stopped MemFault"
  by (simp add: free_dead live_blocks_def)

lemma mach_free_null: "heapM (free 0) s = Done () s"
  by (simp add: mheap_self)

text \<open>The sized entry points of the file (\<open>OSMalloc\<close>-style allocation with \<open>kfree\<close>, and the zeroing
  permanent allocator with \<open>zfree\<close>) meet the contract of a block allocator.\<close>

lemma mach_allocator:
  "block_allocator (\<lambda>n. heapM (alloc_aligned al n c)) (\<lambda>p. heapM (free p)) live_blocks mach_ok"
  by (rule block_allocator.intro)
     (fact mach_alloc_contract mach_free_null mach_free_live mach_free_dead)+

interpretation kmem: block_allocator "\<lambda>n. MALLOC_ZONE n 0 0" "\<lambda>p. FREE_ZONE p 0 0" live_blocks mach_ok
  unfolding MALLOC_ZONE_def FREE_ZONE_def malloc_def by (rule mach_allocator)

interpretation zperm: block_allocator "\<lambda>n. zalloc_permanent n 0" "xnu_zfree z" live_blocks mach_ok
  unfolding zalloc_permanent_def xnu_zfree_def calloc_def mult_1 by (rule mach_allocator)

text \<open>An initialised zone: the address holds a zone whose self pointer is an address of a zone with
  the same element size (the zone itself, for every zone the file creates).\<close>

definition zone_ready :: "'z zstate_scheme \<Rightarrow> ptr \<Rightarrow> nat \<Rightarrow> bool" where
  "zone_ready s z n \<longleftrightarrow> (\<exists>r. zones s z = Some r \<and> z_self r = z \<and> z \<noteq> 0 \<and> unat (z_elem_size r) = n)"

lemma zalloc_flags_ready:
  assumes "zone_ready s z n"
  shows "zalloc_flags z flags s = heapM (alloc_aligned 1 n (Some (\<lambda>_. 0))) s"
  using assms
  by (auto simp: zone_ready_def zalloc_flags_def zalloc_ext_def zone_get_def calloc_def
      split: outcome.split)

lemma read_fill: "read_bytes (h\<lparr>mem := fill m a n f, blocks := b, choices := c\<rparr>) a n = map f [0 ..< n]"
  by (rule nth_equalityI) (auto simp: read_bytes_def fill_def)

section \<open>A concrete instance of the header parameters\<close>

text \<open>Used by the witnesses: 4 KiB pages, a 256-byte \<open>struct zone\<close> and an array at a fixed address.\<close>

definition xnu_x86 :: xnu_zone where
  "xnu_x86 = \<lparr>ZONE_ID_ANY = 65535, ZONE_ID_FIRST_DYNAMIC = 40, ZONE_ID_FIRST_RO = 10, ZONE_ID_LAST_RO = 19,
     ZONE_ID_PERCPU_PERMANENT = 1, ZC_PERCPU = 1, ZC_READONLY = 2, ZC_DESTRUCTIBLE = 4, ZC_NOCACHING = 8,
     ZC_KASAN_NOQUARANTINE = 16, ZC_KASAN_NOREDZONE = 32, Z_NOFAIL = 8, Z_WAITOK = 0, PAGE_SIZE = 4096,
     STARTUP_SUB_LOCKDOWN = 10, MACH_ZONE_NAME_MAX_LEN = 80, KHEAP_ID_NONE = 0, KHEAP_ID_DATA_BUFFERS = 2,
     Z_SUBMAP_IDX_GENERAL_0 = 3, sizeof_zone = 256, sizeof_zone_stats = 64, zone_array = 1048576,
     zone_stats_startup = 2097152, zpcpu_mangle_for_boot = (\<lambda>p. p), Z_MAGIC_QUO = (\<lambda>s. s),
     Z_MAGIC_ALIGNED = (\<lambda>s. s), zone_index = (\<lambda>p. of_nat ((p - 1048576) div 256)),
     zone_elem_inner_size = (\<lambda>r. unat (z_elem_size r)), data_buffers_zstart = 40,
     kalloc_zone_for_size = (\<lambda>z n. 1048576 + unat z * 256), target_arm64 = False\<rparr>"

text \<open>The state before the first zone is created: every slot is zero.\<close>

definition zstate_boot :: "xnu_zone \<Rightarrow> (ptr \<times> (nat \<Rightarrow> u8)) list \<Rightarrow> fuzz \<Rightarrow> zstate" where
  "zstate_boot xnu cs fz = \<lparr>mheap = \<lparr>choices = cs, blocks = [], mem = (\<lambda>_. 0)\<rparr>, mfuzz = fz,
     zones = (\<lambda>p. if zone_array xnu \<le> p \<and> p < zone_slot xnu MAX_ZONES \<and> (p - zone_array xnu) mod sizeof_zone xnu = 0
                  then Some zone_zero else None),
     zone_security_array = (\<lambda>_. security_zero), num_zones = 0, num_zones_in_use = 0, startup_phase = 0,
     views = Map.empty, zone_view_count = 0, mb_is_ready = False, mbutl = 0, embutl = 0, current_page = 0\<rparr>"

lemma mach_ok_boot: "mach_ok (zstate_boot xnu cs None)"
  by (simp add: mach_ok_def zstate_boot_def heap_wf_def fuzz_ok_def)

section \<open>Properties\<close>

lemma alloc_keeps_blocks:
  assumes "heap_wf h" "alloc_aligned al n c h = Done p t" "block_size h q = Some m"
  shows "read_bytes t q m = read_bytes h q m"
proof (cases rule: alloc_aligned_cases [of al n c h])
  case (null cs)
  then show ?thesis using assms by (simp add: read_bytes_def)
next
  case (block a cs f)
  have "(q, m) \<in> set (blocks h)" using assms(3) by (simp add: block_size_def map_of_SomeD)
  then have "separate a n q m" using block(2) by (auto simp: legal_block_def list_all_iff)
  then show ?thesis using block(1) assms(2) by (auto simp: read_bytes_def fill_def separate_def)
qed

lemma alloc_zero_content:
  assumes "alloc_aligned al n (Some (\<lambda>_. 0)) h = Done p t" "p \<noteq> 0"
  shows "read_bytes t p n = replicate n 0"
proof (cases rule: alloc_aligned_cases [of al n "Some (\<lambda>_. 0)" h])
  case (null cs)
  then show ?thesis using assms by simp
next
  case (block a cs f)
  then show ?thesis using assms by (auto simp: read_bytes_def fill_def intro!: nth_equalityI)
qed

text \<open>C16. \<open>zalloc_flags\<close> on an initialised zone returns. It answers NULL and changes no block, or it
  answers a block of the zone's element size that was not live, whose bytes are all 0; the contents of
  every other live block are unchanged, and so are the zones.\<close>

theorem zalloc_fresh_zeroed:
  assumes "mach_ok s" and "zone_ready s z n"
  shows "\<exists>p t. zalloc_flags z flags s = Done p t \<and> mach_ok t \<and> zones t = zones s \<and>
     (p = 0 \<and> live_blocks t = live_blocks s \<or>
      p \<noteq> 0 \<and> live_blocks s p = None \<and> live_blocks t = (live_blocks s)(p \<mapsto> n) \<and>
      read_bytes (mheap t) p n = replicate n 0) \<and>
     (\<forall>q m. live_blocks s q = Some m \<longrightarrow> read_bytes (mheap t) q m = read_bytes (mheap s) q m)"
proof -
  obtain p t where t: "heapM (alloc_aligned 1 n (Some (\<lambda>_. 0))) s = Done p t" "mach_ok t"
    "p = 0 \<and> live_blocks t = live_blocks s \<or> p \<noteq> 0 \<and> live_blocks s p = None \<and> live_blocks t = (live_blocks s)(p \<mapsto> n)"
    using mach_alloc_contract [OF assms(1)] by blast
  then obtain h where h: "alloc_aligned 1 n (Some (\<lambda>_. 0)) (mheap s) = Done p h" "t = s\<lparr>mheap := h\<rparr>"
    by (auto split: outcome.splits)
  then show ?thesis
    using t alloc_zero_content [OF h(1)] alloc_keeps_blocks [OF _ h(1)] assms
    by (auto simp: zalloc_flags_ready [OF assms(2)] mach_ok_def live_blocks_def)
qed

definition zstate_one_zone :: "(ptr \<times> (nat \<Rightarrow> u8)) list \<Rightarrow> zstate" where
  "zstate_one_zone cs = (zstate_boot xnu_x86 cs None)\<lparr>zones := [5000 \<mapsto> zone_zero\<lparr>z_self := 5000, z_elem_size := 48\<rparr>]\<rparr>"

lemma zstate_one_zone_ready: "zone_ready (zstate_one_zone cs) 5000 48" "mach_ok (zstate_one_zone cs)"
  by (simp_all add: zone_ready_def zstate_one_zone_def mach_ok_def zstate_boot_def heap_wf_def fuzz_ok_def)

theorem zalloc_fresh_zeroed_witness:
  "\<exists>p t. zalloc_flags 5000 0 (zstate_one_zone [(64, \<lambda>_. 7)]) = Done p t \<and> p = 64 \<and>
     read_bytes (mheap t) p 48 = replicate 48 0"
proof -
  have run: "zalloc_flags 5000 0 (zstate_one_zone [(64, \<lambda>_. 7)]) = Done p t \<Longrightarrow> p = 64" for p t
    by (simp add: zalloc_flags_def zalloc_ext_def zone_get_def calloc_def alloc_aligned_def
        zstate_one_zone_def zstate_boot_def zone_zero_def legal_block_def addr_limit_def)
  show ?thesis
    using zalloc_fresh_zeroed [OF zstate_one_zone_ready(2) zstate_one_zone_ready(1), where flags = 0] run by fastforce
qed

text \<open>C27. A round trip through a zone: what \<open>zalloc_flags\<close> returned can be given to \<open>zfree\<close>, after
  which the live blocks are the ones before the allocation; freeing the element a second time is trapped.\<close>

theorem zalloc_zfree_roundtrip:
  assumes "mach_ok s" and "zone_ready s z n"
  shows "\<exists>p t u. zalloc_flags z flags s = Done p t \<and> xnu_zfree z p t = Done () u \<and> mach_ok u \<and>
     live_blocks u = live_blocks s \<and> (p \<noteq> 0 \<longrightarrow> xnu_zfree z p u = Stopped MemFault)"
proof -
  have eq: "zalloc_flags z flags s = zalloc_permanent n 0 s"
    by (simp add: zalloc_flags_ready [OF assms(2)] zalloc_permanent_def calloc_def)
  obtain p t where t: "zalloc_permanent n 0 s = Done p t" "mach_ok t"
    "p = 0 \<and> live_blocks t = live_blocks s \<or> p \<noteq> 0 \<and> live_blocks s p = None \<and> live_blocks t = (live_blocks s)(p \<mapsto> n)"
    using zperm.alloc_contract [OF assms(1)] by blast
  obtain q v u where u: "zalloc_permanent n 0 s = Done q v" "xnu_zfree z q v = Done () u" "mach_ok u"
    "live_blocks u = live_blocks s"
    using zperm.alloc_dealloc_restores [OF assms(1), of n z] by blast
  have "xnu_zfree z p u = Stopped MemFault" if "p \<noteq> 0"
    using that t u(4) zperm.dealloc_dead [of p u z] by auto
  then show ?thesis using t u eq by auto
qed

theorem zalloc_zfree_roundtrip_witness:
  "\<exists>p t u. zalloc_flags 5000 0 (zstate_one_zone [(64, \<lambda>_. 7)]) = Done p t \<and> xnu_zfree 5000 p t = Done () u \<and>
     live_blocks u = live_blocks (zstate_one_zone [(64, \<lambda>_. 7)])"
  using zalloc_zfree_roundtrip [OF zstate_one_zone_ready(2) zstate_one_zone_ready(1), where flags = 0] by blast

section \<open>The arena\<close>

text \<open>The arena once it exists: it does not wrap around the address space, and the pages handed out
  so far fit into it.\<close>

definition arena_ok :: "'z zstate_scheme \<Rightarrow> bool" where
  "arena_ok s \<longleftrightarrow> mb_is_ready s \<and> mbutl s \<noteq> 0 \<and> embutl s = mbutl s + MB_ARENA_BYTES \<and>
     embutl s < addr_limit \<and> unat (current_page s) \<le> 65535"

lemma pages_of_nat: "pages_of (int n) = int (n div 4096)"
  by (cases "n = 0") (simp_all add: pages_of_def zdiv_int)

lemma kmem_mb_alloc_step:
  assumes "arena_ok s"
  shows "kmem_mb_alloc mbmap (int n) pc s = Done (mbutl s + unat (current_page s) * 4096, 0)
     (s\<lparr>current_page := of_nat (unat (current_page s) + n div 4096)\<rparr>)"
proof -
  let ?c = "unat (current_page s)"
  have "mbutl s + ?c * 4096 < 2 ^ 64"
    using assms by (auto simp: arena_ok_def addr_limit_def MB_ARENA_BYTES_def)
  then have "unat (of_nat (mbutl s + ?c * 4096) :: u64) = mbutl s + ?c * 4096"
    by (intro unat_of_nat_less) simp
  then have addr: "unat (of_nat (mbutl s) + current_page s * 4096 :: u64) = mbutl s + ?c * 4096"
    by simp
  have "word_of_int (pages_of (int n)) = (of_nat (n div 4096) :: u64)"
    unfolding pages_of_nat of_int_of_nat_eq ..
  then show ?thesis using assms addr by (simp add: kmem_mb_alloc_def arena_ok_def)
qed

primrec mb_alloc_all :: "nat list \<Rightarrow> (ptr list, 'z zstate_scheme) prog" where
  "mb_alloc_all [] = retM []"
| "mb_alloc_all (n # ns) = bindM (kmem_mb_alloc 0 (int n) 0) (\<lambda>(p, err).
     bindM (mb_alloc_all ns) (\<lambda>ps. retM (p # ps)))"

lemma mb_alloc_all_addresses:
  assumes "arena_ok s" "unat (current_page s) + sum_list (map (\<lambda>n. n div 4096) ns) \<le> 65535"
  shows "\<exists>ps t. mb_alloc_all ns s = Done ps t \<and> arena_ok t \<and> length ps = length ns \<and>
     (\<forall>i<length ns. ps ! i = mbutl s + (unat (current_page s) + sum_list (map (\<lambda>n. n div 4096) (take i ns))) * 4096)"
  using assms
proof (induction ns arbitrary: s)
  case Nil
  then show ?case by simp
next
  case (Cons n ns)
  let ?c = "unat (current_page s) + n div 4096"
  let ?s = "s\<lparr>current_page := of_nat ?c\<rparr>"
  have c: "unat (of_nat ?c :: u64) = ?c" using Cons.prems(2) by (intro unat_of_nat_less) simp
  then have ok: "arena_ok ?s" using Cons.prems by (simp add: arena_ok_def)
  obtain ps t where ps: "mb_alloc_all ns ?s = Done ps t" "arena_ok t" "length ps = length ns"
    "\<forall>i<length ns. ps ! i = mbutl s + (?c + sum_list (map (\<lambda>n. n div 4096) (take i ns))) * 4096"
    using Cons.IH [OF ok] Cons.prems(2) c by auto
  have "mb_alloc_all (n # ns) s = Done ((mbutl s + unat (current_page s) * 4096) # ps) t"
    using ps kmem_mb_alloc_step [of s, where n = n] Cons.prems by simp
  moreover have "((mbutl s + unat (current_page s) * 4096) # ps) ! i
      = mbutl s + (unat (current_page s) + sum_list (map (\<lambda>n. n div 4096) (take i (n # ns)))) * 4096"
    if "i < length (n # ns)" for i
    using that ps(4) by (cases i) (auto simp: algebra_simps)
  ultimately show ?case using ps by auto
qed

lemma sum_list_take_step:
  fixes ns :: "nat list"
  assumes "i < j" "j \<le> length ns"
  shows "sum_list (take i ns) + ns ! i \<le> sum_list (take j ns)"
proof -
  have "take j ns = take (Suc i) ns @ drop (Suc i) (take j ns)"
    using assms by (metis Suc_leI append_take_drop_id min.absorb1 take_take)
  moreover have "take (Suc i) ns = take i ns @ [ns ! i]"
    using assms by (simp add: take_Suc_conv_app_nth)
  ultimately have "sum_list (take j ns) = sum_list (take i ns) + ns ! i + sum_list (drop (Suc i) (take j ns))"
    by (metis append_assoc sum_list.append sum_list.Cons sum_list.Nil add.right_neutral)
  then show ?thesis by simp
qed

text \<open>C31. The cluster arena hands out disjoint memory. From an existing arena, requests for whole
  numbers of pages that fit into what is left all succeed; each region lies inside the arena, and the
  regions of two requests do not overlap.\<close>

theorem kmem_mb_alloc_disjoint:
  assumes "arena_ok s" and "\<forall>n \<in> set ns. 4096 dvd n"
    and "unat (current_page s) * 4096 + sum_list ns \<le> MB_ARENA_BYTES"
  shows "\<exists>ps t. mb_alloc_all ns s = Done ps t \<and> length ps = length ns \<and>
     (\<forall>i<length ns. mbutl s \<le> ps ! i \<and> ps ! i + ns ! i \<le> embutl s) \<and>
     (\<forall>i j. i < j \<longrightarrow> j < length ns \<longrightarrow> ps ! i + ns ! i \<le> ps ! j)"
proof -
  define pg where "pg = (\<lambda>ns :: nat list. sum_list (map (\<lambda>n. n div 4096) ns))"
  have pg: "pg ms * 4096 = sum_list ms" if "set ms \<subseteq> set ns" for ms
    using that assms(2) by (induction ms) (auto simp: pg_def algebra_simps)
  have "unat (current_page s) + pg ns \<le> 65535"
    using assms(3) pg [of ns] by (simp add: MB_ARENA_BYTES_def)
  from mb_alloc_all_addresses [OF assms(1) this [unfolded pg_def]]
  obtain ps t where ps: "mb_alloc_all ns s = Done ps t" "length ps = length ns"
    and at: "\<And>i. i < length ns \<Longrightarrow> ps ! i = mbutl s + (unat (current_page s) + pg (take i ns)) * 4096"
    by (auto simp: pg_def)
  have addr: "ps ! i = mbutl s + unat (current_page s) * 4096 + sum_list (take i ns)" if "i < length ns" for i
    using at [OF that] pg [of "take i ns"] set_take_subset [of i ns] by (simp add: algebra_simps)
  have upto: "sum_list (take i ns) + ns ! i \<le> sum_list (take j ns)" if "i < j" "j \<le> length ns" for i j
    using that by (rule sum_list_take_step)
  have "mbutl s \<le> ps ! i \<and> ps ! i + ns ! i \<le> embutl s" if "i < length ns" for i
    using addr [OF that] upto [OF that] assms(1,3) by (simp add: arena_ok_def)
  moreover have "ps ! i + ns ! i \<le> ps ! j" if "i < j" "j < length ns" for i j
    using addr [of i] addr [of j] upto [of i j] that by simp
  ultimately show ?thesis using ps by blast
qed

definition zstate_arena :: "u64 \<Rightarrow> zstate" where
  "zstate_arena c = (zstate_boot xnu_x86 [] None)\<lparr>mb_is_ready := True, mbutl := 1048576,
     embutl := 1048576 + MB_ARENA_BYTES, current_page := c\<rparr>"

lemma zstate_arena_ok: "unat c \<le> 65535 \<Longrightarrow> arena_ok (zstate_arena c)"
  by (simp add: arena_ok_def zstate_arena_def addr_limit_def MB_ARENA_BYTES_def)

lemma zstate_arena_fields [simp]:
  "mbutl (zstate_arena c) = 1048576" "embutl (zstate_arena c) = 1048576 + MB_ARENA_BYTES"
  "current_page (zstate_arena c) = c"
  by (simp_all add: zstate_arena_def)

theorem kmem_mb_alloc_disjoint_witness:
  "\<exists>ps t. mb_alloc_all [4096, 16384, 8192] (zstate_arena 3) = Done ps t \<and> ps ! 0 + 4096 \<le> ps ! 1 \<and> ps ! 1 + 16384 \<le> ps ! 2"
proof -
  define ns where "ns = [4096, 16384, 8192 :: nat]"
  have ns: "\<forall>n \<in> set ns. 4096 dvd n" "length ns = 3" "ns ! 0 = 4096" "ns ! 1 = 16384"
    "unat (current_page (zstate_arena 3)) * 4096 + sum_list ns \<le> MB_ARENA_BYTES"
    by (auto simp: ns_def MB_ARENA_BYTES_def)
  have ok: "arena_ok (zstate_arena 3)" by (rule zstate_arena_ok) simp
  obtain ps t where ps: "mb_alloc_all ns (zstate_arena 3) = Done ps t"
    and d: "\<And>i j. i < j \<Longrightarrow> j < length ns \<Longrightarrow> ps ! i + ns ! i \<le> ps ! j"
    using kmem_mb_alloc_disjoint [OF ok ns(1,5)] by blast
  show ?thesis using ps d [of 0 1] d [of 1 2] ns(2,3,4) unfolding ns_def [symmetric] by auto
qed

text \<open>The limits of the arena. A request of less than a page advances nothing, so the next request
  is answered with the same memory; and the arena has no end: when every page is taken, a request is
  answered with the address just past the arena and with no error.\<close>

lemma kmem_mb_alloc_limits:
  assumes "arena_ok s"
  shows "(n < 4096 \<longrightarrow> (\<exists>p. kmem_mb_alloc mbmap (int n) pc s = Done (p, 0) s \<and>
            (\<exists>t. kmem_mb_alloc mbmap (int m) pc s = Done (p, 0) t))) \<and>
     (unat (current_page s) = 65535 \<longrightarrow> (\<exists>t. kmem_mb_alloc mbmap (int n) pc s = Done (embutl s, 0) t))"
  using kmem_mb_alloc_step [OF assms] assms
  by (auto simp: arena_ok_def MB_ARENA_BYTES_def)

lemma kmem_mb_alloc_limits_witness:
  "(\<exists>t. kmem_mb_alloc 0 4096 0 (zstate_arena 65535) = Done (1048576 + MB_ARENA_BYTES, 0) t) \<and>
   (\<exists>p. kmem_mb_alloc 0 2048 0 (zstate_arena 7) = Done (p, 0) (zstate_arena 7))"
  using kmem_mb_alloc_limits [OF zstate_arena_ok [of 65535], of 4096 0 0 0]
    kmem_mb_alloc_limits [OF zstate_arena_ok [of 7], of 2048 0 0 0] by auto

end
