(* ===== verification/ZoneCreate.thy ===== *)
theory ZoneCreate
  imports Zalloc
begin

text \<open>
  Zone creation of \<open>fuzz/xnu/osfmk/fakes/zalloc.c\<close>: the slot search \<open>zone_create_find\<close>, the size
  arithmetic (\<open>zone_elem_adjust_size\<close>, \<open>zone_get_min_alloc_granule\<close>), \<open>zone_create_ext\<close>,
  \<open>zone_create_startup\<close>, the security array and the zone views. The invariant \<open>zone_table\<close> says
  which slots of \<open>zone_array\<close> are in use and that the two counters agree with them.
\<close>

section \<open>Sizes\<close>

definition zone_elem_adjust_size :: "u64 \<Rightarrow> u64" where
  "zone_elem_adjust_size elem_size =
     (let sz = (elem_size + ZONE_ALIGN_SIZE - 1) AND - ZONE_ALIGN_SIZE
      in if sz < ZONE_MIN_ELEM_SIZE then ZONE_MIN_ELEM_SIZE else sz)"

text \<open>The percentage of a chunk that no element fits into.\<close>

definition frag_of :: "nat \<Rightarrow> nat \<Rightarrow> nat" where
  "frag_of alloc elem = (alloc mod elem) * 100 div alloc"

text \<open>The loop of \<open>zone_get_min_alloc_granule\<close>: \<open>tmp\<close> grows by one page per iteration, \<open>best\<close> is the
  chunk size with the smallest fragmentation so far. With a page size of 0 the code has divided
  by 0 before it gets here.\<close>

function granule_loop :: "nat \<Rightarrow> nat \<Rightarrow> nat \<Rightarrow> nat \<Rightarrow> nat \<Rightarrow> nat \<Rightarrow> nat" where
  "granule_loop page max_chunk elem tmp frag best =
     (if page = 0 \<or> max_chunk < tmp + page then best
      else if frag_of (tmp + page) elem < frag
        then granule_loop page max_chunk elem (tmp + page) (frag_of (tmp + page) elem) (tmp + page)
        else granule_loop page max_chunk elem (tmp + page) frag best)"
  by pat_completeness auto
termination granule_loop
  by (relation "measure (\<lambda>(page, max_chunk, elem, tmp, frag, best). max_chunk - tmp)") auto

declare granule_loop.simps [simp del]

definition zpercpu_count :: nat where
  "zpercpu_count = 1"

definition max_chunk_size :: "xnu_zone \<Rightarrow> nat \<Rightarrow> nat" where
  "max_chunk_size xnu elem_size =
     (if target_arm64 xnu \<and> 4 * 1024 < elem_size \<and> PAGE_SIZE xnu = 16 * 1024
      then 48 * 1024 else ZONE_MAX_ALLOC_SIZE)"

definition zone_get_min_alloc_granule :: "xnu_zone \<Rightarrow> nat \<Rightarrow> u64 \<Rightarrow> (nat, 's) prog" where
  "zone_get_min_alloc_granule xnu elem_size flags =
     (if has_flag flags (ZC_PERCPU xnu) then
        (if elem_size = 0 then stopM MemFault
         else if 256 < PAGE_SIZE xnu mod elem_size then panicM
         else retM (PAGE_SIZE xnu * zpercpu_count))
      else if has_flag flags (ZC_READONLY xnu) then retM (PAGE_SIZE xnu)
      else if elem_size AND (PAGE_SIZE xnu - 1) = 0 then retM elem_size
      else if PAGE_SIZE xnu mod elem_size = 0 then retM (PAGE_SIZE xnu)
      else retM (granule_loop (PAGE_SIZE xnu) (max_chunk_size xnu elem_size) elem_size
             (PAGE_SIZE xnu) (frag_of (PAGE_SIZE xnu) elem_size) (PAGE_SIZE xnu)))"

section \<open>Finding a slot\<close>

definition zone_init_defaults :: "xnu_zone \<Rightarrow> u16 \<Rightarrow> (ptr, 's) prog" where
  "zone_init_defaults xnu zid = retM (zone_slot xnu (unat zid))"

text \<open>The result is the slot and the identifier written back through \<open>zid_inout\<close>.\<close>

definition zone_create_find ::
  "xnu_zone \<Rightarrow> string \<Rightarrow> u64 \<Rightarrow> u64 \<Rightarrow> u16 \<Rightarrow> (ptr \<times> u16, 'z zstate_scheme) prog" where
  "zone_create_find xnu name sz flags zid =
     bindM (getsM num_zones) (\<lambda>n.
     bindM (getsM num_zones_in_use) (\<lambda>used.
     thenM (assertM (used \<le> n \<and> unat n < MAX_ZONES))
     (thenM (whenM (n < ZONE_ID_FIRST_DYNAMIC xnu)
        (thenM (forM [unat n ..< unat (ZONE_ID_FIRST_DYNAMIC xnu)]
                  (\<lambda>i. bindM (zone_init_defaults xnu (of_nat i)) (\<lambda>_. retM ())))
          (modifyM (\<lambda>s. s\<lparr>num_zones := ZONE_ID_FIRST_DYNAMIC xnu\<rparr>))))
     (bindM (if zid \<noteq> ZONE_ID_ANY xnu
             then thenM (if ZONE_ID_FIRST_DYNAMIC xnu \<le> zid then panicM else retM ())
                   (thenM (if has_flag flags (ZC_DESTRUCTIBLE xnu) then panicM else retM ())
                     (bindM (zone_get (zone_slot xnu (unat zid))) (\<lambda>r.
                        if z_self r \<noteq> 0 then panicM
                        else retM (zone_slot xnu (unat zid), zid))))
             else bindM (getsM num_zones) (\<lambda>nzones.
                   bindM (zone_init_defaults xnu nzones) (\<lambda>z.
                     thenM (modifyM (\<lambda>s. s\<lparr>num_zones := nzones + 1\<rparr>))
                       (retM (z, nzones))))) (\<lambda>(z, zid').
      thenM (modifyM (\<lambda>s. s\<lparr>num_zones_in_use := num_zones_in_use s + 1\<rparr>))
        (retM (z, zid')))))))"

section \<open>Creating a zone\<close>

definition zone_set_name :: "xnu_zone \<Rightarrow> ptr \<Rightarrow> string \<Rightarrow> (unit, 'z zstate_scheme) prog" where
  "zone_set_name xnu z name =
     bindM (getsM startup_phase) (\<lambda>phase.
       if STARTUP_SUB_LOCKDOWN xnu \<le> phase then
         (let nsz = min (length name + 1) (MACH_ZONE_NAME_MAX_LEN xnu) in
          bindM (zalloc_permanent nsz 0) (\<lambda>buf.
            thenM (heapM (store_at buf (if nsz = 0 then []
                     else map (\<lambda>c. of_nat (of_char c)) (take (nsz - 1) name) @ [0])))
              (zone_upd z (\<lambda>r. r\<lparr>z_name := take (nsz - 1) name\<rparr>))))
       else zone_upd z (\<lambda>r. r\<lparr>z_name := name\<rparr>))"

definition zone_set_stats :: "xnu_zone \<Rightarrow> ptr \<Rightarrow> (unit, 'z zstate_scheme) prog" where
  "zone_set_stats xnu z =
     bindM (zone_get (zone_slot xnu (unat (ZONE_ID_PERCPU_PERMANENT xnu)))) (\<lambda>pp.
       if z_self pp \<noteq> 0 then
         bindM (zalloc_percpu_permanent (sizeof_zone_stats xnu) 0) (\<lambda>st.
           zone_upd z (\<lambda>r. r\<lparr>z_stats := st\<rparr>))
       else zone_upd z (\<lambda>r. r\<lparr>z_stats := zpcpu_mangle_for_boot xnu
              (zone_stats_startup xnu + unat (zone_index xnu z) * sizeof_zone_stats xnu)\<rparr>))"

definition zone_set_geometry :: "xnu_zone \<Rightarrow> ptr \<Rightarrow> u64 \<Rightarrow> u64 \<Rightarrow> nat \<Rightarrow> (unit, 'z zstate_scheme) prog" where
  "zone_set_geometry xnu z sz flags alloc =
     (let elem = (ucast sz :: u16);
          span = (if has_flag flags (ZC_PERCPU xnu) then PAGE_SIZE xnu else alloc) in
      thenM (zone_upd z (\<lambda>r. r\<lparr>z_elem_size := elem, z_chunk_pages := of_nat (alloc div PAGE_SIZE xnu),
                z_quo_magic := Z_MAGIC_QUO xnu sz, z_align_magic := Z_MAGIC_ALIGNED xnu sz\<rparr>))
       (if elem = 0 then stopM MemFault
        else zone_upd z (\<lambda>r. r\<lparr>z_chunk_elems := of_nat (span div unat elem),
                z_elem_offs := of_nat (span mod unat elem)\<rparr>)))"

definition security_reset :: "u16 \<Rightarrow> (unit, 'z zstate_scheme) prog" where
  "security_reset zid =
     (if unat zid < MAX_ZONES
      then modifyM (\<lambda>s. s\<lparr>zone_security_array := (zone_security_array s)(unat zid := security_zero)\<rparr>)
      else stopM MemFault)"

text \<open>Elements that are too small for KASAN get two more flags.\<close>

definition effective_flags :: "xnu_zone \<Rightarrow> u64 \<Rightarrow> u64 \<Rightarrow> u64" where
  "effective_flags xnu sz flags =
     (if sz < 2 * 8 then flags OR (ZC_KASAN_NOQUARANTINE xnu OR ZC_KASAN_NOREDZONE xnu) else flags)"

text \<open>The last part of \<open>zone_create_ext\<close>, after the geometry has been stored.\<close>

definition zone_create_finish ::
  "xnu_zone \<Rightarrow> u64 \<Rightarrow> (ptr \<Rightarrow> (unit, 'z zstate_scheme) prog) option \<Rightarrow> ptr \<Rightarrow> u16 \<Rightarrow> (ptr, 'z zstate_scheme) prog" where
  "zone_create_finish xnu flags extra_setup z zid =
     thenM (security_reset zid)
    (thenM (whenM (has_flag flags (ZC_NOCACHING xnu)) (zone_upd z (\<lambda>r. r\<lparr>z_nocaching := True\<rparr>)))
    (thenM (case extra_setup of None \<Rightarrow> retM () | Some f \<Rightarrow> f z)
    (thenM (zone_upd z (\<lambda>r. r\<lparr>z_self := z\<rparr>))
      (retM z))))"

definition zone_create_ext ::
  "xnu_zone \<Rightarrow> string \<Rightarrow> u64 \<Rightarrow> u64 \<Rightarrow> u16 \<Rightarrow> (ptr \<Rightarrow> (unit, 'z zstate_scheme) prog) option
   \<Rightarrow> (ptr, 'z zstate_scheme) prog" where
  "zone_create_ext xnu name sz0 flags0 zid0 extra_setup =
     (if ZONE_MAX_ALLOC_SIZE < unat sz0 then panicM
      else
       let flags = effective_flags xnu sz0 flags0;
           sz = zone_elem_adjust_size sz0 in
       bindM (zone_create_find xnu name sz flags zid0) (\<lambda>(z, zid).
       bindM (zone_get z) (\<lambda>r.
         if z_self r \<noteq> 0 then retM z
         else
           thenM (zone_set_name xnu z name)
          (thenM (zone_set_stats xnu z)
          (bindM (zone_get_min_alloc_granule xnu (unat sz) flags) (\<lambda>alloc.
           thenM (zone_set_geometry xnu z sz flags alloc)
             (zone_create_finish xnu flags extra_setup z zid)))))))"

text \<open>\<open>zone_create_startup\<close>: the zone is stored through \<open>z_var\<close> when there is one, so the result is
  the pointer variable's new value.\<close>

record 'z zone_create_startup_spec =
  spec_z_name :: string
  spec_z_size :: u64
  spec_z_flags :: u64
  spec_z_zid :: u16
  spec_z_setup :: "(ptr \<Rightarrow> (unit, 'z zstate_scheme) prog) option"
  spec_z_var :: "ptr option"

definition zone_create_startup ::
  "xnu_zone \<Rightarrow> 'z zone_create_startup_spec \<Rightarrow> (ptr option, 'z zstate_scheme) prog" where
  "zone_create_startup xnu spec =
     bindM (zone_create_ext xnu (spec_z_name spec) (spec_z_size spec) (spec_z_flags spec)
              (spec_z_zid spec) (spec_z_setup spec)) (\<lambda>z.
       retM (if spec_z_var spec \<noteq> None then Some z else None))"

definition zone_security_array_init :: "xnu_zone \<Rightarrow> (unit, 'z zstate_scheme) prog" where
  "zone_security_array_init xnu =
     forM [0 ..< MAX_ZONES] (\<lambda>i. modifyM (\<lambda>s. s\<lparr>zone_security_array := (zone_security_array s)
       (i := \<lparr>z_kheap_id = KHEAP_ID_NONE xnu, z_noencrypt = False,
              z_submap_idx = Z_SUBMAP_IDX_GENERAL_0 xnu, z_kalloc_type = False, z_sig_eq = 0\<rparr>)\<rparr>))"

section \<open>Zone views\<close>

record zone_view_startup_spec =
  spec_zv_view :: ptr
  spec_zv_heapid :: nat
  spec_zv_size :: nat
  spec_zv_zone :: ptr

definition zone_view_startup_init ::
  "xnu_zone \<Rightarrow> zone_view_startup_spec \<Rightarrow> (unit, 'z zstate_scheme) prog" where
  "zone_view_startup_init xnu spec =
     (let zv = spec_zv_view spec;
          z = (if spec_zv_heapid spec = KHEAP_ID_DATA_BUFFERS xnu
               then kalloc_zone_for_size xnu (data_buffers_zstart xnu) (spec_zv_size spec)
               else spec_zv_zone spec) in
      bindM (view_get zv) (\<lambda>_.
      bindM (zone_get z) (\<lambda>r.
      if zone_elem_inner_size xnu r < spec_zv_size spec then abortM
      else
        thenM (assertM (z \<noteq> 0))
       (thenM (view_upd zv (\<lambda>v. v\<lparr>zv_zone := z\<rparr>))
       (bindM (zalloc_percpu_permanent (sizeof_zone_stats xnu) 0) (\<lambda>st.
        thenM (view_upd zv (\<lambda>v. v\<lparr>zv_stats := st\<rparr>))
       (thenM (view_upd zv (\<lambda>v. v\<lparr>zv_next := z_views r\<rparr>))
       (bindM (getsM (\<lambda>s. zone_security_array s (unat (zone_index xnu z)))) (\<lambda>zsflags.
        thenM (modifyM (\<lambda>s. s\<lparr>zone_view_count := zone_view_count s +
                 (if z_views r = 0 \<and> z_kheap_id zsflags = KHEAP_ID_NONE xnu then 2 else 1)\<rparr>))
          (zone_upd z (\<lambda>r. r\<lparr>z_views := zv\<rparr>))))))))))) "

section \<open>Facts on sizes\<close>

lemma align_mask_word: "x AND - 8 = push_bit 3 (drop_bit 3 x)" for x :: u64
proof -
  have "(- 8 :: u64) = NOT (mask 3)" by (simp add: mask_eq_exp_minus_1 not_eq_complement)
  then have "x AND - 8 = x AND NOT (mask 3)" by (rule arg_cong)
  also have "\<dots> = push_bit 3 (drop_bit 3 x)"
    by (rule bit_word_eqI) (auto simp only: bit_and_iff bit_not_iff bit_mask_iff bit_push_bit_iff
        bit_drop_bit_eq comp_apply, auto simp: bit_simps)
  finally show ?thesis .
qed

lemma unat_align_mask: "unat (x AND - 8) = 8 * (unat x div 8)" for x :: u64
proof -
  have eq: "x AND - 8 = x - take_bit 3 x"
    unfolding align_mask_word using bits_ident [of 3 x] by (simp add: algebra_simps)
  have tb: "unat (take_bit 3 x) = unat x mod 8"
    unfolding unsigned_take_bit_eq by (simp add: take_bit_eq_mod)
  then have "take_bit 3 x \<le> x" by (simp add: word_le_nat_alt)
  from unat_sub [OF this] show ?thesis unfolding eq tb by (simp add: minus_mod_eq_mult_div)
qed

lemma adjust_size_value:
  assumes "unat sz \<le> ZONE_MAX_ALLOC_SIZE"
  shows "unat (zone_elem_adjust_size sz) = max 8 (8 * ((unat sz + 7) div 8))"
proof -
  have "unat (sz + 7) = unat sz + 7"
    using assms by (subst unat_add_lem [THEN iffD1]) (auto simp: ZONE_MAX_ALLOC_SIZE_def)
  then have v: "unat ((sz + 7) AND - 8) = 8 * ((unat sz + 7) div 8)"
    by (simp add: unat_align_mask)
  have "sz + 8 - 1 = sz + 7" by simp
  then have "zone_elem_adjust_size sz = (if (sz + 7) AND - 8 < 8 then 8 else (sz + 7) AND - 8)"
    unfolding zone_elem_adjust_size_def ZONE_ALIGN_SIZE_def ZONE_MIN_ELEM_SIZE_def Let_def by metis
  then show ?thesis using v by (simp add: word_less_nat_alt max_def)
qed

text \<open>The loop of the granule search ends with a chunk size that no candidate beats.\<close>

lemma granule_step_candidate:
  fixes page :: nat
  assumes "P (tmp + page)" "\<And>k. 0 < k \<Longrightarrow> tmp + page + k * page \<le> mc \<Longrightarrow> P (tmp + page + k * page)"
  shows "0 < k \<Longrightarrow> tmp + k * page \<le> mc \<Longrightarrow> P (tmp + k * page)"
proof (cases k)
  case (Suc j)
  assume "tmp + k * page \<le> mc"
  then show ?thesis using assms(1) assms(2) [of j] Suc by (cases "j = 0") (auto simp: algebra_simps)
qed simp

lemma granule_loop_stop: "mc < tmp + page \<Longrightarrow> granule_loop page mc elem tmp frag best = best"
  by (subst granule_loop.simps) simp

lemma granule_loop_better:
  "0 < page \<Longrightarrow> tmp + page \<le> mc \<Longrightarrow> frag_of (tmp + page) elem < frag \<Longrightarrow>
   granule_loop page mc elem tmp frag best
   = granule_loop page mc elem (tmp + page) (frag_of (tmp + page) elem) (tmp + page)"
  by (subst granule_loop.simps) simp

lemma granule_loop_worse:
  "0 < page \<Longrightarrow> tmp + page \<le> mc \<Longrightarrow> \<not> frag_of (tmp + page) elem < frag \<Longrightarrow>
   granule_loop page mc elem tmp frag best = granule_loop page mc elem (tmp + page) frag best"
  by (subst granule_loop.simps) simp

lemmas granule_loop_steps = granule_loop_stop granule_loop_better granule_loop_worse

text \<open>The same three cases as an induction rule.\<close>

lemma granule_loop_induct:
  assumes "0 < page"
    and "\<And>tmp frag best. mc < tmp + page \<Longrightarrow> P tmp frag best"
    and "\<And>tmp frag best. tmp + page \<le> mc \<Longrightarrow> frag_of (tmp + page) elem < frag \<Longrightarrow>
           P (tmp + page) (frag_of (tmp + page) elem) (tmp + page) \<Longrightarrow> P tmp frag best"
    and "\<And>tmp frag best. tmp + page \<le> mc \<Longrightarrow> \<not> frag_of (tmp + page) elem < frag \<Longrightarrow>
           P (tmp + page) frag best \<Longrightarrow> P tmp frag best"
  shows "P tmp frag best"
proof (induction "mc - tmp" arbitrary: tmp frag best rule: less_induct)
  case less
  show ?case
  proof (cases "tmp + page \<le> mc")
    case True
    then have "mc - (tmp + page) < mc - tmp" using assms(1) by linarith
    then show ?thesis using assms(3,4) [OF True] less by blast
  next
    case False
    then show ?thesis using assms(2) by simp
  qed
qed

lemma granule_loop_le:
  assumes "0 < page" "frag = frag_of best elem"
  shows "frag_of (granule_loop page mc elem tmp frag best) elem \<le> frag"
  using assms(2)
  by (induction tmp frag best rule: granule_loop_induct [OF assms(1), where mc = mc and elem = elem])
     (auto simp: granule_loop_steps assms(1))

lemma granule_loop_least:
  assumes "0 < page" "frag = frag_of best elem" "0 < k" "tmp + k * page \<le> mc"
  shows "frag_of (granule_loop page mc elem tmp frag best) elem \<le> frag_of (tmp + k * page) elem"
  using assms(2-)
proof (induction tmp frag best arbitrary: k
    rule: granule_loop_induct [OF assms(1), where mc = mc and elem = elem])
  case (1 tmp frag best)
  then show ?case by (cases k) auto
next
  case (2 tmp frag best)
  let ?g = "granule_loop page mc elem (tmp + page) (frag_of (tmp + page) elem) (tmp + page)"
  have "frag_of ?g elem \<le> frag_of (tmp + k * page) elem"
    using granule_step_candidate [where P = "\<lambda>c. frag_of ?g elem \<le> frag_of c elem",
        OF granule_loop_le [OF assms(1) refl] 2(3) [OF refl] 2(5,6)] .
  then show ?case using 2 assms(1) by (simp add: granule_loop_better)
next
  case (3 tmp frag best)
  let ?g = "granule_loop page mc elem (tmp + page) frag best"
  have "frag_of ?g elem \<le> frag_of (tmp + page) elem"
    using granule_loop_le [OF assms(1) 3(4), where tmp = "tmp + page" and mc = mc] 3(2) by simp
  then have "frag_of ?g elem \<le> frag_of (tmp + k * page) elem"
    using granule_step_candidate [where P = "\<lambda>c. frag_of ?g elem \<le> frag_of c elem",
        OF _ 3(3) [OF 3(4)] 3(5,6)] by blast
  then show ?case using 3 assms(1) by (simp add: granule_loop_worse)
qed

lemma granule_loop_member:
  assumes "0 < page"
  shows "granule_loop page mc elem tmp frag best = best \<or>
    (\<exists>k>0. granule_loop page mc elem tmp frag best = tmp + k * page \<and> tmp + k * page \<le> mc)"
    (is "?g tmp frag best = best \<or> ?cand tmp frag best")
proof (induction tmp frag best rule: granule_loop_induct [OF assms(1), where mc = mc and elem = elem])
  case (2 tmp frag best)
  from 2(3) show ?case
  proof
    assume "?g (tmp + page) (frag_of (tmp + page) elem) (tmp + page) = tmp + page"
    then show ?thesis using 2 assms by (auto simp: granule_loop_better intro!: exI [of _ "1::nat"])
  next
    assume "?cand (tmp + page) (frag_of (tmp + page) elem) (tmp + page)"
    then obtain k where "0 < k" "?g (tmp + page) (frag_of (tmp + page) elem) (tmp + page)
        = tmp + page + k * page" "tmp + page + k * page \<le> mc" by blast
    then show ?thesis using 2 assms
      by (intro disjI2 exI [of _ "Suc k"]) (auto simp: granule_loop_better)
  qed
next
  case (3 tmp frag best)
  from 3(3) show ?case
  proof
    assume "?cand (tmp + page) frag best"
    then obtain k where "0 < k" "?g (tmp + page) frag best = tmp + page + k * page"
      "tmp + page + k * page \<le> mc" by blast
    then show ?thesis using 3 assms
      by (intro disjI2 exI [of _ "Suc k"]) (auto simp: granule_loop_worse)
  qed (use 3 assms in \<open>auto simp: granule_loop_worse\<close>)
qed (simp add: granule_loop_stop)

text \<open>XNU has pages of 4 KiB (x86) or 16 KiB (arm64).\<close>

definition page_ok :: "xnu_zone \<Rightarrow> bool" where
  "page_ok xnu \<longleftrightarrow> PAGE_SIZE xnu = 4096 \<or> PAGE_SIZE xnu = 16384"

lemma page_ok_mask: "page_ok xnu \<Longrightarrow> n AND (PAGE_SIZE xnu - 1) = n mod PAGE_SIZE xnu"
  using take_bit_eq_mask [of 12 n] take_bit_eq_mask [of 14 n]
  by (auto simp: page_ok_def take_bit_eq_mod mask_eq_exp_minus_1)

lemma page_ok_pos: "page_ok xnu \<Longrightarrow> 0 < PAGE_SIZE xnu"
  by (auto simp: page_ok_def)

lemma page_dvd_max_chunk: "page_ok xnu \<Longrightarrow> PAGE_SIZE xnu dvd max_chunk_size xnu elem"
  by (auto simp: page_ok_def max_chunk_size_def ZONE_MAX_ALLOC_SIZE_def)

lemma frag_of_small: "0 < c \<Longrightarrow> c < elem \<Longrightarrow> frag_of c elem = 100"
  by (simp add: frag_of_def)

lemma frag_of_fits:
  assumes "0 < elem" "elem \<le> c"
  shows "frag_of c elem < 100"
proof -
  have "c mod elem < c" using assms mod_less_divisor [of elem c] by linarith
  then have "(c mod elem) * 100 < 100 * c" by simp
  then show ?thesis unfolding frag_of_def by (simp add: less_mult_imp_div_less mult.commute)
qed

lemma round_up_to_page:
  fixes page :: nat
  assumes "0 < page" "page dvd mc" "elem \<le> mc" "0 < elem"
  obtains j where "0 < j" "elem \<le> j * page" "j * page \<le> mc"
proof
  let ?j = "(elem + page - 1) div page"
  from assms(2) obtain m where mc: "mc = page * m" ..
  show le: "elem \<le> ?j * page"
    using assms(1) dividend_less_times_div [OF assms(1), of "elem + page - 1"] by (simp add: algebra_simps)
  then show "0 < ?j" using assms(4) by (cases "?j = 0") auto
  have "elem + page - 1 < (m + 1) * page" using assms mc by (simp add: algebra_simps)
  then have "?j < m + 1" by (rule less_mult_imp_div_less)
  then show "?j * page \<le> mc" unfolding mc by (simp add: mult.commute)
qed

text \<open>The answer of the granule search, for a zone that is neither per-CPU nor read-only.\<close>

definition best_granule :: "xnu_zone \<Rightarrow> nat \<Rightarrow> nat \<Rightarrow> bool" where
  "best_granule xnu elem g \<longleftrightarrow>
     PAGE_SIZE xnu dvd g \<and> 0 < g \<and>
     (\<forall>j>0. j * PAGE_SIZE xnu \<le> max_chunk_size xnu elem \<longrightarrow> frag_of g elem \<le> frag_of (j * PAGE_SIZE xnu) elem) \<and>
     (elem \<le> max_chunk_size xnu elem \<longrightarrow> elem \<le> g) \<and> g \<le> max elem (max (PAGE_SIZE xnu) (max_chunk_size xnu elem))"

lemma best_granule_exact:
  assumes "page_ok xnu" "0 < elem" "elem mod PAGE_SIZE xnu = 0"
  shows "best_granule xnu elem elem"
  using assms by (auto simp: best_granule_def frag_of_def)

lemma best_granule_divides:
  assumes "page_ok xnu" "0 < elem" "PAGE_SIZE xnu mod elem = 0"
  shows "best_granule xnu elem (PAGE_SIZE xnu)"
  using assms page_ok_pos [OF assms(1)] dvd_imp_le [of elem "PAGE_SIZE xnu"]
  by (auto simp: best_granule_def frag_of_def mod_eq_0_iff_dvd)

lemma best_granule_loop:
  assumes page: "page_ok xnu" and "0 < elem"
  defines "p \<equiv> PAGE_SIZE xnu" and "mc \<equiv> max_chunk_size xnu elem"
  shows "best_granule xnu elem (granule_loop p mc elem p (frag_of p elem) p)"
    (is "best_granule xnu elem ?g")
proof -
  have p: "0 < p" using page_ok_pos [OF page] by (simp add: p_def)
  have mem: "?g = p \<or> (\<exists>k>0. ?g = p + k * p \<and> p + k * p \<le> mc)"
    by (rule granule_loop_member [OF p])
  then have dvd: "p dvd ?g" and pos: "0 < ?g" using p by auto
  have least: "frag_of ?g elem \<le> frag_of (j * p) elem" if jp: "0 < j" "j * p \<le> mc" for j
  proof -
    obtain i where j: "j = Suc i" using jp(1) gr0_implies_Suc by blast
    show ?thesis
    proof (cases "i = 0")
      case True
      then show ?thesis using granule_loop_le [OF p refl, where tmp = p and mc = mc] j by simp
    next
      case False
      then show ?thesis using granule_loop_least [OF p refl, where k = i and tmp = p and mc = mc] jp j by simp
    qed
  qed
  have fits: "elem \<le> ?g" if le: "elem \<le> mc"
  proof (rule ccontr)
    assume "\<not> elem \<le> ?g"
    then have "frag_of ?g elem = 100" using pos by (simp add: frag_of_small)
    moreover obtain j where "0 < j" "elem \<le> j * p" "j * p \<le> mc"
      using round_up_to_page [OF p _ le assms(2)] page_dvd_max_chunk [OF page] p_def mc_def by metis
    ultimately show False using least [of j] frag_of_fits [OF assms(2), of "j * p"] by simp
  qed
  show ?thesis
    using dvd pos least fits mem by (auto simp: best_granule_def p_def mc_def)
qed

section \<open>The table of zones\<close>

text \<open>What the XNU headers promise of the parameter: the array does not start at address 0, its
  elements have a size, the reserved identifiers fit into it, \<open>ZONE_ID_ANY\<close> is no index, and
  \<open>zone_index\<close> inverts the address computation.\<close>

definition xnu_zone_ok :: "xnu_zone \<Rightarrow> bool" where
  "xnu_zone_ok xnu \<longleftrightarrow> page_ok xnu \<and> 0 < zone_array xnu \<and> 0 < sizeof_zone xnu \<and>
     unat (ZONE_ID_FIRST_DYNAMIC xnu) \<le> MAX_ZONES \<and> unat (ZONE_ID_PERCPU_PERMANENT xnu) < MAX_ZONES \<and>
     MAX_ZONES \<le> unat (ZONE_ID_ANY xnu) \<and>
     (\<forall>i<MAX_ZONES. unat (zone_index xnu (zone_slot xnu i)) = i)"

lemma zone_slot_inj:
  "xnu_zone_ok xnu \<Longrightarrow> zone_slot xnu i = zone_slot xnu j \<longleftrightarrow> i = j"
  by (simp add: xnu_zone_ok_def zone_slot_def)

lemma zone_slot_nonnull [simp]: "xnu_zone_ok xnu \<Longrightarrow> zone_slot xnu i \<noteq> 0"
  by (simp add: xnu_zone_ok_def zone_slot_def)

definition slot_used :: "xnu_zone \<Rightarrow> 'z zstate_scheme \<Rightarrow> nat \<Rightarrow> bool" where
  "slot_used xnu s i \<longleftrightarrow> (case zones s (zone_slot xnu i) of None \<Rightarrow> False | Some r \<Rightarrow> z_self r \<noteq> 0)"

definition used_slots :: "xnu_zone \<Rightarrow> 'z zstate_scheme \<Rightarrow> nat set" where
  "used_slots xnu s = {i. i < MAX_ZONES \<and> slot_used xnu s i}"

text \<open>The invariant: every slot of the array holds a zone that is unused or points to itself, the
  used slots are below \<open>num_zones\<close>, and \<open>num_zones_in_use\<close> counts them.\<close>

definition zone_table :: "xnu_zone \<Rightarrow> 'z zstate_scheme \<Rightarrow> bool" where
  "zone_table xnu s \<longleftrightarrow>
     (\<forall>i<MAX_ZONES. \<exists>r. zones s (zone_slot xnu i) = Some r \<and> (z_self r = 0 \<or> z_self r = zone_slot xnu i)) \<and>
     unat (num_zones s) \<le> MAX_ZONES \<and>
     unat (num_zones_in_use s) = card (used_slots xnu s) \<and>
     (\<forall>i\<in>used_slots xnu s. i < unat (num_zones s))"

lemma zone_table_in_use_le:
  assumes "zone_table xnu s"
  shows "num_zones_in_use s \<le> num_zones s"
proof -
  have "used_slots xnu s \<subseteq> {..< unat (num_zones s)}" using assms by (auto simp: zone_table_def)
  then have "card (used_slots xnu s) \<le> unat (num_zones s)"
    by (metis card_lessThan card_mono finite_lessThan)
  then show ?thesis using assms by (simp add: zone_table_def word_le_nat_alt)
qed

lemma zone_table_slot:
  "zone_table xnu s \<Longrightarrow> i < MAX_ZONES \<Longrightarrow> \<exists>r. zones s (zone_slot xnu i) = Some r"
  by (auto simp: zone_table_def)

lemma finite_used_slots [simp]: "finite (used_slots xnu s)"
  by (simp add: used_slots_def)

text \<open>The table after a slot has been given to a new zone.\<close>

lemma zone_table_claim:
  assumes xnu: "xnu_zone_ok xnu" and tab: "zone_table xnu s"
    and i: "i < MAX_ZONES" "i \<notin> used_slots xnu s"
    and t: "zones t = (zones s)(zone_slot xnu i \<mapsto> r)" "z_self r = zone_slot xnu i"
    and n: "num_zones t = n" "unat n \<le> MAX_ZONES" "i < unat n" "unat (num_zones s) \<le> unat n"
    and u: "num_zones_in_use t = num_zones_in_use s + 1"
  shows "zone_table xnu t" and "used_slots xnu t = insert i (used_slots xnu s)"
proof -
  have self: "slot_used xnu t j \<longleftrightarrow> j = i \<or> slot_used xnu s j" for j
    using t xnu by (simp add: slot_used_def zone_slot_inj)
  then show used: "used_slots xnu t = insert i (used_slots xnu s)"
    using i(1) by (auto simp: used_slots_def)
  have "card (used_slots xnu s) \<le> MAX_ZONES"
    using zone_table_in_use_le [OF tab] tab by (auto simp: zone_table_def word_le_nat_alt)
  then have "unat (num_zones_in_use s + 1) = Suc (card (used_slots xnu s))"
    using tab by (subst unat_add_lem [THEN iffD1]) (auto simp: zone_table_def MAX_ZONES_def)
  then have "unat (num_zones_in_use t) = card (used_slots xnu t)"
    using u used i(2) by simp
  moreover have "\<forall>j\<in>used_slots xnu t. j < unat (num_zones t)"
    using tab used n by (auto simp: zone_table_def)
  moreover have "\<exists>r. zones t (zone_slot xnu j) = Some r \<and> (z_self r = 0 \<or> z_self r = zone_slot xnu j)"
    if "j < MAX_ZONES" for j
    using tab t that xnu by (auto simp: zone_table_def zone_slot_inj)
  ultimately show "zone_table xnu t" using n by (simp add: zone_table_def)
qed

section \<open>Running zone creation\<close>

lemma zone_get_some [simp]: "zones s p = Some r \<Longrightarrow> zone_get p s = Done r s"
  by (simp add: zone_get_def)

lemma zone_upd_some [simp]:
  "zones s p = Some r \<Longrightarrow> zone_upd p f s = Done () (s\<lparr>zones := (zones s)(p \<mapsto> f r)\<rparr>)"
  by (simp add: zone_upd_def)

lemma forM_pure [simp]: "(\<And>i. f i s = Done () s) \<Longrightarrow> forM is f s = Done () s"
  by (induction "is") auto

lemma zone_set_stats_runs:
  assumes q: "zones s (zone_slot xnu (unat (ZONE_ID_PERCPU_PERMANENT xnu))) = Some q"
    and "zones s p = Some r"
  shows "\<exists>st h. zone_set_stats xnu p s = Done () (s\<lparr>mheap := h, zones := (zones s)(p \<mapsto> r\<lparr>z_stats := st\<rparr>)\<rparr>)"
proof -
  obtain a h where c: "calloc 1 (sizeof_zone_stats xnu) (mheap s) = Done a h"
    using calloc_returns by blast
  show ?thesis
  proof (cases "z_self q = 0")
    case True
    then show ?thesis using q assms(2)
      by (intro exI [of _ "mheap s"] exI) (simp add: zone_set_stats_def mheap_self)
  next
    case False
    then show ?thesis using q assms(2) c
      by (intro exI [of _ h] exI [of _ a]) (simp add: zone_set_stats_def zalloc_percpu_permanent_def)
  qed
qed

text \<open>A request that \<open>zone_create_find\<close> grants, the slot it gets and the new \<open>num_zones\<close>: any zone
  gets the first slot above the known ones, a reserved identifier gets its own free slot.\<close>

definition zone_request_ok :: "xnu_zone \<Rightarrow> 'z zstate_scheme \<Rightarrow> u64 \<Rightarrow> u16 \<Rightarrow> bool" where
  "zone_request_ok xnu s flags zid \<longleftrightarrow> unat (num_zones s) < MAX_ZONES \<and>
     (if zid = ZONE_ID_ANY xnu then unat (ZONE_ID_FIRST_DYNAMIC xnu) < MAX_ZONES
      else zid < ZONE_ID_FIRST_DYNAMIC xnu \<and> \<not> has_flag flags (ZC_DESTRUCTIBLE xnu)
           \<and> \<not> slot_used xnu s (unat zid))"

definition granted_id :: "xnu_zone \<Rightarrow> 'z zstate_scheme \<Rightarrow> u16 \<Rightarrow> u16" where
  "granted_id xnu s zid =
     (if zid = ZONE_ID_ANY xnu then max (num_zones s) (ZONE_ID_FIRST_DYNAMIC xnu) else zid)"

definition granted_count :: "xnu_zone \<Rightarrow> 'z zstate_scheme \<Rightarrow> u16 \<Rightarrow> u16" where
  "granted_count xnu s zid = max (num_zones s) (ZONE_ID_FIRST_DYNAMIC xnu)
     + (if zid = ZONE_ID_ANY xnu then 1 else 0)"

lemma zone_create_find_runs:
  assumes xnu: "xnu_zone_ok xnu" and tab: "zone_table xnu s" and req: "zone_request_ok xnu s flags zid"
  shows "zone_create_find xnu name sz flags zid s
     = Done (zone_slot xnu (unat (granted_id xnu s zid)), granted_id xnu s zid)
         (s\<lparr>num_zones := granted_count xnu s zid, num_zones_in_use := num_zones_in_use s + 1\<rparr>)"
proof (cases "zid = ZONE_ID_ANY xnu")
  case True
  then show ?thesis
    using zone_table_in_use_le [OF tab] req
    by (auto simp: zone_create_find_def zone_init_defaults_def zone_request_ok_def granted_id_def
        granted_count_def max_def not_less)
next
  case False
  have "unat zid < MAX_ZONES"
    using False req xnu by (auto simp: zone_request_ok_def xnu_zone_ok_def word_less_nat_alt)
  then obtain r where "zones s (zone_slot xnu (unat zid)) = Some r" "z_self r = 0"
    using zone_table_slot [OF tab] False req by (fastforce simp: zone_request_ok_def slot_used_def)
  then show ?thesis
    using False zone_table_in_use_le [OF tab] req
    by (auto simp: zone_create_find_def not_le zone_init_defaults_def zone_request_ok_def granted_id_def
        granted_count_def max_def not_less)
qed

lemma granted_facts:
  assumes xnu: "xnu_zone_ok xnu" and tab: "zone_table xnu s" and req: "zone_request_ok xnu s flags zid"
  defines "i \<equiv> unat (granted_id xnu s zid)" and "n \<equiv> granted_count xnu s zid"
  shows "i < MAX_ZONES" "i \<notin> used_slots xnu s" "unat n \<le> MAX_ZONES" "i < unat n"
    "unat (num_zones s) \<le> unat n"
proof -
  let ?m = "max (num_zones s) (ZONE_ID_FIRST_DYNAMIC xnu)"
  have m: "unat ?m \<le> MAX_ZONES" "unat (num_zones s) \<le> unat ?m" "unat (ZONE_ID_FIRST_DYNAMIC xnu) \<le> unat ?m"
    using xnu req by (auto simp: max_def xnu_zone_ok_def zone_request_ok_def word_le_nat_alt)
  have suc: "unat (?m + 1) = unat ?m + 1"
    using m(1) by (subst unat_add_lem [THEN iffD1]) (auto simp: MAX_ZONES_def)
  show "unat n \<le> MAX_ZONES"
    using m(1) suc req by (auto simp: n_def granted_count_def zone_request_ok_def max_def split: if_splits)
  show "i < unat n" using m suc req
    by (auto simp: i_def n_def granted_id_def granted_count_def zone_request_ok_def word_less_nat_alt)
  then show "i < MAX_ZONES" using \<open>unat n \<le> MAX_ZONES\<close> by simp
  show "i \<notin> used_slots xnu s"
    using tab m(2) req
    by (auto simp: i_def granted_id_def zone_table_def zone_request_ok_def used_slots_def split: if_splits)
  show "unat (num_zones s) \<le> unat n" using m(2) suc by (simp add: n_def granted_count_def)
qed

text \<open>The fields of the zone that \<open>zone_create_ext\<close> leaves in its slot.\<close>

definition zone_geometry :: "xnu_zone \<Rightarrow> u64 \<Rightarrow> u64 \<Rightarrow> nat \<Rightarrow> zone \<Rightarrow> bool" where
  "zone_geometry xnu sz flags g r \<longleftrightarrow>
     z_elem_size r = ucast (zone_elem_adjust_size sz) \<and>
     z_chunk_pages r = of_nat (g div PAGE_SIZE xnu) \<and>
     z_chunk_elems r = of_nat (g div unat (z_elem_size r)) \<and>
     z_elem_offs r = of_nat (g mod unat (z_elem_size r))"

lemma elem_size_lossless:
  assumes "unat sz \<le> ZONE_MAX_ALLOC_SIZE"
  shows "unat (ucast (zone_elem_adjust_size sz) :: u16) = max 8 (8 * ((unat sz + 7) div 8))"
proof -
  have "unat (zone_elem_adjust_size sz) < 2 ^ 16"
    using assms by (simp add: adjust_size_value ZONE_MAX_ALLOC_SIZE_def)
  then have "unat (ucast (zone_elem_adjust_size sz) :: u16) = unat (zone_elem_adjust_size sz)"
    by (simp add: unsigned_ucast_eq take_bit_nat_eq_self)
  then show ?thesis using assms by (simp add: adjust_size_value)
qed

lemma zone_set_geometry_runs:
  assumes "zones s p = Some r" "(ucast sz :: u16) \<noteq> 0" "\<not> has_flag flags (ZC_PERCPU xnu)"
  shows "zone_set_geometry xnu p sz flags g s = Done () (s\<lparr>zones := (zones s)(p \<mapsto>
     r\<lparr>z_elem_size := ucast sz, z_chunk_pages := of_nat (g div PAGE_SIZE xnu),
       z_quo_magic := Z_MAGIC_QUO xnu sz, z_align_magic := Z_MAGIC_ALIGNED xnu sz,
       z_chunk_elems := of_nat (g div unat (ucast sz :: u16)), z_elem_offs := of_nat (g mod unat (ucast sz :: u16))\<rparr>)\<rparr>)"
  using assms by (simp add: zone_set_geometry_def Let_def)

text \<open>A setup block may do what it likes to other state, as long as it returns and keeps the zones
  and the two counters; no block at all is the common case.\<close>

definition zone_setup_ok :: "(ptr \<Rightarrow> (unit, 'z zstate_scheme) prog) option \<Rightarrow> bool" where
  "zone_setup_ok f \<longleftrightarrow> (case f of None \<Rightarrow> True | Some g \<Rightarrow> (\<forall>p s. \<exists>t. g p s = Done () t \<and>
     zones t = zones s \<and> num_zones t = num_zones s \<and> num_zones_in_use t = num_zones_in_use s))"

lemma zone_setup_runs:
  assumes "zone_setup_ok f"
  shows "\<exists>t. (case f of None \<Rightarrow> retM () | Some g \<Rightarrow> g p) s = Done () t \<and>
     zones t = zones s \<and> num_zones t = num_zones s \<and> num_zones_in_use t = num_zones_in_use s"
  using assms by (cases f) (auto simp: zone_setup_ok_def)

lemma zone_create_finish_runs:
  assumes "zones s p = Some r" "unat zid < MAX_ZONES" "zone_setup_ok f"
  shows "\<exists>t b. zone_create_finish xnu flags f p zid s = Done p t \<and>
     zones t = (zones s)(p \<mapsto> r\<lparr>z_nocaching := b, z_self := p\<rparr>) \<and>
     num_zones t = num_zones s \<and> num_zones_in_use t = num_zones_in_use s"
proof -
  let ?b = "has_flag flags (ZC_NOCACHING xnu) \<or> z_nocaching r"
  let ?r1 = "r\<lparr>z_nocaching := ?b\<rparr>"
  obtain s1 where s1: "security_reset zid s = Done () s1" "zones s1 = zones s"
    "num_zones s1 = num_zones s" "num_zones_in_use s1 = num_zones_in_use s"
    using assms(2) by (simp add: security_reset_def)
  obtain s2 where s2: "whenM (has_flag flags (ZC_NOCACHING xnu)) (zone_upd p (\<lambda>r. r\<lparr>z_nocaching := True\<rparr>)) s1 = Done () s2"
    "zones s2 = (zones s)(p \<mapsto> ?r1)" "num_zones s2 = num_zones s" "num_zones_in_use s2 = num_zones_in_use s"
    using assms(1) s1 by (cases "has_flag flags (ZC_NOCACHING xnu)") (auto simp: fun_eq_iff)
  obtain s3 where s3: "(case f of None \<Rightarrow> retM () | Some g \<Rightarrow> g p) s2 = Done () s3"
    "zones s3 = zones s2" "num_zones s3 = num_zones s2" "num_zones_in_use s3 = num_zones_in_use s2"
    using zone_setup_runs [OF assms(3)] by blast
  show ?thesis
    using s1 s2 s3 by (intro exI [of _ "s3\<lparr>zones := (zones s3)(p \<mapsto> ?r1\<lparr>z_self := p\<rparr>)\<rparr>"] exI [of _ ?b])
      (simp add: zone_create_finish_def)
qed

text \<open>Up to the choice of the granule a granted request stores the name and the statistics in its slot.\<close>

lemma zone_create_ext_prefix:
  fixes s :: "'z zstate_scheme"
  assumes xnu: "xnu_zone_ok xnu" and tab: "zone_table xnu s"
    and req: "zone_request_ok xnu s (effective_flags xnu sz flags) zid"
    and sz: "unat sz \<le> ZONE_MAX_ALLOC_SIZE" and early: "startup_phase s < STARTUP_SUB_LOCKDOWN xnu"
  defines "p \<equiv> zone_slot xnu (unat (granted_id xnu s zid))"
  obtains r st h where "zones s p = Some r"
    "zone_create_ext xnu name sz flags zid f s =
      bindM (zone_get_min_alloc_granule xnu (unat (zone_elem_adjust_size sz)) (effective_flags xnu sz flags)) (\<lambda>alloc.
        thenM (zone_set_geometry xnu p (zone_elem_adjust_size sz) (effective_flags xnu sz flags) alloc)
          (zone_create_finish xnu (effective_flags xnu sz flags) f p (granted_id xnu s zid)))
       (s\<lparr>num_zones := granted_count xnu s zid, num_zones_in_use := num_zones_in_use s + 1, mheap := h,
          zones := (zones s)(p \<mapsto> r\<lparr>z_name := name, z_stats := st\<rparr>)\<rparr>)"
proof -
  note gr = granted_facts [OF xnu tab req]
  have perm: "unat (ZONE_ID_PERCPU_PERMANENT xnu) < MAX_ZONES" using xnu by (simp add: xnu_zone_ok_def)
  obtain r where r: "zones s p = Some r" "z_self r = 0"
    using gr(1,2) zone_table_slot [OF tab gr(1)]
    by (auto simp: p_def used_slots_def slot_used_def)
  define s1 where "s1 = s\<lparr>num_zones := granted_count xnu s zid, num_zones_in_use := num_zones_in_use s + 1,
                  zones := (zones s)(p \<mapsto> r\<lparr>z_name := name\<rparr>)\<rparr>"
  obtain q where "zones s1 (zone_slot xnu (unat (ZONE_ID_PERCPU_PERMANENT xnu))) = Some q"
    using zone_table_slot [OF tab perm] by (fastforce simp: s1_def)
  from zone_set_stats_runs [OF this, of p]
  obtain st h where st: "zone_set_stats xnu p s1
      = Done () (s1\<lparr>mheap := h, zones := (zones s1)(p \<mapsto> r\<lparr>z_name := name, z_stats := st\<rparr>)\<rparr>)"
    by (auto simp: s1_def)
  have find: "zone_create_find xnu name (zone_elem_adjust_size sz) (effective_flags xnu sz flags) zid s
      = Done (p, granted_id xnu s zid)
         (s\<lparr>num_zones := granted_count xnu s zid, num_zones_in_use := num_zones_in_use s + 1\<rparr>)"
    unfolding p_def by (rule zone_create_find_runs [OF xnu tab req])
  have "zone_set_name xnu p name (s\<lparr>num_zones := granted_count xnu s zid,
      num_zones_in_use := num_zones_in_use s + 1\<rparr>) = Done () s1"
    using early r by (simp add: zone_set_name_def s1_def)
  note steps = find this st
  show thesis
  proof (rule that [OF r(1), of st h])
  qed (use steps r sz in \<open>simp add: zone_create_ext_def Let_def s1_def\<close>)
qed

lemma zone_create_ext_runs:
  fixes s :: "'z zstate_scheme"
  assumes xnu: "xnu_zone_ok xnu" and tab: "zone_table xnu s"
    and req: "zone_request_ok xnu s (effective_flags xnu sz flags) zid"
    and sz: "unat sz \<le> ZONE_MAX_ALLOC_SIZE" and early: "startup_phase s < STARTUP_SUB_LOCKDOWN xnu"
    and kind: "\<not> has_flag (effective_flags xnu sz flags) (ZC_PERCPU xnu)" and blk: "zone_setup_ok f"
    and g: "\<And>t :: 'z zstate_scheme. zone_get_min_alloc_granule xnu (unat (zone_elem_adjust_size sz))
              (effective_flags xnu sz flags) t = Done g t"
  defines "p \<equiv> zone_slot xnu (unat (granted_id xnu s zid))"
  shows "\<exists>t r. zone_create_ext xnu name sz flags zid f s = Done p t \<and>
     zones t = (zones s)(p \<mapsto> r) \<and> z_self r = p \<and> z_name r = name \<and> zone_geometry xnu sz flags g r \<and>
     num_zones t = granted_count xnu s zid \<and> num_zones_in_use t = num_zones_in_use s + 1"
proof -
  note gr = granted_facts [OF xnu tab req]
  obtain r st h where r: "zones s p = Some r" and steps: "zone_create_ext xnu name sz flags zid f s =
      bindM (zone_get_min_alloc_granule xnu (unat (zone_elem_adjust_size sz)) (effective_flags xnu sz flags)) (\<lambda>alloc.
        thenM (zone_set_geometry xnu p (zone_elem_adjust_size sz) (effective_flags xnu sz flags) alloc)
          (zone_create_finish xnu (effective_flags xnu sz flags) f p (granted_id xnu s zid)))
       (s\<lparr>num_zones := granted_count xnu s zid, num_zones_in_use := num_zones_in_use s + 1, mheap := h,
          zones := (zones s)(p \<mapsto> r\<lparr>z_name := name, z_stats := st\<rparr>)\<rparr>)"
    using zone_create_ext_prefix [OF xnu tab req sz early] unfolding p_def by blast
  have nz: "(ucast (zone_elem_adjust_size sz) :: u16) \<noteq> 0"
    using elem_size_lossless [OF sz] by (metis max.cobounded1 not_numeral_le_zero unsigned_0)
  define s3 where "s3 = s\<lparr>num_zones := granted_count xnu s zid, num_zones_in_use := num_zones_in_use s + 1, mheap := h,
          zones := (zones s)(p \<mapsto> r\<lparr>z_name := name, z_stats := st\<rparr>)\<rparr>"
  have geo: "zone_set_geometry xnu p (zone_elem_adjust_size sz) (effective_flags xnu sz flags) g s3 =
      Done () (s3\<lparr>zones := (zones s3)(p \<mapsto> r\<lparr>z_name := name, z_stats := st,
         z_elem_size := ucast (zone_elem_adjust_size sz), z_chunk_pages := of_nat (g div PAGE_SIZE xnu),
         z_quo_magic := Z_MAGIC_QUO xnu (zone_elem_adjust_size sz), z_align_magic := Z_MAGIC_ALIGNED xnu (zone_elem_adjust_size sz),
         z_chunk_elems := of_nat (g div unat (ucast (zone_elem_adjust_size sz) :: u16)),
         z_elem_offs := of_nat (g mod unat (ucast (zone_elem_adjust_size sz) :: u16))\<rparr>)\<rparr>)"
    (is "_ = Done () ?s4")
    by (rule zone_set_geometry_runs) (use nz kind in \<open>auto simp: s3_def\<close>)
  obtain t b where t: "zone_create_finish xnu (effective_flags xnu sz flags) f p (granted_id xnu s zid) ?s4 = Done p t"
    "num_zones t = num_zones ?s4" "num_zones_in_use t = num_zones_in_use ?s4"
    "zones t = (zones ?s4)(p \<mapsto> (the (zones ?s4 p))\<lparr>z_nocaching := b, z_self := p\<rparr>)"
    using zone_create_finish_runs [of ?s4 p _ "granted_id xnu s zid" f] gr(1) blk by fastforce
  have "zone_create_ext xnu name sz flags zid f s = Done p t"
    using steps geo t(1) g by (simp add: s3_def)
  moreover have "zones t = (zones s)(p \<mapsto> (the (zones ?s4 p))\<lparr>z_nocaching := b, z_self := p\<rparr>)"
    using t(4) by (simp add: s3_def)
  ultimately show ?thesis
    using t(2,3) by (auto simp: zone_geometry_def s3_def)
qed

section \<open>What creation gives its clients\<close>

lemma granule_state_free:
  assumes "page_ok xnu" "0 < elem" "\<not> has_flag flags (ZC_PERCPU xnu)" "\<not> has_flag flags (ZC_READONLY xnu)"
  shows "\<exists>g. (\<forall>s. zone_get_min_alloc_granule xnu elem flags s = Done g s) \<and> best_granule xnu elem g"
  using assms(3,4) best_granule_exact [OF assms(1,2)] best_granule_divides [OF assms(1,2)]
    best_granule_loop [OF assms(1,2)] page_ok_mask [OF assms(1), of elem]
  by (simp add: zone_get_min_alloc_granule_def)

lemma chunk_holds_element:
  assumes best: "best_granule xnu e g" and page: "page_ok xnu" and e: "8 \<le> e" "e \<le> ZONE_MAX_ALLOC_SIZE"
  shows "0 < (of_nat (g div e) :: u16)"
proof -
  have mc: "max_chunk_size xnu e \<le> 48 * 1024" "ZONE_MAX_ALLOC_SIZE \<le> max_chunk_size xnu e"
    by (auto simp: max_chunk_size_def ZONE_MAX_ALLOC_SIZE_def)
  then have "e \<le> g" using best e by (simp add: best_granule_def)
  then have pos: "0 < g div e" using e by (simp add: div_greater_zero_iff)
  have "g \<le> 48 * 1024" using best mc e(2) page by (auto simp: best_granule_def page_ok_def ZONE_MAX_ALLOC_SIZE_def)
  moreover have "g div e \<le> g div 8" using e(1) by (simp add: div_le_mono2)
  ultimately have "g div e < 2 ^ 16" by simp
  then have "unat (of_nat (g div e) :: u16) = g div e" by (intro unat_of_nat_less) simp
  then show ?thesis using pos by (simp add: word_less_nat_alt)
qed

lemma zone_by_id_used:
  assumes "zones s (zone_slot xnu i) = Some r" "z_self r = zone_slot xnu i" "i < MAX_ZONES" "xnu_zone_ok xnu"
  shows "zone_by_id xnu (of_nat i) s = Done (zone_slot xnu i) s"
proof -
  have i: "unat (of_nat i :: u64) = i"
    using assms(3) by (intro unat_of_nat_less) (simp add: MAX_ZONES_def)
  moreover have "unat (ucast (ZONE_ID_ANY xnu) :: u64) = unat (ZONE_ID_ANY xnu)"
    by (simp add: unsigned_ucast_eq take_bit_nat_eq_self_iff order_less_trans [OF unsigned_less])
  ultimately have "(of_nat i :: u64) \<noteq> ucast (ZONE_ID_ANY xnu)"
    using assms(3,4) by (auto simp: xnu_zone_ok_def dest!: arg_cong [where f = unat])
  then show ?thesis using assms i by (simp add: zone_by_id_def)
qed

section \<open>The initial table\<close>

lemma xnu_x86_ok: "xnu_zone_ok xnu_x86"
  by (auto simp: xnu_zone_ok_def xnu_x86_def page_ok_def MAX_ZONES_def zone_slot_def unat_of_nat_less)

lemma zstate_boot_table:
  assumes "xnu_zone_ok xnu"
  shows "zone_table xnu (zstate_boot xnu cs fz)"
proof -
  have slot: "zones (zstate_boot xnu cs fz) (zone_slot xnu i) = Some zone_zero" if "i < MAX_ZONES" for i
    using assms that by (simp add: zstate_boot_def zone_slot_def xnu_zone_ok_def)
  then have "used_slots xnu (zstate_boot xnu cs fz) = {}"
    by (auto simp: used_slots_def slot_used_def zone_zero_def)
  then show ?thesis using slot
    by (simp add: zone_table_def) (simp add: zstate_boot_def zone_zero_def MAX_ZONES_def)
qed

section \<open>Properties\<close>

text \<open>C15. \<open>zone_get_min_alloc_granule\<close> is optimal. For a zone that is neither per-CPU nor read-only
  the search returns a positive multiple of the page size, no chunk of whole pages up to the limit
  wastes a smaller percentage, and an element that is no larger than the limit fits into the chunk.\<close>

theorem granule_search_optimal:
  fixes s :: 's
  assumes "page_ok xnu" and "0 < elem"
    and "\<not> has_flag flags (ZC_PERCPU xnu)" and "\<not> has_flag flags (ZC_READONLY xnu)"
  shows "\<exists>g. zone_get_min_alloc_granule xnu elem flags s = Done g s \<and> PAGE_SIZE xnu dvd g \<and> 0 < g \<and>
    (\<forall>j>0. j * PAGE_SIZE xnu \<le> max_chunk_size xnu elem \<longrightarrow>
       (g mod elem) * 100 div g \<le> ((j * PAGE_SIZE xnu) mod elem) * 100 div (j * PAGE_SIZE xnu)) \<and>
    (elem \<le> max_chunk_size xnu elem \<longrightarrow> elem \<le> g)"
proof -
  from granule_state_free [OF assms]
  obtain g where "\<forall>s :: 's. zone_get_min_alloc_granule xnu elem flags s = Done g s" "best_granule xnu elem g"
    by (elim exE conjE)
  then show ?thesis by (intro exI [of _ g]) (simp add: best_granule_def frag_of_def)
qed

theorem granule_search_optimal_witness:
  "zone_get_min_alloc_granule xnu_x86 1664 0 () = Done 28672 () \<and>
   (\<exists>g. zone_get_min_alloc_granule xnu_x86 1664 0 () = Done g () \<and>
    (\<forall>j>0. j * 4096 \<le> max_chunk_size xnu_x86 1664 \<longrightarrow>
       (g mod 1664) * 100 div g \<le> ((j * 4096) mod 1664) * 100 div (j * 4096)))"
proof
  show "zone_get_min_alloc_granule xnu_x86 1664 0 () = Done 28672 ()"
    by (simp add: zone_get_min_alloc_granule_def has_flag_def xnu_x86_def max_chunk_size_def
        ZONE_MAX_ALLOC_SIZE_def granule_loop.simps frag_of_def)
  show "\<exists>g. zone_get_min_alloc_granule xnu_x86 1664 0 () = Done g () \<and>
    (\<forall>j>0. j * 4096 \<le> max_chunk_size xnu_x86 1664 \<longrightarrow>
       (g mod 1664) * 100 div g \<le> ((j * 4096) mod 1664) * 100 div (j * 4096))"
    using granule_search_optimal [of xnu_x86 1664 0 "()"]
    by (auto simp: page_ok_def has_flag_def xnu_x86_def)
qed

text \<open>C1. \<open>zone_create_ext\<close> keeps the zone table. A legal request made before the lockdown phase
  (a size of at most 32 KiB; any identifier while a slot is left, or a reserved identifier whose slot is
  free; neither per-CPU nor read-only) returns a slot that was free. Afterwards exactly that slot is
  added to the used ones, the two counters agree with the table, \<open>zone_by_id\<close> finds the zone, the
  16-bit element size is the requested one rounded up to a positive multiple of 8, without loss, and a
  chunk of the zone holds at least one element.\<close>

theorem zone_create_ext_keeps_table:
  fixes s :: "'z zstate_scheme"
  assumes xnu: "xnu_zone_ok xnu" and tab: "zone_table xnu s"
    and req: "zone_request_ok xnu s (effective_flags xnu sz flags) zid"
    and sz: "unat sz \<le> ZONE_MAX_ALLOC_SIZE" and early: "startup_phase s < STARTUP_SUB_LOCKDOWN xnu"
    and kind: "\<not> has_flag (effective_flags xnu sz flags) (ZC_PERCPU xnu)"
      "\<not> has_flag (effective_flags xnu sz flags) (ZC_READONLY xnu)"
    and blk: "zone_setup_ok f"
  shows "\<exists>i t r. zone_create_ext xnu name sz flags zid f s = Done (zone_slot xnu i) t \<and>
     i < MAX_ZONES \<and> i \<notin> used_slots xnu s \<and> (zid \<noteq> ZONE_ID_ANY xnu \<longrightarrow> i = unat zid) \<and>
     zone_table xnu t \<and> used_slots xnu t = insert i (used_slots xnu s) \<and>
     zones t = (zones s)(zone_slot xnu i \<mapsto> r) \<and> z_name r = name \<and>
     zone_by_id xnu (of_nat i) t = Done (zone_slot xnu i) t \<and>
     unat (z_elem_size r) = max 8 (8 * ((unat sz + 7) div 8)) \<and> 0 < z_chunk_elems r"
proof -
  let ?e = "unat (zone_elem_adjust_size sz)" and ?i = "unat (granted_id xnu s zid)"
  have e: "?e = max 8 (8 * ((unat sz + 7) div 8))" by (rule adjust_size_value [OF sz])
  have page: "page_ok xnu" using xnu by (simp add: xnu_zone_ok_def)
  obtain g where g: "\<And>t :: 'z zstate_scheme. zone_get_min_alloc_granule xnu ?e (effective_flags xnu sz flags) t = Done g t"
    and best: "best_granule xnu ?e g"
    using granule_state_free [OF page _ kind, of ?e] e
    by (metis less_numeral_extra(1) max.strict_coboundedI1 zero_less_numeral)
  obtain t r where t: "zone_create_ext xnu name sz flags zid f s = Done (zone_slot xnu ?i) t"
    "zones t = (zones s)(zone_slot xnu ?i \<mapsto> r)" "z_self r = zone_slot xnu ?i" "z_name r = name"
    "zone_geometry xnu sz flags g r" "num_zones t = granted_count xnu s zid"
    "num_zones_in_use t = num_zones_in_use s + 1"
    using zone_create_ext_runs [OF xnu tab req sz early kind(1) blk g, of name] by blast
  note gr = granted_facts [OF xnu tab req]
  note tab' = zone_table_claim [OF xnu tab gr(1,2) t(2,3,6) gr(3-5) t(7)]
  have size: "unat (z_elem_size r) = ?e"
    using t(5) elem_size_lossless [OF sz] e by (simp add: zone_geometry_def)
  have "0 < z_chunk_elems r"
    using t(5) size chunk_holds_element [OF best page] e sz by (simp add: zone_geometry_def ZONE_MAX_ALLOC_SIZE_def)
  moreover have "zone_by_id xnu (of_nat ?i) t = Done (zone_slot xnu ?i) t"
    by (rule zone_by_id_used) (use t(2,3) gr(1) xnu in auto)
  ultimately show ?thesis
    using t gr tab' size e by (intro exI [of _ ?i] exI [of _ t] exI [of _ r]) (auto simp: granted_id_def)
qed

lemma zstate_boot_fields [simp]:
  "num_zones (zstate_boot xnu cs fz) = 0" "num_zones_in_use (zstate_boot xnu cs fz) = 0"
  "startup_phase (zstate_boot xnu cs fz) = 0"
  by (simp_all add: zstate_boot_def)

lemma zstate_boot_request:
  "zone_request_ok xnu_x86 (zstate_boot xnu_x86 cs fz) flags 65535"
  by (simp add: zone_request_ok_def MAX_ZONES_def) (simp add: xnu_x86_def)

theorem zone_create_ext_keeps_table_witness:
  "\<exists>i t. zone_create_ext xnu_x86 ''proc'' 1001 0 65535 None (zstate_boot xnu_x86 [] None) = Done (zone_slot xnu_x86 i) t \<and>
     zone_table xnu_x86 t"
  using zone_create_ext_keeps_table [OF xnu_x86_ok zstate_boot_table [OF xnu_x86_ok, of "[]" None],
      of 1001 0 65535 None "''proc''"] zstate_boot_request [of "[]" None "effective_flags xnu_x86 1001 0"]
  by (auto simp: effective_flags_def ZONE_MAX_ALLOC_SIZE_def has_flag_def zone_setup_ok_def xnu_x86_def)

lemma zone_create_ext_refusals:
  assumes "xnu_zone_ok xnu" and "zone_table xnu s"
  shows "ZONE_MAX_ALLOC_SIZE < unat sz \<Longrightarrow> zone_create_ext xnu name sz flags zid f s = Stopped Panic"
    and "unat sz \<le> ZONE_MAX_ALLOC_SIZE \<Longrightarrow> unat (num_zones s) = MAX_ZONES \<Longrightarrow>
         zone_create_ext xnu name sz flags zid f s = Stopped AssertFail"
    and "unat sz \<le> ZONE_MAX_ALLOC_SIZE \<Longrightarrow> unat (num_zones s) < MAX_ZONES \<Longrightarrow> zid \<noteq> ZONE_ID_ANY xnu \<Longrightarrow>
         ZONE_ID_FIRST_DYNAMIC xnu \<le> zid \<or> has_flag (effective_flags xnu sz flags) (ZC_DESTRUCTIBLE xnu)
           \<or> slot_used xnu s (unat zid) \<Longrightarrow>
         zone_create_ext xnu name sz flags zid f s = Stopped Panic"
proof -
  define fl where "fl = effective_flags xnu sz flags"
  have n: "unat (num_zones s) \<le> MAX_ZONES" "num_zones_in_use s \<le> num_zones s"
    using assms(2) zone_table_in_use_le [OF assms(2)] by (auto simp: zone_table_def)
  have used: "zone_create_find xnu name (zone_elem_adjust_size sz) fl zid s = Stopped Panic"
    if z: "zid \<noteq> ZONE_ID_ANY xnu" "unat (num_zones s) < MAX_ZONES"
      "ZONE_ID_FIRST_DYNAMIC xnu \<le> zid \<or> has_flag fl (ZC_DESTRUCTIBLE xnu) \<or> slot_used xnu s (unat zid)"
  proof (cases "ZONE_ID_FIRST_DYNAMIC xnu \<le> zid \<or> has_flag fl (ZC_DESTRUCTIBLE xnu)")
    case True
    then show ?thesis using z n by (auto simp: zone_create_find_def zone_init_defaults_def)
  next
    case False
    then obtain r where "zones s (zone_slot xnu (unat zid)) = Some r" "z_self r \<noteq> 0"
      using z by (auto simp: slot_used_def split: option.splits)
    then show ?thesis using z n False by (auto simp: zone_create_find_def zone_init_defaults_def)
  qed
  have full: "zone_create_find xnu name (zone_elem_adjust_size sz) fl zid s = Stopped AssertFail"
    if "unat (num_zones s) = MAX_ZONES"
    using that by (simp add: zone_create_find_def)
  show "zone_create_ext xnu name sz flags zid f s = Stopped Panic" if "ZONE_MAX_ALLOC_SIZE < unat sz"
    using that by (simp add: zone_create_ext_def)
  show "zone_create_ext xnu name sz flags zid f s = Stopped AssertFail"
    if "unat sz \<le> ZONE_MAX_ALLOC_SIZE" "unat (num_zones s) = MAX_ZONES"
    using that full by (simp add: zone_create_ext_def Let_def fl_def)
  show "zone_create_ext xnu name sz flags zid f s = Stopped Panic"
    if "unat sz \<le> ZONE_MAX_ALLOC_SIZE" "unat (num_zones s) < MAX_ZONES" "zid \<noteq> ZONE_ID_ANY xnu"
      "ZONE_ID_FIRST_DYNAMIC xnu \<le> zid \<or> has_flag (effective_flags xnu sz flags) (ZC_DESTRUCTIBLE xnu)
        \<or> slot_used xnu s (unat zid)"
    using that used by (simp add: zone_create_ext_def Let_def fl_def)
qed

text \<open>The choice of the granule, whatever the kind of the zone: only a per-CPU zone whose elements waste too much of a page is
  refused.\<close>

lemma granule_outcome:
  assumes "page_ok xnu" "0 < elem"
  shows "\<exists>g. \<forall>s. zone_get_min_alloc_granule xnu elem flags s =
     (if has_flag flags (ZC_PERCPU xnu) \<and> 256 < PAGE_SIZE xnu mod elem then Stopped Panic else Done g s)"
  using assms granule_state_free [OF assms, of flags]
  by (cases "has_flag flags (ZC_PERCPU xnu)"; cases "has_flag flags (ZC_READONLY xnu)")
     (auto simp: zone_get_min_alloc_granule_def split: if_splits)

lemma zone_set_geometry_returns:
  assumes "zones s p = Some r" "(ucast sz :: u16) \<noteq> 0"
  shows "\<exists>r'. zone_set_geometry xnu p sz flags g s = Done () (s\<lparr>zones := (zones s)(p \<mapsto> r')\<rparr>)"
  using assms by (auto simp: zone_set_geometry_def Let_def)

lemma zone_create_ext_granted:
  fixes s :: "'z zstate_scheme"
  assumes xnu: "xnu_zone_ok xnu" and tab: "zone_table xnu s"
    and req: "zone_request_ok xnu s (effective_flags xnu sz flags) zid"
    and sz: "unat sz \<le> ZONE_MAX_ALLOC_SIZE" and early: "startup_phase s < STARTUP_SUB_LOCKDOWN xnu" and blk: "zone_setup_ok f"
  shows "if has_flag (effective_flags xnu sz flags) (ZC_PERCPU xnu) \<and> 256 < PAGE_SIZE xnu mod max 8 (8 * ((unat sz + 7) div 8))
     then zone_create_ext xnu name sz flags zid f s = Stopped Panic
     else \<exists>t. zone_create_ext xnu name sz flags zid f s = Done (zone_slot xnu (unat (granted_id xnu s zid))) t"
proof -
  let ?e = "unat (zone_elem_adjust_size sz)" and ?fl = "effective_flags xnu sz flags" and ?p = "zone_slot xnu (unat (granted_id xnu s zid))"
  have e: "?e = max 8 (8 * ((unat sz + 7) div 8))" by (rule adjust_size_value [OF sz])
  have page: "page_ok xnu" using xnu by (simp add: xnu_zone_ok_def)
  have nz: "(ucast (zone_elem_adjust_size sz) :: u16) \<noteq> 0"
    using elem_size_lossless [OF sz] by (metis max.cobounded1 not_numeral_le_zero unsigned_0)
  have "0 < ?e" unfolding e by simp
  from granule_outcome [OF page this, of ?fl]
  obtain g where g: "\<And>t :: 'z zstate_scheme. zone_get_min_alloc_granule xnu ?e ?fl t =
     (if has_flag ?fl (ZC_PERCPU xnu) \<and> 256 < PAGE_SIZE xnu mod ?e then Stopped Panic else Done g t)" by blast
  obtain r st h where r: "zones s ?p = Some r" and steps: "zone_create_ext xnu name sz flags zid f s =
      bindM (zone_get_min_alloc_granule xnu ?e ?fl) (\<lambda>alloc. thenM (zone_set_geometry xnu ?p (zone_elem_adjust_size sz) ?fl alloc)
          (zone_create_finish xnu ?fl f ?p (granted_id xnu s zid)))
       (s\<lparr>num_zones := granted_count xnu s zid, num_zones_in_use := num_zones_in_use s + 1, mheap := h,
          zones := (zones s)(?p \<mapsto> r\<lparr>z_name := name, z_stats := st\<rparr>)\<rparr>)"
    using zone_create_ext_prefix [OF xnu tab req sz early] by blast
  define s3 where "s3 = s\<lparr>num_zones := granted_count xnu s zid, num_zones_in_use := num_zones_in_use s + 1, mheap := h,
          zones := (zones s)(?p \<mapsto> r\<lparr>z_name := name, z_stats := st\<rparr>)\<rparr>"
  have "zones s3 ?p = Some (r\<lparr>z_name := name, z_stats := st\<rparr>)" by (simp add: s3_def)
  from zone_set_geometry_returns [OF this nz] obtain r' where
    geo: "zone_set_geometry xnu ?p (zone_elem_adjust_size sz) ?fl g s3 = Done () (s3\<lparr>zones := (zones s3)(?p \<mapsto> r')\<rparr>)" by blast
  obtain t where "zone_create_finish xnu ?fl f ?p (granted_id xnu s zid) (s3\<lparr>zones := (zones s3)(?p \<mapsto> r')\<rparr>) = Done ?p t"
    using zone_create_finish_runs [of "s3\<lparr>zones := (zones s3)(?p \<mapsto> r')\<rparr>" ?p r' "granted_id xnu s zid" f xnu ?fl] granted_facts(1) [OF xnu tab req] blk
    by auto
  then show ?thesis unfolding e [symmetric] using steps geo g by (simp flip: s3_def)
qed

text \<open>C33. When \<open>zone_create_ext\<close> returns and how it stops otherwise, for every request made before the lockdown phase. An element size above 32 KiB
  panics; with a legal size a full table fails the assertion of \<open>zone_create_find\<close>; with a slot left, a request for a given
  identifier panics when the identifier is not a reserved one, when the zone is destructible, or when the slot is in use; a per-CPU
  zone panics when more than 256 bytes of a page are left over by elements of the rounded size; and every other request
  returns the slot of the granted identifier.\<close>

theorem zone_create_ext_refuses:
  fixes s :: "'z zstate_scheme"
  assumes xnu: "xnu_zone_ok xnu" and dyn: "unat (ZONE_ID_FIRST_DYNAMIC xnu) < MAX_ZONES" and tab: "zone_table xnu s"
    and early: "startup_phase s < STARTUP_SUB_LOCKDOWN xnu" and blk: "zone_setup_ok f"
  shows "if ZONE_MAX_ALLOC_SIZE < unat sz then zone_create_ext xnu name sz flags zid f s = Stopped Panic
     else if unat (num_zones s) = MAX_ZONES then zone_create_ext xnu name sz flags zid f s = Stopped AssertFail
     else if zid \<noteq> ZONE_ID_ANY xnu \<and>
         (ZONE_ID_FIRST_DYNAMIC xnu \<le> zid \<or> has_flag (effective_flags xnu sz flags) (ZC_DESTRUCTIBLE xnu) \<or> slot_used xnu s (unat zid))
       then zone_create_ext xnu name sz flags zid f s = Stopped Panic
     else if has_flag (effective_flags xnu sz flags) (ZC_PERCPU xnu) \<and> 256 < PAGE_SIZE xnu mod max 8 (8 * ((unat sz + 7) div 8))
       then zone_create_ext xnu name sz flags zid f s = Stopped Panic
     else \<exists>t. zone_create_ext xnu name sz flags zid f s = Done (zone_slot xnu (unat (granted_id xnu s zid))) t"
proof -
  note refused = zone_create_ext_refusals [OF xnu tab, where sz = sz and name = name and flags = flags and zid = zid and f = f]
  have n: "unat (num_zones s) \<le> MAX_ZONES" using tab by (simp add: zone_table_def)
  have "zone_request_ok xnu s (effective_flags xnu sz flags) zid"
    if "unat (num_zones s) < MAX_ZONES" "\<not> (zid \<noteq> ZONE_ID_ANY xnu \<and> (ZONE_ID_FIRST_DYNAMIC xnu \<le> zid \<or>
        has_flag (effective_flags xnu sz flags) (ZC_DESTRUCTIBLE xnu) \<or> slot_used xnu s (unat zid)))"
    using that dyn by (auto simp: zone_request_ok_def not_le)
  note granted = zone_create_ext_granted [OF xnu tab this _ early blk, where name = name]
  show ?thesis
  proof (cases "unat sz \<le> ZONE_MAX_ALLOC_SIZE \<and> unat (num_zones s) < MAX_ZONES")
    case True
    then show ?thesis using refused(3) granted by (auto simp: not_less)
  next
    case False
    then show ?thesis using refused(1,2) n by (auto simp: not_less not_le)
  qed
qed

theorem zone_create_ext_refuses_witness:
  "zone_create_ext xnu_x86 ''big'' 32769 0 65535 None (zstate_boot xnu_x86 [] None) = Stopped Panic \<and>
   zone_create_ext xnu_x86 ''dyn'' 64 0 40 None (zstate_boot xnu_x86 [] None) = Stopped Panic \<and>
   (\<exists>z t. zone_create_ext xnu_x86 ''any'' 64 0 65535 None (zstate_boot xnu_x86 [] None) = Done z t)"
proof -
  have dyn: "unat (ZONE_ID_FIRST_DYNAMIC xnu_x86) < MAX_ZONES" by (simp add: xnu_x86_def MAX_ZONES_def)
  have early: "startup_phase (zstate_boot xnu_x86 [] None) < STARTUP_SUB_LOCKDOWN xnu_x86" by (simp add: xnu_x86_def)
  have blk: "zone_setup_ok None" by (simp add: zone_setup_ok_def)
  note r = zone_create_ext_refuses [OF xnu_x86_ok dyn zstate_boot_table [OF xnu_x86_ok, of "[]" None] early blk]
  show ?thesis
    using r [of 32769 "''big''" 0 65535] r [of 64 "''dyn''" 0 40] r [of 64 "''any''" 0 65535]
    by (auto simp: ZONE_MAX_ALLOC_SIZE_def MAX_ZONES_def effective_flags_def has_flag_def xnu_x86_def)
qed

end
