(* ===== verification/ZoneStack.thy ===== *)
theory ZoneStack
  imports ZoneCreate
begin

text \<open>
  The element stacks of \<open>fuzz/xnu/osfmk/fakes/zalloc.c\<close> and the bulk operations over them:
  \<open>zstack_push\<close>, \<open>zstack_pop\<close>, \<open>zalloc_n\<close>, \<open>zfree_nozero_n\<close>, \<open>zcache_alloc_n\<close> and
  \<open>zcache_free_n\<close>. A stack is an array of 64-bit addresses in the heap that \<open>realloc\<close> grows by one
  cell per push. \<open>stack_rep\<close> relates it to the list of its elements, and the locale \<open>lifo\<close> is the
  contract the bulk operations rely on.

  \<open>zstack_empty\<close> is an inline function of the XNU headers and a parameter here.
\<close>

record zstack =
  z_head :: ptr
  z_count :: u32

definition zstack_zero :: zstack where
  "zstack_zero = \<lparr>z_head = 0, z_count = 0\<rparr>"

section \<open>Push and pop\<close>

definition zstack_push :: "zstack \<Rightarrow> ptr \<Rightarrow> (zstack, 'z mach_scheme) prog" where
  "zstack_push st elem =
     bindM (heapM (realloc (z_head st) (unat (z_count st + 1) * 8))) (\<lambda>new_elements.
       if new_elements \<noteq> 0
       then thenM (heapM (store64 (new_elements + unat (z_count st) * 8) (of_nat elem)))
              (retM (st\<lparr>z_head := new_elements, z_count := z_count st + 1\<rparr>))
       else retM st)"

definition zstack_pop :: "(zstack \<Rightarrow> bool) \<Rightarrow> zstack \<Rightarrow> (ptr \<times> zstack, 'z mach_scheme) prog" where
  "zstack_pop zstack_empty st =
     (if zstack_empty st then retM (0, st)
      else bindM (heapM (load64 (z_head st + unat (z_count st - 1) * 8))) (\<lambda>elem.
        if z_count st - 1 = 0
        then thenM (heapM (free (z_head st))) (retM (unat elem, st\<lparr>z_head := 0, z_count := z_count st - 1\<rparr>))
        else retM (unat elem, st\<lparr>z_count := z_count st - 1\<rparr>)))"

section \<open>Bulk allocation and release\<close>

text \<open>How an iteration of \<open>zalloc_n\<close> comes by its element: by \<open>calloc\<close> when the allocation must not
  fail, otherwise only when a fuzzed digit is 0.\<close>

definition zalloc_n_elem :: "xnu_zone \<Rightarrow> nat \<Rightarrow> u32 \<Rightarrow> (ptr, 'z zstate_scheme) prog" where
  "zalloc_n_elem xnu elem_size flags =
     (if has_flag flags (Z_NOFAIL xnu) then heapM (calloc 1 elem_size)
      else bindM (fuzzM (GetFuzzedUint32InRange 0 9)) (\<lambda>v.
        if v = 0 then heapM (calloc 1 elem_size) else retM 0))"

text \<open>The loop of \<open>zalloc_n\<close>, with the number of iterations that are left.\<close>

primrec zalloc_n_loop :: "xnu_zone \<Rightarrow> nat \<Rightarrow> u32 \<Rightarrow> nat \<Rightarrow> zstack \<Rightarrow> (zstack, 'z zstate_scheme) prog" where
  "zalloc_n_loop xnu elem_size flags 0 st = retM st"
| "zalloc_n_loop xnu elem_size flags (Suc left) st =
     bindM (zalloc_n_elem xnu elem_size flags) (\<lambda>elem.
       if elem = 0 then retM st
       else bindM (zstack_push st elem) (zalloc_n_loop xnu elem_size flags left))"

definition zalloc_n :: "xnu_zone \<Rightarrow> u16 \<Rightarrow> u32 \<Rightarrow> u32 \<Rightarrow> (zstack, 'z zstate_scheme) prog" where
  "zalloc_n xnu zone_id cnt flags =
     bindM (zone_by_id xnu (ucast zone_id)) (\<lambda>z.
       if z = 0 then retM zstack_zero
       else bindM (zone_get z) (\<lambda>r.
         zalloc_n_loop xnu (unat (z_elem_size r)) flags (unat cnt) zstack_zero))"

text \<open>A loop that pops until \<open>zstack_pop\<close> answers NULL; the first argument bounds the iterations.\<close>

primrec zfree_nozero_n_loop :: "nat \<Rightarrow> (zstack \<Rightarrow> bool) \<Rightarrow> zstack \<Rightarrow> (unit, 'z mach_scheme) prog" where
  "zfree_nozero_n_loop 0 zstack_empty st = stopM Diverge"
| "zfree_nozero_n_loop (Suc k) zstack_empty st =
     bindM (zstack_pop zstack_empty st) (\<lambda>(elem, st').
       if elem = 0 then retM ()
       else thenM (heapM (free elem)) (zfree_nozero_n_loop k zstack_empty st'))"

definition zfree_nozero_n :: "(zstack \<Rightarrow> bool) \<Rightarrow> u16 \<Rightarrow> zstack \<Rightarrow> (unit, 'z mach_scheme) prog" where
  "zfree_nozero_n zstack_empty zone_id st = zfree_nozero_n_loop (unat (z_count st) + 1) zstack_empty st"

section \<open>Caches\<close>

text \<open>The operations of a cache are function pointers that may be null.\<close>

record 'z zone_cache_ops =
  zc_op_alloc :: "(u16 \<Rightarrow> u32 \<Rightarrow> (ptr, 'z zstate_scheme) prog) option"
  zc_op_free :: "(u16 \<Rightarrow> ptr \<Rightarrow> (unit, 'z zstate_scheme) prog) option"
  zc_op_mark_valid :: "(u16 \<Rightarrow> ptr \<Rightarrow> (unit, 'z zstate_scheme) prog) option"
  zc_op_mark_invalid :: "(u16 \<Rightarrow> ptr \<Rightarrow> (unit, 'z zstate_scheme) prog) option"

definition zc_free :: "'z zone_cache_ops \<Rightarrow> u16 \<Rightarrow> ptr \<Rightarrow> (unit, 'z zstate_scheme) prog" where
  "zc_free ops zone_id elem =
     (case zc_op_free ops of Some f \<Rightarrow> f zone_id elem | None \<Rightarrow> heapM (free elem))"

primrec zcache_unwind ::
  "nat \<Rightarrow> (zstack \<Rightarrow> bool) \<Rightarrow> 'z zone_cache_ops \<Rightarrow> u16 \<Rightarrow> zstack \<Rightarrow> (zstack, 'z zstate_scheme) prog" where
  "zcache_unwind 0 zstack_empty ops zone_id st = (if zstack_empty st then retM st else stopM Diverge)"
| "zcache_unwind (Suc k) zstack_empty ops zone_id st =
     (if zstack_empty st then retM st
      else bindM (zstack_pop zstack_empty st) (\<lambda>(to_free, st').
        thenM (zc_free ops zone_id to_free) (zcache_unwind k zstack_empty ops zone_id st')))"

primrec zcache_alloc_n_loop ::
  "(zstack \<Rightarrow> bool) \<Rightarrow> 'z zone_cache_ops \<Rightarrow> u16 \<Rightarrow> ptr \<Rightarrow> u32 \<Rightarrow> nat \<Rightarrow> zstack \<Rightarrow> (zstack, 'z zstate_scheme) prog" where
  "zcache_alloc_n_loop zstack_empty ops zone_id z flags 0 st = retM st"
| "zcache_alloc_n_loop zstack_empty ops zone_id z flags (Suc left) st =
     bindM (case zc_op_alloc ops of
              Some f \<Rightarrow> f zone_id flags
            | None \<Rightarrow> bindM (zone_get z) (\<lambda>r. heapM (calloc 1 (unat (z_elem_size r))))) (\<lambda>elem.
       if elem = 0 then zcache_unwind (unat (z_count st)) zstack_empty ops zone_id st
       else thenM (case zc_op_mark_valid ops of Some f \<Rightarrow> f zone_id elem | None \<Rightarrow> retM ())
              (bindM (zstack_push st elem) (zcache_alloc_n_loop zstack_empty ops zone_id z flags left)))"

definition zcache_alloc_n ::
  "xnu_zone \<Rightarrow> (zstack \<Rightarrow> bool) \<Rightarrow> u16 \<Rightarrow> u32 \<Rightarrow> u32 \<Rightarrow> 'z zone_cache_ops \<Rightarrow> (zstack, 'z zstate_scheme) prog" where
  "zcache_alloc_n xnu zstack_empty zone_id cnt flags ops =
     bindM (zone_by_id xnu (ucast zone_id)) (\<lambda>z.
       if z = 0 then retM zstack_zero
       else zcache_alloc_n_loop zstack_empty ops zone_id z flags (unat cnt) zstack_zero)"

primrec zcache_free_n_loop ::
  "nat \<Rightarrow> (zstack \<Rightarrow> bool) \<Rightarrow> 'z zone_cache_ops \<Rightarrow> u16 \<Rightarrow> zstack \<Rightarrow> (unit, 'z zstate_scheme) prog" where
  "zcache_free_n_loop 0 zstack_empty ops zone_id st = (if zstack_empty st then retM () else stopM Diverge)"
| "zcache_free_n_loop (Suc k) zstack_empty ops zone_id st =
     (if zstack_empty st then retM ()
      else bindM (zstack_pop zstack_empty st) (\<lambda>(elem, st').
        thenM (case zc_op_mark_invalid ops of Some f \<Rightarrow> f zone_id elem | None \<Rightarrow> retM ())
          (thenM (zc_free ops zone_id elem) (zcache_free_n_loop k zstack_empty ops zone_id st'))))"

definition zcache_free_n ::
  "(zstack \<Rightarrow> bool) \<Rightarrow> u16 \<Rightarrow> zstack \<Rightarrow> 'z zone_cache_ops \<Rightarrow> (unit, 'z zstate_scheme) prog" where
  "zcache_free_n zstack_empty zone_id st ops =
     zcache_free_n_loop (unat (z_count st)) zstack_empty ops zone_id st"

section \<open>The stack as a list\<close>

definition cell :: "heap \<Rightarrow> ptr \<Rightarrow> u64" where
  "cell h a = u64_of_bytes (read_bytes h a 8)"

definition stack_rep :: "heap \<Rightarrow> zstack \<Rightarrow> ptr list \<Rightarrow> bool" where
  "stack_rep h st xs \<longleftrightarrow> unat (z_count st) = length xs \<and> (\<forall>x \<in> set xs. x < addr_limit) \<and>
     (if xs = [] then z_head st = 0
      else \<exists>m. block_size h (z_head st) = Some m \<and> 8 * length xs \<le> m \<and>
             (\<forall>i<length xs. cell h (z_head st + 8 * i) = of_nat (xs ! i)))"

lemma stack_rep_zero: "stack_rep h zstack_zero []"
  by (simp add: stack_rep_def zstack_zero_def)

lemma stack_rep_emptyD: "stack_rep h st [] \<Longrightarrow> st = zstack_zero"
  by (cases st) (simp add: stack_rep_def zstack_zero_def unat_eq_zero)

lemma stack_rep_head:
  "stack_rep h st xs \<Longrightarrow> z_head st = 0 \<and> xs = [] \<or> (\<exists>m. block_size h (z_head st) = Some m \<and> xs \<noteq> [])"
  by (auto simp: stack_rep_def split: if_splits)

lemma keeps_cell:
  assumes "keeps h t A" "p \<notin> A" "block_size h p = Some m" "8 * i + 8 \<le> m"
  shows "cell t (p + 8 * i) = cell h (p + 8 * i)"
proof -
  have "read_bytes t p m = read_bytes h p m" using assms by (simp add: keeps_def)
  from read_bytes_part_cong [OF this assms(4)] show ?thesis by (simp add: cell_def)
qed

lemma keeps_stack_rep:
  assumes "stack_rep h st xs" "keeps h t A" "z_head st \<notin> A"
  shows "stack_rep t st xs"
proof (cases "xs = []")
  case True
  then show ?thesis using assms(1) by (simp add: stack_rep_def)
next
  case False
  then obtain m where m: "block_size h (z_head st) = Some m" "8 * length xs \<le> m"
    "\<forall>i<length xs. cell h (z_head st + 8 * i) = of_nat (xs ! i)"
    using assms(1) by (auto simp: stack_rep_def)
  moreover have "block_size t (z_head st) = Some m" using assms(2,3) m(1) by (simp add: keeps_def)
  moreover have "cell t (z_head st + 8 * i) = cell h (z_head st + 8 * i)" if "i < length xs" for i
    using keeps_cell [OF assms(2,3) m(1), of i] that m(2) by simp
  ultimately show ?thesis using assms(1) False by (auto simp: stack_rep_def)
qed

lemma store64_in_block:
  assumes "heap_wf h" "block_size h p = Some m" "8 * i + 8 \<le> m"
  shows "\<exists>t. store64 (p + 8 * i) w h = Done () t \<and> heap_wf t \<and> block_size t = block_size h \<and>
     keeps h t {p} \<and> cell t (p + 8 * i) = w \<and> (\<forall>j. j \<noteq> i \<longrightarrow> cell t (p + 8 * j) = cell h (p + 8 * j))"
proof -
  let ?t = "write_bytes (p + 8 * i) (bytes_of_u64 w) h"
  have "in_block h (p + 8 * i) 8" using assms(2,3) by (rule in_blockI)
  moreover have "keeps h ?t {p}" using assms by (intro write_bytes_keeps) auto
  moreover have "cell ?t (p + 8 * i) = w"
    using read_write_same [of "p + 8 * i" "bytes_of_u64 w" h] by (simp add: cell_def)
  moreover have "cell ?t (p + 8 * j) = cell h (p + 8 * j)" if "j \<noteq> i" for j
    using that by (auto simp: cell_def neq_iff intro!: arg_cong [where f = u64_of_bytes] read_write_other)
  ultimately show ?thesis using assms(1) by (simp add: store64_def store_at_def)
qed

lemma count_suc:
  assumes "unat (c :: u32) = n" "n < 2 ^ 32 - 1"
  shows "unat (c + 1) = Suc n"
  using assms by (subst unat_add_lem [THEN iffD1]) auto

text \<open>A push moves the array and appends the element, or it leaves the stack as it is.\<close>

lemma zstack_push_runs:
  assumes ok: "mach_ok s" and rep: "stack_rep (mheap s) st xs" and n: "length xs < 2 ^ 32 - 1" and e: "e < addr_limit"
  obtains (dropped) h where "zstack_push st e s = Done st (s\<lparr>mheap := h\<rparr>)" "heap_wf h"
      "stack_rep h st xs" "block_size h = block_size (mheap s)" "keeps (mheap s) h {}"
  | (pushed) st' h where "zstack_push st e s = Done st' (s\<lparr>mheap := h\<rparr>)" "heap_wf h"
      "stack_rep h st' (xs @ [e])" "block_size (mheap s) (z_head st') = None"
      "block_size h = (block_size (mheap s))(z_head st := None, z_head st' \<mapsto> 8 * length xs + 8)"
      "keeps (mheap s) h {z_head st}"
proof -
  let ?h = "mheap s" and ?p = "z_head st" and ?k = "length xs"
  have wf: "heap_wf ?h" using ok by (simp add: mach_ok_def)
  have c: "unat (z_count st) = ?k" "unat (z_count st + 1) = Suc ?k"
    using rep n count_suc by (auto simp: stack_rep_def)
  obtain old where old: "?p = 0 \<or> block_size ?h ?p = Some old" using stack_rep_head [OF rep] by auto
  show thesis
  proof (rule realloc_contract [OF wf old, of "Suc ?k * 8"], goal_cases fail move)
    case (fail t)
    have "stack_rep t st xs" by (rule keeps_stack_rep [OF rep fail(4)]) simp
    then show thesis using fail c by (intro dropped [of t]) (auto simp: zstack_push_def)
  next
    case (move q t)
    have sz: "block_size t q = Some (Suc ?k * 8)" using move by simp
    obtain u where u: "store64 (q + 8 * ?k) (of_nat e) t = Done () u" "heap_wf u" "block_size u = block_size t"
      "keeps t u {q}" "cell u (q + 8 * ?k) = of_nat e" "\<forall>j. j \<noteq> ?k \<longrightarrow> cell u (q + 8 * j) = cell t (q + 8 * j)"
      using store64_in_block [OF move(2) sz, of ?k "of_nat e"] by auto
    have cells: "cell u (q + 8 * i) = of_nat (xs ! i)" if i: "i < ?k" for i
    proof -
      have "xs \<noteq> []" using i by auto
      with rep old obtain m where m: "block_size ?h ?p = Some m" "8 * ?k \<le> m" "cell ?h (?p + 8 * i) = of_nat (xs ! i)"
        using i by (auto simp: stack_rep_def)
      then have "?p \<noteq> 0" and "old = m" using old heap_wf_block_size [OF wf] by auto
      then have "cell t (q + 8 * i) = cell ?h (?p + 8 * i)"
        using read_bytes_part_cong [OF move(7), of "8 * i" 8] m(2) i by (simp add: cell_def)
      then show ?thesis using u(6) i m(3) by simp
    qed
    have "stack_rep u (st\<lparr>z_head := q, z_count := z_count st + 1\<rparr>) (xs @ [e])"
      using rep c e u(3,5) sz cells by (auto simp: stack_rep_def nth_append less_Suc_eq)
    moreover have "keeps ?h u {?p}"
      by (rule keeps_fresh [OF keeps_mono [OF keeps_trans [OF move(6) u(4)]] move(4)]) auto
    ultimately show thesis
      using move u c by (intro pushed [of "st\<lparr>z_head := q, z_count := z_count st + 1\<rparr>" u])
        (auto simp: zstack_push_def mult.commute)
  qed
qed

lemma unat_of_nat_addr: "x < addr_limit \<Longrightarrow> unat (of_nat x :: u64) = x"
  by (rule unat_of_nat_less) (simp add: addr_limit_def)

text \<open>A pop takes the last element; the pop of the only element also frees the array.\<close>

lemma zstack_pop_runs:
  assumes ok: "mach_ok s" and rep: "stack_rep (mheap s) st (xs @ [e])"
    and emp: "\<forall>st. zstack_empty st \<longleftrightarrow> z_count st = 0"
  obtains st' h where "zstack_pop zstack_empty st s = Done (e, st') (s\<lparr>mheap := h\<rparr>)" "heap_wf h"
      "stack_rep h st' xs" "keeps (mheap s) h {z_head st}" "xs \<noteq> [] \<Longrightarrow> z_head st' = z_head st"
      "block_size h = (if xs = [] then (block_size (mheap s))(z_head st := None) else block_size (mheap s))"
proof -
  let ?h = "mheap s" and ?p = "z_head st" and ?k = "length xs"
  obtain m where m: "block_size ?h ?p = Some m" "8 * Suc ?k \<le> m" "e < addr_limit"
    and cells: "\<And>i. i < Suc ?k \<Longrightarrow> cell ?h (?p + 8 * i) = of_nat ((xs @ [e]) ! i)"
    using rep by (auto simp: stack_rep_def)
  have c: "unat (z_count st) = Suc ?k" using rep by (simp add: stack_rep_def)
  then have ne: "z_count st \<noteq> 0" by auto
  then have c1: "unat (z_count st - 1) = ?k" using c by (simp add: unat_minus_one)
  have "in_block ?h (?p + 8 * ?k) 8" using m by (intro in_blockI) auto
  then have load: "load64 (?p + 8 * ?k) ?h = Done (of_nat e) ?h"
    using cells [of ?k] by (simp add: load64_def memory_at_def cell_def)
  show thesis
  proof (cases "xs = []")
    case True
    obtain u where u: "free ?p ?h = Done () u" "heap_wf u" "block_size u = (block_size ?h)(?p := None)"
      using free_live [OF _ m(1)] ok by (auto simp: mach_ok_def)
    have "z_count st - 1 = 0" using c1 True by (simp add: unat_eq_zero)
    moreover have "stack_rep u (st\<lparr>z_head := 0, z_count := z_count st - 1\<rparr>) xs"
      using True c1 by (simp add: stack_rep_def)
    ultimately show thesis
      using u True ne emp load m free_keeps(1) [OF u(1)]
      by (intro that [of "st\<lparr>z_head := 0, z_count := z_count st - 1\<rparr>" u])
         (auto simp: zstack_pop_def unat_of_nat_addr mheap_self)
  next
    case False
    have "stack_rep ?h (st\<lparr>z_count := z_count st - 1\<rparr>) xs"
      using rep c1 False m cells by (auto simp: stack_rep_def nth_append)
    moreover have "z_count st - 1 \<noteq> 0" using c1 False by (metis length_0_conv unsigned_0)
    ultimately show thesis
      using False ne emp load c1 m ok
      by (intro that [of "st\<lparr>z_count := z_count st - 1\<rparr>" ?h])
         (auto simp: zstack_pop_def unat_of_nat_addr mult.commute mach_ok_def mheap_self)
  qed
qed

section \<open>The contract of a stack\<close>

text \<open>A stack whose push may silently drop the element, as \<open>zstack_push\<close> does when memory is short.
  \<open>rep s st xs\<close> says that \<open>st\<close> holds \<open>xs\<close>, the last pushed element last.\<close>

locale lifo =
  fixes push :: "'st \<Rightarrow> 'e \<Rightarrow> ('st, 's) prog"
    and pop :: "'st \<Rightarrow> ('e \<times> 'st, 's) prog"
    and rep :: "'s \<Rightarrow> 'st \<Rightarrow> 'e list \<Rightarrow> bool"
    and cap :: nat
    and good :: "'e \<Rightarrow> bool"
  assumes push_law: "rep s st xs \<Longrightarrow> length xs < cap \<Longrightarrow> good e \<Longrightarrow>
      \<exists>st' t. push st e s = Done st' t \<and> (rep t st' (xs @ [e]) \<or> st' = st \<and> rep t st xs)"
    and pop_law: "rep s st (xs @ [e]) \<Longrightarrow> \<exists>st' t. pop st s = Done (e, st') t \<and> rep t st' xs"
begin

lemma push_pop:
  assumes "rep s st xs" "length xs < cap" "good e" "push st e s = Done st' t" "st' \<noteq> st"
  shows "\<exists>st'' u. pop st' t = Done (e, st'') u \<and> rep u st'' xs"
  using push_law [OF assms(1-3)] assms(4,5) pop_law by auto

primrec pops :: "nat \<Rightarrow> 'st \<Rightarrow> ('e list \<times> 'st, 's) prog" where
  "pops 0 st = retM ([], st)"
| "pops (Suc n) st = bindM (pop st) (\<lambda>(e, st'). bindM (pops n st') (\<lambda>(es, st''). retM (e # es, st'')))"

lemma pops_reverse:
  "rep s st (ys @ xs) \<Longrightarrow> \<exists>st' t. pops (length xs) st s = Done (rev xs, st') t \<and> rep t st' ys"
proof (induction xs arbitrary: s st rule: rev_induct)
  case Nil
  then show ?case by auto
next
  case (snoc x xs)
  from snoc.prems obtain st1 t where "pop st s = Done (x, st1) t" "rep t st1 (ys @ xs)"
    using pop_law [of s st "ys @ xs" x] by auto
  with snoc.IH [of t st1] show ?case by fastforce
qed

end

definition zstack_holds :: "'z mach_scheme \<Rightarrow> zstack \<Rightarrow> ptr list \<Rightarrow> bool" where
  "zstack_holds s st xs \<longleftrightarrow> mach_ok s \<and> stack_rep (mheap s) st xs"

interpretation zstk: lifo zstack_push "zstack_pop (\<lambda>st. z_count st = 0)" zstack_holds "2 ^ 32 - 1" "\<lambda>e. e < addr_limit"
proof
  fix s :: "'a mach_scheme" and st xs e
  assume a: "zstack_holds s st xs" "length xs < 2 ^ 32 - 1" "e < addr_limit"
  then have "mach_ok s" "stack_rep (mheap s) st xs" by (simp_all add: zstack_holds_def)
  from zstack_push_runs [OF this a(2,3)]
  show "\<exists>st' t. zstack_push st e s = Done st' t \<and> (zstack_holds t st' (xs @ [e]) \<or> st' = st \<and> zstack_holds t st xs)"
    using a(1) by (cases; fastforce simp: zstack_holds_def mach_ok_def)
next
  fix s :: "'a mach_scheme" and st xs e
  assume a: "zstack_holds s st (xs @ [e])"
  then have "mach_ok s" "stack_rep (mheap s) st (xs @ [e])" by (simp_all add: zstack_holds_def)
  from zstack_pop_runs [OF this, of "\<lambda>st. z_count st = 0"]
  show "\<exists>st' t. zstack_pop (\<lambda>st. z_count st = 0) st s = Done (e, st') t \<and> zstack_holds t st' xs"
    using a by (fastforce simp: zstack_holds_def mach_ok_def)
qed

section \<open>Stacks that own their elements\<close>

text \<open>\<open>stack_owns h0 h st xs n\<close>: since \<open>h0\<close>, no block of \<open>h0\<close> has changed, and the stack and its
  elements, which are different live blocks of \<open>n\<close> bytes, are new.\<close>

definition stack_owns :: "heap \<Rightarrow> heap \<Rightarrow> zstack \<Rightarrow> ptr list \<Rightarrow> nat \<Rightarrow> bool" where
  "stack_owns h0 h st xs n \<longleftrightarrow> stack_rep h st xs \<and> keeps h0 h {} \<and> distinct xs \<and> z_head st \<notin> set xs \<and>
     block_size h0 (z_head st) = None \<and>
     (\<forall>x \<in> set xs. x \<noteq> 0 \<and> block_size h0 x = None \<and> block_size h x = Some n)"

definition no_leak :: "heap \<Rightarrow> heap \<Rightarrow> zstack \<Rightarrow> ptr list \<Rightarrow> bool" where
  "no_leak h0 h st xs \<longleftrightarrow> dom (block_size h) \<subseteq> dom (block_size h0) \<union> set xs \<union> {z_head st}"

lemma keeps_fresh_back: "keeps h t {} \<Longrightarrow> block_size t q = None \<Longrightarrow> block_size h q = None"
  unfolding keeps_def by (metis empty_iff not_Some_eq)

lemma stack_owns_frame:
  assumes "stack_owns h0 h st xs n" "keeps h t {}"
  shows "stack_owns h0 t st xs n"
  using assms keeps_stack_rep [of h st xs t "{}"] keeps_trans [of h0 h "{}" t "{}"]
  by (auto simp: stack_owns_def keeps_def)

lemma stack_owns_push:
  assumes own: "stack_owns h0 h st xs n" and wf: "heap_wf h"
    and e: "e \<noteq> 0" "block_size h e = Some n" "e \<notin> set xs" "e \<noteq> z_head st" "block_size h0 e = None"
    and p: "stack_rep t st' (xs @ [e])" "block_size h (z_head st') = None"
      "block_size t = (block_size h)(z_head st := None, z_head st' \<mapsto> m)" "keeps h t {z_head st}"
  shows "stack_owns h0 t st' (xs @ [e]) n"
proof -
  have "keeps h0 t {}"
    using own by (intro keeps_fresh [OF keeps_mono [OF keeps_trans [OF _ p(4)]]]) (auto simp: stack_owns_def)
  moreover have "block_size h0 (z_head st') = None"
    using own p(2) keeps_fresh_back [of h0 h] by (auto simp: stack_owns_def)
  ultimately show ?thesis
    using own e p by (auto simp: stack_owns_def)
qed

lemma no_leak_push:
  assumes "no_leak h0 h st xs"
    "block_size t = (block_size u)(z_head st := None, z_head st' \<mapsto> m)" "block_size u = (block_size h)(e \<mapsto> n)"
  shows "no_leak h0 t st' (xs @ [e])"
  using assms by (auto simp: no_leak_def split: if_splits)

lemma block_size_limit: "heap_wf h \<Longrightarrow> block_size h e = Some n \<Longrightarrow> e < addr_limit"
  using heap_wf_block_size [of h e n] by simp

text \<open>One iteration that got an element: it ends on the stack, or it is lost and the stack stays.\<close>

lemma own_iteration:
  assumes ok: "mach_ok s" and own: "stack_owns h0 (mheap s) st xs n" and len: "length xs < 2 ^ 32 - 1"
    and c: "calloc 1 n (mheap s) = Done e u" "e \<noteq> 0"
  obtains (lost) h where "zstack_push st e (s\<lparr>mheap := u\<rparr>) = Done st (s\<lparr>mheap := h\<rparr>)" "heap_wf h" "stack_owns h0 h st xs n"
  | (kept) st' h where "zstack_push st e (s\<lparr>mheap := u\<rparr>) = Done st' (s\<lparr>mheap := h\<rparr>)" "heap_wf h"
      "stack_owns h0 h st' (xs @ [e]) n" "no_leak h0 (mheap s) st xs \<Longrightarrow> no_leak h0 h st' (xs @ [e])"
proof -
  let ?h = "mheap s" and ?s = "s\<lparr>mheap := u\<rparr>"
  have wf: "heap_wf ?h" using ok by (simp add: mach_ok_def)
  have u: "heap_wf u" "block_size ?h e = None" "block_size u = (block_size ?h)(e \<mapsto> n)" "keeps ?h u {}"
    using alloc_aligned_contract [OF wf, of 1 n "Some (\<lambda>_. 0)"] alloc_aligned_keeps [of 1 n "Some (\<lambda>_. 0)" ?h] c
    by (auto simp: calloc_def)
  have own': "stack_owns h0 u st xs n" by (rule stack_owns_frame [OF own u(4)])
  have rep: "stack_rep (mheap ?s) st xs" using own' by (simp add: stack_owns_def)
  have ok': "mach_ok ?s" using ok u(1) by (simp add: mach_ok_def)
  have lim: "e < addr_limit" using u by (intro block_size_limit [OF u(1)]) simp
  have h0e: "block_size h0 e = None" using own u(2) keeps_fresh_back by (auto simp: stack_owns_def)
  have fresh: "e \<notin> set xs" "e \<noteq> z_head st"
    using own u(2) c(2) stack_rep_head [of ?h st xs] by (auto simp: stack_owns_def)
  show thesis
  proof (rule zstack_push_runs [OF ok' rep len lim], goal_cases dropped pushed)
    case (dropped h)
    then show thesis using stack_owns_frame [OF own'] by (intro lost [of h]) auto
  next
    case (pushed st' h)
    have "stack_owns h0 h st' (xs @ [e]) n"
      by (rule stack_owns_push [OF own' u(1) c(2) _ fresh h0e pushed(3)]) (use pushed u in auto)
    moreover have "no_leak h0 h st' (xs @ [e])" if "no_leak h0 ?h st xs"
      using that pushed(5) u(3) by (intro no_leak_push) auto
    ultimately show thesis using pushed by (intro kept [of st' h]) auto
  qed
qed

lemma zalloc_n_elem_runs:
  assumes "mach_ok s" "mfuzz s \<noteq> None"
  obtains (skip) f where "zalloc_n_elem xnu n flags s = Done 0 (s\<lparr>mfuzz := f\<rparr>)" "fuzz_ok f" "f \<noteq> None"
  | (called) f e u where "zalloc_n_elem xnu n flags s = Done e (s\<lparr>mfuzz := f, mheap := u\<rparr>)" "fuzz_ok f" "f \<noteq> None"
      "calloc 1 n (mheap s) = Done e u"
proof -
  have fz: "fuzz_ok (mfuzz s)" using assms by (simp add: mach_ok_def)
  obtain e u where c: "calloc 1 n (mheap s) = Done e u" using calloc_returns by blast
  obtain v f where v: "GetFuzzedUint32InRange 0 9 (mfuzz s) = Done v f" "fuzz_ok f" "f \<noteq> None"
    using GetFuzzedUint32InRange_runs [OF fz assms(2), of 0 9] by auto
  show thesis
  proof (cases "has_flag flags (Z_NOFAIL xnu)")
    case True
    then show thesis using c fz assms(2)
      by (intro called [where e = e and f = "mfuzz s" and u = u]) (simp_all add: zalloc_n_elem_def)
  next
    case False
    then show thesis using c v skip called by (cases "v = 0") (simp_all add: zalloc_n_elem_def)
  qed
qed

lemma zalloc_n_loop_owns:
  assumes "mach_ok s" "mfuzz s \<noteq> None" "stack_owns h0 (mheap s) st xs n" "length xs + k < 2 ^ 32"
  shows "\<exists>st' t ys. zalloc_n_loop xnu n flags k st s = Done st' t \<and> mach_ok t \<and> zones t = zones s \<and>
     stack_owns h0 (mheap t) st' (xs @ ys) n \<and> length ys \<le> k \<and>
     (no_leak h0 (mheap s) st xs \<and> length ys = k \<longrightarrow> no_leak h0 (mheap t) st' (xs @ ys))"
  using assms
proof (induction k arbitrary: s st xs)
  case 0
  then show ?case by (intro exI [of _ st] exI [of _ s] exI [of _ "[]"]) simp
next
  case (Suc k)
  have len: "length xs < 2 ^ 32 - 1" using Suc.prems(4) by simp
  show ?case
  proof (rule zalloc_n_elem_runs [OF Suc.prems(1,2), of xnu n flags], goal_cases skip called)
    case (skip f)
    then show ?case using Suc.prems
      by (intro exI [of _ st] exI [of _ "s\<lparr>mfuzz := f\<rparr>"] exI [of _ "[]"]) (simp add: mach_ok_def)
  next
    case (called f e u)
    let ?s = "s\<lparr>mfuzz := f\<rparr>"
    have ok: "mach_ok ?s" "mfuzz ?s \<noteq> None" and own: "stack_owns h0 (mheap ?s) st xs n"
      and c: "calloc 1 n (mheap ?s) = Done e u"
      using Suc.prems called by (auto simp: mach_ok_def)
    show ?case
    proof (cases "e = 0")
      case True
      have "heap_wf u" "keeps (mheap s) u {}"
        using alloc_aligned_contract [of "mheap s" 1 n "Some (\<lambda>_. 0)"] alloc_aligned_keeps [of 1 n "Some (\<lambda>_. 0)"] c ok
        by (auto simp: calloc_def mach_ok_def)
      then show ?thesis using True called ok stack_owns_frame [OF Suc.prems(3)]
        by (intro exI [of _ st] exI [of _ "s\<lparr>mfuzz := f, mheap := u\<rparr>"] exI [of _ "[]"]) (simp add: mach_ok_def)
    next
      case False
      show ?thesis
      proof (rule own_iteration [OF ok(1) own len c False], goal_cases lost kept)
        case (lost h)
        have "mach_ok (?s\<lparr>mheap := h\<rparr>)" using lost(2) ok by (simp add: mach_ok_def)
        from Suc.IH [OF this, of st xs] lost(3) ok(2) Suc.prems(4)
        obtain st' t ys where "zalloc_n_loop xnu n flags k st (?s\<lparr>mheap := h\<rparr>) = Done st' t" "mach_ok t"
          "zones t = zones s" "stack_owns h0 (mheap t) st' (xs @ ys) n" "length ys \<le> k" by auto
        then show ?case using called(1) lost(1) False
          by (intro exI [of _ st'] exI [of _ t] exI [of _ ys]) simp
      next
        case (kept st1 h)
        have "mach_ok (?s\<lparr>mheap := h\<rparr>)" using kept(2) ok by (simp add: mach_ok_def)
        from Suc.IH [OF this, of st1 "xs @ [e]"] kept(3,4) ok(2) Suc.prems(4)
        obtain st' t ys where "zalloc_n_loop xnu n flags k st1 (?s\<lparr>mheap := h\<rparr>) = Done st' t" "mach_ok t"
          "zones t = zones s" "stack_owns h0 (mheap t) st' (xs @ e # ys) n" "length ys \<le> k"
          "no_leak h0 (mheap s) st xs \<and> length ys = k \<longrightarrow> no_leak h0 (mheap t) st' (xs @ e # ys)" by auto
        then show ?case using called(1) kept(1) False
          by (intro exI [of _ st'] exI [of _ t] exI [of _ "e # ys"]) simp
      qed
    qed
  qed
qed

section \<open>Draining a stack\<close>

text \<open>The heap after the stack and its elements have been freed.\<close>

definition drained :: "heap \<Rightarrow> heap \<Rightarrow> zstack \<Rightarrow> ptr list \<Rightarrow> bool" where
  "drained h t st xs \<longleftrightarrow> heap_wf t \<and> keeps h t (insert (z_head st) (set xs)) \<and>
     block_size t = (\<lambda>q. if q \<in> set xs \<or> xs \<noteq> [] \<and> q = z_head st then None else block_size h q)"

definition drainable :: "heap \<Rightarrow> zstack \<Rightarrow> ptr list \<Rightarrow> bool" where
  "drainable h st xs \<longleftrightarrow> stack_rep h st xs \<and> distinct xs \<and> z_head st \<notin> set xs \<and>
     (\<forall>x \<in> set xs. x \<noteq> 0 \<and> block_size h x \<noteq> None)"

lemma stack_owns_drainable: "stack_owns h0 h st xs n \<Longrightarrow> drainable h st xs"
  by (auto simp: stack_owns_def drainable_def)

lemma drainable_nil: "drainable h st [] \<Longrightarrow> st = zstack_zero"
  using stack_rep_emptyD by (auto simp: drainable_def)

text \<open>One round of a drain loop: pop an element and free it.\<close>

lemma drain_round:
  assumes ok: "mach_ok s" and d: "drainable (mheap s) st (xs @ [e])"
    and emp: "\<forall>st. zstack_empty st \<longleftrightarrow> z_count st = 0"
  obtains st' h u where "zstack_pop zstack_empty st s = Done (e, st') (s\<lparr>mheap := h\<rparr>)"
    "free e h = Done () u" "heap_wf u" "drainable u st' xs" "e \<noteq> 0"
    "\<And>t. drained u t st' xs \<Longrightarrow> drained (mheap s) t st (xs @ [e])"
proof -
  have rep: "stack_rep (mheap s) st (xs @ [e])" and e: "e \<noteq> 0" "e \<noteq> z_head st" "e \<notin> set xs"
    using d by (auto simp: drainable_def)
  obtain st' h where p: "zstack_pop zstack_empty st s = Done (e, st') (s\<lparr>mheap := h\<rparr>)" "heap_wf h"
      "stack_rep h st' xs" "keeps (mheap s) h {z_head st}" "xs \<noteq> [] \<Longrightarrow> z_head st' = z_head st"
      "block_size h = (if xs = [] then (block_size (mheap s))(z_head st := None) else block_size (mheap s))"
    using zstack_pop_runs [OF ok rep emp] by metis
  obtain n where "block_size h e = Some n" using d e p(6) by (cases "block_size h e") (auto simp: drainable_def split: if_splits)
  from free_live [OF p(2) this] obtain u where u: "free e h = Done () u" "heap_wf u" "block_size u = (block_size h)(e := None)" by blast
  have "z_head st' = 0 \<or> z_head st' = z_head st" using p(3,5) stack_rep_head [OF p(3)] by (cases "xs = []") (auto simp: stack_rep_def)
  then have hd: "z_head st' \<noteq> e" using e by auto
  have rep': "stack_rep u st' xs" by (rule keeps_stack_rep [OF p(3) free_keeps(1) [OF u(1)]]) (use hd in auto)
  have "drainable u st' xs"
    using d rep' p(5,6) u(3) e(3) by (cases "xs = []") (auto simp: drainable_def)
  moreover have "drained (mheap s) t st (xs @ [e])" if t: "drained u t st' xs" for t
  proof -
    have k: "keeps (mheap s) t ({z_head st} \<union> {e} \<union> insert (z_head st') (set xs))"
      by (rule keeps_trans [OF keeps_trans [OF p(4) free_keeps(1) [OF u(1)]]]) (use t in \<open>simp add: drained_def\<close>)
    have z: "block_size (mheap s) 0 = None"
      using ok heap_wf_block_size [of "mheap s" 0] by (cases "block_size (mheap s) 0") (auto simp: mach_ok_def)
    have "keeps (mheap s) t (insert (z_head st) (set (xs @ [e])))"
    proof (cases "xs = []")
      case True
      then have "z_head st' = 0" using p(3) by (simp add: stack_rep_def)
      then show ?thesis using True by (intro keeps_fresh [OF keeps_mono [OF k] z]) auto
    next
      case False
      then show ?thesis using p(5) by (intro keeps_mono [OF k]) auto
    qed
    then show ?thesis using t p(5,6) u(3) by (auto simp: drained_def fun_eq_iff)
  qed
  ultimately show thesis using p(1) u e(1) that by blast
qed

lemma zfree_nozero_n_loop_drains:
  assumes "mach_ok s" "drainable (mheap s) st xs" "\<forall>st. zstack_empty st \<longleftrightarrow> z_count st = 0" "length xs < k"
  shows "\<exists>t. zfree_nozero_n_loop k zstack_empty st s = Done () (s\<lparr>mheap := t\<rparr>) \<and> drained (mheap s) t st xs"
  using assms
proof (induction xs arbitrary: s st k rule: rev_induct)
  case Nil
  then obtain j where "k = Suc j" by (cases k) auto
  with Nil drainable_nil [OF Nil(2)] show ?case
    by (intro exI [of _ "mheap s"]) (simp add: zstack_pop_def zstack_zero_def drained_def mach_ok_def mheap_self)
next
  case (snoc e xs)
  then obtain j where k: "k = Suc j" "length xs < j" by (cases k) auto
  obtain st' h u where r: "zstack_pop zstack_empty st s = Done (e, st') (s\<lparr>mheap := h\<rparr>)"
    "free e h = Done () u" "heap_wf u" "drainable u st' xs" "e \<noteq> 0"
    "\<And>t. drained u t st' xs \<Longrightarrow> drained (mheap s) t st (xs @ [e])"
    using drain_round [OF snoc.prems(1-3)] by metis
  have "mach_ok (s\<lparr>mheap := u\<rparr>)" using r(3) snoc.prems(1) by (simp add: mach_ok_def)
  from snoc.IH [OF this _ snoc.prems(3) k(2), of st'] r(4)
  obtain t where "zfree_nozero_n_loop j zstack_empty st' (s\<lparr>mheap := u\<rparr>) = Done () (s\<lparr>mheap := t\<rparr>)" "drained u t st' xs"
    by auto
  then show ?case using r k(1) by auto
qed

lemma drain_restores:
  assumes "stack_owns h0 h st xs n" "drained h t st xs" "no_leak h0 h st xs"
  shows "block_size t = block_size h0"
proof
  fix q
  have k: "keeps h0 h {}" using assms(1) by (simp add: stack_owns_def)
  show "block_size t q = block_size h0 q"
  proof (cases "q \<in> set xs \<or> q = z_head st")
    case True
    moreover have "block_size h 0 = None \<longrightarrow> block_size t 0 = None" using assms(2) by (simp add: drained_def)
    ultimately have "block_size h0 q = None" using assms(1) by (auto simp: stack_owns_def)
    moreover have "block_size t q = None"
    proof (cases "xs = []")
      case True
      then have "z_head st = 0" using assms(1) by (simp add: stack_owns_def stack_rep_def)
      moreover have "block_size t 0 = None" using assms(2) heap_wf_block_size [of t 0] by (cases "block_size t 0") (auto simp: drained_def)
      ultimately show ?thesis using \<open>q \<in> set xs \<or> q = z_head st\<close> True by auto
    next
      case False
      then show ?thesis using assms(2) \<open>q \<in> set xs \<or> q = z_head st\<close> by (auto simp: drained_def)
    qed
    ultimately show ?thesis by simp
  next
    case False
    then have t: "block_size t q = block_size h q" using assms(2) by (auto simp: drained_def)
    show ?thesis
    proof (cases "block_size h0 q")
      case None
      then show ?thesis using False assms(3) t by (auto simp: no_leak_def domIff)
    next
      case (Some m)
      then show ?thesis using k t by (simp add: keeps_def)
    qed
  qed
qed

lemma keeps_owned:
  assumes "keeps h t A" "\<forall>x \<in> A. block_size h x = None"
  shows "keeps h t {}"
  using assms unfolding keeps_def by (metis option.distinct(1))

lemma zalloc_n_owns:
  assumes "mach_ok s" "mfuzz s \<noteq> None" "xnu_zone_ok xnu" "unat zid < MAX_ZONES"
    and z: "zones s (zone_slot xnu (unat zid)) = Some r" "z_self r = zone_slot xnu (unat zid)"
  shows "\<exists>st t xs. zalloc_n xnu zid cnt flags s = Done st t \<and> mach_ok t \<and> zones t = zones s \<and>
     stack_owns (mheap s) (mheap t) st xs (unat (z_elem_size r)) \<and> length xs \<le> unat cnt \<and>
     (length xs = unat cnt \<longrightarrow> no_leak (mheap s) (mheap t) st xs)"
proof -
  have c: "ucast zid = (of_nat (unat zid) :: u64)" by simp
  have by_id: "zone_by_id xnu (ucast zid) s = Done (zone_slot xnu (unat zid)) s"
    unfolding c by (rule zone_by_id_used [OF z assms(4,3)])
  have z0: "block_size (mheap s) 0 = None"
    using assms(1) heap_wf_block_size [of "mheap s" 0] by (cases "block_size (mheap s) 0") (auto simp: mach_ok_def)
  have own: "stack_owns (mheap s) (mheap s) zstack_zero [] (unat (z_elem_size r))"
    using z0 by (simp add: stack_owns_def stack_rep_zero) (simp add: zstack_zero_def)
  have len: "length [] + unat cnt < 2 ^ 32" using unsigned_less [of cnt, where 'a = nat] by simp
  have leak: "no_leak (mheap s) (mheap s) zstack_zero []" by (auto simp: no_leak_def)
  from zalloc_n_loop_owns [OF assms(1,2) own len, of xnu flags] leak show ?thesis
    using by_id z assms(3) by (auto simp: zalloc_n_def)
qed

section \<open>Properties\<close>

text \<open>C17. A \<open>zstack\<close> is a stack. A push returns; it leaves the stack as it was when memory is short, and
  otherwise the elements are the old ones followed by the new one, so that the next pop returns exactly the
  pushed element and the stack holds the old elements again.\<close>

theorem zstack_push_pop:
  assumes "zstack_holds s st xs" and "length xs < 2 ^ 32 - 1" and "e < addr_limit"
  shows "\<exists>st' t. zstack_push st e s = Done st' t \<and>
     (st' = st \<and> zstack_holds t st xs \<or>
      zstack_holds t st' (xs @ [e]) \<and>
      (\<exists>st'' u. zstack_pop (\<lambda>st. z_count st = 0) st' t = Done (e, st'') u \<and> zstack_holds u st'' xs))"
proof -
  obtain st' t where "zstack_push st e s = Done st' t" "zstack_holds t st' (xs @ [e]) \<or> st' = st \<and> zstack_holds t st xs"
    using zstk.push_law [OF assms] by blast
  then show ?thesis using zstk.pop_law [of t st' xs e] by blast
qed

theorem zstack_push_pop_witness:
  "\<exists>st' t. zstack_push zstack_zero 77 (zstate_boot xnu_x86 [(64, \<lambda>_. 0)] None) = Done st' t \<and>
     zstack_holds t st' [77]"
proof -
  have h: "zstack_holds (zstate_boot xnu_x86 [(64, \<lambda>_. 0)] None) zstack_zero []"
    by (simp add: zstack_holds_def mach_ok_boot stack_rep_zero)
  have "zstack_push zstack_zero 77 (zstate_boot xnu_x86 [(64, \<lambda>_. 0)] None) \<noteq> Done zstack_zero t" for t
    by (simp add: zstack_push_def zstack_zero_def zstate_boot_def realloc_def malloc_def alloc_aligned_def
        legal_block_def addr_limit_def store64_def store_at_def in_block_def)
  then show ?thesis
    using zstack_push_pop [OF h, of 77] by (auto simp: addr_limit_def)
qed

text \<open>C7. \<open>zalloc_n\<close> followed by \<open>zfree_nozero_n\<close>. On an initialised zone, \<open>zalloc_n\<close> returns a stack of at
  most the requested number of different new blocks of the zone's element size and changes no other block;
  \<open>zfree_nozero_n\<close> then returns as well and frees every element and the stack itself. When the full
  number was granted, the live blocks are again exactly the ones before.\<close>

theorem zalloc_n_zfree_n_roundtrip:
  fixes s :: "'z zstate_scheme"
  assumes ok: "mach_ok s" "mfuzz s \<noteq> None" "xnu_zone_ok xnu" "unat zid < MAX_ZONES"
    and z: "zones s (zone_slot xnu (unat zid)) = Some r" "z_self r = zone_slot xnu (unat zid)"
    and emp: "\<forall>st. zstack_empty st \<longleftrightarrow> z_count st = 0"
  shows "\<exists>st t xs u. zalloc_n xnu zid cnt flags s = Done st t \<and> zstack_holds t st xs \<and>
     length xs \<le> unat cnt \<and> distinct xs \<and>
     (\<forall>x \<in> set xs. live_blocks s x = None \<and> live_blocks t x = Some (unat (z_elem_size r))) \<and>
     keeps (mheap s) (mheap t) {} \<and>
     zfree_nozero_n zstack_empty zid st t = Done () u \<and> keeps (mheap s) (mheap u) {} \<and>
     (\<forall>x \<in> set xs. live_blocks u x = None) \<and>
     (length xs = unat cnt \<longrightarrow> live_blocks u = live_blocks s)"
proof -
  obtain st t xs where t: "zalloc_n xnu zid cnt flags s = Done st t" "mach_ok t" "length xs \<le> unat cnt"
    and own: "stack_owns (mheap s) (mheap t) st xs (unat (z_elem_size r))"
    and tight: "length xs = unat cnt \<longrightarrow> no_leak (mheap s) (mheap t) st xs"
    using zalloc_n_owns [OF ok z, of cnt flags] by blast
  have rep: "stack_rep (mheap t) st xs" and k: "keeps (mheap s) (mheap t) {}" using own by (auto simp: stack_owns_def)
  then have cnt: "length xs < unat (z_count st) + 1" by (simp add: stack_rep_def)
  obtain h where h: "zfree_nozero_n zstack_empty zid st t = Done () (t\<lparr>mheap := h\<rparr>)" "drained (mheap t) h st xs"
    using zfree_nozero_n_loop_drains [OF t(2) stack_owns_drainable [OF own] emp cnt] by (auto simp: zfree_nozero_n_def)
  have kept: "keeps (mheap s) h {}"
    using keeps_trans [OF k, of h "insert (z_head st) (set xs)"] h(2) own
    by (intro keeps_owned) (auto simp: drained_def stack_owns_def)
  have "block_size h = block_size (mheap s)" if "length xs = unat cnt"
    using drain_restores [OF own h(2)] tight that by blast
  then show ?thesis
    using t h own rep k kept
    by (intro exI [of _ st] exI [of _ t] exI [of _ xs] exI [of _ "t\<lparr>mheap := h\<rparr>"])
       (auto simp: zstack_holds_def stack_owns_def live_blocks_def drained_def)
qed

definition zstate_slot40 :: "(ptr \<times> (nat \<Rightarrow> u8)) list \<Rightarrow> u8 list \<Rightarrow> zstate" where
  "zstate_slot40 cs bs = (zstate_boot xnu_x86 cs (Some (byte_fdp bs)))
     \<lparr>zones := [zone_slot xnu_x86 40 \<mapsto> zone_zero\<lparr>z_self := zone_slot xnu_x86 40, z_elem_size := 48\<rparr>]\<rparr>"

lemma zstate_slot40_ok:
  "mach_ok (zstate_slot40 cs bs)" "mfuzz (zstate_slot40 cs bs) = Some (byte_fdp bs)"
  "zones (zstate_slot40 cs bs) (zone_slot xnu_x86 (unat (40 :: u16)))
   = Some (zone_zero\<lparr>z_self := zone_slot xnu_x86 40, z_elem_size := 48\<rparr>)"
  by (simp_all add: zstate_slot40_def zstate_boot_def mach_ok_def heap_wf_def fuzz_ok_def byte_fdp_ok)

theorem zalloc_n_zfree_n_roundtrip_witness:
  "\<exists>st t xs u. zalloc_n xnu_x86 40 2 8 (zstate_slot40 [(64, \<lambda>_. 0), (128, \<lambda>_. 0)] []) = Done st t \<and>
     zstack_holds t st xs \<and> length xs \<le> 2 \<and>
     zfree_nozero_n (\<lambda>st. z_count st = 0) 40 st t = Done () u \<and>
     (length xs = 2 \<longrightarrow> live_blocks u = live_blocks (zstate_slot40 [(64, \<lambda>_. 0), (128, \<lambda>_. 0)] []))"
proof -
  let ?s = "zstate_slot40 [(64, \<lambda>_. 0), (128, \<lambda>_. 0)] []"
  have "unat (40 :: u16) < MAX_ZONES" by (simp add: MAX_ZONES_def)
  then have "\<exists>st t xs u. zalloc_n xnu_x86 40 2 8 ?s = Done st t \<and> zstack_holds t st xs \<and>
     length xs \<le> unat (2 :: u32) \<and> distinct xs \<and>
     (\<forall>x \<in> set xs. live_blocks ?s x = None \<and> live_blocks t x = Some (unat (48 :: u16))) \<and>
     keeps (mheap ?s) (mheap t) {} \<and>
     zfree_nozero_n (\<lambda>st. z_count st = 0) 40 st t = Done () u \<and> keeps (mheap ?s) (mheap u) {} \<and>
     (\<forall>x \<in> set xs. live_blocks u x = None) \<and> (length xs = unat (2 :: u32) \<longrightarrow> live_blocks u = live_blocks ?s)"
    using zalloc_n_zfree_n_roundtrip [OF zstate_slot40_ok(1) _ xnu_x86_ok, of "[(64, \<lambda>_. 0), (128, \<lambda>_. 0)]" "[]" 40
        "zone_zero\<lparr>z_self := zone_slot xnu_x86 40, z_elem_size := 48\<rparr>" "\<lambda>st. z_count st = 0" 2 8]
      zstate_slot40_ok(2,3) by simp
  then show ?thesis by (elim exE conjE, intro exI conjI) simp_all
qed

text \<open>The simulated failures of \<open>zalloc_n\<close>. Without \<open>Z_NOFAIL\<close>, a first fuzzed digit other than 0
  makes \<open>zalloc_n\<close> return the empty stack without trying to allocate: of the ten values the digit can
  take, nine fail.\<close>

lemma zalloc_n_fails_nine_in_ten:
  assumes "xnu_zone_ok xnu" "unat zid < MAX_ZONES" "0 < cnt" "\<not> has_flag flags (Z_NOFAIL xnu)"
    and "zones s (zone_slot xnu (unat zid)) = Some r" "z_self r = zone_slot xnu (unat zid)"
    and "GetFuzzedUint32InRange 0 9 (mfuzz s) = Done v f" and "v \<noteq> 0"
  shows "zalloc_n xnu zid cnt flags s = Done zstack_zero (s\<lparr>mfuzz := f\<rparr>)"
proof -
  have c: "ucast zid = (of_nat (unat zid) :: u64)" by simp
  have by_id: "zone_by_id xnu (ucast zid) s = Done (zone_slot xnu (unat zid)) s"
    unfolding c by (rule zone_by_id_used [OF assms(5,6,2,1)])
  obtain k where "unat cnt = Suc k" using assms(3) by (cases "unat cnt") (auto simp: word_less_nat_alt)
  then show ?thesis using by_id assms by (simp add: zalloc_n_def zalloc_n_elem_def)
qed

lemma zalloc_n_fails_nine_in_ten_witness:
  "zalloc_n xnu_x86 40 5 0 (zstate_slot40 [(64, \<lambda>_. 0)] [3])
   = Done zstack_zero ((zstate_slot40 [(64, \<lambda>_. 0)] [3])\<lparr>mfuzz := Some (byte_fdp [])\<rparr>)"
proof -
  have m: "unat (40 :: u16) < MAX_ZONES" by (simp add: MAX_ZONES_def)
  have d: "GetFuzzedUint32InRange 0 9 (mfuzz (zstate_slot40 [(64, \<lambda>_. 0)] [3])) = Done 3 (Some (byte_fdp []))"
    by (simp add: zstate_slot40_ok(2) GetFuzzedUint32InRange_def byte_in_def)
  show ?thesis
    using zalloc_n_fails_nine_in_ten [OF xnu_x86_ok m _ _ zstate_slot40_ok(3) _ d, of 5 0]
    by (simp add: has_flag_def)
qed

end
