(* ===== verification/RootDevice.thy ===== *)
theory RootDevice
  imports Machine
begin

text \<open>
  The root device and the network interface the fuzzer boots with, \<open>fuzz/xnu/bsd/fakes/root_device.c\<close>. The interface is
  allocated and attached first; then a block and a character device are registered, and the root device is the block device
  with minor number 0. The registries of XNU are parameters; device switches and interface parameters are records of the
  operations the file gives.
\<close>

section \<open>State and parameters\<close>

record rstate = mach +
  fuzzed_ifp :: ptr
  rootdev :: u32
  rootdevice :: string

datatype d_type = D_DISK

datatype dev_op = Fuzzed_open | Fuzzed_close | Fuzzed_strategy | Fuzzed_ioctl | Fuzzed_psize | Fuzzed_read | Fuzzed_write |
  Eno_dump | Eno_stop | Eno_reset | Eno_select | Eno_mmap | Eno_strat | Eno_getc | Eno_putc

record bdevsw =
  bd_open :: dev_op
  bd_close :: dev_op
  bd_strategy :: dev_op
  bd_ioctl :: dev_op
  bd_dump :: dev_op
  bd_psize :: dev_op
  bd_type :: d_type

record cdevsw =
  cd_open :: dev_op
  cd_close :: dev_op
  cd_read :: dev_op
  cd_write :: dev_op
  cd_ioctl :: dev_op
  cd_stop :: dev_op
  cd_reset :: dev_op
  cd_ttys :: ptr
  cd_select :: dev_op
  cd_mmap :: dev_op
  cd_strategy :: dev_op
  cd_reserved_1 :: dev_op
  cd_reserved_2 :: dev_op
  cd_type :: d_type

datatype if_op = Fuzzed_output | Fuzzed_demux | Fuzzed_add_proto | Fuzzed_del_proto | Fuzzed_check_multi | Fuzzed_ifnet_ioctl

record ifnet_init_params =
  if_name :: string
  if_unit :: u32
  if_family :: u32
  if_type :: u32
  if_output :: if_op
  if_demux :: if_op
  if_add_proto :: if_op
  if_del_proto :: if_op
  if_check_multi :: if_op
  if_ioctl :: if_op
  if_broadcast_addr :: ptr
  if_broadcast_len :: u32

record 'z xnu_dev =
  buf_biodone :: "ptr \<Rightarrow> (unit, 'z rstate_scheme) prog"
  m_freem :: "ptr \<Rightarrow> (unit, 'z rstate_scheme) prog"
  ifnet_allocate :: "ifnet_init_params \<Rightarrow> ptr \<Rightarrow> (int \<times> ptr, 'z rstate_scheme) prog"
  ifnet_set_flags :: "ptr \<Rightarrow> u32 \<Rightarrow> u32 \<Rightarrow> (unit, 'z rstate_scheme) prog"
  ifnet_set_baudrate :: "ptr \<Rightarrow> u64 \<Rightarrow> (unit, 'z rstate_scheme) prog"
  ifnet_attach :: "ptr \<Rightarrow> ptr \<Rightarrow> (int, 'z rstate_scheme) prog"
  ifnet_release :: "ptr \<Rightarrow> (unit, 'z rstate_scheme) prog"
  bdevsw_add :: "int \<Rightarrow> bdevsw \<Rightarrow> (int, 'z rstate_scheme) prog"
  cdevsw_add_with_bdev :: "int \<Rightarrow> cdevsw \<Rightarrow> int \<Rightarrow> (int, 'z rstate_scheme) prog"
  makedev :: "int \<Rightarrow> int \<Rightarrow> u32"
  SIOCSIFFLAGS :: u64
  IFNET_FAMILY_ETHERNET :: u32
  IFT_ETHER :: u32
  IFF_UP :: u32
  IFF_RUNNING :: u32
  IFF_BROADCAST :: u32
  IFF_SIMPLEX :: u32
  IFF_MULTICAST :: u32
  EOPNOTSUPP :: int

section \<open>Device operations\<close>

definition dev_fuzzed_open :: "u32 \<Rightarrow> int \<Rightarrow> int \<Rightarrow> ptr \<Rightarrow> (int, 's) prog" where
  "dev_fuzzed_open dev flags devtype p = retM 0"

definition dev_fuzzed_close :: "u32 \<Rightarrow> int \<Rightarrow> int \<Rightarrow> ptr \<Rightarrow> (int, 's) prog" where
  "dev_fuzzed_close dev flags devtype p = retM 0"

definition dev_fuzzed_strategy :: "'z xnu_dev \<Rightarrow> ptr \<Rightarrow> (unit, 'z rstate_scheme) prog" where
  "dev_fuzzed_strategy xd bp = buf_biodone xd bp"

definition dev_fuzzed_ioctl :: "u32 \<Rightarrow> u64 \<Rightarrow> ptr \<Rightarrow> int \<Rightarrow> ptr \<Rightarrow> (int, 's) prog" where
  "dev_fuzzed_ioctl dev cmd data fflag p = retM 0"

definition dev_fuzzed_psize :: "u32 \<Rightarrow> (int, 's) prog" where
  "dev_fuzzed_psize dev = retM 0"

definition dev_fuzzed_read :: "u32 \<Rightarrow> ptr \<Rightarrow> int \<Rightarrow> (int, 's) prog" where
  "dev_fuzzed_read dev uio ioflag = retM 0"

definition dev_fuzzed_write :: "u32 \<Rightarrow> ptr \<Rightarrow> int \<Rightarrow> (int, 's) prog" where
  "dev_fuzzed_write dev uio ioflag = retM 0"

definition fuzzed_bdevsw :: bdevsw where
  "fuzzed_bdevsw = \<lparr>bd_open = Fuzzed_open, bd_close = Fuzzed_close, bd_strategy = Fuzzed_strategy, bd_ioctl = Fuzzed_ioctl,
     bd_dump = Eno_dump, bd_psize = Fuzzed_psize, bd_type = D_DISK\<rparr>"

definition fuzzed_cdevsw :: cdevsw where
  "fuzzed_cdevsw = \<lparr>cd_open = Fuzzed_open, cd_close = Fuzzed_close, cd_read = Fuzzed_read, cd_write = Fuzzed_write,
     cd_ioctl = Fuzzed_ioctl, cd_stop = Eno_stop, cd_reset = Eno_reset, cd_ttys = 0, cd_select = Eno_select, cd_mmap = Eno_mmap,
     cd_strategy = Eno_strat, cd_reserved_1 = Eno_getc, cd_reserved_2 = Eno_putc, cd_type = D_DISK\<rparr>"

section \<open>The interface\<close>

definition fuzzed_output :: "'z xnu_dev \<Rightarrow> ptr \<Rightarrow> ptr \<Rightarrow> (int, 'z rstate_scheme) prog" where
  "fuzzed_output xd interface m = thenM (m_freem xd m) (retM 0)"

definition fuzzed_demux :: "'z xnu_dev \<Rightarrow> ptr \<Rightarrow> ptr \<Rightarrow> ptr \<Rightarrow> (int, 'z rstate_scheme) prog" where
  "fuzzed_demux xd interface m header = retM (EOPNOTSUPP xd)"

definition fuzzed_add_proto :: "ptr \<Rightarrow> u32 \<Rightarrow> ptr \<Rightarrow> u32 \<Rightarrow> (int, 's) prog" where
  "fuzzed_add_proto interface protocol_family demux_list demux_count = retM 0"

definition fuzzed_del_proto :: "ptr \<Rightarrow> u32 \<Rightarrow> (int, 's) prog" where
  "fuzzed_del_proto interface protocol_family = retM 0"

definition fuzzed_check_multi :: "ptr \<Rightarrow> ptr \<Rightarrow> (int, 's) prog" where
  "fuzzed_check_multi interface multicast = retM 0"

definition fuzzed_ifnet_ioctl :: "'z xnu_dev \<Rightarrow> ptr \<Rightarrow> u64 \<Rightarrow> ptr \<Rightarrow> (int, 'z rstate_scheme) prog" where
  "fuzzed_ifnet_ioctl xd interface cmd data =
     (if cmd = SIOCSIFFLAGS xd
      then thenM (ifnet_set_flags xd interface (IFF_UP xd OR IFF_RUNNING xd) (IFF_UP xd OR IFF_RUNNING xd)) (retM 0)
      else retM (EOPNOTSUPP xd))"

definition fuzzed_params :: "'z xnu_dev \<Rightarrow> ifnet_init_params" where
  "fuzzed_params xd = \<lparr>if_name = ''fuzzed'', if_unit = 0, if_family = IFNET_FAMILY_ETHERNET xd, if_type = IFT_ETHER xd,
     if_output = Fuzzed_output, if_demux = Fuzzed_demux, if_add_proto = Fuzzed_add_proto, if_del_proto = Fuzzed_del_proto,
     if_check_multi = Fuzzed_check_multi, if_ioctl = Fuzzed_ifnet_ioctl, if_broadcast_addr = 0, if_broadcast_len = 0\<rparr>"

text \<open>\<open>ifnet_allocate\<close> gets what \<open>fuzzed_ifp\<close> holds and gives its new content.\<close>

definition fuzzed_initialize :: "'z xnu_dev \<Rightarrow> (unit, 'z rstate_scheme) prog" where
  "fuzzed_initialize xd =
     bindM (getsM fuzzed_ifp) (\<lambda>old. bindM (ifnet_allocate xd (fuzzed_params xd) old) (\<lambda>(err, ifp).
     thenM (modifyM (\<lambda>s. s\<lparr>fuzzed_ifp := ifp\<rparr>))
    (if err \<noteq> 0 then retM ()
     else thenM (ifnet_set_flags xd ifp (IFF_BROADCAST xd OR IFF_SIMPLEX xd OR IFF_MULTICAST xd) 0)
         (thenM (ifnet_set_baudrate xd ifp 0)
         (bindM (ifnet_attach xd ifp 0) (\<lambda>err.
            whenM (err \<noteq> 0) (thenM (ifnet_release xd ifp) (modifyM (\<lambda>s. s\<lparr>fuzzed_ifp := 0\<rparr>)))))))))"

definition KERN_FAILURE :: int where "KERN_FAILURE = 5"

text \<open>\<open>snprintf\<close> of \<open>"fuzzed%d"\<close> with 0 writes 7 characters, which fit in the 32 bytes of \<open>rootdevice\<close>: its error branch is never taken.\<close>

definition IOFindBSDRoot :: "'z xnu_dev \<Rightarrow> (int, 'z rstate_scheme) prog" where
  "IOFindBSDRoot xd =
     thenM (fuzzed_initialize xd)
    (bindM (bdevsw_add xd (- 1) fuzzed_bdevsw) (\<lambda>bmajor.
       if bmajor < 0 then retM KERN_FAILURE
       else bindM (cdevsw_add_with_bdev xd (- 1) fuzzed_cdevsw bmajor) (\<lambda>cmajor.
         if cmajor < 0 then retM KERN_FAILURE
         else thenM (modifyM (\<lambda>s. s\<lparr>rootdevice := ''fuzzed0''\<rparr>))
             (thenM (modifyM (\<lambda>s. s\<lparr>rootdev := makedev xd bmajor 0\<rparr>)) (retM 0)))))"

section \<open>Facts\<close>

text \<open>The boot succeeds exactly when both devices can be registered, whatever becomes of the interface; then the root device is
  the block device. A refusal leaves the root device as it was. The registries of XNU are assumed to return and to leave the
  variables of this file alone.\<close>

lemma IOFindBSDRoot_outcome:
  assumes i: "fuzzed_initialize xd s = Done () t" "rootdev t = rootdev s"
    and b: "bdevsw_add xd (- 1) fuzzed_bdevsw t = Done bmajor t"
    and c: "cdevsw_add_with_bdev xd (- 1) fuzzed_cdevsw bmajor t = Done cmajor t"
  shows "\<exists>u. IOFindBSDRoot xd s = Done (if 0 \<le> bmajor \<and> 0 \<le> cmajor then 0 else KERN_FAILURE) u \<and>
     rootdev u = (if 0 \<le> bmajor \<and> 0 \<le> cmajor then makedev xd bmajor 0 else rootdev s) \<and> fuzzed_ifp u = fuzzed_ifp t"
  using assms by (simp add: IOFindBSDRoot_def)

lemma failed_attach_clears:
  assumes "ifnet_allocate xd (fuzzed_params xd) (fuzzed_ifp s) s = Done (0, ifp) s" "\<And>a b u. ifnet_set_flags xd ifp a b u = Done () u"
    "\<And>a u. ifnet_set_baudrate xd ifp a u = Done () u" "\<And>u. ifnet_attach xd ifp 0 u = Done err u" "\<And>u. ifnet_release xd ifp u = Done () u"
  shows "fuzzed_initialize xd s = Done () (s\<lparr>fuzzed_ifp := if err = 0 then ifp else 0\<rparr>)"
  using assms by (simp add: fuzzed_initialize_def)

end
