(* ===== verification/Vfs.thy ===== *)
theory Vfs
  imports Copyio
begin

text \<open>
  The fuzzed file system, \<open>fuzz/xnu/bsd/fakes/vfs.c\<close>: the operations on a mount, the operations on a vnode, and the two
  tables that hand them to XNU. Vnodes and attribute structures are objects of XNU that the operations write; the pointers in
  the argument structures are the arguments of the definitions.
\<close>

section \<open>State and parameters\<close>

record vnode =
  v_mount :: ptr
  v_op :: ptr

record vnode_attr =
  va_supported :: u64
  va_type :: u32
  va_mode :: u32
  va_acl :: ptr
  va_data_size :: u64

record vstate = host +
  vnodes :: "ptr \<rightharpoonup> vnode"
  vattrs :: "ptr \<rightharpoonup> vnode_attr"

record vnode_fsparam =
  vnfs_mp :: ptr
  vnfs_str :: string
  vnfs_vtype :: u32
  vnfs_dvp :: ptr
  vnfs_fsnode :: ptr
  vnfs_vops :: ptr
  vnfs_markroot :: bool
  vnfs_marksystem :: bool
  vnfs_rdev :: u32
  vnfs_filesize :: u64
  vnfs_cnp :: ptr
  vnfs_flags :: u32

record 'z xnu_vfs =
  vnode_create :: "vnode_fsparam \<Rightarrow> ptr \<Rightarrow> (int, 'z vstate_scheme) prog"
  fuzzed_vnodeop_p :: ptr
  uiomove :: "ptr \<Rightarrow> nat \<Rightarrow> ptr \<Rightarrow> (unit, 'z vstate_scheme) prog"
  vnode_isrecycled :: "ptr \<Rightarrow> (bool, 'z vstate_scheme) prog"
  vnode_recycle :: "ptr \<Rightarrow> (unit, 'z vstate_scheme) prog"
  VREG :: u32
  VNFS_CANTCACHE :: u32
  VNFS_NOCACHE :: u32

definition EINVAL :: int where "EINVAL = 22"
definition ENOTSUP :: int where "ENOTSUP = 45"

section \<open>Mount operations\<close>

definition fuzzed_mount :: "ptr \<Rightarrow> ptr \<Rightarrow> u64 \<Rightarrow> (int, 's) prog" where "fuzzed_mount mp devvp data = retM 0"

definition fuzzed_start :: "ptr \<Rightarrow> int \<Rightarrow> (int, 's) prog" where "fuzzed_start mp flags = retM 0"

definition fuzzed_unmount :: "ptr \<Rightarrow> int \<Rightarrow> (int, 's) prog" where "fuzzed_unmount mp mntflags = retM 0"

definition fuzzed_root :: "'z xnu_vfs \<Rightarrow> ptr \<Rightarrow> ptr \<Rightarrow> (int, 'z vstate_scheme) prog" where
  "fuzzed_root xv mp vpp =
     (if vpp = 0 then retM EINVAL
      else vnode_create xv
        \<lparr>vnfs_mp = mp, vnfs_str = ''fuzzed_vnfs'', vnfs_vtype = VREG xv, vnfs_dvp = 0, vnfs_fsnode = 1, vnfs_vops = fuzzed_vnodeop_p xv,
         vnfs_markroot = True, vnfs_marksystem = False, vnfs_rdev = 0, vnfs_filesize = 1024, vnfs_cnp = 0,
         vnfs_flags = VNFS_CANTCACHE xv OR VNFS_NOCACHE xv\<rparr> vpp)"

definition fuzzed_quotactl :: "ptr \<Rightarrow> int \<Rightarrow> u32 \<Rightarrow> ptr \<Rightarrow> (int, 's) prog" where "fuzzed_quotactl mp cmds uid arg = retM 0"

definition fuzzed_getattr :: "ptr \<Rightarrow> ptr \<Rightarrow> (int, 's) prog" where "fuzzed_getattr mp attr = retM 0"

definition fuzzed_sync :: "ptr \<Rightarrow> int \<Rightarrow> (int, 's) prog" where "fuzzed_sync mp waitfor = retM 0"

definition fuzzed_vget :: "ptr \<Rightarrow> u64 \<Rightarrow> ptr \<Rightarrow> (int, 's) prog" where "fuzzed_vget mp ino vpp = abortM"

definition fuzzed_fhtovp :: "ptr \<Rightarrow> int \<Rightarrow> ptr \<Rightarrow> ptr \<Rightarrow> (int, 's) prog" where "fuzzed_fhtovp mp fhlen fhp vpp = abortM"

definition fuzzed_vptofh :: "ptr \<Rightarrow> ptr \<Rightarrow> ptr \<Rightarrow> (int, 's) prog" where "fuzzed_vptofh vp fhlen fhp = abortM"

definition fuzzed_init :: "ptr \<Rightarrow> (int, 's) prog" where "fuzzed_init conf = retM 0"

definition fuzzed_sysctl :: "ptr \<Rightarrow> u32 \<Rightarrow> u64 \<Rightarrow> ptr \<Rightarrow> u64 \<Rightarrow> nat \<Rightarrow> (int, 's) prog" where
  "fuzzed_sysctl a1 a2 a3 a4 a5 a6 = retM 0"

definition fuzzed_setattr :: "ptr \<Rightarrow> ptr \<Rightarrow> (int, 's) prog" where "fuzzed_setattr mp a2 = abortM"

definition vfs_fuzzed_ioctl :: "ptr \<Rightarrow> u64 \<Rightarrow> ptr \<Rightarrow> int \<Rightarrow> (int, 's) prog" where "vfs_fuzzed_ioctl mp command data flags = retM 0"

definition fuzzed_vget_snapdir :: "ptr \<Rightarrow> ptr \<Rightarrow> (int, 's) prog" where "fuzzed_vget_snapdir mp vpp = retM 1"

definition fuzzed_mountroot :: "ptr \<Rightarrow> ptr \<Rightarrow> (int, 's) prog" where "fuzzed_mountroot mp rvp = retM 0"

record 'z vfsops =
  vfs_mount :: "ptr \<Rightarrow> ptr \<Rightarrow> u64 \<Rightarrow> (int, 'z vstate_scheme) prog"
  vfs_start :: "ptr \<Rightarrow> int \<Rightarrow> (int, 'z vstate_scheme) prog"
  vfs_unmount :: "ptr \<Rightarrow> int \<Rightarrow> (int, 'z vstate_scheme) prog"
  vfs_root :: "ptr \<Rightarrow> ptr \<Rightarrow> (int, 'z vstate_scheme) prog"
  vfs_quotactl :: "ptr \<Rightarrow> int \<Rightarrow> u32 \<Rightarrow> ptr \<Rightarrow> (int, 'z vstate_scheme) prog"
  vfs_getattr :: "ptr \<Rightarrow> ptr \<Rightarrow> (int, 'z vstate_scheme) prog"
  vfs_sync :: "ptr \<Rightarrow> int \<Rightarrow> (int, 'z vstate_scheme) prog"
  vfs_vget :: "ptr \<Rightarrow> u64 \<Rightarrow> ptr \<Rightarrow> (int, 'z vstate_scheme) prog"
  vfs_fhtovp :: "ptr \<Rightarrow> int \<Rightarrow> ptr \<Rightarrow> ptr \<Rightarrow> (int, 'z vstate_scheme) prog"
  vfs_vptofh :: "ptr \<Rightarrow> ptr \<Rightarrow> ptr \<Rightarrow> (int, 'z vstate_scheme) prog"
  vfs_init :: "ptr \<Rightarrow> (int, 'z vstate_scheme) prog"
  vfs_sysctl :: "ptr \<Rightarrow> u32 \<Rightarrow> u64 \<Rightarrow> ptr \<Rightarrow> u64 \<Rightarrow> nat \<Rightarrow> (int, 'z vstate_scheme) prog"
  vfs_setattr :: "ptr \<Rightarrow> ptr \<Rightarrow> (int, 'z vstate_scheme) prog"
  vfs_ioctl :: "ptr \<Rightarrow> u64 \<Rightarrow> ptr \<Rightarrow> int \<Rightarrow> (int, 'z vstate_scheme) prog"
  vfs_vget_snapdir :: "ptr \<Rightarrow> ptr \<Rightarrow> (int, 'z vstate_scheme) prog"

definition fuzzed_vfsops :: "'z xnu_vfs \<Rightarrow> 'z vfsops" where
  "fuzzed_vfsops xv = \<lparr>vfs_mount = fuzzed_mount, vfs_start = fuzzed_start, vfs_unmount = fuzzed_unmount, vfs_root = fuzzed_root xv,
     vfs_quotactl = fuzzed_quotactl, vfs_getattr = fuzzed_getattr, vfs_sync = fuzzed_sync, vfs_vget = fuzzed_vget,
     vfs_fhtovp = fuzzed_fhtovp, vfs_vptofh = fuzzed_vptofh, vfs_init = fuzzed_init, vfs_sysctl = fuzzed_sysctl,
     vfs_setattr = fuzzed_setattr, vfs_ioctl = vfs_fuzzed_ioctl, vfs_vget_snapdir = fuzzed_vget_snapdir\<rparr>"

section \<open>Vnode operations\<close>

definition unsupported_function :: "(int, 's) prog" where "unsupported_function = abortM"

definition nop_function :: "(int, 's) prog" where "nop_function = retM ENOTSUP"

definition fuzzed_pagein :: "(int, 'z vstate_scheme) prog" where
  "fuzzed_pagein = bindM (fuzzM GetFuzzedBool) (\<lambda>b. retM (if b then 1 else 0))"

text \<open>\<open>S_IXUSR | S_IXGRP | S_IXOTH\<close> is octal 111.\<close>

definition fuzzed_vnop_getattr :: "'z xnu_vfs \<Rightarrow> ptr \<Rightarrow> (int, 'z vstate_scheme) prog" where
  "fuzzed_vnop_getattr xv vap = (\<lambda>s. case vattrs s vap of None \<Rightarrow> Stopped MemFault
     | Some a \<Rightarrow> Done 0 (s\<lparr>vattrs := (vattrs s)(vap \<mapsto> a\<lparr>va_supported := 0xFFFFFFFFFFFFFFFF, va_type := VREG xv,
         va_mode := 0x49, va_acl := 0, va_data_size := 1024\<rparr>)\<rparr>))"

text \<open>The value stored through \<open>a_retval\<close> comes with the result.\<close>

definition fuzzed_pathconf :: "(int \<times> u32, 'z vstate_scheme) prog" where
  "fuzzed_pathconf = bindM (fuzzM (GetFuzzedUint32InRange 0 0xFFFFFFFF)) (\<lambda>v. retM (0, v))"

definition vnop_fuzzed_open :: "(int, 's) prog" where "vnop_fuzzed_open = retM 0"

definition vnop_fuzzed_close :: "(int, 's) prog" where "vnop_fuzzed_close = retM 0"

definition fuzzed_mmap_check :: "(int, 's) prog" where "fuzzed_mmap_check = retM 0"

definition fuzzed_fsync :: "(int, 's) prog" where "fuzzed_fsync = retM 0"

definition vnop_fuzzed_read :: "'z xnu_vfs \<Rightarrow> ptr \<Rightarrow> (int, 'z vstate_scheme) prog" where
  "vnop_fuzzed_read xv a_uio =
     bindM (heapM (malloc 1024)) (\<lambda>buffer.
     let length = (if buffer = 0 then 0 else 1024) in
     thenM (fuzzed_copy buffer length)
    (thenM BlockCopyin
    (thenM (uiomove xv buffer length a_uio)
    (thenM UnblockCopyin (retM 0)))))"

definition fuzzed_vnop_inactive :: "'z xnu_vfs \<Rightarrow> ptr \<Rightarrow> (int, 'z vstate_scheme) prog" where
  "fuzzed_vnop_inactive xv vp =
     bindM (vnode_isrecycled xv vp) (\<lambda>b. if b then retM 0 else thenM (vnode_recycle xv vp) (retM 0))"

definition fuzzed_vnop_reclaim :: "ptr \<Rightarrow> (int, 'z vstate_scheme) prog" where
  "fuzzed_vnop_reclaim vp = (\<lambda>s. case vnodes s vp of None \<Rightarrow> Stopped MemFault
     | Some v \<Rightarrow> Done 0 (s\<lparr>vnodes := (vnodes s)(vp \<mapsto> v\<lparr>v_mount := 0, v_op := 0\<rparr>)\<rparr>))"

section \<open>The table of vnode operations\<close>

datatype vnop = Vnop_default | Vnop_lookup | Vnop_create | Vnop_open | Vnop_mknod | Vnop_close | Vnop_access | Vnop_getattr |
  Vnop_setattr | Vnop_read | Vnop_write | Vnop_ioctl | Vnop_select | Vnop_mmap_check | Vnop_mmap | Vnop_fsync | Vnop_remove |
  Vnop_link | Vnop_rename | Vnop_mkdir | Vnop_rmdir | Vnop_symlink | Vnop_readdir | Vnop_readlink | Vnop_inactive | Vnop_reclaim |
  Vnop_strategy | Vnop_pathconf | Vnop_advlock | Vnop_bwrite | Vnop_monitor | Vnop_mnomap | Vnop_pagein | Vnop_pageout |
  Vnop_copyfile | Vnop_blktooff | Vnop_offtoblk | Vnop_blockmap | Vnop_getxattr | Vnop_listxattr | Vnop_setxattr | Vnop_removexattr

datatype vnop_impl = Unsupported | Nop | Open_impl | Close_impl | Getattr_impl | Read_impl | Mmap_check_impl | Fsync_impl |
  Inactive_impl | Reclaim_impl | Pathconf_impl | Pagein_impl

definition fuzzed_vnodeop_entries :: "(vnop \<times> vnop_impl) list" where
  "fuzzed_vnodeop_entries =
    [(Vnop_default, Unsupported), (Vnop_lookup, Unsupported), (Vnop_create, Unsupported), (Vnop_open, Open_impl),
     (Vnop_mknod, Unsupported), (Vnop_close, Close_impl), (Vnop_access, Unsupported), (Vnop_getattr, Getattr_impl),
     (Vnop_setattr, Nop), (Vnop_read, Read_impl), (Vnop_write, Unsupported), (Vnop_ioctl, Nop), (Vnop_select, Unsupported),
     (Vnop_mmap_check, Mmap_check_impl), (Vnop_mmap, Nop), (Vnop_fsync, Fsync_impl), (Vnop_remove, Unsupported),
     (Vnop_link, Unsupported), (Vnop_rename, Unsupported), (Vnop_mkdir, Unsupported), (Vnop_rmdir, Unsupported),
     (Vnop_symlink, Unsupported), (Vnop_readdir, Unsupported), (Vnop_readlink, Unsupported), (Vnop_inactive, Inactive_impl),
     (Vnop_reclaim, Reclaim_impl), (Vnop_strategy, Unsupported), (Vnop_pathconf, Pathconf_impl), (Vnop_advlock, Nop),
     (Vnop_bwrite, Unsupported), (Vnop_monitor, Nop), (Vnop_mnomap, Nop), (Vnop_select, Nop), (Vnop_pagein, Pagein_impl),
     (Vnop_pageout, Unsupported), (Vnop_copyfile, Unsupported), (Vnop_blktooff, Unsupported), (Vnop_offtoblk, Nop),
     (Vnop_blockmap, Unsupported), (Vnop_getxattr, Nop), (Vnop_listxattr, Nop), (Vnop_setxattr, Nop), (Vnop_removexattr, Nop)]"

section \<open>Facts\<close>

text \<open>\<open>vnop_select\<close> is the one operation with two entries, and they disagree.\<close>

lemma vnodeop_entries_duplicate:
  "op \<in> set (map fst fuzzed_vnodeop_entries) \<Longrightarrow> length (filter (\<lambda>e. fst e = op) fuzzed_vnodeop_entries) = (if op = Vnop_select then 2 else 1)"
  "(Vnop_select, Unsupported) \<in> set fuzzed_vnodeop_entries \<and> (Vnop_select, Nop) \<in> set fuzzed_vnodeop_entries"
  by (auto simp: fuzzed_vnodeop_entries_def)

text \<open>A read gets its buffer from the C heap and never frees it: when memory is there, every read leaves one more live block of
  1024 bytes behind. The copy to the user is assumed to keep the blocks and the copyio counters.\<close>

lemma vnop_fuzzed_read_leaks:
  fixes s :: "'z vstate_scheme"
  assumes wf: "heap_wf (mheap s)" and mem: "malloc 1024 (mheap s) = Done p h" "p \<noteq> 0" and fz: "fuzz_ok (mfuzz s)"
    and move: "\<And>u. \<exists>t. uiomove xv p 1024 a_uio u = Done () t \<and> block_size (mheap t) = block_size (mheap u) \<and>
        copyin_blocked t = copyin_blocked u \<and> current t = current u"
  shows "\<exists>t. vnop_fuzzed_read xv a_uio s = Done 0 t \<and> live_blocks s p = None \<and> live_blocks t = (live_blocks s)(p \<mapsto> 1024) \<and>
     copyin_blocked t = copyin_blocked s"
proof -
  have h: "heap_wf h" "block_size (mheap s) p = None" "block_size h = (block_size (mheap s))(p \<mapsto> 1024)"
    using alloc_aligned_contract [OF wf, of 1 1024 None] mem unfolding malloc_def by auto
  have k: "range_in h p p 1024" using h by (auto simp: range_in_def)
  obtain bs f where c: "fuzzed_copy p 1024 (s\<lparr>mheap := h\<rparr>) = Done () (s\<lparr>mfuzz := f, mheap := write_bytes p bs h\<rparr>)"
    using fuzzed_copy_runs [of "s\<lparr>mheap := h\<rparr>" p p 1024] h(1) k fz by auto
  let ?b = "s\<lparr>mfuzz := f, mheap := write_bytes p bs h, copyin_blocked := (copyin_blocked s)(current s := copyin_blocked s (current s) + 1)\<rparr>"
  obtain t where t: "uiomove xv p 1024 a_uio ?b = Done () t" "block_size (mheap t) = block_size h"
    "copyin_blocked t = copyin_blocked ?b" "current t = current s" using move [of ?b] by auto
  let ?t = "t\<lparr>copyin_blocked := copyin_blocked s\<rparr>"
  have "UnblockCopyin t = Done () ?t" using t(3,4) by (simp add: UnblockCopyin_def fun_eq_iff)
  then have "vnop_fuzzed_read xv a_uio s = Done 0 ?t"
    using mem c t(1) by (simp add: vnop_fuzzed_read_def Let_def BlockCopyin_def)
  then show ?thesis using h t(2) by (intro exI [of _ ?t]) (simp add: live_blocks_def)
qed

end
