(* ===== verification/Clock.thy ===== *)
theory Clock
  imports Host
begin

text \<open>
  Time, \<open>fuzz/xnu/osfmk/fakes/clock.c\<close>. Time stands still: the absolute time is always 0. XNU's constant
  \<open>NSEC_PER_SEC\<close> is the argument \<open>nsec\<close>, and the globals that hold the commpage timestamp are a record.
\<close>

section \<open>Operations\<close>

definition mach_absolute_time :: u64 where
  "mach_absolute_time = 0"

definition mach_approximate_time :: u64 where
  "mach_approximate_time = 1337"

definition absolutetime_to_nanoseconds :: "u64 \<Rightarrow> u64" where
  "absolutetime_to_nanoseconds abstime = abstime"

definition clock_interval_to_absolutetime_interval :: "u64 \<Rightarrow> u32 \<Rightarrow> u32 \<Rightarrow> u64" where
  "clock_interval_to_absolutetime_interval nsec interval scale_factor =
     (let nanosecs = ucast interval * ucast scale_factor; t64 = nanosecs div nsec; result = t64 * 1;
          nanosecs = nanosecs - t64 * nsec
      in result + nanosecs * 1 div nsec)"

definition absolutetime_to_microtime :: "u64 \<Rightarrow> u64 \<times> u32" where
  "absolutetime_to_microtime abstime =
     (let t64 = abstime div 1; abstime = abstime - t64 * 1 in (t64, ucast (abstime div 1)))"

definition clock_get_system_microtime :: "u64 \<times> u32" where
  "clock_get_system_microtime = absolutetime_to_microtime mach_absolute_time"

definition clock_get_system_nanotime :: "u64 \<Rightarrow> u64 \<times> u32" where
  "clock_get_system_nanotime nsec =
     (let abstime = mach_absolute_time; t64 = abstime div 1; abstime = abstime - t64 * 1
      in (t64, ucast (abstime * nsec div 1)))"

record commpage =
  g_abstime :: u64
  g_sec :: u64
  g_frac :: u64
  g_scale :: u64
  g_tick_per_sec :: u64

definition commpage_set_timestamp :: "u64 \<Rightarrow> u64 \<Rightarrow> u64 \<Rightarrow> u64 \<Rightarrow> u64 \<Rightarrow> (unit, 'z commpage_scheme) prog" where
  "commpage_set_timestamp abstime sec frac scale tick_per_sec = modifyM (\<lambda>s.
     s\<lparr>g_abstime := abstime, g_sec := sec, g_frac := frac, g_scale := scale, g_tick_per_sec := tick_per_sec\<rparr>)"

definition clock_gettimeofday_set_commpage :: "u64 \<Rightarrow> u64 \<Rightarrow> u64 \<Rightarrow> u64 \<Rightarrow> u64 \<Rightarrow> (unit, 'z commpage_scheme) prog" where
  "clock_gettimeofday_set_commpage abstime sec frac scale tick_per_sec =
     commpage_set_timestamp abstime sec frac scale tick_per_sec"

definition PESetUTCTimeOfDay :: "u64 \<Rightarrow> u32 \<Rightarrow> (unit, 's) prog" where
  "PESetUTCTimeOfDay secs usecs = retM ()"

definition commpage_update_boottime :: "u64 \<Rightarrow> (unit, 's) prog" where
  "commpage_update_boottime boottime_usec = retM ()"

definition PEGetUTCTimeOfDay :: "(unit, 's) prog" where
  "PEGetUTCTimeOfDay = abortM"

definition commpage_update_mach_continuous_time :: "u64 \<Rightarrow> (unit, 's) prog" where
  "commpage_update_mach_continuous_time sleeptime = abortM"

definition ml_delay_should_spin :: "u64 \<Rightarrow> (bool, 's) prog" where
  "ml_delay_should_spin interval = abortM"

text \<open>A do-while loop: the body runs once before the first test.\<close>

primrec machine_delay_until :: "'z xnu_thread \<Rightarrow> nat \<Rightarrow> u64 \<Rightarrow> u64 \<Rightarrow> (unit, 'z host_scheme) prog" where
  "machine_delay_until xnu 0 interval deadline = stopM Diverge"
| "machine_delay_until xnu (Suc fuel) interval deadline =
     thenM (Yield xnu)
       (let now = mach_absolute_time in if now < deadline then machine_delay_until xnu fuel interval deadline else retM ())"

definition rtclock_init :: "(unit, 's) prog" where
  "rtclock_init = retM ()"

section \<open>Properties\<close>

text \<open>A delay ends only when there is nothing to wait for. With a deadline of 0 \<open>machine_delay_until\<close> yields once and returns.
  With any later deadline it never returns, however long it runs, because the absolute time never moves.\<close>

lemma machine_delay_until_returns:
  "(Yield xnu s = Done () t \<longrightarrow> machine_delay_until xnu (Suc fuel) interval 0 s = Done () t) \<and>
   (0 < deadline \<longrightarrow> (\<nexists>u. machine_delay_until xnu fuel interval deadline s = Done () u))"
proof -
  have "\<nexists>u. machine_delay_until xnu fuel interval deadline s = Done () u" if "0 < deadline"
    using that
  proof (induction fuel arbitrary: s)
    case (Suc fuel)
    then show ?case by (auto simp: mach_absolute_time_def split: outcome.split)
  qed simp
  then show ?thesis by (auto simp: mach_absolute_time_def)
qed

lemma machine_delay_until_returns_witness:
  "machine_delay_until (xnu_idle (\<lambda>_. retM ())) 1 0 0 host_example = Done () host_example \<and>
   (\<nexists>u. machine_delay_until (xnu_idle (\<lambda>_. retM ())) 1000 0 5 host_example = Done () u)"
proof -
  have "Yield (xnu_idle (\<lambda>_. retM ())) host_example = Done () host_example"
    by (simp add: Yield_def host_example_def IsWaiting_def GetCurrentThreadT_def HandleToThreadT_def)
  then show ?thesis
    using machine_delay_until_returns [of "xnu_idle (\<lambda>_. retM ())" host_example host_example 0 0 5]
      machine_delay_until_returns [of "xnu_idle (\<lambda>_. retM ())" host_example host_example 1000 0 5]
    by (simp del: machine_delay_until.simps add: One_nat_def)
qed

text \<open>The unit of an interval. The conversion of an interval never overflows and yields whole seconds, rounded down: the
  second summand is always 0. An interval below a second becomes 0, while the conversion of the result back to
  nanoseconds is the identity.\<close>

lemma interval_conversion:
  assumes "0 < nsec"
  shows "unat (clock_interval_to_absolutetime_interval nsec interval scale_factor) =
     unat interval * unat scale_factor div unat nsec \<and>
   absolutetime_to_nanoseconds (clock_interval_to_absolutetime_interval nsec interval scale_factor) =
     clock_interval_to_absolutetime_interval nsec interval scale_factor"
proof -
  let ?i = "ucast interval :: u64" and ?f = "ucast scale_factor :: u64"
  have i: "unat ?i = unat interval" "unat ?f = unat scale_factor"
    using unsigned_less [of interval, where 'a = nat] unsigned_less [of scale_factor, where 'a = nat]
    by (simp_all add: unsigned_ucast_eq take_bit_nat_eq_self)
  have "unat interval * unat scale_factor < 2 ^ 32 * 2 ^ 32"
    using unsigned_less [of interval, where 'a = nat] unsigned_less [of scale_factor, where 'a = nat]
    by (intro mult_strict_mono') simp_all
  then have m: "unat (?i * ?f) = unat interval * unat scale_factor"
    using i unat_mult_lem [of ?i ?f] by simp
  have "(?i * ?f - (?i * ?f) div nsec * nsec) div nsec = 0"
  proof -
    have "?i * ?f - (?i * ?f) div nsec * nsec = (?i * ?f) mod nsec" by (simp add: minus_div_mult_eq_mod)
    moreover have "(?i * ?f) mod nsec < nsec" using assms by (simp add: word_mod_less_divisor)
    ultimately show ?thesis by (simp add: word_less_nat_alt unat_div flip: unat_eq_0)
  qed
  then show ?thesis using m
    by (simp add: clock_interval_to_absolutetime_interval_def Let_def unat_div absolutetime_to_nanoseconds_def)
qed

lemma interval_conversion_witness:
  "unat (clock_interval_to_absolutetime_interval 1000000000 5 1000000) = 0"
  using interval_conversion [of 1000000000 5 1000000] by simp

end
