(* ===== verification/Pmap.thy ===== *)
theory Pmap
  imports Machine
begin

text \<open>
  Physical memory, \<open>fuzz/xnu/osfmk/fakes/pmap.c\<close>: a counter of handed-out pages, one 256 MiB virtual region, pmaps that
  are blocks of the C heap, and mapping operations that do nothing. The size of XNU's \<open>struct pmap\<close> and its page size
  are parameters.
\<close>

record pstate = mach +
  next_page :: u32
  start_pmap :: ptr

section \<open>Operations\<close>

definition NUM_PAGES :: u32 where
  "NUM_PAGES = 65536"

definition pmap_next_page :: "(bool \<times> u32, 'z pstate_scheme) prog" where
  "pmap_next_page = (\<lambda>s. let pn = next_page s in Done (pn \<le> NUM_PAGES, pn) (s\<lparr>next_page := pn + 1\<rparr>))"

text \<open>The truth value is the \<open>kern_return_t\<close>.\<close>

definition pmap_next_page_large :: "(int \<times> u32, 'z pstate_scheme) prog" where
  "pmap_next_page_large = (\<lambda>s. let pn = next_page s in Done (if pn \<le> NUM_PAGES then 1 else 0, pn) (s\<lparr>next_page := pn + 1\<rparr>))"

definition pmap_next_page_hi :: "bool \<Rightarrow> (bool \<times> u32, 'z pstate_scheme) prog" where
  "pmap_next_page_hi might_free = (\<lambda>s. Done (True, next_page s) (s\<lparr>next_page := next_page s + 1\<rparr>))"

definition pmap_valid_page :: "u32 \<Rightarrow> bool" where
  "pmap_valid_page pn = True"

definition pmap_free_pages :: u32 where
  "pmap_free_pages = NUM_PAGES"

definition pmap_virtual_space :: "(ptr \<times> ptr, 'z pstate_scheme) prog" where
  "pmap_virtual_space =
     bindM (heapM (posix_memalign 0x1000 (0x1000 * unat NUM_PAGES))) (\<lambda>(ret, p).
       if ret \<noteq> 0 then abortM
       else thenM (modifyM (\<lambda>s. s\<lparr>start_pmap := p\<rparr>)) (retM (p, p + 0x1000 * unat NUM_PAGES)))"

definition pmap_create_options :: "nat \<Rightarrow> (ptr, 'z pstate_scheme) prog" where
  "pmap_create_options sizeof_pmap = heapM (calloc 1 sizeof_pmap)"

definition pmap_destroy :: "ptr \<Rightarrow> (unit, 'z pstate_scheme) prog" where
  "pmap_destroy pmap = heapM (free pmap)"

text \<open>The operations that have no effect and their constant answers (\<open>KERN_SUCCESS\<close> is 0).\<close>

definition pmap_remove_options :: "ptr \<Rightarrow> u64 \<Rightarrow> u64 \<Rightarrow> (unit, 's) prog" where
  "pmap_remove_options pmap start end_addr = retM ()"

definition pmap_init :: "(unit, 's) prog" where
  "pmap_init = retM ()"

definition pmap_assert_free :: "(unit, 's) prog" where
  "pmap_assert_free = retM ()"

definition pmap_is_noencrypt :: "u32 \<Rightarrow> bool" where
  "pmap_is_noencrypt page = False"

definition pmap_verify_free :: "u32 \<Rightarrow> bool" where
  "pmap_verify_free pn = True"

definition pmap_enter_options :: "ptr \<Rightarrow> u64 \<Rightarrow> u32 \<Rightarrow> (int, 's) prog" where
  "pmap_enter_options pmap v pn = retM 0"

definition pmap_enter_options_addr :: "ptr \<Rightarrow> u64 \<Rightarrow> u64 \<Rightarrow> (int, 's) prog" where
  "pmap_enter_options_addr pmap v pa = retM 0"

definition pmap_is_empty :: "ptr \<Rightarrow> u64 \<Rightarrow> u64 \<Rightarrow> bool" where
  "pmap_is_empty pmap start end_addr = True"

definition pmap_reference :: "ptr \<Rightarrow> (unit, 's) prog" where
  "pmap_reference pmap = retM ()"

definition mapping_free_prime :: "(unit, 's) prog" where
  "mapping_free_prime = retM ()"

definition pmap_zero_page :: "u32 \<Rightarrow> (unit, 's) prog" where
  "pmap_zero_page pn = retM ()"

definition pmap_zero_part_page :: "u32 \<Rightarrow> u64 \<Rightarrow> u64 \<Rightarrow> (unit, 's) prog" where
  "pmap_zero_part_page pn offset len = retM ()"

definition pmap_pre_expand_large :: "ptr \<Rightarrow> u64 \<Rightarrow> (int, 's) prog" where
  "pmap_pre_expand_large pmap vaddr = retM 0"

definition mapping_adjust :: "(unit, 's) prog" where
  "mapping_adjust = retM ()"

definition IOMapperIOVMAlloc :: "u32 \<Rightarrow> (u32, 's) prog" where
  "IOMapperIOVMAlloc pages = retM 0"

definition ml_static_mfree :: "u64 \<Rightarrow> u64 \<Rightarrow> (unit, 's) prog" where
  "ml_static_mfree addr len = retM ()"

definition pmap_query_pagesize :: "nat \<Rightarrow> ptr \<Rightarrow> u64 \<Rightarrow> nat" where
  "pmap_query_pagesize i386_pgbytes pmap vaddr = i386_pgbytes"

definition pmap_protect :: "ptr \<Rightarrow> u64 \<Rightarrow> u64 \<Rightarrow> u32 \<Rightarrow> (unit, 's) prog" where
  "pmap_protect pmap s e prot = retM ()"

definition pmap_release_pages_fast :: "(u64, 's) prog" where
  "pmap_release_pages_fast = retM 0"

definition pmap_clear_noencrypt :: "u32 \<Rightarrow> (unit, 's) prog" where
  "pmap_clear_noencrypt pn = retM ()"

definition pmap_find_phys :: "ptr \<Rightarrow> u64 \<Rightarrow> (u32, 's) prog" where
  "pmap_find_phys pmap va = retM 0"

section \<open>Facts\<close>

text \<open>The client's loop: the pages of \<open>n\<close> calls, with the answer of each.\<close>

primrec take_pages :: "nat \<Rightarrow> ((bool \<times> u32) list, 'z pstate_scheme) prog" where
  "take_pages 0 = retM []"
| "take_pages (Suc n) = bindM pmap_next_page (\<lambda>r. bindM (take_pages n) (\<lambda>rs. retM (r # rs)))"

lemma take_pages_run:
  "take_pages n s = Done (map (\<lambda>i. (next_page s + of_nat i \<le> NUM_PAGES, next_page s + of_nat i)) [0 ..< n])
     (s\<lparr>next_page := next_page s + of_nat n\<rparr>)"
proof (induction n arbitrary: s)
  case 0
  show ?case by simp
next
  case (Suc n)
  have "[0 ..< Suc n] = 0 # map Suc [0 ..< n]" by (simp add: upt_conv_Cons map_Suc_upt del: upt_Suc)
  then show ?case by (simp add: pmap_next_page_def Let_def Suc comp_def add.assoc add.commute add.left_commute del: upt_Suc)
qed

interpretation pmaps: block_allocator pmap_create_options pmap_destroy live_blocks "\<lambda>s. heap_wf (mheap s)"
proof
  fix n and s :: "'z pstate_scheme"
  assume "heap_wf (mheap s)"
  then obtain p t where "calloc 1 n (mheap s) = Done p t" "heap_wf t"
    "p = 0 \<and> block_size t = block_size (mheap s) \<or> p \<noteq> 0 \<and> block_size (mheap s) p = None \<and> block_size t = (block_size (mheap s))(p \<mapsto> n)"
    using alloc_aligned_contract [of "mheap s" 1 "1 * n" "Some (\<lambda>_. 0)"] unfolding calloc_def by auto
  then show "\<exists>p t. pmap_create_options n s = Done p t \<and> heap_wf (mheap t) \<and>
      (p = 0 \<and> live_blocks t = live_blocks s \<or> p \<noteq> 0 \<and> live_blocks s p = None \<and> live_blocks t = (live_blocks s)(p \<mapsto> n))"
    by (auto simp: pmap_create_options_def live_blocks_def)
next
  fix s :: "'z pstate_scheme"
  show "pmap_destroy 0 s = Done () s" by (simp add: pmap_destroy_def)
next
  fix s :: "'z pstate_scheme" and p n
  assume "heap_wf (mheap s)" "live_blocks s p = Some n"
  then show "\<exists>t. pmap_destroy p s = Done () t \<and> heap_wf (mheap t) \<and> live_blocks t = (live_blocks s)(p := None)"
    using free_live [of "mheap s" p n] by (auto simp: pmap_destroy_def live_blocks_def)
next
  fix p and s :: "'z pstate_scheme"
  assume "p \<noteq> 0" "live_blocks s p = None"
  then show "pmap_destroy p s = Stopped MemFault" by (simp add: pmap_destroy_def live_blocks_def free_dead)
qed

section \<open>Properties\<close>

text \<open>C39. Booting takes one page too many. Called again and again from the start, \<open>pmap_next_page\<close> hands out the pages 0, 1, 2, ...
  with no repetition and grants exactly \<open>NUM_PAGES + 1\<close> of them, one more than \<open>pmap_free_pages\<close> announces.\<close>

theorem pmap_next_page_grants:
  assumes "next_page s = 0" and "n < 2 ^ 32"
  shows "\<exists>rs t. take_pages n s = Done rs t \<and> length rs = n \<and> distinct (map snd rs) \<and>
     (\<forall>i < n. rs ! i = (i < unat pmap_free_pages + 1, of_nat i))"
proof -
  let ?rs = "map (\<lambda>i. (of_nat i \<le> NUM_PAGES, of_nat i :: u32)) [0 ..< n]"
  have u: "unat (of_nat i :: u32) = i" if "i < n" for i using that assms(2) by (intro unat_of_nat_less) simp
  have "inj_on (of_nat :: nat \<Rightarrow> u32) {0 ..< n}" using u by (intro inj_on_inverseI [where g = unat]) simp
  then have d: "distinct (map snd ?rs)" by (simp add: distinct_map comp_def)
  have g: "?rs ! i = (i < unat pmap_free_pages + 1, of_nat i)" if "i < n" for i
    using that u [OF that] by (simp add: word_le_nat_alt NUM_PAGES_def pmap_free_pages_def) arith
  have "take_pages n s = Done ?rs (s\<lparr>next_page := of_nat n\<rparr>)" by (simp add: take_pages_run assms(1))
  then show ?thesis using d g by (intro exI [of _ ?rs] exI) simp
qed

definition pstate_boot :: pstate where
  "pstate_boot = \<lparr>mheap = \<lparr>choices = [(0x1000, \<lambda>_. 0)], blocks = [], mem = (\<lambda>_. 0)\<rparr>, mfuzz = None, next_page = 0, start_pmap = 0\<rparr>"

theorem pmap_next_page_grants_witness:
  "\<exists>rs t. take_pages 65538 pstate_boot = Done rs t \<and> rs ! 65536 = (True, 65536) \<and> rs ! 65537 = (False, 65537)"
proof -
  obtain rs t where r: "take_pages 65538 pstate_boot = Done rs t" "\<forall>i < 65538. rs ! i = (i < unat pmap_free_pages + 1, of_nat i)"
    using pmap_next_page_grants [of pstate_boot 65538] by (auto simp: pstate_boot_def)
  then have "rs ! 65536 = (True, 65536)" "rs ! 65537 = (False, 65537)" by (simp_all add: pmap_free_pages_def NUM_PAGES_def)
  then show ?thesis using r(1) by blast
qed

text \<open>The virtual space. \<open>pmap_virtual_space\<close> aborts, or it returns the bounds of a fresh page-aligned region of 256 MiB that overlaps no
  live block and stays within the 64-bit address space; every other block keeps its bytes.\<close>

lemma pmap_virtual_space_region:
  assumes wf: "heap_wf (mheap s)"
  shows "pmap_virtual_space s = Stopped HostAbort \<or>
     (\<exists>a t. pmap_virtual_space s = Done (a, a + 0x10000000) t \<and> a mod 0x1000 = 0 \<and> a \<noteq> 0 \<and> a + 0x10000000 < 2 ^ 64 \<and>
        start_pmap t = a \<and> live_blocks t = (live_blocks s)(a \<mapsto> 0x10000000) \<and> keeps (mheap s) (mheap t) {} \<and>
        (\<forall>b m. live_blocks s b = Some m \<longrightarrow> separate a 0x10000000 b m))"
proof -
  let ?n = "0x10000000 :: nat"
  have n: "0x1000 * unat NUM_PAGES = ?n" by (simp add: NUM_PAGES_def)
  show ?thesis
  proof (cases rule: alloc_aligned_cases [where al = "0x1000" and n = ?n and c = None and h = "mheap s"])
    case (null cs)
    then show ?thesis by (simp add: pmap_virtual_space_def n posix_memalign_def)
  next
    case (block p cs f)
    have k: "keeps (mheap s) (mheap s\<lparr>choices := cs, blocks := (p, ?n) # blocks (mheap s), mem := fill (mem (mheap s)) p ?n f\<rparr>) {}"
      using block(1) by (rule alloc_aligned_keeps)
    have sep: "separate p ?n b m" if "live_blocks s b = Some m" for b m
      using that block(2) by (auto simp: live_blocks_def block_size_def legal_block_def list_all_iff dest!: map_of_SomeD)
    have "p \<noteq> 0" "p mod 0x1000 = 0" "p + ?n < 2 ^ 64" using block(2) by (simp_all add: legal_block_def addr_limit_def)
    then show ?thesis using block(1) k sep
      by (simp add: pmap_virtual_space_def n posix_memalign_def live_blocks_def block_size_def fun_eq_iff)
  qed
qed

lemma pmap_virtual_space_region_witness:
  "\<exists>a t. pmap_virtual_space pstate_boot = Done (a, a + 0x10000000) t \<and> a mod 0x1000 = 0"
proof -
  have "heap_wf (mheap pstate_boot)" by (simp add: pstate_boot_def heap_wf_def)
  moreover have "pmap_virtual_space pstate_boot \<noteq> Stopped HostAbort"
    by (simp add: pmap_virtual_space_def pstate_boot_def NUM_PAGES_def posix_memalign_def alloc_aligned_def legal_block_def addr_limit_def)
  ultimately show ?thesis using pmap_virtual_space_region [of pstate_boot] by auto
qed

text \<open>The large-page answer is inverted. \<open>pmap_next_page_large\<close> is a \<open>kern_return_t\<close>, where 0 is success, yet it
  answers 0 exactly when the page it hands out is beyond the last one.\<close>

lemma pmap_next_page_large_inverted:
  "\<exists>r pn t. pmap_next_page_large s = Done (r, pn) t \<and> pn = next_page s \<and> next_page t = next_page s + 1 \<and>
     (r = 0 \<longleftrightarrow> NUM_PAGES < pn)"
  by (auto simp: pmap_next_page_large_def Let_def)

end
