(* ===== verification/FakeImpls.thy ===== *)
theory FakeImpls
  imports Platform
begin

text \<open>
  The small library functions of \<open>fuzz/xnu/bsd/fakes/fake_impls.c\<close>: boot arguments, UUIDs, the BSD allocator entry point
  \<open>__MALLOC\<close>, randomness from the fuzzed input, and \<open>ovbcopy\<close>. A \<open>uuid_t\<close> is 16 bytes.
\<close>

section \<open>Boot arguments\<close>

definition PE_parse_boot_argn :: "string \<Rightarrow> ptr \<Rightarrow> int \<Rightarrow> (bool, 'z mach_scheme) prog" where
  "PE_parse_boot_argn arg_string arg_ptr max_arg =
     (if arg_string = ''ifa_debug'' then thenM (heapM (store_at arg_ptr [0])) (retM True)
      else if arg_string = ''inaddr_nhash'' then thenM (heapM (store_at arg_ptr [0, 0, 0, 0])) (retM True)
      else if arg_string = ''mcache_flags'' then thenM (heapM (store_at arg_ptr [0, 0, 0, 0])) (retM True)
      else if arg_string = ''mbuf_debug'' then thenM (heapM (store_at arg_ptr [0, 0, 0, 0])) (retM True)
      else if arg_string = ''mleak_sample_factor'' then thenM (heapM (store_at arg_ptr [0, 0, 0, 0])) (retM True)
      else retM False)"

definition os_log_create :: "(ptr, 's) prog" where
  "os_log_create = retM 1"

section \<open>UUIDs\<close>

text \<open>\<open>memcmp\<close> on two byte lists of the same length: the sign of the first difference.\<close>

fun memcmp_bytes :: "u8 list \<Rightarrow> u8 list \<Rightarrow> int" where
  "memcmp_bytes (x # xs) (y # ys) = (if x = y then memcmp_bytes xs ys else if x < y then - 1 else 1)"
| "memcmp_bytes _ _ = 0"

definition uuid_clear :: "ptr \<Rightarrow> (unit, 'z mach_scheme) prog" where
  "uuid_clear uu = heapM (memset uu 0 16)"

definition uuid_compare :: "ptr \<Rightarrow> ptr \<Rightarrow> (int, 'z mach_scheme) prog" where
  "uuid_compare uu1 uu2 =
     bindM (heapM (memory_at uu1 16)) (\<lambda>x. bindM (heapM (memory_at uu2 16)) (\<lambda>y. retM (memcmp_bytes x y)))"

text \<open>\<open>UUID_NULL\<close> is 16 zero bytes.\<close>

definition uuid_is_null :: "ptr \<Rightarrow> (bool, 'z mach_scheme) prog" where
  "uuid_is_null uu = bindM (heapM (memory_at uu 16)) (\<lambda>x. retM (memcmp_bytes x (replicate 16 0) = 0))"

definition uuid_generate_random :: "ptr \<Rightarrow> (unit, 'z mach_scheme) prog" where
  "uuid_generate_random out =
     bindM (fuzzM GetFuzzedBool) (\<lambda>b.
       if b then heapM (store_at out (string_bytes ''0000000000000000''))
       else bindM (fuzzM GetFuzzedBool) (\<lambda>b.
         if b then heapM (store_at out (string_bytes ''1111111111111111''))
         else heapM (store_at out (string_bytes ''2222222222222222''))))"

definition uuid_copy :: "ptr \<Rightarrow> ptr \<Rightarrow> (unit, 'z mach_scheme) prog" where
  "uuid_copy dst src = heapM (memcpy dst src 16)"

text \<open>The format uses \<open>%c\<close>: each byte is one character of the output; \<open>snprintf\<close> cuts at the size of \<open>uuid_string_t\<close>, which is 37.\<close>

definition uuid_text :: "u8 list \<Rightarrow> u8 list" where
  "uuid_text u = (let d = string_bytes ''-'' in
     take 4 u @ d @ take 2 (drop 4 u) @ d @ take 2 (drop 6 u) @ d @ take 2 (drop 8 u) @ d @ take 6 (drop 10 u))"

definition uuid_unparse_upper :: "ptr \<Rightarrow> ptr \<Rightarrow> (unit, 'z mach_scheme) prog" where
  "uuid_unparse_upper uu out =
     bindM (heapM (memory_at uu 16)) (\<lambda>u. heapM (store_at out (take 36 (uuid_text u) @ [0])))"

definition uuid_unparse :: "ptr \<Rightarrow> ptr \<Rightarrow> (unit, 'z mach_scheme) prog" where
  "uuid_unparse uu out = uuid_unparse_upper uu out"

section \<open>Allocation, randomness and copying\<close>

text \<open>\<open>m_last\<close> and \<open>m_zero\<close> are XNU's \<open>M_LAST\<close> and \<open>M_ZERO\<close>.\<close>

definition MALLOC_impl :: "int \<Rightarrow> u32 \<Rightarrow> nat \<Rightarrow> int \<Rightarrow> u32 \<Rightarrow> (ptr, 'z mach_scheme) prog" where
  "MALLOC_impl m_last m_zero sz typ flags =
     thenM (assertM (typ < m_last))
       (if sz = 0 then retM 0
        else bindM (heapM (malloc sz)) (\<lambda>addr.
          if addr = 0 then retM 0
          else thenM (whenM (flags AND m_zero \<noteq> 0) (heapM (bzero addr sz))) (retM addr)))"

definition read_frandom :: "ptr \<Rightarrow> nat \<Rightarrow> (unit, 'z mach_scheme) prog" where
  "read_frandom buffer numBytes = bindM (fuzzM (GetFuzzedBytes numBytes)) (\<lambda>bs. heapM (store_at buffer bs))"

definition read_random :: "ptr \<Rightarrow> nat \<Rightarrow> (unit, 'z mach_scheme) prog" where
  "read_random buffer numBytes = bindM (fuzzM (GetFuzzedBytes numBytes)) (\<lambda>bs. heapM (store_at buffer bs))"

text \<open>\<open>memmove\<close> reads all bytes before it writes.\<close>

definition ovbcopy :: "ptr \<Rightarrow> ptr \<Rightarrow> nat \<Rightarrow> (unit, 'z mach_scheme) prog" where
  "ovbcopy from to nbytes = bindM (heapM (memory_at from nbytes)) (\<lambda>bs. heapM (store_at to bs))"

section \<open>Properties\<close>

text \<open>The BSD allocator. With a valid type \<open>__MALLOC\<close> returns NULL for size 0 or when memory is exhausted, with the live blocks
  as before; otherwise a block of that size that was not live, zeroed when \<open>M_ZERO\<close> is given, and the only change to the
  live blocks. No byte of another block changes. An invalid type fails the assertion.\<close>

lemma MALLOC_contract:
  assumes wf: "heap_wf (mheap s)" and ty: "typ < m_last"
  shows "\<exists>p t. MALLOC_impl m_last m_zero sz typ flags s = Done p t \<and> heap_wf (mheap t) \<and> keeps (mheap s) (mheap t) {} \<and>
     (sz = 0 \<longrightarrow> p = 0) \<and>
     (p = 0 \<longrightarrow> live_blocks t = live_blocks s) \<and>
     (p \<noteq> 0 \<longrightarrow> live_blocks s p = None \<and> live_blocks t = (live_blocks s)(p \<mapsto> sz) \<and>
        (flags AND m_zero \<noteq> 0 \<longrightarrow> read_bytes (mheap t) p sz = replicate sz 0)) \<and>
     MALLOC_impl typ m_zero sz typ flags s = Stopped AssertFail"
proof (cases "sz = 0")
  case True
  then show ?thesis using assms by (intro exI [of _ 0] exI [of _ s]) (simp add: MALLOC_impl_def)
next
  case False
  obtain p h where m: "malloc sz (mheap s) = Done p h" "heap_wf h"
    "p = 0 \<and> block_size h = block_size (mheap s) \<or> p \<noteq> 0 \<and> block_size (mheap s) p = None \<and> block_size h = (block_size (mheap s))(p \<mapsto> sz)"
    using libc.alloc_contract [OF wf, of sz] by blast
  have k: "keeps (mheap s) h {}" using m(1) unfolding malloc_def by (rule alloc_aligned_keeps)
  show ?thesis
  proof (cases "p = 0 \<or> flags AND m_zero = 0")
    case True
    then show ?thesis using m k ty False
      by (intro exI [of _ p] exI [of _ "s\<lparr>mheap := h\<rparr>"]) (auto simp: MALLOC_impl_def live_blocks_def)
  next
    case z: False
    let ?w = "write_bytes p (replicate sz 0) h"
    have live: "block_size h p = Some sz" "block_size (mheap s) p = None" using z m(3) by auto
    have "bzero p sz h = Done () ?w"
      using in_block_base [OF live(1), of sz] by (simp add: bzero_def memset_def store_at_def)
    moreover have "keeps h ?w {p}" using m(2) live(1) by (intro write_bytes_keeps) auto
    then have "keeps (mheap s) ?w {}" using keeps_trans [OF k, of ?w "{p}"] live(2) by (auto intro: keeps_fresh)
    moreover have "read_bytes ?w p sz = replicate sz 0" using read_write_same [of p "replicate sz 0" h] by simp
    ultimately show ?thesis using z m ty False
      by (intro exI [of _ p] exI [of _ "s\<lparr>mheap := ?w\<rparr>"]) (simp add: MALLOC_impl_def live_blocks_def)
  qed
qed

lemma MALLOC_contract_witness:
  "\<exists>p t. MALLOC_impl 10 4 8 1 4 \<lparr>mheap = \<lparr>choices = [(1024, \<lambda>_. 7)], blocks = [], mem = (\<lambda>_. 3)\<rparr>, mfuzz = None\<rparr> = Done p t \<and>
     p \<noteq> 0 \<and> read_bytes (mheap t) p 8 = replicate 8 0"
proof -
  let ?s = "\<lparr>mheap = \<lparr>choices = [(1024, \<lambda>_. 7)], blocks = [], mem = (\<lambda>_. 3)\<rparr>, mfuzz = None\<rparr> :: mach"
  have "heap_wf (mheap ?s)" by (simp add: heap_wf_def)
  from MALLOC_contract [OF this, of 1 10 4 8 4] obtain p t where p: "MALLOC_impl 10 4 8 1 4 ?s = Done p t"
    "p \<noteq> 0 \<longrightarrow> read_bytes (mheap t) p 8 = replicate 8 0" by auto
  moreover have "p \<noteq> 0"
    using p(1) by (auto simp: MALLOC_impl_def malloc_def alloc_aligned_def legal_block_def addr_limit_def bzero_def memset_def
        store_at_def in_block_def)
  ultimately show ?thesis by blast
qed

lemma memcmp_bytes_eq: "length xs = length ys \<Longrightarrow> memcmp_bytes xs ys = 0 \<longleftrightarrow> xs = ys"
  by (induction xs ys rule: list_induct2) auto

lemma memcmp_bytes_swap: "length xs = length ys \<Longrightarrow> memcmp_bytes xs ys = - memcmp_bytes ys xs"
  by (induction xs ys rule: list_induct2) auto

text \<open>Comparing and copying UUIDs. For two readable UUIDs \<open>uuid_compare\<close> is 0 exactly when the bytes are equal and changes sign
  with its arguments; after \<open>uuid_copy\<close> into a separate block the two compare equal, and after \<open>uuid_clear\<close> the UUID is null.\<close>

lemma uuid_compare_copy:
  assumes wf: "heap_wf (mheap s)" and b: "block_size (mheap s) a = Some 16" "block_size (mheap s) b = Some 16" "a \<noteq> b"
  shows "\<exists>c t u v. uuid_compare a b s = Done c s \<and> uuid_compare b a s = Done (- c) s \<and>
     (c = 0 \<longleftrightarrow> read_bytes (mheap s) a 16 = read_bytes (mheap s) b 16) \<and>
     uuid_copy a b s = Done () t \<and> uuid_compare a b t = Done 0 t \<and>
     uuid_clear a s = Done () v \<and> uuid_is_null a v = Done True v"
proof -
  have inb: "in_block (mheap s) a 16" "in_block (mheap s) b 16" using in_block_base b by blast+
  let ?x = "read_bytes (mheap s) a 16" and ?y = "read_bytes (mheap s) b 16"
  let ?t = "s\<lparr>mheap := write_bytes a ?y (mheap s)\<rparr>" and ?v = "s\<lparr>mheap := write_bytes a (replicate 16 0) (mheap s)\<rparr>"
  have "keeps (mheap s) (mheap ?t) {a}" using wf b(1) by (simp, intro write_bytes_keeps) auto
  then have yb: "read_bytes (mheap ?t) b 16 = ?y" using b by (auto simp: keeps_def)
  have ya: "read_bytes (mheap ?t) a 16 = ?y" using read_write_same [of a ?y "mheap s"] by simp
  have za: "read_bytes (mheap ?v) a 16 = replicate 16 0" using read_write_same [of a "replicate 16 0" "mheap s"] by simp
  have cmp: "uuid_compare a b s = Done (memcmp_bytes ?x ?y) s" "uuid_compare b a s = Done (- memcmp_bytes ?x ?y) s"
    using inb memcmp_bytes_swap [of ?y ?x] by (simp_all add: uuid_compare_def memory_at_def)
  have zero: "memcmp_bytes z z = 0" for z using memcmp_bytes_eq [of z z] by simp
  have "uuid_copy a b s = Done () ?t" using inb by (simp add: uuid_copy_def memcpy_def memory_at_def store_at_def)
  moreover have "uuid_compare a b ?t = Done 0 ?t" using inb ya yb zero by (simp add: uuid_compare_def memory_at_def)
  moreover have "uuid_clear a s = Done () ?v" using inb by (simp add: uuid_clear_def memset_def store_at_def)
  moreover have "uuid_is_null a ?v = Done True ?v"
    using inb za zero [of "replicate 16 0"] by (simp add: uuid_is_null_def memory_at_def)
  ultimately show ?thesis using cmp memcmp_bytes_eq [of ?x ?y] by auto
qed

lemma uuid_compare_copy_witness:
  "\<exists>t. uuid_copy 1000 2000 \<lparr>mheap = \<lparr>choices = [], blocks = [(1000, 16), (2000, 16)], mem = (\<lambda>a. of_nat (a mod 7))\<rparr>, mfuzz = None\<rparr> = Done () t \<and>
     uuid_compare 1000 2000 t = Done 0 t"
proof -
  let ?s = "\<lparr>mheap = \<lparr>choices = [], blocks = [(1000, 16), (2000, 16)], mem = (\<lambda>a. of_nat (a mod 7))\<rparr>, mfuzz = None\<rparr> :: mach"
  have "heap_wf (mheap ?s)" "block_size (mheap ?s) 1000 = Some 16" "block_size (mheap ?s) 2000 = Some 16"
    by (simp_all add: heap_wf_def legal_block_def separate_def addr_limit_def block_size_def)
  then show ?thesis using uuid_compare_copy [of ?s 1000 2000] by auto
qed

end
