(* ===== verification/Mcache.thy ===== *)
theory Mcache
  imports Machine
begin

text \<open>
  The mbuf object caches, \<open>fuzz/xnu/bsd/fakes/mcache.c\<close>. A cache is a record with a buffer size, optional slab functions
  and a private word; an allocation builds a singly linked list of C heap blocks, threaded through the field
  \<open>obj_next\<close> of each object, and a release walks the list and frees it. Composite mbuf caches go through the
  slab functions instead.
\<close>

section \<open>State and parameters\<close>

text \<open>\<open>slab_alloc\<close> and \<open>slab_free\<close> are 0 when the cache has none.\<close>

record mcache =
  mc_name :: "u8 list"
  mc_bufsize :: nat
  mc_slab_alloc :: ptr
  mc_slab_free :: ptr
  mc_slab_audit :: ptr
  mc_private :: ptr

record cstate = mach +
  caches :: "ptr \<rightharpoonup> mcache"

text \<open>Layout and functions of XNU: the offset of \<open>obj_next\<close>, the sizes of \<open>mcache_t\<close> and of its name, the offset and the width
  of the fields of \<open>struct mbuf\<close>, the initialisers of a packet header, and the slab functions behind their pointers. A slab allocation gets the private word, what
  \<open>*list\<close> holds, the number and the wait flag, and returns the count and the new content of \<open>*list\<close>.\<close>

datatype mbuf_field =
    M_next | M_nextpkt | M_len | M_type | M_data | M_flags
  | Pkthdr_rcvif | Pkthdr_pkt_hdr | Pkthdr_len | Pkthdr_csum_flags | Pkthdr_csum_data | Pkthdr_vlan_tag | Pkthdr_comp_gencnt

record 'z xnu_mcache =
  obj_next_off :: nat
  sizeof_mcache :: nat
  sizeof_mc_name :: nat
  field_off :: "mbuf_field \<Rightarrow> nat"
  field_width :: "mbuf_field \<Rightarrow> nat"
  m_dat_off :: nat
  m_pktdat_off :: nat
  m_classifier_init :: "ptr \<Rightarrow> (unit, heap) prog"
  m_tag_init :: "ptr \<Rightarrow> (unit, heap) prog"
  m_scratch_init :: "ptr \<Rightarrow> (unit, heap) prog"
  slab_alloc_fn :: "ptr \<Rightarrow> ptr \<Rightarrow> ptr \<Rightarrow> nat \<Rightarrow> int \<Rightarrow> (nat \<times> ptr, 'z cstate_scheme) prog"
  slab_free_fn :: "ptr \<Rightarrow> ptr \<Rightarrow> ptr \<Rightarrow> (unit, 'z cstate_scheme) prog"

section \<open>The mbuf classes\<close>

definition MC_MBUF :: u32 where "MC_MBUF = 0"
definition MC_MBUF_CL :: u32 where "MC_MBUF_CL = 4"
definition MC_MBUF_BIGCL :: u32 where "MC_MBUF_BIGCL = 5"
definition MC_MBUF_16KCL :: u32 where "MC_MBUF_16KCL = 6"

definition MT_FREE :: u64 where "MT_FREE = 0"
definition M_PKTHDR :: u64 where "M_PKTHDR = 2"

section \<open>Mbuf headers\<close>

text \<open>A field is stored little endian; storing through a NULL mbuf faults, whichever the field.\<close>

definition set_field :: "'z xnu_mcache \<Rightarrow> ptr \<Rightarrow> mbuf_field \<Rightarrow> u64 \<Rightarrow> (unit, heap) prog" where
  "set_field xm m f v =
     (if m = 0 then stopM MemFault
      else store_at (m + field_off xm f) (map (\<lambda>i. ucast (drop_bit (8 * i) v)) [0 ..< field_width xm f]))"

definition MBUF_INIT_PKTHDR :: "'z xnu_mcache \<Rightarrow> ptr \<Rightarrow> (unit, heap) prog" where
  "MBUF_INIT_PKTHDR xm m =
     thenM (set_field xm m Pkthdr_rcvif 0)
    (thenM (set_field xm m Pkthdr_pkt_hdr 0)
    (thenM (set_field xm m Pkthdr_len 0)
    (thenM (set_field xm m Pkthdr_csum_flags 0)
    (thenM (set_field xm m Pkthdr_csum_data 0)
    (thenM (set_field xm m Pkthdr_vlan_tag 0)
    (thenM (set_field xm m Pkthdr_comp_gencnt 0)
    (thenM (m_classifier_init xm m) (thenM (m_tag_init xm m) (m_scratch_init xm m)))))))))"

definition MBUF_INIT :: "'z xnu_mcache \<Rightarrow> ptr \<Rightarrow> bool \<Rightarrow> u64 \<Rightarrow> (unit, heap) prog" where
  "MBUF_INIT xm m pkthdr mtype =
     thenM (set_field xm m M_nextpkt 0)
    (thenM (set_field xm m M_next 0)
    (thenM (set_field xm m M_len 0)
    (thenM (set_field xm m M_type mtype)
    (if \<not> pkthdr
     then thenM (set_field xm m M_data (of_nat (m + m_dat_off xm))) (set_field xm m M_flags 0)
     else thenM (set_field xm m M_data (of_nat (m + m_pktdat_off xm)))
         (thenM (set_field xm m M_flags M_PKTHDR) (MBUF_INIT_PKTHDR xm m))))))"

section \<open>Allocation\<close>

text \<open>The cast \<open>(int)cp->mc_private\<close> keeps the low 32 bits of the pointer.\<close>

definition private_class :: "mcache \<Rightarrow> u32" where
  "private_class cp = of_nat (mc_private cp)"

definition is_composite :: "mcache \<Rightarrow> bool" where
  "is_composite cp \<longleftrightarrow> private_class cp \<in> {MC_MBUF_CL, MC_MBUF_BIGCL, MC_MBUF_16KCL}"

section \<open>Allocation\<close>

definition alloc_obj :: "'z xnu_mcache \<Rightarrow> mcache \<Rightarrow> ptr \<Rightarrow> (ptr, heap) prog" where
  "alloc_obj xm cp nxt =
     bindM (if mc_bufsize cp = 256 then alloc_aligned 256 256 None else malloc (mc_bufsize cp)) (\<lambda>obj.
     thenM (whenM (private_class cp = MC_MBUF) (MBUF_INIT xm obj False MT_FREE))
    (thenM (store64 (obj + obj_next_off xm) (of_nat nxt)) (retM obj)))"

text \<open>The loop; \<open>obj\<close> is the last object allocated and the next one points to it.\<close>

primrec alloc_objs :: "'z xnu_mcache \<Rightarrow> mcache \<Rightarrow> nat \<Rightarrow> ptr \<Rightarrow> (ptr, heap) prog" where
  "alloc_objs xm cp 0 obj = retM obj"
| "alloc_objs xm cp (Suc n) obj = bindM (alloc_obj xm cp obj) (\<lambda>obj. alloc_objs xm cp n obj)"

definition mcache_alloc_ext :: "'z xnu_mcache \<Rightarrow> mcache \<Rightarrow> ptr \<Rightarrow> nat \<Rightarrow> int \<Rightarrow> (nat \<times> ptr, 'z cstate_scheme) prog" where
  "mcache_alloc_ext xm cp list_content num wait =
     (if mc_slab_alloc cp \<noteq> 0 \<and> is_composite cp
      then slab_alloc_fn xm (mc_slab_alloc cp) (mc_private cp) list_content num wait
      else bindM (heapM (alloc_objs xm cp num 0)) (\<lambda>obj. retM (num, obj)))"

text \<open>\<open>buf\<close> is an uninitialised variable: \<open>junk\<close> is what it holds.\<close>

definition mcache_alloc :: "'z xnu_mcache \<Rightarrow> ptr \<Rightarrow> mcache \<Rightarrow> int \<Rightarrow> (ptr, 'z cstate_scheme) prog" where
  "mcache_alloc xm junk cp wait = bindM (mcache_alloc_ext xm cp junk 1 wait) (\<lambda>(_, buf). retM buf)"

section \<open>Release\<close>

lemma free_shrinks: "free p h = Done () t \<Longrightarrow> p \<noteq> 0 \<Longrightarrow> length (blocks t) < length (blocks h)"
proof -
  assume a: "free p h = Done () t" "p \<noteq> 0"
  then obtain n where "block_size h p = Some n" "blocks t = filter (\<lambda>(b, m). b \<noteq> p) (blocks h)"
    by (auto simp: free_def split: option.splits)
  moreover from this have "(p, n) \<in> set (blocks h)" by (simp add: block_size_def map_of_SomeD)
  ultimately show ?thesis by (auto intro: length_filter_less)
qed

lemma load64_state: "load64 a h = Done v t \<Longrightarrow> t = h"
  by (auto simp: load64_def memory_at_def split: if_splits)

text \<open>The loop reads the link of an object before it frees the object. It always ends: every round frees a live block.\<close>

function free_chain :: "nat \<Rightarrow> ptr \<Rightarrow> (unit, heap) prog" where
  "free_chain off p h =
     (if p = 0 then Done () h
      else case load64 (p + off) h of
        Stopped e \<Rightarrow> Stopped e
      | Done tmp h1 \<Rightarrow> (case free p h1 of Stopped e \<Rightarrow> Stopped e | Done _ h2 \<Rightarrow> free_chain off (unat tmp) h2))"
  by pat_completeness auto

termination
  by (relation "measure (\<lambda>(_, _, h). length (blocks h))") (auto dest: load64_state free_shrinks)

declare free_chain.simps [simp del]

definition mcache_free_ext :: "'z xnu_mcache \<Rightarrow> mcache \<Rightarrow> ptr \<Rightarrow> (unit, 'z cstate_scheme) prog" where
  "mcache_free_ext xm cp lst =
     (if mc_slab_free cp \<noteq> 0 \<and> is_composite cp
      then slab_free_fn xm (mc_slab_free cp) (mc_private cp) lst
      else heapM (free_chain (obj_next_off xm) lst))"

definition mcache_free :: "'z xnu_mcache \<Rightarrow> mcache \<Rightarrow> ptr \<Rightarrow> (unit, 'z cstate_scheme) prog" where
  "mcache_free xm cp buf = thenM (heapM (store64 (buf + obj_next_off xm) 0)) (mcache_free_ext xm cp buf)"

section \<open>Creation and the rest\<close>

text \<open>\<open>strncpy\<close> pads with zeros and does not terminate a name that fills the field.\<close>

definition strncpy_bytes :: "u8 list \<Rightarrow> nat \<Rightarrow> u8 list" where
  "strncpy_bytes src n = take n (src @ replicate n 0)"

definition mcache_create_ext ::
  "'z xnu_mcache \<Rightarrow> u8 list \<Rightarrow> nat \<Rightarrow> ptr \<Rightarrow> ptr \<Rightarrow> ptr \<Rightarrow> ptr \<Rightarrow> (ptr, 'z cstate_scheme) prog" where
  "mcache_create_ext xm name bufsize allocfn freefn auditfn arg =
     bindM (heapM (calloc 1 (sizeof_mcache xm))) (\<lambda>cache.
       if cache = 0 then stopM MemFault
       else thenM (modifyM (\<lambda>s. s\<lparr>caches := (caches s)(cache \<mapsto> \<lparr>mc_name = strncpy_bytes name (sizeof_mc_name xm), mc_bufsize = bufsize,
              mc_slab_alloc = allocfn, mc_slab_free = freefn, mc_slab_audit = auditfn, mc_private = arg\<rparr>)\<rparr>)) (retM cache))"

definition mcache_create :: "'z xnu_mcache \<Rightarrow> u8 list \<Rightarrow> nat \<Rightarrow> nat \<Rightarrow> u32 \<Rightarrow> (ptr, 'z cstate_scheme) prog" where
  "mcache_create xm name bufsize align flags =
     bindM (heapM (calloc 1 (sizeof_mcache xm))) (\<lambda>cache.
       if cache = 0 then stopM MemFault
       else thenM (modifyM (\<lambda>s. s\<lparr>caches := (caches s)(cache \<mapsto> \<lparr>mc_name = strncpy_bytes name (sizeof_mc_name xm), mc_bufsize = bufsize,
              mc_slab_alloc = 0, mc_slab_free = 0, mc_slab_audit = 0, mc_private = cache\<rparr>)\<rparr>)) (retM cache))"

definition assfail :: "(int, 's) prog" where
  "assfail = abortM"

definition mcache_audit_free_verify :: "(unit, 's) prog" where
  "mcache_audit_free_verify = abortM"

definition mcache_audit_free_verify_set :: "(unit, 's) prog" where
  "mcache_audit_free_verify_set = abortM"

definition mcache_bkt_isempty :: "mcache \<Rightarrow> bool" where
  "mcache_bkt_isempty cp = True"

definition mcache_buffer_log :: "(unit, 's) prog" where
  "mcache_buffer_log = abortM"

definition mcache_dump_mca :: "(ptr, 's) prog" where
  "mcache_dump_mca = abortM"

definition mcache_getflags :: u32 where
  "mcache_getflags = 0"

definition mcache_init :: "(unit, 's) prog" where
  "mcache_init = retM ()"

definition mcache_purge_cache :: "(bool, 's) prog" where
  "mcache_purge_cache = abortM"

definition mcache_reap :: "(unit, 's) prog" where
  "mcache_reap = abortM"

definition mcache_reap_now :: "(unit, 's) prog" where
  "mcache_reap_now = abortM"

definition mcache_set_pattern :: "(unit, 's) prog" where
  "mcache_set_pattern = abortM"

definition mcache_waiter_dec :: "(unit, 's) prog" where
  "mcache_waiter_dec = abortM"

definition mcache_waiter_inc :: "(unit, 's) prog" where
  "mcache_waiter_inc = abortM"

section \<open>Linked lists of objects\<close>

primrec chain :: "heap \<Rightarrow> ptr \<Rightarrow> ptr list \<Rightarrow> bool" where
  "chain h p [] \<longleftrightarrow> p = 0"
| "chain h p (q # qs) \<longleftrightarrow> p = q \<and> q \<noteq> 0 \<and> q < 2 ^ 64 \<and> (\<exists>r. load64 q h = Done (of_nat r) h \<and> chain h r qs)"

definition objects :: "heap \<Rightarrow> nat \<Rightarrow> ptr list \<Rightarrow> bool" where
  "objects h n ps \<longleftrightarrow> distinct ps \<and> (\<forall>q \<in> set ps. block_size h q = Some n)"

lemma load64_keeps:
  assumes "keeps h t A" "q \<notin> A" "block_size h q = Some n" "8 \<le> n" "load64 q h = Done v h"
  shows "load64 q t = Done v t"
proof -
  have t: "block_size t q = Some n" "read_bytes t q n = read_bytes h q n" using assms(1-3) by (auto simp: keeps_def)
  have "read_bytes t (q + 0) 8 = read_bytes h (q + 0) 8" using t(2) by (rule read_bytes_part_cong) (use assms(4) in simp)
  moreover have "in_block t q 8" "in_block h q 8" using in_block_base t(1) assms(3,4) by blast+
  ultimately show ?thesis using assms(5) by (simp add: load64_def memory_at_def)
qed

lemma chain_keeps:
  assumes "keeps h t A" "set ps \<inter> A = {}" "\<forall>q \<in> set ps. block_size h q = Some n" "8 \<le> n" "chain h p ps"
  shows "chain t p ps"
  using assms
proof (induction ps arbitrary: p)
  case (Cons q qs)
  then obtain r where "load64 q h = Done (of_nat r) h" "chain h r qs" by auto
  then show ?case using Cons load64_keeps [OF Cons.prems(1), of q n] by auto
qed simp

lemma chain_head_bound: "chain h p ps \<Longrightarrow> p < 2 ^ 64"
  by (cases ps) auto

lemma free_chain_frees:
  assumes "heap_wf h" "objects h n ps" "8 \<le> n" "chain h p ps"
  shows "\<exists>t. free_chain 0 p h = Done () t \<and> heap_wf t \<and> block_size t = (\<lambda>q. if q \<in> set ps then None else block_size h q)"
  using assms
proof (induction ps arbitrary: p h)
  case Nil
  then show ?case by (simp add: free_chain.simps)
next
  case (Cons q qs)
  then obtain r where r: "p = q" "q \<noteq> 0" "load64 q h = Done (of_nat r) h" "chain h r qs" by auto
  have live: "block_size h q = Some n" "q \<notin> set qs" "\<forall>x \<in> set qs. block_size h x = Some n"
    using Cons.prems(2) by (auto simp: objects_def)
  obtain t where t: "free q h = Done () t" "heap_wf t" "block_size t = (block_size h)(q := None)"
    using free_live [OF Cons.prems(1) live(1)] by blast
  have "chain t r qs"
    using chain_keeps [OF free_keeps(1) [OF t(1)] _ live(3) Cons.prems(3) r(4)] live(2) by auto
  moreover have "objects t n qs" using Cons.prems(2) live(2) t(3) by (auto simp: objects_def)
  ultimately obtain u where u: "free_chain 0 r t = Done () u" "heap_wf u"
    "block_size u = (\<lambda>x. if x \<in> set qs then None else block_size t x)"
    using Cons.IH [OF t(2) _ Cons.prems(3)] by blast
  have "unat (of_nat r :: u64) = r" using chain_head_bound [OF r(4)] by (intro unat_of_nat_less) simp
  then have "free_chain 0 p h = Done () u" using r t(1) u(1) by (simp add: free_chain.simps)
  then show ?case using u(2,3) t(3) by (auto simp: fun_eq_iff)
qed

text \<open>What the layout of XNU must promise: the link is the first field of an object, and the fields of an mbuf lie in a buffer.\<close>

definition mcache_layout_ok :: "'z xnu_mcache \<Rightarrow> nat \<Rightarrow> bool" where
  "mcache_layout_ok xm n \<longleftrightarrow> obj_next_off xm = 0 \<and> 8 \<le> n \<and> (\<forall>f. field_off xm f + field_width xm f \<le> n)"

text \<open>A run that only writes in the block at \<open>p\<close>.\<close>

definition writes_in :: "ptr \<Rightarrow> nat \<Rightarrow> (unit, heap) prog \<Rightarrow> bool" where
  "writes_in p n f \<longleftrightarrow> (\<forall>h. heap_wf h \<and> block_size h p = Some n \<longrightarrow>
     (\<exists>t. f h = Done () t \<and> heap_wf t \<and> block_size t = block_size h \<and> keeps h t {p}))"

lemma writes_in_thenM:
  assumes "writes_in p n f" "writes_in p n g"
  shows "writes_in p n (thenM f g)"
proof (unfold writes_in_def, intro allI impI)
  fix h
  assume h: "heap_wf h \<and> block_size h p = Some n"
  with assms(1) obtain t where t: "f h = Done () t" "heap_wf t" "block_size t = block_size h" "keeps h t {p}"
    unfolding writes_in_def by blast
  with h assms(2) obtain u where u: "g t = Done () u" "heap_wf u" "block_size u = block_size t" "keeps t u {p}"
    unfolding writes_in_def by force
  have "keeps h u {p}" using keeps_trans [OF t(4) u(4)] by simp
  then show "\<exists>t. thenM f g h = Done () t \<and> heap_wf t \<and> block_size t = block_size h \<and> keeps h t {p}"
    using t u by simp
qed

lemma writes_in_set_field:
  assumes "mcache_layout_ok xm n"
  shows "writes_in p n (set_field xm p f v)"
proof (unfold writes_in_def, intro allI impI)
  fix h
  assume h: "heap_wf h \<and> block_size h p = Some n"
  let ?bs = "map (\<lambda>i. ucast (drop_bit (8 * i) v)) [0 ..< field_width xm f] :: u8 list"
  let ?t = "write_bytes (p + field_off xm f) ?bs h"
  have w: "field_off xm f + field_width xm f \<le> n" using assms by (simp add: mcache_layout_ok_def)
  have "p \<noteq> 0" using h heap_wf_block_size by blast
  moreover have "in_block h (p + field_off xm f) (length ?bs)" using h w by (auto intro: in_blockI)
  ultimately have "set_field xm p f v h = Done () ?t" by (simp add: set_field_def store_at_def)
  moreover have "keeps h ?t {p}" using h w by (intro write_bytes_keeps) auto
  ultimately show "\<exists>t. set_field xm p f v h = Done () t \<and> heap_wf t \<and> block_size t = block_size h \<and> keeps h t {p}"
    using h by (intro exI [of _ ?t]) simp
qed

lemma writes_in_MBUF_INIT: "mcache_layout_ok xm n \<Longrightarrow> writes_in p n (MBUF_INIT xm p False mtype)"
  by (simp add: MBUF_INIT_def writes_in_thenM writes_in_set_field)

lemma MBUF_INIT_NULL: "MBUF_INIT xm 0 pkthdr mtype h = Stopped MemFault"
  by (simp add: MBUF_INIT_def set_field_def)

lemma store_null_faults: "heap_wf h \<Longrightarrow> store64 0 w h = Stopped MemFault"
  using length_bytes_of_u64 [of w]
  by (auto simp del: length_bytes_of_u64 simp: store64_def store_at_def in_block_def list_ex_iff heap_wf_def dest: blocks_wf_mem)

lemma alloc_obj_runs:
  assumes wf: "heap_wf h" and ok: "mcache_layout_ok xm (mc_bufsize cp)"
  shows "alloc_obj xm cp nxt h = Stopped MemFault \<or>
     (\<exists>p t. alloc_obj xm cp nxt h = Done p t \<and> heap_wf t \<and> p \<noteq> 0 \<and> p < 2 ^ 64 \<and> block_size h p = None \<and>
        block_size t = (block_size h)(p \<mapsto> mc_bufsize cp) \<and> keeps h t {} \<and> load64 p t = Done (of_nat nxt) t)"
proof -
  let ?n = "mc_bufsize cp"
  let ?take = "if ?n = 256 then alloc_aligned 256 256 None else malloc ?n"
  have take_eq: "?take = alloc_aligned (if ?n = 256 then 256 else 1) ?n None" by (simp add: malloc_def)
  obtain p a where "?take h = Done p a" and a2: "heap_wf a"
    "p = 0 \<and> block_size a = block_size h \<or> p \<noteq> 0 \<and> block_size h p = None \<and> block_size a = (block_size h)(p \<mapsto> ?n)"
    using alloc_aligned_contract [OF wf, of "if ?n = 256 then 256 else 1" ?n None] unfolding take_eq by blast
  then have a: "?take h = Done p a" "heap_wf a" "keeps h a {}"
    "p = 0 \<and> block_size a = block_size h \<or> p \<noteq> 0 \<and> block_size h p = None \<and> block_size a = (block_size h)(p \<mapsto> ?n)"
    using alloc_aligned_keeps unfolding take_eq by blast+
  show ?thesis
  proof (cases "p = 0")
    case True
    then show ?thesis using a(1) ok store_null_faults [OF a(2)]
      by (simp add: alloc_obj_def mcache_layout_ok_def MBUF_INIT_NULL)
  next
    case False
    then have live: "block_size a p = Some ?n" "block_size h p = None" "block_size a = (block_size h)(p \<mapsto> ?n)" using a(4) by auto
    have "\<exists>b. MBUF_INIT xm p False MT_FREE a = Done () b \<and> heap_wf b \<and> block_size b = block_size a \<and> keeps a b {p}"
      using writes_in_MBUF_INIT [OF ok] a(2) live(1) unfolding writes_in_def by blast
    then obtain b where b: "whenM (private_class cp = MC_MBUF) (MBUF_INIT xm p False MT_FREE) a = Done () b" "heap_wf b"
        "block_size b = block_size a" "keeps a b {p}"
      using a(2) by (cases "private_class cp = MC_MBUF") auto
    let ?bs = "bytes_of_u64 (of_nat nxt)"
    let ?t = "write_bytes p ?bs b"
    have n8: "8 \<le> ?n" "obj_next_off xm = 0" using ok by (simp_all add: mcache_layout_ok_def)
    have live_b: "block_size b p = Some ?n" using b(3) live(1) by simp
    then have inb: "in_block b p 8" using in_block_base n8(1) by blast
    have kt: "keeps b ?t {p}" using b(2) live_b n8(1) by (intro write_bytes_keeps) auto
    have "keeps h ?t {p}" using keeps_trans [OF keeps_trans [OF a(3) b(4)] kt] by simp
    then have kp: "keeps h ?t {}" using live(2) by (auto intro: keeps_fresh)
    have run: "alloc_obj xm cp nxt h = Done p ?t"
      using a(1) b(1) inb n8(2) by (simp add: alloc_obj_def store64_def store_at_def)
    have load: "load64 p ?t = Done (of_nat nxt) ?t"
      using inb read_write_same [of p ?bs b] by (simp add: load64_def memory_at_def)
    have "p < 2 ^ 64" using heap_wf_block_size [OF a(2) live(1)] by (simp add: addr_limit_def)
    then have "alloc_obj xm cp nxt h = Done p ?t \<and> heap_wf ?t \<and> p \<noteq> 0 \<and> p < 2 ^ 64 \<and> block_size h p = None \<and>
        block_size ?t = (block_size h)(p \<mapsto> ?n) \<and> keeps h ?t {} \<and> load64 p ?t = Done (of_nat nxt) ?t"
      using run load kp False b(2,3) live by simp
    then show ?thesis by blast
  qed
qed

lemma alloc_objs_chain:
  assumes "heap_wf h" "mcache_layout_ok xm (mc_bufsize cp)" "chain h obj ps" "objects h (mc_bufsize cp) ps"
  shows "alloc_objs xm cp n obj h = Stopped MemFault \<or>
     (\<exists>p t qs. alloc_objs xm cp n obj h = Done p t \<and> heap_wf t \<and> chain t p (qs @ ps) \<and> objects t (mc_bufsize cp) (qs @ ps) \<and>
        length qs = n \<and> (\<forall>q \<in> set qs. block_size h q = None) \<and>
        block_size t = (\<lambda>q. if q \<in> set qs then Some (mc_bufsize cp) else block_size h q) \<and> keeps h t {})"
  using assms
proof (induction n arbitrary: obj h ps)
  case 0
  then show ?case by (auto intro: exI [of _ "[]"])
next
  case (Suc n)
  let ?n = "mc_bufsize cp"
  from alloc_obj_runs [OF Suc.prems(1,2), of obj] show ?case
  proof (elim disjE exE conjE, goal_cases)
    case 1
    then show ?case by simp
  next
    case (2 p t)
    have n8: "8 \<le> ?n" using Suc.prems(2) by (simp add: mcache_layout_ok_def)
    have "chain t obj ps"
      using chain_keeps [OF \<open>keeps h t {}\<close> _ _ n8 Suc.prems(3)] Suc.prems(4) by (auto simp: objects_def)
    then have c: "chain t p (p # ps)" using 2 by auto
    have o: "objects t ?n (p # ps)" using 2 Suc.prems(4) by (auto simp: objects_def)
    from Suc.IH [OF \<open>heap_wf t\<close> Suc.prems(2) c o] show ?case
    proof (elim disjE exE conjE, goal_cases)
      case 1
      then show ?case using \<open>alloc_obj xm cp obj h = Done p t\<close> by simp
    next
      case (2 r u qs)
      have "p \<notin> set qs" using 2 \<open>block_size t = _\<close> by auto
      then have "block_size u = (\<lambda>q. if q \<in> set (qs @ [p]) then Some ?n else block_size h q)"
        using 2 \<open>block_size t = _\<close> by (auto simp: fun_eq_iff)
      moreover have "\<forall>q \<in> set (qs @ [p]). block_size h q = None"
        using 2 \<open>block_size h p = None\<close> \<open>block_size t = _\<close> by (auto split: if_splits)
      moreover have "keeps h u {}" using keeps_trans [OF \<open>keeps h t {}\<close> \<open>keeps t u {}\<close>] by simp
      ultimately show ?case
        using 2 \<open>alloc_obj xm cp obj h = Done p t\<close> by (intro disjI2 exI [of _ r] exI [of _ u] exI [of _ "qs @ [p]"]) simp
    qed
  qed
qed

section \<open>Properties\<close>

text \<open>C26. Allocating and releasing objects. For a cache without slab functions, or one that is not composite, an allocation of
  \<open>num\<close> objects faults when the C heap has no memory, which the code does not check. Otherwise it returns
  \<open>num\<close> and the head of a list of that many different blocks, each of the buffer size and not live before; no
  other block changes. Releasing that list ends, and the live blocks are those from before the allocation.\<close>

theorem mcache_alloc_free_roundtrip:
  assumes wf: "heap_wf (mheap s)" and ok: "mcache_layout_ok xm (mc_bufsize cp)"
    and plain: "\<not> is_composite cp \<or> mc_slab_alloc cp = 0 \<and> mc_slab_free cp = 0"
  shows "mcache_alloc_ext xm cp junk num wait s = Stopped MemFault \<or>
     (\<exists>p t qs u. mcache_alloc_ext xm cp junk num wait s = Done (num, p) t \<and> chain (mheap t) p qs \<and>
        objects (mheap t) (mc_bufsize cp) qs \<and> length qs = num \<and> (\<forall>q \<in> set qs. live_blocks s q = None) \<and>
        keeps (mheap s) (mheap t) {} \<and> mcache_free_ext xm cp p t = Done () u \<and> live_blocks u = live_blocks s)"
proof -
  have a: "mcache_alloc_ext xm cp junk num wait = bindM (heapM (alloc_objs xm cp num 0)) (\<lambda>obj. retM (num, obj))"
    and f: "mcache_free_ext xm cp p = heapM (free_chain 0 p)" for p
    using plain ok by (auto simp: mcache_alloc_ext_def mcache_free_ext_def mcache_layout_ok_def)
  have n8: "8 \<le> mc_bufsize cp" using ok by (simp add: mcache_layout_ok_def)
  have "chain (mheap s) 0 []" "objects (mheap s) (mc_bufsize cp) []" by (simp_all add: objects_def)
  from alloc_objs_chain [OF wf ok this, of num] show ?thesis
  proof (elim disjE exE conjE, goal_cases)
    case 1
    then show ?case by (simp add: a)
  next
    case (2 p t qs)
    then have c: "chain t p qs" "objects t (mc_bufsize cp) qs" by simp_all
    obtain u where u: "free_chain 0 p t = Done () u" "block_size u = (\<lambda>q. if q \<in> set qs then None else block_size t q)"
      using free_chain_frees [OF \<open>heap_wf t\<close> c(2) n8 c(1)] by blast
    have "block_size u = block_size (mheap s)" using u(2) 2 by (auto simp: fun_eq_iff)
    then show ?case using 2 c u(1)
      by (intro disjI2 exI [of _ p] exI [of _ "s\<lparr>mheap := t\<rparr>"] exI [of _ qs] exI [of _ "s\<lparr>mheap := u\<rparr>"])
         (simp add: a f live_blocks_def)
  qed
qed

definition xnu_plain :: "'z xnu_mcache" where
  "xnu_plain = \<lparr>obj_next_off = 0, sizeof_mcache = 128, sizeof_mc_name = 4,
     field_off = (\<lambda>f. case f of M_next \<Rightarrow> 0 | M_nextpkt \<Rightarrow> 8 | M_data \<Rightarrow> 16 | M_len \<Rightarrow> 24 | M_type \<Rightarrow> 28 | M_flags \<Rightarrow> 32 | _ \<Rightarrow> 40),
     field_width = (\<lambda>f. case f of M_len \<Rightarrow> 4 | M_type \<Rightarrow> 2 | M_flags \<Rightarrow> 4 | _ \<Rightarrow> 8), m_dat_off = 32, m_pktdat_off = 160,
     m_classifier_init = (\<lambda>_. retM ()), m_tag_init = (\<lambda>_. retM ()), m_scratch_init = (\<lambda>_. retM ()),
     slab_alloc_fn = (\<lambda>_ _ l _ _. retM (0, l)), slab_free_fn = (\<lambda>_ _ _. retM ())\<rparr>"

definition cache_512 :: mcache where
  "cache_512 = \<lparr>mc_name = [], mc_bufsize = 512, mc_slab_alloc = 0, mc_slab_free = 0, mc_slab_audit = 0, mc_private = 0\<rparr>"

definition cstate_example :: cstate where
  "cstate_example = \<lparr>mheap = \<lparr>choices = [(1024, \<lambda>_. 7), (2048, \<lambda>_. 7)], blocks = [], mem = (\<lambda>_. 0)\<rparr>, mfuzz = None, caches = Map.empty\<rparr>"

lemma alloc_objs_2: "alloc_objs xm cp 2 obj = bindM (alloc_obj xm cp obj) (\<lambda>obj. bindM (alloc_obj xm cp obj) retM)"
  by (simp add: numeral_2_eq_2 fun_eq_iff)

theorem mcache_alloc_free_roundtrip_witness:
  "\<exists>p t u. mcache_alloc_ext xnu_plain cache_512 0 2 0 cstate_example = Done (2, p) t \<and>
     mcache_free_ext xnu_plain cache_512 p t = Done () u \<and> live_blocks u = live_blocks cstate_example"
proof -
  have "heap_wf (mheap cstate_example)" by (simp add: cstate_example_def heap_wf_def)
  moreover have "mcache_layout_ok xnu_plain (mc_bufsize cache_512)"
    by (simp add: mcache_layout_ok_def xnu_plain_def cache_512_def split: mbuf_field.split)
  moreover have "\<not> is_composite cache_512 \<or> mc_slab_alloc cache_512 = 0 \<and> mc_slab_free cache_512 = 0" by (simp add: cache_512_def)
  moreover have "mcache_alloc_ext xnu_plain cache_512 0 2 0 cstate_example \<noteq> Stopped MemFault"
    by (simp add: mcache_alloc_ext_def cache_512_def cstate_example_def alloc_objs_2 alloc_obj_def malloc_def alloc_aligned_def
        legal_block_def separate_def addr_limit_def private_class_def MC_MBUF_def xnu_plain_def store64_def store_at_def in_block_def MBUF_INIT_def set_field_def write_bytes_def)
  ultimately show ?thesis
    using mcache_alloc_free_roundtrip [of cstate_example xnu_plain cache_512 0 2 0] by blast
qed

text \<open>A release always ends. On any heap and from any pointer, even along a cyclic or broken list, \<open>free_chain\<close> returns or
  faults: it never loops. A list that leads back to a freed object faults when the object is read again.\<close>

lemma free_chain_cycle_faults:
  assumes "heap_wf h" and "block_size h p = Some n" and "8 \<le> n" and "load64 p h = Done (of_nat p) h"
  shows "free_chain 0 p h = Stopped MemFault"
proof -
  have p: "p \<noteq> 0" "p < 2 ^ 64" using heap_wf_block_size [OF assms(1,2)] by (auto simp: addr_limit_def)
  obtain t where t: "free p h = Done () t" "heap_wf t" "block_size t = (block_size h)(p := None)"
    using free_live [OF assms(1,2)] by blast
  have u: "unat (of_nat p :: u64) = p" using p(2) by (intro unat_of_nat_less) simp
  have sep: "separate p n b m" if "(b, m) \<in> set (blocks t)" for b m
  proof -
    have "blocks t = filter (\<lambda>(b, m). b \<noteq> p) (blocks h)" using t(1) p(1) assms(2) by (auto simp: free_def)
    then have "(b, m) \<in> set (blocks h)" "b \<noteq> p" using that by auto
    moreover have "(p, n) \<in> set (blocks h)" using assms(2) by (simp add: block_size_def map_of_SomeD)
    ultimately show ?thesis using assms(1) blocks_wf_separate unfolding heap_wf_def by blast
  qed
  have "\<not> in_block t p 8" using sep assms(3) by (fastforce simp: in_block_def list_ex_iff separate_def)
  then have "load64 p t = Stopped MemFault" by (simp add: load64_def memory_at_def)
  then have "free_chain 0 p t = Stopped MemFault" using p(1) by (simp add: free_chain.simps)
  then show ?thesis using p(1) assms(4) t(1) u by (subst free_chain.simps) simp
qed

lemma free_chain_cycle_faults_witness:
  "free_chain 0 1024 \<lparr>choices = [], blocks = [(1024, 8)], mem = (\<lambda>a. if a = 1025 then 4 else 0)\<rparr> = Stopped MemFault"
proof -
  let ?h = "\<lparr>choices = [], blocks = [(1024, 8)], mem = (\<lambda>a. if a = 1025 then 4 else 0)\<rparr> :: heap"
  have "heap_wf ?h" "block_size ?h 1024 = Some 8" by (simp_all add: heap_wf_def legal_block_def addr_limit_def block_size_def)
  moreover have "load64 1024 ?h = Done (of_nat 1024) ?h"
    by (simp add: load64_def memory_at_def in_block_def read_bytes_def)
  ultimately show ?thesis using free_chain_cycle_faults [of ?h 1024 8] by simp
qed

end
