(* ===== verification/SchedTable.thy ===== *)
theory SchedTable
  imports Host
begin

text \<open>
  The scheduler the guest kernel is given, \<open>fuzz/xnu/osfmk/fakes/scheduler.c\<close>: a dispatch table in which every operation that
  would choose, enqueue or migrate a thread aborts, because the host's scheduler does that, and the others give fixed
  answers. XNU's objects (\<open>pset0\<close>, \<open>pset_node0\<close>, \<open>master_processor\<close>), constants and functions are the parameter \<open>xs\<close>.
\<close>

section \<open>State and parameters\<close>

record qstate = host +
  processor_set :: ptr
  th_sched_bucket :: "thread_t \<Rightarrow> u32"
  pri_shift :: "thread_t \<Rightarrow> int"

record 'z xnu_sched =
  pset0 :: ptr
  pset_node0 :: ptr
  master_processor :: ptr
  AST_NONE :: u32
  TH_MODE_FIXED :: u32
  TH_BUCKET_RUN :: u32
  TH_UNINT :: u32
  sched_assert_wait :: "u64 \<Rightarrow> u32 \<Rightarrow> (wait_result, 'z qstate_scheme) prog"
  thread_block_maintenance :: "(wait_result, 'z qstate_scheme) prog"
  pset_unlock :: "ptr \<Rightarrow> (unit, 'z qstate_scheme) prog"
  pset_rt_runq :: "ptr \<Rightarrow> ptr"
  priority_is_urgent :: "int \<Rightarrow> bool"
  can_update_priority :: "thread_t \<Rightarrow> (bool, 'z qstate_scheme) prog"
  update_priority :: "thread_t \<Rightarrow> (unit, 'z qstate_scheme) prog"
  lightweight_update_priority :: "thread_t \<Rightarrow> (unit, 'z qstate_scheme) prog"

section \<open>Operations\<close>

definition sched_init :: "'z xnu_sched \<Rightarrow> (unit, 'z qstate_scheme) prog" where
  "sched_init xs = modifyM (\<lambda>s. s\<lparr>processor_set := pset0 xs\<rparr>)"

definition timebase_init :: "(unit, 's) prog" where
  "timebase_init = abortM"

text \<open>The event is the constant 0x41414141; the continuation of \<open>thread_block\<close> is this function again.\<close>

definition maintenance_continuation :: "'z xnu_sched \<Rightarrow> (unit, 'z qstate_scheme) prog" where
  "maintenance_continuation xs =
     bindM (sched_assert_wait xs 0x41414141 (TH_UNINT xs)) (\<lambda>_. bindM (thread_block_maintenance xs) (\<lambda>_. retM ()))"

definition choose_thread :: "ptr \<Rightarrow> int \<Rightarrow> u32 \<Rightarrow> (thread_t, 's) prog" where
  "choose_thread processor priority reason = abortM"

definition steal_thread_enabled :: "ptr \<Rightarrow> bool" where
  "steal_thread_enabled pset = False"

definition steal_thread :: "ptr \<Rightarrow> (thread_t, 's) prog" where
  "steal_thread pset = abortM"

definition compute_timeshare_priority :: "thread_t \<Rightarrow> (int, 's) prog" where
  "compute_timeshare_priority thread = abortM"

definition choose_node :: "'z xnu_sched \<Rightarrow> thread_t \<Rightarrow> ptr" where
  "choose_node xs thread = pset_node0 xs"

definition choose_processor_stub :: "'z xnu_sched \<Rightarrow> ptr \<Rightarrow> ptr \<Rightarrow> thread_t \<Rightarrow> ptr" where
  "choose_processor_stub xs pset processor thread = master_processor xs"

definition processor_enqueue :: "ptr \<Rightarrow> thread_t \<Rightarrow> u32 \<Rightarrow> (bool, 's) prog" where
  "processor_enqueue processor thread options = abortM"

definition processor_queue_shutdown :: "ptr \<Rightarrow> (unit, 's) prog" where
  "processor_queue_shutdown processor = abortM"

definition processor_queue_remove :: "ptr \<Rightarrow> thread_t \<Rightarrow> (bool, 's) prog" where
  "processor_queue_remove processor thread = abortM"

definition processor_queue_empty :: "ptr \<Rightarrow> (bool, 's) prog" where
  "processor_queue_empty processor = abortM"

definition processor_csw_check :: "'z xnu_sched \<Rightarrow> ptr \<Rightarrow> u32" where
  "processor_csw_check xs processor = AST_NONE xs"

definition processor_queue_has_priority :: "ptr \<Rightarrow> int \<Rightarrow> bool \<Rightarrow> (bool, 's) prog" where
  "processor_queue_has_priority processor priority gte = abortM"

definition initial_quantum_size :: "thread_t \<Rightarrow> u32" where
  "initial_quantum_size thread = 5"

definition initial_thread_sched_mode :: "'z xnu_sched \<Rightarrow> ptr \<Rightarrow> u32" where
  "initial_thread_sched_mode xs parent_task = TH_MODE_FIXED xs"

definition quantum_expire :: "thread_t \<Rightarrow> (unit, 's) prog" where
  "quantum_expire thread = abortM"

definition processor_runq_count :: "ptr \<Rightarrow> (int, 's) prog" where
  "processor_runq_count processor = abortM"

definition processor_runq_stats_count_sum :: "ptr \<Rightarrow> (u64, 's) prog" where
  "processor_runq_stats_count_sum processor = abortM"

definition processor_bound_count :: "ptr \<Rightarrow> bool" where
  "processor_bound_count processor = True"

definition thread_update_scan :: "ptr \<Rightarrow> (unit, 's) prog" where
  "thread_update_scan scan_context = abortM"

definition thread_avoid_processor :: "ptr \<Rightarrow> thread_t \<Rightarrow> (bool, 's) prog" where
  "thread_avoid_processor processor thread = abortM"

definition processor_balance :: "'z xnu_sched \<Rightarrow> ptr \<Rightarrow> ptr \<Rightarrow> (unit, 'z qstate_scheme) prog" where
  "processor_balance xs processor pset = pset_unlock xs pset"

definition rt_runq :: "'z xnu_sched \<Rightarrow> ptr \<Rightarrow> ptr" where
  "rt_runq xs pset = pset_rt_runq xs pset"

definition rt_init :: "ptr \<Rightarrow> (unit, 's) prog" where
  "rt_init pset = retM ()"

definition rt_queue_shutdown :: "ptr \<Rightarrow> (unit, 's) prog" where
  "rt_queue_shutdown processor = abortM"

definition rt_runq_scan :: "ptr \<Rightarrow> (unit, 's) prog" where
  "rt_runq_scan scan_context = abortM"

definition rt_runq_count_sum :: "(int, 's) prog" where
  "rt_runq_count_sum = abortM"

definition rt_steal_thread :: "ptr \<Rightarrow> u64 \<Rightarrow> (thread_t, 's) prog" where
  "rt_steal_thread pset earliest_deadline = abortM"

definition check_spill :: "ptr \<Rightarrow> thread_t \<Rightarrow> (unit, 's) prog" where
  "check_spill pset thread = retM ()"

definition ipi_policy :: "ptr \<Rightarrow> thread_t \<Rightarrow> bool \<Rightarrow> u32 \<Rightarrow> (u32, 's) prog" where
  "ipi_policy dst thread dst_idle event = abortM"

definition thread_should_yield :: "ptr \<Rightarrow> thread_t \<Rightarrow> 'z host_scheme \<Rightarrow> bool" where
  "thread_should_yield processor thread s \<longleftrightarrow> thread \<noteq> main_thread s"

definition run_count_incr :: "thread_t \<Rightarrow> u32" where
  "run_count_incr thread = 1"

definition run_count_decr :: "thread_t \<Rightarrow> u32" where
  "run_count_decr thread = 1"

text \<open>\<open>INT8_MAX\<close> is 127.\<close>

definition update_thread_bucket :: "'z xnu_sched \<Rightarrow> thread_t \<Rightarrow> (unit, 'z qstate_scheme) prog" where
  "update_thread_bucket xs thread = modifyM (\<lambda>s. s\<lparr>th_sched_bucket := (th_sched_bucket s)(thread := TH_BUCKET_RUN xs),
     pri_shift := (pri_shift s)(thread := 127)\<rparr>)"

definition pset_made_schedulable :: "ptr \<Rightarrow> ptr \<Rightarrow> bool \<Rightarrow> (unit, 's) prog" where
  "pset_made_schedulable processor pset drop_lock = abortM"

definition cpu_init_completed :: "(unit, 's) prog" where
  "cpu_init_completed = abortM"

definition thread_eligible_for_pset :: "thread_t \<Rightarrow> ptr \<Rightarrow> (bool, 's) prog" where
  "thread_eligible_for_pset thread pset = abortM"

definition pset_init_stub :: "ptr \<Rightarrow> (unit, 's) prog" where
  "pset_init_stub pset = retM ()"

definition processor_init_stub :: "ptr \<Rightarrow> (unit, 's) prog" where
  "processor_init_stub p = retM ()"

definition qos_max_parallelism_nop :: "int \<Rightarrow> u64 \<Rightarrow> u32" where
  "qos_max_parallelism_nop qos options = 0"

section \<open>The dispatch table\<close>

record 'z sched_dispatch_table =
  sched_name :: string
  d_init :: "(unit, 'z qstate_scheme) prog"
  d_timebase_init :: "(unit, 'z qstate_scheme) prog"
  d_processor_init :: "ptr \<Rightarrow> (unit, 'z qstate_scheme) prog"
  d_pset_init :: "ptr \<Rightarrow> (unit, 'z qstate_scheme) prog"
  d_maintenance_continuation :: "(unit, 'z qstate_scheme) prog"
  d_choose_thread :: "ptr \<Rightarrow> int \<Rightarrow> u32 \<Rightarrow> (thread_t, 'z qstate_scheme) prog"
  d_steal_thread_enabled :: "ptr \<Rightarrow> bool"
  d_steal_thread :: "ptr \<Rightarrow> (thread_t, 'z qstate_scheme) prog"
  d_compute_timeshare_priority :: "thread_t \<Rightarrow> (int, 'z qstate_scheme) prog"
  d_choose_node :: "thread_t \<Rightarrow> ptr"
  d_choose_processor :: "ptr \<Rightarrow> ptr \<Rightarrow> thread_t \<Rightarrow> ptr"
  d_processor_enqueue :: "ptr \<Rightarrow> thread_t \<Rightarrow> u32 \<Rightarrow> (bool, 'z qstate_scheme) prog"
  d_processor_queue_shutdown :: "ptr \<Rightarrow> (unit, 'z qstate_scheme) prog"
  d_processor_queue_remove :: "ptr \<Rightarrow> thread_t \<Rightarrow> (bool, 'z qstate_scheme) prog"
  d_processor_queue_empty :: "ptr \<Rightarrow> (bool, 'z qstate_scheme) prog"
  d_priority_is_urgent :: "int \<Rightarrow> bool"
  d_processor_csw_check :: "ptr \<Rightarrow> u32"
  d_processor_queue_has_priority :: "ptr \<Rightarrow> int \<Rightarrow> bool \<Rightarrow> (bool, 'z qstate_scheme) prog"
  d_initial_quantum_size :: "thread_t \<Rightarrow> u32"
  d_initial_thread_sched_mode :: "ptr \<Rightarrow> u32"
  d_can_update_priority :: "thread_t \<Rightarrow> (bool, 'z qstate_scheme) prog"
  d_update_priority :: "thread_t \<Rightarrow> (unit, 'z qstate_scheme) prog"
  d_lightweight_update_priority :: "thread_t \<Rightarrow> (unit, 'z qstate_scheme) prog"
  d_quantum_expire :: "thread_t \<Rightarrow> (unit, 'z qstate_scheme) prog"
  d_processor_runq_count :: "ptr \<Rightarrow> (int, 'z qstate_scheme) prog"
  d_processor_runq_stats_count_sum :: "ptr \<Rightarrow> (u64, 'z qstate_scheme) prog"
  d_processor_bound_count :: "ptr \<Rightarrow> bool"
  d_thread_update_scan :: "ptr \<Rightarrow> (unit, 'z qstate_scheme) prog"
  multiple_psets_enabled :: bool
  sched_groups_enabled :: bool
  avoid_processor_enabled :: bool
  d_thread_avoid_processor :: "ptr \<Rightarrow> thread_t \<Rightarrow> (bool, 'z qstate_scheme) prog"
  d_processor_balance :: "ptr \<Rightarrow> ptr \<Rightarrow> (unit, 'z qstate_scheme) prog"
  d_rt_runq :: "ptr \<Rightarrow> ptr"
  d_rt_init :: "ptr \<Rightarrow> (unit, 'z qstate_scheme) prog"
  d_rt_queue_shutdown :: "ptr \<Rightarrow> (unit, 'z qstate_scheme) prog"
  d_rt_runq_scan :: "ptr \<Rightarrow> (unit, 'z qstate_scheme) prog"
  d_rt_runq_count_sum :: "(int, 'z qstate_scheme) prog"
  d_rt_steal_thread :: "ptr \<Rightarrow> u64 \<Rightarrow> (thread_t, 'z qstate_scheme) prog"
  d_qos_max_parallelism :: "int \<Rightarrow> u64 \<Rightarrow> u32"
  d_check_spill :: "ptr \<Rightarrow> thread_t \<Rightarrow> (unit, 'z qstate_scheme) prog"
  d_ipi_policy :: "ptr \<Rightarrow> thread_t \<Rightarrow> bool \<Rightarrow> u32 \<Rightarrow> (u32, 'z qstate_scheme) prog"
  d_thread_should_yield :: "ptr \<Rightarrow> thread_t \<Rightarrow> 'z qstate_scheme \<Rightarrow> bool"
  d_run_count_incr :: "thread_t \<Rightarrow> u32"
  d_run_count_decr :: "thread_t \<Rightarrow> u32"
  d_update_thread_bucket :: "thread_t \<Rightarrow> (unit, 'z qstate_scheme) prog"
  d_pset_made_schedulable :: "ptr \<Rightarrow> ptr \<Rightarrow> bool \<Rightarrow> (unit, 'z qstate_scheme) prog"
  d_cpu_init_completed :: "(unit, 'z qstate_scheme) prog"
  d_thread_eligible_for_pset :: "thread_t \<Rightarrow> ptr \<Rightarrow> (bool, 'z qstate_scheme) prog"

definition sched_dualq_dispatch :: "'z xnu_sched \<Rightarrow> 'z sched_dispatch_table" where
  "sched_dualq_dispatch xs = \<lparr>sched_name = ''SockScheduler'', d_init = sched_init xs, d_timebase_init = timebase_init,
     d_processor_init = processor_init_stub, d_pset_init = pset_init_stub, d_maintenance_continuation = maintenance_continuation xs,
     d_choose_thread = choose_thread, d_steal_thread_enabled = steal_thread_enabled, d_steal_thread = steal_thread,
     d_compute_timeshare_priority = compute_timeshare_priority, d_choose_node = choose_node xs,
     d_choose_processor = choose_processor_stub xs, d_processor_enqueue = processor_enqueue,
     d_processor_queue_shutdown = processor_queue_shutdown, d_processor_queue_remove = processor_queue_remove,
     d_processor_queue_empty = processor_queue_empty, d_priority_is_urgent = priority_is_urgent xs,
     d_processor_csw_check = processor_csw_check xs, d_processor_queue_has_priority = processor_queue_has_priority,
     d_initial_quantum_size = initial_quantum_size, d_initial_thread_sched_mode = initial_thread_sched_mode xs,
     d_can_update_priority = can_update_priority xs, d_update_priority = update_priority xs,
     d_lightweight_update_priority = lightweight_update_priority xs, d_quantum_expire = quantum_expire,
     d_processor_runq_count = processor_runq_count, d_processor_runq_stats_count_sum = processor_runq_stats_count_sum,
     d_processor_bound_count = processor_bound_count, d_thread_update_scan = thread_update_scan,
     multiple_psets_enabled = False, sched_groups_enabled = False, avoid_processor_enabled = False,
     d_thread_avoid_processor = thread_avoid_processor, d_processor_balance = processor_balance xs, d_rt_runq = rt_runq xs,
     d_rt_init = rt_init, d_rt_queue_shutdown = rt_queue_shutdown, d_rt_runq_scan = rt_runq_scan,
     d_rt_runq_count_sum = rt_runq_count_sum, d_rt_steal_thread = rt_steal_thread, d_qos_max_parallelism = qos_max_parallelism_nop,
     d_check_spill = check_spill, d_ipi_policy = ipi_policy, d_thread_should_yield = (\<lambda>p th s. thread_should_yield p th s),
     d_run_count_incr = run_count_incr, d_run_count_decr = run_count_decr, d_update_thread_bucket = update_thread_bucket xs,
     d_pset_made_schedulable = pset_made_schedulable, d_cpu_init_completed = cpu_init_completed,
     d_thread_eligible_for_pset = thread_eligible_for_pset\<rparr>"

end
