(* ===== verification/Stubs.thy ===== *)
theory Stubs
  imports Copyio Mcache "HOL-Library.Log_Nat"
begin

text \<open>
  The functions of \<open>fuzz/xnu/osfmk/fakes/osfmk_stubs.c\<close> and \<open>fuzz/xnu/bsd/fakes/stubs.c\<close> that compute something: bit
  scans, random numbers below a bound, the boot-time registry with a DHCP answer, time conversion, message copies, values taken
  from the fuzzer's input. The stubs that abort, return a constant or do nothing are listed in the theory StubTable.

  A value stored through a pointer argument comes with the result.
\<close>

section \<open>Bit scans\<close>

text \<open>\<open>__builtin_clz\<close> counts the zeros above the highest one among the low \<open>n\<close> bits; its result for 0 is undefined.\<close>

primrec clz_from :: "nat \<Rightarrow> 'a::len word \<Rightarrow> nat" where
  "clz_from 0 w = 0"
| "clz_from (Suc n) w = (if bit w n then 0 else Suc (clz_from n w))"

definition builtin_clz :: "u32 \<Rightarrow> nat option" where
  "builtin_clz w = (if w = 0 then None else Some (clz_from 32 w))"

definition builtin_clzll :: "u64 \<Rightarrow> nat option" where
  "builtin_clzll w = (if w = 0 then None else Some (clz_from 64 w))"

definition fls :: "u32 \<Rightarrow> nat" where
  "fls w = (if w = 0 then 0 else 4 * 8 - the (builtin_clz w))"

definition flsll :: "u64 \<Rightarrow> nat" where
  "flsll w = (if w = 0 then 0 else 8 * 8 - the (builtin_clzll w))"

section \<open>Random numbers\<close>

text \<open>An undefined count of leading zeros stops the run.\<close>

definition crypto_random_uniform :: "u64 \<Rightarrow> (u64, 'z mach_scheme) prog" where
  "crypto_random_uniform bound =
     (if bound = 0 then retM 0
      else case builtin_clzll (bound - 1) of
        None \<Rightarrow> stopM MemFault
      | Some z \<Rightarrow>
          if 64 - z \<le> 32
          then bindM (fuzzM (GetFuzzedUint32InRange 0 (ucast (bound - 1)))) (\<lambda>r. retM (ucast r))
          else bindM (fuzzM GetFuzzedUint64) (\<lambda>r. retM (r mod bound)))"

definition cc_rand_generate :: "ptr \<Rightarrow> nat \<Rightarrow> (int, 'z mach_scheme) prog" where
  "cc_rand_generate out outlen = thenM (heapM (memset out 0 outlen)) (retM 0)"

section \<open>The boot-time registry\<close>

text \<open>\<open>htonl\<close> reverses the bytes of a little-endian word.\<close>

definition htonl :: "u32 \<Rightarrow> u32" where
  "htonl w = push_bit 24 (w AND 0xFF) OR push_bit 8 (w AND 0xFF00) OR (drop_bit 8 w AND 0xFF00) OR drop_bit 24 w"

definition simple_inet_addr :: "u32 \<Rightarrow> u32 \<Rightarrow> u32 \<Rightarrow> u32 \<Rightarrow> u32" where
  "simple_inet_addr a b c d = htonl (push_bit 24 a OR push_bit 16 b OR push_bit 8 c OR d)"

definition le_bytes32 :: "u32 \<Rightarrow> u8 list" where
  "le_bytes32 w = map (\<lambda>i. ucast (drop_bit (8 * i) w)) [0 ..< 4]"

record fake_registry_entry =
  re_path :: string
  dp_yiaddr :: u32
  dp_options :: "u8 list"
  netmask :: u32
  router :: u32

definition dhcptag_subnet_mask_e :: u8 where "dhcptag_subnet_mask_e = 1"
definition dhcptag_router_e :: u8 where "dhcptag_router_e = 3"
definition dhcptag_end_e :: u8 where "dhcptag_end_e = 255"

text \<open>\<open>memcpy\<close> of four bytes into the options.\<close>

definition put4 :: "nat \<Rightarrow> u32 \<Rightarrow> u8 list \<Rightarrow> u8 list" where
  "put4 i w xs = (let b = le_bytes32 w in xs[i := b ! 0, i + 1 := b ! 1, i + 2 := b ! 2, i + 3 := b ! 3])"

text \<open>The registry entry is one static object; the answer is whether it is returned (NULL otherwise). \<open>strncpy\<close> copies at most
  255 characters and leaves the rest of the field as it pads it.\<close>

definition IOBSDRegistryEntryForDeviceTree :: "string \<Rightarrow> fake_registry_entry \<Rightarrow> bool \<times> fake_registry_entry" where
  "IOBSDRegistryEntryForDeviceTree path e =
     (if path = ''/chosen''
      then let e = e\<lparr>dp_yiaddr := simple_inet_addr 192 168 1 100, netmask := simple_inet_addr 255 255 255 0,
                 router := simple_inet_addr 192 168 1 1\<rparr>;
               options = replicate (length (dp_options e)) 0;
               options = options[0 := 99, 1 := 130, 2 := 83, 3 := 99];
               options = put4 6 (netmask e) (options[4 := dhcptag_subnet_mask_e, 5 := 4]);
               options = put4 12 (router e) (options[10 := dhcptag_router_e, 11 := 4]);
               options = options[16 := dhcptag_end_e]
           in (True, e\<lparr>dp_options := options, re_path := take 255 path\<rparr>)
      else (False, e))"

definition IOBSDRegistryEntryRelease :: "(unit, 's) prog" where "IOBSDRegistryEntryRelease = retM ()"

text \<open>The packet is the \<open>dhcp\<close> structure in the entry, of size \<open>sizeof_dhcp\<close>.\<close>

definition IOBSDRegistryEntryGetData :: "nat \<Rightarrow> ptr \<Rightarrow> string \<Rightarrow> (ptr \<times> nat) option" where
  "IOBSDRegistryEntryGetData sizeof_dhcp dhcp_response property_name =
     (if property_name = ''DHCP_RESPONSE'' \<or> property_name = ''BOOTP_RESPONSE'' then Some (dhcp_response, sizeof_dhcp) else None)"

text \<open>A length of 0 or less makes the bound of \<open>strncpy\<close> wrap to a huge one, and the copy runs out of the buffer.\<close>

definition di_root_image :: "u32 \<Rightarrow> ptr \<Rightarrow> int \<Rightarrow> (int \<times> u32, 'z mach_scheme) prog" where
  "di_root_image rootdev rootdevice max_length =
     (if max_length \<le> 0 then stopM MemFault
      else thenM (heapM (store_at rootdevice (strncpy_bytes (map (\<lambda>c. of_nat (of_char c)) ''dummy_root_device'') (nat max_length - 1))))
          (thenM (heapM (store_at (rootdevice + nat max_length - 1) [0])) (retM (0, rootdev))))"

section \<open>Copies, time, interrupts\<close>

definition copyinmsg :: "ptr \<Rightarrow> ptr \<Rightarrow> nat \<Rightarrow> (int, 'z host_scheme) prog" where
  "copyinmsg user_addr kernel_addr nbytes = copyin user_addr kernel_addr nbytes"

text \<open>The word lies on the stack of the caller: \<open>here\<close> is its address.\<close>

definition copyout_atomic32 :: "ptr \<Rightarrow> ptr \<Rightarrow> (int, 'z host_scheme) prog" where
  "copyout_atomic32 here user_addr = copyout here user_addr 4"

definition copyout_atomic64 :: "u64 \<Rightarrow> ptr \<Rightarrow> (int, 's) prog" where
  "copyout_atomic64 val user_addr = abortM"

definition copyoutmsg :: "ptr \<Rightarrow> ptr \<Rightarrow> nat \<Rightarrow> (int, 'z host_scheme) prog" where
  "copyoutmsg kernel_addr user_addr nbytes = copyout kernel_addr user_addr nbytes"

definition nanoseconds_to_absolutetime :: "u64 \<Rightarrow> u64" where
  "nanoseconds_to_absolutetime nanoseconds = nanoseconds"

definition nanotime_to_absolutetime :: "u64 \<Rightarrow> u32 \<Rightarrow> u64" where
  "nanotime_to_absolutetime secs nanosecs = secs * 1000000000 + ucast nanosecs"

definition clock_timebase_info :: "u32 \<times> u32" where
  "clock_timebase_info = (1, 1)"

definition ml_set_interrupts_enabled :: "'z xnu_thread \<Rightarrow> bool \<Rightarrow> (bool, 'z host_scheme) prog" where
  "ml_set_interrupts_enabled xnu enable =
     thenM (whenM (\<not> enable) (Yield xnu))
    (bindM (SetInterruptsEnabled enable) (\<lambda>result. thenM (whenM enable (Yield xnu)) (retM result)))"

definition ml_get_interrupts_enabled :: "(bool, 'z host_scheme) prog" where
  "ml_get_interrupts_enabled = GetInterruptsEnabled"

definition enable_preemption :: "(unit, 'z host_scheme) prog" where
  "enable_preemption = thenM (SetInterruptsEnabled True) (retM ())"

definition IOSleep :: "'z xnu_thread \<Rightarrow> (unit, 'z host_scheme) prog" where
  "IOSleep xnu = Yield xnu"

definition hw_lock_byte_lock :: "ptr \<Rightarrow> (unit, 'z mach_scheme) prog" where
  "hw_lock_byte_lock lock_byte = heapM (store_at lock_byte [1])"

definition hw_lock_byte_unlock :: "ptr \<Rightarrow> (unit, 'z mach_scheme) prog" where
  "hw_lock_byte_unlock lock_byte = heapM (store_at lock_byte [0])"

section \<open>Values from the input\<close>

definition IODTGetLoaderInfo :: "ptr \<Rightarrow> nat \<Rightarrow> (int, 'z host_scheme) prog" where
  "IODTGetLoaderInfo info_addr infosize = (if infosize = 0 then retM 0 else thenM (fuzzed_copy info_addr infosize) (retM 0))"

text \<open>The static \<open>x86_saved_state_t\<close> at \<open>state\<close>, of \<open>sz\<close> bytes.\<close>

definition get_user_regs :: "ptr \<Rightarrow> nat \<Rightarrow> (ptr, 'z host_scheme) prog" where
  "get_user_regs state sz = thenM (heapM (memset state 0 sz)) (thenM (fuzzed_copy state sz) (retM state))"

definition machine_thread_get_state :: "ptr \<Rightarrow> nat \<Rightarrow> (int, 'z host_scheme) prog" where
  "machine_thread_get_state state count = thenM (fuzzed_copy state (count * 4)) (retM 0)"

definition kpc_fixed_count :: "(u32, 'z mach_scheme) prog" where
  "kpc_fixed_count = fuzzM (GetFuzzedUint32InRange 0 2)"

definition kpc_fixed_max :: "(u64, 'z mach_scheme) prog" where
  "kpc_fixed_max = fuzzM GetFuzzedUint64"

definition kpc_get_all_cpus_counters :: "(u32, 'z mach_scheme) prog" where
  "kpc_get_all_cpus_counters = fuzzM (GetFuzzedUint32InRange 0 32)"

definition ml_get_cpu_types :: "(u32, 'z mach_scheme) prog" where
  "ml_get_cpu_types = fuzzM (GetFuzzedUint32InRange 0 0xFFFFFFFF)"

definition kpc_get_configurable_config :: "(int \<times> u64, 'z mach_scheme) prog" where
  "kpc_get_configurable_config = bindM (fuzzM GetFuzzedUint64) (\<lambda>v. retM (0, v))"

definition kpc_get_configurable_counters :: "(u32, 'z mach_scheme) prog" where
  "kpc_get_configurable_counters = fuzzM GetFuzzedUint32"

definition kpc_get_fixed_config :: "(int \<times> u64, 'z mach_scheme) prog" where
  "kpc_get_fixed_config = bindM (fuzzM GetFuzzedUint64) (\<lambda>v. retM (0, v))"

definition ml_get_power_state :: "(bool \<times> bool, 'z mach_scheme) prog" where
  "ml_get_power_state = bindM (fuzzM GetFuzzedBool) (\<lambda>a. bindM (fuzzM GetFuzzedBool) (\<lambda>b. retM (a, b)))"

definition ml_get_max_affinity_sets :: int where
  "ml_get_max_affinity_sets = 0"

definition ml_get_timebase :: u64 where
  "ml_get_timebase = 0"

definition IORecordProgressBackbuffer :: "(unit, 's) prog" where
  "IORecordProgressBackbuffer = abortM"

definition thread_userstack :: "bool \<Rightarrow> (u64 \<times> bool option, 'z mach_scheme) prog" where
  "thread_userstack customstack =
     bindM (fuzzM GetFuzzedUint64) (\<lambda>st.
       if customstack then bindM (fuzzM GetFuzzedBool) (\<lambda>b. retM (st, Some b)) else retM (st, None))"

definition thread_userstackdefault :: "(int \<times> u64, 'z mach_scheme) prog" where
  "thread_userstackdefault = bindM (fuzzM GetFuzzedUint64) (\<lambda>v. retM (0, v))"

definition PEReadNVRAMBooleanProperty :: "(bool \<times> bool, 'z mach_scheme) prog" where
  "PEReadNVRAMBooleanProperty = bindM (fuzzM GetFuzzedBool) (\<lambda>v. retM (True, v))"

definition cpuid_get_feature_names :: "ptr \<Rightarrow> nat \<Rightarrow> (ptr, 'z mach_scheme) prog" where
  "cpuid_get_feature_names buf buf_len = thenM (heapM (memset buf 0 buf_len)) (retM 0)"

section \<open>Small ones\<close>

text \<open>The functions and constants of XNU they use are arguments.\<close>

definition machine_init :: "(unit, 's) prog \<Rightarrow> (unit, 's) prog" where
  "machine_init clock_config = clock_config"

definition ml_cpu_get_info_cache_line_size :: nat where
  "ml_cpu_get_info_cache_line_size = 64"

definition ml_get_vm_reserved_regions :: "nat \<times> ptr" where
  "ml_get_vm_reserved_regions = (0, 0)"

definition ml_panic_trap_to_debugger :: "(unit, 's) prog" where
  "ml_panic_trap_to_debugger = abortM"

definition zone_invalid_panic :: "ptr \<Rightarrow> (unit, 's) prog" where
  "zone_invalid_panic zone = panicM"

definition CPU_TYPE_I386 :: int where "CPU_TYPE_I386 = 7"

definition cpu_type :: int where "cpu_type = CPU_TYPE_I386"

definition cpuid_cpufamily :: int where "cpuid_cpufamily = CPU_TYPE_I386"

definition kdp_get_interface :: "ptr \<Rightarrow> ptr" where
  "kdp_get_interface dummy_interface = dummy_interface"

definition thread_entrypoint :: "u64 \<Rightarrow> int \<times> u64" where
  "thread_entrypoint vm_min_address = (0, vm_min_address)"

definition crypto_random_kmem_ctx_size :: "nat \<Rightarrow> nat" where
  "crypto_random_kmem_ctx_size max_ctx_size = max_ctx_size"

section \<open>Facts\<close>

lemma clz_from_le: "clz_from n w \<le> n"
  by (induction n) auto

text \<open>The bits at and above \<open>n - clz_from n w\<close> are zero, and the one below is not.\<close>

lemma clz_from_bits:
  "(\<forall>i. n - clz_from n w \<le> i \<and> i < n \<longrightarrow> \<not> bit w i) \<and> (clz_from n w < n \<longrightarrow> bit w (n - clz_from n w - 1))"
proof (induction n)
  case (Suc n)
  then show ?case using clz_from_le [of n w] by (auto simp: less_Suc_eq Suc_diff_le)
qed simp

lemma clz_from_bounds:
  fixes w :: "'a::len word"
  assumes "w \<noteq> 0"
  shows "2 ^ (LENGTH('a) - clz_from LENGTH('a) w - 1) \<le> unat w" and "unat w < 2 ^ (LENGTH('a) - clz_from LENGTH('a) w)"
    and "clz_from LENGTH('a) w < LENGTH('a)"
proof -
  let ?n = "LENGTH('a)"
  let ?k = "?n - clz_from ?n w"
  note b = clz_from_bits [of ?n w]
  show lt: "clz_from ?n w < ?n"
  proof (rule ccontr)
    assume "\<not> clz_from ?n w < ?n"
    then have "\<forall>i < ?n. \<not> bit w i" using b by auto
    then have "w = 0" by (auto intro!: bit_eqI simp: not_le dest: bit_imp_le_length)
    then show False using assms by simp
  qed
  have "i < ?k" if "bit w i" for i using b that bit_imp_le_length [OF that] by (meson not_le)
  then have "take_bit ?k w = w" by (intro bit_eqI) (auto simp: bit_take_bit_iff)
  then have "take_bit ?k (unat w) = unat w" by (metis unsigned_take_bit_eq)
  then show "unat w < 2 ^ ?k" by (metis take_bit_nat_less_exp)
  have "bit (unat w) (?k - 1)" using b lt by (simp add: bit_unsigned_iff)
  then show "2 ^ (?k - 1) \<le> unat w" by (metis bit_iff_odd div_less even_zero not_le)
qed

lemma floorlog_unique:
  assumes "2 ^ (k - 1) \<le> x" "x < (2 :: nat) ^ k" "0 < k"
  shows "floorlog 2 x = k"
  using floorlog_geI [of 2 k x] floorlog_leI [of x 2 k] assms by auto

lemma simple_inet_addr_bytes:
  "le_bytes32 (simple_inet_addr 192 168 1 100) = [192, 168, 1, 100]" "le_bytes32 (simple_inet_addr 255 255 255 0) = [255, 255, 255, 0]"
  "le_bytes32 (simple_inet_addr 192 168 1 1) = [192, 168, 1, 1]"
  by (simp_all add: le_bytes32_def simple_inet_addr_def htonl_def upt_rec push_bit_eq_mult drop_bit_eq_div)

text \<open>The registry answers for one path only. The options then are the DHCP magic cookie, the subnet mask 255.255.255.0, the router
  192.168.1.1 and the end mark, with zeros behind.\<close>

lemma registry_options:
  assumes "length (dp_options e) = n + 17"
  shows "fst (IOBSDRegistryEntryForDeviceTree path e) = (path = ''/chosen'')"
    and "dp_options (snd (IOBSDRegistryEntryForDeviceTree ''/chosen'' e)) =
       [99, 130, 83, 99, dhcptag_subnet_mask_e, 4, 255, 255, 255, 0, dhcptag_router_e, 4, 192, 168, 1, 1, dhcptag_end_e] @ replicate n 0"
  using assms
  by (simp_all add: IOBSDRegistryEntryForDeviceTree_def Let_def put4_def simple_inet_addr_bytes replicate_add add.commute [of n] numeral_eq_Suc)

section \<open>Properties\<close>

text \<open>C32. \<open>fls\<close> and \<open>flsll\<close>, which subtract a count of leading zeros from the width, compute the bit length of their argument:
  0 for 0, and otherwise the position of the highest one, counted from 1.\<close>

theorem fls_bit_length: "fls w = floorlog 2 (unat w) \<and> flsll v = floorlog 2 (unat v)"
proof
  show "fls w = floorlog 2 (unat w)"
  proof (cases "w = 0")
    case False
    with clz_from_bounds [of w] floorlog_unique [of "32 - clz_from 32 w" "unat w"]
    show ?thesis by (simp add: fls_def builtin_clz_def)
  qed (simp add: fls_def floorlog_eq_zero_iff)
  show "flsll v = floorlog 2 (unat v)"
  proof (cases "v = 0")
    case False
    with clz_from_bounds [of v] floorlog_unique [of "64 - clz_from 64 v" "unat v"]
    show ?thesis by (simp add: flsll_def builtin_clzll_def)
  qed (simp add: flsll_def floorlog_eq_zero_iff)
qed

text \<open>A random number below a bound. With an input to draw from, \<open>crypto_random_uniform\<close> returns a number below the bound
  for every bound above 1, on both of its paths. For the bound 0 it returns 0. For the bound 1, where the only answer is 0, it
  asks for the leading zeros of 0, which is undefined.\<close>

lemma crypto_random_uniform_range:
  fixes s :: "'z mach_scheme"
  assumes "fuzz_ok (mfuzz s)" and "mfuzz s \<noteq> None"
  shows "(1 < bound \<longrightarrow> (\<exists>r t. crypto_random_uniform bound s = Done r t \<and> r < bound)) \<and>
     crypto_random_uniform 0 s = Done 0 s \<and> crypto_random_uniform 1 s = Stopped MemFault"
proof (intro conjI impI)
  assume b: "1 < bound"
  then have nz: "bound \<noteq> 0" "bound - 1 \<noteq> 0" by auto
  have pred: "unat (bound - 1) < unat bound" using nz by (simp add: unat_minus_one word_gt_0 unat_gt_0)
  let ?z = "clz_from 64 (bound - 1)"
  show "\<exists>r t. crypto_random_uniform bound s = Done r t \<and> r < bound"
  proof (cases "64 - ?z \<le> 32")
    case True
    have "unat (bound - 1) < 2 ^ (64 - ?z)" using clz_from_bounds(2) [OF nz(2)] by simp
    also have "\<dots> \<le> 2 ^ 32" using True by (intro power_increasing) auto
    finally have small: "unat (ucast (bound - 1) :: u32) = unat (bound - 1)" by (simp add: unsigned_ucast_eq take_bit_nat_eq_self)
    obtain w y where w: "GetFuzzedUint32InRange 0 (ucast (bound - 1)) (mfuzz s) = Done w y" "w \<le> ucast (bound - 1)"
      using GetFuzzedUint32InRange_runs [OF assms, of 0 "ucast (bound - 1)"] by auto
    have "unat (ucast w :: u64) = unat w" by (simp add: unsigned_ucast_eq take_bit_nat_eq_self unsigned_less [THEN order_less_le_trans])
    also have "\<dots> \<le> unat (bound - 1)" using w(2) small by (simp add: word_le_nat_alt)
    finally have "(ucast w :: u64) < bound" using pred by (simp add: word_less_nat_alt)
    then show ?thesis using True w(1) nz by (simp add: crypto_random_uniform_def builtin_clzll_def)
  next
    case False
    obtain d where "mfuzz s = Some d" using assms(2) by blast
    then obtain w y where "GetFuzzedUint64 (mfuzz s) = Done w y" by (cases "consume_u64 d") (simp add: GetFuzzedUint64_def)
    moreover have "w mod bound < bound" for w using nz by (simp add: word_mod_less_divisor word_gt_0)
    ultimately show ?thesis using False nz by (simp add: crypto_random_uniform_def builtin_clzll_def)
  qed
qed (simp_all add: crypto_random_uniform_def builtin_clzll_def)

lemma crypto_random_uniform_range_witness:
  "\<exists>r t. crypto_random_uniform 6 \<lparr>mheap = \<lparr>choices = [], blocks = [], mem = (\<lambda>_. 0)\<rparr>, mfuzz = Some (byte_fdp [9])\<rparr> = Done r t \<and> r < 6"
proof -
  let ?s = "\<lparr>mheap = \<lparr>choices = [], blocks = [], mem = (\<lambda>_. 0)\<rparr>, mfuzz = Some (byte_fdp [9])\<rparr>"
  have "fuzz_ok (mfuzz ?s)" "mfuzz ?s \<noteq> None" by (simp_all add: fuzz_ok_def byte_fdp_ok)
  from crypto_random_uniform_range [OF this, of 6] show ?thesis by simp
qed

end
