(* ===== verification/StubTable.thy ===== *)
theory StubTable
  imports Machine
begin

text \<open>
  The stubs of \<open>fuzz/xnu/osfmk/fakes/osfmk_stubs.c\<close> and \<open>fuzz/xnu/bsd/fakes/stubs.c\<close> that have no logic of their own: kernel
  functions that the fuzzer links but does not support (a call aborts), that it ignores, that answer a constant, or that answer a
  value from the fuzzer's input. Each list holds the stubs of one stretch of a file, in the order of the file; the functions
  between two stretches are in the theory Stubs.
\<close>

section \<open>What a stub does\<close>

datatype stub = Aborts | Nothing | Returns int | Fuzzed_bool | Fuzzed_uint32 | Fuzzed_uint64

text \<open>The answer of a \<open>void\<close> function is 0; a pointer constant is its address.\<close>

fun run_stub :: "stub \<Rightarrow> (int, 'z mach_scheme) prog" where
  "run_stub Aborts = abortM"
| "run_stub Nothing = retM 0"
| "run_stub (Returns n) = retM n"
| "run_stub Fuzzed_bool = bindM (fuzzM GetFuzzedBool) (\<lambda>b. retM (if b then 1 else 0))"
| "run_stub Fuzzed_uint32 = bindM (fuzzM GetFuzzedUint32) (\<lambda>w. retM (uint w))"
| "run_stub Fuzzed_uint64 = bindM (fuzzM GetFuzzedUint64) (\<lambda>w. retM (uint w))"

type_synonym stub_list = "(string \<times> stub) list"

definition call_stub :: "stub_list \<Rightarrow> string \<Rightarrow> (int, 'z mach_scheme) prog" where
  "call_stub tab name = (case map_of tab name of None \<Rightarrow> stopM MemFault | Some k \<Rightarrow> run_stub k)"

section \<open>The stubs\<close>

definition osfmk_stubs_1 :: stub_list where
  "osfmk_stubs_1 =
    [(''IOTaskHasEntitlement'', Returns 1), (''Idle_PTs_release'', Nothing), (''MD5Final'', Aborts), (''MD5Init'', Aborts),
     (''MD5Update'', Aborts), (''OSBacktrace'', Nothing), (''OSKextGetAllocationSiteForCaller'', Aborts),
     (''OSKextGetKmodIDForSite'', Aborts), (''OSKextRemoveKextBootstrap'', Nothing), (''OSKextSetReceiptQueried'', Aborts),
     (''SavePanicInfo'', Aborts), (''WKdm_compress_new'', Aborts), (''WKdm_decompress_new'', Aborts),
     (''_Block_object_dispose'', Nothing), (''_NSConcreteStackBlock'', Aborts), (''_disable_preemption'', Aborts)]"

definition osfmk_stubs_2 :: stub_list where
  "osfmk_stubs_2 =
    [(''abort_panic_transfer'', Aborts), (''allow_data_exec'', Aborts), (''allow_stack_exec'', Aborts),
     (''arcade_upcall'', Aborts), (''bcopy_phys'', Aborts), (''begin_panic_transfer'', Aborts)]"

definition osfmk_stubs_3 :: stub_list where
  "osfmk_stubs_3 =
    [(''coalition_notification'', Aborts), (''commpage_populate'', Nothing), (''commpage_set_memory_pressure'', Aborts),
     (''commpage_text_populate'', Nothing), (''commpage_update_active_cpus'', Aborts),
     (''commpage_update_mach_approximate_time'', Nothing), (''consider_machine_adjust'', Aborts),
     (''consider_machine_collect'', Aborts)]"

definition osfmk_stubs_4 :: stub_list where
  "osfmk_stubs_4 =
    [(''counter_add'', Nothing), (''counter_inc'', Nothing), (''counter_inc_preemption_disabled'', Nothing),
     (''cpu_can_exit'', Aborts), (''cpu_control'', Aborts), (''cpu_info'', Aborts), (''cpu_info_count'', Nothing),
     (''cpu_start'', Aborts), (''current_percpu_base'', Returns 0), (''debug_task'', Aborts), (''device_close'', Aborts),
     (''device_data_action'', Aborts), (''early_random'', Returns 0), (''exception_raise'', Nothing),
     (''exception_raise_state'', Aborts), (''exception_raise_state_identity'', Aborts),
     (''fairplayd_arcade_request'', Aborts), (''fillPage'', Nothing), (''gIOHibernateMode'', Aborts),
     (''gLoadedKextSummaries'', Aborts)]"

definition osfmk_stubs_5 :: stub_list where
  "osfmk_stubs_5 =
    [(''halt_all_cpus'', Nothing), (''hibernate_page_bitset'', Aborts), (''hibernate_page_bittst'', Aborts),
     (''hibernate_page_list_allocate'', Aborts), (''hibernate_page_list_setall_machine'', Aborts),
     (''hibernate_processor_setup'', Aborts), (''hibernate_should_abort'', Aborts),
     (''hibernate_vm_locks_are_safe'', Aborts), (''inuse_ptepages_count'', Aborts), (''io_map_spec'', Aborts),
     (''iokit_add_reference'', Aborts), (''iokit_port_object_description'', Aborts), (''iokit_remove_reference'', Aborts),
     (''iokit_task_app_suspended_changed'', Aborts), (''iokit_task_terminate'', Nothing), (''counter_dec'', Nothing),
     (''kasan_fakestack_drop'', Nothing), (''kasan_fakestack_gc'', Nothing), (''kasan_init_thread'', Nothing),
     (''kasan_late_init'', Nothing), (''kasan_notify_address'', Nothing), (''kasan_notify_address_nopoison'', Aborts),
     (''kasan_unpoison_stack'', Nothing), (''kdp_has_polled_corefile'', Aborts), (''kdp_polled_corefile_error'', Aborts),
     (''kdp_raise_exception'', Aborts), (''kdp_vtophys'', Aborts), (''kern_dump'', Aborts), (''kernel_do_post'', Returns 0),
     (''kernel_list_tests'', Returns 0), (''kernel_preempt_check'', Aborts), (''kheap_temp_leak_panic'', Aborts),
     (''kmod_panic_dump'', Aborts), (''kpc_configurable_config_count'', Fuzzed_uint32),
     (''kpc_configurable_count'', Returns 6), (''kpc_configurable_max'', Fuzzed_uint64),
     (''kpc_fixed_config_count'', Fuzzed_uint32)]"

definition osfmk_stubs_6 :: stub_list where
  "osfmk_stubs_6 =
    [(''kpc_get_fixed_counters'', Returns 32), (''kpc_get_rawpmu_config'', Aborts),
     (''kpc_is_running_configurable'', Fuzzed_bool), (''kpc_is_running_fixed'', Fuzzed_bool),
     (''kpc_rawpmu_config_count'', Fuzzed_uint32), (''kpc_set_config_arch'', Aborts), (''kpc_set_period_arch'', Returns 0),
     (''kpc_set_running_arch'', Nothing), (''kperf_debug_level'', Aborts), (''kperf_init'', Nothing),
     (''kperf_init_early'', Nothing), (''kperf_kdebug_active'', Aborts), (''kperf_kdebug_handler'', Aborts),
     (''kperf_kpc_thread_ast'', Aborts), (''kperf_lazy_cpu_action'', Aborts), (''kperf_lazy_make_runnable'', Nothing),
     (''kperf_lazy_off_cpu'', Nothing), (''kperf_on_cpu_active'', Aborts), (''kperf_on_cpu_internal'', Nothing),
     (''kperf_sample'', Aborts), (''kperf_status'', Aborts), (''kptimer_running_setup'', Aborts),
     (''ktest_assertion_check'', Aborts), (''kvtophys'', Aborts), (''kdp_init'', Nothing), (''log_putc'', Aborts),
     (''lz4_decode_asm'', Aborts), (''mach_exception_raise'', Aborts), (''mach_exception_raise_state'', Aborts),
     (''mach_exception_raise_state_identity'', Aborts), (''machine_callstack'', Aborts)]"

definition osfmk_stubs_7 :: stub_list where
  "osfmk_stubs_7 =
    [(''machine_choose_processor'', Aborts), (''machine_csv'', Returns 0), (''machine_idle'', Aborts)]"

definition osfmk_stubs_8 :: stub_list where
  "osfmk_stubs_8 =
    [(''machine_load_context'', Aborts), (''machine_lockdown'', Nothing), (''machine_max_runnable_latency'', Aborts),
     (''machine_signal_idle'', Aborts), (''machine_signal_idle_deferred'', Aborts), (''machine_stack_detach'', Aborts),
     (''machine_stack_handoff'', Nothing), (''machine_switch_perfcontrol_context'', Nothing),
     (''machine_switch_perfcontrol_state_update'', Nothing), (''machine_task_get_state'', Returns 0),
     (''machine_task_init'', Nothing), (''machine_task_set_state'', Returns 0), (''machine_task_terminate'', Nothing),
     (''machine_tecs'', Aborts), (''machine_timeout_suspended'', Aborts), (''machine_trace_thread'', Aborts),
     (''machine_trace_thread64'', Aborts), (''machine_track_platform_idle'', Aborts),
     (''machine_work_interval_notify'', Aborts), (''memset_word'', Aborts), (''ml_affinity_to_pset'', Aborts),
     (''ml_at_interrupt_context'', Aborts), (''ml_cpu_begin_state_transition'', Aborts),
     (''ml_cpu_end_state_transition'', Aborts)]"

definition osfmk_stubs_9 :: stub_list where
  "osfmk_stubs_9 =
    [(''ml_delay_on_yield'', Aborts), (''ml_energy_stat'', Aborts), (''ml_get_booter_memory_size'', Returns 0)]"

definition osfmk_stubs_10 :: stub_list where
  "osfmk_stubs_10 =
    [(''ml_gpu_stat'', Returns 0), (''ml_gpu_stat_update'', Aborts), (''ml_nofault_copy'', Aborts)]"

definition osfmk_stubs_11 :: stub_list where
  "osfmk_stubs_11 =
    [(''ml_static_ptovirt'', Aborts), (''ml_validate_nofault'', Aborts), (''ml_wait_max_cpus'', Returns 4),
     (''mp_interrupt_watchdog'', Aborts), (''mp_kdp_enter'', Aborts), (''mp_kdp_exit'', Aborts),
     (''mp_rendezvous_lock'', Aborts), (''mp_rendezvous_unlock'', Aborts), (''msgbufp'', Aborts)]"

definition osfmk_stubs_12 :: stub_list where
  "osfmk_stubs_12 =
    [(''no_shared_cr3'', Aborts), (''pal_hib_rebuild_pmap_structs'', Aborts), (''pal_hib_teardown_pmap_structs'', Aborts),
     (''panic_include_ztrace'', Aborts), (''panic_print_symbol_name'', Aborts), (''paniclog_flush'', Aborts),
     (''pcid_for_pmap_cpu_tuple'', Aborts), (''physmap_base'', Aborts), (''physmap_max'', Aborts),
     (''plctrace_disable'', Aborts), (''plctrace_enabled'', Aborts), (''pmCPUHalt'', Aborts), (''pmSafeMode'', Aborts),
     (''pmap_supported_feature'', Returns 1), (''mapping_set_mod'', Aborts), (''pmap_adjust_unnest_parameters'', Aborts),
     (''pmap_advise_pagezero_range'', Nothing), (''pmap_asserts_enabled'', Aborts), (''pmap_asserts_traced'', Aborts),
     (''pmap_cache_attributes'', Aborts), (''pmap_change_wiring'', Nothing), (''pmap_clear_modify'', Nothing),
     (''pmap_clear_reference'', Nothing), (''pmap_clear_refmod'', Nothing), (''pmap_clear_refmod_options'', Nothing),
     (''pmap_clear_refmod_range_options'', Nothing), (''pmap_commpage_size_min'', Returns 4096),
     (''pmap_copy_page'', Nothing), (''pmap_copy_part_page'', Nothing), (''pmap_cs_allow_invalid'', Aborts),
     (''pmap_disable_NX'', Nothing), (''pmap_disconnect'', Nothing), (''pmap_disconnect_options'', Nothing),
     (''pmap_dump_page_tables'', Aborts), (''pmap_enter'', Returns 0), (''pmap_flush'', Nothing),
     (''pmap_flush_context_init'', Nothing), (''pmap_get_jit_entitled'', Fuzzed_bool), (''pmap_get_refmod'', Aborts),
     (''pmap_get_vm_map_cs_enforced'', Fuzzed_bool), (''pmap_has_prot_policy'', Returns 0),
     (''pmap_hi_pages_done'', Nothing), (''pmap_is_modified'', Fuzzed_bool)]"

definition osfmk_stubs_13 :: stub_list where
  "osfmk_stubs_13 =
    [(''pmap_is_referenced'', Fuzzed_bool), (''pmap_ledger_alloc'', Aborts), (''pmap_ledger_alloc_init'', Aborts),
     (''pmap_ledger_free'', Aborts), (''pmap_list_resident_pages'', Nothing), (''pmap_lock_phys_page'', Nothing),
     (''pmap_map_block_addr'', Returns 0), (''pmap_map_compressor_page'', Aborts), (''pmap_nest'', Returns 0),
     (''pmap_nesting_size_max'', Aborts), (''pmap_page_protect'', Aborts), (''pmap_page_protect_options'', Nothing),
     (''pmap_pageable'', Nothing), (''pmap_pcid_activate'', Aborts), (''pmap_pcid_ncpus'', Aborts),
     (''pmap_pre_expand'', Nothing), (''pmap_protect_options'', Nothing), (''pmap_query_page_info'', Returns 5),
     (''pmap_query_resident'', Aborts), (''pmap_remove'', Nothing), (''pmap_require'', Nothing),
     (''pmap_set_cache_attributes'', Nothing), (''pmap_set_jit_entitled'', Nothing), (''pmap_set_noencrypt'', Aborts),
     (''pmap_set_process'', Nothing), (''pmap_set_vm_map_cs_enforced'', Nothing), (''pmap_shared_region_size_min'', Aborts),
     (''pmap_sync_page_attributes_phys'', Aborts), (''pmap_sync_page_data_phys'', Aborts),
     (''pmap_test_text_corruption'', Aborts), (''pmap_trim'', Aborts), (''pmap_unlock_phys_page'', Nothing),
     (''pmap_unmap_compressor_page'', Aborts), (''pmap_unnest'', Aborts), (''pmap_unnest_options'', Returns 0),
     (''random_bool_gen_bits'', Aborts), (''random_bool_init'', Nothing), (''secure_memset'', Aborts),
     (''send_cpu_usage_violation'', Aborts), (''send_cpu_wakes_violation'', Aborts),
     (''send_disk_writes_violation'', Aborts), (''send_ktrace_background_available'', Aborts),
     (''send_sysdiagnose_notification_with_audit_token'', Aborts), (''serial_console_enabled'', Aborts)]"

definition osfmk_stubs_14 :: stub_list where
  "osfmk_stubs_14 =
    [(''serial_getc'', Aborts), (''serial_putc'', Aborts), (''slave_machine_init'', Aborts), (''slot_type'', Returns 0),
     (''slot_subtype'', Returns 0), (''cpu_subtype'', Aborts), (''current_xstate'', Returns 0),
     (''get_eflags_exportmask'', Aborts), (''ml_fp_setvalid'', Nothing), (''write_random'', Aborts),
     (''cpu_signal_handler'', Aborts), (''handle_pending_TLB_flushes'', Aborts), (''NMIPI_panic'', Aborts)]"

definition osfmk_stubs_15 :: stub_list where
  "osfmk_stubs_15 =
    [(''slot_threadtype'', Returns 0), (''telemetry_notification'', Aborts), (''thread_tell_urgency'', Nothing),
     (''top_ztrace'', Aborts), (''trace_backtrace'', Aborts), (''track_this_zone'', Aborts), (''trust_cache_init'', Nothing),
     (''uext_server'', Aborts), (''version'', Aborts), (''version_major'', Aborts), (''version_minor'', Aborts),
     (''vmx_hv_support'', Returns 0), (''xts_decrypt'', Aborts), (''xts_encrypt'', Aborts), (''xts_start'', Aborts),
     (''zlib_deflate_memory_size'', Aborts), (''zpercpu_count'', Returns 1),
     (''default_pager_memory_object_create'', Aborts), (''do_mach_notify_dead_name'', Aborts),
     (''do_mach_notify_no_senders'', Aborts), (''do_mach_notify_port_deleted'', Aborts),
     (''do_mach_notify_port_destroyed'', Aborts), (''do_mach_notify_send_once'', Aborts),
     (''host_get_UNDServer'', Returns 5), (''host_set_UNDServer'', Returns 5), (''kext_request'', Returns 5),
     (''mach_memory_info'', Returns 5), (''mach_vm_region_info'', Aborts), (''mach_vm_region_info_64'', Aborts),
     (''mach_zone_force_gc'', Nothing), (''mach_zone_get_btlog_records'', Returns 5),
     (''mach_zone_get_zlog_zones'', Nothing), (''mach_zone_info'', Returns 5),
     (''mach_zone_info_for_largest_zone'', Returns 5)]"

definition osfmk_stubs_16 :: stub_list where
  "osfmk_stubs_16 =
    [(''mach_zone_info_for_zone'', Returns 5), (''task_zone_info'', Returns 5), (''vm_mapped_pages_info'', Aborts),
     (''commpage_update_atm_diagnostic_config'', Nothing), (''cpu_exit_wait'', Aborts), (''cpu_sleep'', Aborts),
     (''hibernate_vm_lock'', Aborts), (''hibernate_vm_unlock'', Aborts), (''init_ast_check'', Nothing),
     (''ml_cpu_can_exit'', Aborts), (''ml_cpu_down'', Aborts), (''ml_cpu_up'', Aborts), (''panic_notify'', Aborts),
     (''phyreadpanic'', Aborts), (''phywritepanic'', Aborts), (''pmap_verify_noncacheable'', Aborts),
     (''reportphyreaddelayabs'', Aborts), (''reportphywritedelayabs'', Aborts)]"

definition osfmk_stubs_17 :: stub_list where
  "osfmk_stubs_17 =
    [(''machine_thread_going_off_core'', Nothing), (''machine_thread_going_on_core'', Nothing),
     (''machine_thread_inherit_taskwide'', Returns 0), (''machine_thread_pc'', Aborts),
     (''machine_thread_reset_pc'', Aborts), (''machine_thread_set_insn_copy_optout'', Nothing),
     (''machine_thread_set_state'', Returns 0), (''machine_thread_set_tsd_base'', Aborts),
     (''machine_thread_state_convert_to_user'', Returns 0), (''machine_thread_state_initialize'', Aborts),
     (''machine_thread_switch_addrmode'', Nothing), (''machine_thread_template_init'', Nothing),
     (''IOCurrentTaskHasEntitlement'', Returns 1), (''IOPMRootDomainGetWillShutdown'', Aborts), (''IOSetImageBoot'', Aborts),
     (''OSKextGetRefGrpForCaller'', Aborts), (''_storage_lock'', Aborts), (''_storage_unlock'', Aborts),
     (''aes_encrypt_key_gcm'', Aborts), (''aes_encrypt_set_iv_gcm'', Aborts), (''core_analytics_send_event_lazy'', Nothing),
     (''core_analytics_family_match'', Returns 0), (''create_buffers'', Aborts), (''create_buffers_triage'', Nothing),
     (''delete_buffers'', Aborts), (''disable_wrap'', Aborts), (''host_security_create_task_token'', Aborts),
     (''host_security_set_task_token'', Aborts), (''hvg_hcall_set_coredump_data'', Aborts), (''is_iokit_subsystem'', Aborts),
     (''kdbg_cpu_count'', Aborts), (''kdbg_debug'', Aborts), (''kdebug_lck_grp'', Aborts), (''kdebug_lck_init'', Nothing),
     (''kdebug_timestamp'', Aborts), (''kernel_data_map_get'', Aborts)]"

definition osfmk_stubs_18 :: stub_list where
  "osfmk_stubs_18 =
    [(''kernel_debug_read'', Aborts), (''kernel_debug_write'', Aborts), (''kernel_triage_extract'', Aborts),
     (''kernel_triage_record'', Nothing), (''lck_spinlock_timeout_hit'', Aborts), (''log_queue_cnt_dropped_nomem'', Aborts),
     (''log_queue_cnt_dropped_off'', Aborts), (''log_queue_cnt_mem_allocated'', Aborts),
     (''log_queue_cnt_mem_failed'', Aborts), (''log_queue_cnt_mem_released'', Aborts), (''log_queue_cnt_queued'', Aborts),
     (''log_queue_cnt_received'', Aborts), (''log_queue_cnt_rejected_fh'', Aborts), (''log_queue_cnt_sent'', Aborts),
     (''mach_exception_raise_identity_protected'', Aborts), (''mach_test_sync_upcall'', Nothing),
     (''ml_cpu_get_info_type'', Nothing), (''ml_early_cpu_max_number'', Returns 1), (''ml_get_cpu_number_type'', Aborts)]"

definition osfmk_stubs_19 :: stub_list where
  "osfmk_stubs_19 =
    [(''pmap_cs_fork_prepare'', Nothing), (''pmap_in_ppl'', Returns 0), (''pmap_ledger_verify_size'', Aborts),
     (''ptrauth_utils_auth_blob_generic'', Aborts), (''ptrauth_utils_sign_blob_generic'', Aborts), (''read_lbr'', Aborts),
     (''send_vfs_resolve_dir'', Aborts), (''send_vfs_resolve_file'', Aborts), (''serial_putc_options'', Aborts),
     (''uuid_unparse_lower'', Aborts)]"

definition osfmk_stubs_20 :: stub_list where
  "osfmk_stubs_20 =
    [(''zone_ro_elem_size'', Aborts), (''zone_userspace_reboot_checks'', Aborts),
     (''workq_schedule_delayed_thread_creation'', Aborts), (''bsdthread_get_max_parallelism'', Aborts),
     (''_wq_thactive_move'', Aborts), (''_wq_thactive_refresh_best_constrained_req_qos'', Aborts),
     (''workq_lock_try'', Aborts), (''_wq_thactive'', Aborts), (''workq_lock_is_acquired_kdp'', Aborts),
     (''_wq_thactive_inc'', Aborts), (''workq_unpark_continue'', Aborts), (''_wq_thactive_dec'', Aborts),
     (''__atomic_fetch_add_16'', Aborts), (''__atomic_fetch_sub_16'', Aborts), (''kdp_lck_ticket_is_acquired'', Aborts),
     (''machine_thread_siguctx_pointer_convert_to_user'', Returns 0), (''kdebug_storage_lock'', Aborts),
     (''kdebug_storage_unlock'', Aborts), (''mac_audit_data_zone'', Aborts), (''IOSKArenaCreate'', Aborts),
     (''IOSKArenaDestroy'', Aborts), (''IOSKMapperCreate'', Aborts), (''IOSKMapperGetAddress'', Aborts),
     (''IOSKMapperDestroy'', Aborts), (''IOSKMapperRedirect'', Aborts)]"

definition osfmk_stubs_21 :: stub_list where
  "osfmk_stubs_21 =
    [(''IOSKRegionCreate'', Returns 1), (''IOSKRegionDestroy'', Aborts), (''IOSKMemoryBufferCreate'', Returns 1),
     (''IOSKMemoryReclaim'', Returns 0), (''IOSKMemoryWire'', Returns 0), (''IOSKRegionSetBuffer'', Returns 0),
     (''IOSKBufferIsWired'', Returns 1), (''IOSKRegionClearBufferDebug'', Aborts), (''IOSKMemoryUnwire'', Aborts),
     (''IOSKMemoryDiscard'', Aborts), (''IOSKMemoryDestroy'', Aborts), (''os_memcmp_mask_64B'', Aborts),
     (''os_memcmp_mask_80B'', Aborts), (''os_memcmp_mask_48B'', Aborts), (''os_cpu_copy_in_cksum'', Aborts),
     (''OSKernelStackRemaining'', Aborts), (''hv_support_init'', Nothing), (''hw_wait_while_equals32'', Aborts)]"

definition bsd_stubs_1 :: stub_list where
  "bsd_stubs_1 =
    [(''IOBSDGetPlatformUUID'', Aborts), (''IOBSDMountChange'', Nothing), (''IOBaseSystemARVRootHashAvailable'', Aborts),
     (''IOCatalogueMatchingDriversPresent'', Aborts), (''IOGetApfsPrebootUUID'', Returns 0),
     (''IOGetAssociatedApfsVolgroupUUID'', Returns 0), (''IOGetBootUUID'', Returns 0), (''IOGetVMMPresent'', Fuzzed_bool),
     (''IOKitBSDInit'', Returns 0), (''IOKitInitializeTime'', Nothing), (''IOMapperInsertPage'', Aborts),
     (''IOPMCopySleepWakeUUIDKey'', Aborts), (''IORegistrySetOSBuildVersion'', Nothing), (''IOSecureBSDRoot'', Aborts),
     (''IOServicePublishResource'', Nothing), (''IOServiceWaitForMatchingResource'', Returns 1),
     (''IOSetRecoveryBoot'', Aborts), (''IOSystemShutdownNotification'', Nothing), (''IOVnodeHasEntitlement'', Aborts),
     (''OSKextGetUUIDForName'', Aborts), (''OSKextResetAfterUserspaceReboot'', Aborts),
     (''PE_imgsrc_mount_supported'', Aborts), (''SHA1Final'', Aborts), (''SHA1Init'', Aborts), (''SHA1Update'', Aborts),
     (''SecureDTGetProperty'', Aborts), (''SecureDTLookupEntry'', Returns (-1)), (''_os_log_internal_driverKit'', Aborts),
     (''act_thread_catt'', Aborts), (''act_thread_csave'', Returns 0), (''aes_decrypt_aad_gcm'', Aborts),
     (''aes_decrypt_cbc'', Aborts), (''aes_decrypt_finalize_gcm'', Aborts), (''aes_decrypt_gcm'', Aborts),
     (''aes_decrypt_get_ctx_size_gcm'', Aborts)]"

definition bsd_stubs_2 :: stub_list where
  "bsd_stubs_2 =
    [(''aes_decrypt_key'', Aborts), (''aes_decrypt_key_gcm'', Aborts), (''aes_decrypt_set_iv_gcm'', Aborts),
     (''aes_encrypt_aad_gcm'', Aborts), (''aes_encrypt_cbc'', Aborts), (''aes_encrypt_finalize_gcm'', Aborts),
     (''aes_encrypt_gcm'', Aborts), (''aes_encrypt_get_ctx_size_gcm'', Aborts), (''aes_encrypt_inc_iv_gcm'', Aborts),
     (''aes_encrypt_key'', Aborts), (''aes_encrypt_key128'', Aborts), (''aes_encrypt_key_with_iv_gcm'', Aborts),
     (''aes_encrypt_reset_gcm'', Aborts), (''audit_analytics'', Aborts), (''audit_triggers'', Aborts),
     (''bootsessionuuid_string'', Aborts), (''bsd_do_post'', Returns 0), (''bsd_list_tests'', Returns 0),
     (''bzero_phys'', Aborts), (''bzero_phys_nc'', Aborts), (''check_task_access_with_flavor'', Aborts),
     (''commpage_update_dyld_flags'', Aborts), (''commpage_update_kdebug_state'', Aborts),
     (''copyin_atomic32_wait_if_equals'', Aborts), (''copypv'', Aborts), (''copysize_limit_panic'', Aborts),
     (''coredumpok'', Aborts)]"

definition bsd_stubs_3 :: stub_list where
  "bsd_stubs_3 =
    [(''di_root_image_ext'', Aborts), (''di_root_ramfile_buf'', Aborts), (''early_boot'', Aborts),
     (''find_code_signature'', Aborts)]"

definition bsd_stubs_4 :: stub_list where
  "bsd_stubs_4 =
    [(''gPEClockFrequencyInfo'', Aborts), (''get_largest_zone_info'', Nothing), (''get_zone_map_size'', Nothing),
     (''halt_log_enter'', Nothing), (''hashaddr'', Aborts), (''hashbacktrace'', Aborts), (''high_MutexSpin'', Aborts)]"

definition bsd_stubs_5 :: stub_list where
  "bsd_stubs_5 =
    [(''kdp_set_ip_and_mac_addresses'', Nothing), (''kdp_set_gateway_mac'', Nothing), (''kpc_arch_init'', Nothing),
     (''kpc_get_classes'', Returns 0), (''kpc_get_pmu_version'', Fuzzed_uint32), (''kpc_set_sw_inc'', Nothing),
     (''kperf_disable_sampling'', Aborts), (''kperf_reset'', Aborts), (''lockd_request'', Aborts),
     (''lockd_shutdown'', Aborts), (''log_dmesg'', Returns 0), (''log_putc_locked'', Aborts), (''log_setsize'', Aborts),
     (''logwakeup'', Aborts), (''low_MutexSpin'', Aborts), (''mach_bridge_remote_time'', Returns 0),
     (''mach_bridge_timer_enable'', Aborts), (''mach_gss_accept_sec_context'', Aborts),
     (''mach_gss_init_sec_context_v3'', Aborts), (''mach_gss_log_error'', Aborts), (''mach_gss_lookup'', Aborts),
     (''machine_thread_function_pointers_convert_from_user'', Returns 0), (''machine_thread_on_core'', Aborts),
     (''max_ncpus'', Aborts), (''ml_cpu_cache_sharing'', Aborts), (''ml_cpu_cache_size'', Aborts),
     (''rsa_make_pub'', Aborts), (''rsa_verify_pkcs1v15'', Aborts), (''_get_cpu_capabilities'', Nothing),
     (''nx_enabled'', Aborts), (''oslog_setsize'', Aborts), (''osobject_release'', Aborts), (''osobject_retain'', Aborts)]"

definition bsd_stubs_6 :: stub_list where
  "bsd_stubs_6 =
    [(''panic_dump_mem'', Aborts), (''panic_hook'', Nothing), (''panic_phys_range_before'', Aborts),
     (''panic_unhook'', Nothing), (''registerSleepWakeInterest'', Aborts), (''send_nspace_resolve_cancel'', Aborts),
     (''send_nspace_resolve_path'', Aborts), (''startup_serial_num_procs'', Aborts), (''test_oslog_handleOSLogCtl'', Aborts),
     (''thread_adjuserstack'', Returns 0)]"

definition bsd_stubs_7 :: stub_list where
  "bsd_stubs_7 =
    [(''thread_set_child'', Nothing), (''thread_set_parent'', Aborts), (''thread_setentrypoint'', Aborts),
     (''thread_setsinglestep'', Aborts), (''thread_setuserstack'', Aborts)]"

definition bsd_stubs_8 :: stub_list where
  "bsd_stubs_8 =
    [(''tsc_at_boot'', Aborts), (''tsc_rebase_abs_time'', Aborts), (''uuid_generate'', Aborts), (''uuid_parse'', Aborts),
     (''xnupost_export_testdata'', Aborts), (''xnupost_get_estimated_testdata_size'', Aborts),
     (''xnupost_reset_all_tests'', Aborts), (''zdestroy'', Aborts), (''zone_gc_drain'', Aborts),
     (''OSReportWithBacktrace'', Aborts), (''_Block_object_assign'', Aborts), (''_NSConcreteGlobalBlock'', Aborts),
     (''compute_pmap_gc_throttle'', Aborts), (''compute_zone_working_set_size'', Aborts),
     (''driverkit_checkin_timed_out'', Aborts), (''iokit_user_client_trap'', Nothing), (''kperf_timer_expire'', Aborts),
     (''mp_slave_stack'', Aborts), (''osbuild_config'', Aborts), (''oslog_msgbuf_dropped_charcount'', Aborts),
     (''oslog_msgbuf_dropped_msgcount'', Aborts), (''oslog_msgbuf_msgcount'', Aborts), (''osrelease'', Aborts),
     (''ostype'', Aborts), (''thread_set_wq_state32'', Aborts), (''thread_set_wq_state64'', Aborts),
     (''gEnforceQuiesceSafety'', Aborts), (''iotrace_generators'', Aborts), (''iotrace_next'', Aborts),
     (''iotrace_ring'', Aborts), (''reportphyreadosbt'', Aborts), (''reportphywriteosbt'', Aborts),
     (''tracephyreaddelayabs'', Aborts), (''tracephywritedelayabs'', Aborts), (''lck_rw_set_promotion_locked'', Aborts),
     (''kperf_is_sampling'', Returns 0)]"

definition bsd_stubs_9 :: stub_list where
  "bsd_stubs_9 =
    [(''other_percpu_base'', Returns 0), (''sysctl_get_bound_cpuid'', Aborts), (''sysctl_task_get_no_smt'', Aborts),
     (''sysctl_task_set_no_smt'', Aborts), (''sysctl_thread_bind_cpuid'', Aborts), (''OSKextResetPgoCounters'', Aborts),
     (''OSKextGrabPgoData'', Returns 5), (''OSKextResetPgoCountersLock'', Nothing),
     (''OSKextResetPgoCountersUnlock'', Nothing), (''pid_hibernate'', Nothing), (''debug_syscall_reject'', Returns 45),
     (''logclose'', Aborts), (''logread'', Aborts), (''logioctl'', Aborts), (''logselect'', Aborts), (''logopen'', Aborts),
     (''_kmem_alloc_pageable'', Aborts), (''_kmem_alloc'', Aborts), (''_vm_fault'', Aborts),
     (''bt_params_get_latest'', Aborts), (''kdp_core_handle_new_encryption_key'', Aborts),
     (''IOProvideCoreFileAccess'', Returns 0), (''_vm_kernel_addrhash'', Aborts), (''io_compression_stats'', Aborts),
     (''_kmem_alloc_kobject'', Aborts)]"

definition bsd_stubs_10 :: stub_list where
  "bsd_stubs_10 =
    [(''vnode_iocs_record_and_free'', Aborts), (''clock_alarm_reply'', Aborts), (''machine_signal_idle_cancel'', Aborts),
     (''send_port_space_violation'', Aborts), (''send_file_descriptors_violation'', Aborts), (''iokit_client_died'', Aborts),
     (''iokit_port_for_object'', Aborts), (''pmap_map_block'', Aborts), (''pmap_memory_region_count'', Aborts),
     (''pmap_memory_regions'', Aborts), (''PE_init_socd_client'', Returns 0), (''PE_write_socd_client_buffer'', Aborts),
     (''ml_get_timebase_entropy'', Aborts), (''sdt_probetab'', Aborts), (''sdt_probetab_mask'', Aborts),
     (''dtrace_probe'', Aborts), (''dtrace_invop_callsite_pre'', Aborts), (''dtrace_invop_callsite_post'', Aborts),
     (''cpu_core'', Aborts), (''cpu_list'', Aborts), (''cpuid_features'', Returns 0)]"

definition bsd_stubs_11 :: stub_list where
  "bsd_stubs_11 =
    [(''cpuid_get_leaf7_feature_names'', Aborts), (''cpuid_get_leaf7_extfeature_names'', Aborts),
     (''cpuid_get_extfeature_names'', Aborts), (''flex_ratio'', Aborts), (''flex_ratio_min'', Aborts),
     (''flex_ratio_max'', Aborts), (''ucode_interface'', Aborts), (''panic_restart_timeout'', Aborts),
     (''interrupt_populate_latency_stats'', Aborts), (''interrupt_reset_latency_stats'', Aborts), (''NMI_count'', Aborts),
     (''NMI_cpus'', Aborts), (''cpuid_vmm_present'', Returns 0), (''cpuid_vmm_get_applepv_features'', Aborts),
     (''hvg_hcall_trigger_dump'', Aborts), (''pv_hashed_kern_low_water_mark'', Aborts), (''tscFreq'', Aborts),
     (''deep_idle_rebase'', Aborts), (''pal_rtc_nanotime_info'', Aborts), (''is_x2apic'', Aborts),
     (''idle_entry_timer_processing_hdeadline_threshold'', Aborts), (''ml_timer_eager_evaluation_max'', Aborts),
     (''x86_isr_fp_simd_use'', Aborts), (''ml_cpu_power_disable'', Nothing), (''ml_cpu_power_enable'', Nothing),
     (''sys_debug_syscall_reject_config'', Returns 0), (''hvg_hcall_get_mabs_offset'', Aborts),
     (''hvg_hcall_get_bootsessionuuid'', Aborts), (''wake_nkdbufs'', Aborts), (''trace_wrap'', Aborts),
     (''IOCurrentTaskGetEntitlement'', Aborts), (''IOVnodeGetEntitlement'', Aborts),
     (''kern_register_userspace_coredump'', Aborts)]"

definition bsd_stubs_12 :: stub_list where
  "bsd_stubs_12 =
    [(''machine_task_process_signature'', Returns 0), (''ktriage_extract'', Aborts),
     (''IOUserServerRecordExitReason'', Aborts), (''ml_get_cluster_type_name'', Aborts), (''IOParseWorkloadConfig'', Aborts),
     (''reset_debug_syscall_rejection_mode'', Aborts), (''IOCurrentTaskHasStringEntitlement'', Aborts),
     (''enable_dklog_serial_output'', Aborts), (''record_system_event_no_varargs'', Nothing),
     (''os_memcmp_mask_16B'', Aborts), (''os_memcmp_mask_32B'', Aborts), (''ktriage_record'', Nothing),
     (''send_vfs_resolve_dir_with_audit_token'', Aborts), (''send_vfs_resolve_file_with_audit_token'', Aborts),
     (''ml_io_map_unmappable'', Aborts), (''current_space_size'', Aborts), (''write_trace_on_panic'', Aborts),
     (''kdp_polled_corefile_mode'', Aborts), (''mach_exception_raise_backtrace'', Aborts),
     (''cond_sleep_with_inheritor64_mask'', Aborts), (''cond_wakeup_all_with_inheritor'', Aborts), (''kdp_memcpy'', Aborts),
     (''kdp_strlcpy'', Aborts), (''kdp_generic_copyin'', Aborts), (''kdp_find_phys'', Aborts),
     (''kdp_generic_copyin_word'', Aborts), (''kdp_generic_copyin_string'', Aborts)]"

definition bsd_stubs_13 :: stub_list where
  "bsd_stubs_13 =
    [(''kdp_vm_map_get_page_size'', Aborts), (''ml_cpu_down_update_counts'', Aborts),
     (''gEnforcePlatformActionSafety'', Aborts), (''kern_unregister_userspace_coredump'', Nothing),
     (''machine_thread_process_signature'', Nothing), (''hvg_is_hcall_available'', Returns 0), (''kdebug_startup'', Nothing),
     (''os_log_disabled'', Returns 0), (''dtrace_init'', Nothing), (''helper_init'', Nothing), (''lockstat_init'', Nothing),
     (''lockprof_init'', Nothing), (''sdt_init'', Nothing), (''systrace_init'', Nothing), (''fbt_init'', Nothing),
     (''profile_init'', Nothing), (''oslogopen'', Aborts), (''oslogclose'', Aborts), (''oslogioctl'', Aborts),
     (''oslogselect'', Aborts), (''pmap_query_page_info_retries'', Aborts), (''grab_pgo_data'', Nothing),
     (''do_pgo_reset_counters'', Aborts), (''hw_spin_should_keep_spinning'', Aborts), (''hw_lck_ticket_lock'', Aborts),
     (''zone_get_stats'', Aborts), (''lck_ticket_unlock_nopreempt'', Aborts), (''zone_drain'', Aborts),
     (''hw_lck_ticket_unlock_nopreempt'', Aborts), (''hw_spin_compute_timeout'', Aborts), (''percpu_slot_lck_mcs'', Aborts),
     (''lck_ticket_lock_nopreempt'', Aborts)]"

definition bsd_stubs_14 :: stub_list where
  "bsd_stubs_14 =
    [(''zcache_drain'', Aborts), (''_zc_mag_size'', Aborts), (''hw_lck_ticket_lock_nopreempt'', Aborts),
     (''zone_enable_smr'', Nothing), (''zfree_id_smr'', Aborts), (''zfree_smr'', Aborts)]"

definition bsd_stubs_15 :: stub_list where
  "bsd_stubs_15 =
    [(''lck_rw_lock_count_dec'', Aborts), (''_bcopy'', Aborts), (''strnstr'', Aborts),
     (''crypto_random_kmem_init'', Nothing), (''lck_rw_lock_count_inc'', Aborts), (''PERemoveNVRAMProperty'', Aborts),
     (''PEWriteNVRAMBooleanProperty'', Aborts), (''pmap_user_va_bits'', Aborts)]"

definition bsd_stubs_16 :: stub_list where
  "bsd_stubs_16 =
    [(''pmap_get_tpro'', Returns 0), (''ml_addr_in_non_xnu_stack'', Aborts), (''pmap_set_tpro'', Aborts),
     (''ml_did_interrupt_userspace'', Aborts), (''iokit_kobject_retain'', Aborts),
     (''send_vfs_resolve_reparent_with_audit_token'', Aborts), (''ml_page_protection_type'', Aborts)]"

definition bsd_stubs_17 :: stub_list where
  "bsd_stubs_17 =
    [(''iokit_copy_object_for_consumed_kobject'', Aborts), (''lock_panic_timeout'', Aborts),
     (''ktriage_register_subsystem_strings'', Nothing), (''xnu_strncmp'', Aborts), (''xnu_strncpy'', Aborts),
     (''xnu_strncasecmp'', Aborts), (''ml_static_unslide'', Aborts), (''telemetry_backtrace_add_kexts'', Aborts),
     (''ml_fp_save_area_prealloc'', Aborts), (''kpc_set_period'', Aborts), (''mt_microstackshot_ctr'', Aborts),
     (''IOTaskHasStringEntitlement'', Aborts), (''kperf_thread_ast_handler'', Aborts), (''kpc_get_actionid'', Aborts),
     (''kpc_get_counter_count'', Aborts), (''kpc_supported'', Aborts), (''mt_microstackshot_period'', Aborts),
     (''kpc_set_actionid'', Aborts), (''kpc_set_config_kernel'', Aborts), (''kpc_get_config_count'', Aborts),
     (''kpc_counterbuf_free'', Aborts), (''kpc_get_period'', Aborts), (''mt_dev_init'', Nothing),
     (''kpc_get_counterbuf_size'', Aborts), (''image4_dlxk_get'', Aborts), (''IOTaskGetEntitlement'', Aborts),
     (''usimple_lock_assert'', Aborts), (''kpc_counterbuf_alloc'', Aborts), (''_memmove'', Aborts)]"

definition all_stubs :: stub_list where
  "all_stubs = concat [osfmk_stubs_1, osfmk_stubs_2, osfmk_stubs_3, osfmk_stubs_4, osfmk_stubs_5, osfmk_stubs_6, osfmk_stubs_7, osfmk_stubs_8, osfmk_stubs_9, osfmk_stubs_10, osfmk_stubs_11, osfmk_stubs_12, osfmk_stubs_13, osfmk_stubs_14, osfmk_stubs_15, osfmk_stubs_16, osfmk_stubs_17, osfmk_stubs_18, osfmk_stubs_19, osfmk_stubs_20, osfmk_stubs_21, bsd_stubs_1, bsd_stubs_2, bsd_stubs_3, bsd_stubs_4, bsd_stubs_5, bsd_stubs_6, bsd_stubs_7, bsd_stubs_8, bsd_stubs_9, bsd_stubs_10, bsd_stubs_11, bsd_stubs_12, bsd_stubs_13, bsd_stubs_14, bsd_stubs_15, bsd_stubs_16, bsd_stubs_17]"

section \<open>Facts\<close>

text \<open>No stub of the lists touches the C heap, and one that is not drawn from the input leaves the whole state as it is.\<close>

lemma run_stub_heap: "run_stub k s = Done n t \<Longrightarrow> mheap t = mheap s"
  by (cases k) (auto split: outcome.splits)

lemma run_stub_pure: "k \<notin> {Fuzzed_bool, Fuzzed_uint32, Fuzzed_uint64} \<Longrightarrow> run_stub k s = Done n t \<Longrightarrow> t = s"
  by (cases k) auto

end
