(* ===== verification/ExecutorSpec.thy ===== *)
theory ExecutorSpec
  imports RunQueue
begin

text \<open>
  What the abstract class \<open>Executor\<close> of \<open>third_party/concurrence/executor/executor.h\<close> promises to the scheduler, as a specification that both of
  its implementations refine: one thread is current, it alone acts, and it decides who is next. An implementation is a labelled step relation; the
  locale \<open>simulation\<close> is the argument that carries its runs over to the specification.
\<close>

section \<open>Events\<close>

text \<open>The actor comes first. \<open>Start\<close> and \<open>Resume\<close> are internal to an executor: a thread begins, or goes on from a wait.\<close>

datatype event =
    Create handle handle
  | Switch handle handle
  | Finish handle
  | Delete handle handle
  | Start handle
  | Resume handle

section \<open>Coroutines\<close>

text \<open>What an executor promises: one thread at a time, which decides who is next.\<close>

record coroutines =
  co_main :: handle
  co_current :: handle
  co_live :: "handle set"

definition new_coroutines :: "handle \<Rightarrow> coroutines" where
  "new_coroutines h = \<lparr>co_main = h, co_current = h, co_live = {}\<rparr>"

inductive co_step :: "coroutines \<Rightarrow> event \<Rightarrow> coroutines \<Rightarrow> bool" where
  co_create: "a = co_current c \<Longrightarrow> new \<notin> insert (co_main c) (co_live c) \<Longrightarrow> co_step c (Create a new) (c\<lparr>co_live := insert new (co_live c)\<rparr>)"
| co_switch: "a = co_current c \<Longrightarrow> h = co_main c \<or> h \<in> co_live c \<Longrightarrow> co_step c (Switch a h) (c\<lparr>co_current := h\<rparr>)"
| co_finish: "a = co_current c \<Longrightarrow> a \<in> co_live c \<Longrightarrow> co_step c (Finish a) (c\<lparr>co_current := co_main c, co_live := co_live c - {a}\<rparr>)"
| co_delete: "a = co_current c \<Longrightarrow> a = co_main c \<Longrightarrow> co_step c (Delete a h) (c\<lparr>co_live := co_live c - {h}\<rparr>)"
| co_start: "a = co_current c \<Longrightarrow> a \<in> co_live c \<Longrightarrow> co_step c (Start a) c"
| co_resume: "co_step c (Resume a) c"

section \<open>Runs\<close>

inductive lts_runs :: "('s \<Rightarrow> 'e \<Rightarrow> 's \<Rightarrow> bool) \<Rightarrow> 's \<Rightarrow> 'e list \<Rightarrow> 's \<Rightarrow> bool" for step where
  runs_nil: "lts_runs step s [] s"
| runs_cons: "step s e t \<Longrightarrow> lts_runs step t es u \<Longrightarrow> lts_runs step s (e # es) u"

lemma runs_one: "step s e t \<Longrightarrow> lts_runs step s [e] t"
  by (erule runs_cons) (rule runs_nil)

locale simulation =
  fixes step :: "'s \<Rightarrow> 'e \<Rightarrow> 's \<Rightarrow> bool" and inv :: "'s \<Rightarrow> bool" and abs :: "'s \<Rightarrow> 'a" and astep :: "'a \<Rightarrow> 'e \<Rightarrow> 'a \<Rightarrow> bool"
  assumes keeps: "inv s \<Longrightarrow> step s e t \<Longrightarrow> inv t"
    and matched: "inv s \<Longrightarrow> step s e t \<Longrightarrow> astep (abs s) e (abs t)"
begin

lemma runs_keep: "lts_runs step s es t \<Longrightarrow> inv s \<Longrightarrow> inv t"
  by (induction rule: lts_runs.induct) (auto intro: keeps)

lemma runs_matched: "lts_runs step s es t \<Longrightarrow> inv s \<Longrightarrow> lts_runs astep (abs s) es (abs t)"
  by (induction rule: lts_runs.induct) (auto intro: keeps matched lts_runs.intros)

end

end
