(* ===== verification/StdThread.thy ===== *)
theory StdThread
  imports ExecutorSpec
begin
text \<open>
  The executor over real threads, \<open>third_party/concurrence/executor/stdthread/\<close>, with the base class in \<open>executor.cc\<close>. It offers the
  interface of the coroutine executor on top of \<open>std::thread\<close>: one mutex is the token to run, each thread has a flag that says whether it is its turn,
  and a switch raises the flag of the target, lowers the own one and waits for it. Threads are real here, so the model is a step relation: an actor
  that holds the mutex executes its code up to the next wait, and an actor that waits goes on once its condition holds and the mutex is free.

  An actor is the main thread, whose handle is 1, or a created thread, whose handle is the address of its object. The code of the clients (the
  function of a thread, and the main thread) is arbitrary: it creates, deletes, switches and returns when it likes. \<open>Await\<close> of \<open>absl::Mutex\<close>
  releases the mutex and takes it again when the condition holds; what has to happen behind a wait is kept with the waiting actor as a list of
  frames, the calls it is in.

  The properties are for clients that keep to what the scheduler does: switch to the main thread or to a thread that has not ended, and delete,
  from the main thread, only threads that have run. Then the executor is a refinement of coroutines: the actor that runs is always the current
  thread, a switch transfers control to exactly its target, and no interleaving gets stuck. A thread that has not run must not be deleted: the
  end of the theory shows what happens then.
\<close>

section \<open>State\<close>

definition MAIN_THREAD_HANDLE :: handle where
  "MAIN_THREAD_HANDLE = 1"

record CooperativeThread =
  running :: bool
  joinable :: bool
  terminate :: bool

text \<open>What an actor waits for, the calls it is in when it goes on, and where it is.\<close>

datatype condition = MainRunning | Running handle | Joinable handle

datatype frame = InWait handle | InExitThread handle | InDestructor handle

datatype pc = AtStart | InCode | Awaiting condition "frame list" | Exited

record texec =
  g_current_thread :: handle
  main_thread_running :: bool
  executor_mutex :: "handle option"
  cooperative_threads :: "handle \<rightharpoonup> CooperativeThread"
  backtraces :: "handle set"
  pcs :: "handle \<Rightarrow> pc"
  destroyed :: "handle list"

definition new_ThreadExecutor :: texec where
  "new_ThreadExecutor = \<lparr>g_current_thread = MAIN_THREAD_HANDLE, main_thread_running = True, executor_mutex = Some MAIN_THREAD_HANDLE,
     cooperative_threads = Map.empty, backtraces = {}, pcs = (\<lambda>h. if h = MAIN_THREAD_HANDLE then InCode else AtStart), destroyed = []\<rparr>"

section \<open>Threads\<close>

definition thread_at :: "handle \<Rightarrow> (CooperativeThread, texec) prog" where
  "thread_at h = (\<lambda>s. case cooperative_threads s h of None \<Rightarrow> Stopped MemFault | Some c \<Rightarrow> Done c s)"

definition thread_upd :: "handle \<Rightarrow> (CooperativeThread \<Rightarrow> CooperativeThread) \<Rightarrow> (unit, texec) prog" where
  "thread_upd h f = bindM (thread_at h) (\<lambda>c. modifyM (\<lambda>s. s\<lparr>cooperative_threads := (cooperative_threads s)(h \<mapsto> f c)\<rparr>))"

text \<open>The start of \<open>Await\<close>: the actor \<open>self\<close> gives up the mutex. The rest happens when it is resumed.\<close>

definition Await :: "handle \<Rightarrow> condition \<Rightarrow> frame list \<Rightarrow> (unit, texec) prog" where
  "Await self cond fs = modifyM (\<lambda>s. s\<lparr>executor_mutex := None, pcs := (pcs s)(self := Awaiting cond fs)\<rparr>)"

definition AssertHeld :: "handle \<Rightarrow> (unit, texec) prog" where
  "AssertHeld self = (\<lambda>s. if executor_mutex s = Some self then Done () s else Stopped HostAbort)"

definition Wait :: "handle \<Rightarrow> handle \<Rightarrow> frame list \<Rightarrow> (unit, texec) prog" where
  "Wait self h fs = thenM (AssertHeld self) (thenM (thread_upd h (\<lambda>c. c\<lparr>running := False\<rparr>)) (Await self (Running h) (InWait h # fs)))"

definition Signal :: "handle \<Rightarrow> handle \<Rightarrow> (unit, texec) prog" where
  "Signal self h = (if self = h then abortM else thread_upd h (\<lambda>c. c\<lparr>running := True\<rparr>))"

section \<open>Switching\<close>

definition te_SwitchTo :: "handle \<Rightarrow> handle \<Rightarrow> frame list \<Rightarrow> (bool, texec) prog" where
  "te_SwitchTo self handle fs =
     bindM (getsM g_current_thread) (\<lambda>current_handle.
       if handle = current_handle then retM False
       else
         thenM (modifyM (\<lambda>s. s\<lparr>g_current_thread := handle\<rparr>))
        (thenM (if handle = MAIN_THREAD_HANDLE
                then bindM (getsM main_thread_running) (\<lambda>r. if r then abortM else modifyM (\<lambda>s. s\<lparr>main_thread_running := True\<rparr>))
                else Signal self handle)
        (thenM (if current_handle = MAIN_THREAD_HANDLE
                then thenM (modifyM (\<lambda>s. s\<lparr>main_thread_running := False\<rparr>)) (Await self MainRunning fs)
                else Wait self current_handle fs)
           (retM True))))"

definition te_SwitchToMainThread :: "handle \<Rightarrow> frame list \<Rightarrow> (bool, texec) prog" where
  "te_SwitchToMainThread self fs = te_SwitchTo self MAIN_THREAD_HANDLE fs"

definition te_NotifyDestroyed :: "handle \<Rightarrow> handle \<Rightarrow> frame list \<Rightarrow> (bool, texec) prog" where
  "te_NotifyDestroyed self h fs =
     thenM (modifyM (\<lambda>s. s\<lparr>destroyed := destroyed s @ [h]\<rparr>)) (te_SwitchToMainThread self fs)"

text \<open>The end of \<open>ExitThread\<close>, behind the notification, and \<open>ExitThread\<close> itself: when the switch does not wait, the end follows at once.\<close>

definition exit_now :: "handle \<Rightarrow> handle \<Rightarrow> (unit, texec) prog" where
  "exit_now self h =
     thenM (thread_upd h (\<lambda>c. c\<lparr>joinable := True\<rparr>)) (modifyM (\<lambda>s. s\<lparr>executor_mutex := None, pcs := (pcs s)(self := Exited)\<rparr>))"

definition ExitThread :: "handle \<Rightarrow> handle \<Rightarrow> (unit, texec) prog" where
  "ExitThread self h =
     thenM (AssertHeld self)
    (bindM (te_NotifyDestroyed self h [InExitThread h]) (\<lambda>waits. if waits then retM () else exit_now self h))"

section \<open>Deleting\<close>

definition DeleteBacktrace :: "handle \<Rightarrow> (unit, texec) prog" where
  "DeleteBacktrace h = modifyM (\<lambda>s. s\<lparr>backtraces := backtraces s - {h}\<rparr>)"

definition SetBacktrace :: "handle \<Rightarrow> (unit, texec) prog" where
  "SetBacktrace h = modifyM (\<lambda>s. s\<lparr>backtraces := insert h (backtraces s)\<rparr>)"

text \<open>\<open>std::thread::join\<close> waits for the thread to have left \<open>pthread_exit\<close>; here a thread that is joinable has.\<close>

definition erase_thread :: "handle \<Rightarrow> (unit, texec) prog" where
  "erase_thread h = modifyM (\<lambda>s. s\<lparr>cooperative_threads := (cooperative_threads s)(h := None)\<rparr>)"

definition destructor :: "handle \<Rightarrow> handle \<Rightarrow> (unit, texec) prog" where
  "destructor self h =
     (if self = h then abortM
      else bindM (thread_at h) (\<lambda>c.
        if joinable c then erase_thread h
        else thenM (thread_upd h (\<lambda>c. c\<lparr>terminate := True\<rparr>))
            (thenM (Signal self h) (Await self (Joinable h) [InDestructor h]))))"

definition te_DeleteThread :: "handle \<Rightarrow> handle \<Rightarrow> (unit, texec) prog" where
  "te_DeleteThread self h =
     thenM (DeleteBacktrace h) (bindM (getsM (\<lambda>s. cooperative_threads s h)) (\<lambda>c. case c of
        None \<Rightarrow> retM ()
      | Some _ \<Rightarrow> destructor self h))"

section \<open>Creating and describing\<close>

definition new_CooperativeThread :: CooperativeThread where
  "new_CooperativeThread = \<lparr>running = False, joinable = False, terminate = False\<rparr>"

definition te_CreateThread :: "handle \<Rightarrow> (handle, texec) prog" where
  "te_CreateThread new =
     thenM (modifyM (\<lambda>s. s\<lparr>cooperative_threads := (cooperative_threads s)(new \<mapsto> new_CooperativeThread), pcs := (pcs s)(new := AtStart)\<rparr>))
       (retM new)"

definition te_GetThreadHandle :: "handle \<Rightarrow> texec \<Rightarrow> handle" where
  "te_GetThreadHandle thread s = (if cooperative_threads s thread = None then MAIN_THREAD_HANDLE else thread)"

definition te_GetCurrentThreadHandle :: "texec \<Rightarrow> handle" where
  "te_GetCurrentThreadHandle s = g_current_thread s"

definition te_GetMainThreadHandle :: handle where
  "te_GetMainThreadHandle = MAIN_THREAD_HANDLE"

text \<open>The backtraces that are printed.\<close>

definition te_PrintBacktrace :: "handle \<Rightarrow> texec \<Rightarrow> handle list" where
  "te_PrintBacktrace h s = (if h \<notin> backtraces s then [] else [h])"

section \<open>Going on\<close>

text \<open>When the mutex has been taken again, the calls the actor is in go on, innermost first.\<close>

fun go_on :: "handle \<Rightarrow> frame list \<Rightarrow> (unit, texec) prog" where
  "go_on self [] = modifyM (\<lambda>s. s\<lparr>pcs := (pcs s)(self := InCode)\<rparr>)"
| "go_on self (InWait h # fs) = bindM (thread_at h) (\<lambda>c. if terminate c then ExitThread self h else go_on self fs)"
| "go_on self (InExitThread h # fs) = exit_now self h"
| "go_on self (InDestructor h # fs) = thenM (erase_thread h) (go_on self fs)"

definition holds :: "condition \<Rightarrow> texec \<Rightarrow> bool" where
  "holds cond s = (case cond of
     MainRunning \<Rightarrow> main_thread_running s
   | Running h \<Rightarrow> (case cooperative_threads s h of None \<Rightarrow> False | Some c \<Rightarrow> running c)
   | Joinable h \<Rightarrow> (case cooperative_threads s h of None \<Rightarrow> False | Some c \<Rightarrow> joinable c))"

definition in_code :: "handle \<Rightarrow> texec \<Rightarrow> bool" where
  "in_code self s \<longleftrightarrow> executor_mutex s = Some self \<and> pcs s self = InCode"

text \<open>One event: the code an actor executes from one wait to the next.\<close>

inductive te_step :: "texec \<Rightarrow> event \<Rightarrow> texec \<Rightarrow> bool" where
  create: "in_code a s \<Longrightarrow> new \<notin> {0, MAIN_THREAD_HANDLE} \<Longrightarrow> cooperative_threads s new = None \<Longrightarrow>
     te_CreateThread new s = Done r t \<Longrightarrow> te_step s (Create a new) t"
| switch: "in_code a s \<Longrightarrow> te_SwitchTo a h [] s = Done r t \<Longrightarrow> te_step s (Switch a h) t"
| finish: "in_code a s \<Longrightarrow> a \<noteq> MAIN_THREAD_HANDLE \<Longrightarrow> ExitThread a a s = Done () t \<Longrightarrow> te_step s (Finish a) t"
| delete: "in_code a s \<Longrightarrow> te_DeleteThread a h s = Done () t \<Longrightarrow> te_step s (Delete a h) t"
| start: "pcs s h = AtStart \<Longrightarrow> executor_mutex s = None \<Longrightarrow> holds (Running h) s \<Longrightarrow>
     te_step s (Start h) (s\<lparr>executor_mutex := Some h, pcs := (pcs s)(h := InCode)\<rparr>)"
| resume: "pcs s a = Awaiting cond fs \<Longrightarrow> executor_mutex s = None \<Longrightarrow> holds cond s \<Longrightarrow>
     go_on a fs (s\<lparr>executor_mutex := Some a\<rparr>) = Done () t \<Longrightarrow> te_step s (Resume a) t"

section \<open>Clients that behave\<close>

definition leaving :: "handle \<Rightarrow> texec \<Rightarrow> bool" where
  "leaving h s \<longleftrightarrow> pcs s h = Awaiting (Running h) [InWait h, InExitThread h]"

definition alive :: "handle \<Rightarrow> texec \<Rightarrow> bool" where
  "alive h s \<longleftrightarrow> cooperative_threads s h \<noteq> None \<and> \<not> leaving h s"

text \<open>The scheduler switches to the main thread or to a live one, and deletes, from the main thread, threads that have run.\<close>

primrec proper :: "texec \<Rightarrow> event \<Rightarrow> bool" where
  "proper s (Switch a h) = (h = MAIN_THREAD_HANDLE \<or> alive h s)"
| "proper s (Delete a h) = (a = MAIN_THREAD_HANDLE \<and> pcs s h \<noteq> AtStart \<and> cooperative_threads s h \<noteq> None)"
| "proper s (Create a h) = True"
| "proper s (Finish a) = True"
| "proper s (Start a) = True"
| "proper s (Resume a) = True"

section \<open>The invariant\<close>

definition parked :: "handle \<Rightarrow> texec \<Rightarrow> bool" where
  "parked h s \<longleftrightarrow> (if h = MAIN_THREAD_HANDLE then pcs s h = Awaiting MainRunning []
     else pcs s h = AtStart \<or> pcs s h = Awaiting (Running h) [InWait h] \<or> leaving h s)"

definition idle :: "CooperativeThread \<Rightarrow> bool" where
  "idle c \<longleftrightarrow> \<not> running c \<and> \<not> terminate c \<and> \<not> joinable c"

text \<open>Everyone else waits with the flag down, and the current thread runs or is about to.\<close>

definition turn :: "texec \<Rightarrow> bool" where
  "turn s \<longleftrightarrow> (let cur = g_current_thread s in
     (cur = MAIN_THREAD_HANDLE \<or> (\<exists>c. cooperative_threads s cur = Some c \<and> running c \<and> \<not> terminate c \<and> \<not> joinable c)) \<and>
     main_thread_running s = (cur = MAIN_THREAD_HANDLE) \<and>
     (\<forall>h c. cooperative_threads s h = Some c \<longrightarrow> h \<noteq> cur \<longrightarrow> idle c \<and> parked h s) \<and>
     (cur \<noteq> MAIN_THREAD_HANDLE \<longrightarrow> parked MAIN_THREAD_HANDLE s) \<and>
     (in_code cur s \<or> executor_mutex s = None \<and> parked cur s \<and> \<not> leaving cur s))"

text \<open>The main thread waits for a thread that has to leave.\<close>

definition joining :: "handle \<Rightarrow> texec \<Rightarrow> bool" where
  "joining h s \<longleftrightarrow> g_current_thread s = MAIN_THREAD_HANDLE \<and> main_thread_running s \<and> executor_mutex s = None \<and>
     pcs s MAIN_THREAD_HANDLE = Awaiting (Joinable h) [InDestructor h] \<and>
     (\<exists>c. cooperative_threads s h = Some c \<and> running c \<and> terminate c \<and>
        (parked h s \<and> pcs s h \<noteq> AtStart \<and> \<not> joinable c \<or> pcs s h = Exited \<and> joinable c)) \<and>
     (\<forall>h' c. cooperative_threads s h' = Some c \<longrightarrow> h' \<noteq> h \<longrightarrow> idle c \<and> parked h' s)"

definition te_inv :: "texec \<Rightarrow> bool" where
  "te_inv s \<longleftrightarrow> cooperative_threads s MAIN_THREAD_HANDLE = None \<and>
     (\<forall>h. cooperative_threads s h = None \<longrightarrow> h \<noteq> MAIN_THREAD_HANDLE \<longrightarrow> pcs s h = AtStart \<or> pcs s h = Exited) \<and> (turn s \<or> (\<exists>h. joining h s))"

lemmas te_defs = thread_at_def thread_upd_def Await_def AssertHeld_def Wait_def Signal_def abortM_def

lemma joining_not_in_code: "joining h s \<Longrightarrow> \<not> in_code a s"
  by (simp add: joining_def in_code_def)

lemma turn_in_code: "turn s \<Longrightarrow> in_code a s \<Longrightarrow> a = g_current_thread s"
  by (auto simp: turn_def in_code_def Let_def)

lemma te_inv_in_code: "te_inv s \<Longrightarrow> in_code a s \<Longrightarrow> turn s \<and> a = g_current_thread s"
  using joining_not_in_code turn_in_code by (auto simp: te_inv_def)

lemma te_inv_new: "te_inv new_ThreadExecutor"
  by (simp add: te_inv_def turn_def new_ThreadExecutor_def in_code_def Let_def)

definition current_ok :: "texec \<Rightarrow> bool" where
  "current_ok s \<longleftrightarrow> g_current_thread s = MAIN_THREAD_HANDLE \<or>
     (\<exists>c. cooperative_threads s (g_current_thread s) = Some c \<and> running c \<and> \<not> terminate c \<and> \<not> joinable c)"

definition others_wait :: "handle \<Rightarrow> texec \<Rightarrow> bool" where
  "others_wait cur s \<longleftrightarrow> (\<forall>h c. cooperative_threads s h = Some c \<longrightarrow> h \<noteq> cur \<longrightarrow> idle c \<and> parked h s)"

lemma turn_alt:
  "turn s \<longleftrightarrow> current_ok s \<and> main_thread_running s = (g_current_thread s = MAIN_THREAD_HANDLE) \<and> others_wait (g_current_thread s) s \<and>
     (g_current_thread s \<noteq> MAIN_THREAD_HANDLE \<longrightarrow> parked MAIN_THREAD_HANDLE s) \<and>
     (in_code (g_current_thread s) s \<or>
      executor_mutex s = None \<and> parked (g_current_thread s) s \<and> \<not> leaving (g_current_thread s) s)"
  by (simp add: turn_def current_ok_def others_wait_def Let_def)

text \<open>Where an actor is depends only on its own program counter.\<close>

lemma parked_cong: "pcs t h = pcs s h \<Longrightarrow> parked h t = parked h s" "pcs t h = pcs s h \<Longrightarrow> leaving h t = leaving h s"
  by (auto simp: parked_def leaving_def)

lemma others_waitD: "others_wait cur s \<Longrightarrow> cooperative_threads s h = Some c \<Longrightarrow> h \<noteq> cur \<Longrightarrow> idle c \<and> parked h s"
  by (simp add: others_wait_def)

lemma create_keeps:
  assumes "te_inv s" "in_code a s" "new \<notin> {0, MAIN_THREAD_HANDLE}" "cooperative_threads s new = None" "te_CreateThread new s = Done r t"
  shows "te_inv t"
proof -
  have s: "turn s" "a = g_current_thread s" using te_inv_in_code [OF assms(1,2)] by auto
  have new: "new \<noteq> a" using s assms(3,4) by (auto simp: turn_alt current_ok_def)
  have t: "t = s\<lparr>cooperative_threads := (cooperative_threads s)(new \<mapsto> new_CooperativeThread), pcs := (pcs s)(new := AtStart)\<rparr>"
    using assms(5) by (auto simp: te_CreateThread_def)
  have p: "h \<noteq> new \<Longrightarrow> parked h t = parked h s" for h by (rule parked_cong) (simp add: t)
  have "others_wait a t" unfolding others_wait_def
  proof (intro allI impI)
    fix h c assume "cooperative_threads t h = Some c" "h \<noteq> a"
    then show "idle c \<and> parked h t"
      using others_waitD [of a s h c] s p [of h] assms(3)
      by (cases "h = new") (auto simp: t turn_alt idle_def parked_def new_CooperativeThread_def)
  qed
  moreover have "in_code a t" using assms(2) new by (simp add: in_code_def t)
  moreover have "current_ok t" "main_thread_running t = (a = MAIN_THREAD_HANDLE)" "g_current_thread t = a"
    using s new by (auto simp: current_ok_def t turn_alt)
  ultimately have "turn t" using s p [of MAIN_THREAD_HANDLE] assms(3) by (simp add: turn_alt)
  then show ?thesis using assms(1,3) by (auto simp: te_inv_def t)
qed

text \<open>The state in which a switch leaves the executor: the flag of the target is up, that of the caller is down, and the caller waits.\<close>

definition switched :: "handle \<Rightarrow> handle \<Rightarrow> frame list \<Rightarrow> texec \<Rightarrow> texec" where
  "switched a h fs s = s\<lparr>g_current_thread := h, main_thread_running := (h = MAIN_THREAD_HANDLE), executor_mutex := None,
     cooperative_threads := (\<lambda>x. if x = h then map_option (\<lambda>c. c\<lparr>running := True\<rparr>) (cooperative_threads s x)
        else if x = a then map_option (\<lambda>c. c\<lparr>running := False\<rparr>) (cooperative_threads s x) else cooperative_threads s x),
     pcs := (pcs s)(a := (if a = MAIN_THREAD_HANDLE then Awaiting MainRunning fs else Awaiting (Running a) (InWait a # fs)))\<rparr>"

lemma SwitchTo_switched:
  assumes s: "te_inv s" "in_code a s" and h: "h = MAIN_THREAD_HANDLE \<or> alive h s" and ne: "h \<noteq> a"
  shows "te_SwitchTo a h fs s = Done True (switched a h fs s)"
proof -
  have t: "turn s" "a = g_current_thread s" and m: "cooperative_threads s MAIN_THREAD_HANDLE = None"
    using te_inv_in_code [OF s] s(1) by (auto simp: te_inv_def)
  have mut: "executor_mutex s = Some a" using s(2) by (simp add: in_code_def)
  consider (from_main) "a = MAIN_THREAD_HANDLE" | (to_main) "a \<noteq> MAIN_THREAD_HANDLE" "h = MAIN_THREAD_HANDLE" | (across) "a \<noteq> MAIN_THREAD_HANDLE" "h \<noteq> MAIN_THREAD_HANDLE"
    by blast
  then show ?thesis
  proof cases
    case from_main
    then obtain c where "cooperative_threads s h = Some c" using h ne by (auto simp: alive_def)
    then show ?thesis using from_main ne t(2) m
      by (simp add: te_SwitchTo_def te_defs switched_def) (auto intro!: texec.equality)
  next
    case to_main
    then obtain c where "cooperative_threads s a = Some c" using t by (auto simp: turn_alt current_ok_def)
    then show ?thesis using to_main ne t m mut
      by (simp add: te_SwitchTo_def te_defs switched_def turn_alt) (auto intro!: texec.equality)
  next
    case across
    then obtain c d where "cooperative_threads s a = Some c" "cooperative_threads s h = Some d" using t h by (auto simp: turn_alt current_ok_def alive_def)
    then show ?thesis using across ne t m mut
      by (simp add: te_SwitchTo_def te_defs switched_def turn_alt) (auto intro!: texec.equality)
  qed
qed

lemma switched_keeps:
  assumes s: "te_inv s" "in_code a s" and h: "h = MAIN_THREAD_HANDLE \<or> alive h s" and ne: "h \<noteq> a"
    and fs: "fs = [] \<or> fs = [InExitThread a] \<and> a \<noteq> MAIN_THREAD_HANDLE"
  shows "te_inv (switched a h fs s)"
proof -
  let ?t = "switched a h fs s"
  have t: "turn s" "a = g_current_thread s" and m: "cooperative_threads s MAIN_THREAD_HANDLE = None"
    using te_inv_in_code [OF s] s(1) by (auto simp: te_inv_def)
  have p: "x \<noteq> a \<Longrightarrow> parked x ?t = parked x s" "x \<noteq> a \<Longrightarrow> leaving x ?t = leaving x s" for x
    by (rule parked_cong, simp add: switched_def)+
  have a: "parked a ?t" using fs by (auto simp: parked_def leaving_def switched_def)
  have "others_wait h ?t" unfolding others_wait_def
  proof (intro allI impI)
    fix x c assume x: "cooperative_threads ?t x = Some c" "x \<noteq> h"
    show "idle c \<and> parked x ?t"
    proof (cases "x = a")
      case True
      then show ?thesis using x a t by (auto simp: switched_def turn_alt current_ok_def idle_def m)
    next
      case False
      then have "cooperative_threads s x = Some c" using x by (simp add: switched_def)
      then show ?thesis using others_waitD [of a s x c] t False p(1) by (simp add: turn_alt)
    qed
  qed
  note others = this
  have hd: "h \<noteq> MAIN_THREAD_HANDLE \<Longrightarrow> \<exists>c. cooperative_threads s h = Some c \<and> idle c \<and> \<not> leaving h s"
    using h others_waitD [of a s h] t ne by (auto simp: alive_def turn_alt)
  have "current_ok ?t"
  proof (cases "h = MAIN_THREAD_HANDLE")
    case False
    with hd obtain c where "cooperative_threads s h = Some c" "idle c" by blast
    then show ?thesis by (simp add: current_ok_def switched_def idle_def)
  qed (simp add: current_ok_def switched_def)
  moreover note others
  moreover have "parked h s" using h t ne others_waitD [of a s h] by (auto simp: alive_def turn_alt)
  moreover have "\<not> leaving h s" using hd \<open>parked h s\<close> by (auto simp: parked_def leaving_def split: if_splits)
  moreover have "h \<noteq> MAIN_THREAD_HANDLE \<Longrightarrow> parked MAIN_THREAD_HANDLE ?t"
    using a p(1) [of MAIN_THREAD_HANDLE] t by (cases "a = MAIN_THREAD_HANDLE") (auto simp: turn_alt)
  moreover have "g_current_thread ?t = h" "main_thread_running ?t = (h = MAIN_THREAD_HANDLE)" "executor_mutex ?t = None" by (simp_all add: switched_def)
  ultimately have "turn ?t" using p [OF ne] unfolding turn_alt by simp
  moreover have "cooperative_threads ?t MAIN_THREAD_HANDLE = None" using m by (simp add: switched_def)
  moreover have "pcs ?t x = AtStart \<or> pcs ?t x = Exited" if "cooperative_threads ?t x = None" "x \<noteq> MAIN_THREAD_HANDLE" for x
    using that s(1) t by (cases "x = a") (auto simp: switched_def te_inv_def turn_alt current_ok_def split: if_splits)
  ultimately show ?thesis by (simp add: te_inv_def)
qed

lemma switch_keeps:
  assumes "te_inv s" "in_code a s" "h = MAIN_THREAD_HANDLE \<or> alive h s" "te_SwitchTo a h [] s = Done r t"
  shows "te_inv t \<and> g_current_thread t = h"
proof (cases "h = a")
  case True
  then show ?thesis using assms te_inv_in_code [OF assms(1,2)] by (simp add: te_SwitchTo_def)
next
  case False
  then have "t = switched a h [] s" using SwitchTo_switched [OF assms(1-3) False, of "[]"] assms(4) by simp
  then show ?thesis using switched_keeps [OF assms(1-3) False, of "[]"] by (simp add: switched_def)
qed

lemma te_inv_destroyed [simp]: "te_inv (s\<lparr>destroyed := d\<rparr>) = te_inv s" "in_code a (s\<lparr>destroyed := d\<rparr>) = in_code a s"
  by (simp_all add: te_inv_def turn_alt current_ok_def others_wait_def parked_def leaving_def in_code_def joining_def)

text \<open>The function of a thread has returned: the thread waits, marked as ended, and the main thread is current.\<close>

lemma finish_switched:
  assumes "te_inv s" "in_code a s" "a \<noteq> MAIN_THREAD_HANDLE"
  shows "ExitThread a a s = Done () (switched a MAIN_THREAD_HANDLE [InExitThread a] (s\<lparr>destroyed := destroyed s @ [a]\<rparr>))"
  using SwitchTo_switched [of "s\<lparr>destroyed := destroyed s @ [a]\<rparr>" a MAIN_THREAD_HANDLE "[InExitThread a]"] assms
  by (simp add: ExitThread_def AssertHeld_def te_NotifyDestroyed_def te_SwitchToMainThread_def in_code_def)

lemma finish_keeps:
  assumes "te_inv s" "in_code a s" "a \<noteq> MAIN_THREAD_HANDLE" "ExitThread a a s = Done () t"
  shows "te_inv t \<and> g_current_thread t = MAIN_THREAD_HANDLE \<and> leaving a t \<and> destroyed t = destroyed s @ [a]"
proof -
  let ?s = "s\<lparr>destroyed := destroyed s @ [a]\<rparr>"
  have "t = switched a MAIN_THREAD_HANDLE [InExitThread a] ?s" using finish_switched [OF assms(1-3)] assms(4) by simp
  moreover have "te_inv (switched a MAIN_THREAD_HANDLE [InExitThread a] ?s)" using assms by (intro switched_keeps) simp_all
  ultimately show ?thesis using assms(3) by (simp add: switched_def leaving_def)
qed

text \<open>Deleting a thread that has run: the main thread waits until it has left.\<close>

definition deleting :: "handle \<Rightarrow> texec \<Rightarrow> texec" where
  "deleting h s = s\<lparr>backtraces := backtraces s - {h}, executor_mutex := None,
     cooperative_threads := (cooperative_threads s)(h := map_option (\<lambda>c. c\<lparr>terminate := True, running := True\<rparr>) (cooperative_threads s h)),
     pcs := (pcs s)(MAIN_THREAD_HANDLE := Awaiting (Joinable h) [InDestructor h])\<rparr>"

lemma delete_deleting:
  assumes s: "te_inv s" "in_code MAIN_THREAD_HANDLE s" and h: "pcs s h \<noteq> AtStart" "cooperative_threads s h \<noteq> None"
  shows "te_DeleteThread MAIN_THREAD_HANDLE h s = Done () (deleting h s)" "joining h (deleting h s)"
proof -
  have t: "turn s" "g_current_thread s = MAIN_THREAD_HANDLE" "cooperative_threads s MAIN_THREAD_HANDLE = None"
    using te_inv_in_code [OF s] s(1) by (auto simp: te_inv_def)
  have ne: "h \<noteq> MAIN_THREAD_HANDLE" using h(2) t(3) by auto
  obtain c where c: "cooperative_threads s h = Some c" using h(2) by blast
  have idle: "idle c" "parked h s" using others_waitD [of MAIN_THREAD_HANDLE s h c] t c ne by (simp_all add: turn_alt)
  show "te_DeleteThread MAIN_THREAD_HANDLE h s = Done () (deleting h s)" using c ne idle
    by (simp add: te_DeleteThread_def DeleteBacktrace_def destructor_def te_defs deleting_def idle_def)
  have "others_wait MAIN_THREAD_HANDLE s" using t by (simp add: turn_alt)
  then have "idle d \<and> parked x (deleting h s)" if "cooperative_threads (deleting h s) x = Some d" "x \<noteq> h" for x d
    using that t(3) others_waitD [of MAIN_THREAD_HANDLE s x d] parked_cong(1) [of "deleting h s" x s]
    by (cases "x = MAIN_THREAD_HANDLE") (auto simp: deleting_def)
  moreover have "parked h (deleting h s)" "pcs (deleting h s) h \<noteq> AtStart"
    using idle(2) h(1) ne parked_cong(1) [of "deleting h s" h s] by (auto simp: deleting_def)
  ultimately show "joining h (deleting h s)" using t c idle ne unfolding joining_def
    by (auto simp: deleting_def turn_alt idle_def)
qed

lemma delete_keeps:
  assumes "te_inv s" "in_code MAIN_THREAD_HANDLE s" "pcs s h \<noteq> AtStart" "cooperative_threads s h \<noteq> None"
    "te_DeleteThread MAIN_THREAD_HANDLE h s = Done () t"
  shows "te_inv t \<and> g_current_thread t = MAIN_THREAD_HANDLE"
proof -
  have t: "t = deleting h s" using delete_deleting(1) [OF assms(1-4)] assms(5) by simp
  have j: "joining h t" unfolding t by (rule delete_deleting(2) [OF assms(1-4)])
  have "h \<noteq> MAIN_THREAD_HANDLE" using assms(1,4) by (auto simp: te_inv_def)
  then have "te_inv t" using j assms(1) by (auto simp: te_inv_def t deleting_def)
  then show ?thesis using j by (simp add: joining_def)
qed

section \<open>Waiting actors\<close>

lemma running_current: "turn s \<Longrightarrow> holds (Running h) s \<Longrightarrow> h = g_current_thread s"
  by (auto simp: holds_def turn_alt others_wait_def idle_def split: option.splits)

lemma joining_idle: "joining h s \<Longrightarrow> holds (Running x) s \<Longrightarrow> x = h"
  by (auto simp: holds_def joining_def idle_def split: option.splits)

definition enter :: "handle \<Rightarrow> texec \<Rightarrow> texec" where
  "enter h s = s\<lparr>executor_mutex := Some h, pcs := (pcs s)(h := InCode)\<rparr>"

text \<open>The current thread takes the mutex.\<close>

lemma enter_keeps:
  assumes "te_inv s" "turn s" "executor_mutex s = None"
  shows "te_inv (enter (g_current_thread s) s)" "in_code (g_current_thread s) (enter (g_current_thread s) s)"
proof -
  let ?c = "g_current_thread s" let ?t = "enter ?c s"
  show in_code: "in_code ?c ?t" by (simp add: in_code_def enter_def)
  have p: "parked x ?t = parked x s" if "x \<noteq> ?c" for x by (rule parked_cong) (simp add: enter_def that)
  have "others_wait ?c ?t" using assms(2) p by (auto simp: turn_alt others_wait_def enter_def)
  moreover have "current_ok ?t" "main_thread_running ?t = (?c = MAIN_THREAD_HANDLE)" "g_current_thread ?t = ?c"
    using assms(2) by (auto simp: turn_alt current_ok_def enter_def)
  ultimately have "turn ?t" using in_code assms(2) p [of MAIN_THREAD_HANDLE] unfolding turn_alt by auto
  moreover have "cooperative_threads s x = None \<Longrightarrow> x \<noteq> MAIN_THREAD_HANDLE \<Longrightarrow> x \<noteq> ?c" for x
    using assms(2) by (auto simp: turn_alt current_ok_def)
  ultimately show "te_inv ?t" using assms(1) by (auto simp: te_inv_def enter_def)
qed

lemma start_current:
  assumes "te_inv s" "pcs s h = AtStart" "executor_mutex s = None" "holds (Running h) s"
  shows "turn s" "h = g_current_thread s"
proof -
  have "\<not> joining x s" for x
  proof
    assume j: "joining x s"
    with joining_idle [OF j assms(4)] show False using assms(2) by (auto simp: joining_def leaving_def)
  qed
  then show "turn s" using assms(1) by (auto simp: te_inv_def)
  then show "h = g_current_thread s" using assms(4) by (rule running_current)
qed

lemma resume_turn:
  assumes s: "te_inv s" "turn s" and w: "pcs s a = Awaiting cond fs" "executor_mutex s = None" "holds cond s"
  shows "a = g_current_thread s" "go_on a fs (s\<lparr>executor_mutex := Some a\<rparr>) = Done () (enter a s)"
proof -
  consider (stray) "cooperative_threads s a = None" "a \<noteq> MAIN_THREAD_HANDLE" | (main) "a = MAIN_THREAD_HANDLE"
    | (thread) c where "cooperative_threads s a = Some c" "a \<noteq> MAIN_THREAD_HANDLE"
    by blast
  then have "a = g_current_thread s \<and> go_on a fs (s\<lparr>executor_mutex := Some a\<rparr>) = Done () (enter a s)"
  proof cases
    case stray
    then have "pcs s a = AtStart \<or> pcs s a = Exited" using s(1) unfolding te_inv_def by blast
    then show ?thesis using w(1) by auto
  next
    case main
    then have "parked a s" using s(2) w(1) by (auto simp: turn_alt in_code_def)
    then have "cond = MainRunning" "fs = []" using main w(1) by (simp_all add: parked_def)
    then show ?thesis using main s(2) w(3) by (auto simp: turn_alt holds_def enter_def)
  next
    case (thread c)
    have "parked a s" using s(2) w(1) others_waitD [of "g_current_thread s" s a c] thread by (cases "a = g_current_thread s") (auto simp: turn_alt in_code_def)
    then have cond: "cond = Running a" using thread w(1) by (auto simp: parked_def leaving_def)
    then have cur: "a = g_current_thread s" using running_current [OF s(2)] w(3) by simp
    then have "\<not> leaving a s" "\<not> terminate c" using s(2) w(1) thread by (auto simp: turn_alt in_code_def current_ok_def)
    then have "fs = [InWait a]" using \<open>parked a s\<close> thread w(1) by (auto simp: parked_def)
    then show ?thesis using cur thread \<open>\<not> terminate c\<close> by (simp add: thread_at_def enter_def)
  qed
  then show "a = g_current_thread s" "go_on a fs (s\<lparr>executor_mutex := Some a\<rparr>) = Done () (enter a s)" by auto
qed

text \<open>The thread that is deleted finds its flag up, is told to terminate, and leaves; then the main thread removes it.\<close>

definition left :: "handle \<Rightarrow> texec \<Rightarrow> texec" where
  "left h s = s\<lparr>executor_mutex := None, destroyed := destroyed s @ [h],
     cooperative_threads := (cooperative_threads s)(h := map_option (\<lambda>c. c\<lparr>joinable := True\<rparr>) (cooperative_threads s h)),
     pcs := (pcs s)(h := Exited)\<rparr>"

definition removed :: "handle \<Rightarrow> texec \<Rightarrow> texec" where
  "removed h s = enter MAIN_THREAD_HANDLE (s\<lparr>cooperative_threads := (cooperative_threads s)(h := None)\<rparr>)"

lemma joining_thread:
  assumes "joining h s"
  obtains c where "cooperative_threads s h = Some c" "running c" "terminate c"
    "parked h s \<and> pcs s h \<noteq> AtStart \<and> \<not> joinable c \<or> pcs s h = Exited \<and> joinable c"
  using assms unfolding joining_def by blast

lemma joining_others: "joining h s \<Longrightarrow> cooperative_threads s x = Some c \<Longrightarrow> x \<noteq> h \<Longrightarrow> idle c \<and> parked x s"
  unfolding joining_def by blast

text \<open>While the main thread joins, only the two of them can go on, one after the other.\<close>

lemma resume_joining:
  assumes s: "te_inv s" "joining h s" and w: "pcs s a = Awaiting cond fs" "holds cond s"
  obtains (leaves) "a = h" "pcs s h \<noteq> Exited" "go_on a fs (s\<lparr>executor_mutex := Some a\<rparr>) = Done () (left h s)"
    | (joins) "a = MAIN_THREAD_HANDLE" "pcs s h = Exited" "go_on a fs (s\<lparr>executor_mutex := Some a\<rparr>) = Done () (removed h s)"
proof -
  have m: "cooperative_threads s MAIN_THREAD_HANDLE = None" using s(1) by (simp add: te_inv_def)
  obtain c where c: "cooperative_threads s h = Some c" "running c" "terminate c"
    "parked h s \<and> pcs s h \<noteq> AtStart \<and> \<not> joinable c \<or> pcs s h = Exited \<and> joinable c"
    using s(2) by (rule joining_thread)
  have hm: "h \<noteq> MAIN_THREAD_HANDLE" using m c by auto
  consider (at_main) "a = MAIN_THREAD_HANDLE" | (at_h) "a = h" | (stray) "cooperative_threads s a = None" "a \<noteq> MAIN_THREAD_HANDLE"
    | (other) d where "cooperative_threads s a = Some d" "a \<noteq> h" "a \<noteq> MAIN_THREAD_HANDLE" by blast
  then show thesis
  proof cases
    case at_main
    then have fs: "cond = Joinable h" "fs = [InDestructor h]" using s(2) w(1) by (simp_all add: joining_def)
    then have "joinable c" using w(2) c(1) by (simp add: holds_def)
    then show thesis using joins at_main fs c(4) by (simp add: erase_thread_def removed_def enter_def)
  next
    case at_h
    then obtain fs' where fs: "fs = InWait h # fs'" using c(4) w(1) hm by (auto simp: parked_def leaving_def)
    have g: "g_current_thread s = MAIN_THREAD_HANDLE" using s(2) by (simp add: joining_def)
    show thesis using leaves at_h fs c g w(1)
      by (simp add: te_defs ExitThread_def te_NotifyDestroyed_def te_SwitchToMainThread_def te_SwitchTo_def exit_now_def left_def)
  next
    case stray
    then have "pcs s a = AtStart \<or> pcs s a = Exited" using s(1) unfolding te_inv_def by blast
    then show thesis using w(1) by auto
  next
    case other
    then have p: "idle d" "parked a s" using joining_others [OF s(2)] by auto
    then have "cond = Running a" using other(3) w(1) by (auto simp: parked_def leaving_def)
    then show thesis using joining_idle [OF s(2)] w(2) other(2) by blast
  qed
qed

lemma left_keeps:
  assumes s: "te_inv s" "joining h s"
  shows "joining h (left h s)" "te_inv (left h s)"
proof -
  obtain c where c: "cooperative_threads s h = Some c" "running c" "terminate c" using s(2) by (rule joining_thread)
  have hm: "h \<noteq> MAIN_THREAD_HANDLE" using s(1) c by (auto simp: te_inv_def)
  have "idle d \<and> parked x (left h s)" if "cooperative_threads (left h s) x = Some d" "x \<noteq> h" for x d
    using that joining_others [OF s(2), of x d] parked_cong(1) [of "left h s" x s] by (simp add: left_def)
  then show j: "joining h (left h s)" using s(2) c hm unfolding joining_def by (simp add: left_def)
  then show "te_inv (left h s)" using s(1) by (auto simp: te_inv_def left_def)
qed

lemma removed_keeps:
  assumes s: "te_inv s" "joining h s" "pcs s h = Exited"
  shows "te_inv (removed h s)" "in_code MAIN_THREAD_HANDLE (removed h s)"
proof -
  have m: "cooperative_threads s MAIN_THREAD_HANDLE = None" using s(1) by (simp add: te_inv_def)
  show ic: "in_code MAIN_THREAD_HANDLE (removed h s)" by (simp add: in_code_def removed_def enter_def)
  have "idle d \<and> parked x (removed h s)" if "cooperative_threads (removed h s) x = Some d" for x d
    using that m joining_others [OF s(2), of x d] parked_cong(1) [of "removed h s" x s]
    by (cases "x = h"; cases "x = MAIN_THREAD_HANDLE") (simp_all add: removed_def enter_def)
  then have "turn (removed h s)" using s(2) ic
    by (auto simp: turn_alt current_ok_def others_wait_def joining_def removed_def enter_def)
  then show "te_inv (removed h s)" using s by (auto simp: te_inv_def removed_def enter_def)
qed

text \<open>Every event from a state that meets the invariant leads to one that does.\<close>

definition te_ok :: "texec \<Rightarrow> event \<Rightarrow> texec \<Rightarrow> bool" where
  "te_ok s e t \<longleftrightarrow> proper s e \<and> te_step s e t"

lemma resume_keeps:
  assumes "te_inv s" "pcs s a = Awaiting cond fs" "executor_mutex s = None" "holds cond s"
    "go_on a fs (s\<lparr>executor_mutex := Some a\<rparr>) = Done () t"
  shows "te_inv t"
proof (cases "turn s")
  case True
  then show ?thesis using resume_turn [OF assms(1) True assms(2-4)] enter_keeps(1) [OF assms(1) True assms(3)] assms(5) by simp
next
  case False
  then obtain h where j: "joining h s" using assms(1) by (auto simp: te_inv_def)
  show ?thesis using assms(1) j assms(2,4)
  proof (cases rule: resume_joining)
    case leaves
    then show ?thesis using left_keeps(2) [OF assms(1) j] assms(5) by simp
  next
    case joins
    then show ?thesis using removed_keeps(1) [OF assms(1) j] assms(5) by simp
  qed
qed

lemma te_step_keeps:
  assumes "te_inv s" "proper s e" "te_step s e t"
  shows "te_inv t"
  using assms(3,1,2)
proof cases
  case (create a new r)
  then show ?thesis using create_keeps assms(1) by blast
next
  case (switch a h r)
  then show ?thesis using switch_keeps [OF assms(1)] assms(2) by simp
next
  case (finish a)
  then show ?thesis using finish_keeps [OF assms(1)] by simp
next
  case (delete a h)
  then show ?thesis using delete_keeps [OF assms(1)] assms(2) by auto
next
  case (start h)
  then show ?thesis using start_current [OF assms(1) start(3-5)] enter_keeps(1) [OF assms(1)] by (simp add: enter_def)
next
  case (resume a cond fs)
  then show ?thesis using resume_keeps [OF assms(1)] by blast
qed

section \<open>Refinement of coroutines\<close>

definition te_abs :: "texec \<Rightarrow> coroutines" where
  "te_abs s = \<lparr>co_main = MAIN_THREAD_HANDLE, co_current = g_current_thread s,
     co_live = {h. \<exists>c. cooperative_threads s h = Some c \<and> \<not> terminate c \<and> \<not> leaving h s}\<rparr>"

lemma abs_live: "h \<in> co_live (te_abs s) \<longleftrightarrow> (\<exists>c. cooperative_threads s h = Some c \<and> \<not> terminate c \<and> \<not> leaving h s)"
  by (simp add: te_abs_def)

lemma te_abs_main [simp]: "co_main (te_abs s) = MAIN_THREAD_HANDLE"
  by (simp add: te_abs_def)

lemma te_abs_eqI: "co_main c = MAIN_THREAD_HANDLE \<Longrightarrow> g_current_thread s = co_current c \<Longrightarrow> (\<And>h. h \<in> co_live (te_abs s) \<longleftrightarrow> h \<in> co_live c) \<Longrightarrow> te_abs s = c"
  by (intro coroutines.equality) (auto simp: te_abs_def)

lemma current_live:
  assumes "turn s" "g_current_thread s \<noteq> MAIN_THREAD_HANDLE"
  shows "g_current_thread s \<in> co_live (te_abs s)"
  using assms unfolding turn_alt current_ok_def abs_live by (auto simp: in_code_def leaving_def)

lemma alive_live:
  assumes "te_inv s" "turn s" "alive h s"
  shows "h \<in> co_live (te_abs s)"
proof (cases "h = g_current_thread s")
  case True
  moreover have "h \<noteq> MAIN_THREAD_HANDLE" using assms(1,3) by (auto simp: te_inv_def alive_def)
  ultimately show ?thesis using current_live [OF assms(2)] by simp
next
  case False
  then show ?thesis using assms(2,3) others_waitD [of "g_current_thread s" s h] by (auto simp: abs_live alive_def turn_alt idle_def)
qed

lemma abs_enter:
  assumes "\<not> leaving a s"
  shows "te_abs (enter a s) = te_abs s"
  using assms by (intro te_abs_eqI) (auto simp: abs_live enter_def leaving_def te_abs_def)

lemma create_matched:
  assumes "te_inv s" "in_code a s" "new \<notin> {0, MAIN_THREAD_HANDLE}" "cooperative_threads s new = None" "te_CreateThread new s = Done r t"
  shows "co_step (te_abs s) (Create a new) (te_abs t)"
proof -
  have t: "t = s\<lparr>cooperative_threads := (cooperative_threads s)(new \<mapsto> new_CooperativeThread), pcs := (pcs s)(new := AtStart)\<rparr>"
    using assms(5) by (auto simp: te_CreateThread_def)
  have "te_abs t = (te_abs s)\<lparr>co_live := insert new (co_live (te_abs s))\<rparr>"
    by (intro te_abs_eqI) (auto simp: abs_live t leaving_def new_CooperativeThread_def te_abs_def)
  moreover have "a = co_current (te_abs s)" using te_inv_in_code [OF assms(1,2)] by (simp add: te_abs_def)
  moreover have "new \<notin> insert MAIN_THREAD_HANDLE (co_live (te_abs s))" using assms(3,4) by (simp add: abs_live)
  ultimately show ?thesis by (simp add: co_create)
qed

lemma abs_switched:
  assumes "te_inv s" "in_code a s" "h = MAIN_THREAD_HANDLE \<or> alive h s" "h \<noteq> a"
  shows "te_abs (switched a h [] s) = (te_abs s)\<lparr>co_current := h\<rparr>"
proof (rule te_abs_eqI)
  have "\<not> leaving a s" using assms(2) by (simp add: in_code_def leaving_def)
  moreover have "x \<noteq> a \<Longrightarrow> leaving x (switched a h [] s) = leaving x s" for x by (rule parked_cong) (simp add: switched_def)
  moreover have "\<not> leaving a (switched a h [] s)" by (simp add: leaving_def switched_def)
  ultimately show "x \<in> co_live (te_abs (switched a h [] s)) \<longleftrightarrow> x \<in> co_live ((te_abs s)\<lparr>co_current := h\<rparr>)" for x
    by (cases "x = a") (auto simp: abs_live switched_def te_abs_def)
qed (simp_all add: switched_def)

lemma switch_matched:
  assumes "te_inv s" "in_code a s" "h = MAIN_THREAD_HANDLE \<or> alive h s" "te_SwitchTo a h [] s = Done r t"
  shows "co_step (te_abs s) (Switch a h) (te_abs t)"
proof -
  have a: "turn s" "a = co_current (te_abs s)" using te_inv_in_code [OF assms(1,2)] by (auto simp: te_abs_def)
  have "te_abs t = (te_abs s)\<lparr>co_current := h\<rparr>"
  proof (cases "h = a")
    case True
    then show ?thesis using assms(4) a by (simp add: te_SwitchTo_def te_abs_def)
  next
    case False
    then show ?thesis using SwitchTo_switched [OF assms(1-3) False, of "[]"] abs_switched [OF assms(1-3) False] assms(4) by simp
  qed
  then show ?thesis using a assms(3) alive_live [OF assms(1) a(1)] by (auto intro: co_switch)
qed

lemma finish_matched:
  assumes "te_inv s" "in_code a s" "a \<noteq> MAIN_THREAD_HANDLE" "ExitThread a a s = Done () t"
  shows "co_step (te_abs s) (Finish a) (te_abs t)"
proof -
  have a: "turn s" "a = g_current_thread s" using te_inv_in_code [OF assms(1,2)] by auto
  have t: "t = switched a MAIN_THREAD_HANDLE [InExitThread a] (s\<lparr>destroyed := destroyed s @ [a]\<rparr>)"
    using finish_switched [OF assms(1-3)] assms(4) by simp
  have "x \<noteq> a \<Longrightarrow> leaving x t = leaving x s" for x by (rule parked_cong) (simp add: t switched_def)
  moreover have "leaving a t" using assms(3) by (simp add: leaving_def t switched_def)
  moreover have "cooperative_threads s MAIN_THREAD_HANDLE = None" using assms(1) by (simp add: te_inv_def)
  ultimately have "te_abs t = (te_abs s)\<lparr>co_current := MAIN_THREAD_HANDLE, co_live := co_live (te_abs s) - {a}\<rparr>"
    by (intro te_abs_eqI) (auto simp: abs_live t switched_def)
  moreover have "a \<in> co_live (te_abs s)" "a = co_current (te_abs s)" using a assms(3) current_live by (simp_all add: te_abs_def)
  ultimately show ?thesis using co_finish [of a "te_abs s"] by simp
qed

lemma delete_matched:
  assumes "te_inv s" "in_code MAIN_THREAD_HANDLE s" "pcs s h \<noteq> AtStart" "cooperative_threads s h \<noteq> None"
    "te_DeleteThread MAIN_THREAD_HANDLE h s = Done () t"
  shows "co_step (te_abs s) (Delete MAIN_THREAD_HANDLE h) (te_abs t)"
proof -
  have a: "MAIN_THREAD_HANDLE = g_current_thread s" and hm: "h \<noteq> MAIN_THREAD_HANDLE" and m: "cooperative_threads s MAIN_THREAD_HANDLE = None"
    using te_inv_in_code [OF assms(1,2)] assms(1,4) by (auto simp: te_inv_def)
  have t: "t = deleting h s" using delete_deleting(1) [OF assms(1-4)] assms(5) by simp
  have "cooperative_threads s x = Some c \<Longrightarrow> leaving x t = leaving x s" for x c
    using m by (intro parked_cong) (auto simp: t deleting_def)
  moreover have "cooperative_threads t = (cooperative_threads s)(h := map_option (\<lambda>c. c\<lparr>terminate := True, running := True\<rparr>) (cooperative_threads s h))"
    "g_current_thread t = g_current_thread s" by (simp_all add: t deleting_def)
  ultimately have "te_abs t = (te_abs s)\<lparr>co_live := co_live (te_abs s) - {h}\<rparr>"
    using m by (intro te_abs_eqI) (auto simp: abs_live te_abs_def)
  moreover have "MAIN_THREAD_HANDLE = co_current (te_abs s)" using a by (simp add: te_abs_def)
  ultimately show ?thesis by (simp add: co_delete)
qed

lemma resume_matched:
  assumes "te_inv s" "pcs s a = Awaiting cond fs" "executor_mutex s = None" "holds cond s"
    "go_on a fs (s\<lparr>executor_mutex := Some a\<rparr>) = Done () t"
  shows "te_abs t = te_abs s"
proof (cases "turn s")
  case True
  then have "a = g_current_thread s" "t = enter a s" using resume_turn [OF assms(1) True assms(2-4)] assms(5) by simp_all
  moreover from this have "\<not> leaving a s" using True by (auto simp: turn_alt in_code_def leaving_def)
  ultimately show ?thesis by (simp add: abs_enter)
next
  case False
  then obtain h where j: "joining h s" using assms(1) by (auto simp: te_inv_def)
  then obtain c where c: "cooperative_threads s h = Some c" "terminate c" by (rule joining_thread)
  have m: "cooperative_threads s MAIN_THREAD_HANDLE = None" using assms(1) by (simp add: te_inv_def)
  show ?thesis using assms(1) j assms(2,4)
  proof (cases rule: resume_joining)
    case leaves
    then have t: "t = left h s" using assms(5) by simp
    have "x \<noteq> h \<Longrightarrow> leaving x t = leaving x s" for x by (rule parked_cong) (simp add: t left_def)
    moreover have "cooperative_threads t = (cooperative_threads s)(h := map_option (\<lambda>c. c\<lparr>joinable := True\<rparr>) (cooperative_threads s h))"
      "g_current_thread t = g_current_thread s" by (simp_all add: t left_def)
    ultimately show ?thesis using c by (intro te_abs_eqI) (auto simp: abs_live te_abs_def)
  next
    case joins
    then have t: "t = removed h s" using assms(5) by simp
    have "cooperative_threads s x = Some d \<Longrightarrow> leaving x t = leaving x s" for x d
      using m by (intro parked_cong) (auto simp: t removed_def enter_def)
    moreover have "cooperative_threads t = (cooperative_threads s)(h := None)" "g_current_thread t = g_current_thread s"
      by (simp_all add: t removed_def enter_def)
    ultimately show ?thesis using c m by (intro te_abs_eqI) (auto simp: abs_live te_abs_def)
  qed
qed

lemma te_step_matched:
  assumes "te_inv s" "proper s e" "te_step s e t"
  shows "co_step (te_abs s) e (te_abs t)"
  using assms(3,1,2)
proof cases
  case (create a new r)
  then show ?thesis using create_matched assms(1) by blast
next
  case (switch a h r)
  then show ?thesis using switch_matched [OF assms(1)] assms(2) by simp
next
  case (finish a)
  then show ?thesis using finish_matched [OF assms(1)] by simp
next
  case (delete a h)
  then show ?thesis using delete_matched [OF assms(1)] assms(2) by auto
next
  case (start h)
  have c: "turn s" "h = g_current_thread s" using start_current [OF assms(1) start(3-5)] by simp_all
  have "h \<noteq> MAIN_THREAD_HANDLE" using start(5) assms(1) by (auto simp: holds_def te_inv_def)
  then have "h \<in> co_live (te_abs s)" using current_live c by simp
  moreover have "t = enter h s" using start(2) by (simp add: enter_def)
  moreover have "\<not> leaving h s" using start(3) by (simp add: leaving_def)
  ultimately show ?thesis using start(1) c abs_enter by (simp add: co_start te_abs_def)
next
  case (resume a cond fs)
  then show ?thesis using resume_matched [OF assms(1)] by (metis co_resume)
qed

section \<open>Runs\<close>

interpretation te: simulation te_ok te_inv te_abs co_step
  by unfold_locales (auto simp: te_ok_def intro: te_step_keeps te_step_matched)

lemma te_reached: "lts_runs te_ok new_ThreadExecutor es s \<Longrightarrow> te_inv s"
  using te.runs_keep te_inv_new by blast

section \<open>Progress\<close>

primrec internal :: "event \<Rightarrow> bool" where
  "internal (Start h) = True"
| "internal (Resume a) = True"
| "internal (Create a h) = False"
| "internal (Switch a h) = False"
| "internal (Finish a) = False"
| "internal (Delete a h) = False"

lemma te_step_functional: "te_step s e t \<Longrightarrow> te_step s e t' \<Longrightarrow> t = t'"
  by (induction rule: te_step.induct) (auto elim: te_step.cases)

text \<open>What can happen while nobody runs: the current thread goes on, or, while the main thread joins, first the thread that leaves and then the main thread.\<close>

definition next_event :: "texec \<Rightarrow> event" where
  "next_event s = (case pcs s MAIN_THREAD_HANDLE of
     Awaiting (Joinable h) _ \<Rightarrow> if pcs s h = Exited then Resume MAIN_THREAD_HANDLE else Resume h
   | _ \<Rightarrow> if pcs s (g_current_thread s) = AtStart then Start (g_current_thread s) else Resume (g_current_thread s))"

lemma next_turn:
  assumes "turn s" "executor_mutex s = None"
  shows "next_event s = (if pcs s (g_current_thread s) = AtStart then Start (g_current_thread s) else Resume (g_current_thread s))"
proof -
  have "pcs s MAIN_THREAD_HANDLE = Awaiting MainRunning []" using assms by (auto simp: turn_alt parked_def in_code_def split: if_splits)
  then show ?thesis by (simp add: next_event_def)
qed

lemma next_joining: "joining h s \<Longrightarrow> next_event s = (if pcs s h = Exited then Resume MAIN_THREAD_HANDLE else Resume h)"
  by (simp add: next_event_def joining_def)

lemma internal_next:
  assumes "te_inv s" "te_step s e t" "internal e"
  shows "e = next_event s"
  using assms(2,1,3)
proof cases
  case (start h)
  then show ?thesis using start_current [OF assms(1) start(3-5)] next_turn by simp
next
  case (resume a cond fs)
  show ?thesis
  proof (cases "turn s")
    case True
    then show ?thesis using resume_turn(1) [OF assms(1) True resume(2-4)] next_turn resume by simp
  next
    case False
    then obtain h where j: "joining h s" using assms(1) by (auto simp: te_inv_def)
    show ?thesis using assms(1) j resume(2,4)
      by (cases rule: resume_joining) (simp_all add: resume(1) next_joining [OF j])
  qed
qed auto

text \<open>When nobody runs, it can happen.\<close>

lemma progress_turn:
  assumes "te_inv s" "turn s" "executor_mutex s = None"
  shows "te_step s (next_event s) (enter (g_current_thread s) s)"
proof (cases "pcs s (g_current_thread s) = AtStart")
  let ?c = "g_current_thread s"
  case True
  then have "?c \<noteq> MAIN_THREAD_HANDLE" using assms(2,3) by (auto simp: turn_alt parked_def in_code_def)
  then have "holds (Running ?c) s" using assms(2) by (auto simp: turn_alt current_ok_def holds_def)
  then show ?thesis using start [OF True assms(3)] next_turn [OF assms(2,3)] True by (simp add: enter_def)
next
  let ?c = "g_current_thread s"
  case False
  have p: "parked ?c s" "\<not> leaving ?c s" using assms(2,3) by (auto simp: turn_alt in_code_def)
  have m: "cooperative_threads s MAIN_THREAD_HANDLE = None" using assms(1) by (simp add: te_inv_def)
  obtain cond fs where w: "pcs s ?c = Awaiting cond fs" using p(1) False by (auto simp: parked_def leaving_def split: if_splits)
  have h: "holds cond s"
  proof (cases "?c = MAIN_THREAD_HANDLE")
    case True
    then show ?thesis using p(1) w assms(2) by (auto simp: parked_def holds_def turn_alt)
  next
    case False
    then have "cond = Running ?c" using p w by (auto simp: parked_def leaving_def)
    then show ?thesis using False assms(2) by (auto simp: turn_alt current_ok_def holds_def)
  qed
  show ?thesis using resume [OF w assms(3) h resume_turn(2) [OF assms(1,2) w assms(3) h]] next_turn [OF assms(2,3)] False by simp
qed

lemma progress_joining:
  assumes "te_inv s" "joining h s"
  shows "te_step s (next_event s) (if pcs s h = Exited then removed h s else left h s)"
proof -
  have mut: "executor_mutex s = None" and w0: "pcs s MAIN_THREAD_HANDLE = Awaiting (Joinable h) [InDestructor h]" using assms(2) by (auto simp: joining_def)
  obtain c where c: "cooperative_threads s h = Some c" "running c" "terminate c"
    "parked h s \<and> pcs s h \<noteq> AtStart \<and> \<not> joinable c \<or> pcs s h = Exited \<and> joinable c"
    using assms(2) by (rule joining_thread)
  have hm: "h \<noteq> MAIN_THREAD_HANDLE" using c assms(1) by (auto simp: te_inv_def)
  show ?thesis
  proof (cases "pcs s h = Exited")
    case True
    then have h: "holds (Joinable h) s" using c by (auto simp: holds_def parked_def leaving_def split: if_splits)
    have "te_step s (Resume MAIN_THREAD_HANDLE) (removed h s)"
      by (rule resume [OF w0 mut h]) (simp add: erase_thread_def removed_def enter_def)
    then show ?thesis using True next_joining [OF assms(2)] by simp
  next
    case False
    then have p: "parked h s" "pcs s h \<noteq> AtStart" using c(4) by auto
    then obtain fs where w: "pcs s h = Awaiting (Running h) fs" using hm by (auto simp: parked_def leaving_def)
    have h: "holds (Running h) s" using c by (simp add: holds_def)
    have "te_step s (Resume h) (left h s)" using assms w h
    proof (cases rule: resume_joining)
      case leaves
      then show ?thesis using resume [OF w mut h] by simp
    qed (use False in simp)
    then show ?thesis using False next_joining [OF assms(2)] by simp
  qed
qed

lemma internal_proper: "internal e \<Longrightarrow> proper s e"
  by (cases e) auto

lemma next_internal: "internal (next_event s)"
  by (simp add: next_event_def split: pc.split condition.split)

lemma ok_next: "te_step s (next_event s) t \<Longrightarrow> te_ok s (next_event s) t"
  by (simp add: te_ok_def internal_proper next_internal)

lemma progress_removed:
  assumes "te_inv s" "joining h s" "pcs s h = Exited"
  shows "\<exists>t. te_ok s (next_event s) t \<and> in_code (g_current_thread s) t \<and> g_current_thread t = g_current_thread s"
proof -
  have "te_ok s (next_event s) (removed h s)" using progress_joining [OF assms(1,2)] assms(3) by (simp add: ok_next)
  moreover have "g_current_thread s = MAIN_THREAD_HANDLE" using assms(2) by (simp add: joining_def)
  ultimately show ?thesis using removed_keeps(2) [OF assms] by (auto simp: removed_def enter_def)
qed

lemma progress:
  assumes "te_inv s"
  shows "\<exists>es t. length es \<le> 2 \<and> list_all internal es \<and> lts_runs te_ok s es t \<and> in_code (g_current_thread s) t \<and> g_current_thread t = g_current_thread s"
proof -
  consider (running) "in_code (g_current_thread s) s" | (waiting) "turn s" "executor_mutex s = None"
    | (leaving) h where "joining h s" "pcs s h \<noteq> Exited" | (joining) h where "joining h s" "pcs s h = Exited"
    using assms by (auto simp: te_inv_def turn_alt)
  then show ?thesis
  proof cases
    case running
    then show ?thesis using runs_nil [of te_ok s] by (intro exI [of _ "[]"]) auto
  next
    case waiting
    then have "lts_runs te_ok s [next_event s] (enter (g_current_thread s) s)"
      using progress_turn [OF assms] by (simp add: runs_one ok_next)
    then show ?thesis using enter_keeps(2) [OF assms waiting] next_internal
      by (intro exI [of _ "[next_event s]"] exI [of _ "enter (g_current_thread s) s"]) (simp add: enter_def)
  next
    case (joining h)
    then obtain t where "te_ok s (next_event s) t" "in_code (g_current_thread s) t \<and> g_current_thread t = g_current_thread s"
      using progress_removed assms by blast
    then show ?thesis using next_internal by (intro exI [of _ "[next_event s]"] exI [of _ t]) (simp add: runs_one)
  next
    case (leaving h)
    let ?l = "left h s"
    have l: "te_ok s (next_event s) ?l" using progress_joining [OF assms leaving(1)] leaving(2) by (simp add: ok_next)
    have j: "te_inv ?l" "joining h ?l" "pcs ?l h = Exited" "g_current_thread ?l = g_current_thread s"
      using left_keeps [OF assms leaving(1)] by (simp_all add: left_def)
    obtain t where "te_ok ?l (next_event ?l) t" "in_code (g_current_thread s) t \<and> g_current_thread t = g_current_thread s"
      using progress_removed [OF j(1-3)] j(4) by auto
    then show ?thesis using next_internal l
      by (intro exI [of _ "[next_event s, next_event ?l]"] exI [of _ t]) (auto intro: runs_cons runs_one)
  qed
qed

section \<open>Running it\<close>

text \<open>One event as a function, to run the executor on given events.\<close>

definition state_of :: "('a, texec) outcome \<Rightarrow> texec option" where
  "state_of r = (case r of Done _ t \<Rightarrow> Some t | Stopped _ \<Rightarrow> None)"

primrec te_exec :: "texec \<Rightarrow> event \<Rightarrow> texec option" where
  "te_exec s (Create a new) = (if in_code a s \<and> new \<notin> {0, MAIN_THREAD_HANDLE} \<and> cooperative_threads s new = None then state_of (te_CreateThread new s) else None)"
| "te_exec s (Switch a h) = (if in_code a s then state_of (te_SwitchTo a h [] s) else None)"
| "te_exec s (Finish a) = (if in_code a s \<and> a \<noteq> MAIN_THREAD_HANDLE then state_of (ExitThread a a s) else None)"
| "te_exec s (Delete a h) = (if in_code a s then state_of (te_DeleteThread a h s) else None)"
| "te_exec s (Start h) = (if pcs s h = AtStart \<and> executor_mutex s = None \<and> holds (Running h) s
     then Some (s\<lparr>executor_mutex := Some h, pcs := (pcs s)(h := InCode)\<rparr>) else None)"
| "te_exec s (Resume a) = (case pcs s a of
     Awaiting cond fs \<Rightarrow> if executor_mutex s = None \<and> holds cond s then state_of (go_on a fs (s\<lparr>executor_mutex := Some a\<rparr>)) else None
   | _ \<Rightarrow> None)"

lemma state_of_Some: "state_of r = Some t \<longleftrightarrow> (\<exists>x. r = Done x t)"
  by (simp add: state_of_def split: outcome.split)

lemma te_exec_step: "te_exec s e = Some t \<longleftrightarrow> te_step s e t"
proof
  show "te_exec s e = Some t \<Longrightarrow> te_step s e t"
    by (cases e) (auto simp: state_of_Some intro: te_step.intros split: if_splits pc.splits)
  show "te_step s e t \<Longrightarrow> te_exec s e = Some t"
    by (induction rule: te_step.induct) (simp_all add: state_of_def)
qed

fun te_execs :: "texec \<Rightarrow> event list \<Rightarrow> texec option" where
  "te_execs s [] = Some s"
| "te_execs s (e # es) = (if proper s e then Option.bind (te_exec s e) (\<lambda>t. te_execs t es) else None)"

lemma te_execs_runs: "te_execs s es = Some t \<longleftrightarrow> lts_runs te_ok s es t"
proof
  show "te_execs s es = Some t \<Longrightarrow> lts_runs te_ok s es t"
    by (induction s es rule: te_execs.induct)
      (auto simp: te_ok_def te_exec_step bind_eq_Some_conv intro: lts_runs.intros split: if_splits)
  show "lts_runs te_ok s es t \<Longrightarrow> te_execs s es = Some t"
    by (induction rule: lts_runs.induct) (simp_all add: te_ok_def flip: te_exec_step)
qed

text \<open>The test of the repository: the main thread switches to the first thread, that to the second, and that back; then the executor deletes both.\<close>

definition test_SwitchTo :: "event list" where
  "test_SwitchTo = [Create 1 6, Create 1 5, Switch 1 5, Start 5, Switch 5 6, Start 6, Switch 6 1, Resume 1]"

lemmas te_eval = test_SwitchTo_def MAIN_THREAD_HANDLE_def new_ThreadExecutor_def in_code_def state_of_def te_CreateThread_def te_SwitchTo_def te_defs
  alive_def leaving_def holds_def new_CooperativeThread_def te_DeleteThread_def destructor_def DeleteBacktrace_def erase_thread_def
  ExitThread_def te_NotifyDestroyed_def te_SwitchToMainThread_def exit_now_def

definition after_test :: texec where
  "after_test = the (te_execs new_ThreadExecutor test_SwitchTo)"

lemma after_test: "te_execs new_ThreadExecutor test_SwitchTo = Some after_test" "in_code 1 after_test"
  "alive 5 after_test" "alive 6 after_test" "pcs after_test 5 \<noteq> AtStart" "g_current_thread after_test = 1"
  unfolding after_test_def by (simp_all add: te_eval)

section \<open>Properties\<close>

text \<open>C4. The executor over real threads implements coroutines: whatever the interleaving, a run of it in which the clients behave, from
  the fresh executor, is event for event a run of the abstract executor that has one current thread and a set of live ones: only the current
  thread creates, switches, returns and deletes, a switch makes its target current, and a return makes the main thread current.\<close>

theorem te_refines_coroutines:
  "lts_runs te_ok new_ThreadExecutor es s \<Longrightarrow> lts_runs co_step (new_coroutines MAIN_THREAD_HANDLE) es (te_abs s)"
proof -
  have "te_abs new_ThreadExecutor = new_coroutines MAIN_THREAD_HANDLE" by (intro te_abs_eqI) (simp_all add: abs_live new_ThreadExecutor_def new_coroutines_def)
  then show "lts_runs te_ok new_ThreadExecutor es s \<Longrightarrow> ?thesis" using te.runs_matched [of new_ThreadExecutor es s] te_inv_new by simp
qed

theorem te_refines_coroutines_witness: "lts_runs co_step (new_coroutines MAIN_THREAD_HANDLE) test_SwitchTo (te_abs after_test)"
  by (rule te_refines_coroutines) (simp add: after_test te_execs_runs [symmetric])

text \<open>C9. In every state such a run reaches, the actor that executes code is the current thread, so at most one does; and it can go on: no
  check of the executor fails when it switches to the main thread or a live thread, when a thread returns, or when the main thread deletes a
  thread that has run.\<close>

theorem te_one_runs:
  assumes "lts_runs te_ok new_ThreadExecutor es s" and "in_code a s"
  shows "a = g_current_thread s \<and>
    (h = MAIN_THREAD_HANDLE \<or> alive h s \<longrightarrow> (\<exists>r t. te_SwitchTo a h [] s = Done r t)) \<and>
    (a \<noteq> MAIN_THREAD_HANDLE \<longrightarrow> (\<exists>t. ExitThread a a s = Done () t)) \<and>
    (a = MAIN_THREAD_HANDLE \<and> cooperative_threads s h \<noteq> None \<and> pcs s h \<noteq> AtStart \<longrightarrow> (\<exists>t. te_DeleteThread a h s = Done () t))"
proof -
  have s: "te_inv s" using assms(1) by (rule te_reached)
  have a: "a = g_current_thread s" using te_inv_in_code [OF s assms(2)] by simp
  have "\<exists>r t. te_SwitchTo a h [] s = Done r t" if "h = MAIN_THREAD_HANDLE \<or> alive h s"
    using SwitchTo_switched [OF s assms(2) that] a by (cases "h = a") (auto simp: te_SwitchTo_def)
  moreover have "\<exists>t. ExitThread a a s = Done () t" if "a \<noteq> MAIN_THREAD_HANDLE" using finish_switched [OF s assms(2) that] by blast
  moreover have "\<exists>t. te_DeleteThread a h s = Done () t" if "a = MAIN_THREAD_HANDLE" "cooperative_threads s h \<noteq> None" "pcs s h \<noteq> AtStart"
    using delete_deleting(1) [OF s] assms(2) that by blast
  ultimately show ?thesis using a by blast
qed

theorem te_one_runs_witness: "1 = g_current_thread after_test \<and> (\<exists>r t. te_SwitchTo 1 5 [] after_test = Done r t) \<and> (\<exists>t. te_DeleteThread 1 5 after_test = Done () t)"
proof -
  have r: "lts_runs te_ok new_ThreadExecutor test_SwitchTo after_test" by (simp add: after_test te_execs_runs [symmetric])
  have "cooperative_threads after_test 5 \<noteq> None" using after_test(3) by (simp add: alive_def)
  then show ?thesis using te_one_runs [OF r after_test(2), of 5] after_test by (auto simp: MAIN_THREAD_HANDLE_def)
qed

text \<open>C8. No interleaving gets stuck: from every state such a run reaches, at most two internal steps (a thread starts or goes on from a wait)
  bring the current thread to its code, without a change of who is current; and there is no choice in them, at most one internal step is possible.\<close>

theorem te_progress:
  assumes "lts_runs te_ok new_ThreadExecutor es s"
  shows "(\<exists>es' t. length es' \<le> 2 \<and> list_all internal es' \<and> lts_runs te_ok s es' t \<and> in_code (g_current_thread s) t \<and>
      g_current_thread t = g_current_thread s) \<and>
    (internal e \<and> te_step s e t \<and> internal e' \<and> te_step s e' t' \<longrightarrow> e = e' \<and> t = t')"
proof -
  have s: "te_inv s" using assms by (rule te_reached)
  have "e = e' \<and> t = t'" if "internal e \<and> te_step s e t \<and> internal e' \<and> te_step s e' t'"
    using that internal_next [OF s] te_step_functional by metis
  then show ?thesis using progress [OF s] by blast
qed

text \<open>The main thread deletes a thread that waits: two steps later it runs again.\<close>

theorem te_progress_witness:
  "\<exists>es' t. length es' \<le> 2 \<and> list_all internal es' \<and> lts_runs te_ok (deleting 5 after_test) es' t \<and> in_code 1 t"
proof -
  have "te_execs new_ThreadExecutor (test_SwitchTo @ [Delete 1 5]) = Some (deleting 5 after_test)"
    unfolding after_test_def by (simp add: te_eval deleting_def)
  then have "lts_runs te_ok new_ThreadExecutor (test_SwitchTo @ [Delete 1 5]) (deleting 5 after_test)" by (simp add: te_execs_runs)
  moreover have "g_current_thread (deleting 5 after_test) = 1" using after_test by (simp add: deleting_def)
  ultimately show ?thesis using te_progress [of "test_SwitchTo @ [Delete 1 5]" "deleting 5 after_test" "Start 5" after_test "Start 5" after_test] by auto
qed

text \<open>C40. Deleting a thread that has not run yet runs it: \<open>Start\<close> does not look at \<open>terminate_\<close>, so the thread that the destructor wakes up
  executes its function, while the main thread is the current one.\<close>

theorem te_delete_unstarted:
  assumes "in_code MAIN_THREAD_HANDLE s" and "cooperative_threads s h = Some c" and "\<not> joinable c" and "pcs s h = AtStart" and "h \<noteq> MAIN_THREAD_HANDLE"
  shows "\<exists>t u. te_step s (Delete MAIN_THREAD_HANDLE h) t \<and> te_step t (Start h) u \<and> in_code h u \<and> g_current_thread u = g_current_thread s"
proof -
  let ?t = "deleting h s" let ?u = "enter h ?t"
  have "te_DeleteThread MAIN_THREAD_HANDLE h s = Done () ?t"
    using assms by (simp add: te_DeleteThread_def DeleteBacktrace_def destructor_def te_defs deleting_def)
  then have "te_step s (Delete MAIN_THREAD_HANDLE h) ?t" by (rule delete [OF assms(1)])
  moreover have "te_step ?t (Start h) ?u" unfolding enter_def
    by (rule start) (use assms in \<open>auto simp: deleting_def holds_def\<close>)
  moreover have "in_code h ?u" "g_current_thread ?u = g_current_thread s" by (simp_all add: in_code_def enter_def deleting_def)
  ultimately show ?thesis by blast
qed

theorem te_delete_unstarted_witness:
  "\<exists>s t u. te_execs new_ThreadExecutor [Create 1 5] = Some s \<and> te_step s (Delete 1 5) t \<and> te_step t (Start 5) u \<and> in_code 5 u \<and> g_current_thread u = 1"
proof -
  define s where "s = the (te_execs new_ThreadExecutor [Create 1 5])"
  have s: "te_execs new_ThreadExecutor [Create 1 5] = Some s" "in_code MAIN_THREAD_HANDLE s" "cooperative_threads s 5 = Some new_CooperativeThread"
    "pcs s 5 = AtStart" "g_current_thread s = 1" unfolding s_def by (simp_all add: te_eval)
  then show ?thesis using te_delete_unstarted [OF s(2,3) _ s(4)] by (auto simp: new_CooperativeThread_def MAIN_THREAD_HANDLE_def)
qed

text \<open>A thread that has returned is reported a second time when it is deleted.\<close>

lemma te_destroyed_twice:
  assumes "lts_runs te_ok new_ThreadExecutor es s" "in_code MAIN_THREAD_HANDLE s" "cooperative_threads s h \<noteq> None" "leaving h s"
  shows "\<exists>t u. te_ok s (Delete MAIN_THREAD_HANDLE h) t \<and> te_ok t (Resume h) u \<and> destroyed u = destroyed s @ [h]"
proof -
  have s: "te_inv s" using assms(1) by (rule te_reached)
  have ne: "pcs s h \<noteq> AtStart" using assms(4) by (simp add: leaving_def)
  have t: "te_ok s (Delete MAIN_THREAD_HANDLE h) (deleting h s)" "joining h (deleting h s)"
    using delete_deleting [OF s assms(2) ne assms(3)] assms(2,3) ne by (auto simp: te_ok_def intro: delete)
  have "te_inv (deleting h s)" using t(1) te.keeps [OF s] by blast
  moreover have "h \<noteq> MAIN_THREAD_HANDLE" using s assms(3) by (auto simp: te_inv_def)
  then have "pcs (deleting h s) h \<noteq> Exited" using assms(4) by (simp add: deleting_def leaving_def)
  ultimately have "te_ok (deleting h s) (Resume h) (left h (deleting h s))"
    using progress_joining [OF _ t(2)] next_joining [OF t(2)] by (simp add: te_ok_def)
  moreover have "destroyed (left h (deleting h s)) = destroyed s @ [h]" by (simp add: left_def deleting_def)
  ultimately show ?thesis using t(1) by blast
qed

end
