(* ===== verification/Coroutine.thy ===== *)
theory Coroutine
  imports ExecutorSpec
begin

text \<open>
  The executor the fuzzer runs, \<open>fuzz/executor/coroutine_executor.cc\<close>, step by step. The other theories see it from the inside of one thread, where
  a switch is a call that comes back; here all threads are in view, and a switch leaves one of them and goes on in another.

  libco is a parameter: a record of its three functions on a state of its own. The theorems assume what its documentation says of them
  (\<open>libco_ok\<close>): the active coroutine is the one that was switched to last, and a derived coroutine has the address of its memory as its handle
  and does not run yet. The functions of the threads are arbitrary, so that a pending function is only known by the thread it belongs to.
\<close>

section \<open>State\<close>

definition KERNEL_STACK_SIZE :: nat where
  "KERNEL_STACK_SIZE = 4096 * 32"

record 'c libco =
  lc_active :: "'c \<Rightarrow> handle"
  lc_switch :: "handle \<Rightarrow> 'c \<Rightarrow> 'c"
  lc_derive :: "ptr \<Rightarrow> nat \<Rightarrow> 'c \<Rightarrow> handle \<times> 'c"

definition libco_ok :: "'c libco \<Rightarrow> bool" where
  "libco_ok L \<longleftrightarrow> (\<forall>h c. lc_active L (lc_switch L h c) = h) \<and>
     (\<forall>p n c. fst (lc_derive L p n c) = p \<and> lc_active L (snd (lc_derive L p n c)) = lc_active L c)"

text \<open>Where a thread is: it has not begun, it runs, it is inside of \<open>SwitchTo\<close> called by its own code, or by \<open>CallPendingFunctionThenSwap\<close>
  after its function has returned.\<close>

datatype cpc = NotBegun | Runs | Away | AwayForGood

record 'c cexec =
  cx_libco :: 'c
  cx_current :: handle
  cx_main_thread :: handle
  pending_functions :: "handle set"
  cx_backtraces :: "handle set"
  mappings :: "ptr set"
  cx_pcs :: "handle \<Rightarrow> cpc"
  cx_destroyed :: "handle list"

definition new_CoroutineExecutor :: "'c libco \<Rightarrow> 'c \<Rightarrow> 'c cexec" where
  "new_CoroutineExecutor L c = \<lparr>cx_libco = c, cx_current = lc_active L c, cx_main_thread = lc_active L c, pending_functions = {}, cx_backtraces = {},
     mappings = {}, cx_pcs = (\<lambda>h. if h = lc_active L c then Runs else NotBegun), cx_destroyed = []\<rparr>"

section \<open>Operations\<close>

text \<open>\<open>mmapped\<close> is the answer of \<open>mmap\<close> and \<open>guarded\<close> says whether \<open>mprotect\<close> succeeded.\<close>

definition cx_CreateThread :: "'c libco \<Rightarrow> ptr option \<Rightarrow> bool \<Rightarrow> (handle, 'c cexec) prog" where
  "cx_CreateThread L mmapped guarded = (\<lambda>s. case mmapped of
     None \<Rightarrow> Stopped HostAbort
   | Some mapping \<Rightarrow>
       if \<not> guarded then Stopped HostAbort
       else let (thread, c) = lc_derive L (mapping + 0x1000) KERNEL_STACK_SIZE (cx_libco s)
            in Done thread (s\<lparr>cx_libco := c, mappings := insert mapping (mappings s),
                 pending_functions := insert thread (pending_functions s), cx_pcs := (cx_pcs s)(thread := NotBegun)\<rparr>))"

text \<open>Control arrives at the active coroutine: at the start of \<open>CallPendingFunctionThenSwap\<close>, up to the call of the function, or behind
  \<open>co_switch\<close>. A thread that has ended would leave its entry function, which libco does not allow.\<close>

definition call_pending :: "'c libco \<Rightarrow> (unit, 'c cexec) prog" where
  "call_pending L = (\<lambda>s. let active = lc_active L (cx_libco s); t = s\<lparr>cx_current := active\<rparr> in
     if active = cx_main_thread s then Stopped HostAbort
     else if active \<notin> pending_functions s then Stopped HostAbort
     else Done () (t\<lparr>pending_functions := pending_functions t - {active}, cx_pcs := (cx_pcs t)(active := Runs)\<rparr>))"

definition arrive :: "'c libco \<Rightarrow> (unit, 'c cexec) prog" where
  "arrive L = (\<lambda>s. let active = lc_active L (cx_libco s) in case cx_pcs s active of
     NotBegun \<Rightarrow> call_pending L s
   | Away \<Rightarrow> Done () (s\<lparr>cx_current := active, cx_pcs := (cx_pcs s)(active := Runs)\<rparr>)
   | AwayForGood \<Rightarrow> Stopped MemFault
   | Runs \<Rightarrow> Stopped MemFault)"

text \<open>A switch by the active coroutine, which is afterwards \<open>away\<close>. Switching to a stack that is not mapped faults.\<close>

definition stack_mapped :: "handle \<Rightarrow> 'c cexec \<Rightarrow> bool" where
  "stack_mapped h s \<longleftrightarrow> h = cx_main_thread s \<or> 0x1000 \<le> h \<and> h - 0x1000 \<in> mappings s"

definition cx_SwitchTo :: "'c libco \<Rightarrow> bool \<Rightarrow> cpc \<Rightarrow> handle \<Rightarrow> (unit, 'c cexec) prog" where
  "cx_SwitchTo L is_verbose away handle =
     bindM (getsM (\<lambda>s. lc_active L (cx_libco s))) (\<lambda>self.
       if self = handle then retM ()
       else
         thenM (whenM is_verbose (modifyM (\<lambda>s. s\<lparr>cx_backtraces := insert (cx_current s) (cx_backtraces s)\<rparr>)))
        (bindM (getsM (stack_mapped handle)) (\<lambda>ok.
           if \<not> ok then stopM MemFault
           else thenM (modifyM (\<lambda>s. s\<lparr>cx_libco := lc_switch L handle (cx_libco s), cx_pcs := (cx_pcs s)(self := away)\<rparr>)) (arrive L))))"

definition cx_SwitchToMainThread :: "'c libco \<Rightarrow> bool \<Rightarrow> cpc \<Rightarrow> (unit, 'c cexec) prog" where
  "cx_SwitchToMainThread L is_verbose away = bindM (getsM cx_main_thread) (cx_SwitchTo L is_verbose away)"

text \<open>The end of \<open>CallPendingFunctionThenSwap\<close>, when the function of the thread \<open>active\<close> has returned.\<close>

definition pending_returned :: "'c libco \<Rightarrow> bool \<Rightarrow> handle \<Rightarrow> (unit, 'c cexec) prog" where
  "pending_returned L is_verbose active =
     thenM (modifyM (\<lambda>s. s\<lparr>cx_destroyed := cx_destroyed s @ [active]\<rparr>)) (cx_SwitchToMainThread L is_verbose AwayForGood)"

definition cx_DeleteThread :: "'c libco \<Rightarrow> handle \<Rightarrow> (unit, 'c cexec) prog" where
  "cx_DeleteThread L handle =
     thenM (modifyM (\<lambda>s. s\<lparr>cx_backtraces := cx_backtraces s - {handle}, mappings := mappings s - {handle - 0x1000}\<rparr>))
    (bindM (getsM (\<lambda>s. stack_mapped (lc_active L (cx_libco s)) s)) (\<lambda>ok. if ok then retM () else stopM MemFault))"

definition cx_GetCurrentThreadHandle :: "'c cexec \<Rightarrow> handle" where
  "cx_GetCurrentThreadHandle s = cx_current s"

definition cx_GetMainThreadHandle :: "'c cexec \<Rightarrow> handle" where
  "cx_GetMainThreadHandle s = cx_main_thread s"

section \<open>Steps\<close>

definition cx_runs :: "'c libco \<Rightarrow> handle \<Rightarrow> 'c cexec \<Rightarrow> bool" where
  "cx_runs L a s \<longleftrightarrow> lc_active L (cx_libco s) = a \<and> cx_pcs s a = Runs"

text \<open>\<open>mmap\<close> gives memory that is not mapped yet, away from the stack of the main thread.\<close>

inductive cx_step :: "'c libco \<Rightarrow> bool \<Rightarrow> 'c cexec \<Rightarrow> event \<Rightarrow> 'c cexec \<Rightarrow> bool" for L is_verbose where
  cx_create: "cx_runs L a s \<Longrightarrow> mapping \<notin> mappings s \<Longrightarrow> mapping + 0x1000 \<noteq> cx_main_thread s \<Longrightarrow>
     cx_CreateThread L (Some mapping) True s = Done h t \<Longrightarrow> cx_step L is_verbose s (Create a h) t"
| cx_switch: "cx_runs L a s \<Longrightarrow> cx_SwitchTo L is_verbose Away h s = Done () t \<Longrightarrow> cx_step L is_verbose s (Switch a h) t"
| cx_finish: "cx_runs L a s \<Longrightarrow> a \<noteq> cx_main_thread s \<Longrightarrow> pending_returned L is_verbose a s = Done () t \<Longrightarrow>
     cx_step L is_verbose s (Finish a) t"
| cx_delete: "cx_runs L a s \<Longrightarrow> cx_DeleteThread L h s = Done () t \<Longrightarrow> cx_step L is_verbose s (Delete a h) t"

text \<open>The scheduler deletes threads from the main thread. Unlike the executor over \<open>std::thread\<close>, this one lets it delete any thread; and
  switching to a thread that has ended faults, so nothing need be said of switches.\<close>

fun cx_proper :: "'c cexec \<Rightarrow> event \<Rightarrow> bool" where
  "cx_proper s (Delete a h) = (a = cx_main_thread s \<and> h \<noteq> cx_main_thread s \<and> stack_mapped h s)"
| "cx_proper s _ = True"

definition cx_ok :: "'c libco \<Rightarrow> bool \<Rightarrow> 'c cexec \<Rightarrow> event \<Rightarrow> 'c cexec \<Rightarrow> bool" where
  "cx_ok L is_verbose s e t \<longleftrightarrow> cx_proper s e \<and> cx_step L is_verbose s e t"

section \<open>The invariant\<close>

text \<open>The active coroutine is the one in \<open>g_current_thread\<close> and the only one that runs, a thread that has not begun has its function pending, and the
  main thread never ends.\<close>

definition cx_inv :: "'c libco \<Rightarrow> 'c cexec \<Rightarrow> bool" where
  "cx_inv L s \<longleftrightarrow> libco_ok L \<and> lc_active L (cx_libco s) = cx_current s \<and> stack_mapped (cx_current s) s \<and>
     (\<forall>h. stack_mapped h s \<longrightarrow> (cx_pcs s h = Runs \<longleftrightarrow> h = cx_current s)) \<and>
     (\<forall>h. stack_mapped h s \<longrightarrow> cx_pcs s h = NotBegun \<longrightarrow> h \<noteq> cx_main_thread s \<and> h \<in> pending_functions s) \<and>
     cx_pcs s (cx_main_thread s) \<noteq> AwayForGood \<and> (\<forall>m \<in> mappings s. m + 0x1000 \<noteq> cx_main_thread s)"

definition cx_abs :: "'c cexec \<Rightarrow> coroutines" where
  "cx_abs s = \<lparr>co_main = cx_main_thread s, co_current = cx_current s,
     co_live = {h. h \<noteq> cx_main_thread s \<and> stack_mapped h s \<and> cx_pcs s h \<noteq> AwayForGood}\<rparr>"

lemma cx_abs_fields [simp]: "co_main (cx_abs s) = cx_main_thread s" "co_current (cx_abs s) = cx_current s"
  by (simp_all add: cx_abs_def)

lemma cx_abs_live: "h \<in> co_live (cx_abs s) \<longleftrightarrow> h \<noteq> cx_main_thread s \<and> stack_mapped h s \<and> cx_pcs s h \<noteq> AwayForGood"
  by (simp add: cx_abs_def)

lemma cx_inv_new: "libco_ok L \<Longrightarrow> cx_inv L (new_CoroutineExecutor L c)"
  by (simp add: cx_inv_def new_CoroutineExecutor_def stack_mapped_def)

lemma cx_abs_new: "cx_abs (new_CoroutineExecutor L c) = new_coroutines (lc_active L c)"
  by (auto simp: cx_abs_def new_coroutines_def new_CoroutineExecutor_def stack_mapped_def)

lemma stack_mapped_cong: "cx_main_thread t = cx_main_thread s \<Longrightarrow> mappings t = mappings s \<Longrightarrow> stack_mapped h t = stack_mapped h s"
  by (simp add: stack_mapped_def)

lemma cx_runs_current: "cx_inv L s \<Longrightarrow> cx_runs L a s \<Longrightarrow> a = cx_current s"
  by (simp add: cx_inv_def cx_runs_def)

section \<open>Switching\<close>

text \<open>What a switch to another thread that can run amounts to.\<close>

definition moved :: "'c libco \<Rightarrow> bool \<Rightarrow> cpc \<Rightarrow> handle \<Rightarrow> 'c cexec \<Rightarrow> 'c cexec" where
  "moved L is_verbose away h s = s\<lparr>cx_libco := lc_switch L h (cx_libco s), cx_current := h,
     pending_functions := (if cx_pcs s h = NotBegun then pending_functions s - {h} else pending_functions s),
     cx_backtraces := (if is_verbose then insert (cx_current s) (cx_backtraces s) else cx_backtraces s),
     cx_pcs := (cx_pcs s)(cx_current s := away, h := Runs)\<rparr>"

lemma cx_SwitchTo_runs:
  assumes "cx_inv L s"
  shows "cx_SwitchTo L is_verbose away h s =
    (if h = cx_current s then Done () s
     else if stack_mapped h s \<and> cx_pcs s h \<noteq> AwayForGood then Done () (moved L is_verbose away h s)
     else Stopped MemFault)"
proof (cases "h = cx_current s \<or> \<not> stack_mapped h s")
  case True
  then show ?thesis using assms by (auto simp: cx_SwitchTo_def cx_inv_def stack_mapped_def whenM_def)
next
  case False
  then have h: "lc_active L (cx_libco s) \<noteq> h" "stack_mapped h s" "cx_pcs s h \<noteq> Runs" and a: "lc_active L (cx_libco s) = cx_current s"
    and n: "cx_pcs s h = NotBegun \<Longrightarrow> h \<noteq> cx_main_thread s \<and> h \<in> pending_functions s" and l: "\<And>c. lc_active L (lc_switch L h c) = h"
    using assms by (auto simp: cx_inv_def libco_ok_def)
  have m: "stack_mapped h (s\<lparr>cx_backtraces := b\<rparr>)" for b using h(2) by (simp add: stack_mapped_def)
  show ?thesis using False h n l m unfolding a
    by (cases "cx_pcs s h") (auto simp: cx_SwitchTo_def arrive_def call_pending_def moved_def whenM_def a)
qed

lemma moved_keeps:
  assumes s: "cx_inv L s" and h: "h \<noteq> cx_current s" "stack_mapped h s" "cx_pcs s h \<noteq> AwayForGood"
    and away: "away = Away \<or> away = AwayForGood \<and> cx_current s \<noteq> cx_main_thread s"
  shows "cx_inv L (moved L is_verbose away h s)"
proof -
  let ?t = "moved L is_verbose away h s"
  have m: "stack_mapped x ?t = stack_mapped x s" for x by (rule stack_mapped_cong) (simp_all add: moved_def)
  have "lc_active L (cx_libco ?t) = h" "cx_current ?t = h" "cx_main_thread ?t = cx_main_thread s" "mappings ?t = mappings s"
    "\<And>x. cx_pcs ?t x = (if x = h then Runs else if x = cx_current s then away else cx_pcs s x)"
    "\<And>x. x \<noteq> h \<Longrightarrow> x \<in> pending_functions ?t \<longleftrightarrow> x \<in> pending_functions s"
    using s by (auto simp: moved_def cx_inv_def libco_ok_def)
  then show ?thesis using s h away unfolding cx_inv_def m by auto
qed

lemma moved_abs:
  assumes "h \<noteq> cx_current s" "stack_mapped h s" "cx_pcs s h \<noteq> AwayForGood" "cx_pcs s (cx_current s) = Runs"
  shows "cx_abs (moved L is_verbose away h s) =
    (cx_abs s)\<lparr>co_current := h, co_live := (if away = AwayForGood then co_live (cx_abs s) - {cx_current s} else co_live (cx_abs s))\<rparr>"
proof -
  have "stack_mapped x (moved L is_verbose away h s) = stack_mapped x s" for x by (rule stack_mapped_cong) (simp_all add: moved_def)
  then show ?thesis using assms by (auto simp: cx_abs_def moved_def)
qed

section \<open>Every step is a step of the specification\<close>

lemma cx_current_live:
  assumes "cx_inv L s" "cx_current s \<noteq> cx_main_thread s"
  shows "cx_current s \<in> co_live (cx_abs s)"
proof -
  have "stack_mapped (cx_current s) s" "cx_pcs s (cx_current s) = Runs" using assms(1) by (simp_all add: cx_inv_def)
  then show ?thesis using assms(2) by (simp add: cx_abs_def)
qed

lemma cx_switch_step:
  assumes s: "cx_inv L s" and "cx_SwitchTo L is_verbose Away h s = Done () t"
  shows "cx_inv L t \<and> co_step (cx_abs s) (Switch (cx_current s) h) (cx_abs t)"
proof (cases "h = cx_current s")
  case True
  then have "t = s" using assms by (simp add: cx_SwitchTo_runs)
  moreover have "co_step (cx_abs s) (Switch (cx_current s) h) ((cx_abs s)\<lparr>co_current := h\<rparr>)"
    using True cx_current_live [OF s] by (intro co_switch) (auto simp: cx_abs_def)
  ultimately show ?thesis using s True by (simp add: cx_abs_def)
next
  case False
  then have h: "stack_mapped h s" "cx_pcs s h \<noteq> AwayForGood" and t: "t = moved L is_verbose Away h s"
    using assms by (auto simp: cx_SwitchTo_runs split: if_splits)
  have r: "cx_pcs s (cx_current s) = Runs" using s by (simp add: cx_inv_def)
  have "co_step (cx_abs s) (Switch (cx_current s) h) ((cx_abs s)\<lparr>co_current := h\<rparr>)"
    using h by (intro co_switch) (auto simp: cx_abs_def)
  then show ?thesis using moved_keeps [OF s False h] moved_abs [OF False h r, of L is_verbose Away] by (simp add: t)
qed

lemma cx_finish_step:
  assumes s: "cx_inv L s" and a: "cx_current s \<noteq> cx_main_thread s"
  shows "\<exists>t. pending_returned L is_verbose (cx_current s) s = Done () t \<and> cx_inv L t \<and> co_step (cx_abs s) (Finish (cx_current s)) (cx_abs t)"
proof -
  let ?s = "s\<lparr>cx_destroyed := cx_destroyed s @ [cx_current s]\<rparr>" let ?t = "moved L is_verbose AwayForGood (cx_main_thread s) ?s"
  have m: "stack_mapped h ?s = stack_mapped h s" for h by (rule stack_mapped_cong) simp_all
  have i: "cx_inv L ?s" using s unfolding cx_inv_def m by simp
  have abs: "cx_abs ?s = cx_abs s" unfolding cx_abs_def m by simp
  have main: "cx_main_thread ?s \<noteq> cx_current ?s" "stack_mapped (cx_main_thread ?s) ?s" "cx_pcs ?s (cx_main_thread ?s) \<noteq> AwayForGood"
    using a s by (simp_all add: stack_mapped_def cx_inv_def)
  have r: "cx_pcs ?s (cx_current ?s) = Runs" using s by (simp add: cx_inv_def)
  have "pending_returned L is_verbose (cx_current s) s = Done () ?t"
    using cx_SwitchTo_runs [OF i, of is_verbose AwayForGood "cx_main_thread ?s"] main
    by (simp add: pending_returned_def cx_SwitchToMainThread_def)
  moreover have "cx_inv L ?t" using moved_keeps [OF i main, of AwayForGood is_verbose] a by simp
  moreover have "cx_abs ?t = (cx_abs s)\<lparr>co_current := co_main (cx_abs s), co_live := co_live (cx_abs s) - {cx_current s}\<rparr>"
    using moved_abs [OF main r, of L is_verbose AwayForGood] unfolding abs by simp
  then have "co_step (cx_abs s) (Finish (cx_current s)) (cx_abs ?t)"
    using co_finish [of "cx_current s" "cx_abs s"] cx_current_live [OF s a] by simp
  ultimately show ?thesis by blast
qed

lemma cx_create_step:
  assumes s: "cx_inv L s" and new: "mapping \<notin> mappings s" "mapping + 0x1000 \<noteq> cx_main_thread s"
  shows "\<exists>t. cx_CreateThread L (Some mapping) True s = Done (mapping + 0x1000) t \<and> cx_inv L t \<and>
    co_step (cx_abs s) (Create (cx_current s) (mapping + 0x1000)) (cx_abs t)"
proof -
  let ?h = "mapping + 0x1000"
  obtain c where d: "lc_derive L ?h KERNEL_STACK_SIZE (cx_libco s) = (?h, c)" "lc_active L c = lc_active L (cx_libco s)"
    using s unfolding cx_inv_def libco_ok_def by (metis prod.collapse)
  define t where "t = s\<lparr>cx_libco := c, mappings := insert mapping (mappings s), pending_functions := insert ?h (pending_functions s),
    cx_pcs := (cx_pcs s)(?h := NotBegun)\<rparr>"
  have run: "cx_CreateThread L (Some mapping) True s = Done ?h t" by (simp add: cx_CreateThread_def d t_def)
  have m: "stack_mapped x t \<longleftrightarrow> x = ?h \<or> stack_mapped x s" for x
    by (auto simp: stack_mapped_def t_def)
  have fresh: "\<not> stack_mapped ?h s" using new by (simp add: stack_mapped_def)
  then have cur: "cx_current s \<noteq> ?h" using s by (auto simp: cx_inv_def)
  have "cx_inv L t" using s new fresh cur d(2) unfolding cx_inv_def m by (auto simp: t_def)
  moreover have "cx_abs t = (cx_abs s)\<lparr>co_live := insert ?h (co_live (cx_abs s))\<rparr>"
    unfolding cx_abs_def m using new fresh by (auto simp: t_def)
  moreover have "?h \<notin> insert (co_main (cx_abs s)) (co_live (cx_abs s))" using new fresh by (simp add: cx_abs_live)
  ultimately show ?thesis using run co_create [of "cx_current s" "cx_abs s" ?h] by simp
qed

lemma cx_delete_step:
  assumes s: "cx_inv L s" and h: "cx_current s = cx_main_thread s" "h \<noteq> cx_main_thread s" "stack_mapped h s"
  shows "\<exists>t. cx_DeleteThread L h s = Done () t \<and> cx_inv L t \<and> co_step (cx_abs s) (Delete (cx_current s) h) (cx_abs t)"
proof -
  define t where "t = s\<lparr>cx_backtraces := cx_backtraces s - {h}, mappings := mappings s - {h - 0x1000}\<rparr>"
  have a: "lc_active L (cx_libco s) = cx_main_thread s" using s h(1) by (simp add: cx_inv_def)
  then have run: "cx_DeleteThread L h s = Done () t" by (simp add: cx_DeleteThread_def stack_mapped_def t_def)
  have m: "stack_mapped x t \<longleftrightarrow> x \<noteq> h \<and> stack_mapped x s" for x
    using h s by (auto simp: stack_mapped_def t_def cx_inv_def)
  have "cx_inv L t" using s h unfolding cx_inv_def m by (auto simp: t_def)
  moreover have "cx_abs t = (cx_abs s)\<lparr>co_live := co_live (cx_abs s) - {h}\<rparr>"
    unfolding cx_abs_def m by (auto simp: t_def)
  ultimately show ?thesis using run co_delete [of "cx_current s" "cx_abs s" h] h(1) by simp
qed

lemma cx_step_matched:
  assumes s: "cx_inv L s" and "cx_ok L is_verbose s e t"
  shows "cx_inv L t \<and> co_step (cx_abs s) e (cx_abs t)"
proof -
  have p: "cx_proper s e" and "cx_step L is_verbose s e t" using assms(2) by (simp_all add: cx_ok_def)
  from this(2) show ?thesis
  proof cases
    case (cx_create a mapping h)
    then show ?thesis using cx_create_step [OF s cx_create(3,4)] cx_runs_current [OF s] by auto
  next
    case (cx_switch a h)
    then show ?thesis using cx_switch_step [OF s] cx_runs_current [OF s] by auto
  next
    case (cx_finish a)
    then show ?thesis using cx_finish_step [OF s, of is_verbose] cx_runs_current [OF s] by auto
  next
    case (cx_delete a h)
    then show ?thesis using cx_delete_step [OF s, of h] cx_runs_current [OF s] p by auto
  qed
qed

interpretation cx: simulation "cx_ok L is_verbose" "cx_inv L" cx_abs co_step for L is_verbose
  by unfold_locales (use cx_step_matched in blast)+

section \<open>Running it\<close>

text \<open>One event as a function, to run the executor on given events.\<close>

definition cx_state :: "('a, 's) outcome \<Rightarrow> 's option" where
  "cx_state r = (case r of Done _ t \<Rightarrow> Some t | Stopped _ \<Rightarrow> None)"

fun cx_exec :: "'c libco \<Rightarrow> bool \<Rightarrow> 'c cexec \<Rightarrow> event \<Rightarrow> 'c cexec option" where
  "cx_exec L v s (Create a h) = (if cx_runs L a s \<and> 0x1000 \<le> h \<and> h - 0x1000 \<notin> mappings s \<and> h \<noteq> cx_main_thread s then
     (case cx_CreateThread L (Some (h - 0x1000)) True s of Done h' t \<Rightarrow> if h' = h then Some t else None | Stopped _ \<Rightarrow> None) else None)"
| "cx_exec L v s (Switch a h) = (if cx_runs L a s then cx_state (cx_SwitchTo L v Away h s) else None)"
| "cx_exec L v s (Finish a) = (if cx_runs L a s \<and> a \<noteq> cx_main_thread s then cx_state (pending_returned L v a s) else None)"
| "cx_exec L v s (Delete a h) = (if cx_runs L a s then cx_state (cx_DeleteThread L h s) else None)"
| "cx_exec L v s _ = None"

lemma cx_exec_step:
  assumes "cx_exec L v s e = Some t"
  shows "cx_step L v s e t"
proof (cases e)
  case (Create a h)
  then have "cx_runs L a s" "h - 0x1000 \<notin> mappings s" "h - 0x1000 + 0x1000 \<noteq> cx_main_thread s" "cx_CreateThread L (Some (h - 0x1000)) True s = Done h t"
    using assms by (auto split: if_splits outcome.splits)
  then show ?thesis unfolding Create by (rule cx_create)
qed (use assms in \<open>auto simp: cx_state_def split: if_splits outcome.splits intro: cx_step.intros\<close>)

fun cx_execs :: "'c libco \<Rightarrow> bool \<Rightarrow> 'c cexec \<Rightarrow> event list \<Rightarrow> 'c cexec option" where
  "cx_execs L v s [] = Some s"
| "cx_execs L v s (e # es) = (if cx_proper s e then Option.bind (cx_exec L v s e) (\<lambda>t. cx_execs L v t es) else None)"

lemma cx_execs_runs: "cx_execs L v s es = Some t \<Longrightarrow> lts_runs (cx_ok L v) s es t"
proof (induction es arbitrary: s)
  case (Cons e es)
  then obtain u where u: "cx_proper s e" "cx_exec L v s e = Some u" "cx_execs L v u es = Some t"
    by (auto simp: bind_eq_Some_conv split: if_splits)
  then have "cx_ok L v s e u" by (simp add: cx_ok_def cx_exec_step)
  then show ?case using Cons.IH [OF u(3)] by (rule runs_cons)
qed (simp add: runs_nil)

section \<open>Properties\<close>

text \<open>C5. The executor of the fuzzer implements coroutines. With libco as documented, a run of it from its construction, in which only the main
  thread deletes threads, is event for event a run of the abstract executor; \<open>g_current_thread\<close> always names the active coroutine; and a switch
  is exact: to the main thread or a live thread it arrives there, to any other handle it faults.\<close>

theorem cx_refines_coroutines:
  assumes "libco_ok L" and "lts_runs (cx_ok L is_verbose) (new_CoroutineExecutor L c) es s"
  shows "lts_runs co_step (new_coroutines (lc_active L c)) es (cx_abs s) \<and> cx_GetCurrentThreadHandle s = lc_active L (cx_libco s) \<and>
    (if h = cx_main_thread s \<or> h \<in> co_live (cx_abs s) then \<exists>t. cx_SwitchTo L is_verbose Away h s = Done () t \<and> cx_runs L h t
     else cx_SwitchTo L is_verbose Away h s = Stopped MemFault)"
proof -
  have inv: "cx_inv L s" using cx.runs_keep [OF assms(2)] cx_inv_new [OF assms(1)] by blast
  have r: "lts_runs co_step (new_coroutines (lc_active L c)) es (cx_abs s)"
    using cx.runs_matched [OF assms(2)] cx_inv_new [OF assms(1)] by (simp add: cx_abs_new)
  have run: "\<exists>t. cx_SwitchTo L is_verbose Away h s = Done () t \<and> cx_runs L h t" if "h = cx_main_thread s \<or> h \<in> co_live (cx_abs s)"
  proof (cases "h = cx_current s")
    case True
    then show ?thesis using inv by (simp add: cx_SwitchTo_runs [OF inv] cx_runs_def cx_inv_def)
  next
    case False
    have "stack_mapped h s" "cx_pcs s h \<noteq> AwayForGood" using that inv by (auto simp: cx_abs_live cx_inv_def stack_mapped_def)
    then show ?thesis using False assms(1) by (auto simp: cx_SwitchTo_runs [OF inv] cx_runs_def moved_def libco_ok_def)
  qed
  have fault: "cx_SwitchTo L is_verbose Away h s = Stopped MemFault" if "\<not> (h = cx_main_thread s \<or> h \<in> co_live (cx_abs s))"
    using that inv by (auto simp: cx_SwitchTo_runs [OF inv] cx_abs_live cx_inv_def)
  have "cx_GetCurrentThreadHandle s = lc_active L (cx_libco s)" using inv by (simp add: cx_inv_def cx_GetCurrentThreadHandle_def)
  then show ?thesis using r run fault by auto
qed

text \<open>A libco that only knows which coroutine is active, and the test of the repository: main, the first thread, the second, main.\<close>

definition libco_example :: "handle libco" where
  "libco_example = \<lparr>lc_active = (\<lambda>c. c), lc_switch = (\<lambda>h c. h), lc_derive = (\<lambda>p n c. (p, c))\<rparr>"

definition cx_test :: "event list" where
  "cx_test = [Create 1 0x3000, Create 1 0x5000, Switch 1 0x5000, Switch 0x5000 0x3000, Switch 0x3000 1, Delete 1 0x5000]"

lemmas cx_eval = cx_test_def libco_example_def new_CoroutineExecutor_def cx_runs_def cx_CreateThread_def KERNEL_STACK_SIZE_def cx_state_def
  cx_SwitchTo_def stack_mapped_def arrive_def call_pending_def whenM_def cx_DeleteThread_def

theorem cx_refines_coroutines_witness:
  "\<exists>s. lts_runs co_step (new_coroutines 1) cx_test (cx_abs s) \<and> cx_SwitchTo libco_example False Away 0x5000 s = Stopped MemFault"
proof -
  define s where "s = the (cx_execs libco_example False (new_CoroutineExecutor libco_example 1) cx_test)"
  have ok: "libco_ok libco_example" by (simp add: libco_ok_def libco_example_def)
  have "cx_execs libco_example False (new_CoroutineExecutor libco_example 1) cx_test = Some s" unfolding s_def by (simp add: cx_eval Let_def)
  then have r: "lts_runs (cx_ok libco_example False) (new_CoroutineExecutor libco_example 1) cx_test s" by (rule cx_execs_runs)
  have "0x5000 - 0x1000 \<notin> mappings s \<and> cx_main_thread s = 1" unfolding s_def by (simp add: cx_eval Let_def)
  then have "\<not> (0x5000 = cx_main_thread s \<or> 0x5000 \<in> co_live (cx_abs s))" by (simp add: cx_abs_live stack_mapped_def)
  moreover have "lc_active libco_example 1 = 1" by (simp add: libco_example_def)
  ultimately show ?thesis using cx_refines_coroutines [OF ok r, where h = "0x5000"] by auto
qed

end
