(* ===== verification/Diagnostics.thy ===== *)
theory Diagnostics
  imports ThreadApi Deadlock
begin

text \<open>
  What the host says about its threads: the rest of \<open>fuzz/host/host.cc\<close> (the report of a deadlock, of a thread in a bad state, the name of a
  thread, the stack a continuation reuses) and \<open>FuzzedScheduler::PrintThreadState\<close>. Printed text is a string, a report is the list of its
  parts; stack traces are values of their own, of which only the owner matters.
\<close>

section \<open>Threads\<close>

definition ThreadStarted :: "(unit, 'z host_scheme) prog" where
  "ThreadStarted = ThreadResumed"

definition NotifyEndOfSession :: "(unit, 'z lhost_scheme) prog" where
  "NotifyEndOfSession = ReportSession"

definition host_IsHwTicketLockValid :: "ptr \<Rightarrow> (bool, 'z lhost_scheme) prog" where
  "host_IsHwTicketLockValid tlock = tlock_IsValid tlock"

text \<open>The buffer of 4096 bytes is read as a C string, up to the terminator.\<close>

definition HostGetThreadInfo :: "'z xnu_machine \<Rightarrow> thread_t \<Rightarrow> string" where
  "HostGetThreadInfo xm th = (if th = 0 then [] else takeWhile (\<lambda>c. c \<noteq> CHR 0x00) (XNUGetThreadInfo xm th 4096))"

lemma HostGetThreadInfo_length: "length (HostGetThreadInfo xm th) \<le> 4095"
proof -
  have "length (takeWhile (\<lambda>c. c \<noteq> CHR 0x00) (take 4095 n @ [CHR 0x00])) \<le> 4095" for n
  proof -
    have "takeWhile (\<lambda>c. c \<noteq> CHR 0x00) (take 4095 n @ [CHR 0x00]) = takeWhile (\<lambda>c. c \<noteq> CHR 0x00) (take 4095 n)"
      by (induction "take 4095 n") (simp_all add: takeWhile_tail)
    then show ?thesis using length_takeWhile_le [of "\<lambda>c. c \<noteq> CHR 0x00" "take 4095 n"] by simp
  qed
  then show ?thesis by (simp add: HostGetThreadInfo_def XNUGetThreadInfo_def)
qed

datatype bad_state = RUNNING_AFTER_CONTINUATION

fun ReportBadThreadState :: "bad_state \<Rightarrow> (unit, 's) prog" where
  "ReportBadThreadState RUNNING_AFTER_CONTINUATION = abortM"

section \<open>Stacks of continuations\<close>

text \<open>The saved stack pointers by thread; \<open>sp\<close> is what \<open>GetStackPointer\<close> returns to the current thread.\<close>

type_synonym stack_map = "handle \<rightharpoonup> u64"

definition SaveStackPointerForContinuation :: "handle \<Rightarrow> u64 \<Rightarrow> stack_map \<Rightarrow> stack_map" where
  "SaveStackPointerForContinuation self sp m = m(self \<mapsto> sp AND NOT 0xFF)"

definition GetStackPointerForContinuation :: "handle \<Rightarrow> u64 \<Rightarrow> stack_map \<Rightarrow> u64 \<times> stack_map" where
  "GetStackPointerForContinuation self sp m = (case m self of
     Some p \<Rightarrow> (p, m)
   | None \<Rightarrow> let m' = SaveStackPointerForContinuation self sp m in (the (m' self), m'))"

text \<open>The calls of the threads, in the order of the run, each with the stack pointer at the call.\<close>

fun continuation_stacks :: "(handle \<times> u64) list \<Rightarrow> stack_map \<Rightarrow> u64 list \<times> stack_map" where
  "continuation_stacks [] m = ([], m)"
| "continuation_stacks ((self, sp) # calls) m =
     (let (p, m') = GetStackPointerForContinuation self sp m; (ps, m'') = continuation_stacks calls m' in (p # ps, m''))"

lemma GetStackPointer_keeps: "m h = Some p \<Longrightarrow> snd (GetStackPointerForContinuation self sp m) h = Some p"
  by (auto simp: GetStackPointerForContinuation_def SaveStackPointerForContinuation_def Let_def split: option.split)

lemma continuation_stacks_keep: "m h = Some p \<Longrightarrow> snd (continuation_stacks calls m) h = Some p"
proof (induction calls arbitrary: m)
  case (Cons c calls)
  then show ?case using GetStackPointer_keeps [of m h p "fst c" "snd c"] by (cases c) (simp add: split_beta Let_def)
qed simp

lemma continuation_stacks_answer:
  "(h, p) \<in> set (zip (map fst calls) (fst (continuation_stacks calls m))) \<Longrightarrow> snd (continuation_stacks calls m) h = Some p"
proof (induction calls arbitrary: m)
  case (Cons c calls)
  let ?r = "GetStackPointerForContinuation (fst c) (snd c) m"
  have "snd ?r (fst c) = Some (fst ?r)"
    by (auto simp: GetStackPointerForContinuation_def SaveStackPointerForContinuation_def Let_def split: option.split)
  then have "snd (continuation_stacks calls (snd ?r)) (fst c) = Some (fst ?r)" by (rule continuation_stacks_keep)
  then show ?case using Cons.IH [of "snd ?r"] Cons.prems by (cases c) (auto simp: split_beta Let_def)
qed simp

text \<open>The continuations of a thread run on one stack: however the calls of the threads interleave, and wherever the stack pointer is at
  each call, two calls of one thread get the same address, and it is a multiple of 256.\<close>

lemma continuation_stack_reused:
  assumes "(h, p) \<in> set (zip (map fst calls) (fst (continuation_stacks calls m)))"
    and "(h, q) \<in> set (zip (map fst calls) (fst (continuation_stacks calls m)))"
  shows "p = q"
  using continuation_stacks_answer [OF assms(1)] continuation_stacks_answer [OF assms(2)] by simp

lemma continuation_stack_aligned:
  assumes "m self = None"
  shows "take_bit 8 (fst (GetStackPointerForContinuation self sp m)) = 0"
proof -
  have "0xFF = (mask 8 :: u64)" by (simp add: mask_eq_exp_minus_1)
  then have "take_bit 8 (sp AND NOT 0xFF) = 0" by (simp add: take_bit_and) 
  then show ?thesis using assms by (simp add: GetStackPointerForContinuation_def SaveStackPointerForContinuation_def Let_def)
qed

section \<open>The state of a thread in the scheduler\<close>

text \<open>The flags are printed like those of the guest; the line ends only when there was one.\<close>

definition PrintThreadState :: "handle \<Rightarrow> 'z sched_scheme \<Rightarrow> string" where
  "PrintThreadState h s =
     (let (printed, txt) = fold print_flag
        [(sIsRunnable h s, ''RUNNABLE''), (h \<in> live_set s, ''ALIVE''), (h \<in> pending_deletion s, ''PENDING DELETION'')] (False, [])
      in ''; '' @ txt @ (if printed then ''\<newline>'' else []))"

section \<open>The report of a deadlock\<close>

datatype report = BlockedOn handle thread_debug_state sync_ref | ThreadBacktrace handle | LockedHere handle | ConstructedHere sync_ref

text \<open>\<open>locked_by\<close> lists the threads that locked an object, in the order of the table of backtraces.\<close>

definition report_blocked :: "(thread_t \<Rightarrow> ptr) \<Rightarrow> (sync_ref \<Rightarrow> handle list) \<Rightarrow> handle \<Rightarrow> (report list, 'z lhost_scheme) prog" where
  "report_blocked waitq_of locked_by h =
     bindM (getsM (HandleToThreadT h)) (\<lambda>th.
     bindM (GetThreadState waitq_of th) (\<lambda>st.
     bindM (GetObjectWithWaiter h) (\<lambda>sync. case sync of
        None \<Rightarrow> retM []
      | Some r \<Rightarrow> retM (BlockedOn h st r # ThreadBacktrace h # map LockedHere (locked_by r) @ [ConstructedHere r]))))"

primrec deadlock_report :: "(thread_t \<Rightarrow> ptr) \<Rightarrow> (sync_ref \<Rightarrow> handle list) \<Rightarrow> handle list \<Rightarrow> (report list, 'z lhost_scheme) prog" where
  "deadlock_report waitq_of locked_by [] = retM []"
| "deadlock_report waitq_of locked_by (h # hs) =
     bindM (report_blocked waitq_of locked_by h) (\<lambda>r. bindM (deadlock_report waitq_of locked_by hs) (\<lambda>rs. retM (r @ rs)))"

definition ReportDeadlock :: "(thread_t \<Rightarrow> ptr) \<Rightarrow> (sync_ref \<Rightarrow> handle list) \<Rightarrow> handle list \<Rightarrow> (unit, 'z lhost_scheme) prog" where
  "ReportDeadlock waitq_of locked_by handles = bindM (deadlock_report waitq_of locked_by handles) (\<lambda>_. abortM)"

fun blocked_line :: "report \<Rightarrow> (handle \<times> sync_ref) option" where
  "blocked_line (BlockedOn h st r) = Some (h, r)"
| "blocked_line (ThreadBacktrace h) = None"
| "blocked_line (LockedHere h) = None"
| "blocked_line (ConstructedHere r) = None"

lemma deadlock_report_lines:
  fixes s :: "'z lhost_scheme"
  assumes "tracker_ok s" and "\<forall>h \<in> set handles. Host.threads s (HandleToThreadT h s) \<noteq> None"
  shows "\<exists>rs. deadlock_report waitq_of locked_by handles s = Done rs s \<and>
     List.map_filter blocked_line rs = List.map_filter (\<lambda>h. map_option (Pair h) (wanted_by s h)) handles"
  using assms(2)
proof (induction handles)
  case (Cons h hs)
  then obtain rs where "deadlock_report waitq_of locked_by hs s = Done rs s"
    "List.map_filter blocked_line rs = List.map_filter (\<lambda>h. map_option (Pair h) (wanted_by s h)) hs" by auto
  moreover have "List.map_filter blocked_line (map LockedHere xs @ ys) = List.map_filter blocked_line ys" for xs ys
    by (induction xs) (simp_all add: List.map_filter_def)
  moreover obtain k where "Host.threads s (HandleToThreadT h s) = Some k" using Cons.prems by auto
  ultimately show ?case using GetObjectWithWaiter_runs [OF assms(1), of h]
    by (cases "wanted_by s h") (auto simp: report_blocked_def GetThreadState_def kthread_get_def List.map_filter_def)
qed (simp add: List.map_filter_def)

end
