(* ===== verification/Spec2Isabelle.thy ===== *)
theory Spec2Isabelle
  imports Packets Command Session Hypercall Logger Target ZoneStack Locks ThreadApi SyncShims Deadlock Backend RootDevice Vfs Clock Pmap
    FakeImpls Mcache SchedTable Stubs StubTable StdThread Coroutine Diagnostics
begin

text \<open>
  SockFuzzer runs parts of the XNU kernel as a user-space library under a fuzzer. This development models the code that SockFuzzer itself
  adds around the kernel and proves what it has to guarantee. All paths below are relative to \<open>src/\<close>.

  \<^bold>\<open>The program.\<close> There are four layers.
  \<^item> The \<^emph>\<open>fuzz target\<close> (\<open>fuzz/target/xnu_fuzzer.cc\<close>) receives a protocol buffer, the session, and hands it to the
    \<^emph>\<open>handlers\<close> (\<open>fuzz/handlers/\<close>), which create three guest threads and turn each command into a system call, a Mach trap,
    a Mach message or a packet.
  \<^item> The \<^emph>\<open>host\<close> (\<open>fuzz/host/\<close>, \<open>fuzz/executor/\<close>, \<open>third_party/concurrence/\<close>) runs the guest threads as coroutines, of which one
    runs at a time. The input decides at each blocking point which thread runs next. Locks of the guest are objects of the host.
  \<^item> The \<^emph>\<open>hypercall interface\<close> (\<open>fuzz/host/hypercall/\<close>) is the table of functions through which the guest reaches the host.
  \<^item> The \<^emph>\<open>fakes\<close> (\<open>fuzz/xnu/osfmk/\<close>, \<open>fuzz/xnu/bsd/\<close>) replace the machine-dependent and the uninteresting parts of the kernel: memory
    zones, physical memory, clocks, locks, copies from user space, the file system, the scheduler's table and some four hundred stubs.
  The kernel itself, libco, libFuzzer's data provider, protocol buffers and abseil are not part of the sources.

  \<^bold>\<open>The model.\<close> A function that reads or writes state is a program \<open>('a, 's) prog\<close> (theory Prelude): it returns a value in a new state,
  or it is \<open>Stopped\<close> with the reason: an abort of the host, a panic, a failed assertion, an access that traps, a call that does not return to its
  caller, or a loop that does not end. The state is one record that grows by extension, one record per layer, so that each operation is typed
  with the fields it may touch: \<open>mach\<close> (heap and input), \<open>sched\<close> (run queue), \<open>host\<close> (threads), \<open>lhost\<close> (locks), \<open>shost\<close>
  (lock shims), \<open>tstate\<close> (tasks), \<open>bstate\<close> (mbufs), \<open>cstate\<close> (connection ids), \<open>sstate\<close> (thread names), \<open>lgstate\<close> (log); the zone allocator,
  pmap, mcache, root device and file system extend \<open>mach\<close> on their own. Machine integers are words; sizes and addresses that the code only
  adds and compares are naturals with the bound written out where the code wraps. Code outside of the sources is a parameter: \<open>fdp\<close> (the data
  provider), \<open>xnu_thread\<close>, \<open>xnu_machine\<close>, \<open>xnu_lock\<close>, \<open>xnu_task\<close>, \<open>xnu_bsd\<close>, \<open>xnu_zone\<close> and the like are records of the XNU functions and
  constants that a component uses, and a theorem that relies on them says so in a hypothesis. \<open>co_switch\<close> of \<open>xnu_thread\<close> is the switch of
  coroutines: all that other threads do until control comes back.

  \<^bold>\<open>Theories, in the order of dependence.\<close>
  \<^item> Prelude: words, programs, loops, rules for total correctness (\<open>runs\<close>). Libc: the C heap with its invariant, \<open>malloc\<close> to \<open>realloc\<close>,
    loads, stores and copies. FuzzData: the input hypercalls of \<open>hypercall.cc\<close>. Machine: both together.
  \<^item> RunQueue (\<open>third_party/concurrence/scheduler/fuzzed_scheduler.cc\<close>), Host (\<open>fuzz/host/host.cc\<close>), VirtualSync
    (\<open>third_party/concurrence/sync/\<close>, \<open>fuzz/host/hw_ticket_lock_manager.cc\<close>), RwLock (\<open>sync/rwlock.cc\<close> in segments), Deadlock (\<open>sync/tracker.cc\<close>), Locks
    (\<open>osfmk/fakes/locks.c\<close>), SyncShims (\<open>osfmk/fakes/sync/\<close>), ThreadApi (\<open>osfmk/api/thread.c\<close>, \<open>osfmk/fakes/thread.c\<close>),
    Diagnostics (the reports of \<open>host.cc\<close> and \<open>PrintThreadState\<close>), ExecutorSpec (the contract of an executor), Coroutine (\<open>fuzz/executor/coroutine_executor.cc\<close>
    with all threads in view) and StdThread (\<open>third_party/concurrence/executor/\<close>, the executor over \<open>std::thread\<close>: one mutex is the token to
    run, one flag per thread says whose turn it is).
  \<^item> Zalloc, ZoneCreate and ZoneStack (\<open>osfmk/fakes/zalloc.c\<close>), Mcache (\<open>bsd/fakes/mcache.c\<close>), Pmap, Clock, Platform, Copyio, Atomic,
    SchedTable, FakeImpls, RootDevice, Vfs (the files of these names under \<open>fakes/\<close>), Stubs and StubTable (\<open>osfmk_stubs.c\<close>, \<open>stubs.c\<close>).
  \<^item> MachBackend (\<open>osfmk/api/osfmk_backend.c\<close>), Backend (\<open>bsd/api/bsd_backend.c\<close>, \<open>bsd/fakes/mbuf.c\<close>), Ioctl (\<open>bsd/api/ioctl.c\<close>).
  \<^item> Packets (\<open>handlers/bsd.cc\<close>), Messages (\<open>handlers/mach_message.cc\<close>, \<open>mig_types.cc\<close>), ReturnCodes and Command (\<open>handlers/command.cc\<close>,
    \<open>necp.cc\<close>), Session (\<open>handlers/session.cc\<close>, \<open>command_thread.cc\<close>, the main loop and the start of the host), Hypercall
    (\<open>hypercall.cc\<close> as a table), Logger (\<open>fuzz/host/logger.cc\<close>), Target (\<open>xnu_fuzzer.cc\<close>).

  \<^bold>\<open>What is shown.\<close>
  \<^item> Scheduling: choosing a thread ends and gives a live thread of the queue (RunQueue); no sequence of hypercalls breaks the queue
    (Hypercall, a step relation with rule induction over lemmas for each layer), so that after any of them a thread can still be chosen (below); the main loop ends when each coroutine runs to its end (Session); waking, waiting
    and blocking as state changes of a thread, with the defects of the code (Host, ThreadApi).
  \<^item> Executors: both implementations refine one abstract executor, \<open>coroutines\<close> (step relations, an invariant each, and a forward simulation). The one
    of the fuzzer keeps \<open>g_current_thread\<close> equal to the active coroutine and switches exactly to its target (Coroutine). The one over real threads does
    so under every interleaving; its actor is the current thread, none of its checks fails and it never gets stuck, with progress in at most two
    steps, which are determined (StdThread), for clients that switch to live threads and delete threads that have run.
  \<^item> Locks: the operations of the reader-writer lock are the runs of their segments between two blocking calls, and under every interleaving
    of these segments readers and writers exclude each other (RwLock); the deadlock search finds exactly the cycles of the
    objects it knows, and misses those through the inner mutex of a reader-writer lock (Deadlock).
  \<^item> Memory: fresh zeroed elements, round trips of allocation and release for single elements, bulk operations and cache chains, the stack of
    elements refines a list, zone creation keeps the zone table, chooses the best granule and refuses
    exactly the requests that are listed (Zalloc, ZoneCreate, ZoneStack, Mcache, Pmap).
  \<^item> Test cases: the packed arguments of a message read back (Command), the layout of Mach messages
    (Messages), the headers of packets read back, and the packets reach the stack empty (Packets), ioctls by name (Ioctl, Command), random system calls restore
    what they block (Backend), the log prints pointers with names that are unique until they run out (Logger).
  \<^item> Input: copies from user space, for real or from the bytes of the input (Copyio); compare-and-exchange (Atomic).

  \<^bold>\<open>Interfaces.\<close> Contracts that several components share are locales, interpreted on the model: \<open>block_allocator\<close> (the C heap, kernel
  memory, permanent zones, pmaps), \<open>memory_cell\<close> (32 and 64 bits), \<open>lifo\<close> (the element stack), \<open>run_queue\<close> (the scheduler's queue),
  \<open>thread_flag\<close> (the four flags of a thread), \<open>sleep_lock\<close> (mutexes, spin locks and ticket locks), \<open>simulation\<close> (steps of an
  implementation matched by steps of its specification; both executors).

  \<^bold>\<open>Bounds.\<close> A loop of the sources that waits for other threads, or that need not end, has a bound in the model and answers \<open>Diverge\<close> when it is
  used up. The bound of a lock is the number of times the thread is resumed and still finds the lock taken; the properties of mutexes and ticket locks are for
  lock attempts that find the lock free or that return, and those of reader-writer locks hold for any number of resumptions. \<open>RunUntilEmpty\<close> needs at most as many switches as its measure of the work that is left, and with
  coroutines that run to their end as many as there are live threads. The search for deadlocks is bounded by the number of objects, \<open>reap_all\<close> by one call, since
  \<open>XNUReapInitChildren\<close> always answers false, the chain of a cache by its length, and the draws of a name are shown to be enough
  for some bound while names are left and for none afterwards. All other loops are total functions with a measure.

  \<^bold>\<open>Not modelled.\<close> The content of stack traces and the colours of tools, which no code reads back. The switch of stacks itself and \<open>setjmp\<close>: entering a continuation and leaving through \<open>SyscallReturn\<close> are runs that do not
  return to the caller, so \<open>CommandThread\<close> ends with the first command that leaves this way. The names that \<open>pthread_setname_np\<close> gives to
  threads and the thread ids of the operating system; \<open>std::thread::join\<close> is taken to return for a thread that has unlocked the mutex for the last
  time. The mocks, the tests, the sanitizer hooks, the generator of system-call wrappers and its generated code. The static tables of \<open>kalloc\<close> size classes, which no
  function of the sources reads. Interleavings inside an operation: coroutines switch only at the calls that the model shows.
\<close>

section \<open>Scheduling under an arbitrary guest\<close>

lemma queue_inv_sched_wf: "queue_inv t \<Longrightarrow> length (runnable t) < 2 ^ 63 \<Longrightarrow> sched_wf t"
  by (simp add: queue_inv_def sched_wf_def)

text \<open>C3. The guest cannot break the scheduler. After any hypercalls, in any order and number, as long as they return and the queue has fewer than
  2 to the 63 entries, the choice of the next thread ends. It gives a thread that is live, not dying and was queued, and is not the main thread; or the current
  thread, where that is allowed; or 0 when no thread can run. It takes the thread from the queue, and the guest can go on: the queue is in order again.\<close>

theorem choice_after_hypercalls:
  assumes "guest_keeps e" and "queue_inv s" and "hc_reaches e s t" and "length (runnable t) < 2 ^ 63"
    and "can_choose_existing \<longrightarrow> current t \<noteq> main_handle t"
  shows "\<exists>h u. ChooseThread can_choose_existing t = Done h u \<and> queue_inv u \<and> h \<notin> set (runnable u) \<and>
     (h \<in> schedulable t \<and> h \<noteq> main_handle t \<or> can_choose_existing \<and> h = current t \<or>
      \<not> can_choose_existing \<and> h = 0 \<and> schedulable t = {})"
proof -
  have t: "queue_inv t" using assms(1-3) by (rule hc_reaches_queue_inv)
  then have "sched_wf t" using assms(4) by (rule queue_inv_sched_wf)
  from ChooseThread_runs [OF this, of can_choose_existing] obtain h u where u:
    "ChooseThread can_choose_existing t = Done h u" "sched_wf u" "h \<notin> set (runnable u)"
    "h \<in> schedulable t \<or> can_choose_existing \<and> h = current t \<or> \<not> can_choose_existing \<and> h = 0 \<and> schedulable t = {}"
    using assms(5) by (fastforce simp: schedulable_def same_threads_def)
  moreover have "queue_inv u" using u(2) by (simp add: queue_inv_def sched_wf_def)
  moreover have "h \<in> schedulable t \<Longrightarrow> h \<noteq> main_handle t" using t by (auto simp: queue_inv_def schedulable_def)
  ultimately show ?thesis by blast
qed

theorem choice_after_hypercalls_witness:
  "\<exists>t h u. hc_reaches hc_env_example sstate_example t \<and> runnable t = [5] \<and> ChooseThread False t = Done h u \<and> queue_inv u \<and> h \<in> {0, 5}"
proof -
  obtain t where t: "run_hypercall hc_env_example (Thread (Hc_ThreadSetSuspended 700)) sstate_example = Done RVoid t" "runnable t = [5]"
    using sstate_example_fields by (simp add: void_def log_id_def GetId_def SetSuspended_def IsRunnable_def sIsRunnable_def ThreadTToHandle_def
        SetNotRunnable_def MakeNotRunnable_def)
  have r: "hc_reaches hc_env_example sstate_example t" using hc_call [OF hc_none t(1)] .
  from choice_after_hypercalls [OF hc_env_example_keeps sstate_example_queue r, of False] t(2) obtain h u where
    "ChooseThread False t = Done h u" "queue_inv u" "h \<in> schedulable t \<or> h = 0" by auto
  moreover have "schedulable t \<subseteq> {5}" using t(2) by (auto simp: schedulable_def)
  ultimately show ?thesis using r t(2) by blast
qed

end
